(* ===== verification/Prelude.thy ===== *)
theory Prelude
  imports Main "HOL-Library.Word" "HOL-Library.AList"
begin

text \<open>
  Vocabulary shared by every component of the development: the result type that stands for
  Rust's \<open>Result\<close>, the parts of the Rust standard library the sources use (string splitting,
  ASCII case folding, decimal printing, saturating arithmetic, \<open>HashMap\<close>), the interface of a
  key-value store as a locale, and the generic notion of a reachable state.
\<close>

section \<open>Collections\<close>

named_theorems rust_std \<open>unfolding rules of the modelled standard library\<close>
named_theorems decide_simps \<open>closed forms of the boolean decision functions of the components\<close>

section \<open>Results\<close>

text \<open>Rust's \<open>Result<T, E>\<close>: \<open>Inl\<close> is \<open>Err\<close>, \<open>Inr\<close> is \<open>Ok\<close>.\<close>

type_synonym ('e, 'a) result = "'e + 'a"

abbreviation Ok :: "'a \<Rightarrow> ('e, 'a) result" where
  "Ok x \<equiv> Inr x"

abbreviation Err :: "'e \<Rightarrow> ('e, 'a) result" where
  "Err e \<equiv> Inl e"

fun is_ok :: "('e, 'a) result \<Rightarrow> bool" where
  "is_ok (Inl e) = False"
| "is_ok (Inr x) = True"

fun and_then :: "('e, 'a) result \<Rightarrow> ('a \<Rightarrow> ('e, 'b) result) \<Rightarrow> ('e, 'b) result" where
  "and_then (Inl e) f = Inl e"
| "and_then (Inr x) f = f x"

lemma is_ok_iff: "is_ok r \<longleftrightarrow> (\<exists>x. r = Inr x)"
  by (cases r) auto

lemma and_then_eq_Inr: "and_then r f = Inr y \<longleftrightarrow> (\<exists>x. r = Inr x \<and> f x = Inr y)"
  by (cases r) auto

lemma is_ok_unit: "is_ok r \<longleftrightarrow> r = Inr ()"
  by (cases r) auto

section \<open>Strings\<close>

text \<open>\<open>str::split_once\<close> on a character: splits at its first occurrence.\<close>

fun split_once :: "char \<Rightarrow> string \<Rightarrow> (string \<times> string) option" where
  "split_once c [] = None"
| "split_once c (x # xs) =
     (if x = c then Some ([], xs)
      else map_option (\<lambda>(a, b). (x # a, b)) (split_once c xs))"

lemma split_once_append:
  "c \<notin> set a \<Longrightarrow> split_once c (a @ c # b) = Some (a, b)"
  by (induction a) auto

lemma split_once_None: "split_once c s = None \<longleftrightarrow> c \<notin> set s"
  by (induction s) auto

lemma split_once_Some: "split_once c s = Some (a, b) \<Longrightarrow> s = a @ c # b \<and> c \<notin> set a"
  by (induction s arbitrary: a b) (auto split: if_splits)

text \<open>\<open>str::eq_ignore_ascii_case\<close>: bytes are compared after folding \<open>A..Z\<close> to \<open>a..z\<close>.\<close>

definition ascii_lower :: "char \<Rightarrow> char" where
  "ascii_lower c =
     (let n = (of_char c :: nat) in if 65 \<le> n \<and> n \<le> 90 then char_of (n + 32) else c)"

definition eq_ignore_ascii_case :: "string \<Rightarrow> string \<Rightarrow> bool" where
  "eq_ignore_ascii_case a b \<longleftrightarrow> map ascii_lower a = map ascii_lower b"

lemma eq_ignore_ascii_case_refl [simp]: "eq_ignore_ascii_case a a"
  by (simp add: eq_ignore_ascii_case_def)

text \<open>\<open>Display\<close> of an unsigned integer: its decimal digits without leading zeros.\<close>

definition digit_char :: "nat \<Rightarrow> char" where
  "digit_char d = char_of (48 + d)"

fun nat_str :: "nat \<Rightarrow> string" where
  "nat_str n = (if n < 10 then [digit_char n] else nat_str (n div 10) @ [digit_char (n mod 10)])"

declare nat_str.simps [simp del]

lemma digit_char_code: "d < 10 \<Longrightarrow> of_char (digit_char d) = (48 + d :: nat)"
  by (simp add: digit_char_def)

lemma nat_str_digits: "c \<in> set (nat_str n) \<Longrightarrow> (48 :: nat) \<le> of_char c \<and> of_char c \<le> (57 :: nat)"
proof (induction n rule: nat_str.induct)
  case (1 n)
  show ?case
  proof (cases "n < 10")
    case True
    with "1.prems" show ?thesis by (simp add: nat_str.simps [of n] digit_char_code)
  next
    case False
    have "n mod 10 < 10" by simp
    with False "1" show ?thesis
      by (auto simp: nat_str.simps [of n] digit_char_code)
  qed
qed

section \<open>Saturating arithmetic\<close>

text \<open>\<open>saturating_add\<close>, \<open>saturating_sub\<close> and \<open>saturating_mul\<close> of the unsigned machine integers.\<close>

definition saturating_add :: "'w::len word \<Rightarrow> 'w word \<Rightarrow> 'w word" where
  "saturating_add a b = (if unat a + unat b < 2 ^ LENGTH('w) then a + b else - 1)"

definition saturating_sub :: "'w::len word \<Rightarrow> 'w word \<Rightarrow> 'w word" where
  "saturating_sub a b = (if b \<le> a then a - b else 0)"

definition saturating_mul :: "'w::len word \<Rightarrow> 'w word \<Rightarrow> 'w word" where
  "saturating_mul a b = (if unat a * unat b < 2 ^ LENGTH('w) then a * b else - 1)"

lemma unat_max_word: "unat (- 1 :: 'w::len word) = 2 ^ LENGTH('w) - 1"
  by (simp add: unsigned_minus_1_eq_mask mask_eq_exp_minus_1)

lemma unat_saturating_add [rust_std]:
  "unat (saturating_add a (b :: 'w::len word)) = min (unat a + unat b) (2 ^ LENGTH('w) - 1)"
  by (auto simp: saturating_add_def unat_max_word unat_word_ariths(1) min_def)

lemma unat_saturating_sub [rust_std]: "unat (saturating_sub a (b :: 'w::len word)) = unat a - unat b"
  by (auto simp: saturating_sub_def unat_sub word_le_nat_alt)

lemma unat_saturating_mul [rust_std]:
  "unat (saturating_mul a (b :: 'w::len word)) = min (unat a * unat b) (2 ^ LENGTH('w) - 1)"
proof (cases "unat a * unat b < 2 ^ LENGTH('w)")
  case True
  then have "unat a * unat b \<le> 2 ^ LENGTH('w) - 1" by linarith
  with True show ?thesis by (simp add: saturating_mul_def unat_word_ariths(2) min_absorb1)
next
  case False
  then have "2 ^ LENGTH('w) - 1 \<le> unat a * unat b" by linarith
  with False show ?thesis by (simp add: saturating_mul_def unat_max_word min_def)
qed

text \<open>The largest values of the machine integers, as the proofs need them.\<close>

lemma unat_u32: "unat (a :: 32 word) < 2 ^ 32"
  using unsigned_less [of a, where ?'a = nat] by simp

lemma unat_u64: "unat (a :: 64 word) < 2 ^ 64"
  using unsigned_less [of a, where ?'a = nat] by simp

section \<open>Hash maps\<close>

text \<open>
  The interface of \<open>std::collections::HashMap\<close> the components rely on. Iteration order is not
  part of it: \<open>entries\<close> only promises each binding once.
\<close>

locale key_value_store =
  fixes empty :: "'m"
    and insert :: "'k \<Rightarrow> 'v \<Rightarrow> 'm \<Rightarrow> 'm"
    and remove :: "'k \<Rightarrow> 'm \<Rightarrow> 'm"
    and get :: "'m \<Rightarrow> 'k \<Rightarrow> 'v option"
    and entries :: "'m \<Rightarrow> ('k \<times> 'v) list"
    and wf :: "'m \<Rightarrow> bool"
  assumes get_empty [simp]: "get empty k = None"
    and get_insert: "get (insert k v m) k' = (if k' = k then Some v else get m k')"
    and get_remove: "wf m \<Longrightarrow> get (remove k m) k' = (if k' = k then None else get m k')"
    and entries_get: "wf m \<Longrightarrow> (k, v) \<in> set (entries m) \<longleftrightarrow> get m k = Some v"
    and wf_empty: "wf empty"
    and wf_insert: "wf m \<Longrightarrow> wf (insert k v m)"
    and wf_remove: "wf m \<Longrightarrow> wf (remove k m)"
begin

lemma get_insert_same [simp]: "get (insert k v m) k = Some v"
  by (simp add: get_insert)

lemma get_insert_other: "k' \<noteq> k \<Longrightarrow> get (insert k v m) k' = get m k'"
  by (simp add: get_insert)

lemma get_remove_same: "wf m \<Longrightarrow> get (remove k m) k = None"
  by (simp add: get_remove)

lemma remove_insert: "wf m \<Longrightarrow> get (remove k (insert k v m)) k' = get (remove k m) k'"
  by (simp add: get_insert get_remove wf_insert)

lemma values_iff: "wf m \<Longrightarrow> v \<in> set (map snd (entries m)) \<longleftrightarrow> (\<exists>k. get m k = Some v)"
  by (force simp flip: entries_get)

end

text \<open>The model of a hash map: an association list with distinct keys.\<close>

type_synonym ('k, 'v) hash_map = "('k \<times> 'v) list"

definition hm_empty :: "('k, 'v) hash_map" where
  "hm_empty = []"

definition hm_insert :: "'k \<Rightarrow> 'v \<Rightarrow> ('k, 'v) hash_map \<Rightarrow> ('k, 'v) hash_map" where
  "hm_insert k v m = AList.update k v m"

definition hm_remove :: "'k \<Rightarrow> ('k, 'v) hash_map \<Rightarrow> ('k, 'v) hash_map" where
  "hm_remove k m = AList.delete k m"

definition hm_get :: "('k, 'v) hash_map \<Rightarrow> 'k \<Rightarrow> 'v option" where
  "hm_get m k = map_of m k"

definition hm_wf :: "('k, 'v) hash_map \<Rightarrow> bool" where
  "hm_wf m \<longleftrightarrow> distinct (map fst m)"

definition hm_values :: "('k, 'v) hash_map \<Rightarrow> 'v list" where
  "hm_values m = map snd m"

lemmas hm_defs = hm_empty_def hm_insert_def hm_remove_def hm_get_def hm_wf_def hm_values_def

interpretation hm: key_value_store hm_empty hm_insert hm_remove hm_get "\<lambda>m. m" hm_wf
proof unfold_locales
  fix m :: "('k, 'v) hash_map" and k k' v
  show "hm_get (hm_insert k v m) k' = (if k' = k then Some v else hm_get m k')"
    by (simp add: hm_defs update_conv')
  show "hm_wf m \<Longrightarrow> hm_get (hm_remove k m) k' = (if k' = k then None else hm_get m k')"
    by (simp add: hm_defs delete_conv')
  show "hm_wf m \<Longrightarrow> (k, v) \<in> set m \<longleftrightarrow> hm_get m k = Some v"
    by (auto simp: hm_defs map_of_eq_Some_iff)
  show "hm_wf m \<Longrightarrow> hm_wf (hm_insert k v m)"
    by (simp add: hm_defs distinct_update)
  show "hm_wf m \<Longrightarrow> hm_wf (hm_remove k m)"
    by (simp add: hm_defs distinct_delete)
qed (simp_all add: hm_defs)

lemma hm_values_iff: "hm_wf m \<Longrightarrow> v \<in> set (hm_values m) \<longleftrightarrow> (\<exists>k. hm_get m k = Some v)"
  using hm.values_iff [of m v] by (simp add: hm_values_def)

section \<open>Hash sets and maps of hash sets\<close>

text \<open>
  A \<open>HashSet\<close> is a list without repetitions; the order of the list stands for the iteration order.
\<close>

type_synonym 'a hash_set = "'a list"

definition hs_insert :: "'a \<Rightarrow> 'a hash_set \<Rightarrow> 'a hash_set" where
  "hs_insert x s = List.insert x s"

definition hs_remove :: "'a \<Rightarrow> 'a hash_set \<Rightarrow> 'a hash_set" where
  "hs_remove x s = removeAll x s"

definition hs_extend :: "'a list \<Rightarrow> 'a hash_set \<Rightarrow> 'a hash_set" where
  "hs_extend xs s = fold hs_insert xs s"

lemma set_hs_insert [simp]: "set (hs_insert x s) = insert x (set s)"
  by (simp add: hs_insert_def)

lemma set_hs_remove [simp]: "set (hs_remove x s) = set s - {x}"
  by (simp add: hs_remove_def)

lemma set_hs_extend [simp]: "set (hs_extend xs s) = set xs \<union> set s"
  unfolding hs_extend_def by (induction xs arbitrary: s) auto

lemma hs_insert_not_Nil [simp]: "hs_insert x s \<noteq> []"
  by (auto simp: hs_insert_def List.insert_def)

lemma hs_distinct [simp]:
  "distinct s \<Longrightarrow> distinct (hs_insert x s)" "distinct s \<Longrightarrow> distinct (hs_remove x s)"
  by (simp_all add: hs_insert_def hs_remove_def distinct_removeAll)

lemma hs_extend_distinct [simp]: "distinct s \<Longrightarrow> distinct (hs_extend xs s)"
  unfolding hs_extend_def by (induction xs arbitrary: s) simp_all

text \<open>
  A map from keys to sets, maintained the way the sources do it: an element is added with
  \<open>entry(k).or_default().insert(v)\<close>, and a set that becomes empty is removed with its key. Its meaning
  is a relation.
\<close>

type_synonym ('k, 'v) multi_map = "('k, 'v hash_set) hash_map"

definition mm_insert :: "'k \<Rightarrow> 'v \<Rightarrow> ('k, 'v) multi_map \<Rightarrow> ('k, 'v) multi_map" where
  "mm_insert k v m = hm_insert k (hs_insert v (case hm_get m k of Some s \<Rightarrow> s | None \<Rightarrow> [])) m"

definition mm_remove :: "'k \<Rightarrow> 'v \<Rightarrow> ('k, 'v) multi_map \<Rightarrow> ('k, 'v) multi_map" where
  "mm_remove k v m =
     (case hm_get m k of
        None \<Rightarrow> m
      | Some s \<Rightarrow>
          if hs_remove v s = [] then hm_remove k m else hm_insert k (hs_remove v s) m)"

definition mm_rel :: "('k, 'v) multi_map \<Rightarrow> ('k \<times> 'v) set" where
  "mm_rel m = {(k, v). \<exists>s. hm_get m k = Some s \<and> v \<in> set s}"

definition mm_wf :: "('k, 'v) multi_map \<Rightarrow> bool" where
  "mm_wf m \<longleftrightarrow> hm_wf m \<and> (\<forall>k s. hm_get m k = Some s \<longrightarrow> s \<noteq> [] \<and> distinct s)"

lemma mm_rel_empty [simp]: "mm_rel hm_empty = {}"
  by (simp add: mm_rel_def)

lemma mm_wf_empty [simp]: "mm_wf hm_empty"
  by (simp add: mm_wf_def hm.wf_empty)

lemma mm_wf_insert [simp]: "mm_wf m \<Longrightarrow> mm_wf (mm_insert k v m)"
  by (auto simp: mm_wf_def mm_insert_def hm.wf_insert hm.get_insert split: option.splits if_splits)

lemma mm_wf_remove [simp]: "mm_wf m \<Longrightarrow> mm_wf (mm_remove k v m)"
  by (auto simp: mm_wf_def mm_remove_def hm.wf_insert hm.wf_remove hm.get_insert hm.get_remove
      split: option.splits if_splits)

lemma mm_wf_hm_remove [simp]: "mm_wf m \<Longrightarrow> mm_wf (hm_remove k m)"
  by (auto simp: mm_wf_def hm.wf_remove hm.get_remove split: if_splits)

lemma mm_rel_insert [simp]: "mm_rel (mm_insert k v m) = insert (k, v) (mm_rel m)"
  by (auto simp: mm_rel_def mm_insert_def hm.get_insert split: option.splits if_splits)

lemma mm_rel_remove [simp]: "mm_wf m \<Longrightarrow> mm_rel (mm_remove k v m) = mm_rel m - {(k, v)}"
proof -
  assume wf: "mm_wf m"
  show ?thesis
  proof (cases "hm_get m k")
    case None
    then show ?thesis by (auto simp: mm_rel_def mm_remove_def)
  next
    case (Some s)
    have empty: "hs_remove v s = [] \<longleftrightarrow> set s \<subseteq> {v}"
      by (metis Diff_eq_empty_iff set_empty set_hs_remove)
    show ?thesis
      using wf Some empty
      by (auto simp: mm_rel_def mm_wf_def mm_remove_def hm.get_insert hm.get_remove split: if_splits)
  qed
qed

lemma mm_rel_hm_remove [simp]: "mm_wf m \<Longrightarrow> mm_rel (hm_remove k m) = mm_rel m - {k} \<times> UNIV"
  by (auto simp: mm_rel_def mm_wf_def hm.get_remove split: if_splits)

lemma mm_get_rel: "hm_get m k = Some s \<Longrightarrow> set s = {v. (k, v) \<in> mm_rel m}"
  by (auto simp: mm_rel_def)

lemma mm_get_None_rel: "hm_get m k = None \<Longrightarrow> (k, v) \<notin> mm_rel m"
  by (simp add: mm_rel_def)

text \<open>Removing one value under each of several keys.\<close>

lemma mm_wf_fold_remove [simp]: "mm_wf m \<Longrightarrow> mm_wf (fold (\<lambda>k. mm_remove k v) ks m)"
  by (induction ks arbitrary: m) simp_all

lemma mm_rel_fold_remove [simp]:
  "mm_wf m \<Longrightarrow> mm_rel (fold (\<lambda>k. mm_remove k v) ks m) = mm_rel m - set ks \<times> {v}"
  by (induction ks arbitrary: m) auto

section \<open>Transition systems\<close>

text \<open>The states a step relation reaches from its initial states.\<close>

inductive reachable :: "('s \<Rightarrow> bool) \<Rightarrow> ('s \<Rightarrow> 's \<Rightarrow> bool) \<Rightarrow> 's \<Rightarrow> bool"
  for init :: "'s \<Rightarrow> bool" and step :: "'s \<Rightarrow> 's \<Rightarrow> bool"
where
  reach_init: "init s \<Longrightarrow> reachable init step s"
| reach_step: "reachable init step s \<Longrightarrow> step s t \<Longrightarrow> reachable init step t"

text \<open>An inductive invariant of a transition system holds in every reachable state.\<close>

locale transition_invariant =
  fixes init :: "'s \<Rightarrow> bool"
    and step :: "'s \<Rightarrow> 's \<Rightarrow> bool"
    and inv :: "'s \<Rightarrow> bool"
  assumes inv_init: "init s \<Longrightarrow> inv s"
    and inv_step: "inv s \<Longrightarrow> step s t \<Longrightarrow> inv t"
begin

lemma reachable_inv: "reachable init step s \<Longrightarrow> inv s"
  by (induction rule: reachable.induct) (auto intro: inv_init inv_step)

lemma reachable_cons: "reachable init step s \<Longrightarrow> (inv s \<Longrightarrow> P s) \<Longrightarrow> P s"
  using reachable_inv by blast

end

end
