(* ===== verification/Uuid_Text.thy ===== *)
theory Uuid_Text
  imports Prelude
begin

text \<open>
  Identifiers. A \<open>Uuid\<close> is a 128-bit value; its textual form belongs to the \<open>uuid\<close> crate and is
  a parameter of the model: a record with the two functions the sources call. The locale
  \<open>uuid_text\<close> states what the crate documents of them. The hyphenated lower-case codec at the
  end is a concrete pair of functions that satisfies the locale.
\<close>

type_synonym uuid = "128 word"

definition nil_uuid :: uuid where
  "nil_uuid = 0"

record uuid_codec =
  to_string :: "uuid \<Rightarrow> string"
  parse_str :: "string \<Rightarrow> uuid option"

text \<open>
  What the crate documents: \<open>to_string\<close> prints the hyphenated form, 36 characters, each a
  hexadecimal digit or a hyphen; \<open>parse_str\<close> reads back what \<open>to_string\<close> printed.
\<close>

locale uuid_text =
  fixes U :: uuid_codec
  assumes parse_to_string [simp]: "parse_str U (to_string U u) = Some u"
    and length_to_string: "length (to_string U u) = 36"
    and to_string_chars:
      "set (to_string U u) \<subseteq> insert (CHR ''-'') (set ''0123456789abcdef'')"
begin

lemma to_string_inj [simp]: "to_string U u = to_string U v \<longleftrightarrow> u = v"
  by (metis option.inject parse_to_string)

lemma to_string_no_colon: "CHR '':'' \<notin> set (to_string U u)"
  using to_string_chars [of u] by auto

lemma to_string_not_star [simp]: "to_string U u \<noteq> ''*''" "''*'' \<noteq> to_string U u"
proof -
  show "to_string U u \<noteq> ''*''"
  proof
    assume "to_string U u = ''*''"
    with length_to_string [of u] show False by simp
  qed
  then show "''*'' \<noteq> to_string U u" by metis
qed

lemma to_string_no_brace: "CHR ''{'' \<notin> set (to_string U u)"
  using to_string_chars [of u] by auto

end

section \<open>A concrete codec\<close>

definition hex_digit :: "nat \<Rightarrow> char" where
  "hex_digit d = ''0123456789abcdef'' ! d"

definition hex_value :: "char \<Rightarrow> nat option" where
  "hex_value c =
     (let n = (of_char c :: nat)
      in if 48 \<le> n \<and> n \<le> 57 then Some (n - 48)
         else if 97 \<le> n \<and> n \<le> 102 then Some (n - 87) else None)"

text \<open>The \<open>k\<close> low hexadecimal digits of a number, most significant first.\<close>

fun hex_digits :: "nat \<Rightarrow> nat \<Rightarrow> string" where
  "hex_digits 0 n = []"
| "hex_digits (Suc k) n = hex_digits k (n div 16) @ [hex_digit (n mod 16)]"

fun hex_number :: "nat \<Rightarrow> string \<Rightarrow> nat option" where
  "hex_number acc [] = Some acc"
| "hex_number acc (c # cs) =
     (case hex_value c of None \<Rightarrow> None | Some d \<Rightarrow> hex_number (16 * acc + d) cs)"

text \<open>Groups of 8, 4, 4, 4 and 12 digits.\<close>

definition hyphenate :: "string \<Rightarrow> string" where
  "hyphenate s = take 8 s @ ''-'' @ take 4 (drop 8 s) @ ''-'' @ take 4 (drop 12 s) @ ''-'' @
     take 4 (drop 16 s) @ ''-'' @ drop 20 s"

definition hyphenated_codec :: uuid_codec where
  "hyphenated_codec =
     \<lparr>to_string = (\<lambda>u. hyphenate (hex_digits 32 (unat u))),
      parse_str = (\<lambda>s. if length s = 36
         then map_option of_nat (hex_number 0 (filter (\<lambda>c. c \<noteq> CHR ''-'') s)) else None)\<rparr>"

lemma less_16_cases:
  "(d :: nat) < 16 \<Longrightarrow> d \<in> {0, 1, 2, 3, 4, 5, 6, 7, 8, 9, 10, 11, 12, 13, 14, 15}"
  by (simp, arith)

lemma hex_value_digit: "d < 16 \<Longrightarrow> hex_value (hex_digit d) = Some d"
  by (drule less_16_cases) (auto simp: hex_value_def hex_digit_def)

lemma hex_digit_set: "d < 16 \<Longrightarrow> hex_digit d \<in> set ''0123456789abcdef''"
  unfolding hex_digit_def by (rule nth_mem) simp

lemma length_hex_digits [simp]: "length (hex_digits k n) = k"
  by (induction k arbitrary: n) auto

lemma set_hex_digits: "set (hex_digits k n) \<subseteq> set ''0123456789abcdef''"
proof (induction k arbitrary: n)
  case (Suc k)
  have "hex_digit (n mod 16) \<in> set ''0123456789abcdef''" by (rule hex_digit_set) simp
  with Suc.IH [of "n div 16"] show ?case by (simp only: hex_digits.simps set_append) simp
qed simp

lemma hex_number_snoc:
  "hex_number acc (s @ [c]) =
     (case hex_number acc s of None \<Rightarrow> None
      | Some n \<Rightarrow> map_option (\<lambda>d. 16 * n + d) (hex_value c))"
  by (induction s arbitrary: acc) (auto split: option.splits)

lemma hex_number_digits: "n < 16 ^ k \<Longrightarrow> hex_number 0 (hex_digits k n) = Some n"
proof (induction k arbitrary: n)
  case (Suc k)
  have "n div 16 < 16 ^ k" using Suc.prems by (simp add: less_mult_imp_div_less mult.commute)
  with Suc.IH show ?case by (simp add: hex_number_snoc hex_value_digit)
qed simp

lemma filter_hyphenate:
  "CHR ''-'' \<notin> set s \<Longrightarrow> filter (\<lambda>c. c \<noteq> CHR ''-'') (hyphenate s) = s"
proof -
  assume "CHR ''-'' \<notin> set s"
  then have f: "filter (\<lambda>c. c \<noteq> CHR ''-'') t = t" if "set t \<subseteq> set s" for t
    using that by (auto simp: filter_id_conv)
  have "take 8 s @ take 4 (drop 8 s) @ take 4 (drop 12 s) @ take 4 (drop 16 s) @ drop 20 s = s"
    using append_take_drop_id [of 8 s] append_take_drop_id [of 4 "drop 8 s"]
      append_take_drop_id [of 4 "drop 12 s"] append_take_drop_id [of 4 "drop 16 s"]
    by simp
  then show ?thesis
    by (simp add: hyphenate_def f set_take_subset set_drop_subset
        order_trans [OF set_take_subset set_drop_subset])
qed

lemma set_hyphenate: "set (hyphenate s) \<subseteq> insert (CHR ''-'') (set s)"
  by (auto simp: hyphenate_def dest: in_set_takeD in_set_dropD)

lemma hex_no_hyphen: "CHR ''-'' \<notin> set (hex_digits k n)"
proof
  assume "CHR ''-'' \<in> set (hex_digits k n)"
  then have "CHR ''-'' \<in> set ''0123456789abcdef''" using set_hex_digits by blast
  then show False by simp
qed

lemma to_string_hyphenated:
  "to_string hyphenated_codec u = hyphenate (hex_digits 32 (unat u))"
  by (simp add: hyphenated_codec_def)

lemma length_hyphenated: "length (hyphenate (hex_digits 32 n)) = 36"
  by (simp add: hyphenate_def)

lemma parse_hyphenated:
  "n < 2 ^ 128 \<Longrightarrow> parse_str hyphenated_codec (hyphenate (hex_digits 32 n)) = Some (of_nat n)"
  using hex_number_digits [of n 32]
  by (simp add: hyphenated_codec_def length_hyphenated filter_hyphenate hex_no_hyphen)

interpretation hy: uuid_text hyphenated_codec
proof unfold_locales
  fix u :: uuid
  have "unat u < 2 ^ 128" using unsigned_less [of u] by simp
  then show "parse_str hyphenated_codec (to_string hyphenated_codec u) = Some u"
    by (simp only: to_string_hyphenated parse_hyphenated) simp
  show "length (to_string hyphenated_codec u) = 36"
    by (simp only: to_string_hyphenated length_hyphenated)
  show "set (to_string hyphenated_codec u) \<subseteq> insert (CHR ''-'') (set ''0123456789abcdef'')"
    unfolding to_string_hyphenated using set_hyphenate set_hex_digits by (meson insert_mono order_trans)
qed

end
