(* ===== verification/Rbac_Types.thy ===== *)
theory Rbac_Types
  imports Uuid_Text
begin

text \<open>
  The data of the RBAC engine (\<open>crates/coder-rbac/src/lib.rs\<close>): actions, resource types, objects,
  permissions, roles, with their builders and the string form of the two enumerations.
\<close>

section \<open>Actions\<close>

datatype Action =
    Create | Read | Update | Delete | Use | Ssh | ApplicationConnect | ViewInsights | Start
  | Stop | Assign | Unassign | ReadPersonal | UpdatePersonal | CreateAgent | DeleteAgent
  | UpdateAgent | Share

fun action_as_str :: "Action \<Rightarrow> string" where
  "action_as_str Create = ''create''"
| "action_as_str Read = ''read''"
| "action_as_str Update = ''update''"
| "action_as_str Delete = ''delete''"
| "action_as_str Use = ''use''"
| "action_as_str Ssh = ''ssh''"
| "action_as_str ApplicationConnect = ''application_connect''"
| "action_as_str ViewInsights = ''view_insights''"
| "action_as_str Start = ''start''"
| "action_as_str Stop = ''stop''"
| "action_as_str Assign = ''assign''"
| "action_as_str Unassign = ''unassign''"
| "action_as_str ReadPersonal = ''read_personal''"
| "action_as_str UpdatePersonal = ''update_personal''"
| "action_as_str CreateAgent = ''create_agent''"
| "action_as_str DeleteAgent = ''delete_agent''"
| "action_as_str UpdateAgent = ''update_agent''"
| "action_as_str Share = ''share''"

text \<open>The wildcard string of permission and allow-list entries.\<close>

definition WILDCARD :: string where
  "WILDCARD = ''*''"

section \<open>Resource types\<close>

datatype ResourceType =
    Wildcard | AibridgeInterception | ApiKey | AssignOrgRole | AssignRole | AuditLog
  | BoundaryUsage | Chat | ConnectionLog | CryptoKey | DebugInfo | DeploymentConfig
  | DeploymentStats | File | Group | GroupMember | IdpsyncSettings | InboxNotification
  | License | NotificationMessage | NotificationPreference | NotificationTemplate
  | Oauth2App | Oauth2AppCodeToken | Oauth2AppSecret | Organization | OrganizationMember
  | PrebuiltWorkspace | ProvisionerDaemon | ProvisionerJobs | Replicas | System
  | TailnetCoordinator | Task | Template | UsageEvent | User | UserSecret
  | WebpushSubscription | Workspace | WorkspaceAgentDevcontainers
  | WorkspaceAgentResourceMonitor | WorkspaceDormant | WorkspaceProxy

fun as_str :: "ResourceType \<Rightarrow> string" where
  "as_str Wildcard = ''*''"
| "as_str AibridgeInterception = ''aibridge_interception''"
| "as_str ApiKey = ''api_key''"
| "as_str AssignOrgRole = ''assign_org_role''"
| "as_str AssignRole = ''assign_role''"
| "as_str AuditLog = ''audit_log''"
| "as_str BoundaryUsage = ''boundary_usage''"
| "as_str Chat = ''chat''"
| "as_str ConnectionLog = ''connection_log''"
| "as_str CryptoKey = ''crypto_key''"
| "as_str DebugInfo = ''debug_info''"
| "as_str DeploymentConfig = ''deployment_config''"
| "as_str DeploymentStats = ''deployment_stats''"
| "as_str File = ''file''"
| "as_str Group = ''group''"
| "as_str GroupMember = ''group_member''"
| "as_str IdpsyncSettings = ''idpsync_settings''"
| "as_str InboxNotification = ''inbox_notification''"
| "as_str License = ''license''"
| "as_str NotificationMessage = ''notification_message''"
| "as_str NotificationPreference = ''notification_preference''"
| "as_str NotificationTemplate = ''notification_template''"
| "as_str Oauth2App = ''oauth2_app''"
| "as_str Oauth2AppCodeToken = ''oauth2_app_code_token''"
| "as_str Oauth2AppSecret = ''oauth2_app_secret''"
| "as_str Organization = ''organization''"
| "as_str OrganizationMember = ''organization_member''"
| "as_str PrebuiltWorkspace = ''prebuilt_workspace''"
| "as_str ProvisionerDaemon = ''provisioner_daemon''"
| "as_str ProvisionerJobs = ''provisioner_jobs''"
| "as_str Replicas = ''replicas''"
| "as_str System = ''system''"
| "as_str TailnetCoordinator = ''tailnet_coordinator''"
| "as_str Task = ''task''"
| "as_str Template = ''template''"
| "as_str UsageEvent = ''usage_event''"
| "as_str User = ''user''"
| "as_str UserSecret = ''user_secret''"
| "as_str WebpushSubscription = ''webpush_subscription''"
| "as_str Workspace = ''workspace''"
| "as_str WorkspaceAgentDevcontainers = ''workspace_agent_devcontainers''"
| "as_str WorkspaceAgentResourceMonitor = ''workspace_agent_resource_monitor''"
| "as_str WorkspaceDormant = ''workspace_dormant''"
| "as_str WorkspaceProxy = ''workspace_proxy''"

definition ALL_RESOURCE_TYPES :: "ResourceType list" where
  "ALL_RESOURCE_TYPES =
     [AibridgeInterception, ApiKey, AssignOrgRole, AssignRole, AuditLog, BoundaryUsage,
      Chat, ConnectionLog, CryptoKey, DebugInfo, DeploymentConfig, DeploymentStats, File,
      Group, GroupMember, IdpsyncSettings, InboxNotification, License, NotificationMessage,
      NotificationPreference, NotificationTemplate, Oauth2App, Oauth2AppCodeToken,
      Oauth2AppSecret, Organization, OrganizationMember, PrebuiltWorkspace,
      ProvisionerDaemon, ProvisionerJobs, Replicas, System, TailnetCoordinator, Task,
      Template, UsageEvent, User, UserSecret, WebpushSubscription, Workspace,
      WorkspaceAgentDevcontainers, WorkspaceAgentResourceMonitor, WorkspaceDormant,
      WorkspaceProxy]"

definition from_str_opt :: "string \<Rightarrow> ResourceType option" where
  "from_str_opt s =
     (if s = ''*'' then Some Wildcard else find (\<lambda>rt. as_str rt = s) ALL_RESOURCE_TYPES)"

section \<open>Objects\<close>

record Object =
  o_resource_type :: ResourceType
  o_owner_id :: "uuid option"
  o_org_id :: "uuid option"
  o_id :: "uuid option"
  o_any_org :: bool
  o_acl_user_list :: "(string, Action list) hash_map"
  o_acl_group_list :: "(string, Action list) hash_map"

definition Object_new :: "ResourceType \<Rightarrow> Object" where
  "Object_new rt =
     \<lparr>o_resource_type = rt, o_owner_id = None, o_org_id = None, o_id = None, o_any_org = False,
      o_acl_user_list = hm_empty, o_acl_group_list = hm_empty\<rparr>"

definition with_owner :: "Object \<Rightarrow> uuid \<Rightarrow> Object" where
  "with_owner obj u = obj\<lparr>o_owner_id := Some u\<rparr>"

definition in_org :: "Object \<Rightarrow> uuid \<Rightarrow> Object" where
  "in_org obj u = obj\<lparr>o_org_id := Some u, o_any_org := False\<rparr>"

definition any_organization :: "Object \<Rightarrow> Object" where
  "any_organization obj = obj\<lparr>o_org_id := None, o_any_org := True\<rparr>"

definition with_id :: "Object \<Rightarrow> uuid \<Rightarrow> Object" where
  "with_id obj u = obj\<lparr>o_id := Some u\<rparr>"

definition with_acl_user_list :: "Object \<Rightarrow> (string, Action list) hash_map \<Rightarrow> Object" where
  "with_acl_user_list obj acl = obj\<lparr>o_acl_user_list := acl\<rparr>"

definition with_acl_group_list :: "Object \<Rightarrow> (string, Action list) hash_map \<Rightarrow> Object" where
  "with_acl_group_list obj acl = obj\<lparr>o_acl_group_list := acl\<rparr>"

lemmas object_defs = Object_new_def with_owner_def in_org_def any_organization_def with_id_def
  with_acl_user_list_def with_acl_group_list_def

section \<open>Permissions\<close>

text \<open>\<open>p_action = None\<close> is the wildcard action.\<close>

record Permission =
  p_negate :: bool
  p_resource_type :: ResourceType
  p_action :: "Action option"

definition allow :: "ResourceType \<Rightarrow> Action \<Rightarrow> Permission" where
  "allow rt a = \<lparr>p_negate = False, p_resource_type = rt, p_action = Some a\<rparr>"

definition allow_all :: "ResourceType \<Rightarrow> Permission" where
  "allow_all rt = \<lparr>p_negate = False, p_resource_type = rt, p_action = None\<rparr>"

definition deny :: "ResourceType \<Rightarrow> Action \<Rightarrow> Permission" where
  "deny rt a = \<lparr>p_negate = True, p_resource_type = rt, p_action = Some a\<rparr>"

definition matches :: "Permission \<Rightarrow> ResourceType \<Rightarrow> Action \<Rightarrow> bool" where
  "matches p rt a =
     (let type_match = (p_resource_type p = Wildcard \<or> p_resource_type p = rt);
          action_match = (p_action p = None \<or> p_action p = Some a)
      in type_match \<and> action_match)"

section \<open>Roles\<close>

record OrgPermissions =
  op_org :: "Permission list"
  op_member :: "Permission list"

text \<open>\<open>r_by_org_id\<close> is keyed by the textual form of the organization id, as in the source.\<close>

record Role =
  r_name :: string
  r_org_id :: "uuid option"
  r_display_name :: string
  r_site :: "Permission list"
  r_user :: "Permission list"
  r_by_org_id :: "(string, OrgPermissions) hash_map"

section \<open>Facts\<close>

lemma matches_simps [simp]:
  "matches (allow rt a) rt' a' \<longleftrightarrow> (rt = Wildcard \<or> rt = rt') \<and> a' = a"
  "matches (allow_all rt) rt' a' \<longleftrightarrow> rt = Wildcard \<or> rt = rt'"
  "matches (deny rt a) rt' a' \<longleftrightarrow> (rt = Wildcard \<or> rt = rt') \<and> a' = a"
  by (auto simp: matches_def allow_def allow_all_def deny_def)

lemma negate_simps [simp]:
  "\<not> p_negate (allow rt a)" "\<not> p_negate (allow_all rt)" "p_negate (deny rt a)"
  by (simp_all add: allow_def allow_all_def deny_def)

text \<open>The two loops over a permission list: a positive entry matches, a negative entry matches.\<close>

abbreviation grants :: "Permission list \<Rightarrow> ResourceType \<Rightarrow> Action \<Rightarrow> bool" where
  "grants ps rt a \<equiv> list_ex (\<lambda>p. \<not> p_negate p \<and> matches p rt a) ps"

abbreviation denies :: "Permission list \<Rightarrow> ResourceType \<Rightarrow> Action \<Rightarrow> bool" where
  "denies ps rt a \<equiv> list_ex (\<lambda>p. p_negate p \<and> matches p rt a) ps"

lemma all_resource_types: "set ALL_RESOURCE_TYPES = - {Wildcard}"
proof -
  have "rt \<in> set ALL_RESOURCE_TYPES \<longleftrightarrow> rt \<noteq> Wildcard" for rt
    by (cases rt) (simp_all add: ALL_RESOURCE_TYPES_def)
  then show ?thesis by blast
qed

lemma from_str_opt_as_str: "from_str_opt (as_str rt) = Some rt"
  by (cases rt) (simp_all add: from_str_opt_def ALL_RESOURCE_TYPES_def)

lemma as_str_inj [simp]: "as_str rt = as_str rt' \<longleftrightarrow> rt = rt'"
  by (metis from_str_opt_as_str option.inject)

lemma from_str_opt_Some: "from_str_opt s = Some rt \<Longrightarrow> as_str rt = s"
  by (auto simp: from_str_opt_def find_Some_iff split: if_splits)

lemma as_str_star [simp]: "as_str rt = ''*'' \<longleftrightarrow> rt = Wildcard"
  using as_str_inj [of rt Wildcard] by simp

text \<open>
  Resource type names and their parser are inverse to each other: the parser accepts exactly
  the canonical names and returns the type they name.
\<close>

theorem resource_type_roundtrip: "from_str_opt s = Some rt \<longleftrightarrow> s = as_str rt"
  using from_str_opt_Some from_str_opt_as_str by auto

end
