(* ===== verification/Rbac_Scope.thy ===== *)
theory Rbac_Scope
  imports Rbac_Types
begin

text \<open>
  API-key scopes and actors (\<open>Scope\<close> and \<open>Actor\<close> of \<open>crates/coder-rbac/src/lib.rs\<close>): the built-in
  scopes, the workspace-agent scope, the allow list, and the role queries of an actor.
\<close>

section \<open>Scopes\<close>

record Scope =
  s_role :: Role
  s_allow_list :: "(string \<times> string) list"

definition scope_all :: Scope where
  "scope_all =
     \<lparr>s_role = \<lparr>r_name = ''Scope_coder:all'', r_org_id = None, r_display_name = ''All operations'',
        r_site = [\<lparr>p_negate = False, p_resource_type = Wildcard, p_action = None\<rparr>],
        r_user = [], r_by_org_id = hm_empty\<rparr>,
      s_allow_list = [(WILDCARD, WILDCARD)]\<rparr>"

definition scope_application_connect :: Scope where
  "scope_application_connect =
     \<lparr>s_role = \<lparr>r_name = ''Scope_coder:application_connect'', r_org_id = None,
        r_display_name = ''Ability to connect to applications'',
        r_site = [allow Workspace ApplicationConnect], r_user = [], r_by_org_id = hm_empty\<rparr>,
      s_allow_list = [(WILDCARD, WILDCARD)]\<rparr>"

definition scope_no_user_data :: Scope where
  "scope_no_user_data =
     \<lparr>s_role = \<lparr>r_name = ''Scope_no_user_data'', r_org_id = None,
        r_display_name = ''Scope without access to user data'',
        r_site = map allow_all (filter (\<lambda>rt. rt \<noteq> User) ALL_RESOURCE_TYPES),
        r_user = [], r_by_org_id = hm_empty\<rparr>,
      s_allow_list = [(WILDCARD, WILDCARD)]\<rparr>"

definition single_permission_scope :: "string \<Rightarrow> ResourceType \<Rightarrow> Action \<Rightarrow> Scope" where
  "single_permission_scope name rt action =
     \<lparr>s_role = \<lparr>r_name = ''Scope_'' @ name, r_org_id = None, r_display_name = name,
        r_site = [allow rt action], r_user = [], r_by_org_id = hm_empty\<rparr>,
      s_allow_list = [(WILDCARD, WILDCARD)]\<rparr>"

definition scope_workspace_read :: Scope where
  "scope_workspace_read = single_permission_scope ''workspace:read'' Workspace Read"

definition scope_workspace_start :: Scope where
  "scope_workspace_start = single_permission_scope ''workspace:start'' Workspace Start"

definition scope_workspace_stop :: Scope where
  "scope_workspace_stop = single_permission_scope ''workspace:stop'' Workspace Stop"

definition scope_template_read :: Scope where
  "scope_template_read = single_permission_scope ''template:read'' Template Read"

definition scope_api_key_read :: Scope where
  "scope_api_key_read = single_permission_scope ''api_key:read'' ApiKey Read"

definition scope_user_secret_read :: Scope where
  "scope_user_secret_read = single_permission_scope ''user_secret:read'' UserSecret Read"

definition scope_user_secret_write :: Scope where
  "scope_user_secret_write = single_permission_scope ''user_secret:update'' UserSecret Update"

definition scope_api_key_create :: Scope where
  "scope_api_key_create = single_permission_scope ''api_key:create'' ApiKey Create"

definition scope_api_key_write :: Scope where
  "scope_api_key_write = single_permission_scope ''api_key:update'' ApiKey Update"

definition scope_api_key_delete :: Scope where
  "scope_api_key_delete = single_permission_scope ''api_key:delete'' ApiKey Delete"

definition scope_user_secret_create :: Scope where
  "scope_user_secret_create = single_permission_scope ''user_secret:create'' UserSecret Create"

definition scope_user_secret_delete :: Scope where
  "scope_user_secret_delete = single_permission_scope ''user_secret:delete'' UserSecret Delete"

definition scope_task_read :: Scope where
  "scope_task_read = single_permission_scope ''task:read'' Task Read"

definition scope_task_write :: Scope where
  "scope_task_write = single_permission_scope ''task:update'' Task Update"

definition scope_task_delete :: Scope where
  "scope_task_delete = single_permission_scope ''task:delete'' Task Delete"

definition scope_organization_read :: Scope where
  "scope_organization_read = single_permission_scope ''organization:read'' Organization Read"

definition scope_organization_write :: Scope where
  "scope_organization_write = single_permission_scope ''organization:update'' Organization Update"

definition scope_organization_delete :: Scope where
  "scope_organization_delete = single_permission_scope ''organization:delete'' Organization Delete"

definition scope_workspace_write :: Scope where
  "scope_workspace_write = single_permission_scope ''workspace:update'' Workspace Update"

definition scope_workspace_delete :: Scope where
  "scope_workspace_delete = single_permission_scope ''workspace:delete'' Workspace Delete"

definition scope_template_write :: Scope where
  "scope_template_write = single_permission_scope ''template:update'' Template Update"

definition scope_deployment_config_read :: Scope where
  "scope_deployment_config_read = single_permission_scope ''deployment_config:read'' DeploymentConfig Read"

definition scope_audit_log_read :: Scope where
  "scope_audit_log_read = single_permission_scope ''audit_log:read'' AuditLog Read"

lemmas low_level_scopes =
  scope_workspace_read_def scope_workspace_start_def scope_workspace_stop_def
  scope_template_read_def scope_api_key_read_def scope_user_secret_read_def
  scope_user_secret_write_def scope_api_key_create_def scope_api_key_write_def
  scope_api_key_delete_def scope_user_secret_create_def scope_user_secret_delete_def
  scope_task_read_def scope_task_write_def scope_task_delete_def scope_organization_read_def
  scope_organization_write_def scope_organization_delete_def scope_workspace_write_def
  scope_workspace_delete_def scope_template_write_def scope_deployment_config_read_def
  scope_audit_log_read_def

definition scope_workspace_agent ::
  "uuid_codec \<Rightarrow> uuid \<Rightarrow> uuid \<Rightarrow> uuid \<Rightarrow> bool \<Rightarrow> Scope" where
  "scope_workspace_agent U workspace_id template_id owner_id block_user_data =
     (let base = (if block_user_data then scope_no_user_data else scope_all);
          role = (s_role base)\<lparr>r_name := ''Scope_workspace_agent'',
                   r_display_name := ''Workspace agent''\<rparr>
      in \<lparr>s_role = role,
          s_allow_list = [(as_str Workspace, to_string U workspace_id),
            (as_str Template, to_string U template_id), (as_str User, to_string U owner_id)]\<rparr>)"

text \<open>The loop over the allow list: the first entry that admits the object decides.\<close>

fun allow_entries :: "uuid_codec \<Rightarrow> Object \<Rightarrow> (string \<times> string) list \<Rightarrow> bool" where
  "allow_entries U obj [] = False"
| "allow_entries U obj ((allow_type, allow_id) # es) =
     (if allow_type = WILDCARD \<and> allow_id = WILDCARD then True
      else if allow_type = as_str (o_resource_type obj) then
        (if allow_id = WILDCARD then True
         else case o_id obj of
             Some obj_id \<Rightarrow> if allow_id = to_string U obj_id then True else allow_entries U obj es
           | None \<Rightarrow> allow_entries U obj es)
      else allow_entries U obj es)"

definition allows_object :: "uuid_codec \<Rightarrow> Scope \<Rightarrow> Object \<Rightarrow> bool" where
  "allows_object U scope obj =
     (if s_allow_list scope = [] then True else allow_entries U obj (s_allow_list scope))"

section \<open>Actors\<close>

record Actor =
  a_user_id :: uuid
  a_username :: string
  a_organization_ids :: "uuid list"
  a_site_roles :: "string list"
  a_org_roles :: "string list"
  a_groups :: "string list"
  a_scope :: "string option"
  a_scope_override :: "Scope option"

definition ROLE_OWNER :: string where "ROLE_OWNER = ''owner''"
definition ROLE_MEMBER :: string where "ROLE_MEMBER = ''member''"
definition ROLE_TEMPLATE_ADMIN :: string where "ROLE_TEMPLATE_ADMIN = ''template-admin''"
definition ROLE_USER_ADMIN :: string where "ROLE_USER_ADMIN = ''user-admin''"
definition ROLE_AUDITOR :: string where "ROLE_AUDITOR = ''auditor''"
definition ROLE_ORGANIZATION_ADMIN :: string where
  "ROLE_ORGANIZATION_ADMIN = ''organization-admin''"
definition ROLE_ORGANIZATION_MEMBER :: string where
  "ROLE_ORGANIZATION_MEMBER = ''organization-member''"
definition ROLE_ORGANIZATION_AUDITOR :: string where
  "ROLE_ORGANIZATION_AUDITOR = ''organization-auditor''"
definition ROLE_ORGANIZATION_USER_ADMIN :: string where
  "ROLE_ORGANIZATION_USER_ADMIN = ''organization-user-admin''"
definition ROLE_ORGANIZATION_TEMPLATE_ADMIN :: string where
  "ROLE_ORGANIZATION_TEMPLATE_ADMIN = ''organization-template-admin''"
definition ROLE_ORGANIZATION_WORKSPACE_CREATION_BAN :: string where
  "ROLE_ORGANIZATION_WORKSPACE_CREATION_BAN = ''organization-workspace-creation-ban''"

lemmas role_name_defs = ROLE_OWNER_def ROLE_MEMBER_def ROLE_TEMPLATE_ADMIN_def ROLE_USER_ADMIN_def
  ROLE_AUDITOR_def ROLE_ORGANIZATION_ADMIN_def ROLE_ORGANIZATION_MEMBER_def
  ROLE_ORGANIZATION_AUDITOR_def ROLE_ORGANIZATION_USER_ADMIN_def
  ROLE_ORGANIZATION_TEMPLATE_ADMIN_def ROLE_ORGANIZATION_WORKSPACE_CREATION_BAN_def

definition has_site_role :: "Actor \<Rightarrow> string \<Rightarrow> bool" where
  "has_site_role actor role_name =
     list_ex (\<lambda>role. eq_ignore_ascii_case role role_name) (a_site_roles actor)"

definition is_owner :: "Actor \<Rightarrow> bool" where
  "is_owner actor = has_site_role actor ROLE_OWNER"

definition can_access_user :: "Actor \<Rightarrow> uuid \<Rightarrow> bool" where
  "can_access_user actor target_user_id = (is_owner actor \<or> a_user_id actor = target_user_id)"

definition can_list_users :: "Actor \<Rightarrow> bool" where
  "can_list_users actor = is_owner actor"

definition can_access_organization :: "Actor \<Rightarrow> uuid \<Rightarrow> bool" where
  "can_access_organization actor organization_id =
     (is_owner actor \<or> organization_id \<in> set (a_organization_ids actor))"

definition can_manage_organization :: "Actor \<Rightarrow> uuid \<Rightarrow> bool" where
  "can_manage_organization actor organization_id = is_owner actor"

section \<open>Facts\<close>

text \<open>The allow list as a set: an entry admits an object when it is the full wildcard, or names its
  type and either every id or the object's own id.\<close>

definition entry_admits :: "uuid_codec \<Rightarrow> Object \<Rightarrow> string \<times> string \<Rightarrow> bool" where
  "entry_admits U obj e \<longleftrightarrow>
     e = (WILDCARD, WILDCARD)
     \<or> fst e = as_str (o_resource_type obj)
       \<and> (snd e = WILDCARD \<or> (\<exists>i. o_id obj = Some i \<and> snd e = to_string U i))"

lemma allow_entries_iff: "allow_entries U obj es \<longleftrightarrow> (\<exists>e \<in> set es. entry_admits U obj e)"
  by (induction U obj es rule: allow_entries.induct)
    (auto simp: entry_admits_def split: option.splits)

lemma allows_object_iff:
  "allows_object U s obj \<longleftrightarrow>
     s_allow_list s = [] \<or> (\<exists>e \<in> set (s_allow_list s). entry_admits U obj e)"
  by (simp add: allows_object_def allow_entries_iff)

lemma allows_object_wildcard: "s_allow_list s = [(WILDCARD, WILDCARD)] \<Longrightarrow> allows_object U s obj"
  by (simp add: allows_object_iff entry_admits_def)

lemma scope_all_fields [simp]:
  "grants (r_site (s_role scope_all)) rt a" "allows_object U scope_all obj"
  by (simp_all add: scope_all_def matches_def allows_object_wildcard)

lemma list_ex_map_allow_all [decide_simps]:
  "grants (map allow_all rts) rt a \<longleftrightarrow> rt \<in> set rts \<or> Wildcard \<in> set rts"
  by (auto simp: list_ex_iff)

lemma denies_map_allow_all [decide_simps]: "\<not> denies (map allow_all rts) rt a"
  by (auto simp: list_ex_iff)

lemma scope_no_user_data_grants:
  "grants (r_site (s_role scope_no_user_data)) rt a \<longleftrightarrow> rt \<noteq> User \<and> rt \<noteq> Wildcard"
  by (auto simp: scope_no_user_data_def list_ex_map_allow_all all_resource_types)

lemma scope_workspace_agent_allow_list:
  "s_allow_list (scope_workspace_agent U w t ow b) =
     [(as_str Workspace, to_string U w), (as_str Template, to_string U t),
      (as_str User, to_string U ow)]"
  by (simp add: scope_workspace_agent_def Let_def)

lemma scope_workspace_agent_perms:
  "r_site (s_role (scope_workspace_agent U w t ow b)) =
     r_site (s_role (if b then scope_no_user_data else scope_all))"
  "r_user (s_role (scope_workspace_agent U w t ow b)) = []"
  "r_by_org_id (s_role (scope_workspace_agent U w t ow b)) = hm_empty"
  by (simp_all add: scope_workspace_agent_def scope_no_user_data_def scope_all_def Let_def)

context uuid_text
begin

lemma agent_allows_object:
  "allows_object U (scope_workspace_agent U w t ow b) obj \<longleftrightarrow>
     (o_resource_type obj = Workspace \<and> o_id obj = Some w)
     \<or> (o_resource_type obj = Template \<and> o_id obj = Some t)
     \<or> (o_resource_type obj = User \<and> o_id obj = Some ow)"
proof -
  have "(as_str r, to_string U i) = (WILDCARD, WILDCARD) \<longleftrightarrow> False" for r i
    by (simp add: WILDCARD_def)
  then show ?thesis
    by (auto simp: allows_object_iff scope_workspace_agent_allow_list entry_admits_def WILDCARD_def
        simp del: as_str.simps)
qed

end

end
