(* ===== verification/System_Actors.thy ===== *)
theory System_Actors
  imports Rbac_Scope
begin

text \<open>
  The synthetic actors of the background workers (\<open>crates/coder-rbac/src/system_actors.rs\<close>): a
  permission list per subject, the role that carries it, and the actor whose scope override
  repeats it.
\<close>

section \<open>Role names\<close>

definition ROLE_SYSTEM_RESTRICTED :: string where "ROLE_SYSTEM_RESTRICTED = ''system''"
definition ROLE_KEY_ROTATOR :: string where "ROLE_KEY_ROTATOR = ''keyrotator''"
definition ROLE_PROVISIONERD :: string where "ROLE_PROVISIONERD = ''provisionerd''"
definition ROLE_NOTIFIER :: string where "ROLE_NOTIFIER = ''notifier''"
definition ROLE_RESOURCE_MONITOR :: string where "ROLE_RESOURCE_MONITOR = ''resourcemonitor''"
definition ROLE_AUTOSTART :: string where "ROLE_AUTOSTART = ''autostart''"
definition ROLE_CONNECTION_LOGGER :: string where "ROLE_CONNECTION_LOGGER = ''connectionlogger''"
definition ROLE_JOB_REAPER :: string where "ROLE_JOB_REAPER = ''jobreaper''"

lemmas system_role_name_defs = ROLE_SYSTEM_RESTRICTED_def ROLE_KEY_ROTATOR_def
  ROLE_PROVISIONERD_def ROLE_NOTIFIER_def ROLE_RESOURCE_MONITOR_def ROLE_AUTOSTART_def
  ROLE_CONNECTION_LOGGER_def ROLE_JOB_REAPER_def

definition make_role :: "string \<Rightarrow> string \<Rightarrow> Permission list \<Rightarrow> Role" where
  "make_role name display site =
     \<lparr>r_name = name, r_org_id = None, r_display_name = display, r_site = site, r_user = [],
      r_by_org_id = hm_empty\<rparr>"

section \<open>Permission sets\<close>

definition system_restricted_permissions :: "Permission list" where
  "system_restricted_permissions =
     [allow Wildcard Read,
      allow_all System,
      allow_all ApiKey,
      allow Group Create, allow Group Update,
      allow_all AssignRole, allow_all AssignOrgRole,
      allow Organization Create, allow Organization Read,
      allow OrganizationMember Create, allow OrganizationMember Delete,
      allow OrganizationMember Read,
      allow ProvisionerDaemon Create, allow ProvisionerDaemon Read, allow ProvisionerDaemon Update,
      allow_all User]
     @ map (allow Workspace)
         [Update, Delete, Start, Stop, Ssh, CreateAgent, DeleteAgent, UpdateAgent]
     @ [allow DeploymentConfig Create, allow DeploymentConfig Update, allow DeploymentConfig Delete]
     @ [allow_all NotificationMessage]
     @ map (allow NotificationPreference) [Create, Update, Delete]
     @ map (allow NotificationTemplate) [Create, Update, Delete]
     @ map (allow CryptoKey) [Create, Update, Delete]
     @ [allow File Create, allow File Read]
     @ [allow ProvisionerJobs Read, allow ProvisionerJobs Update, allow ProvisionerJobs Create]
     @ [allow ConnectionLog Update, allow ConnectionLog Read]"

definition key_rotator_permissions :: "Permission list" where
  "key_rotator_permissions = [allow_all CryptoKey]"

definition provisionerd_permissions :: "Permission list" where
  "provisionerd_permissions =
     map (allow ProvisionerJobs) [Read, Update, Create]
     @ [allow File Create, allow File Read, allow_all System, allow Template Read,
        allow Template Update, allow User Read, allow User ReadPersonal, allow User UpdatePersonal]
     @ map (allow Workspace) [Delete, Read, Update, Start, Stop, CreateAgent]
     @ map (allow Task) [Read, Update, Delete]
     @ [allow_all ApiKey, allow Organization Read, allow Group Read,
        allow NotificationMessage Create, allow NotificationMessage Read, allow UsageEvent Create]"

definition notifier_permissions :: "Permission list" where
  "notifier_permissions =
     [allow_all NotificationMessage, allow InboxNotification Create, allow_all WebpushSubscription,
      allow DeploymentConfig Read, allow DeploymentConfig Update]"

definition resource_monitor_permissions :: "Permission list" where
  "resource_monitor_permissions = [allow WorkspaceAgentResourceMonitor Update]"

definition autostart_permissions :: "Permission list" where
  "autostart_permissions =
     [allow OrganizationMember Read, allow File Read, allow NotificationMessage Create,
      allow NotificationMessage Read, allow_all System, allow User Read]
     @ map (allow Task) [Read, Update]
     @ map (allow Template) [Read, Update]
     @ map (allow Workspace) [Delete, Read, Update, Start, Stop]"

definition connection_logger_permissions :: "Permission list" where
  "connection_logger_permissions = [allow ConnectionLog Update, allow ConnectionLog Read]"

definition job_reaper_permissions :: "Permission list" where
  "job_reaper_permissions =
     [allow_all System, allow Template Read, allow Template Update, allow Workspace Read,
      allow Workspace Update, allow ProvisionerJobs Read, allow ProvisionerJobs Update]"

section \<open>Roles\<close>

definition role_system_restricted :: Role where
  "role_system_restricted =
     make_role ROLE_SYSTEM_RESTRICTED ''Coder'' system_restricted_permissions"

definition role_key_rotator :: Role where
  "role_key_rotator = make_role ROLE_KEY_ROTATOR ''Crypto Key Rotator'' key_rotator_permissions"

definition role_provisionerd :: Role where
  "role_provisionerd = make_role ROLE_PROVISIONERD ''Provisioner Daemon'' provisionerd_permissions"

definition role_notifier :: Role where
  "role_notifier = make_role ROLE_NOTIFIER ''Notifier'' notifier_permissions"

definition role_resource_monitor :: Role where
  "role_resource_monitor =
     make_role ROLE_RESOURCE_MONITOR ''Resource Monitor'' resource_monitor_permissions"

definition role_autostart :: Role where
  "role_autostart = make_role ROLE_AUTOSTART ''Autostart Daemon'' autostart_permissions"

definition role_connection_logger :: Role where
  "role_connection_logger =
     make_role ROLE_CONNECTION_LOGGER ''Connection Logger'' connection_logger_permissions"

definition role_job_reaper :: Role where
  "role_job_reaper = make_role ROLE_JOB_REAPER ''Job Reaper Daemon'' job_reaper_permissions"

lemmas system_role_defs = role_system_restricted_def role_key_rotator_def role_provisionerd_def
  role_notifier_def role_resource_monitor_def role_autostart_def role_connection_logger_def
  role_job_reaper_def

section \<open>Actors\<close>

definition system_actor :: "string \<Rightarrow> string \<Rightarrow> string \<Rightarrow> Permission list \<Rightarrow> Actor" where
  "system_actor username role_name display_name permissions =
     (let scope = \<lparr>s_role = make_role role_name display_name permissions,
                   s_allow_list = [(WILDCARD, WILDCARD)]\<rparr>
      in \<lparr>a_user_id = nil_uuid, a_username = username, a_organization_ids = [],
          a_site_roles = [role_name], a_org_roles = [], a_groups = [], a_scope = None,
          a_scope_override = Some scope\<rparr>)"

definition system_restricted :: Actor where
  "system_restricted =
     system_actor ''system'' ROLE_SYSTEM_RESTRICTED ''Coder'' system_restricted_permissions"

definition key_rotator :: Actor where
  "key_rotator =
     system_actor ''keyrotator'' ROLE_KEY_ROTATOR ''Crypto Key Rotator'' key_rotator_permissions"

definition provisionerd :: Actor where
  "provisionerd =
     system_actor ''provisionerd'' ROLE_PROVISIONERD ''Provisioner Daemon'' provisionerd_permissions"

definition notifier :: Actor where
  "notifier = system_actor ''notifier'' ROLE_NOTIFIER ''Notifier'' notifier_permissions"

definition resource_monitor :: Actor where
  "resource_monitor =
     system_actor ''resourcemonitor'' ROLE_RESOURCE_MONITOR ''Resource Monitor''
       resource_monitor_permissions"

definition autostart :: Actor where
  "autostart = system_actor ''autostart'' ROLE_AUTOSTART ''Autostart Daemon'' autostart_permissions"

definition connection_logger :: Actor where
  "connection_logger =
     system_actor ''connectionlogger'' ROLE_CONNECTION_LOGGER ''Connection Logger''
       connection_logger_permissions"

definition job_reaper :: Actor where
  "job_reaper =
     system_actor ''jobreaper'' ROLE_JOB_REAPER ''Job Reaper Daemon'' job_reaper_permissions"

lemmas system_actor_defs = system_restricted_def key_rotator_def provisionerd_def notifier_def
  resource_monitor_def autostart_def connection_logger_def job_reaper_def

definition is_system :: "Actor \<Rightarrow> bool" where
  "is_system actor =
     list_ex (\<lambda>role. role \<in> set [ROLE_SYSTEM_RESTRICTED, ROLE_KEY_ROTATOR, ROLE_PROVISIONERD,
         ROLE_NOTIFIER, ROLE_RESOURCE_MONITOR, ROLE_AUTOSTART, ROLE_CONNECTION_LOGGER,
         ROLE_JOB_REAPER])
       (a_site_roles actor)"

definition owner_of :: "uuid_codec \<Rightarrow> uuid \<Rightarrow> Actor" where
  "owner_of U user_id =
     \<lparr>a_user_id = user_id, a_username = ''owner_'' @ to_string U user_id, a_organization_ids = [],
      a_site_roles = [ROLE_OWNER], a_org_roles = [], a_groups = [], a_scope = None,
      a_scope_override = None\<rparr>"

definition owner :: "uuid_codec \<Rightarrow> Actor" where
  "owner U = owner_of U nil_uuid"

section \<open>Facts\<close>

text \<open>Every system subject with the permission list that is meant to bound it.\<close>

definition system_subjects :: "(Actor \<times> Permission list) list" where
  "system_subjects =
     [(system_restricted, system_restricted_permissions), (key_rotator, key_rotator_permissions),
      (provisionerd, provisionerd_permissions), (notifier, notifier_permissions),
      (resource_monitor, resource_monitor_permissions), (autostart, autostart_permissions),
      (connection_logger, connection_logger_permissions), (job_reaper, job_reaper_permissions)]"

lemma system_actor_fields [simp]:
  "a_user_id (system_actor u r d ps) = nil_uuid"
  "a_site_roles (system_actor u r d ps) = [r]"
  "a_org_roles (system_actor u r d ps) = []"
  "a_groups (system_actor u r d ps) = []"
  "a_scope_override (system_actor u r d ps) =
     Some \<lparr>s_role = make_role r d ps, s_allow_list = [(WILDCARD, WILDCARD)]\<rparr>"
  by (simp_all add: system_actor_def Let_def)

lemma make_role_fields [simp]:
  "r_site (make_role n d ps) = ps" "r_user (make_role n d ps) = []"
  "r_by_org_id (make_role n d ps) = hm_empty" "r_name (make_role n d ps) = n"
  by (simp_all add: make_role_def)

text \<open>No system subject carries a negative permission.\<close>

lemma system_permissions_positive [decide_simps]:
  "\<not> denies system_restricted_permissions rt a"
  "\<not> denies key_rotator_permissions rt a"
  "\<not> denies provisionerd_permissions rt a"
  "\<not> denies notifier_permissions rt a"
  "\<not> denies resource_monitor_permissions rt a"
  "\<not> denies autostart_permissions rt a"
  "\<not> denies connection_logger_permissions rt a"
  "\<not> denies job_reaper_permissions rt a"
  by (simp_all add: system_restricted_permissions_def key_rotator_permissions_def
      provisionerd_permissions_def notifier_permissions_def resource_monitor_permissions_def
      autostart_permissions_def connection_logger_permissions_def job_reaper_permissions_def)

end
