(* ===== verification/Rbac_Roles.thy ===== *)
theory Rbac_Roles
  imports System_Actors
begin

text \<open>
  The built-in roles of \<open>crates/coder-rbac/src/lib.rs\<close> and \<open>expand_role\<close>, which turns a role
  name, possibly with an organization suffix, into its permissions.
\<close>

section \<open>Role metadata\<close>

record BuiltinRole =
  b_name :: string
  b_display_name :: string

definition site_builtin_roles :: "BuiltinRole list" where
  "site_builtin_roles =
     [\<lparr>b_name = ROLE_OWNER, b_display_name = ''Owner''\<rparr>,
      \<lparr>b_name = ROLE_MEMBER, b_display_name = ''Member''\<rparr>,
      \<lparr>b_name = ROLE_TEMPLATE_ADMIN, b_display_name = ''Template Admin''\<rparr>,
      \<lparr>b_name = ROLE_USER_ADMIN, b_display_name = ''User Admin''\<rparr>,
      \<lparr>b_name = ROLE_AUDITOR, b_display_name = ''Auditor''\<rparr>]"

definition organization_builtin_roles :: "BuiltinRole list" where
  "organization_builtin_roles =
     [\<lparr>b_name = ROLE_ORGANIZATION_ADMIN, b_display_name = ''Organization Admin''\<rparr>,
      \<lparr>b_name = ROLE_ORGANIZATION_MEMBER, b_display_name = ''Organization Member''\<rparr>,
      \<lparr>b_name = ROLE_ORGANIZATION_AUDITOR, b_display_name = ''Organization Auditor''\<rparr>,
      \<lparr>b_name = ROLE_ORGANIZATION_USER_ADMIN, b_display_name = ''Organization User Admin''\<rparr>,
      \<lparr>b_name = ROLE_ORGANIZATION_TEMPLATE_ADMIN,
       b_display_name = ''Organization Template Admin''\<rparr>]"

section \<open>Permission helpers\<close>

definition all_perms_except :: "ResourceType list \<Rightarrow> Permission list" where
  "all_perms_except except = map allow_all (filter (\<lambda>rt. rt \<notin> set except) ALL_RESOURCE_TYPES)"

definition permissions_from_map :: "(ResourceType \<times> Action list) list \<Rightarrow> Permission list" where
  "permissions_from_map m = concat (map (\<lambda>(rt, actions). map (\<lambda>action. allow rt action) actions) m)"

section \<open>Site roles\<close>

definition role_owner :: Role where
  "role_owner =
     \<lparr>r_name = ROLE_OWNER, r_org_id = None, r_display_name = ''Owner'',
      r_site =
        all_perms_except
          [WorkspaceDormant, PrebuiltWorkspace, Workspace, UserSecret, UsageEvent, BoundaryUsage]
        @ [allow_all Workspace]
        @ map (allow WorkspaceDormant)
            [Read, Delete, Create, Update, Stop, CreateAgent, DeleteAgent, UpdateAgent]
        @ [allow PrebuiltWorkspace Update]
        @ [allow PrebuiltWorkspace Delete],
      r_user = [], r_by_org_id = hm_empty\<rparr>"

definition role_member :: Role where
  "role_member =
     \<lparr>r_name = ROLE_MEMBER, r_org_id = None, r_display_name = ''Member'',
      r_site = permissions_from_map
        [(AssignRole, [Read]), (Oauth2App, [Read]), (WorkspaceProxy, [Read])],
      r_user =
        all_perms_except
          [WorkspaceDormant, PrebuiltWorkspace, Workspace, User, OrganizationMember, BoundaryUsage]
        @ permissions_from_map
            [(User, [Read, ReadPersonal, UpdatePersonal]),
             (ProvisionerDaemon, [Read, Create, Update])],
      r_by_org_id = hm_empty\<rparr>"

definition role_auditor :: Role where
  "role_auditor =
     \<lparr>r_name = ROLE_AUDITOR, r_org_id = None, r_display_name = ''Auditor'',
      r_site = permissions_from_map
        [(AssignOrgRole, [Read]), (AuditLog, [Read]), (ConnectionLog, [Read]),
         (Template, [Read, ViewInsights]), (User, [Read]), (Group, [Read]), (GroupMember, [Read]),
         (Organization, [Read]), (OrganizationMember, [Read]), (DeploymentStats, [Read]),
         (DeploymentConfig, [Read]), (AibridgeInterception, [Read])],
      r_user = [], r_by_org_id = hm_empty\<rparr>"

definition role_template_admin :: Role where
  "role_template_admin =
     \<lparr>r_name = ROLE_TEMPLATE_ADMIN, r_org_id = None, r_display_name = ''Template Admin'',
      r_site = permissions_from_map
        [(AssignOrgRole, [Read]), (Template, [Create, Use, Read, Update, Delete, ViewInsights]),
         (File, [Create, Read]), (Workspace, [Read]), (PrebuiltWorkspace, [Update, Delete]),
         (ProvisionerDaemon, [Create, Read, Update, Delete]), (User, [Read]), (Group, [Read]),
         (GroupMember, [Read]), (Organization, [Read]), (OrganizationMember, [Read])],
      r_user = [], r_by_org_id = hm_empty\<rparr>"

definition role_user_admin :: Role where
  "role_user_admin =
     \<lparr>r_name = ROLE_USER_ADMIN, r_org_id = None, r_display_name = ''User Admin'',
      r_site = permissions_from_map
        [(AssignRole, [Assign, Unassign, Read]), (AssignOrgRole, [Assign, Unassign, Read]),
         (User, [Create, Read, Update, Delete, UpdatePersonal, ReadPersonal]),
         (Group, [Create, Read, Update, Delete]), (GroupMember, [Read]), (Organization, [Read]),
         (OrganizationMember, [Create, Read, Update, Delete]), (IdpsyncSettings, [Read, Update])],
      r_user = [], r_by_org_id = hm_empty\<rparr>"

section \<open>Organization roles\<close>

definition role_org_admin :: "uuid_codec \<Rightarrow> uuid \<Rightarrow> Role" where
  "role_org_admin U org_id =
     (let org_perms =
            all_perms_except
              [Workspace, WorkspaceDormant, PrebuiltWorkspace, AssignRole, UserSecret, BoundaryUsage]
            @ map (allow Workspace)
                [Create, Read, Update, Delete, Start, Stop, Use, ViewInsights, Share, CreateAgent,
                 DeleteAgent, UpdateAgent]
            @ map (allow WorkspaceDormant)
                [Read, Delete, Create, Update, Stop, CreateAgent, DeleteAgent, UpdateAgent]
            @ [allow PrebuiltWorkspace Update]
            @ [allow PrebuiltWorkspace Delete]
      in \<lparr>r_name = ROLE_ORGANIZATION_ADMIN, r_org_id = Some org_id,
          r_display_name = ''Organization Admin'',
          r_site = permissions_from_map [(User, [Read])], r_user = [],
          r_by_org_id = hm_insert (to_string U org_id)
            \<lparr>op_org = org_perms, op_member = []\<rparr> hm_empty\<rparr>)"

definition role_org_member :: "uuid_codec \<Rightarrow> uuid \<Rightarrow> Role" where
  "role_org_member U org_id =
     (let org_perms = permissions_from_map
            [(ProvisionerDaemon, [Read]), (Organization, [Read]), (AssignOrgRole, [Read]),
             (OrganizationMember, [Read]), (Group, [Read])];
          member_perms =
            all_perms_except [WorkspaceDormant, PrebuiltWorkspace, User, OrganizationMember]
            @ permissions_from_map
                [(WorkspaceDormant,
                   [Read, Delete, Create, Update, Stop, CreateAgent, DeleteAgent, UpdateAgent]),
                 (OrganizationMember, [Read]), (ProvisionerDaemon, [Read, Create, Update])]
      in \<lparr>r_name = ROLE_ORGANIZATION_MEMBER, r_org_id = Some org_id,
          r_display_name = ''Organization Member'', r_site = [], r_user = [],
          r_by_org_id = hm_insert (to_string U org_id)
            \<lparr>op_org = org_perms, op_member = member_perms\<rparr> hm_empty\<rparr>)"

definition role_org_auditor :: "uuid_codec \<Rightarrow> uuid \<Rightarrow> Role" where
  "role_org_auditor U org_id =
     (let org_perms = permissions_from_map
            [(AuditLog, [Read]), (ConnectionLog, [Read]), (Template, [Read, ViewInsights]),
             (Group, [Read]), (GroupMember, [Read]), (Organization, [Read]),
             (OrganizationMember, [Read])]
      in \<lparr>r_name = ROLE_ORGANIZATION_AUDITOR, r_org_id = Some org_id,
          r_display_name = ''Organization Auditor'', r_site = [], r_user = [],
          r_by_org_id = hm_insert (to_string U org_id)
            \<lparr>op_org = org_perms, op_member = []\<rparr> hm_empty\<rparr>)"

definition role_org_user_admin :: "uuid_codec \<Rightarrow> uuid \<Rightarrow> Role" where
  "role_org_user_admin U org_id =
     (let org_perms = permissions_from_map
            [(AssignOrgRole, [Assign, Unassign, Read]), (Organization, [Read]),
             (OrganizationMember, [Create, Read, Update, Delete]),
             (Group, [Create, Read, Update, Delete]), (GroupMember, [Read]),
             (IdpsyncSettings, [Read, Update])]
      in \<lparr>r_name = ROLE_ORGANIZATION_USER_ADMIN, r_org_id = Some org_id,
          r_display_name = ''Organization User Admin'',
          r_site = permissions_from_map [(User, [Read])], r_user = [],
          r_by_org_id = hm_insert (to_string U org_id)
            \<lparr>op_org = org_perms, op_member = []\<rparr> hm_empty\<rparr>)"

definition role_org_template_admin :: "uuid_codec \<Rightarrow> uuid \<Rightarrow> Role" where
  "role_org_template_admin U org_id =
     (let org_perms = permissions_from_map
            [(Template, [Create, Use, Read, Update, Delete, ViewInsights]), (File, [Create, Read]),
             (Workspace, [Read]), (PrebuiltWorkspace, [Update, Delete]), (Organization, [Read]),
             (OrganizationMember, [Read]), (Group, [Read]), (GroupMember, [Read]),
             (ProvisionerDaemon, [Create, Read, Update, Delete]),
             (ProvisionerJobs, [Read, Update, Create])]
      in \<lparr>r_name = ROLE_ORGANIZATION_TEMPLATE_ADMIN, r_org_id = Some org_id,
          r_display_name = ''Organization Template Admin'', r_site = [], r_user = [],
          r_by_org_id = hm_insert (to_string U org_id)
            \<lparr>op_org = org_perms, op_member = []\<rparr> hm_empty\<rparr>)"

definition role_org_workspace_creation_ban :: "uuid_codec \<Rightarrow> uuid \<Rightarrow> Role" where
  "role_org_workspace_creation_ban U org_id =
     (let org_perms = [deny Workspace Create, deny Workspace Delete, deny Workspace CreateAgent,
            deny Workspace DeleteAgent]
      in \<lparr>r_name = ROLE_ORGANIZATION_WORKSPACE_CREATION_BAN, r_org_id = Some org_id,
          r_display_name = ''Organization Workspace Creation Ban'', r_site = [], r_user = [],
          r_by_org_id = hm_insert (to_string U org_id)
            \<lparr>op_org = org_perms, op_member = []\<rparr> hm_empty\<rparr>)"

lemmas org_role_defs = role_org_admin_def role_org_member_def role_org_auditor_def
  role_org_user_admin_def role_org_template_admin_def role_org_workspace_creation_ban_def

section \<open>Role expansion\<close>

definition expand_org_role :: "uuid_codec \<Rightarrow> string \<Rightarrow> uuid \<Rightarrow> Role option" where
  "expand_org_role U role_name org_id =
     (if role_name = ROLE_ORGANIZATION_ADMIN then Some (role_org_admin U org_id)
      else if role_name = ROLE_ORGANIZATION_MEMBER then Some (role_org_member U org_id)
      else if role_name = ROLE_ORGANIZATION_AUDITOR then Some (role_org_auditor U org_id)
      else if role_name = ROLE_ORGANIZATION_USER_ADMIN then Some (role_org_user_admin U org_id)
      else if role_name = ROLE_ORGANIZATION_TEMPLATE_ADMIN then Some (role_org_template_admin U org_id)
      else if role_name = ROLE_ORGANIZATION_WORKSPACE_CREATION_BAN
        then Some (role_org_workspace_creation_ban U org_id)
      else None)"

definition expand_site_role :: "string \<Rightarrow> Role option" where
  "expand_site_role name =
     (if name = ROLE_OWNER then Some role_owner
      else if name = ROLE_MEMBER then Some role_member
      else if name = ROLE_AUDITOR then Some role_auditor
      else if name = ROLE_TEMPLATE_ADMIN then Some role_template_admin
      else if name = ROLE_USER_ADMIN then Some role_user_admin
      else if name = ROLE_SYSTEM_RESTRICTED then Some role_system_restricted
      else if name = ROLE_KEY_ROTATOR then Some role_key_rotator
      else if name = ROLE_PROVISIONERD then Some role_provisionerd
      else if name = ROLE_NOTIFIER then Some role_notifier
      else if name = ROLE_RESOURCE_MONITOR then Some role_resource_monitor
      else if name = ROLE_AUTOSTART then Some role_autostart
      else if name = ROLE_CONNECTION_LOGGER then Some role_connection_logger
      else if name = ROLE_JOB_REAPER then Some role_job_reaper
      else None)"

definition expand_role :: "uuid_codec \<Rightarrow> string \<Rightarrow> Role option" where
  "expand_role U name =
     (case split_once CHR '':'' name of
        Some (role_name, org_id_str) \<Rightarrow>
          (case parse_str U org_id_str of
             None \<Rightarrow> None
           | Some org_id \<Rightarrow> expand_org_role U role_name org_id)
      | None \<Rightarrow> expand_site_role name)"

section \<open>Facts\<close>

lemma grants_all_perms_except [decide_simps]:
  "grants (all_perms_except ex) rt a \<longleftrightarrow> rt \<notin> set ex \<and> rt \<noteq> Wildcard"
  by (auto simp: all_perms_except_def list_ex_map_allow_all all_resource_types)

lemma denies_all_perms_except [decide_simps]: "\<not> denies (all_perms_except ex) rt a"
  by (simp add: all_perms_except_def denies_map_allow_all)

lemma permissions_from_map_Cons:
  "permissions_from_map ((r, as) # m) = map (allow r) as @ permissions_from_map m"
  "permissions_from_map [] = []"
  by (simp_all add: permissions_from_map_def)

lemma grants_map_allow [decide_simps]:
  "grants (map (allow r) as) rt a \<longleftrightarrow> (r = Wildcard \<or> r = rt) \<and> a \<in> set as"
  by (auto simp: list_ex_iff)

lemma denies_map_allow [decide_simps]: "\<not> denies (map (allow r) as) rt a"
  by (auto simp: list_ex_iff)

lemma grants_permissions_from_map [decide_simps]:
  "grants (permissions_from_map ((r, as) # m)) rt a \<longleftrightarrow>
     (r = Wildcard \<or> r = rt) \<and> a \<in> set as \<or> grants (permissions_from_map m) rt a"
  "\<not> grants (permissions_from_map []) rt a"
  by (simp_all add: permissions_from_map_Cons grants_map_allow)

lemma denies_permissions_from_map [decide_simps]: "\<not> denies (permissions_from_map m) rt a"
  by (induction m) (auto simp: permissions_from_map_Cons denies_map_allow)

text \<open>The textual form of an organization role, \<open>format!("{role}:{org_id}")\<close>.\<close>

definition org_role_name :: "uuid_codec \<Rightarrow> string \<Rightarrow> uuid \<Rightarrow> string" where
  "org_role_name U role_name org_id = role_name @ CHR '':'' # to_string U org_id"

context uuid_text
begin

lemma expand_org_role_name:
  "CHR '':'' \<notin> set rn \<Longrightarrow> expand_role U (org_role_name U rn org) = expand_org_role U rn org"
  by (simp add: expand_role_def org_role_name_def split_once_append)

end

lemma expand_site_role_name:
  "CHR '':'' \<notin> set name \<Longrightarrow> expand_role U name = expand_site_role name"
  by (simp add: expand_role_def split_once_None [THEN iffD2])

lemma site_names_no_colon:
  "CHR '':'' \<notin> set ROLE_OWNER" "CHR '':'' \<notin> set ROLE_MEMBER" "CHR '':'' \<notin> set ROLE_AUDITOR"
  "CHR '':'' \<notin> set ROLE_TEMPLATE_ADMIN" "CHR '':'' \<notin> set ROLE_USER_ADMIN"
  "CHR '':'' \<notin> set ROLE_SYSTEM_RESTRICTED" "CHR '':'' \<notin> set ROLE_KEY_ROTATOR"
  "CHR '':'' \<notin> set ROLE_PROVISIONERD" "CHR '':'' \<notin> set ROLE_NOTIFIER"
  "CHR '':'' \<notin> set ROLE_RESOURCE_MONITOR" "CHR '':'' \<notin> set ROLE_AUTOSTART"
  "CHR '':'' \<notin> set ROLE_CONNECTION_LOGGER" "CHR '':'' \<notin> set ROLE_JOB_REAPER"
  by (simp_all add: role_name_defs system_role_name_defs)

lemma expand_owner: "expand_role U ROLE_OWNER = Some role_owner"
  by (simp add: expand_site_role_name site_names_no_colon expand_site_role_def)

text \<open>An organization role carries permissions for its own organization only: nothing at user
  level, and at site level at most reading users.\<close>

lemma expand_org_role_shape:
  assumes "expand_org_role U rn org = Some r"
  obtains ops where "r_by_org_id r = [(to_string U org, ops)]" and "r_user r = []"
    and "r_site r = [] \<or> r_site r = permissions_from_map [(User, [Read])]"
  using assms
  by (auto simp: expand_org_role_def org_role_defs hm_defs Let_def split: if_splits)

text \<open>Site roles never deny and carry nothing per organization.\<close>

lemma expand_site_role_shape:
  assumes "expand_site_role name = Some r"
  shows "r_by_org_id r = []" and "\<not> denies (r_site r) rt a"
proof -
  show "r_by_org_id r = []"
    using assms
    by (auto simp: expand_site_role_def role_owner_def role_member_def role_auditor_def
        role_template_admin_def role_user_admin_def system_role_defs hm_defs make_role_def
        split: if_splits)
  show "\<not> denies (r_site r) rt a"
    using assms
    by (auto simp: expand_site_role_def role_owner_def role_member_def role_auditor_def
        role_template_admin_def role_user_admin_def system_role_defs denies_all_perms_except
        denies_permissions_from_map system_permissions_positive split: if_splits)
qed

end
