(* ===== verification/Rbac_Authorizer.thy ===== *)
theory Rbac_Authorizer
  imports Rbac_Roles
begin

text \<open>
  The authorizer of \<open>crates/coder-rbac/src/lib.rs\<close>: scope selection, the deny pass, the grant pass
  and the ACL pass, an independent declarative specification of the decision, and the theorems
  that relate them.
\<close>

section \<open>The decision procedure\<close>

datatype Forbidden = Forbidden (message: string)

text \<open>A text between the single quotes of an error message.\<close>

definition quoted :: "string \<Rightarrow> string" where
  "quoted s = CHR 0x27 # s @ [CHR 0x27]"

definition owns :: "Actor \<Rightarrow> Object \<Rightarrow> bool" where
  "owns actor obj \<longleftrightarrow> o_owner_id obj = Some (a_user_id actor)"

definition has_deny_permission :: "uuid_codec \<Rightarrow> Role \<Rightarrow> Actor \<Rightarrow> Action \<Rightarrow> Object \<Rightarrow> bool" where
  "has_deny_permission U role actor action obj =
     (if denies (r_site role) (o_resource_type obj) action then True
      else case o_org_id obj of
        Some org_id \<Rightarrow>
          (case hm_get (r_by_org_id role) (to_string U org_id) of
             Some org_perms \<Rightarrow>
               if denies (op_org org_perms) (o_resource_type obj) action then True
               else owns actor obj \<and> denies (op_member org_perms) (o_resource_type obj) action
           | None \<Rightarrow> False)
      | None \<Rightarrow>
          if o_any_org obj then
            list_ex (\<lambda>org_perms.
                denies (op_org org_perms) (o_resource_type obj) action
                \<or> owns actor obj \<and> denies (op_member org_perms) (o_resource_type obj) action)
              (hm_values (r_by_org_id role))
          else False)"

definition check_permissions_in_role ::
  "uuid_codec \<Rightarrow> Role \<Rightarrow> Actor \<Rightarrow> Action \<Rightarrow> Object \<Rightarrow> bool" where
  "check_permissions_in_role U role actor action obj =
     (if grants (r_site role) (o_resource_type obj) action then True
      else if (case o_org_id obj of
          Some org_id \<Rightarrow>
            (case hm_get (r_by_org_id role) (to_string U org_id) of
               Some org_perms \<Rightarrow>
                 if grants (op_org org_perms) (o_resource_type obj) action then True
                 else owns actor obj \<and> grants (op_member org_perms) (o_resource_type obj) action
             | None \<Rightarrow> False)
        | None \<Rightarrow>
            if o_any_org obj then
              list_ex (\<lambda>org_perms.
                  grants (op_org org_perms) (o_resource_type obj) action
                  \<or> owns actor obj \<and> grants (op_member org_perms) (o_resource_type obj) action)
                (hm_values (r_by_org_id role))
            else False) then True
      else if owns actor obj then grants (r_user role) (o_resource_type obj) action
      else False)"

text \<open>The match on the scope name; a name it does not list selects the full scope.\<close>

definition named_scope :: "string option \<Rightarrow> Scope" where
  "named_scope sc =
     (case sc of
        None \<Rightarrow> scope_all
      | Some name \<Rightarrow>
          if name = ''application_connect'' then scope_application_connect
          else if name = ''no_user_data'' then scope_no_user_data
          else if name = ''workspace:read'' then scope_workspace_read
          else if name = ''workspace:start'' then scope_workspace_start
          else if name = ''workspace:stop'' then scope_workspace_stop
          else if name = ''workspace:update'' then scope_workspace_write
          else if name = ''workspace:delete'' then scope_workspace_delete
          else if name = ''template:read'' then scope_template_read
          else if name = ''template:update'' then scope_template_write
          else if name = ''api_key:read'' then scope_api_key_read
          else if name = ''api_key:create'' then scope_api_key_create
          else if name = ''api_key:update'' then scope_api_key_write
          else if name = ''api_key:delete'' then scope_api_key_delete
          else if name = ''user_secret:read'' then scope_user_secret_read
          else if name = ''user_secret:create'' then scope_user_secret_create
          else if name = ''user_secret:update'' then scope_user_secret_write
          else if name = ''user_secret:delete'' then scope_user_secret_delete
          else if name = ''task:read'' then scope_task_read
          else if name = ''task:update'' then scope_task_write
          else if name = ''task:delete'' then scope_task_delete
          else if name = ''organization:read'' then scope_organization_read
          else if name = ''organization:update'' then scope_organization_write
          else if name = ''organization:delete'' then scope_organization_delete
          else if name = ''deployment_config:read'' then scope_deployment_config_read
          else if name = ''audit_log:read'' then scope_audit_log_read
          else scope_all)"

definition effective_scope :: "Actor \<Rightarrow> Scope" where
  "effective_scope actor =
     (case a_scope_override actor of Some scope \<Rightarrow> scope | None \<Rightarrow> named_scope (a_scope actor))"

text \<open>Step 1: the roles whose names are known, site roles first.\<close>

definition expand_roles :: "uuid_codec \<Rightarrow> Actor \<Rightarrow> Role list" where
  "expand_roles U actor =
     List.map_filter (expand_role U) (a_site_roles actor)
     @ List.map_filter (expand_role U) (a_org_roles actor)"

text \<open>Step 5: the user ACL, then the ACL of each group of the actor.\<close>

definition acl_allows :: "uuid_codec \<Rightarrow> Actor \<Rightarrow> Action \<Rightarrow> Object \<Rightarrow> bool" where
  "acl_allows U actor action obj =
     ((case hm_get (o_acl_user_list obj) (to_string U (a_user_id actor)) of
         Some allowed_actions \<Rightarrow> action \<in> set allowed_actions
       | None \<Rightarrow> False)
      \<or> list_ex (\<lambda>group_id.
           case hm_get (o_acl_group_list obj) group_id of
             Some allowed_actions \<Rightarrow> action \<in> set allowed_actions
           | None \<Rightarrow> False)
         (a_groups actor))"

definition authorize ::
  "uuid_codec \<Rightarrow> Actor \<Rightarrow> Action \<Rightarrow> Object \<Rightarrow> (Forbidden, unit) result" where
  "authorize U actor action obj =
     (let roles = expand_roles U actor;
          scope = effective_scope actor;
          rt = as_str (o_resource_type obj)
      in if \<not> allows_object U scope obj then
           Err (Forbidden (''scope does not allow access to '' @ rt @ '' resource''))
         else if \<not> check_permissions_in_role U (s_role scope) actor action obj then
           Err (Forbidden (''scope does not allow action '' @ quoted (action_as_str action)
             @ '' on resource '' @ quoted rt))
         else case find (\<lambda>role. has_deny_permission U role actor action obj) roles of
             Some role \<Rightarrow>
               Err (Forbidden (''role '' @ quoted (r_name role) @ '' explicitly denies action ''
                 @ quoted (action_as_str action) @ '' on resource '' @ quoted rt))
           | None \<Rightarrow>
               if list_ex (\<lambda>role. check_permissions_in_role U role actor action obj) roles then Ok ()
               else if acl_allows U actor action obj then Ok ()
               else Err (Forbidden (''no role grants action '' @ quoted (action_as_str action)
                 @ '' on resource '' @ quoted rt @ '' for user '' @ quoted (a_username actor))))"

section \<open>Specification\<close>

text \<open>
  Which permissions of a role bear on an actor and an object, independently of the order in
  which the code looks at them: site permissions always; organization permissions when the
  object lies in that organization or stands for any organization; member permissions there and
  user permissions everywhere when the actor owns the object.
\<close>

datatype level = SiteLevel | OrgLevel | MemberLevel | UserLevel

inductive org_in_reach :: "uuid_codec \<Rightarrow> Role \<Rightarrow> Object \<Rightarrow> OrgPermissions \<Rightarrow> bool"
  for U :: uuid_codec and role :: Role and obj :: Object
where
  own_org: "o_org_id obj = Some org \<Longrightarrow> hm_get (r_by_org_id role) (to_string U org) = Some ops \<Longrightarrow>
     org_in_reach U role obj ops"
| every_org: "o_org_id obj = None \<Longrightarrow> o_any_org obj \<Longrightarrow> (k, ops) \<in> set (r_by_org_id role) \<Longrightarrow>
     org_in_reach U role obj ops"

inductive bears_on ::
  "uuid_codec \<Rightarrow> Role \<Rightarrow> Actor \<Rightarrow> Object \<Rightarrow> level \<Rightarrow> Permission \<Rightarrow> bool"
  for U :: uuid_codec and role :: Role and actor :: Actor and obj :: Object
where
  site: "p \<in> set (r_site role) \<Longrightarrow> bears_on U role actor obj SiteLevel p"
| org: "org_in_reach U role obj ops \<Longrightarrow> p \<in> set (op_org ops) \<Longrightarrow>
     bears_on U role actor obj OrgLevel p"
| member: "org_in_reach U role obj ops \<Longrightarrow> owns actor obj \<Longrightarrow> p \<in> set (op_member ops) \<Longrightarrow>
     bears_on U role actor obj MemberLevel p"
| user: "owns actor obj \<Longrightarrow> p \<in> set (r_user role) \<Longrightarrow> bears_on U role actor obj UserLevel p"

inductive_simps org_in_reach_simps: "org_in_reach U role obj ops"
inductive_simps bears_on_simps: "bears_on U role actor obj l p"

text \<open>A role grants through any level; it denies through every level but the user level.\<close>

definition role_grants :: "uuid_codec \<Rightarrow> Role \<Rightarrow> Actor \<Rightarrow> Action \<Rightarrow> Object \<Rightarrow> bool" where
  "role_grants U role actor action obj \<longleftrightarrow>
     (\<exists>l p. bears_on U role actor obj l p \<and> \<not> p_negate p \<and> matches p (o_resource_type obj) action)"

definition role_denies :: "uuid_codec \<Rightarrow> Role \<Rightarrow> Actor \<Rightarrow> Action \<Rightarrow> Object \<Rightarrow> bool" where
  "role_denies U role actor action obj \<longleftrightarrow>
     (\<exists>l p. l \<noteq> UserLevel \<and> bears_on U role actor obj l p \<and> p_negate p
        \<and> matches p (o_resource_type obj) action)"

text \<open>The roles an actor holds, as a relation to role names.\<close>

definition holds_role :: "uuid_codec \<Rightarrow> Actor \<Rightarrow> Role \<Rightarrow> bool" where
  "holds_role U actor role \<longleftrightarrow>
     (\<exists>name \<in> set (a_site_roles actor) \<union> set (a_org_roles actor). expand_role U name = Some role)"

text \<open>An ACL entry for the actor or for one of its groups lists the action.\<close>

definition acl_entry :: "uuid_codec \<Rightarrow> Actor \<Rightarrow> Action \<Rightarrow> Object \<Rightarrow> bool" where
  "acl_entry U actor action obj \<longleftrightarrow>
     (\<exists>as. action \<in> set as \<and>
        (hm_get (o_acl_user_list obj) (to_string U (a_user_id actor)) = Some as
         \<or> (\<exists>g \<in> set (a_groups actor). hm_get (o_acl_group_list obj) g = Some as)))"

definition permitted :: "uuid_codec \<Rightarrow> Actor \<Rightarrow> Action \<Rightarrow> Object \<Rightarrow> bool" where
  "permitted U actor action obj \<longleftrightarrow>
     (let scope = effective_scope actor in
        (s_allow_list scope = [] \<or> (\<exists>e \<in> set (s_allow_list scope). entry_admits U obj e))
        \<and> role_grants U (s_role scope) actor action obj)
     \<and> \<not> (\<exists>role. holds_role U actor role \<and> role_denies U role actor action obj)
     \<and> ((\<exists>role. holds_role U actor role \<and> role_grants U role actor action obj)
        \<or> acl_entry U actor action obj)"

section \<open>The procedure implements the specification\<close>

text \<open>The organization pass of both checks: some organization in reach satisfies \<open>Q\<close>.\<close>

lemma org_pass_iff:
  "(\<exists>ops. org_in_reach U role obj ops \<and> Q ops) \<longleftrightarrow>
     (case o_org_id obj of
        Some org_id \<Rightarrow>
          (case hm_get (r_by_org_id role) (to_string U org_id) of Some ops \<Rightarrow> Q ops | None \<Rightarrow> False)
      | None \<Rightarrow> if o_any_org obj then list_ex Q (hm_values (r_by_org_id role)) else False)"
  by (cases "o_org_id obj")
    (auto simp: org_in_reach_simps hm_values_def list_ex_iff split: option.splits, force+)

lemma role_grants_iff:
  "role_grants U role actor action obj \<longleftrightarrow>
     grants (r_site role) (o_resource_type obj) action
     \<or> (\<exists>ops. org_in_reach U role obj ops \<and> (grants (op_org ops) (o_resource_type obj) action
          \<or> owns actor obj \<and> grants (op_member ops) (o_resource_type obj) action))
     \<or> owns actor obj \<and> grants (r_user role) (o_resource_type obj) action"
  unfolding role_grants_def bears_on_simps list_ex_iff by blast

lemma role_denies_iff:
  "role_denies U role actor action obj \<longleftrightarrow>
     denies (r_site role) (o_resource_type obj) action
     \<or> (\<exists>ops. org_in_reach U role obj ops \<and> (denies (op_org ops) (o_resource_type obj) action
          \<or> owns actor obj \<and> denies (op_member ops) (o_resource_type obj) action))"
  unfolding role_denies_def bears_on_simps list_ex_iff by blast

lemma if_True_else: "(if P then True else Q) \<longleftrightarrow> P \<or> Q" "(if P then Q else False) \<longleftrightarrow> P \<and> Q"
  by auto

lemma check_permissions_iff:
  "check_permissions_in_role U role actor action obj \<longleftrightarrow> role_grants U role actor action obj"
  unfolding role_grants_iff check_permissions_in_role_def org_pass_iff if_True_else ..

lemma has_deny_iff:
  "has_deny_permission U role actor action obj \<longleftrightarrow> role_denies U role actor action obj"
  unfolding role_denies_iff has_deny_permission_def org_pass_iff if_True_else ..

lemma set_map_filter: "y \<in> set (List.map_filter f xs) \<longleftrightarrow> (\<exists>x \<in> set xs. f x = Some y)"
  by (induction xs) (auto simp: List.map_filter_simps split: option.splits)

lemma set_expand_roles: "role \<in> set (expand_roles U actor) \<longleftrightarrow> holds_role U actor role"
  by (auto simp: expand_roles_def set_map_filter holds_role_def)

lemma acl_allows_iff: "acl_allows U actor action obj \<longleftrightarrow> acl_entry U actor action obj"
  by (auto simp: acl_allows_def acl_entry_def list_ex_iff split: option.splits)

text \<open>The decision in terms of its four passes.\<close>

lemma authorize_Ok_iff:
  "is_ok (authorize U actor action obj) \<longleftrightarrow>
     allows_object U (effective_scope actor) obj
     \<and> role_grants U (s_role (effective_scope actor)) actor action obj
     \<and> (\<forall>role. holds_role U actor role \<longrightarrow> \<not> role_denies U role actor action obj)
     \<and> ((\<exists>role. holds_role U actor role \<and> role_grants U role actor action obj)
        \<or> acl_entry U actor action obj)"
proof (cases "find (\<lambda>role. has_deny_permission U role actor action obj) (expand_roles U actor)")
  case None
  then have "\<forall>role. holds_role U actor role \<longrightarrow> \<not> role_denies U role actor action obj"
    by (auto simp: find_None_iff has_deny_iff set_expand_roles)
  with None show ?thesis
    by (auto simp: authorize_def Let_def check_permissions_iff acl_allows_iff list_ex_iff
        set_expand_roles)
next
  case (Some role)
  then have "holds_role U actor role \<and> role_denies U role actor action obj"
    by (auto simp: find_Some_iff has_deny_iff simp flip: set_expand_roles)
  with Some show ?thesis
    by (auto simp: authorize_def Let_def)
qed

text \<open>
  C1. The authorizer implements the declarative specification: it answers \<open>Ok\<close> exactly when the
  effective scope admits the object and grants the action, no role the actor holds denies it, and
  some role the actor holds, or an ACL entry, grants it.
\<close>

theorem authorize_correct: "is_ok (authorize U actor action obj) \<longleftrightarrow> permitted U actor action obj"
  by (simp add: authorize_Ok_iff permitted_def allows_object_iff Let_def)

end
