(* ===== verification/Rbac_Properties.thy ===== *)
theory Rbac_Properties
  imports Rbac_Authorizer
begin

text \<open>
  What the built-in roles and scopes mean once the authorizer has combined them: the exact reach
  of the site owner, of the organization roles, of API-key scopes and of the system actors.
\<close>

section \<open>Roles as grants\<close>

lemma no_orgs_in_reach: "r_by_org_id role = hm_empty \<Longrightarrow> \<not> org_in_reach U role obj ops"
  by (simp add: org_in_reach_simps hm_defs)

text \<open>Permissions without an organization part act at site and user level only.\<close>

lemma site_role_grants:
  "r_by_org_id role = hm_empty \<Longrightarrow>
     role_grants U role actor action obj \<longleftrightarrow>
       grants (r_site role) (o_resource_type obj) action
       \<or> owns actor obj \<and> grants (r_user role) (o_resource_type obj) action"
  by (simp add: role_grants_iff no_orgs_in_reach)

lemma site_role_denies:
  "r_by_org_id role = hm_empty \<Longrightarrow>
     role_denies U role actor action obj \<longleftrightarrow> denies (r_site role) (o_resource_type obj) action"
  by (simp add: role_denies_iff no_orgs_in_reach)

lemma scope_all_grants [simp]: "role_grants U (s_role scope_all) actor action obj"
  by (simp add: role_grants_iff)

lemma named_scope_None: "named_scope None = scope_all"
  by (simp add: named_scope_def)

lemma effective_scope_none [simp]:
  "a_scope actor = None \<Longrightarrow> a_scope_override actor = None \<Longrightarrow> effective_scope actor = scope_all"
  by (simp add: effective_scope_def named_scope_None)

text \<open>Without a scope restriction only roles and ACLs decide.\<close>

lemma unscoped_authorize:
  "effective_scope actor = scope_all \<Longrightarrow>
     is_ok (authorize U actor action obj) \<longleftrightarrow>
       (\<forall>role. holds_role U actor role \<longrightarrow> \<not> role_denies U role actor action obj)
       \<and> ((\<exists>role. holds_role U actor role \<and> role_grants U role actor action obj)
          \<or> acl_entry U actor action obj)"
  by (simp add: authorize_Ok_iff)

lemma owner_holds:
  "holds_role U (owner_of U u) role \<longleftrightarrow> role = role_owner"
  "holds_role U (owner U) role \<longleftrightarrow> role = role_owner"
  "holds_role U (owner U\<lparr>a_scope := sc\<rparr>) role \<longleftrightarrow> role = role_owner"
  "holds_role U (owner U\<lparr>a_scope_override := ov\<rparr>) role \<longleftrightarrow> role = role_owner"
  by (auto simp: holds_role_def owner_def owner_of_def expand_owner)

section \<open>API keys only attenuate\<close>

text \<open>
  A scope never adds authority: whatever an actor may do under a named scope or a scope
  override, the same actor may do without any scope.
\<close>

theorem scope_only_restricts:
  assumes "is_ok (authorize U actor action obj)"
  shows "is_ok (authorize U (actor\<lparr>a_scope := None, a_scope_override := None\<rparr>) action obj)"
proof -
  let ?bare = "actor\<lparr>a_scope := None, a_scope_override := None\<rparr>"
  have own: "owns ?bare obj \<longleftrightarrow> owns actor obj" by (simp add: owns_def)
  have "role_grants U r ?bare action obj \<longleftrightarrow> role_grants U r actor action obj"
    and "role_denies U r ?bare action obj \<longleftrightarrow> role_denies U r actor action obj"
    and "holds_role U ?bare r \<longleftrightarrow> holds_role U actor r" for r
    by (simp_all add: role_grants_iff role_denies_iff holds_role_def own)
  moreover have "acl_entry U ?bare action obj \<longleftrightarrow> acl_entry U actor action obj"
    by (simp add: acl_entry_def)
  ultimately show ?thesis
    using assms by (simp add: unscoped_authorize authorize_Ok_iff)
qed

theorem scope_only_restricts_witness:
  "is_ok (authorize hyphenated_codec
     ((owner_of hyphenated_codec 7)\<lparr>a_scope := None, a_scope_override := None\<rparr>)
     Read (Object_new Workspace))"
  by (rule scope_only_restricts)
    (simp add: authorize_Ok_iff holds_role_def owner_of_def expand_owner site_role_grants
      site_role_denies role_owner_def decide_simps object_defs)

section \<open>Low-level scopes\<close>

text \<open>The scope names of the form \<open>resource:action\<close> and the single permission each stands for.\<close>

definition low_level_table :: "(string \<times> ResourceType \<times> Action) list" where
  "low_level_table =
     [(''workspace:read'', Workspace, Read), (''workspace:start'', Workspace, Start),
      (''workspace:stop'', Workspace, Stop), (''workspace:update'', Workspace, Update),
      (''workspace:delete'', Workspace, Delete), (''template:read'', Template, Read),
      (''template:update'', Template, Update), (''api_key:read'', ApiKey, Read),
      (''api_key:create'', ApiKey, Create), (''api_key:update'', ApiKey, Update),
      (''api_key:delete'', ApiKey, Delete), (''user_secret:read'', UserSecret, Read),
      (''user_secret:create'', UserSecret, Create), (''user_secret:update'', UserSecret, Update),
      (''user_secret:delete'', UserSecret, Delete), (''task:read'', Task, Read),
      (''task:update'', Task, Update), (''task:delete'', Task, Delete),
      (''organization:read'', Organization, Read), (''organization:update'', Organization, Update),
      (''organization:delete'', Organization, Delete),
      (''deployment_config:read'', DeploymentConfig, Read), (''audit_log:read'', AuditLog, Read)]"

lemma named_low_level_table:
  "list_all (\<lambda>(name, rt, a). named_scope (Some name) = single_permission_scope name rt a)
     low_level_table"
  by code_simp

lemma named_low_level:
  "(name, rt, a) \<in> set low_level_table \<Longrightarrow>
     named_scope (Some name) = single_permission_scope name rt a"
  using named_low_level_table by (auto simp: list_all_iff)

lemma single_permission_scope_fields [simp]:
  "r_site (s_role (single_permission_scope n rt a)) = [allow rt a]"
  "r_user (s_role (single_permission_scope n rt a)) = []"
  "r_by_org_id (s_role (single_permission_scope n rt a)) = hm_empty"
  by (simp_all add: single_permission_scope_def)

text \<open>
  An API key with a low-level scope \<open>resource:action\<close> is good for that action on that type of
  resource and for nothing else, whatever roles its owner has.
\<close>

theorem low_level_scope_exact:
  assumes "(name, rt, a) \<in> set low_level_table"
    and "a_scope actor = Some name" and "a_scope_override actor = None"
    and "is_ok (authorize U actor action obj)"
  shows "o_resource_type obj = rt \<and> action = a"
proof -
  have "effective_scope actor = single_permission_scope name rt a"
    using assms by (simp add: effective_scope_def named_low_level)
  with assms(4) have "role_grants U (s_role (single_permission_scope name rt a)) actor action obj"
    by (simp add: authorize_Ok_iff)
  moreover have "rt \<noteq> Wildcard" using assms(1) by (auto simp: low_level_table_def)
  ultimately show ?thesis by (auto simp: site_role_grants)
qed

theorem low_level_scope_exact_witness:
  "is_ok (authorize hyphenated_codec ((owner hyphenated_codec)\<lparr>a_scope := Some ''workspace:read''\<rparr>)
       Read (Object_new Workspace))
   \<and> o_resource_type (Object_new Workspace) = Workspace \<and> Read = Read"
proof -
  let ?key = "(owner hyphenated_codec)\<lparr>a_scope := Some ''workspace:read''\<rparr>"
  have t: "(''workspace:read'', Workspace, Read) \<in> set low_level_table"
    by (simp add: low_level_table_def)
  have "a_scope ?key = Some ''workspace:read''" and "a_scope_override ?key = None"
    by (simp_all add: owner_def owner_of_def)
  moreover from this have "is_ok (authorize hyphenated_codec ?key Read (Object_new Workspace))"
    by (simp add: authorize_Ok_iff effective_scope_def named_low_level [OF t] owner_holds
        allows_object_wildcard single_permission_scope_def site_role_grants site_role_denies
        role_owner_def decide_simps object_defs)
  ultimately show ?thesis using low_level_scope_exact [OF t] by blast
qed

text \<open>
  The scope of a workspace agent pins it to its own workspace, its template and its owner's
  user record, and to less than that when user data is blocked: no role of the actor and no ACL
  entry lets a request for any other object through.
\<close>

theorem workspace_agent_confined:
  assumes "uuid_text U"
    and "a_scope_override actor = Some (scope_workspace_agent U w t ow block_user_data)"
    and "is_ok (authorize U actor action obj)"
  shows "(o_resource_type obj = Workspace \<and> o_id obj = Some w)
    \<or> (o_resource_type obj = Template \<and> o_id obj = Some t)
    \<or> (o_resource_type obj = User \<and> o_id obj = Some ow \<and> \<not> block_user_data)"
proof -
  let ?s = "scope_workspace_agent U w t ow block_user_data"
  have "effective_scope actor = ?s" using assms(2) by (simp add: effective_scope_def)
  with assms(3) have "allows_object U ?s obj" and g: "role_grants U (s_role ?s) actor action obj"
    by (simp_all add: authorize_Ok_iff)
  moreover from g have "\<not> (block_user_data \<and> o_resource_type obj = User)"
    by (auto simp: site_role_grants scope_workspace_agent_perms scope_no_user_data_grants)
  ultimately show ?thesis
    using uuid_text.agent_allows_object [OF assms(1)] by blast
qed

theorem workspace_agent_confined_witness:
  "\<exists>actor obj. a_scope_override actor = Some (scope_workspace_agent hyphenated_codec 1 2 3 True)
     \<and> is_ok (authorize hyphenated_codec actor Update obj)
     \<and> ((o_resource_type obj = Workspace \<and> o_id obj = Some 1)
        \<or> (o_resource_type obj = Template \<and> o_id obj = Some 2)
        \<or> (o_resource_type obj = User \<and> o_id obj = Some 3 \<and> \<not> True))"
proof -
  let ?a = "(owner hyphenated_codec)
    \<lparr>a_scope_override := Some (scope_workspace_agent hyphenated_codec 1 2 3 True)\<rparr>"
  let ?o = "with_id (Object_new Workspace) 1"
  have s: "a_scope_override ?a = Some (scope_workspace_agent hyphenated_codec 1 2 3 True)"
    by simp
  have "allows_object hyphenated_codec (scope_workspace_agent hyphenated_codec 1 2 3 True) ?o"
    by (simp add: hy.agent_allows_object object_defs)
  then have "is_ok (authorize hyphenated_codec ?a Update ?o)"
    by (simp add: authorize_Ok_iff effective_scope_def owner_holds scope_workspace_agent_perms
        site_role_grants site_role_denies scope_no_user_data_grants role_owner_def decide_simps
        object_defs)
  with s workspace_agent_confined [OF hy.uuid_text_axioms s this] show ?thesis by blast
qed

section \<open>The site owner\<close>

text \<open>
  The exact reach of the site owner: every action on every resource type, except that user
  secrets, usage events and boundary usage are out of reach, dormant workspaces cannot be started
  or connected to, and prebuilt workspaces can only be updated and deleted. Beyond that only an
  ACL entry helps.
\<close>

theorem site_owner_reach:
  "is_ok (authorize U (owner_of U u) action obj) \<longleftrightarrow>
     (case o_resource_type obj of
        Wildcard \<Rightarrow> False | UserSecret \<Rightarrow> False | UsageEvent \<Rightarrow> False | BoundaryUsage \<Rightarrow> False
      | WorkspaceDormant \<Rightarrow>
          action \<in> {Read, Delete, Create, Update, Stop, CreateAgent, DeleteAgent, UpdateAgent}
      | PrebuiltWorkspace \<Rightarrow> action \<in> {Update, Delete}
      | _ \<Rightarrow> True)
     \<or> acl_entry U (owner_of U u) action obj"
proof -
  have sc: "effective_scope (owner_of U u) = scope_all" by (simp add: owner_of_def)
  have o: "r_by_org_id role_owner = hm_empty" "r_user role_owner = []"
    by (simp_all add: role_owner_def)
  show ?thesis
    unfolding unscoped_authorize [OF sc] owner_holds
    by (cases "o_resource_type obj")
      (simp_all add: o site_role_grants site_role_denies role_owner_def decide_simps)
qed

lemma owner_deletes_users: "is_ok (authorize U (owner U) Delete (Object_new User))"
proof -
  have "effective_scope (owner U) = scope_all" by (simp add: owner_def owner_of_def)
  then show ?thesis
    by (simp add: unscoped_authorize owner_holds site_role_grants site_role_denies role_owner_def
        decide_simps object_defs)
qed

section \<open>Organization roles\<close>

lemma holds_org_roles:
  assumes "uuid_text U" and "a_site_roles actor = []"
    and "a_org_roles actor = map (\<lambda>(rn, org). org_role_name U rn org) rs"
    and "\<forall>(rn, org) \<in> set rs. CHR '':'' \<notin> set rn"
  shows "holds_role U actor role \<longleftrightarrow> (\<exists>(rn, org) \<in> set rs. expand_org_role U rn org = Some role)"
proof -
  have "expand_role U (org_role_name U rn org) = expand_org_role U rn org"
    if "(rn, org) \<in> set rs" for rn org
    using that assms(4) uuid_text.expand_org_role_name [OF assms(1)] by blast
  then have "(\<exists>x \<in> set rs. expand_role U (case x of (rn, org) \<Rightarrow> org_role_name U rn org) = Some role)
      \<longleftrightarrow> (\<exists>(rn, org) \<in> set rs. expand_org_role U rn org = Some role)"
    by (intro bex_cong) (auto split: prod.split)
  then show ?thesis using assms(2,3) by (simp add: holds_role_def)
qed

lemma org_role_in_reach:
  assumes "uuid_text U" and "o_org_id obj = Some org" and "r_by_org_id role = [(to_string U org', ops)]"
  shows "org_in_reach U role obj ops' \<longleftrightarrow> org' = org \<and> ops' = ops"
  using assms(2,3) uuid_text.to_string_inj [OF assms(1)]
  by (auto simp: org_in_reach_simps hm_get_def)

text \<open>
  C22. Tenant isolation: an actor that only holds organization roles, none of them for the
  organization of the object, is refused, unless an ACL entry names it or the request reads a
  user (a site-level permission of the organization administrators).
\<close>

theorem organization_isolation:
  assumes "uuid_text U" and "a_site_roles actor = []"
    and "a_org_roles actor = map (\<lambda>(rn, org). org_role_name U rn org) rs"
    and "\<forall>(rn, org) \<in> set rs. CHR '':'' \<notin> set rn"
    and "o_org_id obj = Some target" and "target \<notin> snd ` set rs"
    and "is_ok (authorize U actor action obj)"
  shows "acl_entry U actor action obj \<or> (o_resource_type obj = User \<and> action = Read)"
proof -
  have "o_resource_type obj = User \<and> action = Read"
    if "holds_role U actor role" and "role_grants U role actor action obj" for role
  proof -
    from that(1) obtain rn org where "(rn, org) \<in> set rs" and e: "expand_org_role U rn org = Some role"
      using holds_org_roles [OF assms(1-4)] by auto
    with assms(6) have "org \<noteq> target" by force
    obtain ops where "r_by_org_id role = [(to_string U org, ops)]" and "r_user role = []"
      and "r_site role = [] \<or> r_site role = permissions_from_map [(User, [Read])]"
      using e by (rule expand_org_role_shape)
    with \<open>org \<noteq> target\<close> that(2) show ?thesis
      by (auto simp: role_grants_iff org_role_in_reach [OF assms(1,5)] decide_simps)
  qed
  then show ?thesis using assms(7) unfolding authorize_Ok_iff by blast
qed

text \<open>A concrete tenant: an administrator of organization 1 who asks for objects elsewhere.\<close>

definition tenant_admin :: "uuid_codec \<Rightarrow> Actor" where
  "tenant_admin U =
     \<lparr>a_user_id = 5, a_username = ''admin'', a_organization_ids = [1], a_site_roles = [],
      a_org_roles = [org_role_name U ROLE_ORGANIZATION_ADMIN 1], a_groups = [], a_scope = None,
      a_scope_override = None\<rparr>"

lemma tenant_admin_roles:
  "a_org_roles (tenant_admin U)
     = map (\<lambda>(rn, org). org_role_name U rn org) [(ROLE_ORGANIZATION_ADMIN, 1)]"
  by (simp add: tenant_admin_def)

lemma org_names_no_colon:
  "CHR '':'' \<notin> set ROLE_ORGANIZATION_ADMIN" "CHR '':'' \<notin> set ROLE_ORGANIZATION_MEMBER"
  "CHR '':'' \<notin> set ROLE_ORGANIZATION_AUDITOR" "CHR '':'' \<notin> set ROLE_ORGANIZATION_USER_ADMIN"
  "CHR '':'' \<notin> set ROLE_ORGANIZATION_TEMPLATE_ADMIN"
  "CHR '':'' \<notin> set ROLE_ORGANIZATION_WORKSPACE_CREATION_BAN"
  by (simp_all add: role_name_defs)

lemma org_role_name_neqs:
  "ROLE_ORGANIZATION_MEMBER \<noteq> ROLE_ORGANIZATION_ADMIN"
  "ROLE_ORGANIZATION_WORKSPACE_CREATION_BAN \<noteq> ROLE_ORGANIZATION_ADMIN"
  "ROLE_ORGANIZATION_WORKSPACE_CREATION_BAN \<noteq> ROLE_ORGANIZATION_MEMBER"
  "ROLE_ORGANIZATION_WORKSPACE_CREATION_BAN \<noteq> ROLE_ORGANIZATION_AUDITOR"
  "ROLE_ORGANIZATION_WORKSPACE_CREATION_BAN \<noteq> ROLE_ORGANIZATION_USER_ADMIN"
  "ROLE_ORGANIZATION_WORKSPACE_CREATION_BAN \<noteq> ROLE_ORGANIZATION_TEMPLATE_ADMIN"
  by (simp_all add: role_name_defs)

lemma expand_org_admin [simp]: "expand_org_role U ROLE_ORGANIZATION_ADMIN org = Some (role_org_admin U org)"
  by (simp add: expand_org_role_def)

lemma expand_org_member [simp]:
  "expand_org_role U ROLE_ORGANIZATION_MEMBER org = Some (role_org_member U org)"
  by (simp add: expand_org_role_def org_role_name_neqs)

lemma expand_org_ban [simp]:
  "expand_org_role U ROLE_ORGANIZATION_WORKSPACE_CREATION_BAN org =
     Some (role_org_workspace_creation_ban U org)"
  by (simp add: expand_org_role_def org_role_name_neqs)

theorem organization_isolation_witness:
  "is_ok (authorize hyphenated_codec (tenant_admin hyphenated_codec) Read
       (in_org (Object_new User) 2))
   \<and> (acl_entry hyphenated_codec (tenant_admin hyphenated_codec) Read (in_org (Object_new User) 2)
      \<or> (o_resource_type (in_org (Object_new User) 2) = User \<and> Read = Read))"
proof -
  let ?a = "tenant_admin hyphenated_codec" and ?o = "in_org (Object_new User) 2"
  have site: "a_site_roles ?a = []" by (simp add: tenant_admin_def)
  have col: "\<forall>(rn, org) \<in> set [(ROLE_ORGANIZATION_ADMIN, 1 :: uuid)]. CHR '':'' \<notin> set rn"
    by (simp add: org_names_no_colon)
  have org: "o_org_id ?o = Some 2" by (simp add: object_defs)
  have "holds_role hyphenated_codec ?a role \<longleftrightarrow> role = role_org_admin hyphenated_codec 1" for role
    unfolding holds_org_roles [OF hy.uuid_text_axioms site tenant_admin_roles col] by auto
  moreover have "r_by_org_id (role_org_admin hyphenated_codec 1) =
      [(to_string hyphenated_codec 1, the (hm_get (r_by_org_id (role_org_admin hyphenated_codec 1))
          (to_string hyphenated_codec 1)))]"
    by (simp add: role_org_admin_def hm_defs Let_def)
  then have "\<not> org_in_reach hyphenated_codec (role_org_admin hyphenated_codec 1) ?o ops" for ops
    using org_role_in_reach [OF hy.uuid_text_axioms org] by simp
  ultimately have ok: "is_ok (authorize hyphenated_codec ?a Read ?o)"
    by (simp add: unscoped_authorize tenant_admin_def role_grants_iff role_denies_iff
        role_org_admin_def decide_simps object_defs Let_def)
  have "(2 :: uuid) \<notin> snd ` set [(ROLE_ORGANIZATION_ADMIN, 1 :: uuid)]" by simp
  from organization_isolation [OF hy.uuid_text_axioms site tenant_admin_roles col org this ok] ok
  show ?thesis by simp
qed

text \<open>
  The workspace-creation ban is absolute: whoever holds it for an organization cannot create or
  delete a workspace there, or add or remove an agent, whatever other roles, scopes or ACL entries
  say; a site owner is no exception.
\<close>

theorem workspace_creation_ban:
  assumes "uuid_text U"
    and "org_role_name U ROLE_ORGANIZATION_WORKSPACE_CREATION_BAN org \<in> set (a_org_roles actor)"
    and "o_resource_type obj = Workspace" and "o_org_id obj = Some org"
    and "action \<in> {Create, Delete, CreateAgent, DeleteAgent}"
  shows "\<not> is_ok (authorize U actor action obj)"
proof -
  let ?r = "role_org_workspace_creation_ban U org"
  have "holds_role U actor ?r"
    using assms(2) uuid_text.expand_org_role_name [OF assms(1) org_names_no_colon(6)]
    unfolding holds_role_def by force
  moreover have "org_in_reach U ?r obj \<lparr>op_org = [deny Workspace Create, deny Workspace Delete,
      deny Workspace CreateAgent, deny Workspace DeleteAgent], op_member = []\<rparr>"
    using assms(4) by (simp add: org_in_reach_simps role_org_workspace_creation_ban_def hm_defs Let_def)
  then have "role_denies U ?r actor action obj"
    unfolding role_denies_iff using assms(3,5) by force
  ultimately show ?thesis unfolding authorize_Ok_iff by blast
qed

theorem workspace_creation_ban_witness:
  "\<not> is_ok (authorize hyphenated_codec
     ((owner hyphenated_codec)
       \<lparr>a_org_roles := [org_role_name hyphenated_codec ROLE_ORGANIZATION_WORKSPACE_CREATION_BAN 1]\<rparr>)
     Create (in_org (Object_new Workspace) 1))"
  by (rule workspace_creation_ban [OF hy.uuid_text_axioms, of 1]) (simp_all add: object_defs)

lemma single_org_role_decides:
  assumes "uuid_text U" and "a_site_roles actor = []"
    and "a_org_roles actor = [org_role_name U rn org]" and "CHR '':'' \<notin> set rn"
    and "expand_org_role U rn org = Some role"
  shows "holds_role U actor r \<longleftrightarrow> r = role"
  using holds_org_roles [OF assms(1,2), of "[(rn, org)]" r] assms(3-5) by auto

lemma org_admin_in_reach:
  assumes "o_org_id obj = Some org"
  shows "org_in_reach U (role_org_admin U org) obj ops \<longleftrightarrow>
     ops = \<lparr>op_org = all_perms_except
              [Workspace, WorkspaceDormant, PrebuiltWorkspace, AssignRole, UserSecret, BoundaryUsage]
            @ map (allow Workspace)
                [Create, Read, Update, Delete, Start, Stop, Use, ViewInsights, Share, CreateAgent,
                 DeleteAgent, UpdateAgent]
            @ map (allow WorkspaceDormant)
                [Read, Delete, Create, Update, Stop, CreateAgent, DeleteAgent, UpdateAgent]
            @ [allow PrebuiltWorkspace Update] @ [allow PrebuiltWorkspace Delete],
          op_member = []\<rparr>"
  using assms by (auto simp: org_in_reach_simps role_org_admin_def hm_defs Let_def)

text \<open>
  What an organization administrator may do inside the organization: everything but site role
  assignment, user secrets and boundary usage; on workspaces neither SSH nor application access
  (nor the actions that do not apply to workspaces); dormant and prebuilt workspaces as for the
  site owner.
\<close>

theorem org_admin_reach:
  assumes "uuid_text U" and "a_site_roles actor = []"
    and "a_org_roles actor = [org_role_name U ROLE_ORGANIZATION_ADMIN org]"
    and "a_scope actor = None" and "a_scope_override actor = None"
    and "o_org_id obj = Some org"
  shows "is_ok (authorize U actor action obj) \<longleftrightarrow>
     (case o_resource_type obj of
        Wildcard \<Rightarrow> False | AssignRole \<Rightarrow> False | UserSecret \<Rightarrow> False | BoundaryUsage \<Rightarrow> False
      | Workspace \<Rightarrow> action \<notin> {Ssh, ApplicationConnect, Assign, Unassign, ReadPersonal, UpdatePersonal}
      | WorkspaceDormant \<Rightarrow>
          action \<in> {Read, Delete, Create, Update, Stop, CreateAgent, DeleteAgent, UpdateAgent}
      | PrebuiltWorkspace \<Rightarrow> action \<in> {Update, Delete}
      | _ \<Rightarrow> True)
     \<or> acl_entry U actor action obj"
proof -
  have sc: "effective_scope actor = scope_all" using assms(4,5) by simp
  have h: "holds_role U actor r \<longleftrightarrow> r = role_org_admin U org" for r
    using assms(1-3) by (rule single_org_role_decides) (simp_all add: org_names_no_colon)
  have su: "r_site (role_org_admin U org) = permissions_from_map [(User, [Read])]"
    "r_user (role_org_admin U org) = []"
    by (simp_all add: role_org_admin_def Let_def)
  have deny: "\<not> role_denies U (role_org_admin U org) actor action obj"
    by (simp add: role_denies_iff su org_admin_in_reach [OF assms(6)] decide_simps)
  have ws: "action \<in> {Create, Read, Update, Delete, Start, Stop, Use, ViewInsights, Share, CreateAgent,
      DeleteAgent, UpdateAgent} \<longleftrightarrow>
      action \<notin> {Ssh, ApplicationConnect, Assign, Unassign, ReadPersonal, UpdatePersonal}"
    by (cases action) simp_all
  have "role_grants U (role_org_admin U org) actor action obj \<longleftrightarrow>
     (case o_resource_type obj of
        Wildcard \<Rightarrow> False | AssignRole \<Rightarrow> False | UserSecret \<Rightarrow> False | BoundaryUsage \<Rightarrow> False
      | Workspace \<Rightarrow> action \<notin> {Ssh, ApplicationConnect, Assign, Unassign, ReadPersonal, UpdatePersonal}
      | WorkspaceDormant \<Rightarrow>
          action \<in> {Read, Delete, Create, Update, Stop, CreateAgent, DeleteAgent, UpdateAgent}
      | PrebuiltWorkspace \<Rightarrow> action \<in> {Update, Delete}
      | _ \<Rightarrow> True)"
    unfolding role_grants_iff su org_admin_in_reach [OF assms(6)] ws [symmetric]
    by (cases "o_resource_type obj") (simp_all add: grants_all_perms_except
        grants_permissions_from_map)
  with deny show ?thesis unfolding unscoped_authorize [OF sc] h by blast
qed

theorem org_admin_reach_witness:
  "is_ok (authorize hyphenated_codec (tenant_admin hyphenated_codec) Ssh
      (in_org (Object_new Workspace) 1)) = False
   \<and> is_ok (authorize hyphenated_codec (tenant_admin hyphenated_codec) Delete
      (in_org (Object_new Workspace) 1))"
proof -
  let ?a = "tenant_admin hyphenated_codec" and ?o = "in_org (Object_new Workspace) 1"
  have "a_site_roles ?a = []" "a_org_roles ?a = [org_role_name hyphenated_codec ROLE_ORGANIZATION_ADMIN 1]"
    "a_scope ?a = None" "a_scope_override ?a = None" "o_org_id ?o = Some 1"
    by (simp_all add: tenant_admin_def object_defs)
  note r = org_admin_reach [OF hy.uuid_text_axioms this]
  have "\<not> acl_entry hyphenated_codec ?a x ?o" for x
    by (simp add: acl_entry_def tenant_admin_def object_defs)
  with r [of Ssh] r [of Delete] show ?thesis by (simp add: object_defs)
qed

text \<open>
  Members control their own workspaces: a member of an organization who owns a workspace in it
  may perform every action on it, as long as no other role denies it.
\<close>

theorem member_controls_own_workspace:
  assumes "uuid_text U"
    and "org_role_name U ROLE_ORGANIZATION_MEMBER org \<in> set (a_org_roles actor)"
    and "a_scope actor = None" and "a_scope_override actor = None"
    and "o_resource_type obj = Workspace" and "o_org_id obj = Some org"
    and "o_owner_id obj = Some (a_user_id actor)"
    and "\<forall>role. holds_role U actor role \<longrightarrow> \<not> role_denies U role actor action obj"
  shows "is_ok (authorize U actor action obj)"
proof -
  have "holds_role U actor (role_org_member U org)"
    using assms(2) uuid_text.expand_org_role_name [OF assms(1) org_names_no_colon(2)]
    unfolding holds_role_def by force
  moreover obtain ops where r: "org_in_reach U (role_org_member U org) obj ops"
    and m: "op_member ops =
      all_perms_except [WorkspaceDormant, PrebuiltWorkspace, User, OrganizationMember]
      @ permissions_from_map
          [(WorkspaceDormant,
             [Read, Delete, Create, Update, Stop, CreateAgent, DeleteAgent, UpdateAgent]),
           (OrganizationMember, [Read]), (ProvisionerDaemon, [Read, Create, Update])]"
    using assms(6) by (simp add: org_in_reach_simps role_org_member_def hm_defs Let_def)
  have "owns actor obj" using assms(7) by (simp add: owns_def)
  moreover have "grants (op_member ops) Workspace action"
    by (simp add: m grants_all_perms_except)
  ultimately show ?thesis
    using assms(3,4,5,8) r by (auto simp: unscoped_authorize role_grants_iff)
qed

theorem member_controls_own_workspace_witness:
  "is_ok (authorize hyphenated_codec
     ((tenant_admin hyphenated_codec)
        \<lparr>a_org_roles := [org_role_name hyphenated_codec ROLE_ORGANIZATION_MEMBER 1]\<rparr>)
     Ssh (with_owner (in_org (Object_new Workspace) 1) 5))"
proof -
  let ?a = "(tenant_admin hyphenated_codec)
    \<lparr>a_org_roles := [org_role_name hyphenated_codec ROLE_ORGANIZATION_MEMBER 1]\<rparr>"
  let ?o = "with_owner (in_org (Object_new Workspace) 1) 5"
  have h: "holds_role hyphenated_codec ?a r \<longleftrightarrow> r = role_org_member hyphenated_codec 1" for r
    by (rule single_org_role_decides
        [OF hy.uuid_text_axioms, where rn = ROLE_ORGANIZATION_MEMBER and org = 1])
      (simp_all add: tenant_admin_def org_names_no_colon)
  have "\<not> role_denies hyphenated_codec (role_org_member hyphenated_codec 1) ?a Ssh ?o"
    by (auto simp: role_denies_iff role_org_member_def org_in_reach_simps hm_defs Let_def decide_simps)
  with h show ?thesis
    by (intro member_controls_own_workspace [OF hy.uuid_text_axioms, of 1])
      (auto simp: tenant_admin_def object_defs)
qed

section \<open>System actors\<close>

lemma system_names_distinct:
  "distinct [ROLE_JOB_REAPER, ROLE_CONNECTION_LOGGER, ROLE_AUTOSTART, ROLE_RESOURCE_MONITOR,
     ROLE_NOTIFIER, ROLE_PROVISIONERD, ROLE_KEY_ROTATOR, ROLE_SYSTEM_RESTRICTED, ROLE_USER_ADMIN,
     ROLE_TEMPLATE_ADMIN, ROLE_AUDITOR, ROLE_MEMBER, ROLE_OWNER]"
  by code_simp

lemmas system_name_neqs = system_names_distinct [simplified]

lemma expand_system_roles:
  "expand_role U ROLE_SYSTEM_RESTRICTED =
     Some (make_role ROLE_SYSTEM_RESTRICTED ''Coder'' system_restricted_permissions)"
  "expand_role U ROLE_KEY_ROTATOR =
     Some (make_role ROLE_KEY_ROTATOR ''Crypto Key Rotator'' key_rotator_permissions)"
  "expand_role U ROLE_PROVISIONERD =
     Some (make_role ROLE_PROVISIONERD ''Provisioner Daemon'' provisionerd_permissions)"
  "expand_role U ROLE_NOTIFIER = Some (make_role ROLE_NOTIFIER ''Notifier'' notifier_permissions)"
  "expand_role U ROLE_RESOURCE_MONITOR =
     Some (make_role ROLE_RESOURCE_MONITOR ''Resource Monitor'' resource_monitor_permissions)"
  "expand_role U ROLE_AUTOSTART =
     Some (make_role ROLE_AUTOSTART ''Autostart Daemon'' autostart_permissions)"
  "expand_role U ROLE_CONNECTION_LOGGER =
     Some (make_role ROLE_CONNECTION_LOGGER ''Connection Logger'' connection_logger_permissions)"
  "expand_role U ROLE_JOB_REAPER =
     Some (make_role ROLE_JOB_REAPER ''Job Reaper Daemon'' job_reaper_permissions)"
  by (simp_all add: expand_site_role_name site_names_no_colon expand_site_role_def system_role_defs
      system_name_neqs)

text \<open>An actor whose one role has the permissions of its scope override is bound by them.\<close>

lemma system_actor_decides:
  assumes "expand_role U rn = Some (make_role rn d ps)" and "\<And>rt a. \<not> denies ps rt a"
  shows "is_ok (authorize U (system_actor u rn d ps) action obj) \<longleftrightarrow>
    grants ps (o_resource_type obj) action"
proof -
  have "holds_role U (system_actor u rn d ps) r \<longleftrightarrow> r = make_role rn d ps" for r
    using assms(1) by (auto simp: holds_role_def)
  then show ?thesis
    by (auto simp: authorize_Ok_iff effective_scope_def allows_object_wildcard site_role_grants
        site_role_denies assms(2))
qed

text \<open>
  A system actor is authorised for exactly its own permission list: neither role expansion nor
  the scope override widens or narrows it, and ACL entries do not matter.
\<close>

theorem system_actor_exact:
  assumes "(actor, ps) \<in> set system_subjects"
  shows "is_ok (authorize U actor action obj) \<longleftrightarrow> grants ps (o_resource_type obj) action"
  using assms unfolding system_subjects_def
  by (simp only: list.set insert_iff empty_iff prod.inject)
    (elim disjE conjE FalseE; simp only: system_actor_defs, rule system_actor_decides,
      (rule expand_system_roles system_permissions_positive)+)

theorem system_actor_exact_witness:
  "is_ok (authorize hyphenated_codec key_rotator Delete (Object_new CryptoKey))
   \<and> \<not> is_ok (authorize hyphenated_codec key_rotator Read (Object_new User))"
proof -
  have "(key_rotator, key_rotator_permissions) \<in> set system_subjects"
    by (simp add: system_subjects_def)
  then show ?thesis
    by (simp add: system_actor_exact key_rotator_permissions_def object_defs)
qed

section \<open>Unknown scope names\<close>

text \<open>
  A scope name outside the table of the authorizer does not restrict the key at all: the
  decision is the one the actor gets without a scope.
\<close>

theorem unknown_scope_unrestricted:
  assumes "a_scope_override actor = None" and "a_scope actor = Some name"
    and "name \<notin> {''application_connect'', ''no_user_data''} \<union> fst ` set low_level_table"
  shows "is_ok (authorize U actor action obj) \<longleftrightarrow>
    is_ok (authorize U (actor\<lparr>a_scope := None\<rparr>) action obj)"
proof -
  have "named_scope (Some name) = scope_all"
    using assms(3) unfolding named_scope_def low_level_table_def
    by (simp only: option.case list.set image_insert image_empty fst_conv Un_iff insert_iff empty_iff
        de_Morgan_disj simp_thms if_False)
  with assms(1,2) have sc: "effective_scope actor = scope_all"
    "effective_scope (actor\<lparr>a_scope := None\<rparr>) = scope_all"
    by (simp_all add: effective_scope_def named_scope_None)
  show ?thesis
    unfolding unscoped_authorize [OF sc(1)] unscoped_authorize [OF sc(2)]
    by (simp add: role_grants_iff role_denies_iff holds_role_def acl_entry_def owns_def)
qed

theorem unknown_scope_unrestricted_witness:
  "is_ok (authorize hyphenated_codec ((owner hyphenated_codec)\<lparr>a_scope := Some ''workspace:ssh''\<rparr>)
     Delete (Object_new User))"
proof -
  have "''workspace:ssh'' \<notin> {''application_connect'', ''no_user_data''} \<union> fst ` set low_level_table"
    by code_simp
  then show ?thesis
    using unknown_scope_unrestricted [of "(owner hyphenated_codec)\<lparr>a_scope := Some ''workspace:ssh''\<rparr>"
        "''workspace:ssh''" hyphenated_codec Delete "Object_new User"]
      owner_deletes_users [of hyphenated_codec]
    by (simp add: owner_def owner_of_def)
qed

end
