(* ===== verification/Rego_Sql.thy ===== *)
theory Rego_Sql
  imports Rbac_Properties
begin

text \<open>
  The push-down of authorization into SQL (\<open>crates/coder-rbac/src/regosql.rs\<close> and the filter type
  of \<open>crates/coder-core/src/ports.rs\<close>): building the \<open>WHERE\<close> fragment with its placeholder tokens
  and rebinding the tokens to the bind slots of a query.
\<close>

section \<open>Filters\<close>

record SqlFilter =
  f_clause :: string
  f_uuid_params :: "uuid list"
  f_uuid_array_params :: "uuid list list"

definition is_allow_all :: "SqlFilter \<Rightarrow> bool" where
  "is_allow_all f \<longleftrightarrow> f_clause f = ''TRUE''"

definition is_deny_all :: "SqlFilter \<Rightarrow> bool" where
  "is_deny_all f \<longleftrightarrow> f_clause f = ''FALSE''"

definition sql_allow_all :: SqlFilter where
  "sql_allow_all = \<lparr>f_clause = ''TRUE'', f_uuid_params = [], f_uuid_array_params = []\<rparr>"

definition sql_deny_all :: SqlFilter where
  "sql_deny_all = \<lparr>f_clause = ''FALSE'', f_uuid_params = [], f_uuid_array_params = []\<rparr>"

text \<open>\<open>str::replace\<close>: every non-overlapping occurrence, from the left; an empty pattern matches
  around every character.\<close>

function str_replace :: "string \<Rightarrow> string \<Rightarrow> string \<Rightarrow> string" where
  "str_replace pat to s =
     (if pat = [] then to @ concat (map (\<lambda>c. c # to) s)
      else case s of
          [] \<Rightarrow> []
        | c # cs \<Rightarrow>
            if take (length pat) s = pat then to @ str_replace pat to (drop (length pat) s)
            else c # str_replace pat to cs)"
  by pat_completeness auto
termination
  by (relation "measure (\<lambda>(pat, to, s). length s)") auto

declare str_replace.simps [simp del]

text \<open>The placeholder tokens \<open>{uuid$N}\<close> and \<open>{uuid_array$N}\<close>, and the bind slot \<open>$k\<close>.\<close>

definition uuid_token :: "nat \<Rightarrow> string" where
  "uuid_token n = ''{uuid$'' @ nat_str n @ ''}''"

definition uuid_array_token :: "nat \<Rightarrow> string" where
  "uuid_array_token n = ''{uuid_array$'' @ nat_str n @ ''}''"

definition bind_slot :: "nat \<Rightarrow> string" where
  "bind_slot k = CHR ''$'' # nat_str k"

definition rebind :: "SqlFilter \<Rightarrow> nat \<Rightarrow> string \<times> nat" where
  "rebind flt start_index =
     (let clause1 = fold (\<lambda>i clause. str_replace (uuid_token (i + 1)) (bind_slot (start_index + i)) clause)
            [0..<length (f_uuid_params flt)] (f_clause flt);
          uuid_offset = length (f_uuid_params flt);
          clause2 = fold (\<lambda>i clause. str_replace (uuid_array_token (i + 1))
              (bind_slot (start_index + uuid_offset + i)) clause)
            [0..<length (f_uuid_array_params flt)] clause1
      in (clause2, uuid_offset + length (f_uuid_array_params flt)))"

section \<open>The builder\<close>

record SqlFilterBuilder =
  sb_actor :: Actor
  sb_resource_type :: ResourceType
  sb_action :: Action
  sb_org_column :: string
  sb_owner_column :: "string option"
  sb_id_column :: string

definition SqlFilterBuilder_new :: "Actor \<Rightarrow> ResourceType \<Rightarrow> Action \<Rightarrow> SqlFilterBuilder" where
  "SqlFilterBuilder_new actor rt action =
     \<lparr>sb_actor = actor, sb_resource_type = rt, sb_action = action,
      sb_org_column = ''organization_id'', sb_owner_column = None, sb_id_column = ''id''\<rparr>"

definition with_org_column :: "SqlFilterBuilder \<Rightarrow> string \<Rightarrow> SqlFilterBuilder" where
  "with_org_column b col = b\<lparr>sb_org_column := col\<rparr>"

definition with_owner_column :: "SqlFilterBuilder \<Rightarrow> string \<Rightarrow> SqlFilterBuilder" where
  "with_owner_column b col = b\<lparr>sb_owner_column := Some col\<rparr>"

definition with_id_column :: "SqlFilterBuilder \<Rightarrow> string \<Rightarrow> SqlFilterBuilder" where
  "with_id_column b col = b\<lparr>sb_id_column := col\<rparr>"

text \<open>The organizations the actor administers, in the order of its role list.\<close>

fun collect_admin_orgs :: "uuid_codec \<Rightarrow> string list \<Rightarrow> uuid list" where
  "collect_admin_orgs U [] = []"
| "collect_admin_orgs U (entry # es) =
     (case split_once CHR '':'' entry of
        Some (role, org_id_str) \<Rightarrow>
          (if role = ROLE_ORGANIZATION_ADMIN then
             (case parse_str U org_id_str of
                Some org \<Rightarrow> org # collect_admin_orgs U es
              | None \<Rightarrow> collect_admin_orgs U es)
           else collect_admin_orgs U es)
      | None \<Rightarrow> collect_admin_orgs U es)"

text \<open>The loop over the allow list of a scope override: the first id pinned for the type.\<close>

fun pinned_id :: "uuid_codec \<Rightarrow> ResourceType \<Rightarrow> (string \<times> string) list \<Rightarrow> uuid option" where
  "pinned_id U rt [] = None"
| "pinned_id U rt ((rt_str, id_str) # es) =
     (if rt_str = as_str rt then
        (case parse_str U id_str of Some u \<Rightarrow> Some u | None \<Rightarrow> pinned_id U rt es)
      else pinned_id U rt es)"

definition any_clause :: "string \<Rightarrow> nat \<Rightarrow> string" where
  "any_clause col n = col @ '' = ANY('' @ uuid_array_token n @ '')''"

text \<open>\<open>join(" OR ")\<close>.\<close>

fun join_or :: "string list \<Rightarrow> string" where
  "join_or [] = []"
| "join_or [x] = x"
| "join_or (x # y # ys) = x @ '' OR '' @ join_or (y # ys)"

definition member_self_allowed :: "SqlFilterBuilder \<Rightarrow> bool" where
  "member_self_allowed b =
     (sb_resource_type b = Workspace \<and> sb_action b \<in> {Read, Start, Stop, Update})"

definition auditor_site_allowed :: "SqlFilterBuilder \<Rightarrow> bool" where
  "auditor_site_allowed b =
     ((sb_resource_type b = AuditLog \<and> sb_action b = Read
       \<or> sb_resource_type b = Template \<and> sb_action b = Read)
      \<and> (has_site_role (sb_actor b) ROLE_AUDITOR \<or> has_site_role (sb_actor b) ROLE_TEMPLATE_ADMIN))"

text \<open>Steps 3 and 4 of \<open>build\<close>: collect the alternatives with their parameters and join them.\<close>

definition build_alternatives :: "uuid_codec \<Rightarrow> SqlFilterBuilder \<Rightarrow> SqlFilter" where
  "build_alternatives U b =
     (let actor = sb_actor b;
          admin_orgs = collect_admin_orgs U (a_org_roles actor);
          is_admin_anywhere = (admin_orgs \<noteq> []);
          (ors1, arrays1) =
            (if is_admin_anywhere then ([any_clause (sb_org_column b) 1], [admin_orgs]) else ([], []));
          (ors2, uuids) =
            (if member_self_allowed b then
               (case sb_owner_column b of
                  Some owner_col \<Rightarrow> (ors1 @ [owner_col @ '' = '' @ uuid_token 1], [a_user_id actor])
                | None \<Rightarrow> (ors1, []))
             else (ors1, []));
          (ors3, arrays3) =
            (if sb_resource_type b = Template \<and> sb_action b = Read
                \<and> a_organization_ids actor \<noteq> [] \<and> \<not> is_admin_anywhere then
               (ors2 @ [any_clause (sb_org_column b) (length arrays1 + 1)],
                arrays1 @ [a_organization_ids actor])
             else (ors2, arrays1))
      in if ors3 = [] then sql_deny_all
         else \<lparr>f_clause = (if length ors3 = 1 then hd ors3 else ''('' @ join_or ors3 @ '')''),
               f_uuid_params = uuids, f_uuid_array_params = arrays3\<rparr>)"

definition build :: "uuid_codec \<Rightarrow> SqlFilterBuilder \<Rightarrow> SqlFilter" where
  "build U b =
     (let actor = sb_actor b;
          rest = (if auditor_site_allowed b then sql_allow_all else build_alternatives U b)
      in if has_site_role actor ROLE_OWNER then sql_allow_all
         else case a_scope_override actor of
             Some scope \<Rightarrow>
               (case pinned_id U (sb_resource_type b) (s_allow_list scope) of
                  Some u \<Rightarrow>
                    \<lparr>f_clause = sb_id_column b @ '' = '' @ uuid_token 1, f_uuid_params = [u],
                     f_uuid_array_params = []\<rparr>
                | None \<Rightarrow>
                    if list_ex (\<lambda>(rt, i). rt = WILDCARD \<and> i = WILDCARD) (s_allow_list scope) then rest
                    else sql_deny_all)
           | None \<Rightarrow> rest)"

section \<open>Rebinding\<close>

lemma str_replace_Nil: "pat \<noteq> [] \<Longrightarrow> str_replace pat to [] = []"
  by (simp add: str_replace.simps)

lemma str_replace_hit: "pat \<noteq> [] \<Longrightarrow> str_replace pat to (pat @ s) = to @ str_replace pat to s"
  by (subst str_replace.simps) (cases pat; simp)

lemma str_replace_miss:
  "c \<noteq> d \<Longrightarrow> str_replace (c # p) to (d # s) = d # str_replace (c # p) to s"
  by (simp add: str_replace.simps [of "c # p" to "d # s"])

lemma str_replace_skip:
  "c \<notin> set pre \<Longrightarrow> str_replace (c # p) to (pre @ s) = pre @ str_replace (c # p) to s"
  by (induction pre) (auto simp: str_replace_miss)

lemma str_replace_absent: "c \<notin> set s \<Longrightarrow> str_replace (c # p) to s = s"
  using str_replace_skip [of c s p to "[]"] by (simp add: str_replace_Nil)

text \<open>A token at its only opening brace is replaced by the slot.\<close>

lemma str_replace_token:
  "c \<notin> set pre \<Longrightarrow> c \<notin> set post \<Longrightarrow>
     str_replace (c # p) to (pre @ (c # p) @ post) = pre @ to @ post"
  by (simp add: str_replace_skip str_replace_hit [of "c # p", simplified] str_replace_absent)

lemma nat_str_1: "nat_str 1 = ''1''" "nat_str (Suc 0) = ''1''"
  by code_simp+

lemma token_1:
  "uuid_token (Suc 0) = ''{uuid$1}''" "uuid_array_token (Suc 0) = ''{uuid_array$1}''"
  by (simp_all add: uuid_token_def uuid_array_token_def nat_str_1)

lemma bind_slot_no_brace: "CHR ''{'' \<notin> set (bind_slot k)"
  using nat_str_digits [of "CHR ''{''" k] by (auto simp: bind_slot_def)

text \<open>The single-UUID token does not match inside an array token.\<close>

lemma skip_array_token:
  "str_replace ''{uuid$1}'' to (''{uuid_array$1}'' @ s) = ''{uuid_array$1}'' @ str_replace ''{uuid$1}'' to s"
proof -
  have "str_replace ''{uuid$1}'' to (''{uuid_array$1}'' @ s) =
      CHR ''{'' # str_replace ''{uuid$1}'' to (''uuid_array$1}'' @ s)"
    by (simp add: str_replace.simps [of "''{uuid$1}''" to "''{uuid_array$1}'' @ s", simplified])
  also have "\<dots> = ''{uuid_array$1}'' @ str_replace ''{uuid$1}'' to s"
    using str_replace_skip [of "CHR ''{''" "''uuid_array$1}''" "''uuid$1}''" to s] by simp
  finally show ?thesis .
qed

text \<open>The shapes of a built filter.\<close>

definition filter_shape :: "SqlFilterBuilder \<Rightarrow> SqlFilter \<Rightarrow> bool" where
  "filter_shape b f \<longleftrightarrow>
     f = sql_allow_all \<or> f = sql_deny_all
     \<or> (\<exists>u. f = \<lparr>f_clause = sb_id_column b @ '' = '' @ uuid_token 1, f_uuid_params = [u],
                f_uuid_array_params = []\<rparr>)
     \<or> (\<exists>col u. sb_owner_column b = Some col \<and>
          f = \<lparr>f_clause = col @ '' = '' @ uuid_token 1, f_uuid_params = [u],
               f_uuid_array_params = []\<rparr>)
     \<or> (\<exists>us. f = \<lparr>f_clause = any_clause (sb_org_column b) 1, f_uuid_params = [],
                 f_uuid_array_params = [us]\<rparr>)
     \<or> (\<exists>col u us. sb_owner_column b = Some col \<and>
          f = \<lparr>f_clause = ''('' @ any_clause (sb_org_column b) 1 @ '' OR '' @ col @ '' = ''
                 @ uuid_token 1 @ '')'',
               f_uuid_params = [u], f_uuid_array_params = [us]\<rparr>)"

lemma build_shape: "filter_shape b (build U b)"
proof -
  have "filter_shape b (build_alternatives U b)"
    unfolding filter_shape_def
    by (simp add: build_alternatives_def member_self_allowed_def Let_def sql_deny_all_def
        split: option.split)
  then show ?thesis
    by (auto simp: build_def Let_def filter_shape_def split: option.split)
qed

lemma rebind_sentinels:
  "rebind sql_allow_all k = (''TRUE'', 0)" "rebind sql_deny_all k = (''FALSE'', 0)"
  by (simp_all add: rebind_def sql_allow_all_def sql_deny_all_def Let_def)

lemma rebind_uuid:
  assumes "CHR ''{'' \<notin> set col"
  shows "rebind \<lparr>f_clause = col @ '' = '' @ uuid_token 1, f_uuid_params = [u],
      f_uuid_array_params = []\<rparr> k = (col @ '' = '' @ bind_slot k, 1)"
  using assms str_replace_token [of "CHR ''{''" "col @ '' = ''" "[]" "''uuid$1}''" "bind_slot k"]
  by (simp add: rebind_def token_1 Let_def)

lemma replace_array_token:
  assumes "CHR ''{'' \<notin> set pre" and "CHR ''{'' \<notin> set post"
  shows "str_replace ''{uuid_array$1}'' to (pre @ ''{uuid_array$1}'' @ post) = pre @ to @ post"
  using str_replace_token [OF assms, of "''uuid_array$1}''" to] by simp

lemma rebind_array:
  assumes "CHR ''{'' \<notin> set col"
  shows "rebind \<lparr>f_clause = any_clause col 1, f_uuid_params = [], f_uuid_array_params = [us]\<rparr> k =
    (col @ '' = ANY('' @ bind_slot k @ '')'', 1)"
  using assms replace_array_token [of "col @ '' = ANY(''" "'')''" "bind_slot k"]
  by (simp add: rebind_def token_1 any_clause_def Let_def)

lemma rebind_both:
  assumes "CHR ''{'' \<notin> set col" and "CHR ''{'' \<notin> set own"
  shows "rebind \<lparr>f_clause = ''('' @ any_clause col 1 @ '' OR '' @ own @ '' = '' @ uuid_token 1 @ '')'',
      f_uuid_params = [u], f_uuid_array_params = [us]\<rparr> k =
    (''('' @ col @ '' = ANY('' @ bind_slot (k + 1) @ '') OR '' @ own @ '' = '' @ bind_slot k @ '')'', 2)"
proof -
  let ?pre = "''('' @ col @ '' = ANY(''" and ?mid = "'') OR '' @ own @ '' = ''"
  have "str_replace ''{uuid$1}'' (bind_slot k) (?pre @ ''{uuid_array$1}'' @ ?mid @ ''{uuid$1}'' @ '')'')
      = ?pre @ str_replace ''{uuid$1}'' (bind_slot k) (''{uuid_array$1}'' @ ?mid @ ''{uuid$1}'' @ '')'')"
    using assms by (intro str_replace_skip) simp
  also have "\<dots> = ?pre @ ''{uuid_array$1}'' @ ?mid @ bind_slot k @ '')''"
    unfolding skip_array_token
    using assms str_replace_token [of "CHR ''{''" ?mid "'')''" "''uuid$1}''" "bind_slot k"] by simp
  finally have first: "str_replace ''{uuid$1}'' (bind_slot k)
      (?pre @ ''{uuid_array$1}'' @ ?mid @ ''{uuid$1}'' @ '')'') = \<dots>" .
  have "str_replace ''{uuid_array$1}'' (bind_slot (k + 1))
      (?pre @ ''{uuid_array$1}'' @ ?mid @ bind_slot k @ '')'') = ?pre @ bind_slot (k + 1) @ ?mid @ bind_slot k @ '')''"
    using assms bind_slot_no_brace [of k] by (intro replace_array_token) simp_all
  with first show ?thesis by (simp add: rebind_def token_1 any_clause_def Let_def)
qed

text \<open>
  Rebinding a built filter at slot \<open>k\<close> leaves no placeholder behind and numbers the slots in
  bind order, the single UUID before the array: each clause below goes with the parameters that the
  caller binds, and the second component is their number.
\<close>

theorem rebind_build:
  assumes "CHR ''{'' \<notin> set (sb_id_column b)" and "CHR ''{'' \<notin> set (sb_org_column b)"
    and "\<forall>col. sb_owner_column b = Some col \<longrightarrow> CHR ''{'' \<notin> set col"
  shows "(case rebind (build U b) k of (clause, n) \<Rightarrow>
    (case (f_uuid_params (build U b), f_uuid_array_params (build U b)) of
       ([], []) \<Rightarrow> n = 0 \<and> clause \<in> {''TRUE'', ''FALSE''}
     | ([u], []) \<Rightarrow> n = 1 \<and> (clause = sb_id_column b @ '' = '' @ bind_slot k
         \<or> (\<exists>col. sb_owner_column b = Some col \<and> clause = col @ '' = '' @ bind_slot k))
     | ([], [us]) \<Rightarrow> n = 1 \<and> clause = sb_org_column b @ '' = ANY('' @ bind_slot k @ '')''
     | ([u], [us]) \<Rightarrow> n = 2 \<and> (\<exists>col. sb_owner_column b = Some col \<and>
         clause = ''('' @ sb_org_column b @ '' = ANY('' @ bind_slot (k + 1) @ '') OR '' @ col
           @ '' = '' @ bind_slot k @ '')'')
     | _ \<Rightarrow> False))"
  using build_shape [of b U] assms unfolding filter_shape_def
  by (elim disjE exE conjE)
    (simp_all add: rebind_sentinels rebind_uuid [simplified] rebind_array [simplified]
      rebind_both [simplified], simp_all add: sql_allow_all_def sql_deny_all_def)

text \<open>The filter of an organization administrator who lists workspaces.\<close>

definition admin_listing :: SqlFilterBuilder where
  "admin_listing = with_owner_column
     (SqlFilterBuilder_new (tenant_admin hyphenated_codec) Workspace Read) ''owner_id''"

lemma tenant_admin_orgs:
  "collect_admin_orgs hyphenated_codec (a_org_roles (tenant_admin hyphenated_codec)) = [1]"
  by (simp add: tenant_admin_def org_role_name_def split_once_append org_names_no_colon)

lemma admin_listing_filter:
  "build hyphenated_codec admin_listing =
     \<lparr>f_clause = ''('' @ any_clause ''organization_id'' 1 @ '' OR '' @ ''owner_id'' @ '' = ''
        @ uuid_token 1 @ '')'', f_uuid_params = [5], f_uuid_array_params = [[1]]\<rparr>"
proof -
  have "a_site_roles (tenant_admin hyphenated_codec) = []"
    "a_scope_override (tenant_admin hyphenated_codec) = None"
    "a_user_id (tenant_admin hyphenated_codec) = 5"
    by (simp_all add: tenant_admin_def)
  then show ?thesis
    by (simp add: build_def build_alternatives_def admin_listing_def with_owner_column_def
        SqlFilterBuilder_new_def has_site_role_def auditor_site_allowed_def
        member_self_allowed_def tenant_admin_orgs Let_def)
qed

theorem rebind_build_witness:
  "rebind (build hyphenated_codec admin_listing) 5 =
     (''(organization_id = ANY($6) OR owner_id = $5)'', 2)"
proof -
  have cols: "sb_id_column admin_listing = ''id''" "sb_org_column admin_listing = ''organization_id''"
    "sb_owner_column admin_listing = Some ''owner_id''"
    by (simp_all add: admin_listing_def with_owner_column_def SqlFilterBuilder_new_def)
  have slots: "bind_slot 5 = ''$5''" "bind_slot 6 = ''$6''"
    by code_simp+
  show ?thesis
    using rebind_build [where b = admin_listing and U = hyphenated_codec and k = 5]
    by (simp add: cols admin_listing_filter slots split: prod.splits)
qed

section \<open>Which rows a filter admits\<close>

text \<open>
  For an agent actor the filter on workspaces is pinned to the agent's own workspace, and the
  same for templates and users; other resource types are denied.
\<close>

theorem agent_filter_pinned:
  assumes "uuid_text U" and "\<not> has_site_role (sb_actor b) ROLE_OWNER"
    and "a_scope_override (sb_actor b) = Some (scope_workspace_agent U w t ow blocked)"
  shows "build U b =
    (case sb_resource_type b of
       Workspace \<Rightarrow> \<lparr>f_clause = sb_id_column b @ '' = {uuid$1}'', f_uuid_params = [w],
                     f_uuid_array_params = []\<rparr>
     | Template \<Rightarrow> \<lparr>f_clause = sb_id_column b @ '' = {uuid$1}'', f_uuid_params = [t],
                    f_uuid_array_params = []\<rparr>
     | User \<Rightarrow> \<lparr>f_clause = sb_id_column b @ '' = {uuid$1}'', f_uuid_params = [ow],
                f_uuid_array_params = []\<rparr>
     | _ \<Rightarrow> sql_deny_all)"
proof -
  note star = uuid_text.to_string_not_star [OF assms(1)]
  have pin: "pinned_id U rt [(as_str Workspace, to_string U w), (as_str Template, to_string U t),
      (as_str User, to_string U ow)] =
      (if rt = Workspace then Some w else if rt = Template then Some t
       else if rt = User then Some ow else None)" for rt
    by (auto simp: uuid_text.parse_to_string [OF assms(1)] simp del: as_str.simps)
  have "\<not> list_ex (\<lambda>(rt, i). rt = WILDCARD \<and> i = WILDCARD)
      [(as_str Workspace, to_string U w), (as_str Template, to_string U t), (as_str User, to_string U ow)]"
    by (simp add: WILDCARD_def star)
  with assms(2,3) show ?thesis
    unfolding build_def Let_def
    by (cases "sb_resource_type b")
      (simp_all only: option.case if_False if_True scope_workspace_agent_allow_list pin
        ResourceType.distinct ResourceType.case simp_thms, simp_all add: token_1)
qed

theorem agent_filter_pinned_witness:
  "build hyphenated_codec (SqlFilterBuilder_new
     ((tenant_admin hyphenated_codec)
        \<lparr>a_scope_override := Some (scope_workspace_agent hyphenated_codec 7 8 9 False)\<rparr>) Workspace Read)
   = \<lparr>f_clause = ''id = {uuid$1}'', f_uuid_params = [7], f_uuid_array_params = []\<rparr>"
proof -
  let ?b = "SqlFilterBuilder_new ((tenant_admin hyphenated_codec)
    \<lparr>a_scope_override := Some (scope_workspace_agent hyphenated_codec 7 8 9 False)\<rparr>) Workspace Read"
  have "\<not> has_site_role (sb_actor ?b) ROLE_OWNER"
    "a_scope_override (sb_actor ?b) = Some (scope_workspace_agent hyphenated_codec 7 8 9 False)"
    by (simp_all add: SqlFilterBuilder_new_def has_site_role_def tenant_admin_def)
  from agent_filter_pinned [OF hy.uuid_text_axioms this] show ?thesis
    by (simp add: SqlFilterBuilder_new_def)
qed

text \<open>
  The push-down is conservative outside the resource types it covers: for an actor that is no
  site owner, has no scope override and administers no organization, anything but workspaces,
  templates and the audit log is filtered out completely.
\<close>

theorem filter_denies_uncovered:
  assumes "\<not> has_site_role (sb_actor b) ROLE_OWNER" and "a_scope_override (sb_actor b) = None"
    and "collect_admin_orgs U (a_org_roles (sb_actor b)) = []"
    and "sb_resource_type b \<notin> {Workspace, Template, AuditLog}"
  shows "is_deny_all (build U b)"
  using assms
  by (simp add: build_def build_alternatives_def auditor_site_allowed_def member_self_allowed_def
      is_deny_all_def sql_deny_all_def)

theorem filter_denies_uncovered_witness:
  "is_deny_all (build hyphenated_codec
     (SqlFilterBuilder_new (key_rotator\<lparr>a_scope_override := None\<rparr>) CryptoKey Read))"
proof -
  let ?b = "SqlFilterBuilder_new (key_rotator\<lparr>a_scope_override := None\<rparr>) CryptoKey Read"
  have "\<not> has_site_role (sb_actor ?b) ROLE_OWNER"
    by (simp add: SqlFilterBuilder_new_def has_site_role_def key_rotator_def ROLE_KEY_ROTATOR_def
        ROLE_OWNER_def eq_ignore_ascii_case_def)
  then show ?thesis
    by (rule filter_denies_uncovered)
      (simp_all add: SqlFilterBuilder_new_def key_rotator_def)
qed

text \<open>Three actors on which the push-down and the authorizer disagree.\<close>

definition template_admin_actor :: "uuid_codec \<Rightarrow> Actor" where
  "template_admin_actor U = (owner U)\<lparr>a_site_roles := [ROLE_TEMPLATE_ADMIN]\<rparr>"

definition app_key_actor :: "uuid_codec \<Rightarrow> Actor" where
  "app_key_actor U = (owner U)\<lparr>a_scope := Some ''application_connect''\<rparr>"

definition capital_owner_actor :: "uuid_codec \<Rightarrow> Actor" where
  "capital_owner_actor U = (owner U)\<lparr>a_site_roles := [''Owner'']\<rparr>"

lemma no_acl: "\<not> acl_entry U actor action (Object_new rt)"
  by (simp add: acl_entry_def Object_new_def hm_defs)

lemma disagreeing_roles:
  "holds_role U (template_admin_actor U) r \<longleftrightarrow> r = role_template_admin"
  "\<not> holds_role U (capital_owner_actor U) r"
proof -
  have "expand_role U ROLE_TEMPLATE_ADMIN = Some role_template_admin"
    by (simp add: expand_site_role_name site_names_no_colon expand_site_role_def role_name_defs)
  then show "holds_role U (template_admin_actor U) r \<longleftrightarrow> r = role_template_admin"
    by (auto simp: holds_role_def template_admin_actor_def owner_def owner_of_def)
  have "expand_role U ''Owner'' = None"
    by (simp add: expand_site_role_name expand_site_role_def role_name_defs system_role_name_defs)
  then show "\<not> holds_role U (capital_owner_actor U) r"
    by (simp add: holds_role_def capital_owner_actor_def owner_def owner_of_def)
qed

lemma disagreeing_filters:
  "is_allow_all (build U (SqlFilterBuilder_new (template_admin_actor U) AuditLog Read))"
  "is_allow_all (build U (SqlFilterBuilder_new (app_key_actor U) Template Read))"
  "is_allow_all (build U (SqlFilterBuilder_new (capital_owner_actor U) Template Read))"
proof -
  have "eq_ignore_ascii_case ''Owner'' ROLE_OWNER" by code_simp
  then show "is_allow_all (build U (SqlFilterBuilder_new (capital_owner_actor U) Template Read))"
    by (simp add: build_def SqlFilterBuilder_new_def has_site_role_def is_allow_all_def
        sql_allow_all_def capital_owner_actor_def Let_def)
qed (simp_all add: build_def SqlFilterBuilder_new_def has_site_role_def is_allow_all_def
      sql_allow_all_def auditor_site_allowed_def template_admin_actor_def app_key_actor_def
      owner_def owner_of_def Let_def)

text \<open>
  Three actors for whom the push-down filter is the permissive \<open>TRUE\<close> although the authorizer
  refuses the same request: a template administrator reading the audit log, a site owner's API key
  that is restricted to application access, and an actor whose role is spelled \<open>Owner\<close>, which the
  filter compares without case and role expansion with case.
\<close>

theorem filter_wider_than_authorizer:
  "is_allow_all (build U (SqlFilterBuilder_new (template_admin_actor U) AuditLog Read))
   \<and> \<not> is_ok (authorize U (template_admin_actor U) Read (Object_new AuditLog))
   \<and> is_allow_all (build U (SqlFilterBuilder_new (app_key_actor U) Template Read))
   \<and> \<not> is_ok (authorize U (app_key_actor U) Read (Object_new Template))
   \<and> is_allow_all (build U (SqlFilterBuilder_new (capital_owner_actor U) Template Read))
   \<and> \<not> is_ok (authorize U (capital_owner_actor U) Read (Object_new Template))"
proof -
  have "\<not> role_grants U role_template_admin (template_admin_actor U) Read (Object_new AuditLog)"
    by (simp add: site_role_grants role_template_admin_def decide_simps Object_new_def)
  then have "\<not> is_ok (authorize U (template_admin_actor U) Read (Object_new AuditLog))"
    by (simp add: authorize_Ok_iff disagreeing_roles no_acl)
  moreover have "effective_scope (app_key_actor U) = scope_application_connect"
    by (simp add: effective_scope_def app_key_actor_def owner_def owner_of_def named_scope_def)
  then have "\<not> is_ok (authorize U (app_key_actor U) Read (Object_new Template))"
    by (simp add: authorize_Ok_iff site_role_grants scope_application_connect_def Object_new_def)
  moreover have "\<not> is_ok (authorize U (capital_owner_actor U) Read (Object_new Template))"
    by (simp add: authorize_Ok_iff disagreeing_roles no_acl)
  ultimately show ?thesis using disagreeing_filters by blast
qed

end
