(* ===== verification/Circuit_Breaker.thy ===== *)
theory Circuit_Breaker
  imports Prelude
begin

text \<open>
  The circuit breaker of \<open>crates/coder-core/src/circuit_breaker.rs\<close>. Durations and instants are
  natural numbers of nanoseconds, the counters are 32-bit words. Every critical section of the
  mutex is one function of the breaker and of the instant read in it; \<open>call\<close> releases the mutex
  while the operation runs, so the operation is a function that may change the breaker (other tasks
  run meanwhile), and the interleaving of several tasks is the step relation \<open>breaker_step\<close>.
\<close>

section \<open>Data\<close>

record CircuitBreakerConfig =
  failure_threshold :: "32 word"
  reset_timeout :: nat
  half_open_max_probes :: "32 word"

definition default_config :: CircuitBreakerConfig where
  "default_config =
     \<lparr> failure_threshold = 5, reset_timeout = 30 * 1000000000, half_open_max_probes = 3 \<rparr>"

datatype CircuitBreakerState = Closed | Open | HalfOpen

fun state_display :: "CircuitBreakerState \<Rightarrow> string" where
  "state_display Closed = ''closed''"
| "state_display Open = ''open''"
| "state_display HalfOpen = ''half_open''"

record CircuitBreakerStatus =
  cs_name :: string
  cs_state :: CircuitBreakerState
  cs_consecutive_failures :: "32 word"

record CircuitBreakerOpen =
  dependency :: string

definition breaker_open_display :: "CircuitBreakerOpen \<Rightarrow> string" where
  "breaker_open_display e = ''circuit breaker open for dependency: '' @ dependency e"

datatype 'e CircuitBreakerCallError = BreakerOpen CircuitBreakerOpen | InnerError 'e

fun call_error_display :: "('e \<Rightarrow> string) \<Rightarrow> 'e CircuitBreakerCallError \<Rightarrow> string" where
  "call_error_display fmt (BreakerOpen err) = breaker_open_display err"
| "call_error_display fmt (InnerError err) = fmt err"

record Inner =
  i_state :: CircuitBreakerState
  i_consecutive_failures :: "32 word"
  i_half_open_successes :: "32 word"
  i_last_failure_time :: "nat option"

record CircuitBreaker =
  b_name :: string
  b_config :: CircuitBreakerConfig
  b_inner :: Inner

section \<open>Operations\<close>

definition breaker_new :: "string \<Rightarrow> CircuitBreakerConfig \<Rightarrow> CircuitBreaker" where
  "breaker_new name config =
     \<lparr> b_name = name, b_config = config,
       b_inner = \<lparr> i_state = Closed, i_consecutive_failures = 0, i_half_open_successes = 0,
                   i_last_failure_time = None \<rparr> \<rparr>"

text \<open>\<open>Instant::elapsed\<close> is zero for an instant in the future, as natural subtraction is.\<close>

definition maybe_transition_to_half_open :: "nat \<Rightarrow> CircuitBreakerConfig \<Rightarrow> Inner \<Rightarrow> Inner" where
  "maybe_transition_to_half_open now config inner =
     (if i_state inner = Open then
        (case i_last_failure_time inner of
           Some last_failure \<Rightarrow>
             if reset_timeout config \<le> now - last_failure
             then inner \<lparr> i_state := HalfOpen, i_half_open_successes := 0 \<rparr>
             else inner
         | None \<Rightarrow> inner)
      else inner)"

definition close_if_enough :: "CircuitBreakerConfig \<Rightarrow> Inner \<Rightarrow> Inner" where
  "close_if_enough config inner =
     (if half_open_max_probes config \<le> i_half_open_successes inner
      then inner \<lparr> i_state := Closed, i_consecutive_failures := 0, i_half_open_successes := 0,
                   i_last_failure_time := None \<rparr>
      else inner)"

definition record_success :: "CircuitBreakerConfig \<Rightarrow> Inner \<Rightarrow> Inner" where
  "record_success config inner =
     (case i_state inner of
        Closed \<Rightarrow> inner \<lparr> i_consecutive_failures := 0 \<rparr>
      | HalfOpen \<Rightarrow>
          close_if_enough config
            (inner \<lparr> i_half_open_successes := saturating_add (i_half_open_successes inner) 1 \<rparr>)
      | Open \<Rightarrow>
          close_if_enough config (inner \<lparr> i_state := HalfOpen, i_half_open_successes := 1 \<rparr>))"

definition record_failure :: "nat \<Rightarrow> CircuitBreakerConfig \<Rightarrow> Inner \<Rightarrow> Inner" where
  "record_failure now config inner =
     (case i_state inner of
        Closed \<Rightarrow>
          (let inner = inner \<lparr> i_consecutive_failures := saturating_add (i_consecutive_failures inner) 1,
                               i_last_failure_time := Some now \<rparr>
           in if failure_threshold config \<le> i_consecutive_failures inner
              then inner \<lparr> i_state := Open \<rparr> else inner)
      | HalfOpen \<Rightarrow>
          inner \<lparr> i_consecutive_failures := saturating_add (i_consecutive_failures inner) 1,
                  i_last_failure_time := Some now, i_state := Open, i_half_open_successes := 0 \<rparr>
      | Open \<Rightarrow> inner)"

definition refresh :: "nat \<Rightarrow> CircuitBreaker \<Rightarrow> CircuitBreaker" where
  "refresh now b = b \<lparr> b_inner := maybe_transition_to_half_open now (b_config b) (b_inner b) \<rparr>"

definition status :: "nat \<Rightarrow> CircuitBreaker \<Rightarrow> CircuitBreaker \<times> CircuitBreakerStatus" where
  "status now b =
     (let b = refresh now b
      in (b, \<lparr> cs_name = b_name b, cs_state = i_state (b_inner b),
               cs_consecutive_failures = i_consecutive_failures (b_inner b) \<rparr>))"

definition state :: "nat \<Rightarrow> CircuitBreaker \<Rightarrow> CircuitBreaker \<times> CircuitBreakerState" where
  "state now b = (let b = refresh now b in (b, i_state (b_inner b)))"

definition report_success :: "CircuitBreaker \<Rightarrow> CircuitBreaker" where
  "report_success b = b \<lparr> b_inner := record_success (b_config b) (b_inner b) \<rparr>"

definition report_failure :: "nat \<Rightarrow> CircuitBreaker \<Rightarrow> CircuitBreaker" where
  "report_failure now b = b \<lparr> b_inner := record_failure now (b_config b) (b_inner b) \<rparr>"

definition call_preflight ::
  "nat \<Rightarrow> CircuitBreaker \<Rightarrow> CircuitBreaker \<times> (CircuitBreakerOpen, unit) result" where
  "call_preflight now b =
     (let b = refresh now b
      in (b, case i_state (b_inner b) of
               Open \<Rightarrow> Err \<lparr> dependency = b_name b \<rparr>
             | Closed \<Rightarrow> Ok ()
             | HalfOpen \<Rightarrow> Ok ()))"

definition call_postflight :: "nat \<Rightarrow> ('e, 'a) result \<Rightarrow> CircuitBreaker \<Rightarrow> CircuitBreaker" where
  "call_postflight now res b =
     (case res of Inr _ \<Rightarrow> report_success b | Inl _ \<Rightarrow> report_failure now b)"

text \<open>
  The whole of \<open>call\<close>: \<open>operation\<close> maps the breaker as it was when the operation started to the
  breaker as it is when the operation ends and the operation's result.
\<close>

definition call ::
  "nat \<Rightarrow> nat \<Rightarrow> (CircuitBreaker \<Rightarrow> CircuitBreaker \<times> ('e, 'a) result) \<Rightarrow> CircuitBreaker \<Rightarrow>
   CircuitBreaker \<times> ('e CircuitBreakerCallError, 'a) result" where
  "call now0 now1 operation b =
     (case call_preflight now0 b of
        (b, Inl err) \<Rightarrow> (b, Err (BreakerOpen err))
      | (b, Inr _) \<Rightarrow>
          (case operation b of
             (b, res) \<Rightarrow>
               (call_postflight now1 res b,
                case res of Inr x \<Rightarrow> Ok x | Inl e \<Rightarrow> Err (InnerError e))))"

section \<open>Registry\<close>

type_synonym CircuitBreakerRegistry = "CircuitBreaker list"

definition registry_new :: "CircuitBreaker list \<Rightarrow> CircuitBreakerRegistry" where
  "registry_new breakers = breakers"

definition with_defaults :: CircuitBreakerRegistry where
  "with_defaults =
     registry_new
       (map (\<lambda>n. breaker_new n default_config)
          [''oauth_oidc'', ''telemetry'', ''derp_mesh'', ''provisioner_daemons'',
           ''workspace_proxies''])"

definition registry_get :: "CircuitBreakerRegistry \<Rightarrow> string \<Rightarrow> CircuitBreaker option" where
  "registry_get r name = List.find (\<lambda>b. b_name b = name) r"

text \<open>\<open>all_statuses\<close> locks the breakers one after the other; \<open>clock i\<close> is the instant at the i-th.\<close>

fun all_statuses_from ::
  "(nat \<Rightarrow> nat) \<Rightarrow> nat \<Rightarrow> CircuitBreakerRegistry \<Rightarrow> CircuitBreakerRegistry \<times> CircuitBreakerStatus list"
where
  "all_statuses_from clock i [] = ([], [])"
| "all_statuses_from clock i (b # bs) =
     (let (b', s) = status (clock i) b; (bs', ss) = all_statuses_from clock (Suc i) bs
      in (b' # bs', s # ss))"

definition all_statuses ::
  "(nat \<Rightarrow> nat) \<Rightarrow> CircuitBreakerRegistry \<Rightarrow> CircuitBreakerRegistry \<times> CircuitBreakerStatus list" where
  "all_statuses clock r = all_statuses_from clock 0 r"

lemma all_statuses_names: "map cs_name (snd (all_statuses clock r)) = map b_name r"
proof -
  have "map cs_name (snd (all_statuses_from clock i r)) = map b_name r" for i
    by (induction r arbitrary: i) (simp_all add: status_def refresh_def case_prod_unfold Let_def)
  then show ?thesis by (simp add: all_statuses_def)
qed

lemma registry_get_Some: "registry_get r name = Some b \<Longrightarrow> b \<in> set r \<and> b_name b = name"
  by (auto simp: registry_get_def find_Some_iff)

lemma registry_get_defaults:
  assumes "name \<in> set [''oauth_oidc'', ''telemetry'', ''derp_mesh'', ''provisioner_daemons'',
    ''workspace_proxies'']"
  shows "registry_get with_defaults name = Some (breaker_new name default_config)"
  using assms by (auto simp: registry_get_def with_defaults_def registry_new_def breaker_new_def)

section \<open>Interleaved tasks\<close>

text \<open>
  The breaker shared by any number of tasks: the clock, the breaker, and how many calls have passed
  their pre-flight check and not yet done their bookkeeping. One step is one critical section, or
  time passing.
\<close>

record breaker_sys =
  bs_now :: nat
  bs_breaker :: CircuitBreaker
  bs_in_flight :: nat

definition breaker_init :: "string \<Rightarrow> CircuitBreakerConfig \<Rightarrow> breaker_sys \<Rightarrow> bool" where
  "breaker_init name config s \<longleftrightarrow>
     bs_breaker s = breaker_new name config \<and> bs_in_flight s = 0"

inductive breaker_step :: "breaker_sys \<Rightarrow> breaker_sys \<Rightarrow> bool" where
  bs_tick: "breaker_step s (s \<lparr> bs_now := bs_now s + d \<rparr>)"
| bs_status: "breaker_step s (s \<lparr> bs_breaker := fst (status (bs_now s) (bs_breaker s)) \<rparr>)"
| bs_admit: "call_preflight (bs_now s) (bs_breaker s) = (b, Inr u) \<Longrightarrow>
    breaker_step s (s \<lparr> bs_breaker := b, bs_in_flight := bs_in_flight s + 1 \<rparr>)"
| bs_reject: "call_preflight (bs_now s) (bs_breaker s) = (b, Inl e) \<Longrightarrow>
    breaker_step s (s \<lparr> bs_breaker := b \<rparr>)"
| bs_finish: "bs_in_flight s = Suc n \<Longrightarrow>
    breaker_step s (s \<lparr> bs_breaker := call_postflight (bs_now s) (res :: (unit, unit) result) (bs_breaker s),
                         bs_in_flight := n \<rparr>)"
| bs_report_success: "breaker_step s (s \<lparr> bs_breaker := report_success (bs_breaker s) \<rparr>)"
| bs_report_failure:
    "breaker_step s (s \<lparr> bs_breaker := report_failure (bs_now s) (bs_breaker s) \<rparr>)"

inductive_cases breaker_stepE: "breaker_step s t"

section \<open>The invariant\<close>

definition inner_inv :: "CircuitBreakerConfig \<Rightarrow> nat \<Rightarrow> Inner \<Rightarrow> bool" where
  "inner_inv config now i \<longleftrightarrow>
     (case i_state i of
        Closed \<Rightarrow> i_half_open_successes i = 0 \<and>
          (i_consecutive_failures i = 0 \<or> i_consecutive_failures i < failure_threshold config)
      | Open \<Rightarrow> i_half_open_successes i = 0 \<and> failure_threshold config \<le> i_consecutive_failures i \<and>
          0 < i_consecutive_failures i \<and> (\<exists>t\<le>now. i_last_failure_time i = Some t)
      | HalfOpen \<Rightarrow>
          (i_half_open_successes i = 0 \<or> i_half_open_successes i < half_open_max_probes config) \<and>
          failure_threshold config \<le> i_consecutive_failures i \<and>
          0 < i_consecutive_failures i \<and> (\<exists>t\<le>now. i_last_failure_time i = Some t))"

definition breaker_inv :: "string \<Rightarrow> CircuitBreakerConfig \<Rightarrow> breaker_sys \<Rightarrow> bool" where
  "breaker_inv name config s \<longleftrightarrow>
     b_name (bs_breaker s) = name \<and> b_config (bs_breaker s) = config \<and>
     inner_inv config (bs_now s) (b_inner (bs_breaker s))"

lemma saturating_succ_pos: "0 < saturating_add (a :: 32 word) 1"
  by (simp add: word_less_nat_alt rust_std)

lemma saturating_succ_ge: "a \<le> saturating_add (a :: 32 word) 1"
proof -
  have "unat a < 2 ^ 32" by (rule unat_u32)
  then show ?thesis by (simp add: word_le_nat_alt rust_std)
qed

lemma inner_inv_later: "inner_inv config now i \<Longrightarrow> now \<le> now' \<Longrightarrow> inner_inv config now' i"
  by (auto simp: inner_inv_def split: CircuitBreakerState.splits intro: order_trans)

lemma inner_inv_transition:
  "inner_inv config now i \<Longrightarrow> inner_inv config now (maybe_transition_to_half_open now config i)"
  by (auto simp: inner_inv_def maybe_transition_to_half_open_def
      split: CircuitBreakerState.splits option.splits)

lemma inner_inv_success: "inner_inv config now i \<Longrightarrow> inner_inv config now (record_success config i)"
  by (auto simp: inner_inv_def record_success_def close_if_enough_def not_le
      split: CircuitBreakerState.splits)

lemma inner_inv_failure:
  "inner_inv config now i \<Longrightarrow> inner_inv config now (record_failure now config i)"
  using saturating_succ_pos [of "i_consecutive_failures i"]
    saturating_succ_ge [of "i_consecutive_failures i"]
  by (auto simp: inner_inv_def record_failure_def Let_def not_le
      split: CircuitBreakerState.splits intro: order_trans)

lemmas breaker_op_defs = refresh_def status_def state_def report_success_def report_failure_def
  call_preflight_def call_postflight_def

lemma breaker_inv_init: "breaker_init name config s \<Longrightarrow> breaker_inv name config s"
  by (simp add: breaker_init_def breaker_inv_def breaker_new_def inner_inv_def)

lemma breaker_inv_step:
  assumes "breaker_inv name config s" and "breaker_step s t"
  shows "breaker_inv name config t"
  using assms(2,1)
  by cases
    (auto simp: breaker_inv_def breaker_op_defs Let_def inner_inv_transition inner_inv_success
      inner_inv_failure split: sum.splits intro: inner_inv_later)

interpretation breaker: transition_invariant "breaker_init name config" breaker_step
    "breaker_inv name config" for name config
  by unfold_locales (auto intro: breaker_inv_init breaker_inv_step)

section \<open>Runs\<close>

text \<open>A sequence of outcomes reported to the breaker: the instant and whether it was a success.\<close>

fun report :: "nat \<times> bool \<Rightarrow> CircuitBreaker \<Rightarrow> CircuitBreaker" where
  "report (now, ok) b = (if ok then report_success b else report_failure now b)"

definition trailing_failures :: "(nat \<times> bool) list \<Rightarrow> nat" where
  "trailing_failures os = length (takeWhile (\<lambda>x. \<not> snd x) (rev os))"

lemma trailing_failures_Nil [simp]: "trailing_failures [] = 0"
  by (simp add: trailing_failures_def)

lemma trailing_failures_snoc [simp]:
  "trailing_failures (os @ [(now, ok)]) = (if ok then 0 else Suc (trailing_failures os))"
  by (simp add: trailing_failures_def)

lemma report_config [simp]:
  "b_config (report o' b) = b_config b" "b_name (report o' b) = b_name b"
  by (cases o'; simp add: report_success_def report_failure_def)+

lemma closed_run:
  assumes "\<forall>k < length os. trailing_failures (take k os) < max 1 (unat (failure_threshold config))"
  shows "let b = fold report os (breaker_new name config) in
     b_config b = config \<and>
     unat (i_consecutive_failures (b_inner b)) = trailing_failures os \<and>
     i_state (b_inner b) =
       (if trailing_failures os < max 1 (unat (failure_threshold config)) then Closed else Open)"
  using assms
proof (induction os rule: rev_induct)
  case Nil
  show ?case by (simp add: breaker_new_def)
next
  case (snoc x os)
  obtain now ok where x: "x = (now, ok)" by (cases x)
  let ?b = "fold report os (breaker_new name config)"
  let ?n = "trailing_failures os" and ?t = "failure_threshold config"
  have lt: "?n < max 1 (unat ?t)" using snoc.prems [rule_format, of "length os"] by simp
  have "\<forall>k < length os. trailing_failures (take k os) < max 1 (unat ?t)"
    using snoc.prems by (auto simp: less_Suc_eq)
  with snoc.IH lt have b: "b_config ?b = config"
    "unat (i_consecutive_failures (b_inner ?b)) = ?n" "i_state (b_inner ?b) = Closed"
    by (simp_all add: Let_def)
  have "unat ?t < 2 ^ 32" by (rule unat_u32)
  with lt b(2) have succ: "unat (saturating_add (i_consecutive_failures (b_inner ?b)) 1) = Suc ?n"
    by (simp add: rust_std)
  show ?case
    using b succ
    by (auto simp: x Let_def report_success_def report_failure_def record_success_def
        record_failure_def word_le_nat_alt)
qed

text \<open>A sequence of calls that do not overlap: their instants and what the operation returns.\<close>

fun run_calls ::
  "(nat \<times> nat \<times> ('e, 'a) result) list \<Rightarrow> CircuitBreaker \<Rightarrow>
   CircuitBreaker \<times> ('e CircuitBreakerCallError, 'a) result list" where
  "run_calls [] b = (b, [])"
| "run_calls ((now0, now1, res) # cs) b =
     (let (b, r) = call now0 now1 (\<lambda>b. (b, res)) b; (b, rs) = run_calls cs b in (b, r # rs))"

lemma refresh_idem: "refresh now (refresh now b) = refresh now b"
  by (auto simp: refresh_def maybe_transition_to_half_open_def split: option.splits)

lemma call_refresh: "call now later operation (refresh now b) = call now later operation b"
  by (simp add: call_def call_preflight_def refresh_idem)

lemma call_half_open_ok:
  assumes "i_state (b_inner b) = HalfOpen"
  shows "call now0 now1 (\<lambda>b. (b, Inr x)) b = (report_success b, Inr x)"
  using assms
  by (simp add: call_def call_preflight_def refresh_def maybe_transition_to_half_open_def
      call_postflight_def)

text \<open>The closed breaker a recovery ends in.\<close>

definition recovered :: "CircuitBreaker \<Rightarrow> CircuitBreaker" where
  "recovered b = breaker_new (b_name b) (b_config b)"

lemma report_success_half_open:
  assumes "i_state (b_inner b) = HalfOpen"
    and "unat (i_half_open_successes (b_inner b)) < max 1 (unat (half_open_max_probes (b_config b)))"
  shows "report_success b =
    (if Suc (unat (i_half_open_successes (b_inner b))) < unat (half_open_max_probes (b_config b))
     then b \<lparr> b_inner := b_inner b \<lparr> i_half_open_successes := i_half_open_successes (b_inner b) + 1 \<rparr> \<rparr>
     else recovered b)"
proof -
  let ?s = "i_half_open_successes (b_inner b)" and ?m = "half_open_max_probes (b_config b)"
  have "unat ?m < 2 ^ 32" by (rule unat_u32)
  with assms(2) have "Suc (unat ?s) < 2 ^ 32" by auto
  then have "saturating_add ?s 1 = ?s + 1" "unat (?s + 1) = Suc (unat ?s)"
    by (simp_all add: saturating_add_def unat_word_ariths(1))
  with assms(1) show ?thesis
    by (auto simp: report_success_def record_success_def close_if_enough_def recovered_def
        breaker_new_def word_le_nat_alt)
qed

lemma half_open_run:
  assumes "i_state (b_inner b) = HalfOpen"
    and "unat (i_half_open_successes (b_inner b)) + length cs =
           max 1 (unat (half_open_max_probes (b_config b)))"
    and "cs \<noteq> []"
  shows "run_calls (map (\<lambda>(t0, t1, x). (t0, t1, Inr x)) cs) b =
           (recovered b, map (\<lambda>(t0, t1, x). Inr x) cs)"
  using assms
proof (induction cs arbitrary: b)
  case Nil
  then show ?case by simp
next
  case (Cons c cs)
  let ?s = "i_half_open_successes (b_inner b)" and ?m = "half_open_max_probes (b_config b)"
  obtain t0 t1 x where c: "c = (t0, t1, x)" by (cases c)
  have lt: "unat ?s < max 1 (unat ?m)" using Cons.prems(2) by simp
  note step = report_success_half_open [OF Cons.prems(1) lt]
  show ?case
  proof (cases "cs = []")
    case True
    with Cons.prems(2) have "\<not> Suc (unat ?s) < unat ?m" by simp
    with True c step Cons.prems(1) show ?thesis by (simp add: call_half_open_ok)
  next
    case False
    then obtain n where "length cs = Suc n" by (cases cs) simp_all
    with Cons.prems(2) have more: "Suc (unat ?s) < unat ?m"
      by (simp only: list.size max_def split: if_splits)
    let ?b = "report_success b"
    have b': "?b = b \<lparr> b_inner := b_inner b \<lparr> i_half_open_successes := ?s + 1 \<rparr> \<rparr>"
      using step more by simp
    have "unat ?m < 2 ^ 32" by (rule unat_u32)
    with more have "unat (?s + 1) = Suc (unat ?s)" by (simp add: unat_word_ariths(1))
    then have "i_state (b_inner ?b) = HalfOpen"
      "unat (i_half_open_successes (b_inner ?b)) + length cs =
         max 1 (unat (half_open_max_probes (b_config ?b)))"
      using Cons.prems b' by simp_all
    note Cons.IH [OF this False]
    moreover have "recovered ?b = recovered b" by (simp add: b' recovered_def)
    ultimately show ?thesis using c Cons.prems(1) by (simp add: call_half_open_ok)
  qed
qed

lemma reachable_reports:
  "reachable (breaker_init name config) breaker_step
     \<lparr> bs_now = now, bs_breaker = ((report_failure now) ^^ n) (breaker_new name config),
       bs_in_flight = 0 \<rparr>"
proof (induction n)
  case 0
  show ?case by (rule reach_init) (simp add: breaker_init_def)
next
  case (Suc n)
  from reach_step [OF this bs_report_failure] show ?case by simp
qed

lemma reports_as_fold:
  "((report_failure now) ^^ n) b = fold report (replicate n (now, False)) b"
proof -
  have "report (now, False) = report_failure now" by (rule ext) simp
  then show ?thesis by (simp add: fold_replicate)
qed

lemma trailing_failures_replicate: "trailing_failures (replicate n (now, False)) = n"
  by (simp add: trailing_failures_def takeWhile_eq_all_conv [THEN iffD2])

lemma reachable_open:
  "\<exists>s. reachable (breaker_init name config) breaker_step s \<and>
       i_state (b_inner (bs_breaker s)) = Open \<and> bs_in_flight s = 0"
proof -
  let ?n = "max 1 (unat (failure_threshold config))"
  let ?s = "\<lparr> bs_now = 0, bs_breaker = ((report_failure 0) ^^ ?n) (breaker_new name config),
             bs_in_flight = 0 \<rparr>"
  have "i_state (b_inner (bs_breaker ?s)) = Open"
    using closed_run [of "replicate ?n (0, False)" config name]
    by (simp add: reports_as_fold trailing_failures_replicate Let_def)
  then show ?thesis using reachable_reports [of name config 0 ?n] by (intro exI [of _ ?s]) simp
qed

lemma reachable_half_open:
  "\<exists>s. reachable (breaker_init name config) breaker_step s \<and>
       i_state (b_inner (bs_breaker s)) = HalfOpen \<and> bs_in_flight s = n"
proof (induction n)
  case 0
  obtain s where s: "reachable (breaker_init name config) breaker_step s"
    "i_state (b_inner (bs_breaker s)) = Open" "bs_in_flight s = 0"
    using reachable_open by blast
  then obtain t where t: "i_last_failure_time (b_inner (bs_breaker s)) = Some t" "t \<le> bs_now s"
    using breaker.reachable_inv [OF s(1)] by (auto simp: breaker_inv_def inner_inv_def)
  let ?u = "s \<lparr> bs_now := bs_now s + reset_timeout (b_config (bs_breaker s)) \<rparr>"
  let ?v = "?u \<lparr> bs_breaker := fst (status (bs_now ?u) (bs_breaker ?u)) \<rparr>"
  have "reachable (breaker_init name config) breaker_step ?v"
    by (intro reach_step [OF reach_step [OF s(1) bs_tick] bs_status])
  moreover have "i_state (b_inner (bs_breaker ?v)) = HalfOpen"
    using s t by (simp add: status_def refresh_def maybe_transition_to_half_open_def Let_def)
  ultimately show ?case using s(3) by (intro exI [of _ ?v]) simp
next
  case (Suc n)
  then obtain s where s: "reachable (breaker_init name config) breaker_step s"
    "i_state (b_inner (bs_breaker s)) = HalfOpen" "bs_in_flight s = n" by blast
  then have "call_preflight (bs_now s) (bs_breaker s) = (bs_breaker s, Inr ())"
    by (simp add: call_preflight_def refresh_def maybe_transition_to_half_open_def)
  from reach_step [OF s(1) bs_admit [OF this]] s(2,3) show ?case by (auto intro!: exI)
qed

definition example_config :: CircuitBreakerConfig where
  "example_config = \<lparr> failure_threshold = 1, reset_timeout = 50, half_open_max_probes = 2 \<rparr>"

definition tripped_example :: breaker_sys where
  "tripped_example =
     \<lparr> bs_now = 7, bs_breaker = report_failure 7 (breaker_new ''telemetry'' example_config),
       bs_in_flight = 0 \<rparr>"

lemma tripped_example_simps [simp]:
  "bs_now tripped_example = 7"
  "i_state (b_inner (bs_breaker tripped_example)) = Open"
  "i_last_failure_time (b_inner (bs_breaker tripped_example)) = Some 7"
  by (simp_all add: tripped_example_def breaker_new_def report_failure_def record_failure_def
      saturating_add_def example_config_def)

lemma tripped_example_reachable:
  "reachable (breaker_init ''telemetry'' example_config) breaker_step tripped_example"
  using reachable_reports [of "''telemetry''" example_config 7 1]
  by (simp add: tripped_example_def)

section \<open>Properties\<close>

text \<open>
  In every state that interleaved callers can reach, the counters of a breaker are consistent
  with its state: closed means fewer consecutive failures than the threshold and no half-open
  successes, open and half-open mean the threshold was reached and the time of the last failure is
  known, and half-open means fewer successes than the number of probes.
\<close>

theorem breaker_counters_consistent:
  assumes "reachable (breaker_init name config) breaker_step s"
  shows "inner_inv config (bs_now s) (b_inner (bs_breaker s))"
  using breaker.reachable_inv [OF assms] by (simp add: breaker_inv_def)

theorem breaker_counters_consistent_witness:
  "inner_inv example_config 7 (b_inner (bs_breaker tripped_example))"
  using breaker_counters_consistent [OF tripped_example_reachable] by simp

text \<open>
  A call is refused exactly when the breaker is open and less than the reset timeout has passed
  since the failure that opened it: then the operation does not run and the breaker is unchanged;
  in every other reachable state the operation runs and its own result is returned.
\<close>

theorem call_refused_iff_open_and_fresh:
  assumes "reachable (breaker_init name config) breaker_step s"
  shows "call (bs_now s) later operation (bs_breaker s) =
    (if i_state (b_inner (bs_breaker s)) = Open \<and>
        bs_now s < the (i_last_failure_time (b_inner (bs_breaker s))) + reset_timeout config
     then (bs_breaker s, Err (BreakerOpen \<lparr> dependency = name \<rparr>))
     else let (b, res) = operation (refresh (bs_now s) (bs_breaker s))
          in (call_postflight later res b, case_sum (\<lambda>e. Err (InnerError e)) Ok res))"
proof -
  have inv: "breaker_inv name config s" by (rule breaker.reachable_inv [OF assms])
  show ?thesis
  proof (cases "i_state (b_inner (bs_breaker s))")
    case Open
    with inv obtain t where t: "i_last_failure_time (b_inner (bs_breaker s)) = Some t" "t \<le> bs_now s"
      by (auto simp: breaker_inv_def inner_inv_def)
    then have "reset_timeout config \<le> bs_now s - t \<longleftrightarrow> \<not> bs_now s < t + reset_timeout config"
      by linarith
    with Open t inv show ?thesis
      by (simp add: call_def call_preflight_def refresh_def maybe_transition_to_half_open_def
          breaker_inv_def split: prod.splits)
  qed (simp_all add: call_def call_preflight_def refresh_def maybe_transition_to_half_open_def
      split: prod.splits)
qed

theorem call_refused_iff_open_and_fresh_witness:
  "call 7 9 (\<lambda>b. (b, Inr 3 :: (nat, nat) result)) (bs_breaker tripped_example) =
     (bs_breaker tripped_example, Err (BreakerOpen \<lparr> dependency = ''telemetry'' \<rparr>))"
  using call_refused_iff_open_and_fresh [OF tripped_example_reachable, of 9
      "\<lambda>b. (b, Inr 3 :: (nat, nat) result)"]
  by (simp add: example_config_def)

text \<open>
  A closed breaker opens at the first moment the outcomes end in as many consecutive failures as
  the threshold (one if the threshold is zero), and not before, whatever successes came in between.
\<close>

theorem breaker_trips_at_threshold:
  assumes "\<forall>k < length os. trailing_failures (take k os) < max 1 (unat (failure_threshold config))"
  shows "i_state (b_inner (fold report os (breaker_new name config))) =
    (if trailing_failures os < max 1 (unat (failure_threshold config)) then Closed else Open)"
  using closed_run [OF assms] by (simp add: Let_def)

theorem breaker_trips_at_threshold_witness:
  "i_state (b_inner (fold report [(1, False), (2, True), (3, False), (4, False)]
     (breaker_new ''derp_mesh'' (default_config \<lparr> failure_threshold := 2 \<rparr>)))) = Open"
  using breaker_trips_at_threshold [of "[(1, False), (2, True), (3, False), (4, False)]"
      "default_config \<lparr> failure_threshold := 2 \<rparr>" "''derp_mesh''"]
  by (simp add: trailing_failures_def less_Suc_eq)

text \<open>
  A breaker that is open always recovers: once the reset timeout has passed, as many successful
  calls as the configuration asks for (at least one) are all admitted and answered, and leave the
  breaker exactly as newly created.
\<close>

theorem breaker_recovers:
  assumes "reachable (breaker_init name config) breaker_step s"
    and "i_state (b_inner (bs_breaker s)) = Open"
    and "the (i_last_failure_time (b_inner (bs_breaker s))) + reset_timeout config \<le> bs_now s"
    and "length cs = max 1 (unat (half_open_max_probes config))"
    and "fst (hd cs) = bs_now s"
  shows "run_calls (map (\<lambda>(t0, t1, x). (t0, t1, Inr x)) cs) (bs_breaker s) =
    (breaker_new name config, map (\<lambda>(t0, t1, x). Inr x) cs)"
proof -
  let ?b = "refresh (bs_now s) (bs_breaker s)"
  have inv: "breaker_inv name config s" by (rule breaker.reachable_inv [OF assms(1)])
  with assms(2,3) have "i_state (b_inner ?b) = HalfOpen" "i_half_open_successes (b_inner ?b) = 0"
    and cfg: "b_config ?b = config" "b_name ?b = name"
    by (auto simp: breaker_inv_def inner_inv_def refresh_def maybe_transition_to_half_open_def)
  then have run: "run_calls (map (\<lambda>(t0, t1, x). (t0, t1, Inr x)) cs) ?b =
      (recovered ?b, map (\<lambda>(t0, t1, x). Inr x) cs)"
    using assms(4) by (intro half_open_run) auto
  obtain t1 x cs' where cs: "cs = (bs_now s, t1, x) # cs'"
    using assms(4,5) by (cases cs) auto
  from run cfg show ?thesis by (simp add: cs recovered_def call_refresh)
qed

theorem breaker_recovers_witness:
  "run_calls [(100, 101, Inr ''a''), (102, 103, (Inr ''b'' :: (nat, string) result))]
     (bs_breaker tripped_example) =
   (breaker_new ''telemetry'' example_config, [Inr ''a'', Inr ''b''])"
  using breaker_recovers [OF reach_step [OF tripped_example_reachable bs_tick [of _ 93]],
      of "[(100, 101, ''a''), (102, 103, ''b'')]"]
  by (simp add: example_config_def)

text \<open>
  Half-open does not bound the probes in flight: whatever the configured number of probes, any
  number of calls can be past the pre-flight check of a half-open breaker at the same time.
\<close>

theorem half_open_admits_any_number:
  "\<exists>s. reachable (breaker_init name config) breaker_step s \<and>
       i_state (b_inner (bs_breaker s)) = HalfOpen \<and> bs_in_flight s = n"
  by (rule reachable_half_open)

end
