(* ===== verification/Retry.thy ===== *)
theory Retry
  imports Prelude
begin

text \<open>
  The retry strategies of \<open>crates/coder-core/src/retry.rs\<close>. A \<open>Duration\<close> is its number of
  nanoseconds, below \<open>2 ^ 64\<close> seconds; \<open>usize\<close> has 64 bits. The random generator of the \<open>rand\<close>
  crate is the parameter \<open>rng\<close>: \<open>rng k hi\<close> is the number drawn from \<open>0..=hi\<close> after the k-th
  failure. The operation is a function on the caller's state, and the result of the loop lists the
  delays slept; a loop that would never return is \<open>None\<close>.
\<close>

section \<open>Durations\<close>

type_synonym Duration = nat

definition duration_ok :: "Duration \<Rightarrow> bool" where
  "duration_ok d \<longleftrightarrow> d < 2 ^ 64 * 1000000000"

definition as_millis :: "Duration \<Rightarrow> 128 word" where
  "as_millis d = of_nat (d div 1000000)"

definition from_millis :: "64 word \<Rightarrow> Duration" where
  "from_millis ms = unat ms * 1000000"

lemma unat_as_millis: "duration_ok d \<Longrightarrow> unat (as_millis d) = d div 1000000"
  by (simp add: as_millis_def duration_ok_def unat_of_nat)

lemma from_millis_div: "from_millis ms div 1000000 = unat ms"
  by (simp add: from_millis_def)

section \<open>Strategies\<close>

datatype RetryStrategy =
    Fixed Duration "64 word"
  | ExponentialBackoff Duration "64 word" Duration

fun max_attempts :: "RetryStrategy \<Rightarrow> 64 word" where
  "max_attempts (Fixed delay n) = n"
| "max_attempts (ExponentialBackoff initial_delay n max_delay) = n"

definition checked_shl :: "64 word \<Rightarrow> nat \<Rightarrow> 64 word option" where
  "checked_shl x k = (if k < 64 then Some (push_bit k x) else None)"

fun delay_for_attempt :: "RetryStrategy \<Rightarrow> 64 word \<Rightarrow> Duration" where
  "delay_for_attempt (Fixed delay n) attempt = delay"
| "delay_for_attempt (ExponentialBackoff initial_delay n max_delay) attempt =
     (let multiplier = (case checked_shl 1 (unat (min attempt 31)) of Some m \<Rightarrow> m | None \<Rightarrow> - 1);
          base = saturating_mul (as_millis initial_delay) (ucast multiplier);
          capped = min base (as_millis max_delay)
      in from_millis (ucast capped))"

definition with_jitter :: "(64 word \<Rightarrow> 64 word) \<Rightarrow> Duration \<Rightarrow> Duration" where
  "with_jitter gen_range base =
     (let millis = ucast (as_millis base) :: 64 word in
      if millis = 0 then base
      else let jitter_range = millis div 4 in
        if jitter_range = 0 then base
        else let offset = gen_range (saturating_mul jitter_range 2);
                 jittered = saturating_add (saturating_sub millis jitter_range) offset
             in from_millis jittered)"

section \<open>The retry loop\<close>

fun retry_loop ::
  "RetryStrategy \<Rightarrow> ('e \<Rightarrow> bool) \<Rightarrow> ('s \<Rightarrow> 's \<times> ('e, 'a) result) \<Rightarrow> (nat \<Rightarrow> 64 word \<Rightarrow> 64 word) \<Rightarrow>
   nat \<Rightarrow> nat list \<Rightarrow> 'e option \<Rightarrow> Duration list \<Rightarrow> 's \<Rightarrow>
   ('s \<times> Duration list \<times> ('e, 'a) result) option"
where
  "retry_loop strategy classify operation rng bound [] last_error slept s =
     (case last_error of Some e \<Rightarrow> Some (s, slept, Err e) | None \<Rightarrow> None)"
| "retry_loop strategy classify operation rng bound (attempt # attempts) last_error slept s =
     (case operation s of
        (s, Inr v) \<Rightarrow> Some (s, slept, Ok v)
      | (s, Inl error) \<Rightarrow>
          (if bound \<le> attempt + 1 \<or> \<not> classify error then Some (s, slept, Err error)
           else retry_loop strategy classify operation rng bound attempts (Some error)
                  (slept @ [with_jitter (rng attempt) (delay_for_attempt strategy (of_nat attempt))]) s))"

definition retry_with_strategy ::
  "RetryStrategy \<Rightarrow> ('e \<Rightarrow> bool) \<Rightarrow> ('s \<Rightarrow> 's \<times> ('e, 'a) result) \<Rightarrow> (nat \<Rightarrow> 64 word \<Rightarrow> 64 word) \<Rightarrow>
   's \<Rightarrow> ('s \<times> Duration list \<times> ('e, 'a) result) option" where
  "retry_with_strategy strategy classify operation rng s =
     (let n = max (unat (max_attempts strategy)) 1
      in retry_loop strategy classify operation rng n [0..<n] None [] s)"

section \<open>What the loop does\<close>

text \<open>The caller's state before the k-th attempt, and the result of the k-th attempt.\<close>

fun state_before :: "('s \<Rightarrow> 's \<times> ('e, 'a) result) \<Rightarrow> 's \<Rightarrow> nat \<Rightarrow> 's" where
  "state_before operation s 0 = s"
| "state_before operation s (Suc k) = fst (operation (state_before operation s k))"

definition outcome :: "('s \<Rightarrow> 's \<times> ('e, 'a) result) \<Rightarrow> 's \<Rightarrow> nat \<Rightarrow> ('e, 'a) result" where
  "outcome operation s k = snd (operation (state_before operation s k))"

fun transient :: "('e \<Rightarrow> bool) \<Rightarrow> ('e, 'a) result \<Rightarrow> bool" where
  "transient classify (Inl e) = classify e"
| "transient classify (Inr x) = False"

text \<open>What a run that ends with the n-th attempt returns.\<close>

definition ends_at ::
  "RetryStrategy \<Rightarrow> ('s \<Rightarrow> 's \<times> ('e, 'a) result) \<Rightarrow> (nat \<Rightarrow> 64 word \<Rightarrow> 64 word) \<Rightarrow> 's \<Rightarrow> nat \<Rightarrow>
   's \<times> Duration list \<times> ('e, 'a) result" where
  "ends_at strategy operation rng s n =
     (state_before operation s (Suc n),
      map (\<lambda>k. with_jitter (rng k) (delay_for_attempt strategy (of_nat k))) [0..<n],
      outcome operation s n)"

lemma retry_loop_ends:
  assumes "i \<le> n" and "n < m"
    and "\<forall>k\<in>{i..<n}. transient classify (outcome operation s k)"
    and "\<not> transient classify (outcome operation s n) \<or> n + 1 = m"
  shows "retry_loop strategy classify operation rng m [i..<m] prev
      (map (\<lambda>k. with_jitter (rng k) (delay_for_attempt strategy (of_nat k))) [0..<i])
      (state_before operation s i) = Some (ends_at strategy operation rng s n)"
  using assms
proof (induction "n - i" arbitrary: i prev)
  case 0
  then have "i = n" "[i..<m] = i # [Suc i..<m]" by (simp_all add: upt_conv_Cons)
  with 0 show ?case
    by (auto simp: ends_at_def outcome_def split: prod.splits sum.splits)
next
  case (Suc d)
  then have "i < n" by simp
  with Suc.prems have "transient classify (outcome operation s i)" by simp
  then obtain t e where e: "operation (state_before operation s i) = (t, Inl e)" "classify e"
    by (cases "operation (state_before operation s i)"; cases "outcome operation s i")
      (auto simp: outcome_def)
  have "[i..<m] = i # [Suc i..<m]" using \<open>i < n\<close> Suc.prems(2) by (simp add: upt_conv_Cons)
  moreover have "retry_loop strategy classify operation rng m [Suc i..<m] (Some e)
      (map (\<lambda>k. with_jitter (rng k) (delay_for_attempt strategy (of_nat k))) [0..<Suc i])
      (state_before operation s (Suc i)) = Some (ends_at strategy operation rng s n)"
    using Suc.hyps(2) Suc.prems \<open>i < n\<close> by (intro Suc.hyps(1)) auto
  ultimately show ?case using e \<open>i < n\<close> Suc.prems(2) by simp
qed

lemma first_stop:
  fixes m :: nat
  assumes "0 < m"
  shows "\<exists>n<m. (\<forall>k<n. P k) \<and> (\<not> P n \<or> n + 1 = m)"
proof (cases "\<exists>k<m. \<not> P k")
  case True
  define n where "n = (LEAST k. \<not> P k)"
  from True obtain k where k: "k < m" "\<not> P k" by blast
  then have "\<not> P n" unfolding n_def by (intro LeastI)
  moreover have "n < m" using k Least_le [of "\<lambda>k. \<not> P k" k] unfolding n_def by simp
  moreover have "\<forall>j<n. P j" using not_less_Least unfolding n_def by blast
  ultimately show ?thesis by blast
next
  case False
  then show ?thesis using assms by (intro exI [of _ "m - 1"]) auto
qed

section \<open>Properties\<close>

text \<open>
  C34. The retry loop always returns. It runs the operation until the first attempt that succeeds,
  fails with an error the classifier does not retry, or is the last one allowed (the first, if the
  strategy allows none), sleeps the strategy's jittered delay after each earlier attempt, and
  returns the result of that attempt.
\<close>

theorem retry_returns_first_conclusive:
  "\<exists>n < max (unat (max_attempts strategy)) 1.
     (\<forall>k<n. transient classify (outcome operation s k)) \<and>
     (\<not> transient classify (outcome operation s n) \<or> n + 1 = max (unat (max_attempts strategy)) 1) \<and>
     retry_with_strategy strategy classify operation rng s =
       Some (ends_at strategy operation rng s n)"
proof -
  let ?m = "max (unat (max_attempts strategy)) 1"
  obtain n where n: "n < ?m" "\<forall>k<n. transient classify (outcome operation s k)"
    "\<not> transient classify (outcome operation s n) \<or> n + 1 = ?m"
    using first_stop [of ?m "\<lambda>k. transient classify (outcome operation s k)"]
    by (auto simp: less_max_iff_disj)
  then have "retry_with_strategy strategy classify operation rng s =
      Some (ends_at strategy operation rng s n)"
    using retry_loop_ends [of 0 n ?m classify operation s strategy rng None]
    by (simp add: retry_with_strategy_def)
  with n show ?thesis by blast
qed

theorem retry_returns_first_conclusive_witness:
  "retry_with_strategy (Fixed 5 3) (\<lambda>e. True)
     (\<lambda>s. (Suc s, if s < 1 then Inl ''down'' else (Inr s :: (string, nat) result))) (\<lambda>k hi. 0) 0 =
   Some (2, [5], Inr 1)"
proof -
  let ?op = "\<lambda>s. (Suc s, if s < 1 then Inl ''down'' else (Inr s :: (string, nat) result))"
  obtain n where n: "n < 3" "\<forall>k<n. transient (\<lambda>e. True) (outcome ?op 0 k)"
    "\<not> transient (\<lambda>e. True) (outcome ?op 0 n) \<or> n + 1 = 3"
    "retry_with_strategy (Fixed 5 3) (\<lambda>e. True) ?op (\<lambda>k hi. 0) 0 =
       Some (ends_at (Fixed 5 3) ?op (\<lambda>k hi. 0) 0 n)"
    using retry_returns_first_conclusive [of "Fixed 5 3" "\<lambda>e. True" ?op 0 "\<lambda>k hi. 0"] by auto
  have out: "transient (\<lambda>e. True) (outcome ?op 0 0)" "\<not> transient (\<lambda>e. True) (outcome ?op 0 1)"
    by (simp_all add: outcome_def)
  have "n = 1"
  proof (cases n)
    case 0
    with n(3) out show ?thesis by simp
  next
    case (Suc m)
    with n(1,2) out(2) show ?thesis by (cases m) auto
  qed
  with n(4) show ?thesis
    by (simp add: ends_at_def outcome_def with_jitter_def as_millis_def numeral_2_eq_2)
qed

text \<open>
  With exponential backoff the delay before jitter after the k-th failure is the initial delay
  doubled k times, at most 31 times, and never more than the maximum delay, in whole milliseconds;
  no intermediate product wraps around. The maximum delay must fit in 64 bits of milliseconds.
\<close>

theorem backoff_delay_exact:
  assumes "duration_ok initial_delay" and "duration_ok max_delay"
    and "max_delay div 1000000 < 2 ^ 64"
  shows "delay_for_attempt (ExponentialBackoff initial_delay n max_delay) attempt =
    min (initial_delay div 1000000 * 2 ^ min (unat attempt) 31) (max_delay div 1000000) * 1000000"
proof -
  let ?k = "min (unat attempt) 31" and ?i = "as_millis initial_delay" and ?x = "as_millis max_delay"
  have k: "unat (min attempt 31) = ?k" by (auto simp: min_def word_le_nat_alt)
  have "(2 :: nat) ^ ?k \<le> 2 ^ 31" by (intro power_increasing) auto
  then have lt: "(2 :: nat) ^ ?k < 2 ^ 64" by (rule order.strict_trans1) simp
  have m: "unat (push_bit ?k 1 :: 64 word) = 2 ^ ?k"
  proof -
    have "(push_bit ?k 1 :: 64 word) = of_nat (2 ^ ?k)" by (simp add: push_bit_eq_mult)
    also have "unat \<dots> = 2 ^ ?k" using lt by (simp only: unsigned_of_nat take_bit_eq_mod) simp
    finally show ?thesis .
  qed
  have u: "unat (ucast (push_bit ?k 1 :: 64 word) :: 128 word) = 2 ^ ?k"
    using m lt by (simp add: unsigned_ucast_eq take_bit_eq_mod)
  have base: "unat (saturating_mul ?i (ucast (push_bit ?k 1 :: 64 word))) =
      min (initial_delay div 1000000 * 2 ^ ?k) (2 ^ 128 - 1)"
    using u by (simp add: rust_std unat_as_millis assms)
  have cap: "unat (min (saturating_mul ?i (ucast (push_bit ?k 1 :: 64 word))) ?x) =
      min (initial_delay div 1000000 * 2 ^ ?k) (max_delay div 1000000)"
    using base assms by (auto simp: min_def word_le_nat_alt unat_as_millis)
  then have "unat (ucast (min (saturating_mul ?i (ucast (push_bit ?k 1 :: 64 word))) ?x) :: 64 word) =
      min (initial_delay div 1000000 * 2 ^ ?k) (max_delay div 1000000)"
    using assms(3) by (simp add: unsigned_ucast_eq take_bit_eq_mod min.strict_coboundedI2)
  moreover have "?k < 64" by simp
  ultimately show ?thesis by (simp add: k checked_shl_def from_millis_def)
qed

theorem backoff_delay_exact_witness:
  "delay_for_attempt (ExponentialBackoff 250000000 5 2000000000) 2 = 1000000000"
  using backoff_delay_exact [of 250000000 2000000000 5 2] by (simp add: duration_ok_def)

text \<open>
  A jittered delay stays within a quarter of its base: for a base of \<open>m\<close> whole milliseconds it is
  at least \<open>m - m div 4\<close> and at most \<open>m + m div 4\<close> milliseconds, provided the generator draws a
  number from the range it is given; saturation never moves it out of these bounds.
\<close>

theorem jitter_within_quarter:
  assumes "\<And>hi. gen_range hi \<le> hi"
    and "base div 1000000 < 2 ^ 64"
  shows "with_jitter gen_range base div 1000000
           \<in> {base div 1000000 - base div 1000000 div 4..base div 1000000 + base div 1000000 div 4}"
proof -
  let ?m = "ucast (as_millis base) :: 64 word"
  have m: "unat ?m = base div 1000000"
    using assms(2) by (simp add: as_millis_def unsigned_ucast_eq unat_of_nat take_bit_eq_mod)
  let ?r = "?m div 4" and ?off = "gen_range (saturating_mul (?m div 4) 2)"
  have r: "unat ?r = unat ?m div 4" by (simp add: unat_div)
  have "unat ?off \<le> unat (saturating_mul ?r 2)" using assms(1) by (simp add: word_le_nat_alt)
  then have off: "unat ?off \<le> unat ?r * 2" by (simp add: rust_std)
  have bnd: "unat ?m < 2 ^ 64" using m assms(2) by simp
  have "unat (saturating_add (saturating_sub ?m ?r) ?off) \<in> {unat ?m - unat ?r..unat ?m + unat ?r}"
    using off r bnd by (auto simp: rust_std)
  then show ?thesis using m r by (auto simp: with_jitter_def Let_def from_millis_div)
qed

theorem jitter_within_quarter_witness:
  "with_jitter (\<lambda>hi. hi div 2) 1000000000 div 1000000 \<in> {750 :: nat..1250}"
proof -
  have "(hi :: 64 word) div 2 \<le> hi" for hi by (simp add: word_le_nat_alt unat_div)
  from jitter_within_quarter [OF this, of 1000000000] show ?thesis by simp
qed

end
