(* ===== verification/Byte_Codec.thy ===== *)
theory Byte_Codec
  imports Prelude
begin

text \<open>
  Bytes, the big-endian forms of the machine integers, and the interface of a self-delimiting byte
  format, shared by the wire protocols.
\<close>

type_synonym byte = "8 word"
type_synonym u64 = "64 word"

section \<open>Prefix codecs\<close>

text \<open>
  A format in which every acceptable value can be read back from the front of a stream, whatever
  follows it, leaving the rest of the stream.
\<close>

locale prefix_codec =
  fixes encode :: "'a \<Rightarrow> byte list"
    and decode :: "byte list \<times> 't \<Rightarrow> ('e, 'a \<times> byte list \<times> 't) result"
    and ok :: "'a \<Rightarrow> bool"
  assumes decode_encode: "ok a \<Longrightarrow> decode (encode a @ rest, t) = Ok (a, rest, t)"
begin

lemma encode_inj:
  assumes "ok a" and "ok b" and "encode a = encode b"
  shows "a = b"
  using decode_encode [OF assms(1), of "[]" undefined] decode_encode [OF assms(2), of "[]" undefined]
    assms(3) by simp

lemma encode_prefix_free:
  assumes "ok a" and "ok b" and "encode a @ xs = encode b @ ys"
  shows "a = b \<and> xs = ys"
proof -
  from decode_encode [OF assms(1), of xs] have "decode (encode b @ ys, t) = Ok (a, xs, t)" for t
    by (simp only: assms(3))
  with decode_encode [OF assms(2), of ys] show ?thesis by simp
qed

fun decode_many :: "nat \<Rightarrow> byte list \<times> 't \<Rightarrow> ('e, 'a list \<times> byte list \<times> 't) result" where
  "decode_many 0 r = Ok ([], r)"
| "decode_many (Suc n) r =
     and_then (decode r) (\<lambda>(a, r). and_then (decode_many n r) (\<lambda>(as, r). Ok (a # as, r)))"

lemma decode_many_concat:
  "\<forall>a\<in>set as. ok a \<Longrightarrow>
   decode_many (length as) (concat (map encode as) @ rest, t) = Ok (as, rest, t)"
  by (induction as) (simp_all add: decode_encode)

end

section \<open>Big-endian integers\<close>

text \<open>\<open>to_be_bytes\<close> and \<open>from_be_bytes\<close> of the unsigned integers.\<close>

definition to_be_bytes :: "'w::len word \<Rightarrow> byte list" where
  "to_be_bytes w = map (\<lambda>i. ucast (drop_bit (8 * i) w)) (rev [0..<LENGTH('w) div 8])"

definition from_be_bytes :: "byte list \<Rightarrow> 'w::len word" where
  "from_be_bytes bs = word_of_nat (foldl (\<lambda>n b. n * 256 + unat b) 0 bs)"

lemma length_to_be_bytes [simp]: "length (to_be_bytes (w :: 'w::len word)) = LENGTH('w) div 8"
  by (simp add: to_be_bytes_def)

lemma unat_be_byte: "unat (ucast (drop_bit (8 * i) w) :: byte) = unat w div 256 ^ i mod 256"
proof -
  have "unat (ucast (drop_bit (8 * i) w) :: byte) = take_bit 8 (unat (drop_bit (8 * i) w))"
    by (simp add: unsigned_ucast_eq)
  also have "unat (drop_bit (8 * i) w) = unat w div 2 ^ (8 * i)"
    by (simp only: unat_drop_bit_eq) (simp add: drop_bit_eq_div)
  finally show ?thesis by (simp add: take_bit_eq_mod power_mult)
qed

lemma be_digits:
  "foldl (\<lambda>n b. n * 256 + b) 0 (map (\<lambda>i. n div 256 ^ i mod 256) (rev [0..<k])) = n mod 256 ^ k"
    for n :: nat
proof -
  have "foldl (\<lambda>n b. n * 256 + b) a (map (\<lambda>i. n div 256 ^ i mod 256) (rev [0..<k])) =
      a * 256 ^ k + n mod 256 ^ k" for a
  proof (induction k arbitrary: a)
    case (Suc k)
    have "n mod 256 ^ Suc k = n div 256 ^ k mod 256 * 256 ^ k + n mod 256 ^ k"
      using mod_mult2_eq [of n "256 ^ k" 256] by (simp add: mult.commute)
    then have "(a * 256 + n div 256 ^ k mod 256) * 256 ^ k + n mod 256 ^ k = a * 256 ^ Suc k + n mod 256 ^ Suc k"
      by (simp add: algebra_simps)
    then show ?case by (simp add: Suc)
  qed simp
  from this [of 0] show ?thesis by simp
qed

lemma foldl_unat: "foldl (\<lambda>n b. n * 256 + unat b) a bs = foldl (\<lambda>n b. n * 256 + b) a (map unat bs)"
  by (induction bs arbitrary: a) simp_all

lemma from_to_be_bytes [simp]:
  assumes "8 dvd LENGTH('w)"
  shows "from_be_bytes (to_be_bytes (w :: 'w::len word)) = w"
proof -
  have "(256 :: nat) ^ (LENGTH('w) div 8) = 2 ^ LENGTH('w)"
    using assms by (auto simp: power_mult elim!: dvdE)
  moreover have "unat w < 2 ^ LENGTH('w)" by (rule unsigned_less)
  ultimately show ?thesis
    using be_digits [of "unat w" "LENGTH('w) div 8"]
    by (simp add: from_be_bytes_def to_be_bytes_def foldl_unat comp_def unat_be_byte)
qed

lemma be_value_digits:
  "map (\<lambda>i. foldl (\<lambda>n b. n * 256 + unat b) 0 bs div 256 ^ i mod 256) (rev [0..<length bs]) = map unat bs"
  for bs :: "byte list"
proof (induction bs rule: rev_induct)
  case (snoc b bs)
  have b: "unat b < 256" using unsigned_less [of b, where ?'a = nat] by simp
  have "[0..<Suc (length bs)] = 0 # map Suc [0..<length bs]"
    by (metis map_Suc_upt upt_conv_Cons zero_less_Suc)
  then have "rev [0..<Suc (length bs)] = map Suc (rev [0..<length bs]) @ [0]"
    by (simp del: upt_Suc add: rev_map)
  with b snoc show ?case by (simp del: upt_Suc add: comp_def div_mult2_eq)
qed simp

lemma be_value_bound: "foldl (\<lambda>n b. n * 256 + unat b) 0 (bs :: byte list) < 256 ^ length bs"
proof (induction bs rule: rev_induct)
  case (snoc b bs)
  have "unat b < 256" using unsigned_less [of b, where ?'a = nat] by simp
  with snoc show ?case by simp
qed simp

lemma to_from_be_bytes:
  assumes "8 dvd LENGTH('w)" and "length bs = LENGTH('w) div 8"
  shows "to_be_bytes (from_be_bytes bs :: 'w::len word) = bs"
proof -
  have "(256 :: nat) ^ length bs = 2 ^ LENGTH('w)"
    using assms by (auto simp: power_mult elim!: dvdE)
  then have "unat (from_be_bytes bs :: 'w word) = foldl (\<lambda>n b. n * 256 + unat b) 0 bs"
    using be_value_bound [of bs] by (simp add: from_be_bytes_def unsigned_of_nat take_bit_eq_mod)
  then have "map unat (to_be_bytes (from_be_bytes bs :: 'w word)) = map unat bs"
    using be_value_digits [of bs] by (simp add: to_be_bytes_def assms(2) comp_def unat_be_byte)
  then show ?thesis by (rule map_injective) (simp add: inj_def word_unat_eq_iff)
qed

end
