(* ===== verification/Drpc_Wire.thy ===== *)
theory Drpc_Wire
  imports Byte_Codec
begin

text \<open>
  The DRPC wire protocol of \<open>crates/coder-agent-rpc/src/wire.rs\<close>. A reader is the list of bytes it
  will still deliver and the error it reports after them (the end of the stream, or a transport
  failure); a writing function is the list of bytes it hands to the transport, whose write errors
  are passed on unchanged and not modelled. Reading functions return the value and the
  reader that is left, and the reassembler is threaded explicitly.
\<close>

unbundle bit_operations_syntax

section \<open>Errors and readers\<close>

datatype IoErrorKind = UnexpectedEof | OtherIo string

text \<open>
  The error values of the crate; protobuf errors are represented by their message. The variants for
  protobuf messages and unknown methods are
  raised by its other modules only.
\<close>

datatype DrpcError =
    Io IoErrorKind | Protocol string | ProtoDecode string | ProtoEncode string
  | UnknownMethod string | DrpcClosed

type_synonym reader = "byte list \<times> IoErrorKind"

fun read_u8 :: "reader \<Rightarrow> (IoErrorKind, byte \<times> reader) result" where
  "read_u8 ([], e) = Err e"
| "read_u8 (b # bs, e) = Ok (b, bs, e)"

fun read_exact :: "nat \<Rightarrow> reader \<Rightarrow> (IoErrorKind, byte list \<times> reader) result" where
  "read_exact n (bs, e) = (if n \<le> length bs then Ok (take n bs, drop n bs, e) else Err e)"

text \<open>The \<open>?\<close> operator on an I/O result.\<close>

fun lift_io :: "(IoErrorKind, 'a) result \<Rightarrow> (DrpcError, 'a) result" where
  "lift_io (Inl e) = Err (Io e)"
| "lift_io (Inr x) = Ok x"

section \<open>Packets and frames\<close>

definition MAX_VARINT_LEN :: nat where
  "MAX_VARINT_LEN = 10"

definition MAX_PACKET_SIZE :: nat where
  "MAX_PACKET_SIZE = 4 * 1024 * 1024"

datatype Kind = Invoke | Message | Error | Cancel | Close | CloseSend | InvokeMetadata

definition from_u8 :: "byte \<Rightarrow> (DrpcError, Kind) result" where
  "from_u8 v =
     (if v = 1 then Ok Invoke else if v = 2 then Ok Message else if v = 3 then Ok Error
      else if v = 4 then Ok Cancel else if v = 5 then Ok Close else if v = 6 then Ok CloseSend
      else if v = 7 then Ok InvokeMetadata
      else Err (Protocol (''unknown drpc packet kind '' @ nat_str (unat v))))"

fun to_u8 :: "Kind \<Rightarrow> byte" where
  "to_u8 Invoke = 1"
| "to_u8 Message = 2"
| "to_u8 Error = 3"
| "to_u8 Cancel = 4"
| "to_u8 Close = 5"
| "to_u8 CloseSend = 6"
| "to_u8 InvokeMetadata = 7"

fun kind_debug :: "Kind \<Rightarrow> string" where
  "kind_debug Invoke = ''Invoke''"
| "kind_debug Message = ''Message''"
| "kind_debug Error = ''Error''"
| "kind_debug Cancel = ''Cancel''"
| "kind_debug Close = ''Close''"
| "kind_debug CloseSend = ''CloseSend''"
| "kind_debug InvokeMetadata = ''InvokeMetadata''"

record PacketId =
  id_stream :: u64
  id_message :: u64

record Packet =
  pk_kind :: Kind
  pk_id :: PacketId
  pk_data :: "byte list"

record Frame =
  fr_kind :: Kind
  fr_id :: PacketId
  fr_data :: "byte list"
  fr_done :: bool

record PartialPacket =
  pp_kind :: Kind
  pp_id :: PacketId
  pp_data :: "byte list"

section \<open>The reassembler\<close>

type_synonym PacketReassembler = "(u64, PartialPacket) hash_map"

definition reassembler_new :: PacketReassembler where
  "reassembler_new = hm_empty"

definition aborts :: "Kind \<Rightarrow> bool" where
  "aborts kind \<longleftrightarrow> kind = Cancel \<or> kind = Close \<or> kind = Error"

definition push ::
  "Frame \<Rightarrow> PacketReassembler \<Rightarrow> PacketReassembler \<times> (DrpcError, Packet option) result" where
  "push frame pending =
     (let kind = fr_kind frame; id = fr_id frame; data = fr_data frame; done = fr_done frame;
          stream = id_stream id; removed = hm_remove stream pending;
          packet = \<lparr> pk_kind = kind, pk_id = id, pk_data = data \<rparr>
      in if aborts kind then (removed, Ok (Some packet))
         else case hm_get pending stream of
           Some part \<Rightarrow>
             if pp_kind part \<noteq> kind then
               (removed, Err (Protocol (''multi-frame packet kind mismatch: expected '' @
                  kind_debug (pp_kind part) @ '', got '' @ kind_debug kind)))
             else if MAX_PACKET_SIZE < length (pp_data part) + length data then
               (removed, Err (Protocol (''reassembled drpc packet exceeds '' @
                  nat_str MAX_PACKET_SIZE @ '' bytes'')))
             else if done then
               (removed, Ok (Some \<lparr> pk_kind = pp_kind part, pk_id = pp_id part,
                                    pk_data = pp_data part @ data \<rparr>))
             else
               (hm_insert stream (part \<lparr> pp_id := id, pp_data := pp_data part @ data \<rparr>) removed,
                Ok None)
         | None \<Rightarrow>
             if done then
               if MAX_PACKET_SIZE < length data then
                 (pending, Err (Protocol (''single-frame drpc packet exceeds '' @
                    nat_str MAX_PACKET_SIZE @ '' bytes'')))
               else (pending, Ok (Some packet))
             else if MAX_PACKET_SIZE < length data then
               (pending, Err (Protocol (''first drpc frame already exceeds '' @
                  nat_str MAX_PACKET_SIZE @ '' bytes'')))
             else
               (hm_insert stream \<lparr> pp_kind = kind, pp_id = id, pp_data = data \<rparr> pending, Ok None))"

definition has_partial :: "PacketReassembler \<Rightarrow> u64 \<Rightarrow> bool" where
  "has_partial pending stream_id \<longleftrightarrow> hm_get pending stream_id \<noteq> None"

definition clear_stream :: "u64 \<Rightarrow> PacketReassembler \<Rightarrow> PacketReassembler" where
  "clear_stream stream_id pending = hm_remove stream_id pending"

section \<open>Variable-length integers\<close>

fun read_varint_loop :: "nat \<Rightarrow> nat \<Rightarrow> u64 \<Rightarrow> reader \<Rightarrow> (DrpcError, u64 \<times> reader) result" where
  "read_varint_loop 0 shift v r = Err (Protocol ''varint too long'')"
| "read_varint_loop (Suc n) shift v r =
     and_then (lift_io (read_u8 r)) (\<lambda>(b, r).
       let v = v OR push_bit shift (ucast (b AND 0x7f)) in
       if b AND 0x80 = 0 then Ok (v, r) else read_varint_loop n (shift + 7) v r)"

definition read_varint :: "reader \<Rightarrow> (DrpcError, u64 \<times> reader) result" where
  "read_varint r = read_varint_loop MAX_VARINT_LEN 0 0 r"

lemma drop_bit_7_less: "\<not> v < (0x80 :: u64) \<Longrightarrow> unat (drop_bit 7 v) < unat v"
  by (simp add: drop_bit_eq_div word_less_nat_alt unat_div)

function encode_varint :: "u64 \<Rightarrow> byte list" where
  "encode_varint v =
     (if v < 0x80 then [ucast v]
      else ((ucast v AND 0x7f) OR 0x80) # encode_varint (drop_bit 7 v))"
  by pat_completeness auto
termination
  by (relation "measure unat") (simp_all add: drop_bit_7_less)

declare encode_varint.simps [simp del]

section \<open>Frames and packets on the wire\<close>

definition read_frame :: "reader \<Rightarrow> (DrpcError, Frame \<times> reader) result" where
  "read_frame r =
     (case read_u8 r of
        Inl e \<Rightarrow> Err (if e = UnexpectedEof then DrpcClosed else Io e)
      | Inr (header, r) \<Rightarrow>
          and_then (from_u8 (drop_bit 1 (header AND 0x7e))) (\<lambda>kind.
          and_then (read_varint r) (\<lambda>(stream, r).
          and_then (read_varint r) (\<lambda>(msg, r).
          and_then (read_varint r) (\<lambda>(len, r).
            if of_nat MAX_PACKET_SIZE < len then
              Err (Protocol (''drpc frame length '' @ nat_str (unat len) @ '' exceeds '' @
                nat_str MAX_PACKET_SIZE))
            else
              and_then (lift_io (read_exact (unat len) r)) (\<lambda>(data, r).
                Ok (\<lparr> fr_kind = kind, fr_id = \<lparr> id_stream = stream, id_message = msg \<rparr>,
                      fr_data = data, fr_done = (header AND 0x01 \<noteq> 0) \<rparr>, r)))))))"

definition frame_header :: "Frame \<Rightarrow> byte" where
  "frame_header frame =
     (let done_bit = (if fr_done frame then 0x01 else 0)
      in push_bit 1 (to_u8 (fr_kind frame)) OR done_bit)"

definition write_frame :: "Frame \<Rightarrow> byte list" where
  "write_frame frame =
     frame_header frame # encode_varint (id_stream (fr_id frame))
     @ encode_varint (id_message (fr_id frame))
     @ encode_varint (of_nat (length (fr_data frame))) @ fr_data frame"

definition write_packet :: "Packet \<Rightarrow> byte list" where
  "write_packet packet =
     write_frame \<lparr> fr_kind = pk_kind packet, fr_id = pk_id packet, fr_data = pk_data packet,
                   fr_done = True \<rparr>"

definition write_error :: "PacketId \<Rightarrow> u64 \<Rightarrow> byte list \<Rightarrow> byte list" where
  "write_error pid code msg =
     write_packet \<lparr> pk_kind = Error, pk_id = pid, pk_data = to_be_bytes code @ msg \<rparr>"

lemma read_u8_shrinks: "read_u8 r = Inr (b, r') \<Longrightarrow> length (fst r') < length (fst r)"
  by (induction r rule: read_u8.induct) auto

lemma lift_io_eq_Inr [simp]: "lift_io x = Inr y \<longleftrightarrow> x = Inr y"
  by (cases x) auto

lemma read_varint_loop_shrinks:
  "read_varint_loop n s v r = Inr (w, r') \<Longrightarrow> length (fst r') \<le> length (fst r)"
  by (induction n s v r rule: read_varint_loop.induct)
    (fastforce simp: and_then_eq_Inr Let_def split: if_splits dest: read_u8_shrinks)+

lemma read_exact_shrinks: "read_exact n r = Inr (d, r') \<Longrightarrow> length (fst r') \<le> length (fst r)"
  by (cases r) (auto split: if_splits)

lemma read_frame_shrinks: "read_frame r = Inr (f, r') \<Longrightarrow> length (fst r') < length (fst r)"
  by (auto simp: read_frame_def read_varint_def and_then_eq_Inr split: sum.splits if_splits
      dest!: read_u8_shrinks read_varint_loop_shrinks read_exact_shrinks)

text \<open>The loop of \<open>read_packet\<close> ends because every frame takes at least one byte.\<close>

function read_packet_loop :: "PacketReassembler \<Rightarrow> reader \<Rightarrow> (DrpcError, Packet \<times> reader) result"
where
  "read_packet_loop pending r =
     (case read_frame r of
        Inl e \<Rightarrow> Err e
      | Inr (frame, r') \<Rightarrow>
          (case push frame pending of
             (pending', Inl e) \<Rightarrow> Err e
           | (pending', Inr (Some packet)) \<Rightarrow> Ok (packet, r')
           | (pending', Inr None) \<Rightarrow> read_packet_loop pending' r'))"
  by pat_completeness auto
termination
  by (relation "measure (\<lambda>(pending, r). length (fst r))") (auto dest: read_frame_shrinks)

declare read_packet_loop.simps [simp del]

definition read_packet :: "reader \<Rightarrow> (DrpcError, Packet \<times> reader) result" where
  "read_packet r = read_packet_loop reassembler_new r"

section \<open>Varints\<close>

lemma bit_0x80: "bit (0x80 :: nat) n \<longleftrightarrow> n = 7" "bit (0x80 :: int) n \<longleftrightarrow> n = 7"
proof -
  have "(0x80 :: nat) = 2 ^ 7" "(0x80 :: int) = 2 ^ 7" by simp_all
  then show "bit (0x80 :: nat) n \<longleftrightarrow> n = 7" "bit (0x80 :: int) n \<longleftrightarrow> n = 7"
    by (simp_all only: bit_exp_iff) auto
qed

lemma mask_7: "(0x7f :: byte) = mask 7" "(0x7f :: u64) = mask 7"
  by (simp_all add: mask_eq_exp_minus_1)

lemma byte_payload: "ucast (((ucast (v :: u64) AND 0x7f) OR 0x80) AND (0x7f :: byte)) = v AND (0x7f :: u64)"
  unfolding mask_7 by (rule bit_word_eqI) (auto simp: bit_simps bit_0x80)

lemma byte_continue: "((ucast (v :: u64) AND 0x7f) OR 0x80) AND (0x80 :: byte) \<noteq> 0"
proof -
  have "bit (((ucast (v :: u64) AND 0x7f) OR 0x80) AND (0x80 :: byte)) 7"
    by (simp add: bit_simps bit_0x80)
  then show ?thesis by auto
qed

lemma byte_last:
  assumes "v < (0x80 :: u64)"
  shows "ucast (ucast v AND (0x7f :: byte)) = v" and "ucast v AND (0x80 :: byte) = 0"
proof -
  have "unat (take_bit 7 v) = unat v"
    using assms by (simp add: unsigned_take_bit_eq take_bit_nat_eq_self_iff word_less_nat_alt)
  then have "take_bit 7 v = v" by (simp add: word_unat_eq_iff)
  then have b: "\<not> bit v n" if "7 \<le> n" for n
    using that by (metis bit_take_bit_iff not_le)
  then have c: "n < 7" if "bit v n" for n
    using that not_le by blast
  show "ucast (ucast v AND (0x7f :: byte)) = v"
    unfolding mask_7 by (rule bit_word_eqI) (auto simp: bit_simps dest: c)
  show "ucast v AND (0x80 :: byte) = 0"
    by (rule bit_word_eqI) (auto simp: bit_simps bit_0x80 b)
qed

lemma varint_split:
  "push_bit s (v AND (0x7f :: u64)) OR push_bit (s + 7) (drop_bit 7 v) = push_bit s v"
  unfolding mask_7
proof (rule bit_word_eqI)
  fix n assume "n < LENGTH(64)"
  then show "bit (push_bit s (v AND mask 7) OR push_bit (s + 7) (drop_bit 7 v)) n = bit (push_bit s v) n"
    by (cases "s + 7 \<le> n") (auto simp: bit_simps)
qed

lemma read_varint_loop_encode:
  "length (encode_varint v) \<le> n \<Longrightarrow>
   read_varint_loop n s acc (encode_varint v @ rest, e) = Ok (acc OR push_bit s v, rest, e)"
proof (induction v arbitrary: n s acc rule: encode_varint.induct)
  case (1 v)
  then obtain m where n: "n = Suc m" by (cases n) (simp_all add: encode_varint.simps [of v] split: if_splits)
  show ?case
  proof (cases "v < 0x80")
    case True
    then show ?thesis by (simp add: n encode_varint.simps [of v] byte_last)
  next
    case False
    let ?w = "drop_bit 7 v"
    have "length (encode_varint ?w) \<le> m"
      using "1.prems" False by (simp add: n encode_varint.simps [of v])
    from "1.IH" [OF False this, of "s + 7" "acc OR push_bit s (v AND 0x7f)"] False
    show ?thesis
      by (simp add: n encode_varint.simps [of v] byte_payload byte_continue or.assoc varint_split
          del: push_bit_and)
  qed
qed

lemma encode_varint_length: "unat v < 2 ^ (7 * Suc n) \<Longrightarrow> length (encode_varint v) \<le> Suc n"
proof (induction n arbitrary: v)
  case 0
  then show ?case by (simp add: encode_varint.simps [of v] word_less_nat_alt)
next
  case (Suc n)
  have "unat (drop_bit 7 v) = unat v div 128" by (simp add: drop_bit_eq_div unat_div)
  also have "\<dots> < 2 ^ (7 * Suc n)"
    using Suc.prems by (simp add: less_mult_imp_div_less power_add)
  finally show ?case using Suc.IH [of "drop_bit 7 v"] by (simp add: encode_varint.simps [of v])
qed

lemma encode_varint_max: "length (encode_varint v) \<le> MAX_VARINT_LEN"
proof -
  have "unat v < 2 ^ 64" by (rule unat_u64)
  then have "unat v < 2 ^ (7 * Suc 9)" by simp
  from encode_varint_length [OF this] show ?thesis by (simp add: MAX_VARINT_LEN_def)
qed

interpretation varint: prefix_codec encode_varint read_varint "\<lambda>v. True"
  by unfold_locales (simp add: read_varint_def read_varint_loop_encode encode_varint_max)

section \<open>Frames\<close>

definition frame_ok :: "Frame \<Rightarrow> bool" where
  "frame_ok f \<longleftrightarrow> length (fr_data f) \<le> MAX_PACKET_SIZE"

definition packet_ok :: "Packet \<Rightarrow> bool" where
  "packet_ok p \<longleftrightarrow> length (pk_data p) \<le> MAX_PACKET_SIZE"

lemma from_to_u8: "from_u8 (to_u8 k) = Ok k"
  by (cases k) (simp_all add: from_u8_def)

lemma from_u8_Ok: "from_u8 v = Ok k \<longleftrightarrow> v = to_u8 k"
  by (cases k) (auto simp: from_u8_def split: if_splits)

lemma header_kind: "drop_bit 1 (frame_header f AND 0x7e) = to_u8 (fr_kind f)"
  by (cases "fr_kind f"; cases "fr_done f"; simp add: frame_header_def)

lemma header_done: "frame_header f AND 0x01 \<noteq> 0 \<longleftrightarrow> fr_done f"
  by (cases "fr_kind f"; cases "fr_done f"; simp add: frame_header_def)

lemma unat_frame_length: "n \<le> MAX_PACKET_SIZE \<Longrightarrow> unat (of_nat n :: u64) = n"
  by (simp add: MAX_PACKET_SIZE_def unat_of_nat)

lemma frame_length_fits: "n \<le> MAX_PACKET_SIZE \<Longrightarrow> \<not> (of_nat MAX_PACKET_SIZE :: u64) < of_nat n"
  by (simp add: word_less_nat_alt unat_frame_length)

lemma read_frame_write:
  assumes "frame_ok f"
  shows "read_frame (write_frame f @ rest, e) = Ok (f, rest, e)"
proof -
  have n: "length (fr_data f) \<le> MAX_PACKET_SIZE" using assms by (simp add: frame_ok_def)
  show ?thesis
    using header_kind [of f] header_done [of f]
    by (simp add: read_frame_def write_frame_def from_to_u8
        varint.decode_encode frame_length_fits [OF n] unat_frame_length [OF n])
qed

interpretation frame: prefix_codec write_frame read_frame frame_ok
  by unfold_locales (rule read_frame_write)

lemma push_whole:
  assumes "hm_get pending (id_stream i) = None" and "length d \<le> MAX_PACKET_SIZE"
  shows "snd (push \<lparr> fr_kind = k, fr_id = i, fr_data = d, fr_done = True \<rparr> pending) =
    Ok (Some \<lparr> pk_kind = k, pk_id = i, pk_data = d \<rparr>)"
  using assms by (simp add: push_def Let_def)

lemma read_packet_write:
  assumes "packet_ok p"
  shows "read_packet (write_packet p @ rest, e) = Ok (p, rest, e)"
proof -
  let ?f = "\<lparr> fr_kind = pk_kind p, fr_id = pk_id p, fr_data = pk_data p, fr_done = True \<rparr>"
  have "read_frame (write_packet p @ rest, e) = Ok (?f, rest, e)"
    unfolding write_packet_def using assms by (intro read_frame_write) (simp add: frame_ok_def packet_ok_def)
  moreover have "snd (push ?f reassembler_new) = Ok (Some p)"
    using assms push_whole [of reassembler_new "pk_id p" "pk_data p" "pk_kind p"]
    by (simp add: packet_ok_def reassembler_new_def)
  ultimately show ?thesis
    by (cases "push ?f reassembler_new")
      (simp add: read_packet_def read_packet_loop.simps [of reassembler_new])
qed

interpretation packet: prefix_codec write_packet read_packet packet_ok
  by unfold_locales (rule read_packet_write)

section \<open>Fragmented packets\<close>

text \<open>A packet sent in pieces: every frame but the last has \<open>done\<close> unset.\<close>

fun fragment :: "Kind \<Rightarrow> PacketId \<Rightarrow> byte list list \<Rightarrow> Frame list" where
  "fragment k i [] = []"
| "fragment k i (c # cs) =
     \<lparr> fr_kind = k, fr_id = i, fr_data = c, fr_done = (cs = []) \<rparr> # fragment k i cs"

lemma push_more:
  assumes "hm_wf pending"
    and "hm_get pending (id_stream i) = Some \<lparr> pp_kind = k, pp_id = i, pp_data = d \<rparr>"
    and "\<not> aborts k" and "length d + length c \<le> MAX_PACKET_SIZE"
  shows "push \<lparr> fr_kind = k, fr_id = i, fr_data = c, fr_done = done' \<rparr> pending =
    (if done' then (hm_remove (id_stream i) pending, Ok (Some \<lparr> pk_kind = k, pk_id = i, pk_data = d @ c \<rparr>))
     else (hm_insert (id_stream i) \<lparr> pp_kind = k, pp_id = i, pp_data = d @ c \<rparr>
             (hm_remove (id_stream i) pending), Ok None))"
  using assms by (simp add: push_def Let_def)

lemma read_fragments:
  assumes "hm_wf pending" and "cs \<noteq> []" and "\<not> aborts k"
    and "hm_get pending (id_stream i) = Some \<lparr> pp_kind = k, pp_id = i, pp_data = d \<rparr>"
    and "length d + length (concat cs) \<le> MAX_PACKET_SIZE"
  shows "read_packet_loop pending (concat (map write_frame (fragment k i cs)) @ rest, e) =
    Ok (\<lparr> pk_kind = k, pk_id = i, pk_data = d @ concat cs \<rparr>, rest, e)"
  using assms
proof (induction cs arbitrary: pending d)
  case Nil
  then show ?case by simp
next
  case (Cons c cs)
  let ?f = "\<lparr> fr_kind = k, fr_id = i, fr_data = c, fr_done = (cs = []) \<rparr>"
  let ?tail = "concat (map write_frame (fragment k i cs)) @ rest"
  have read: "read_frame (write_frame ?f @ ?tail, e) = Ok (?f, ?tail, e)"
    using Cons.prems(5) by (intro read_frame_write) (simp add: frame_ok_def)
  note push = push_more [OF Cons.prems(1,4,3), of c "cs = []"]
  show ?case
  proof (cases "cs = []")
    case True
    with read push Cons.prems(5) show ?thesis by (simp add: read_packet_loop.simps [of pending])
  next
    case False
    let ?p = "hm_insert (id_stream i) \<lparr> pp_kind = k, pp_id = i, pp_data = d @ c \<rparr>
      (hm_remove (id_stream i) pending)"
    have "read_packet_loop ?p (?tail, e) =
        Ok (\<lparr> pk_kind = k, pk_id = i, pk_data = (d @ c) @ concat cs \<rparr>, rest, e)"
      using Cons.prems False
      by (intro Cons.IH) (simp_all add: hm.wf_insert hm.wf_remove)
    with read push Cons.prems(5) False show ?thesis
      by (simp add: read_packet_loop.simps [of pending])
  qed
qed

section \<open>The reassembler's invariant\<close>

definition reassembler_inv :: "PacketReassembler \<Rightarrow> bool" where
  "reassembler_inv p \<longleftrightarrow> hm_wf p \<and>
     (\<forall>s part. hm_get p s = Some part \<longrightarrow>
        id_stream (pp_id part) = s \<and> length (pp_data part) \<le> MAX_PACKET_SIZE \<and>
        \<not> aborts (pp_kind part))"

inductive reassembler_step :: "PacketReassembler \<Rightarrow> PacketReassembler \<Rightarrow> bool" where
  rs_push: "reassembler_step p (fst (push f p))"
| rs_clear: "reassembler_step p (clear_stream s p)"

lemma reassembler_inv_push: "reassembler_inv p \<Longrightarrow> reassembler_inv (fst (push f p))"
  by (auto simp: reassembler_inv_def push_def Let_def hm.wf_insert hm.wf_remove hm.get_insert
      hm.get_remove split: option.splits if_splits)

lemma reassembler_inv_clear: "reassembler_inv p \<Longrightarrow> reassembler_inv (clear_stream s p)"
  by (auto simp: reassembler_inv_def clear_stream_def hm.wf_remove hm.get_remove split: if_splits)

interpretation reassembler: transition_invariant "\<lambda>p. p = reassembler_new" reassembler_step
    reassembler_inv
proof unfold_locales
  show "p = reassembler_new \<Longrightarrow> reassembler_inv p" for p
    by (simp add: reassembler_inv_def reassembler_new_def hm.wf_empty)
  show "reassembler_inv p \<Longrightarrow> reassembler_step p q \<Longrightarrow> reassembler_inv q" for p q
    by (auto elim!: reassembler_step.cases intro: reassembler_inv_push reassembler_inv_clear)
qed

section \<open>Streams do not interfere\<close>

definition frame_stream :: "Frame \<Rightarrow> u64" where
  "frame_stream f = id_stream (fr_id f)"

text \<open>The results of feeding frames to a reassembler, each with the stream of its frame.\<close>

fun feed :: "Frame list \<Rightarrow> PacketReassembler \<Rightarrow> (u64 \<times> (DrpcError, Packet option) result) list" where
  "feed [] p = []"
| "feed (f # fs) p = (case push f p of (p', r) \<Rightarrow> (frame_stream f, r) # feed fs p')"

lemma push_other_stream:
  "hm_wf p \<Longrightarrow> s \<noteq> frame_stream f \<Longrightarrow> hm_get (fst (push f p)) s = hm_get p s"
  by (auto simp: push_def Let_def frame_stream_def hm.get_insert hm.get_remove hm.wf_remove
      split: option.splits)

lemma push_same_stream:
  assumes "hm_wf p" and "hm_wf q" and "hm_get p (frame_stream f) = hm_get q (frame_stream f)"
  shows "snd (push f p) = snd (push f q)"
    and "hm_get (fst (push f p)) (frame_stream f) = hm_get (fst (push f q)) (frame_stream f)"
  using assms
  by (auto simp: push_def Let_def frame_stream_def hm.get_insert hm.get_remove hm.wf_remove
      split: option.splits)

lemma push_wf: "hm_wf p \<Longrightarrow> hm_wf (fst (push f p))"
  by (auto simp: push_def Let_def hm.wf_insert hm.wf_remove split: option.splits)

lemma feed_stream:
  assumes "hm_wf p" and "hm_wf q" and "hm_get p s = hm_get q s"
  shows "filter (\<lambda>(t, r). t = s) (feed fs p) = feed (filter (\<lambda>f. frame_stream f = s) fs) q"
  using assms
proof (induction fs arbitrary: p q)
  case Nil
  then show ?case by simp
next
  case (Cons f fs)
  note wf = push_wf [OF Cons.prems(1), of f] push_wf [OF Cons.prems(2), of f]
  show ?case
  proof (cases "frame_stream f = s")
    case True
    with Cons.prems have same: "snd (push f p) = snd (push f q)"
      "hm_get (fst (push f p)) s = hm_get (fst (push f q)) s"
      using push_same_stream [OF Cons.prems(1,2), of f] by simp_all
    from Cons.IH [OF wf same(2)] True same(1) show ?thesis by (simp add: case_prod_unfold)
  next
    case False
    then have "hm_get (fst (push f p)) s = hm_get q s"
      using push_other_stream [OF Cons.prems(1)] Cons.prems(3) by simp
    from Cons.IH [OF wf(1) Cons.prems(2) this] False show ?thesis by (simp add: case_prod_unfold)
  qed
qed

lemma push_packet_bound:
  assumes "reassembler_inv p" and "frame_ok f" and "snd (push f p) = Ok (Some packet)"
  shows "packet_ok packet \<and> id_stream (pk_id packet) = frame_stream f \<and> pk_kind packet = fr_kind f"
  using assms
  by (auto simp: push_def Let_def reassembler_inv_def frame_ok_def packet_ok_def frame_stream_def
      split: option.splits if_splits)

text \<open>Frames written one after the other are read back one after the other.\<close>

lemmas frames_read_back = frame.decode_many_concat

section \<open>Properties\<close>

text \<open>
  Every 64-bit number is encoded in at most ten bytes, and reading it back from the front of any
  stream gives the number and exactly the bytes after it.
\<close>

theorem varint_roundtrip:
  "length (encode_varint v) \<le> MAX_VARINT_LEN \<and>
   read_varint (encode_varint v @ rest, e) = Ok (v, rest, e)"
  by (simp add: encode_varint_max varint.decode_encode)



text \<open>
  Whatever frames and stream resets a reassembler has seen, each buffered partial packet belongs
  to the stream it is filed under and holds at most the maximum packet size, and a packet delivered
  for a frame within the limit is within the limit, of the frame's stream and of the frame's kind.
\<close>

theorem reassembler_bounded:
  assumes "reachable (\<lambda>p. p = reassembler_new) reassembler_step p"
  shows "reassembler_inv p \<and>
    (\<forall>f packet. frame_ok f \<and> snd (push f p) = Ok (Some packet) \<longrightarrow>
       packet_ok packet \<and> id_stream (pk_id packet) = frame_stream f \<and> pk_kind packet = fr_kind f)"
  using reassembler.reachable_inv [OF assms] push_packet_bound by blast

theorem reassembler_bounded_witness:
  "packet_ok \<lparr> pk_kind = Message, pk_id = \<lparr> id_stream = 1, id_message = 1 \<rparr>, pk_data = [5] \<rparr>"
proof -
  let ?f = "\<lparr> fr_kind = Message, fr_id = \<lparr> id_stream = 1, id_message = 1 \<rparr>, fr_data = [5],
             fr_done = True \<rparr>"
  have "reachable (\<lambda>p. p = reassembler_new) reassembler_step reassembler_new"
    by (rule reach_init) simp
  note reassembler_bounded [OF this]
  moreover have "frame_ok ?f" by (simp add: frame_ok_def MAX_PACKET_SIZE_def)
  moreover have "snd (push ?f reassembler_new) =
      Ok (Some \<lparr> pk_kind = Message, pk_id = \<lparr> id_stream = 1, id_message = 1 \<rparr>, pk_data = [5] \<rparr>)"
    by (intro push_whole) (simp_all add: reassembler_new_def MAX_PACKET_SIZE_def)
  ultimately show ?thesis by blast
qed

text \<open>
  Streams multiplexed on one connection do not interfere: for any interleaving of frames, the
  packets and errors of one stream are exactly those of feeding that stream's frames alone to a new
  reassembler.
\<close>

theorem streams_independent:
  "filter (\<lambda>(t, r). t = s) (feed fs reassembler_new) =
   feed (filter (\<lambda>f. frame_stream f = s) fs) reassembler_new"
  by (rule feed_stream) (simp_all add: reassembler_new_def hm.wf_empty)

end
