(* ===== verification/License_Features.thy ===== *)
theory License_Features
  imports Prelude "HOL-Library.Option_ord" "HOL-Library.Product_Lexorder" "HOL-Library.Multiset"
begin

text \<open>
  Enterprise features and entitlements: \<open>crates/coder-license/src/features.rs\<close> and
  \<open>crates/coder-license/src/entitlements.rs\<close>. The names a license may use for a feature are those
  serde derives from the enumeration (\<open>snake_case\<close> of the variant unless it is renamed); they are
  computed here and shown to agree with \<open>as_str\<close>.
\<close>

section \<open>Merging by rank\<close>

text \<open>
  Values that are replaced only by values of higher rank. When the rank determines the value, the
  result of merging does not depend on the order.
\<close>

locale ranked_merge =
  fixes rank :: "'a \<Rightarrow> 'r::linorder"
    and merge :: "'a \<Rightarrow> 'a \<Rightarrow> 'a"
    and dom_ok :: "'a \<Rightarrow> bool"
  assumes merge_rank: "merge old new = (if rank old < rank new then new else old)"
    and rank_determines: "dom_ok a \<Longrightarrow> dom_ok b \<Longrightarrow> rank a = rank b \<Longrightarrow> a = b"
begin

lemma fold_merge_in: "fold (\<lambda>new old. merge old new) xs x \<in> set (x # xs)"
  by (induction xs arbitrary: x) (auto simp: merge_rank)

lemma fold_merge_ge: "y \<in> set (x # xs) \<Longrightarrow> rank y \<le> rank (fold (\<lambda>new old. merge old new) xs x)"
proof (induction xs arbitrary: x y)
  case Nil
  then show ?case by simp
next
  case (Cons a xs)
  have "rank x \<le> rank (merge x a)" "rank a \<le> rank (merge x a)" by (auto simp: merge_rank)
  with Cons.IH [of "merge x a" "merge x a"] Cons.prems Cons.IH [of y "merge x a"] show ?case
    by (fastforce intro: order_trans)
qed

lemma fold_merge_unique:
  assumes "z \<in> set (x # xs)" and "\<forall>y\<in>set (x # xs). rank y \<le> rank z"
    and "\<forall>y\<in>set (x # xs). dom_ok y"
  shows "fold (\<lambda>new old. merge old new) xs x = z"
  using assms fold_merge_in [of xs x] fold_merge_ge [OF assms(1)]
  by (intro rank_determines) (auto intro: antisym)

lemma fold_merge_perm:
  assumes "set xs = set ys" and "\<forall>y\<in>set (x # xs). dom_ok y"
  shows "fold (\<lambda>new old. merge old new) xs x = fold (\<lambda>new old. merge old new) ys x"
  using fold_merge_in [of ys x] fold_merge_ge [of _ x ys] assms
  by (intro fold_merge_unique) auto

end

section \<open>Feature names\<close>

datatype FeatureName =
    UserLimit | AuditLog | ConnectionLog | BrowserOnly | Scim | TemplateRbac |
    UserRoleManagement | HighAvailability | MultipleExternalAuth | ExternalProvisionerDaemons |
    Appearance | AdvancedTemplateScheduling | WorkspaceProxy | ExternalTokenEncryption |
    WorkspaceBatchActions | TaskBatchActions | AccessControl | ControlSharedPorts |
    CustomRoles | MultipleOrganizations | WorkspacePrebuilds | ManagedAgentLimit |
    WorkspaceExternalAgent | AiBridge | Boundary | AiGovernanceUserLimit

definition ALL_FEATURE_NAMES :: "FeatureName list" where
  "ALL_FEATURE_NAMES =
     [UserLimit, AuditLog, ConnectionLog, BrowserOnly, Scim, TemplateRbac, HighAvailability,
      MultipleExternalAuth, ExternalProvisionerDaemons, Appearance, AdvancedTemplateScheduling,
      WorkspaceProxy, UserRoleManagement, ExternalTokenEncryption, WorkspaceBatchActions,
      TaskBatchActions, AccessControl, ControlSharedPorts, CustomRoles, MultipleOrganizations,
      WorkspacePrebuilds, ManagedAgentLimit, WorkspaceExternalAgent, AiBridge, Boundary,
      AiGovernanceUserLimit]"

fun feature_as_str :: "FeatureName \<Rightarrow> string" where
  "feature_as_str UserLimit = ''user_limit''"
| "feature_as_str AuditLog = ''audit_log''"
| "feature_as_str ConnectionLog = ''connection_log''"
| "feature_as_str BrowserOnly = ''browser_only''"
| "feature_as_str Scim = ''scim''"
| "feature_as_str TemplateRbac = ''template_rbac''"
| "feature_as_str UserRoleManagement = ''user_role_management''"
| "feature_as_str HighAvailability = ''high_availability''"
| "feature_as_str MultipleExternalAuth = ''multiple_external_auth''"
| "feature_as_str ExternalProvisionerDaemons = ''external_provisioner_daemons''"
| "feature_as_str Appearance = ''appearance''"
| "feature_as_str AdvancedTemplateScheduling = ''advanced_template_scheduling''"
| "feature_as_str WorkspaceProxy = ''workspace_proxy''"
| "feature_as_str ExternalTokenEncryption = ''external_token_encryption''"
| "feature_as_str WorkspaceBatchActions = ''workspace_batch_actions''"
| "feature_as_str TaskBatchActions = ''task_batch_actions''"
| "feature_as_str AccessControl = ''access_control''"
| "feature_as_str ControlSharedPorts = ''control_shared_ports''"
| "feature_as_str CustomRoles = ''custom_roles''"
| "feature_as_str MultipleOrganizations = ''multiple_organizations''"
| "feature_as_str WorkspacePrebuilds = ''workspace_prebuilds''"
| "feature_as_str ManagedAgentLimit = ''managed_agent_limit''"
| "feature_as_str WorkspaceExternalAgent = ''workspace_external_agent''"
| "feature_as_str AiBridge = ''aibridge''"
| "feature_as_str Boundary = ''boundary''"
| "feature_as_str AiGovernanceUserLimit = ''ai_governance_user_limit''"

fun humanize :: "FeatureName \<Rightarrow> string" where
  "humanize UserLimit = ''User Limit''"
| "humanize AuditLog = ''Audit Log''"
| "humanize ConnectionLog = ''Connection Log''"
| "humanize BrowserOnly = ''Browser Only''"
| "humanize Scim = ''SCIM''"
| "humanize TemplateRbac = ''Template RBAC''"
| "humanize UserRoleManagement = ''User Role Management''"
| "humanize HighAvailability = ''High Availability''"
| "humanize MultipleExternalAuth = ''Multiple External Auth''"
| "humanize ExternalProvisionerDaemons = ''External Provisioner Daemons''"
| "humanize Appearance = ''Appearance''"
| "humanize AdvancedTemplateScheduling = ''Advanced Template Scheduling''"
| "humanize WorkspaceProxy = ''Workspace Proxy''"
| "humanize ExternalTokenEncryption = ''External Token Encryption''"
| "humanize WorkspaceBatchActions = ''Workspace Batch Actions''"
| "humanize TaskBatchActions = ''Task Batch Actions''"
| "humanize AccessControl = ''Access Control''"
| "humanize ControlSharedPorts = ''Control Shared Ports''"
| "humanize CustomRoles = ''Custom Roles''"
| "humanize MultipleOrganizations = ''Multiple Organizations''"
| "humanize WorkspacePrebuilds = ''Workspace Prebuilds''"
| "humanize ManagedAgentLimit = ''Managed Agent Limit''"
| "humanize WorkspaceExternalAgent = ''Workspace External Agent''"
| "humanize AiBridge = ''AI Bridge''"
| "humanize Boundary = ''Boundary''"
| "humanize AiGovernanceUserLimit = ''AI Governance User Limit''"

definition always_enable :: "FeatureName \<Rightarrow> bool" where
  "always_enable f \<longleftrightarrow>
     f \<in> {MultipleExternalAuth, ExternalProvisionerDaemons, Appearance, WorkspaceBatchActions,
          TaskBatchActions, HighAvailability, CustomRoles, MultipleOrganizations,
          WorkspacePrebuilds, WorkspaceExternalAgent, Boundary}"

definition uses_limit :: "FeatureName \<Rightarrow> bool" where
  "uses_limit f \<longleftrightarrow> f \<in> {UserLimit, ManagedAgentLimit, AiGovernanceUserLimit}"

definition is_enterprise :: "FeatureName \<Rightarrow> bool" where
  "is_enterprise f \<longleftrightarrow> f \<notin> {MultipleOrganizations, CustomRoles}"

text \<open>
  The names serde reads: \<open>rename_all = "snake_case"\<close> puts an underscore before every upper-case
  letter but the first and folds the case; two variants carry a \<open>rename\<close> of their own.
\<close>

fun variant_ident :: "FeatureName \<Rightarrow> string" where
  "variant_ident UserLimit = ''UserLimit''"
| "variant_ident AuditLog = ''AuditLog''"
| "variant_ident ConnectionLog = ''ConnectionLog''"
| "variant_ident BrowserOnly = ''BrowserOnly''"
| "variant_ident Scim = ''Scim''"
| "variant_ident TemplateRbac = ''TemplateRbac''"
| "variant_ident UserRoleManagement = ''UserRoleManagement''"
| "variant_ident HighAvailability = ''HighAvailability''"
| "variant_ident MultipleExternalAuth = ''MultipleExternalAuth''"
| "variant_ident ExternalProvisionerDaemons = ''ExternalProvisionerDaemons''"
| "variant_ident Appearance = ''Appearance''"
| "variant_ident AdvancedTemplateScheduling = ''AdvancedTemplateScheduling''"
| "variant_ident WorkspaceProxy = ''WorkspaceProxy''"
| "variant_ident ExternalTokenEncryption = ''ExternalTokenEncryption''"
| "variant_ident WorkspaceBatchActions = ''WorkspaceBatchActions''"
| "variant_ident TaskBatchActions = ''TaskBatchActions''"
| "variant_ident AccessControl = ''AccessControl''"
| "variant_ident ControlSharedPorts = ''ControlSharedPorts''"
| "variant_ident CustomRoles = ''CustomRoles''"
| "variant_ident MultipleOrganizations = ''MultipleOrganizations''"
| "variant_ident WorkspacePrebuilds = ''WorkspacePrebuilds''"
| "variant_ident ManagedAgentLimit = ''ManagedAgentLimit''"
| "variant_ident WorkspaceExternalAgent = ''WorkspaceExternalAgent''"
| "variant_ident AiBridge = ''AiBridge''"
| "variant_ident Boundary = ''Boundary''"
| "variant_ident AiGovernanceUserLimit = ''AiGovernanceUserLimit''"

definition snake_case :: "string \<Rightarrow> string" where
  "snake_case s =
     (let up = (\<lambda>c. (65 :: nat) \<le> of_char c \<and> of_char c \<le> (90 :: nat))
      in concat (map (\<lambda>(i, c). if up c \<and> 0 < i then [CHR ''_'', ascii_lower c] else [ascii_lower c])
           (enumerate 0 s)))"

definition serde_name :: "FeatureName \<Rightarrow> string" where
  "serde_name f =
     (case f of Scim \<Rightarrow> ''scim'' | AiBridge \<Rightarrow> ''aibridge'' | _ \<Rightarrow> snake_case (variant_ident f))"

definition all_variants :: "FeatureName list" where
  "all_variants =
     [UserLimit, AuditLog, ConnectionLog, BrowserOnly, Scim, TemplateRbac, UserRoleManagement,
      HighAvailability, MultipleExternalAuth, ExternalProvisionerDaemons, Appearance,
      AdvancedTemplateScheduling, WorkspaceProxy, ExternalTokenEncryption,
      WorkspaceBatchActions, TaskBatchActions, AccessControl, ControlSharedPorts, CustomRoles,
      MultipleOrganizations, WorkspacePrebuilds, ManagedAgentLimit, WorkspaceExternalAgent,
      AiBridge, Boundary, AiGovernanceUserLimit]"

definition parse_feature_name :: "string \<Rightarrow> FeatureName option" where
  "parse_feature_name s = List.find (\<lambda>f. serde_name f = s) all_variants"

lemma set_all_variants: "set all_variants = UNIV"
proof -
  have "f \<in> set all_variants" for f by (cases f) (simp_all add: all_variants_def)
  then show ?thesis by auto
qed

lemma set_ALL_FEATURE_NAMES: "set ALL_FEATURE_NAMES = UNIV"
proof -
  have "f \<in> set ALL_FEATURE_NAMES" for f by (cases f) (simp_all add: ALL_FEATURE_NAMES_def)
  then show ?thesis by auto
qed

lemma feature_names_distinct: "distinct (map feature_as_str all_variants)"
  by code_simp

lemma feature_as_str_inj: "feature_as_str a = feature_as_str b \<longleftrightarrow> a = b"
  using feature_names_distinct set_all_variants by (auto simp: distinct_map inj_on_def)

lemma serde_names: "map serde_name all_variants = map feature_as_str all_variants"
  by code_simp

lemma serde_name_as_str: "serde_name f = feature_as_str f"
  using serde_names set_all_variants by (auto simp: map_eq_conv)

lemma parse_feature_name_Some: "parse_feature_name s = Some f \<longleftrightarrow> s = feature_as_str f"
proof
  assume "parse_feature_name s = Some f"
  then show "s = feature_as_str f"
    by (auto simp: parse_feature_name_def find_Some_iff serde_name_as_str)
next
  assume s: "s = feature_as_str f"
  then have "parse_feature_name s \<noteq> None"
    by (auto simp: parse_feature_name_def find_None_iff serde_name_as_str set_all_variants)
  then obtain g where "parse_feature_name s = Some g" by blast
  moreover then have "s = feature_as_str g"
    by (auto simp: parse_feature_name_def find_Some_iff serde_name_as_str)
  ultimately show "parse_feature_name s = Some f" using s by (simp add: feature_as_str_inj)
qed

section \<open>Entitlements\<close>

datatype Entitlement = Entitled | GracePeriod | NotEntitled

definition entitlement_is_entitled :: "Entitlement \<Rightarrow> bool" where
  "entitlement_is_entitled e \<longleftrightarrow> e = Entitled \<or> e = GracePeriod"

fun weight :: "Entitlement \<Rightarrow> int" where
  "weight Entitled = 2"
| "weight GracePeriod = 1"
| "weight NotEntitled = - 1"

lemma weight_inj: "weight a = weight b \<longleftrightarrow> a = b"
  by (cases a; cases b) simp_all

text \<open>Entitlements are ordered by their weight.\<close>

instantiation Entitlement :: linorder
begin

definition less_eq_Entitlement :: "Entitlement \<Rightarrow> Entitlement \<Rightarrow> bool" where
  "a \<le> b \<longleftrightarrow> weight a \<le> weight b"

definition less_Entitlement :: "Entitlement \<Rightarrow> Entitlement \<Rightarrow> bool" where
  "a < b \<longleftrightarrow> weight a < weight b"

instance
  by standard (auto simp: less_eq_Entitlement_def less_Entitlement_def weight_inj)

end

record Feature =
  ft_entitlement :: Entitlement
  ft_enabled :: bool
  ft_limit :: "int option"
  ft_actual :: "int option"

definition capable :: "Feature \<Rightarrow> bool" where
  "capable f =
     (case (ft_limit f, ft_actual f) of (Some l, Some a) \<Rightarrow> a \<le> l | _ \<Rightarrow> True)"

record Entitlements =
  en_features :: "(string, Feature) hash_map"
  en_warnings :: "string list"
  en_errors :: "string list"
  en_has_license :: bool
  en_trial :: bool
  en_require_telemetry :: bool
  en_refreshed_at :: int

definition unlicensed_feature :: Feature where
  "unlicensed_feature =
     \<lparr> ft_entitlement = NotEntitled, ft_enabled = False, ft_limit = None, ft_actual = None \<rparr>"

definition new_unlicensed :: Entitlements where
  "new_unlicensed =
     \<lparr> en_features =
         fold (\<lambda>name features. hm_insert (feature_as_str name) unlicensed_feature features)
           ALL_FEATURE_NAMES hm_empty,
       en_warnings = [], en_errors = [], en_has_license = False, en_trial = False,
       en_require_telemetry = False, en_refreshed_at = 0 \<rparr>"

text \<open>The test of \<open>add_feature\<close>, whose variable is called \<open>dominated\<close>.\<close>

definition dominated :: "Feature \<Rightarrow> Feature \<Rightarrow> bool" where
  "dominated old new =
     (let ew = weight (ft_entitlement old); nw = weight (ft_entitlement new) in
      if nw \<noteq> ew then ew < nw
      else if ft_limit old \<noteq> ft_limit new then
        (case (ft_limit old, ft_limit new) of
           (None, Some _) \<Rightarrow> True
         | (Some _, None) \<Rightarrow> False
         | (Some o', Some n) \<Rightarrow> o' < n
         | _ \<Rightarrow> False)
      else \<not> ft_enabled old \<and> ft_enabled new)"

definition add_feature :: "FeatureName \<Rightarrow> Feature \<Rightarrow> Entitlements \<Rightarrow> Entitlements" where
  "add_feature name new ents =
     (let key = feature_as_str name;
          dom = (case hm_get (en_features ents) key of None \<Rightarrow> True | Some old \<Rightarrow> dominated old new)
      in if dom then ents \<lparr> en_features := hm_insert key new (en_features ents) \<rparr> else ents)"

section \<open>The shared entitlement set\<close>

text \<open>An \<open>RwLock\<close>: its content and whether a writer panicked while holding it.\<close>

record EntitlementSet =
  es_inner :: Entitlements
  es_poisoned :: bool

definition entitlement_set_new :: EntitlementSet where
  "entitlement_set_new = \<lparr> es_inner = new_unlicensed, es_poisoned = False \<rparr>"

definition rw_read :: "EntitlementSet \<Rightarrow> Entitlements option" where
  "rw_read s = (if es_poisoned s then None else Some (es_inner s))"

definition set_enabled :: "EntitlementSet \<Rightarrow> FeatureName \<Rightarrow> bool" where
  "set_enabled s feature =
     (case rw_read s of None \<Rightarrow> False
      | Some g \<Rightarrow> (case hm_get (en_features g) (feature_as_str feature) of
           None \<Rightarrow> False | Some f \<Rightarrow> ft_enabled f))"

definition set_is_entitled :: "EntitlementSet \<Rightarrow> FeatureName \<Rightarrow> bool" where
  "set_is_entitled s feature =
     (case rw_read s of None \<Rightarrow> False
      | Some g \<Rightarrow> (case hm_get (en_features g) (feature_as_str feature) of
           None \<Rightarrow> False | Some f \<Rightarrow> entitlement_is_entitled (ft_entitlement f)))"

definition set_has_license :: "EntitlementSet \<Rightarrow> bool" where
  "set_has_license s = (case rw_read s of None \<Rightarrow> False | Some g \<Rightarrow> en_has_license g)"

definition snapshot :: "EntitlementSet \<Rightarrow> Entitlements" where
  "snapshot s = (case rw_read s of None \<Rightarrow> new_unlicensed | Some g \<Rightarrow> g)"

definition set_warnings :: "EntitlementSet \<Rightarrow> string list" where
  "set_warnings s = (case rw_read s of None \<Rightarrow> [] | Some g \<Rightarrow> en_warnings g)"

definition set_errors :: "EntitlementSet \<Rightarrow> string list" where
  "set_errors s = (case rw_read s of None \<Rightarrow> [] | Some g \<Rightarrow> en_errors g)"

definition set_update :: "Entitlements \<Rightarrow> EntitlementSet \<Rightarrow> EntitlementSet" where
  "set_update ents s = (if es_poisoned s then s else s \<lparr> es_inner := ents \<rparr>)"

section \<open>Merging features\<close>

text \<open>
  The rank of a feature: entitlement first, then the limit (none lowest), then whether it is
  enabled. \<open>merge_feature\<close> is the effect of \<open>add_feature\<close> on one entry.
\<close>

definition feature_rank :: "Feature \<Rightarrow> Entitlement \<times> int option \<times> bool" where
  "feature_rank f = (ft_entitlement f, ft_limit f, ft_enabled f)"

definition merge_feature :: "Feature \<Rightarrow> Feature \<Rightarrow> Feature" where
  "merge_feature old new = (if dominated old new then new else old)"

lemma dominated_iff_rank: "dominated old new \<longleftrightarrow> feature_rank old < feature_rank new"
  by (cases "ft_entitlement old"; cases "ft_entitlement new")
    (auto simp: dominated_def feature_rank_def Let_def less_prod_simp less_Entitlement_def
      less_eq_Entitlement_def split: option.splits)

interpretation features: ranked_merge feature_rank merge_feature "\<lambda>f. ft_actual f = None"
  by unfold_locales (auto simp: merge_feature_def dominated_iff_rank feature_rank_def)

lemma unlicensed_features:
  "hm_get (en_features new_unlicensed) (feature_as_str n) = Some unlicensed_feature"
proof -
  have "hm_get (fold (\<lambda>name m. hm_insert (feature_as_str name) unlicensed_feature m) ns m)
      (feature_as_str n) =
      (if n \<in> set ns then Some unlicensed_feature else hm_get m (feature_as_str n))" for ns m
    by (induction ns arbitrary: m) (auto simp: hm.get_insert feature_as_str_inj)
  then show ?thesis by (simp add: new_unlicensed_def set_ALL_FEATURE_NAMES)
qed

lemma add_feature_get:
  assumes "hm_get (en_features e) (feature_as_str m) = Some old"
  shows "hm_get (en_features (add_feature n f e)) (feature_as_str m) =
    Some (if m = n then merge_feature old f else old)"
  using assms
  by (auto simp: add_feature_def merge_feature_def Let_def hm.get_insert feature_as_str_inj
      split: option.splits)

text \<open>A sequence of additions leaves under each name the merge of the features added for it.\<close>

lemma add_features_get:
  assumes "hm_get (en_features e) (feature_as_str m) = Some old"
  shows "hm_get (en_features (fold (\<lambda>(n, f). add_feature n f) gs e)) (feature_as_str m) =
    Some (fold (\<lambda>new old. merge_feature old new) (map snd (filter (\<lambda>(n, f). n = m) gs)) old)"
  using assms
proof (induction gs arbitrary: e old)
  case Nil
  then show ?case by simp
next
  case (Cons g gs)
  obtain n f where g: "g = (n, f)" by (cases g)
  show ?case using Cons.IH [OF add_feature_get [OF Cons.prems]] by (auto simp: g)
qed

end
