(* ===== verification/Core_Types.thy ===== *)
theory Core_Types
  imports Uuid_Text
begin

text \<open>Types of \<open>crates/coder-core/src/ports.rs\<close> that several components share.\<close>

datatype StorageError = Unavailable string | NotFound string | InvalidData string

fun storage_error_display :: "StorageError \<Rightarrow> string" where
  "storage_error_display (Unavailable m) = ''storage unavailable: '' @ m"
| "storage_error_display (NotFound m) = ''not found: '' @ m"
| "storage_error_display (InvalidData m) = ''stored data is invalid: '' @ m"

text \<open>Points in time and durations, in nanoseconds.\<close>

type_synonym instant = int

definition secs :: "int \<Rightarrow> instant" where
  "secs n = n * 10 ^ 9"

end
