(* ===== verification/License_Service.thy ===== *)
theory License_Service
  imports License_Features Core_Types
begin

text \<open>
  License claims, their validation and the computation of entitlements:
  \<open>crates/coder-license/src/license.rs\<close> and \<open>crates/coder-license/src/service.rs\<close>. Instants are
  nanoseconds since the Unix epoch and 64-bit signed numbers are integers (they are only compared).
  The libraries the code calls are the fields of the record \<open>license_libs\<close>: the \<open>time\<close> crate's
  \<open>from_unix_timestamp\<close>, \<open>jsonwebtoken\<close>'s \<open>decode_header\<close> and \<open>decode\<close>, serde's \<open>to_value\<close>; the
  store behind the service is the record \<open>license_store\<close> of functions on its state. The audience
  claim \<open>aud\<close>, a JSON value that is decoded and stored but never read, has no field.
\<close>

section \<open>Claims\<close>

definition CURRENT_VERSION :: nat where
  "CURRENT_VERSION = 3"

datatype LicenseError =
    InvalidToken string | InvalidVersion | MissingClaim string | Expired | UnknownKeyId string

fun license_error_display :: "LicenseError \<Rightarrow> string" where
  "license_error_display (InvalidToken m) = ''invalid license token: '' @ m"
| "license_error_display InvalidVersion = ''license must be version '' @ nat_str CURRENT_VERSION"
| "license_error_display (MissingClaim c) = ''license has invalid or missing claim: '' @ c"
| "license_error_display Expired = ''license has expired''"
| "license_error_display (UnknownKeyId k) = ''no key with ID '' @ k"

datatype FeatureSet = NoSet | Enterprise | Premium

record LicenseClaims =
  lc_iss :: string
  lc_sub :: string
  lc_exp :: int
  lc_nbf :: int
  lc_iat :: int
  lc_jti :: string
  lc_license_expires :: int
  lc_account_type :: string
  lc_account_id :: string
  lc_trial :: bool
  lc_feature_set :: FeatureSet
  lc_all_features :: bool
  lc_version :: nat
  lc_features :: "(string, int) hash_map"
  lc_require_telemetry :: bool
  lc_deployment_ids :: "string list"

record ('alg, 'key, 'json) license_libs =
  from_unix_timestamp :: "int \<Rightarrow> int option"
  decode_header :: "string \<Rightarrow> (string, string option \<times> 'alg) result"
  decode :: "string \<Rightarrow> 'key \<Rightarrow> 'alg \<Rightarrow> (string, LicenseClaims) result"
  to_value :: "LicenseClaims \<Rightarrow> (string, 'json) result"

definition timestamp_or_epoch :: "('alg, 'key, 'json) license_libs \<Rightarrow> int \<Rightarrow> int" where
  "timestamp_or_epoch L t = (case from_unix_timestamp L t of Some i \<Rightarrow> i | None \<Rightarrow> 0)"

definition license_expires_at :: "('alg, 'key, 'json) license_libs \<Rightarrow> LicenseClaims \<Rightarrow> int" where
  "license_expires_at L c = timestamp_or_epoch L (lc_license_expires c)"

definition grace_period_end :: "('alg, 'key, 'json) license_libs \<Rightarrow> LicenseClaims \<Rightarrow> int" where
  "grace_period_end L c = timestamp_or_epoch L (lc_exp c)"

definition not_before :: "('alg, 'key, 'json) license_libs \<Rightarrow> LicenseClaims \<Rightarrow> int" where
  "not_before L c = timestamp_or_epoch L (lc_nbf c)"

definition issued_at :: "('alg, 'key, 'json) license_libs \<Rightarrow> LicenseClaims \<Rightarrow> int" where
  "issued_at L c = timestamp_or_epoch L (lc_iat c)"

definition in_grace_period :: "('alg, 'key, 'json) license_libs \<Rightarrow> LicenseClaims \<Rightarrow> int \<Rightarrow> bool" where
  "in_grace_period L c now \<longleftrightarrow> license_expires_at L c < now \<and> now \<le> grace_period_end L c"

definition is_expired :: "('alg, 'key, 'json) license_libs \<Rightarrow> LicenseClaims \<Rightarrow> int \<Rightarrow> bool" where
  "is_expired L c now \<longleftrightarrow> grace_period_end L c < now"

section \<open>Validation\<close>

type_synonym 'key LicenseValidator = "(string, 'key) hash_map"

definition with_hmac_secret :: "('s \<Rightarrow> 'key) \<Rightarrow> 's \<Rightarrow> 'key LicenseValidator" where
  "with_hmac_secret from_secret secret = hm_insert ''development'' (from_secret secret) hm_empty"

definition validate_claims :: "LicenseClaims \<Rightarrow> (LicenseError, unit) result" where
  "validate_claims c =
     (if lc_version c \<noteq> CURRENT_VERSION then Err InvalidVersion
      else if lc_iat c = 0 then Err (MissingClaim ''iat (issued at)'')
      else if lc_license_expires c = 0 then Err (MissingClaim ''license_expires'')
      else if lc_exp c = 0 then Err (MissingClaim ''exp (expires at)'')
      else if lc_account_type c = [] then Err (MissingClaim ''account_type'')
      else if lc_account_id c = [] then Err (MissingClaim ''account_id'')
      else Ok ())"

definition validate ::
  "('alg, 'key, 'json) license_libs \<Rightarrow> 'key LicenseValidator \<Rightarrow> string \<Rightarrow>
   (LicenseError, LicenseClaims) result" where
  "validate L keys raw_jwt =
     (case decode_header L raw_jwt of
        Inl e \<Rightarrow> Err (InvalidToken e)
      | Inr (kid_opt, alg) \<Rightarrow>
          (let kid = (case kid_opt of Some k \<Rightarrow> k | None \<Rightarrow> [])
           in case hm_get keys kid of
                None \<Rightarrow> Err (UnknownKeyId kid)
              | Some key \<Rightarrow>
                  (case decode L raw_jwt key alg of
                     Inl e \<Rightarrow> Err (InvalidToken e)
                   | Inr claims \<Rightarrow> and_then (validate_claims claims) (\<lambda>_. Ok claims))))"

section \<open>Entitlements from claims\<close>

definition features_for_set :: "FeatureSet \<Rightarrow> FeatureName list" where
  "features_for_set s =
     (case s of
        Enterprise \<Rightarrow> filter (\<lambda>f. is_enterprise f \<and> \<not> uses_limit f) ALL_FEATURE_NAMES
      | Premium \<Rightarrow> filter (\<lambda>f. \<not> uses_limit f) ALL_FEATURE_NAMES
      | NoSet \<Rightarrow> [])"

definition effective_set :: "LicenseClaims \<Rightarrow> FeatureSet" where
  "effective_set c =
     (if lc_all_features c \<and> lc_feature_set c = NoSet then Enterprise else lc_feature_set c)"

definition apply_set_feature :: "Entitlement \<Rightarrow> FeatureName \<Rightarrow> Entitlements \<Rightarrow> Entitlements" where
  "apply_set_feature entitlement name ents =
     (if uses_limit name then ents
      else add_feature name
        \<lparr> ft_entitlement = entitlement, ft_enabled = always_enable name, ft_limit = None,
          ft_actual = None \<rparr> ents)"

definition apply_feature_claim :: "Entitlement \<Rightarrow> string \<times> int \<Rightarrow> Entitlements \<Rightarrow> Entitlements" where
  "apply_feature_claim entitlement claim ents =
     (case parse_feature_name (fst claim) of
        None \<Rightarrow> ents
      | Some name \<Rightarrow>
          if uses_limit name then
            if snd claim \<le> 0 then ents
            else add_feature name
              \<lparr> ft_entitlement = entitlement, ft_enabled = True, ft_limit = Some (snd claim),
                ft_actual = None \<rparr> ents
          else
            if snd claim \<le> 0 then ents
            else add_feature name
              \<lparr> ft_entitlement = entitlement, ft_enabled = always_enable name, ft_limit = None,
                ft_actual = None \<rparr> ents)"

definition mark_licensed :: "LicenseClaims \<Rightarrow> Entitlements \<Rightarrow> Entitlements" where
  "mark_licensed c ents =
     (let ents = ents \<lparr> en_has_license := True,
            en_require_telemetry := (en_require_telemetry ents \<or> lc_require_telemetry c) \<rparr>
      in if lc_trial c then ents \<lparr> en_trial := True \<rparr> else ents)"

definition apply_claims ::
  "('alg, 'key, 'json) license_libs \<Rightarrow> LicenseClaims \<Rightarrow> int \<Rightarrow> Entitlements \<Rightarrow> Entitlements" where
  "apply_claims L c now ents =
     (if is_expired L c now then ents
      else
        let entitlement = (if in_grace_period L c now then GracePeriod else Entitled);
            ents = fold (apply_set_feature entitlement) (features_for_set (effective_set c))
                     (mark_licensed c ents)
        in fold (apply_feature_claim entitlement) (lc_features c) ents)"

text \<open>
  The warning counts started days. The code divides in \<open>f64\<close> and rounds up; dates are at most
  \<open>10 ^ 12\<close> seconds apart, where quotient and ceiling are exact, so the model rounds up in integers.
  \<open>whole_seconds\<close> of the non-negative durations it is used for is integer division.
\<close>

fun latest_expiry :: "('alg, 'key, 'json) license_libs \<Rightarrow> LicenseClaims list \<Rightarrow> int option \<Rightarrow> int option"
where
  "latest_expiry L [] acc = acc"
| "latest_expiry L (c # cs) acc =
     latest_expiry L cs
       (case acc of
          None \<Rightarrow> Some (license_expires_at L c)
        | Some e \<Rightarrow> if e < license_expires_at L c then Some (license_expires_at L c) else acc)"

definition days_to_expire :: "int \<Rightarrow> int" where
  "days_to_expire d = - ((- (d div 1000000000)) div 86400)"

definition add_expiry_warnings ::
  "('alg, 'key, 'json) license_libs \<Rightarrow> LicenseClaims list \<Rightarrow> int \<Rightarrow> Entitlements \<Rightarrow> Entitlements" where
  "add_expiry_warnings L valid_claims now ents =
     (case latest_expiry L valid_claims None of
        None \<Rightarrow> ents
      | Some expiry \<Rightarrow>
          let duration = expiry - now; days = days_to_expire duration;
              show_warning_days = (if en_trial ents then 7 else 30)
          in if duration < 0 then
               ents \<lparr> en_warnings := en_warnings ents @
                 [''Your license has expired. You are in a grace period.''] \<rparr>
             else if days < show_warning_days then
               ents \<lparr> en_warnings := en_warnings ents @
                 [''Your license expires in '' @ nat_str (nat days) @ '' '' @
                  (if days = 1 then ''day'' else ''days'') @ ''.''] \<rparr>
             else ents)"

section \<open>The service\<close>

record 'json LicenseRecord =
  lr_id :: int
  lr_uuid :: uuid
  lr_uploaded_at :: int
  lr_jwt :: string
  lr_claims :: 'json

datatype LicenseServiceError = License LicenseError | Storage StorageError

record ('st, 'json) license_store =
  st_list :: "'st \<Rightarrow> (StorageError, 'json LicenseRecord list) result"
  st_insert :: "string \<Rightarrow> 'json \<Rightarrow> 'st \<Rightarrow> 'st \<times> (StorageError, 'json LicenseRecord) result"
  st_delete :: "int \<Rightarrow> 'st \<Rightarrow> 'st \<times> (StorageError, bool) result"

record ('st, 'key) LicenseService =
  sv_store :: 'st
  sv_validator :: "'key LicenseValidator"
  sv_entitlements :: EntitlementSet

definition service_new :: "'st \<Rightarrow> 'key LicenseValidator \<Rightarrow> ('st, 'key) LicenseService" where
  "service_new store keys =
     \<lparr> sv_store = store, sv_validator = keys, sv_entitlements = entitlement_set_new \<rparr>"

definition list_licenses ::
  "('st, 'json) license_store \<Rightarrow> ('st, 'key) LicenseService \<Rightarrow>
   (LicenseServiceError, 'json LicenseRecord list) result" where
  "list_licenses S sv = (case st_list S (sv_store sv) of Inl e \<Rightarrow> Err (Storage e) | Inr r \<Rightarrow> Ok r)"

text \<open>The loop of \<open>refresh_entitlements\<close> over the stored licenses.\<close>

fun refresh_loop ::
  "('alg, 'key, 'json) license_libs \<Rightarrow> uuid_codec \<Rightarrow> 'key LicenseValidator \<Rightarrow> int \<Rightarrow>
   'json LicenseRecord list \<Rightarrow> LicenseClaims list \<Rightarrow> Entitlements \<Rightarrow> LicenseClaims list \<times> Entitlements"
where
  "refresh_loop L U keys now [] valid ents = (valid, ents)"
| "refresh_loop L U keys now (r # rs) valid ents =
     (case validate L keys (lr_jwt r) of
        Inr claims \<Rightarrow>
          if is_expired L claims now then refresh_loop L U keys now rs valid ents
          else refresh_loop L U keys now rs (valid @ [claims]) (apply_claims L claims now ents)
      | Inl e \<Rightarrow>
          refresh_loop L U keys now rs valid
            (ents \<lparr> en_errors := en_errors ents @
               [''Invalid license ('' @ to_string U (lr_uuid r) @ ''): '' @
                license_error_display e] \<rparr>))"

definition computed_entitlements ::
  "('alg, 'key, 'json) license_libs \<Rightarrow> uuid_codec \<Rightarrow> 'key LicenseValidator \<Rightarrow> int \<Rightarrow>
   'json LicenseRecord list \<Rightarrow> Entitlements" where
  "computed_entitlements L U keys now rs =
     (let (valid, ents) =
            refresh_loop L U keys now rs [] (new_unlicensed \<lparr> en_refreshed_at := now \<rparr>)
      in add_expiry_warnings L valid now ents)"

definition refresh_entitlements ::
  "('alg, 'key, 'json) license_libs \<Rightarrow> uuid_codec \<Rightarrow> ('st, 'json) license_store \<Rightarrow> int \<Rightarrow>
   ('st, 'key) LicenseService \<Rightarrow> ('st, 'key) LicenseService \<times> (LicenseServiceError, unit) result" where
  "refresh_entitlements L U S now sv =
     (case st_list S (sv_store sv) of
        Inl e \<Rightarrow> (sv, Err (Storage e))
      | Inr rs \<Rightarrow>
          (sv \<lparr> sv_entitlements :=
              set_update (computed_entitlements L U (sv_validator sv) now rs) (sv_entitlements sv) \<rparr>,
           Ok ()))"

definition add_license ::
  "('alg, 'key, 'json) license_libs \<Rightarrow> uuid_codec \<Rightarrow> ('st, 'json) license_store \<Rightarrow> int \<Rightarrow> string \<Rightarrow>
   ('st, 'key) LicenseService \<Rightarrow>
   ('st, 'key) LicenseService \<times> (LicenseServiceError, 'json LicenseRecord) result" where
  "add_license L U S now raw_jwt sv =
     (case validate L (sv_validator sv) raw_jwt of
        Inl e \<Rightarrow> (sv, Err (License e))
      | Inr claims \<Rightarrow>
          (case to_value L claims of
             Inl e \<Rightarrow> (sv, Err (License (InvalidToken e)))
           | Inr v \<Rightarrow>
               (case st_insert S raw_jwt v (sv_store sv) of
                  (st, Inl e) \<Rightarrow> (sv \<lparr> sv_store := st \<rparr>, Err (Storage e))
                | (st, Inr record') \<Rightarrow>
                    (case refresh_entitlements L U S now (sv \<lparr> sv_store := st \<rparr>) of
                       (sv, Inl e) \<Rightarrow> (sv, Err e)
                     | (sv, Inr _) \<Rightarrow> (sv, Ok record')))))"

definition delete_license ::
  "('alg, 'key, 'json) license_libs \<Rightarrow> uuid_codec \<Rightarrow> ('st, 'json) license_store \<Rightarrow> int \<Rightarrow> int \<Rightarrow>
   ('st, 'key) LicenseService \<Rightarrow> ('st, 'key) LicenseService \<times> (LicenseServiceError, bool) result" where
  "delete_license L U S now i sv =
     (case st_delete S i (sv_store sv) of
        (st, Inl e) \<Rightarrow> (sv \<lparr> sv_store := st \<rparr>, Err (Storage e))
      | (st, Inr deleted) \<Rightarrow>
          if deleted then
            (case refresh_entitlements L U S now (sv \<lparr> sv_store := st \<rparr>) of
               (sv, Inl e) \<Rightarrow> (sv, Err e)
             | (sv, Inr _) \<Rightarrow> (sv, Ok True))
          else (sv \<lparr> sv_store := st \<rparr>, Ok False))"

section \<open>What licenses grant\<close>

definition grant_level :: "('alg, 'key, 'json) license_libs \<Rightarrow> LicenseClaims \<Rightarrow> int \<Rightarrow> Entitlement" where
  "grant_level L c now = (if in_grace_period L c now then GracePeriod else Entitled)"

text \<open>
  A license grants every feature of its feature set, and every feature it lists with a positive
  value; features with a limit are only granted by being listed, with the value as the limit.
\<close>

inductive license_grants ::
  "('alg, 'key, 'json) license_libs \<Rightarrow> int \<Rightarrow> LicenseClaims \<Rightarrow> FeatureName \<Rightarrow> Feature \<Rightarrow> bool"
  for L now c
where
  by_set: "n \<in> set (features_for_set (effective_set c)) \<Longrightarrow>
    license_grants L now c n \<lparr> ft_entitlement = grant_level L c now, ft_enabled = always_enable n,
                       ft_limit = None, ft_actual = None \<rparr>"
| by_claim: "(feature_as_str n, v) \<in> set (lc_features c) \<Longrightarrow> 0 < v \<Longrightarrow> \<not> uses_limit n \<Longrightarrow>
    license_grants L now c n \<lparr> ft_entitlement = grant_level L c now, ft_enabled = always_enable n,
                       ft_limit = None, ft_actual = None \<rparr>"
| by_limit: "(feature_as_str n, v) \<in> set (lc_features c) \<Longrightarrow> 0 < v \<Longrightarrow> uses_limit n \<Longrightarrow>
    license_grants L now c n \<lparr> ft_entitlement = grant_level L c now, ft_enabled = True,
                       ft_limit = Some v, ft_actual = None \<rparr>"

inductive_simps grants_iff: "license_grants L now c n f"

text \<open>The claims of the stored licenses that validate and are not past their grace period.\<close>

definition live_claims ::
  "('alg, 'key, 'json) license_libs \<Rightarrow> 'key LicenseValidator \<Rightarrow> int \<Rightarrow> 'json LicenseRecord list \<Rightarrow>
   LicenseClaims set" where
  "live_claims L keys now rs =
     {c. \<exists>r\<in>set rs. validate L keys (lr_jwt r) = Inr c \<and> \<not> is_expired L c now}"

lemma grants_actual: "license_grants L now c n f \<Longrightarrow> ft_actual f = None"
  by (auto simp: grants_iff)

lemma grants_entitled: "license_grants L now c n f \<Longrightarrow> entitlement_is_entitled (ft_entitlement f)"
  by (auto simp: grants_iff grant_level_def entitlement_is_entitled_def)

text \<open>The additions made for one license, and for all of them, in order.\<close>

definition set_grant :: "Entitlement \<Rightarrow> FeatureName \<Rightarrow> FeatureName \<times> Feature" where
  "set_grant l n = (n, \<lparr> ft_entitlement = l, ft_enabled = always_enable n, ft_limit = None,
                         ft_actual = None \<rparr>)"

definition claim_grant :: "Entitlement \<Rightarrow> string \<times> int \<Rightarrow> (FeatureName \<times> Feature) list" where
  "claim_grant l sv =
     (case parse_feature_name (fst sv) of
        None \<Rightarrow> []
      | Some n \<Rightarrow>
          if snd sv \<le> 0 then []
          else if uses_limit n then
            [(n, \<lparr> ft_entitlement = l, ft_enabled = True, ft_limit = Some (snd sv), ft_actual = None \<rparr>)]
          else [set_grant l n])"

definition grant_list ::
  "('alg, 'key, 'json) license_libs \<Rightarrow> LicenseClaims \<Rightarrow> int \<Rightarrow> (FeatureName \<times> Feature) list" where
  "grant_list L c now =
     (if is_expired L c now then []
      else map (set_grant (grant_level L c now)) (features_for_set (effective_set c)) @
           concat (map (claim_grant (grant_level L c now)) (lc_features c)))"

fun all_grants ::
  "('alg, 'key, 'json) license_libs \<Rightarrow> 'key LicenseValidator \<Rightarrow> int \<Rightarrow> 'json LicenseRecord list \<Rightarrow>
   (FeatureName \<times> Feature) list"
where
  "all_grants L keys now [] = []"
| "all_grants L keys now (r # rs) =
     (case validate L keys (lr_jwt r) of Inr c \<Rightarrow> grant_list L c now | Inl e \<Rightarrow> []) @
     all_grants L keys now rs"

lemma set_grant_iff:
  "(n, f) \<in> set (map (set_grant l) ns) \<longleftrightarrow>
   n \<in> set ns \<and> f = \<lparr> ft_entitlement = l, ft_enabled = always_enable n, ft_limit = None,
                     ft_actual = None \<rparr>"
  by (auto simp: set_grant_def)

lemma claim_grant_iff:
  "(n, f) \<in> set (claim_grant l (s, v)) \<longleftrightarrow>
   s = feature_as_str n \<and> 0 < v \<and>
   f = (if uses_limit n
        then \<lparr> ft_entitlement = l, ft_enabled = True, ft_limit = Some v, ft_actual = None \<rparr>
        else \<lparr> ft_entitlement = l, ft_enabled = always_enable n, ft_limit = None, ft_actual = None \<rparr>)"
proof (cases "parse_feature_name s")
  case None
  then have "s \<noteq> feature_as_str n" using parse_feature_name_Some [of s n] by auto
  with None show ?thesis by (simp add: claim_grant_def)
next
  case (Some m)
  then have "s = feature_as_str m" by (simp add: parse_feature_name_Some)
  with Some show ?thesis by (auto simp: claim_grant_def set_grant_def feature_as_str_inj)
qed

lemma grant_list_grants:
  "\<not> is_expired L c now \<Longrightarrow> (n, f) \<in> set (grant_list L c now) \<longleftrightarrow> license_grants L now c n f"
proof -
  assume live: "\<not> is_expired L c now"
  let ?l = "grant_level L c now"
  have "(n, f) \<in> set (grant_list L c now) \<longleftrightarrow>
      (n, f) \<in> set (map (set_grant ?l) (features_for_set (effective_set c))) \<or>
      (\<exists>(s, v) \<in> set (lc_features c). (n, f) \<in> set (claim_grant ?l (s, v)))"
    using live by (auto simp: grant_list_def)
  also have "\<dots> \<longleftrightarrow> license_grants L now c n f"
    unfolding set_grant_iff claim_grant_iff grants_iff by (cases "uses_limit n") auto
  finally show ?thesis .
qed

lemma all_grants_iff:
  "(n, f) \<in> set (all_grants L keys now rs) \<longleftrightarrow> (\<exists>c\<in>live_claims L keys now rs. license_grants L now c n f)"
proof (induction rs)
  case Nil
  show ?case by (simp add: live_claims_def)
next
  case (Cons r rs)
  have split: "live_claims L keys now (r # rs) =
      {c. validate L keys (lr_jwt r) = Inr c \<and> \<not> is_expired L c now} \<union> live_claims L keys now rs"
    by (auto simp: live_claims_def)
  show ?case
  proof (cases "validate L keys (lr_jwt r)")
    case (Inl e)
    then show ?thesis using Cons.IH by (simp add: split)
  next
    case (Inr c)
    show ?thesis
    proof (cases "is_expired L c now")
      case True
      with Inr Cons.IH show ?thesis by (auto simp: split grant_list_def)
    next
      case False
      with Inr Cons.IH grant_list_grants [OF False] show ?thesis by (auto simp: split)
    qed
  qed
qed

section \<open>The computation merges the grants\<close>

lemma add_feature_cong:
  "en_features e = en_features e' \<Longrightarrow> en_features (add_feature n f e) = en_features (add_feature n f e')"
  by (simp add: add_feature_def Let_def)

lemma add_features_cong:
  "en_features e = en_features e' \<Longrightarrow>
   en_features (fold (\<lambda>(n, f). add_feature n f) gs e) = en_features (fold (\<lambda>(n, f). add_feature n f) gs e')"
proof (induction gs arbitrary: e e')
  case Nil
  then show ?case by simp
next
  case (Cons g gs)
  obtain n f where g: "g = (n, f)" by (cases g)
  show ?case using Cons.IH [OF add_feature_cong [OF Cons.prems]] by (simp add: g)
qed

lemma apply_set_features:
  "\<forall>n\<in>set ns. \<not> uses_limit n \<Longrightarrow>
   fold (apply_set_feature l) ns e = fold (\<lambda>(n, f). add_feature n f) (map (set_grant l) ns) e"
  by (induction ns arbitrary: e) (simp_all add: apply_set_feature_def set_grant_def)

lemma apply_feature_claims:
  "fold (apply_feature_claim l) cs e =
   fold (\<lambda>(n, f). add_feature n f) (concat (map (claim_grant l) cs)) e"
  by (induction cs arbitrary: e)
    (simp_all add: apply_feature_claim_def claim_grant_def set_grant_def split: option.splits)

lemma features_for_set_no_limit: "n \<in> set (features_for_set s) \<Longrightarrow> \<not> uses_limit n"
  by (auto simp: features_for_set_def split: FeatureSet.splits)

lemma apply_claims_features:
  "en_features (apply_claims L c now e) =
   en_features (fold (\<lambda>(n, f). add_feature n f) (grant_list L c now) e)"
proof (cases "is_expired L c now")
  case True
  then show ?thesis by (simp add: apply_claims_def grant_list_def)
next
  case False
  have "apply_claims L c now e =
      fold (\<lambda>(n, f). add_feature n f) (grant_list L c now) (mark_licensed c e)"
    using False features_for_set_no_limit [of _ "effective_set c"]
    by (simp add: apply_claims_def grant_list_def apply_feature_claims grant_level_def [symmetric]
        apply_set_features Let_def)
  moreover have "en_features (mark_licensed c e) = en_features e"
    by (simp add: mark_licensed_def Let_def)
  ultimately show ?thesis using add_features_cong by metis
qed

lemma refresh_loop_features:
  "en_features (snd (refresh_loop L U keys now rs valid e)) =
   en_features (fold (\<lambda>(n, f). add_feature n f) (all_grants L keys now rs) e)"
proof (induction rs arbitrary: valid e)
  case Nil
  show ?case by simp
next
  case (Cons r rs)
  show ?case
  proof (cases "validate L keys (lr_jwt r)")
    case (Inl err)
    then show ?thesis by (simp add: Cons.IH) (rule add_features_cong, simp)
  next
    case (Inr c)
    show ?thesis
    proof (cases "is_expired L c now")
      case True
      with Inr Cons.IH show ?thesis by (simp add: grant_list_def)
    next
      case False
      with Inr Cons.IH show ?thesis
        by simp (rule add_features_cong, rule apply_claims_features)
    qed
  qed
qed

lemma add_expiry_warnings_features:
  "en_features (add_expiry_warnings L valid now e) = en_features e"
  by (simp add: add_expiry_warnings_def Let_def split: option.splits)

text \<open>The entry of a feature is the merge of its grants, starting from the unlicensed one.\<close>

lemma computed_feature:
  "hm_get (en_features (computed_entitlements L U keys now rs)) (feature_as_str n) =
   Some (fold (\<lambda>new old. merge_feature old new)
          (map snd (filter (\<lambda>(m, f). m = n) (all_grants L keys now rs))) unlicensed_feature)"
proof -
  let ?e = "new_unlicensed \<lparr> en_refreshed_at := now \<rparr>"
  have "en_features (computed_entitlements L U keys now rs) =
      en_features (fold (\<lambda>(n, f). add_feature n f) (all_grants L keys now rs) ?e)"
    by (simp add: computed_entitlements_def add_expiry_warnings_features
        refresh_loop_features case_prod_unfold Let_def)
  then show ?thesis
    using add_features_get [of ?e n unlicensed_feature "all_grants L keys now rs"]
      unlicensed_features [of n]
    by simp
qed

lemma set_grants_of:
  "set (map snd (filter (\<lambda>(m, f). m = n) (all_grants L keys now rs))) =
   {f. \<exists>c\<in>live_claims L keys now rs. license_grants L now c n f}"
  by (force simp flip: all_grants_iff)

lemma unlicensed_rank_least:
  assumes "license_grants L now c n f"
  shows "feature_rank unlicensed_feature \<le> feature_rank f"
proof -
  have "NotEntitled < ft_entitlement f"
    using assms by (auto simp: grants_iff grant_level_def less_Entitlement_def)
  then show ?thesis by (simp add: feature_rank_def unlicensed_feature_def less_eq_prod_simp)
qed

lemma computed_in_grants:
  assumes "hm_get (en_features (computed_entitlements L U keys now rs)) (feature_as_str n) = Some f"
  shows "f = unlicensed_feature \<or> (\<exists>c\<in>live_claims L keys now rs. license_grants L now c n f)"
  using assms features.fold_merge_in [of "map snd (filter (\<lambda>(m, f). m = n) (all_grants L keys now rs))"
      unlicensed_feature]
  unfolding computed_feature set_simps(2) set_grants_of by auto

lemma computed_above_grants:
  assumes "hm_get (en_features (computed_entitlements L U keys now rs)) (feature_as_str n) = Some f"
    and "c \<in> live_claims L keys now rs" and "license_grants L now c n g"
  shows "feature_rank g \<le> feature_rank f"
  using assms features.fold_merge_ge [of g unlicensed_feature
      "map snd (filter (\<lambda>(m, f). m = n) (all_grants L keys now rs))"]
  unfolding computed_feature set_simps(2) set_grants_of by auto

section \<open>Example\<close>

text \<open>
  A concrete instance of the libraries: timestamps are whole seconds, every token is signed with
  the key \<open>development\<close>, and a token's claims are looked up in a table.
\<close>

definition example_claims :: LicenseClaims where
  "example_claims =
     \<lparr> lc_iss = [], lc_sub = [], lc_exp = 200, lc_nbf = 0, lc_iat = 1, lc_jti = [],
       lc_license_expires = 100, lc_account_type = ''test'', lc_account_id = ''a'',
       lc_trial = False, lc_feature_set = NoSet, lc_all_features = False, lc_version = 3,
       lc_features = [(''audit_log'', 1)], lc_require_telemetry = False, lc_deployment_ids = [] \<rparr>"

definition example_libs :: "(unit, unit, unit) license_libs" where
  "example_libs =
     \<lparr> from_unix_timestamp = (\<lambda>t. Some (t * 1000000000)),
       decode_header = (\<lambda>t. if t = [] then Err ''empty'' else Ok (Some ''development'', ())),
       decode = (\<lambda>t k a. Ok example_claims), to_value = (\<lambda>c. Ok ()) \<rparr>"

definition example_keys :: "unit LicenseValidator" where
  "example_keys = with_hmac_secret (\<lambda>_. ()) ()"

definition example_record :: "unit LicenseRecord" where
  "example_record = \<lparr> lr_id = 1, lr_uuid = 0, lr_uploaded_at = 0, lr_jwt = ''x'', lr_claims = () \<rparr>"

definition example_store :: "(unit LicenseRecord list, unit) license_store" where
  "example_store =
     \<lparr> st_list = Ok, st_insert = (\<lambda>jwt v st. (st, Err (Unavailable ''full''))),
       st_delete = (\<lambda>i st. (filter (\<lambda>r. lr_id r \<noteq> i) st, Ok True)) \<rparr>"

lemma example_live:
  "live_claims example_libs example_keys 150000000000 [example_record] = {example_claims}"
  by (auto simp: live_claims_def validate_def validate_claims_def example_libs_def example_keys_def
      example_record_def with_hmac_secret_def example_claims_def CURRENT_VERSION_def is_expired_def
      grace_period_end_def timestamp_or_epoch_def)

lemma example_grants:
  "license_grants example_libs 150000000000 example_claims AuditLog
     \<lparr> ft_entitlement = GracePeriod, ft_enabled = False, ft_limit = None, ft_actual = None \<rparr>"
  by (simp add: grants_iff grant_level_def in_grace_period_def license_expires_at_def
      grace_period_end_def timestamp_or_epoch_def example_libs_def example_claims_def
      uses_limit_def always_enable_def)

section \<open>Properties\<close>

text \<open>
  The entitlements computed from the stored licenses give every feature its best grant: the
  entry of a feature is the unlicensed one or one that a live license grants, and no live license
  grants a feature of higher rank (better entitlement, then higher limit, then enabled).
\<close>

theorem computed_feature_is_best_grant:
  assumes "hm_get (en_features (computed_entitlements L U keys now rs)) (feature_as_str n) = Some f"
  shows "(f = unlicensed_feature \<or> (\<exists>c\<in>live_claims L keys now rs. license_grants L now c n f)) \<and>
    (\<forall>c\<in>live_claims L keys now rs. \<forall>g. license_grants L now c n g \<longrightarrow> feature_rank g \<le> feature_rank f)"
  using computed_in_grants [OF assms] computed_above_grants [OF assms] by blast

theorem computed_feature_is_best_grant_witness:
  "\<exists>f. hm_get (en_features (computed_entitlements example_libs hyphenated_codec example_keys
         150000000000 [example_record])) (feature_as_str AuditLog) = Some f \<and>
       feature_rank \<lparr> ft_entitlement = GracePeriod, ft_enabled = False, ft_limit = None,
         ft_actual = None \<rparr> \<le> feature_rank f"
proof -
  obtain f where f: "hm_get (en_features (computed_entitlements example_libs hyphenated_codec
      example_keys 150000000000 [example_record])) (feature_as_str AuditLog) = Some f"
    using computed_feature by blast
  from computed_feature_is_best_grant [OF f] example_grants f show ?thesis
    unfolding example_live by blast
qed



text \<open>
  The order in which the store lists the licenses, and repetitions, do not matter: two lists
  with the same live claims give every feature the same entry.
\<close>

theorem license_order_irrelevant:
  assumes "live_claims L keys now rs = live_claims L keys now rs'"
  shows "hm_get (en_features (computed_entitlements L U keys now rs)) (feature_as_str n) =
         hm_get (en_features (computed_entitlements L U keys now rs')) (feature_as_str n)"
proof -
  have "set (map snd (filter (\<lambda>(m, f). m = n) (all_grants L keys now rs))) =
      set (map snd (filter (\<lambda>(m, f). m = n) (all_grants L keys now rs')))"
    unfolding set_grants_of assms ..
  moreover have "\<forall>y\<in>set (unlicensed_feature #
      map snd (filter (\<lambda>(m, f). m = n) (all_grants L keys now rs))). ft_actual y = None"
    unfolding set_simps(2) set_grants_of using grants_actual by (auto simp: unlicensed_feature_def)
  ultimately show ?thesis unfolding computed_feature by (simp only: features.fold_merge_perm)
qed

theorem license_order_irrelevant_witness:
  "hm_get (en_features (computed_entitlements example_libs hyphenated_codec example_keys 0
     [example_record, example_record])) (feature_as_str AuditLog) =
   hm_get (en_features (computed_entitlements example_libs hyphenated_codec example_keys 0
     [example_record])) (feature_as_str AuditLog)"
  by (rule license_order_irrelevant) (simp add: live_claims_def)

text \<open>
  A license that cannot be added changes no entitlement: when \<open>add_license\<close> returns an error,
  whether from validation, from the store or from the refresh, the entitlements are those of before.
\<close>

theorem failed_add_keeps_entitlements:
  assumes "add_license L U S now raw_jwt sv = (sv', Inl e)"
  shows "sv_entitlements sv' = sv_entitlements sv"
  using assms
  by (auto simp: add_license_def refresh_entitlements_def split: sum.splits prod.splits)

theorem failed_add_keeps_entitlements_witness:
  "sv_entitlements (fst (add_license example_libs hyphenated_codec example_store 5 ''x''
     (service_new [] example_keys))) = entitlement_set_new"
proof -
  let ?r = "add_license example_libs hyphenated_codec example_store 5 ''x'' (service_new [] example_keys)"
  have "?r = (fst ?r, Inl (Storage (Unavailable ''full'')))"
    by (simp add: add_license_def service_new_def example_store_def example_libs_def validate_def
        example_keys_def with_hmac_secret_def validate_claims_def example_claims_def
        CURRENT_VERSION_def)
  from failed_add_keeps_entitlements [OF this] show ?thesis by (simp add: service_new_def)
qed

text \<open>
  The start of validity and the deployment restriction of a license have no effect on what it
  grants: applying claims that differ only in these two fields gives the same entitlements, so a
  license that has not started yet, or that names other deployments, counts in full.
\<close>

theorem start_and_deployment_ignored:
  "apply_claims L (c \<lparr> lc_nbf := t, lc_deployment_ids := ds \<rparr>) now ents = apply_claims L c now ents"
  by (simp add: apply_claims_def is_expired_def in_grace_period_def license_expires_at_def
      grace_period_end_def mark_licensed_def effective_set_def)

end
