(* ===== verification/Prebuilds.thy ===== *)
theory Prebuilds
  imports Core_Types "HOL-Library.Multiset"
begin

text \<open>
  The prebuild reconciler of \<open>crates/coder-workspaces/src/prebuilds_reconciler.rs\<close>. Instants are
  integers, \<open>usize\<close> values are natural numbers (they count elements of lists in memory), the
  statistics are 64-bit words with saturating addition. The build executor behind the trait
  \<open>PrebuildActions\<close> is a function from the calls made so far and their outcomes to whether the next
  call succeeds; a tick returns the calls it made with their outcomes. Log lines, metrics, and the
  timer and cancellation token of the background task are left out.
\<close>

section \<open>Data\<close>

record PrebuildReconcilerOptions =
  tick_interval :: nat
  hard_limit :: "nat option"

definition DEFAULT_RECONCILE_INTERVAL :: nat where
  "DEFAULT_RECONCILE_INTERVAL = 60 * 1000000000"

definition default_options :: PrebuildReconcilerOptions where
  "default_options = \<lparr> tick_interval = DEFAULT_RECONCILE_INTERVAL, hard_limit = None \<rparr>"

datatype ReconcileError = ReconcileStorage StorageError

record PresetPrebuildInfo =
  ps_template_id :: uuid
  ps_template_version_id :: uuid
  ps_organization_id :: uuid
  ps_preset_id :: uuid
  ps_preset_name :: string
  ps_desired_instances :: "32 word"
  ps_using_active_version :: bool
  ps_is_hard_limited :: bool

record PrebuiltWorkspace =
  pw_id :: uuid
  pw_preset_id :: uuid
  pw_created_at :: int

record PresetDelta =
  pd_preset_id :: uuid
  pd_to_create :: "32 word"
  pd_to_delete :: "uuid list"

record ReconcileStats =
  rs_presets_evaluated :: nat
  rs_total_desired :: "64 word"
  rs_total_actual :: "64 word"
  rs_creates_requested :: "64 word"
  rs_creates_executed :: "64 word"
  rs_deletes_requested :: "64 word"
  rs_deletes_executed :: "64 word"
  rs_creates_suppressed_by_hard_limit :: "64 word"

record PrebuildStartInput =
  pi_organization_id :: uuid
  pi_template_id :: uuid
  pi_template_version_id :: uuid
  pi_preset_id :: uuid

text \<open>Calls to the build executor, and the executor itself.\<close>

datatype prebuild_call = DeletePrebuild uuid | CreatePrebuild PrebuildStartInput

type_synonym call_log = "(prebuild_call \<times> bool) list"
type_synonym executor = "call_log \<Rightarrow> prebuild_call \<Rightarrow> bool"

definition u64_of_usize :: "nat \<Rightarrow> 64 word" where
  "u64_of_usize n = (if n < 2 ^ 64 then of_nat n else - 1)"

definition u32_of_usize :: "nat \<Rightarrow> 32 word" where
  "u32_of_usize n = (if n < 2 ^ 32 then of_nat n else - 1)"

section \<open>Deltas\<close>

definition group_by_preset ::
  "PrebuiltWorkspace list \<Rightarrow> (uuid, PrebuiltWorkspace list) hash_map" where
  "group_by_preset running =
     fold (\<lambda>ws m. hm_insert (pw_preset_id ws)
             ((case hm_get m (pw_preset_id ws) of Some v \<Rightarrow> v | None \<Rightarrow> []) @ [ws]) m)
       running hm_empty"

definition running_by_preset ::
  "PrebuiltWorkspace list \<Rightarrow> (uuid, PrebuiltWorkspace list) hash_map" where
  "running_by_preset running =
     map (\<lambda>(k, v). (k, sort_key pw_created_at v)) (group_by_preset running)"

definition preset_delta ::
  "(uuid, PrebuiltWorkspace list) hash_map \<Rightarrow> PresetPrebuildInfo \<Rightarrow> PresetDelta" where
  "preset_delta by_preset preset =
     (let actual = (case hm_get by_preset (ps_preset_id preset) of Some v \<Rightarrow> length v | None \<Rightarrow> 0);
          desired = unat (ps_desired_instances preset);
          delta = \<lparr> pd_preset_id = ps_preset_id preset, pd_to_create = 0, pd_to_delete = [] \<rparr>;
          may_create = (\<not> ps_is_hard_limited preset \<and> ps_using_active_version preset)
      in if actual < desired \<and> may_create
         then delta \<lparr> pd_to_create := u32_of_usize (desired - actual) \<rparr>
         else if desired < actual
         then (case hm_get by_preset (ps_preset_id preset) of
                 Some ws_list \<Rightarrow> delta \<lparr> pd_to_delete := map pw_id (take (actual - desired) ws_list) \<rparr>
               | None \<Rightarrow> delta)
         else delta)"

definition compute_deltas ::
  "PresetPrebuildInfo list \<Rightarrow> PrebuiltWorkspace list \<Rightarrow> PresetDelta list" where
  "compute_deltas presets running = map (preset_delta (running_by_preset running)) presets"

section \<open>The tick\<close>

text \<open>The mutable variables of a tick: the statistics, the running total and the calls made.\<close>

record tick_state =
  ts_stats :: ReconcileStats
  ts_running_total :: nat
  ts_calls :: call_log

definition run_call :: "executor option \<Rightarrow> prebuild_call \<Rightarrow> tick_state \<Rightarrow> tick_state \<times> bool" where
  "run_call actions c s =
     (case actions of
        None \<Rightarrow> (s, False)
      | Some ex \<Rightarrow> let ok = ex (ts_calls s) c in (s \<lparr> ts_calls := ts_calls s @ [(c, ok)] \<rparr>, ok))"

definition delete_one :: "executor option \<Rightarrow> uuid \<Rightarrow> tick_state \<Rightarrow> tick_state" where
  "delete_one actions ws_id s =
     (let s = s \<lparr> ts_running_total := ts_running_total s - 1 \<rparr>;
          (s, ok) = run_call actions (DeletePrebuild ws_id) s
      in if ok
         then s \<lparr> ts_stats := ts_stats s
                \<lparr> rs_deletes_executed := saturating_add (rs_deletes_executed (ts_stats s)) 1 \<rparr> \<rparr>
         else s)"

definition start_input :: "PresetPrebuildInfo \<Rightarrow> PrebuildStartInput" where
  "start_input preset =
     \<lparr> pi_organization_id = ps_organization_id preset, pi_template_id = ps_template_id preset,
       pi_template_version_id = ps_template_version_id preset, pi_preset_id = ps_preset_id preset \<rparr>"

definition create_one ::
  "executor option \<Rightarrow> nat option \<Rightarrow> PresetPrebuildInfo \<Rightarrow> tick_state \<Rightarrow> tick_state" where
  "create_one actions limit preset s =
     (if (case limit of Some l \<Rightarrow> l \<le> ts_running_total s | None \<Rightarrow> False)
      then s \<lparr> ts_stats := ts_stats s
             \<lparr> rs_creates_suppressed_by_hard_limit :=
                 saturating_add (rs_creates_suppressed_by_hard_limit (ts_stats s)) 1 \<rparr> \<rparr>
      else
        let s = s \<lparr> ts_running_total := ts_running_total s + 1 \<rparr>;
            (s, ok) = run_call actions (CreatePrebuild (start_input preset)) s
        in if ok
           then s \<lparr> ts_stats := ts_stats s
                  \<lparr> rs_creates_executed := saturating_add (rs_creates_executed (ts_stats s)) 1 \<rparr> \<rparr>
           else s)"

definition apply_deletes :: "executor option \<Rightarrow> PresetDelta \<Rightarrow> tick_state \<Rightarrow> tick_state" where
  "apply_deletes actions delta s =
     (if pd_to_delete delta \<noteq> []
      then fold (delete_one actions) (pd_to_delete delta)
             (s \<lparr> ts_stats := ts_stats s
                \<lparr> rs_deletes_requested := saturating_add (rs_deletes_requested (ts_stats s))
                    (u64_of_usize (length (pd_to_delete delta))) \<rparr> \<rparr>)
      else s)"

definition apply_creates ::
  "executor option \<Rightarrow> nat option \<Rightarrow> PresetPrebuildInfo \<Rightarrow> PresetDelta \<Rightarrow> tick_state \<Rightarrow> tick_state" where
  "apply_creates actions limit preset delta s =
     (if 0 < pd_to_create delta
      then (create_one actions limit preset ^^ unat (pd_to_create delta))
             (s \<lparr> ts_stats := ts_stats s
                \<lparr> rs_creates_requested := saturating_add (rs_creates_requested (ts_stats s))
                    (ucast (pd_to_create delta)) \<rparr> \<rparr>)
      else s)"

definition apply_delta ::
  "executor option \<Rightarrow> nat option \<Rightarrow> PresetPrebuildInfo \<times> PresetDelta \<Rightarrow> tick_state \<Rightarrow> tick_state" where
  "apply_delta actions limit pd s =
     apply_creates actions limit (fst pd) (snd pd) (apply_deletes actions (snd pd) s)"

record PrebuildReconciler =
  pr_options :: PrebuildReconcilerOptions
  pr_last_stats :: "ReconcileStats option"
  pr_actions :: "executor option"

definition reconciler_new :: "PrebuildReconcilerOptions \<Rightarrow> PrebuildReconciler" where
  "reconciler_new options = \<lparr> pr_options = options, pr_last_stats = None, pr_actions = None \<rparr>"

definition with_actions :: "PrebuildReconcilerOptions \<Rightarrow> executor \<Rightarrow> PrebuildReconciler" where
  "with_actions options ex = \<lparr> pr_options = options, pr_last_stats = None, pr_actions = Some ex \<rparr>"

definition last_stats :: "PrebuildReconciler \<Rightarrow> ReconcileStats option" where
  "last_stats r = pr_last_stats r"

text \<open>One pass; \<open>presets\<close> and \<open>running\<close> are what the store answers to the two queries.\<close>

definition tick ::
  "(StorageError, PresetPrebuildInfo list) result \<Rightarrow> (StorageError, PrebuiltWorkspace list) result \<Rightarrow>
   PrebuildReconciler \<Rightarrow> PrebuildReconciler \<times> call_log \<times> (ReconcileError, ReconcileStats) result" where
  "tick presets running r =
     (case presets of
        Inl e \<Rightarrow> (r, [], Err (ReconcileStorage e))
      | Inr presets \<Rightarrow>
          (case running of
             Inl e \<Rightarrow> (r, [], Err (ReconcileStorage e))
           | Inr running \<Rightarrow>
               let stats = \<lparr> rs_presets_evaluated = length presets,
                     rs_total_desired = sum_list (map (\<lambda>p. ucast (ps_desired_instances p)) presets),
                     rs_total_actual = u64_of_usize (length running),
                     rs_creates_requested = 0, rs_creates_executed = 0,
                     rs_deletes_requested = 0, rs_deletes_executed = 0,
                     rs_creates_suppressed_by_hard_limit = 0 \<rparr>;
                   s = fold (apply_delta (pr_actions r) (hard_limit (pr_options r)))
                         (zip presets (compute_deltas presets running))
                         \<lparr> ts_stats = stats, ts_running_total = length running, ts_calls = [] \<rparr>
               in (r \<lparr> pr_last_stats := Some (ts_stats s) \<rparr>, ts_calls s, Ok (ts_stats s))))"

section \<open>Deltas meet the target\<close>

definition of_preset :: "uuid \<Rightarrow> PrebuiltWorkspace list \<Rightarrow> PrebuiltWorkspace list" where
  "of_preset p running = filter (\<lambda>ws. pw_preset_id ws = p) running"

lemma group_by_preset_get:
  "hm_get (group_by_preset running) p =
     (if of_preset p running = [] then None else Some (of_preset p running))"
  unfolding group_by_preset_def
  by (induction running rule: rev_induct) (auto simp: of_preset_def hm.get_insert)

lemma running_by_preset_get:
  "hm_get (running_by_preset running) p =
     (if of_preset p running = [] then None else Some (sort_key pw_created_at (of_preset p running)))"
proof -
  have "hm_get (running_by_preset running) p =
      map_option (sort_key pw_created_at) (hm_get (group_by_preset running) p)"
    by (simp add: running_by_preset_def hm_get_def map_of_map)
  then show ?thesis by (simp add: group_by_preset_get)
qed

text \<open>
  What a delta has to achieve for a preset: the workspaces it deletes and those it keeps make up the
  running ones, the deleted ones are the oldest, the kept ones are as many as desired (or all, if
  there are fewer), and the missing ones are created exactly if the preset may create.
\<close>

definition reaches_target :: "PrebuiltWorkspace list \<Rightarrow> PresetPrebuildInfo \<Rightarrow> PresetDelta \<Rightarrow> bool" where
  "reaches_target running p d \<longleftrightarrow>
     (\<exists>gone kept. mset (of_preset (ps_preset_id p) running) = mset gone + mset kept \<and>
        pd_preset_id d = ps_preset_id p \<and> pd_to_delete d = map pw_id gone \<and>
        (\<forall>g\<in>set gone. \<forall>k\<in>set kept. pw_created_at g \<le> pw_created_at k) \<and>
        length kept = min (length (of_preset (ps_preset_id p) running)) (unat (ps_desired_instances p)) \<and>
        unat (pd_to_create d) =
          (if \<not> ps_is_hard_limited p \<and> ps_using_active_version p
           then unat (ps_desired_instances p) - length kept else 0))"

lemma sorted_key_split:
  assumes "g \<in> set (take n (sort_key f xs))" and "k \<in> set (drop n (sort_key f xs))"
  shows "f g \<le> f k"
proof -
  have "sorted (map f (take n (sort_key f xs) @ drop n (sort_key f xs)))" by simp
  then show ?thesis using assms unfolding map_append sorted_append by auto
qed

lemma preset_delta_reaches_target:
  "reaches_target running p (preset_delta (running_by_preset running) p)"
proof -
  let ?mine = "of_preset (ps_preset_id p) running"
  let ?sorted = "sort_key pw_created_at ?mine"
  let ?n = "length ?mine - unat (ps_desired_instances p)"
  let ?d = "preset_delta (running_by_preset running) p"
  have "unat (ps_desired_instances p) < 2 ^ 32"
    by (rule unat_u32)
  then have u32: "unat (u32_of_usize (unat (ps_desired_instances p) - k)) =
      unat (ps_desired_instances p) - k" for k
    by (simp add: u32_of_usize_def unat_of_nat less_imp_diff_less)
  have "mset ?mine = mset (take ?n ?sorted) + mset (drop ?n ?sorted)"
    by (metis append_take_drop_id mset_append mset_sort)
  moreover have "\<forall>g\<in>set (take ?n ?sorted). \<forall>k\<in>set (drop ?n ?sorted). pw_created_at g \<le> pw_created_at k"
    by (intro ballI) (rule sorted_key_split)
  moreover have "length (drop ?n ?sorted) = min (length ?mine) (unat (ps_desired_instances p))"
    by simp
  moreover have "pd_preset_id ?d = ps_preset_id p" "pd_to_delete ?d = map pw_id (take ?n ?sorted)"
    "unat (pd_to_create ?d) = (if \<not> ps_is_hard_limited p \<and> ps_using_active_version p
       then unat (ps_desired_instances p) - length (drop ?n ?sorted) else 0)"
    by (auto simp: preset_delta_def Let_def running_by_preset_get u32)
  ultimately show ?thesis unfolding reaches_target_def by blast
qed

section \<open>The hard limit\<close>

definition creates_ok :: "call_log \<Rightarrow> nat" where
  "creates_ok calls = length (filter (\<lambda>(c, ok). ok \<and> (case c of CreatePrebuild i \<Rightarrow> True | _ \<Rightarrow> False)) calls)"

definition deletes :: "call_log \<Rightarrow> nat" where
  "deletes calls = length (filter (\<lambda>(c, ok). case c of DeletePrebuild i \<Rightarrow> True | _ \<Rightarrow> False) calls)"

definition deletes_ok :: "call_log \<Rightarrow> nat" where
  "deletes_ok calls = length (filter (\<lambda>(c, ok). ok \<and> (case c of DeletePrebuild i \<Rightarrow> True | _ \<Rightarrow> False)) calls)"

lemmas call_counts = creates_ok_def deletes_def deletes_ok_def

text \<open>
  The invariant of a tick with limit \<open>l\<close> that started with \<open>n\<close> workspaces: the running total stays
  within the larger of the two, and accounts for every create and every attempted delete.
\<close>

definition limit_inv :: "nat \<Rightarrow> nat \<Rightarrow> tick_state \<Rightarrow> bool" where
  "limit_inv l n s \<longleftrightarrow> ts_running_total s \<le> max n l \<and>
     n + creates_ok (ts_calls s) \<le> ts_running_total s + deletes (ts_calls s) \<and>
     (\<forall>k. n + creates_ok (take k (ts_calls s)) \<le> max n l + deletes (take k (ts_calls s)))"

lemma limit_inv_stats [simp]: "limit_inv l n (ts_stats_update f s) = limit_inv l n s"
  by (simp add: limit_inv_def)

lemma limit_inv_snoc:
  assumes "\<forall>k. n + creates_ok (take k calls) \<le> m + deletes (take k calls)"
    and "n + creates_ok (calls @ [c]) \<le> m + deletes (calls @ [c])"
  shows "n + creates_ok (take k (calls @ [c])) \<le> m + deletes (take k (calls @ [c]))"
  using assms by (cases "k \<le> length calls") simp_all

lemma limit_inv_delete:
  assumes "limit_inv l n s"
  shows "limit_inv l n (delete_one (Some ex) i s)"
proof -
  let ?calls = "ts_calls s" and ?c = "(DeletePrebuild i, ex (ts_calls s) (DeletePrebuild i))"
  have counts: "creates_ok (?calls @ [?c]) = creates_ok ?calls" "deletes (?calls @ [?c]) = Suc (deletes ?calls)"
    by (simp_all add: call_counts)
  have "n + creates_ok (take k (?calls @ [?c])) \<le> max n l + deletes (take k (?calls @ [?c]))" for k
    using assms counts by (intro limit_inv_snoc) (auto simp: limit_inv_def)
  with assms counts show ?thesis
    by (auto simp: delete_one_def run_call_def Let_def limit_inv_def)
qed

lemma limit_inv_create:
  assumes "limit_inv l n s"
  shows "limit_inv l n (create_one (Some ex) (Some l) p s)"
proof (cases "l \<le> ts_running_total s")
  case True
  with assms show ?thesis by (simp add: create_one_def)
next
  case False
  let ?c = "CreatePrebuild (start_input p)"
  let ?calls = "ts_calls s" and ?x = "(?c, ex (ts_calls s) ?c)"
  have counts: "creates_ok (?calls @ [?x]) \<le> Suc (creates_ok ?calls)" "deletes (?calls @ [?x]) = deletes ?calls"
    by (simp_all add: call_counts)
  have "n + creates_ok (take k (?calls @ [?x])) \<le> max n l + deletes (take k (?calls @ [?x]))" for k
    using assms counts False by (intro limit_inv_snoc) (auto simp: limit_inv_def)
  with assms counts False show ?thesis
    by (auto simp: create_one_def run_call_def Let_def limit_inv_def)
qed

lemma limit_inv_delta: "limit_inv l n s \<Longrightarrow> limit_inv l n (apply_delta (Some ex) (Some l) pd s)"
proof -
  have d: "limit_inv l n s \<Longrightarrow> limit_inv l n (fold (delete_one (Some ex)) is s)" for "is" s
    by (induction "is" arbitrary: s) (simp_all add: limit_inv_delete)
  have c: "limit_inv l n s \<Longrightarrow> limit_inv l n ((create_one (Some ex) (Some l) p ^^ m) s)" for m p s
    by (induction m) (simp_all add: limit_inv_create)
  assume "limit_inv l n s"
  then show ?thesis by (simp add: apply_delta_def apply_deletes_def apply_creates_def c d)
qed

lemma limit_inv_deltas:
  "limit_inv l n s \<Longrightarrow> limit_inv l n (fold (apply_delta (Some ex) (Some l)) pds s)"
  by (induction pds arbitrary: s) (simp_all add: limit_inv_delta)

lemma limit_inv_start: "limit_inv l n \<lparr> ts_stats = st, ts_running_total = n, ts_calls = [] \<rparr>"
  by (simp add: limit_inv_def call_counts)

lemma tick_calls:
  "fst (snd (tick (Inr presets) (Inr running) r)) =
   ts_calls (fold (apply_delta (pr_actions r) (hard_limit (pr_options r)))
     (zip presets (compute_deltas presets running))
     \<lparr> ts_stats = \<lparr> rs_presets_evaluated = length presets,
          rs_total_desired = sum_list (map (\<lambda>p. ucast (ps_desired_instances p)) presets),
          rs_total_actual = u64_of_usize (length running), rs_creates_requested = 0,
          rs_creates_executed = 0, rs_deletes_requested = 0, rs_deletes_executed = 0,
          rs_creates_suppressed_by_hard_limit = 0 \<rparr>,
       ts_running_total = length running, ts_calls = [] \<rparr>)"
  by (simp add: tick_def Let_def)

lemma no_executor_no_calls:
  "ts_calls s = [] \<Longrightarrow> ts_calls (fold (apply_delta None limit) pds s) = []"
proof (induction pds arbitrary: s)
  case Nil
  then show ?case by simp
next
  case (Cons pd pds)
  have d: "ts_calls (fold (delete_one None) is s) = ts_calls s" for "is" s
    by (induction "is" arbitrary: s) (simp_all add: delete_one_def run_call_def Let_def)
  have c: "ts_calls ((create_one None limit p ^^ m) s) = ts_calls s" for m p s
    by (induction m) (simp_all add: create_one_def run_call_def Let_def)
  have "ts_calls (apply_delta None limit pd s) = []"
    using Cons.prems by (simp add: apply_delta_def apply_deletes_def apply_creates_def c d)
  with Cons.IH show ?case by simp
qed

lemma all_deletes_ok:
  "\<forall>i. (DeletePrebuild i, False) \<notin> set calls \<Longrightarrow> deletes calls = deletes_ok calls"
  by (induction calls) (auto simp: call_counts split: prebuild_call.splits)

section \<open>Example\<close>

text \<open>
  A retired preset with one workspace left, a preset that lacks one, and a limit of one workspace.
\<close>

definition example_preset :: "uuid \<Rightarrow> 32 word \<Rightarrow> PresetPrebuildInfo" where
  "example_preset i desired =
     \<lparr> ps_template_id = 1, ps_template_version_id = 1, ps_organization_id = 1, ps_preset_id = i,
       ps_preset_name = ''p'', ps_desired_instances = desired, ps_using_active_version = True,
       ps_is_hard_limited = False \<rparr>"

definition example_reconciler :: "bool \<Rightarrow> PrebuildReconciler" where
  "example_reconciler deletes_work =
     with_actions \<lparr> tick_interval = 1, hard_limit = Some 1 \<rparr>
       (\<lambda>log c. case c of DeletePrebuild i \<Rightarrow> deletes_work | CreatePrebuild i \<Rightarrow> True)"

definition example_calls :: "bool \<Rightarrow> call_log" where
  "example_calls deletes_work =
     fst (snd (tick (Inr [example_preset 1 0, example_preset 2 1])
       (Inr [\<lparr> pw_id = 7, pw_preset_id = 1, pw_created_at = 0 \<rparr>]) (example_reconciler deletes_work)))"

lemma example_calls:
  "example_calls ok = [(DeletePrebuild 7, ok), (CreatePrebuild (start_input (example_preset 2 1)), True)]"
  by (simp add: example_calls_def tick_calls example_reconciler_def with_actions_def
      example_preset_def compute_deltas_def preset_delta_def running_by_preset_get of_preset_def
      u32_of_usize_def apply_delta_def apply_deletes_def apply_creates_def delete_one_def
      create_one_def run_call_def start_input_def Let_def)

section \<open>Properties\<close>

text \<open>
  For every preset the reconciler plans exactly what its target needs: it deletes the oldest
  excess prebuilds and keeps the desired number, or creates the missing ones if the preset is on the
  active version and not limited by failures, and never both.
\<close>

theorem deltas_reach_target:
  "list_all2 (reaches_target running) presets (compute_deltas presets running)"
  by (simp add: compute_deltas_def list_all2_conv_all_nth preset_delta_reaches_target)

text \<open>
  When every delete succeeds, a tick with a hard limit never has more prebuilt workspaces than
  the limit or the number it started with: after every prefix of its calls, the workspaces it
  started with and those created are at most the larger of the two plus those deleted.
\<close>

theorem tick_respects_hard_limit:
  assumes "hard_limit (pr_options r) = Some l"
    and "\<forall>i. (DeletePrebuild i, False) \<notin> set (fst (snd (tick (Inr presets) (Inr running) r)))"
  shows "length running + creates_ok (take k (fst (snd (tick (Inr presets) (Inr running) r)))) \<le>
    max (length running) l + deletes_ok (take k (fst (snd (tick (Inr presets) (Inr running) r))))"
proof -
  let ?calls = "fst (snd (tick (Inr presets) (Inr running) r))"
  have "\<forall>i. (DeletePrebuild i, False) \<notin> set (take k ?calls)"
    using assms(2) by (meson in_set_takeD)
  then have ok: "deletes (take k ?calls) = deletes_ok (take k ?calls)" by (rule all_deletes_ok)
  show ?thesis
  proof (cases "pr_actions r")
    case None
    then have "?calls = []" unfolding tick_calls by (simp add: no_executor_no_calls)
    then show ?thesis by (simp add: call_counts)
  next
    case (Some ex)
    have "n + creates_ok (take k (ts_calls s)) \<le> max n l + deletes (take k (ts_calls s))"
      if "limit_inv l n s" for n s
      using that by (simp add: limit_inv_def)
    from this [OF limit_inv_deltas [OF limit_inv_start]] show ?thesis
      unfolding ok [symmetric] unfolding tick_calls Some assms(1) .
  qed
qed

theorem tick_respects_hard_limit_witness:
  "1 + creates_ok (take 2 (example_calls True)) \<le> max 1 1 + deletes_ok (take 2 (example_calls True))"
proof -
  have "hard_limit (pr_options (example_reconciler True)) = Some 1"
    by (simp add: example_reconciler_def with_actions_def)
  note * = tick_respects_hard_limit [OF this, of "[example_preset 1 0, example_preset 2 1]"
      "[\<lparr> pw_id = 7, pw_preset_id = 1, pw_created_at = 0 \<rparr>]" 2,
      folded example_calls_def]
  have "\<forall>i. (DeletePrebuild i, False) \<notin> set (example_calls True)" by (simp add: example_calls)
  from * [OF this] show ?thesis by simp
qed

text \<open>
  A delete that fails is still taken off the running total, so a tick can exceed the hard limit:
  with a limit of one and one workspace that cannot be deleted, the tick creates a second one.
\<close>

theorem failed_delete_exceeds_hard_limit:
  "hard_limit (pr_options (example_reconciler False)) = Some 1 \<and>
   1 + creates_ok (example_calls False) = 2 + deletes_ok (example_calls False)"
  by (simp add: example_calls call_counts) (simp add: example_reconciler_def with_actions_def)

end
