(* ===== verification/Provisioner_Tags.thy ===== *)
theory Provisioner_Tags
  imports Core_Types
begin

text \<open>
  The provisioner vocabulary and tag matching of \<open>crates/coder-core/src/provisioner.rs\<close>: job
  statuses and types with their database strings, the normalisation of tags, and the decision
  whether a daemon may take a job. Tag sets are hash maps; \<open>hm_eq\<close> is equality of hash maps. JSON
  values belong to \<open>serde_json\<close>, so the two accessors \<open>tags_from_json\<close> uses are parameters.
\<close>

section \<open>Enumerations\<close>

datatype ProvisionerJobStatus =
  Pending | Running | Succeeded | Failed | Canceling | Canceled | UnknownStatus

fun job_status_as_str :: "ProvisionerJobStatus \<Rightarrow> string" where
  "job_status_as_str Pending = ''pending''"
| "job_status_as_str Running = ''running''"
| "job_status_as_str Succeeded = ''succeeded''"
| "job_status_as_str Failed = ''failed''"
| "job_status_as_str Canceling = ''canceling''"
| "job_status_as_str Canceled = ''canceled''"
| "job_status_as_str UnknownStatus = ''unknown''"

datatype ProvisionerType = Terraform | Echo

fun provisioner_type_as_str :: "ProvisionerType \<Rightarrow> string" where
  "provisioner_type_as_str Terraform = ''terraform''"
| "provisioner_type_as_str Echo = ''echo''"

definition provisioner_type_from_str :: "string \<Rightarrow> (string, ProvisionerType) result" where
  "provisioner_type_from_str s =
     (if s = ''terraform'' then Ok Terraform
      else if s = ''echo'' then Ok Echo
      else Err (''unknown provisioner type: '' @ s))"

datatype ProvisionerJobType = TemplateVersionImport | TemplateVersionDryRun | WorkspaceBuild

fun job_type_as_str :: "ProvisionerJobType \<Rightarrow> string" where
  "job_type_as_str TemplateVersionImport = ''template_version_import''"
| "job_type_as_str TemplateVersionDryRun = ''template_version_dry_run''"
| "job_type_as_str WorkspaceBuild = ''workspace_build''"

definition job_type_from_str :: "string \<Rightarrow> (string, ProvisionerJobType) result" where
  "job_type_from_str s =
     (if s = ''template_version_import'' then Ok TemplateVersionImport
      else if s = ''template_version_dry_run'' then Ok TemplateVersionDryRun
      else if s = ''workspace_build'' then Ok WorkspaceBuild
      else Err (''unknown provisioner job type: '' @ s))"

lemma provisioner_type_roundtrip:
  "provisioner_type_from_str s = Ok t \<longleftrightarrow> s = provisioner_type_as_str t"
  by (cases t) (auto simp: provisioner_type_from_str_def split: if_splits)

lemma job_type_roundtrip: "job_type_from_str s = Ok t \<longleftrightarrow> s = job_type_as_str t"
  by (cases t) (auto simp: job_type_from_str_def split: if_splits)

section \<open>Tags\<close>

type_synonym tags = "(string, string) hash_map"

definition TAG_SCOPE :: string where "TAG_SCOPE = ''scope''"
definition TAG_OWNER :: string where "TAG_OWNER = ''owner''"
definition SCOPE_USER :: string where "SCOPE_USER = ''user''"
definition SCOPE_ORGANIZATION :: string where "SCOPE_ORGANIZATION = ''organization''"
definition TAG_WILDCARD :: string where "TAG_WILDCARD = ''*''"

lemmas tag_consts = TAG_SCOPE_def TAG_OWNER_def SCOPE_USER_def SCOPE_ORGANIZATION_def
  TAG_WILDCARD_def

text \<open>\<open>PartialEq\<close> of hash maps: as many entries, and every entry of one found in the other.\<close>

definition hm_eq :: "('k, 'v) hash_map \<Rightarrow> ('k, 'v) hash_map \<Rightarrow> bool" where
  "hm_eq a b \<longleftrightarrow> length a = length b \<and> list_all (\<lambda>(k, v). hm_get b k = Some v) a"

definition merge_tags :: "tags \<Rightarrow> tags \<Rightarrow> tags" where
  "merge_tags target extra =
     fold (\<lambda>(k, v) t. if v = [] then t else hm_insert k v t) extra target"

definition mutate_tags :: "uuid_codec \<Rightarrow> uuid \<Rightarrow> tags list \<Rightarrow> tags" where
  "mutate_tags U user_id provided =
     (let tags = fold (\<lambda>extra t. merge_tags t extra) provided hm_empty;
          tags = (if hm_get tags TAG_SCOPE = None
                  then hm_insert TAG_OWNER [] (hm_insert TAG_SCOPE SCOPE_ORGANIZATION tags)
                  else tags)
      in if hm_get tags TAG_SCOPE = Some SCOPE_USER
         then hm_insert TAG_OWNER (to_string U user_id) tags
         else if hm_get tags TAG_SCOPE = Some SCOPE_ORGANIZATION
         then hm_insert TAG_OWNER [] tags
         else hm_insert TAG_OWNER [] (hm_insert TAG_SCOPE SCOPE_ORGANIZATION tags))"

definition is_untagged_org_scope :: "tags \<Rightarrow> bool" where
  "is_untagged_org_scope tags \<longleftrightarrow>
     length tags = 2 \<and> hm_get tags TAG_SCOPE = Some SCOPE_ORGANIZATION \<and>
     hm_get tags TAG_OWNER = Some []"

definition provisioner_tagset_matches :: "tags \<Rightarrow> tags \<Rightarrow> bool" where
  "provisioner_tagset_matches daemon_tags job_tags =
     (if is_untagged_org_scope job_tags then hm_eq daemon_tags job_tags
      else list_all (\<lambda>(k, v). case hm_get daemon_tags k of
             Some dv \<Rightarrow> if dv = TAG_WILDCARD then True else dv = v
           | None \<Rightarrow> False) job_tags)"

datatype DaemonScopePreference = PreferOrganization | PreferUser | PreferUnknown

definition daemon_scope_preference :: "tags \<Rightarrow> DaemonScopePreference" where
  "daemon_scope_preference daemon_tags =
     (if hm_get daemon_tags TAG_SCOPE = Some SCOPE_ORGANIZATION then PreferOrganization
      else if hm_get daemon_tags TAG_SCOPE = Some SCOPE_USER then PreferUser
      else PreferUnknown)"

text \<open>The derived order: variants declared earlier are smaller, and preferred.\<close>

fun preference_index :: "DaemonScopePreference \<Rightarrow> nat" where
  "preference_index PreferOrganization = 0"
| "preference_index PreferUser = 1"
| "preference_index PreferUnknown = 2"

instantiation DaemonScopePreference :: linorder
begin

definition less_eq_DaemonScopePreference :: "DaemonScopePreference \<Rightarrow> DaemonScopePreference \<Rightarrow> bool" where
  "a \<le> b \<longleftrightarrow> preference_index a \<le> preference_index b"

definition less_DaemonScopePreference :: "DaemonScopePreference \<Rightarrow> DaemonScopePreference \<Rightarrow> bool" where
  "a < b \<longleftrightarrow> preference_index a < preference_index b"

instance
proof
  fix a b :: DaemonScopePreference
  show "a \<le> b \<Longrightarrow> b \<le> a \<Longrightarrow> a = b"
    by (cases a; cases b) (simp_all add: less_eq_DaemonScopePreference_def)
qed (auto simp: less_eq_DaemonScopePreference_def less_DaemonScopePreference_def)

end

definition tags_from_json ::
  "('j \<Rightarrow> (string \<times> 'j) list option) \<Rightarrow> ('j \<Rightarrow> string option) \<Rightarrow> 'j \<Rightarrow> tags" where
  "tags_from_json as_object as_str j =
     (case as_object j of
        None \<Rightarrow> hm_empty
      | Some obj \<Rightarrow>
          fold (\<lambda>(k, v) out. case as_str v of Some s \<Rightarrow> hm_insert k s out | None \<Rightarrow> out) obj hm_empty)"

section \<open>Normalised tag sets\<close>

text \<open>
  What normalisation establishes: a well-formed map whose scope is one of the two scopes and whose
  owner is the one the scope asks for.
\<close>

definition tags_normal :: "uuid_codec \<Rightarrow> uuid \<Rightarrow> tags \<Rightarrow> bool" where
  "tags_normal U user_id t \<longleftrightarrow> hm_wf t \<and>
     (hm_get t TAG_SCOPE = Some SCOPE_USER \<and> hm_get t TAG_OWNER = Some (to_string U user_id) \<or>
      hm_get t TAG_SCOPE = Some SCOPE_ORGANIZATION \<and> hm_get t TAG_OWNER = Some [])"

lemma merge_tags_wf: "hm_wf t \<Longrightarrow> hm_wf (merge_tags t extra)"
  unfolding merge_tags_def by (induction extra arbitrary: t) (auto simp: hm.wf_insert)

lemma merge_all_wf: "hm_wf t \<Longrightarrow> hm_wf (fold (\<lambda>extra t. merge_tags t extra) provided t)"
  by (induction provided arbitrary: t) (simp_all add: merge_tags_wf)

lemma mutate_tags_normal: "tags_normal U user_id (mutate_tags U user_id provided)"
  using merge_all_wf [OF hm.wf_empty, of provided]
  by (simp add: mutate_tags_def tags_normal_def Let_def hm.wf_insert hm.get_insert)
    (auto simp: tag_consts)

text \<open>A tag other than scope and owner survives normalisation as its last non-empty value.\<close>

lemma merge_tags_get:
  "hm_get (merge_tags t extra) k =
     (case find (\<lambda>(k', v). k' = k \<and> v \<noteq> []) (rev extra) of Some (k', v) \<Rightarrow> Some v | None \<Rightarrow> hm_get t k)"
  unfolding merge_tags_def
  by (induction extra rule: rev_induct) (auto simp: hm.get_insert split: if_splits)

lemma mutate_tags_other:
  "k \<noteq> TAG_SCOPE \<Longrightarrow> k \<noteq> TAG_OWNER \<Longrightarrow>
   hm_get (mutate_tags U u provided) k = hm_get (fold (\<lambda>extra t. merge_tags t extra) provided hm_empty) k"
  by (simp add: mutate_tags_def Let_def hm.get_insert)

lemma matches_subset:
  assumes "hm_wf d" and "hm_wf j" and "provisioner_tagset_matches d j" and "hm_get j k = Some v"
  shows "hm_get d k = Some TAG_WILDCARD \<or> hm_get d k = Some v"
proof -
  have in_j: "(k, v) \<in> set j" using assms(2,4) by (simp add: hm.entries_get)
  show ?thesis
  proof (cases "is_untagged_org_scope j")
    case True
    then have eq: "length d = length j" "\<forall>(k', v')\<in>set d. hm_get j k' = Some v'"
      using assms(3) by (simp_all add: provisioner_tagset_matches_def hm_eq_def list_all_iff)
    have "set d \<subseteq> set j" using eq(2) assms(2) by (auto simp: hm.entries_get)
    moreover have "distinct d" "distinct j"
      using assms(1,2) by (auto simp: hm_wf_def distinct_map)
    ultimately have "set d = set j"
      using eq(1) by (intro card_subset_eq) (simp_all add: distinct_card)
    with in_j have "(k, v) \<in> set d" by simp
    then show ?thesis using hm.entries_get [OF assms(1)] by blast
  next
    case False
    with assms(3) in_j show ?thesis
      by (fastforce simp: provisioner_tagset_matches_def list_all_iff split: option.splits if_splits)
  qed
qed

section \<open>Properties\<close>

text \<open>
  Provisioner daemons and jobs of different tenants never meet: when a daemon's normalised tags
  match a job's normalised tags, wildcards included, both have the same scope, and if that scope is
  the user scope, the daemon and the job belong to the same user.
\<close>

theorem tag_match_respects_tenant:
  assumes "uuid_text U"
    and "provisioner_tagset_matches (mutate_tags U daemon_user daemon_maps)
           (mutate_tags U job_user job_maps)"
  shows "hm_get (mutate_tags U daemon_user daemon_maps) TAG_SCOPE =
         hm_get (mutate_tags U job_user job_maps) TAG_SCOPE \<and>
    (hm_get (mutate_tags U job_user job_maps) TAG_SCOPE = Some SCOPE_USER \<longrightarrow> daemon_user = job_user)"
proof -
  let ?d = "mutate_tags U daemon_user daemon_maps" and ?j = "mutate_tags U job_user job_maps"
  have d: "tags_normal U daemon_user ?d" and j: "tags_normal U job_user ?j"
    by (rule mutate_tags_normal)+
  then have wf: "hm_wf ?d" "hm_wf ?j" by (simp_all add: tags_normal_def)
  note sub = matches_subset [OF wf assms(2)]
  have "hm_get ?d TAG_SCOPE \<noteq> Some TAG_WILDCARD" "hm_get ?d TAG_OWNER \<noteq> Some TAG_WILDCARD"
    using d uuid_text.to_string_not_star [OF assms(1)]
    by (auto simp: tags_normal_def tag_consts)
  with sub [of TAG_SCOPE] sub [of TAG_OWNER] d j uuid_text.to_string_inj [OF assms(1)]
  show ?thesis by (auto simp: tags_normal_def SCOPE_USER_def SCOPE_ORGANIZATION_def)
qed

theorem tag_match_respects_tenant_witness:
  "hm_get (mutate_tags hyphenated_codec 7 [[(''scope'', ''user''), (''gpu'', ''*'')]]) TAG_SCOPE =
   hm_get (mutate_tags hyphenated_codec 7 [[(''scope'', ''user'')], [(''gpu'', ''yes'')]]) TAG_SCOPE"
proof -
  have "provisioner_tagset_matches
      (mutate_tags hyphenated_codec 7 [[(''scope'', ''user''), (''gpu'', ''*'')]])
      (mutate_tags hyphenated_codec 7 [[(''scope'', ''user'')], [(''gpu'', ''yes'')]])"
    by (simp add: mutate_tags_def merge_tags_def provisioner_tagset_matches_def
        is_untagged_org_scope_def tag_consts hm_defs)
  from tag_match_respects_tenant [OF hy.uuid_text_axioms this] show ?thesis by blast
qed

end
