(* ===== verification/Provisioner_Store.thy ===== *)
theory Provisioner_Store
  imports Provisioner_Tags
begin

text \<open>
  The provisioner tables and the statements of \<open>crates/coder-db/src/store/provisioner.rs\<close>, with the
  records of \<open>crates/coder-core/src/provisioner.rs\<close>. One statement is one atomic step of the database.
  The status of a job is the generated column of the migrations. Tags are maps of strings, as
  \<open>mutate_tags\<close> makes them; the other JSON columns are passed through and have an arbitrary type.
  Rows with equal sort keys come in the order of the table, which is arbitrary. What Postgres
  contributes is a parameter: \<open>pv_fault\<close> may make a statement fail, \<open>pv_locked\<close> says which job rows
  another transaction holds, \<open>pv_shuffle\<close> is \<open>ORDER BY random()\<close>, \<open>pv_gen_uuid\<close> the generator and
  \<open>pv_reject\<close> the error of a violated constraint. Times are numbers of nanoseconds.
\<close>

section \<open>Records\<close>

datatype ProvisionerStorageMethod = File

datatype LogSource = ProvisionerDaemonLog | ProvisionerLog

fun log_source_as_str :: "LogSource \<Rightarrow> string" where
  "log_source_as_str ProvisionerDaemonLog = ''provisioner_daemon''"
| "log_source_as_str ProvisionerLog = ''provisioner''"

datatype LogLevel = Trace | Debug | Info | Warn | Error

fun log_level_as_str :: "LogLevel \<Rightarrow> string" where
  "log_level_as_str Trace = ''trace''"
| "log_level_as_str Debug = ''debug''"
| "log_level_as_str Info = ''info''"
| "log_level_as_str Warn = ''warn''"
| "log_level_as_str Error = ''error''"

datatype ProvisionerJobTimingStage = Init | Plan | Graph | Apply

fun timing_stage_as_str :: "ProvisionerJobTimingStage \<Rightarrow> string" where
  "timing_stage_as_str Init = ''init''"
| "timing_stage_as_str Plan = ''plan''"
| "timing_stage_as_str Graph = ''graph''"
| "timing_stage_as_str Apply = ''apply''"

record 'j ProvisionerJobRecord =
  pj_id :: uuid
  pj_created_at :: instant
  pj_updated_at :: instant
  pj_started_at :: "instant option"
  pj_canceled_at :: "instant option"
  pj_completed_at :: "instant option"
  pj_error :: string
  pj_error_code :: string
  pj_organization_id :: "uuid option"
  pj_initiator_id :: "uuid option"
  pj_provisioner :: ProvisionerType
  pj_storage_method :: ProvisionerStorageMethod
  pj_file_id :: "uuid option"
  pj_job_type :: ProvisionerJobType
  pj_input :: 'j
  pj_tags :: tags
  pj_trace_metadata :: 'j
  pj_worker_id :: "uuid option"
  pj_logs_overflowed :: bool
  pj_logs_length :: int

definition job_status :: "'j ProvisionerJobRecord \<Rightarrow> ProvisionerJobStatus" where
  "job_status j =
     (if pj_completed_at j \<noteq> None \<and> pj_canceled_at j \<noteq> None then Canceled
      else if pj_completed_at j \<noteq> None \<and> pj_error j \<noteq> [] then Failed
      else if pj_completed_at j \<noteq> None then Succeeded
      else if pj_canceled_at j \<noteq> None then Canceling
      else if pj_started_at j \<noteq> None then Running
      else Pending)"

record ProvisionerJobLogRecord =
  pl_id :: int
  pl_job_id :: uuid
  pl_created_at :: instant
  pl_source :: LogSource
  pl_level :: LogLevel
  pl_stage :: string
  pl_output :: string

record ProvisionerJobTimingRecord =
  pt_job_id :: uuid
  pt_started_at :: instant
  pt_ended_at :: instant
  pt_stage :: ProvisionerJobTimingStage
  pt_source :: string
  pt_action :: string
  pt_resource :: string

record 'j ProvisionerKeyRecord =
  pk_id :: uuid
  pk_created_at :: instant
  pk_organization_id :: uuid
  pk_name :: string
  pk_hashed_secret :: "nat list"
  pk_tags :: 'j

record ProvisionerDaemonRecord =
  pd_id :: uuid
  pd_organization_id :: uuid
  pd_created_at :: instant
  pd_last_seen_at :: "instant option"
  pd_name :: string
  pd_version :: string
  pd_api_version :: string
  pd_provisioners :: "string list"
  pd_tags :: tags
  pd_key_id :: "uuid option"

record 'j InsertProvisionerJobInput =
  ij_id :: uuid
  ij_created_at :: instant
  ij_organization_id :: uuid
  ij_initiator_id :: uuid
  ij_provisioner :: ProvisionerType
  ij_storage_method :: ProvisionerStorageMethod
  ij_file_id :: uuid
  ij_job_type :: ProvisionerJobType
  ij_input :: 'j
  ij_tags :: tags
  ij_trace_metadata :: 'j

record AcquireProvisionerJobInput =
  aj_worker_id :: uuid
  aj_started_at :: instant
  aj_organization_id :: uuid
  aj_types :: "ProvisionerType list"
  aj_provisioner_tags :: tags

record CompleteProvisionerJobInput =
  cj_id :: uuid
  cj_updated_at :: instant
  cj_completed_at :: instant
  cj_error :: string
  cj_error_code :: string

record CancelProvisionerJobInput =
  xj_id :: uuid
  xj_canceled_at :: instant
  xj_completed_at :: "instant option"

record InsertProvisionerJobLogsInput =
  il_job_id :: uuid
  il_created_at :: "instant list"
  il_source :: "LogSource list"
  il_level :: "LogLevel list"
  il_stage :: "string list"
  il_output :: "string list"

record InsertProvisionerJobTimingsInput =
  it_job_id :: uuid
  it_started_at :: "instant list"
  it_ended_at :: "instant list"
  it_stage :: "ProvisionerJobTimingStage list"
  it_source :: "string list"
  it_action :: "string list"
  it_resource :: "string list"

record UpsertProvisionerDaemonInput =
  ud_name :: string
  ud_provisioners :: "string list"
  ud_tags :: tags
  ud_last_seen_at :: instant
  ud_version :: string
  ud_organization_id :: uuid
  ud_api_version :: string
  ud_key_id :: "uuid option"

record GetJobsToBeReapedInput =
  gj_pending_since :: instant
  gj_hung_since :: instant
  gj_max_jobs :: int

section \<open>The database\<close>

record 'j ProvisionerDb =
  db_jobs :: "'j ProvisionerJobRecord list"
  db_logs :: "ProvisionerJobLogRecord list"
  db_next_log_id :: int
  db_timings :: "ProvisionerJobTimingRecord list"
  db_daemons :: "ProvisionerDaemonRecord list"
  db_keys :: "'j ProvisionerKeyRecord list"

datatype ProvisionerCall =
    AcquireProvisionerJob | GetProvisionerJobById | GetProvisionerJobsByIds | InsertProvisionerJob
  | UpdateProvisionerJobById | UpdateProvisionerJobWithCompleteById
  | UpdateProvisionerJobWithCancelById | GetProvisionerJobsToBeReaped
  | InsertProvisionerJobLogs | GetProvisionerLogsAfterId
  | InsertProvisionerJobTimings | GetProvisionerJobTimingsByJobId
  | UpsertProvisionerDaemon | UpdateProvisionerDaemonLastSeenAt | GetProvisionerDaemonsByOrganization
  | DeleteOldProvisionerDaemons
  | InsertProvisionerKey | GetProvisionerKey | ListProvisionerKeys | DeleteProvisionerKey

record 'j prov_env =
  pv_fault :: "ProvisionerCall \<Rightarrow> uuid \<Rightarrow> StorageError option"
  pv_locked :: "uuid \<Rightarrow> bool"
  pv_shuffle :: "'j ProvisionerJobRecord list \<Rightarrow> 'j ProvisionerJobRecord list"
  pv_gen_uuid :: uuid
  pv_reject :: StorageError

type_synonym ('j, 'a) stmt = "'j ProvisionerDb \<times> (StorageError, 'a) result"

definition attempt :: "'j prov_env \<Rightarrow> ProvisionerCall \<Rightarrow> uuid \<Rightarrow> 'j ProvisionerDb \<Rightarrow> ('j, 'a) stmt \<Rightarrow> ('j, 'a) stmt" where
  "attempt E call key db s = (case pv_fault E call key of Some e \<Rightarrow> (db, Err e) | None \<Rightarrow> s)"

definition query :: "'j prov_env \<Rightarrow> ProvisionerCall \<Rightarrow> uuid \<Rightarrow> 'a \<Rightarrow> (StorageError, 'a) result" where
  "query E call key x = (case pv_fault E call key of Some e \<Rightarrow> Err e | None \<Rightarrow> Ok x)"

definition update_job :: "uuid \<Rightarrow> ('j ProvisionerJobRecord \<Rightarrow> 'j ProvisionerJobRecord) \<Rightarrow> 'j ProvisionerDb \<Rightarrow> 'j ProvisionerDb" where
  "update_job i f db = db \<lparr> db_jobs := map (\<lambda>j. if pj_id j = i then f j else j) (db_jobs db) \<rparr>"

section \<open>Jobs\<close>

text \<open>The tag condition of the acquisition statement: exact equality for untagged jobs, else containment.\<close>

definition sql_untagged :: "tags \<Rightarrow> bool" where
  "sql_untagged t \<longleftrightarrow> map_of t = [TAG_SCOPE \<mapsto> SCOPE_ORGANIZATION, TAG_OWNER \<mapsto> []]"

definition sql_tags_match :: "tags \<Rightarrow> tags \<Rightarrow> bool" where
  "sql_tags_match daemon_tags job_tags =
     (if sql_untagged job_tags then map_of job_tags = map_of daemon_tags
      else map_of job_tags \<subseteq>\<^sub>m map_of daemon_tags)"

definition acquirable :: "AcquireProvisionerJobInput \<Rightarrow> 'j ProvisionerJobRecord \<Rightarrow> bool" where
  "acquirable input j \<longleftrightarrow>
     pj_started_at j = None \<and> pj_completed_at j = None \<and> pj_canceled_at j = None \<and>
     pj_organization_id j = Some (aj_organization_id input) \<and>
     provisioner_type_as_str (pj_provisioner j) \<in> provisioner_type_as_str ` set (aj_types input) \<and>
     sql_tags_match (aj_provisioner_tags input) (pj_tags j)"

definition acquire_provisioner_job ::
  "'j prov_env \<Rightarrow> AcquireProvisionerJobInput \<Rightarrow> 'j ProvisionerDb \<Rightarrow> ('j, 'j ProvisionerJobRecord option) stmt" where
  "acquire_provisioner_job E input db =
     attempt E AcquireProvisionerJob (aj_worker_id input) db
       (case sort_key pj_created_at (filter (\<lambda>j. acquirable input j \<and> \<not> pv_locked E (pj_id j)) (db_jobs db)) of
          [] \<Rightarrow> (db, Ok None)
        | j # _ \<Rightarrow>
            let taken = (\<lambda>j. j \<lparr> pj_started_at := Some (aj_started_at input), pj_updated_at := aj_started_at input,
                                  pj_worker_id := Some (aj_worker_id input) \<rparr>)
            in (update_job (pj_id j) taken db, Ok (Some (taken j))))"

definition get_provisioner_job_by_id ::
  "'j prov_env \<Rightarrow> uuid \<Rightarrow> 'j ProvisionerDb \<Rightarrow> (StorageError, 'j ProvisionerJobRecord option) result" where
  "get_provisioner_job_by_id E i db =
     query E GetProvisionerJobById i (find (\<lambda>j. pj_id j = i) (db_jobs db))"

definition get_provisioner_jobs_by_ids ::
  "'j prov_env \<Rightarrow> uuid list \<Rightarrow> 'j ProvisionerDb \<Rightarrow> (StorageError, 'j ProvisionerJobRecord list) result" where
  "get_provisioner_jobs_by_ids E ids db =
     query E GetProvisionerJobsByIds 0 (sort_key pj_created_at (filter (\<lambda>j. pj_id j \<in> set ids) (db_jobs db)))"

definition insert_provisioner_job ::
  "'j prov_env \<Rightarrow> 'j InsertProvisionerJobInput \<Rightarrow> 'j ProvisionerDb \<Rightarrow> ('j, 'j ProvisionerJobRecord) stmt" where
  "insert_provisioner_job E input db =
     attempt E InsertProvisionerJob (ij_id input) db
       (if ij_id input \<in> pj_id ` set (db_jobs db) then (db, Err (pv_reject E))
        else
          let j = \<lparr> pj_id = ij_id input, pj_created_at = ij_created_at input, pj_updated_at = ij_created_at input,
                     pj_started_at = None, pj_canceled_at = None, pj_completed_at = None, pj_error = [],
                     pj_error_code = [], pj_organization_id = Some (ij_organization_id input),
                     pj_initiator_id = Some (ij_initiator_id input), pj_provisioner = ij_provisioner input,
                     pj_storage_method = ij_storage_method input, pj_file_id = Some (ij_file_id input),
                     pj_job_type = ij_job_type input, pj_input = ij_input input, pj_tags = ij_tags input,
                     pj_trace_metadata = ij_trace_metadata input, pj_worker_id = None,
                     pj_logs_overflowed = False, pj_logs_length = 0 \<rparr>
          in (db \<lparr> db_jobs := db_jobs db @ [j] \<rparr>, Ok j))"

definition update_provisioner_job_by_id :: "'j prov_env \<Rightarrow> uuid \<Rightarrow> instant \<Rightarrow> 'j ProvisionerDb \<Rightarrow> ('j, unit) stmt" where
  "update_provisioner_job_by_id E i updated_at db =
     attempt E UpdateProvisionerJobById i db (update_job i (\<lambda>j. j \<lparr> pj_updated_at := updated_at \<rparr>) db, Ok ())"

definition update_provisioner_job_with_complete_by_id ::
  "'j prov_env \<Rightarrow> CompleteProvisionerJobInput \<Rightarrow> 'j ProvisionerDb \<Rightarrow> ('j, unit) stmt" where
  "update_provisioner_job_with_complete_by_id E input db =
     attempt E UpdateProvisionerJobWithCompleteById (cj_id input) db
       (update_job (cj_id input)
          (\<lambda>j. j \<lparr> pj_updated_at := cj_updated_at input, pj_completed_at := Some (cj_completed_at input),
                    pj_error := cj_error input, pj_error_code := cj_error_code input \<rparr>) db, Ok ())"

definition update_provisioner_job_with_cancel_by_id ::
  "'j prov_env \<Rightarrow> CancelProvisionerJobInput \<Rightarrow> 'j ProvisionerDb \<Rightarrow> ('j, unit) stmt" where
  "update_provisioner_job_with_cancel_by_id E input db =
     attempt E UpdateProvisionerJobWithCancelById (xj_id input) db
       (update_job (xj_id input)
          (\<lambda>j. j \<lparr> pj_canceled_at := Some (xj_canceled_at input),
                    pj_completed_at := (case xj_completed_at input of Some t \<Rightarrow> Some t | None \<Rightarrow> pj_completed_at j),
                    pj_updated_at := xj_canceled_at input \<rparr>) db, Ok ())"

definition reapable :: "GetJobsToBeReapedInput \<Rightarrow> 'j ProvisionerJobRecord \<Rightarrow> bool" where
  "reapable input j \<longleftrightarrow>
     pj_updated_at j < gj_pending_since input \<and> pj_started_at j = None \<and> pj_completed_at j = None \<or>
     pj_updated_at j < gj_hung_since input \<and> pj_started_at j \<noteq> None \<and> pj_completed_at j = None"

definition get_provisioner_jobs_to_be_reaped ::
  "'j prov_env \<Rightarrow> GetJobsToBeReapedInput \<Rightarrow> 'j ProvisionerDb \<Rightarrow> (StorageError, 'j ProvisionerJobRecord list) result" where
  "get_provisioner_jobs_to_be_reaped E input db =
     query E GetProvisionerJobsToBeReaped 0
       (take (nat (gj_max_jobs input)) (pv_shuffle E (filter (reapable input) (db_jobs db))))"

section \<open>Logs and timings\<close>

definition log_rows :: "InsertProvisionerJobLogsInput \<Rightarrow> int \<Rightarrow> ProvisionerJobLogRecord list" where
  "log_rows input first =
     map (\<lambda>i. \<lparr> pl_id = first + int i, pl_job_id = il_job_id input, pl_created_at = il_created_at input ! i,
                 pl_source = il_source input ! i, pl_level = il_level input ! i, pl_stage = il_stage input ! i,
                 pl_output = il_output input ! i \<rparr>) [0..<length (il_created_at input)]"

definition i32_max :: int where
  "i32_max = 2 ^ 31 - 1"

definition log_bytes :: "string list \<Rightarrow> int" where
  "log_bytes output = (let total = int (sum_list (map length output)) in if total \<le> i32_max then total else i32_max)"

definition insert_provisioner_job_logs ::
  "'j prov_env \<Rightarrow> InsertProvisionerJobLogsInput \<Rightarrow> 'j ProvisionerDb \<Rightarrow> ('j, ProvisionerJobLogRecord list) stmt" where
  "insert_provisioner_job_logs E input db =
     (let n = length (il_created_at input) in
      if length (il_source input) \<noteq> n \<or> length (il_level input) \<noteq> n \<or> length (il_stage input) \<noteq> n \<or>
         length (il_output input) \<noteq> n
      then (db, Err (InvalidData ''all log input vectors must have the same length''))
      else attempt E InsertProvisionerJobLogs (il_job_id input) db
        (if n \<noteq> 0 \<and> il_job_id input \<notin> pj_id ` set (db_jobs db) then (db, Err (pv_reject E))
         else if \<exists>j \<in> set (db_jobs db). pj_id j = il_job_id input \<and>
                   i32_max < pj_logs_length j + log_bytes (il_output input)
         then (db, Err (pv_reject E))
         else
           let rows = log_rows input (db_next_log_id db)
           in (update_job (il_job_id input)
                 (\<lambda>j. j \<lparr> pj_logs_length := pj_logs_length j + log_bytes (il_output input) \<rparr>)
                 (db \<lparr> db_logs := db_logs db @ rows, db_next_log_id := db_next_log_id db + int n \<rparr>), Ok rows)))"

definition get_provisioner_logs_after_id ::
  "'j prov_env \<Rightarrow> uuid \<Rightarrow> int \<Rightarrow> 'j ProvisionerDb \<Rightarrow> (StorageError, ProvisionerJobLogRecord list) result" where
  "get_provisioner_logs_after_id E job after_id db =
     query E GetProvisionerLogsAfterId job
       (sort_key pl_id (filter (\<lambda>l. pl_job_id l = job \<and> after_id < pl_id l) (db_logs db)))"

definition timing_rows :: "InsertProvisionerJobTimingsInput \<Rightarrow> ProvisionerJobTimingRecord list" where
  "timing_rows input =
     map (\<lambda>i. \<lparr> pt_job_id = it_job_id input, pt_started_at = it_started_at input ! i,
                 pt_ended_at = it_ended_at input ! i, pt_stage = it_stage input ! i,
                 pt_source = it_source input ! i, pt_action = it_action input ! i,
                 pt_resource = it_resource input ! i \<rparr>) [0..<length (it_started_at input)]"

definition insert_provisioner_job_timings ::
  "'j prov_env \<Rightarrow> InsertProvisionerJobTimingsInput \<Rightarrow> 'j ProvisionerDb \<Rightarrow> ('j, ProvisionerJobTimingRecord list) stmt" where
  "insert_provisioner_job_timings E input db =
     (let n = length (it_started_at input) in
      if length (it_ended_at input) \<noteq> n \<or> length (it_stage input) \<noteq> n \<or> length (it_source input) \<noteq> n \<or>
         length (it_action input) \<noteq> n \<or> length (it_resource input) \<noteq> n
      then (db, Err (InvalidData ''all timing input vectors must have the same length''))
      else attempt E InsertProvisionerJobTimings (it_job_id input) db
        (if n \<noteq> 0 \<and> it_job_id input \<notin> pj_id ` set (db_jobs db) then (db, Err (pv_reject E))
         else (db \<lparr> db_timings := db_timings db @ timing_rows input \<rparr>, Ok (timing_rows input))))"

definition get_provisioner_job_timings_by_job_id ::
  "'j prov_env \<Rightarrow> uuid \<Rightarrow> 'j ProvisionerDb \<Rightarrow> (StorageError, ProvisionerJobTimingRecord list) result" where
  "get_provisioner_job_timings_by_job_id E job db =
     query E GetProvisionerJobTimingsByJobId job
       (sort_key pt_started_at (filter (\<lambda>t. pt_job_id t = job) (db_timings db)))"

section \<open>Daemons\<close>

definition upsert_provisioner_daemon ::
  "'j prov_env \<Rightarrow> instant \<Rightarrow> UpsertProvisionerDaemonInput \<Rightarrow> 'j ProvisionerDb \<Rightarrow> ('j, ProvisionerDaemonRecord) stmt" where
  "upsert_provisioner_daemon E now input db =
     attempt E UpsertProvisionerDaemon (ud_organization_id input) db
       (let same = (\<lambda>d. pd_organization_id d = ud_organization_id input \<and> pd_name d = ud_name input);
            change = (\<lambda>d. d \<lparr> pd_provisioners := ud_provisioners input, pd_tags := ud_tags input,
                              pd_last_seen_at := Some (ud_last_seen_at input), pd_version := ud_version input,
                              pd_api_version := ud_api_version input, pd_key_id := ud_key_id input \<rparr>)
        in case find same (db_daemons db) of
             Some d \<Rightarrow> (db \<lparr> db_daemons := map (\<lambda>d. if same d then change d else d) (db_daemons db) \<rparr>, Ok (change d))
           | None \<Rightarrow>
               let d = \<lparr> pd_id = pv_gen_uuid E, pd_organization_id = ud_organization_id input, pd_created_at = now,
                          pd_last_seen_at = Some (ud_last_seen_at input), pd_name = ud_name input,
                          pd_version = ud_version input, pd_api_version = ud_api_version input,
                          pd_provisioners = ud_provisioners input, pd_tags = ud_tags input,
                          pd_key_id = ud_key_id input \<rparr>
               in if pv_gen_uuid E \<in> pd_id ` set (db_daemons db) then (db, Err (pv_reject E))
                  else (db \<lparr> db_daemons := db_daemons db @ [d] \<rparr>, Ok d))"

definition update_provisioner_daemon_last_seen_at ::
  "'j prov_env \<Rightarrow> uuid \<Rightarrow> instant \<Rightarrow> 'j ProvisionerDb \<Rightarrow> ('j, unit) stmt" where
  "update_provisioner_daemon_last_seen_at E i last_seen_at db =
     attempt E UpdateProvisionerDaemonLastSeenAt i db
       (db \<lparr> db_daemons := map (\<lambda>d. if pd_id d = i then d \<lparr> pd_last_seen_at := Some last_seen_at \<rparr> else d)
          (db_daemons db) \<rparr>, Ok ())"

definition get_provisioner_daemons_by_organization ::
  "'j prov_env \<Rightarrow> uuid \<Rightarrow> 'j ProvisionerDb \<Rightarrow> (StorageError, ProvisionerDaemonRecord list) result" where
  "get_provisioner_daemons_by_organization E org db =
     query E GetProvisionerDaemonsByOrganization org
       (sort_key pd_created_at (filter (\<lambda>d. pd_organization_id d = org) (db_daemons db)))"

definition delete_old_provisioner_daemons :: "'j prov_env \<Rightarrow> instant \<Rightarrow> 'j ProvisionerDb \<Rightarrow> ('j, unit) stmt" where
  "delete_old_provisioner_daemons E now db =
     attempt E DeleteOldProvisionerDaemons 0 db
       (db \<lparr> db_daemons := filter (\<lambda>d. case pd_last_seen_at d of
            Some t \<Rightarrow> \<not> t < now - secs (7 * 24 * 60 * 60) | None \<Rightarrow> True) (db_daemons db) \<rparr>, Ok ())"

section \<open>Keys\<close>

definition insert_provisioner_key ::
  "'j prov_env \<Rightarrow> 'j ProvisionerKeyRecord \<Rightarrow> 'j ProvisionerDb \<Rightarrow> ('j, 'j ProvisionerKeyRecord) stmt" where
  "insert_provisioner_key E input db =
     attempt E InsertProvisionerKey (pk_id input) db
       (if (\<exists>k \<in> set (db_keys db). pk_id k = pk_id input \<or>
             pk_organization_id k = pk_organization_id input \<and> pk_name k = pk_name input)
        then (db, Err (pv_reject E))
        else (db \<lparr> db_keys := db_keys db @ [input] \<rparr>, Ok input))"

definition get_provisioner_key_by_id ::
  "'j prov_env \<Rightarrow> uuid \<Rightarrow> 'j ProvisionerDb \<Rightarrow> (StorageError, 'j ProvisionerKeyRecord option) result" where
  "get_provisioner_key_by_id E i db = query E GetProvisionerKey i (find (\<lambda>k. pk_id k = i) (db_keys db))"

definition get_provisioner_key_by_hashed_secret ::
  "'j prov_env \<Rightarrow> nat list \<Rightarrow> 'j ProvisionerDb \<Rightarrow> (StorageError, 'j ProvisionerKeyRecord option) result" where
  "get_provisioner_key_by_hashed_secret E secret db =
     query E GetProvisionerKey 0 (find (\<lambda>k. pk_hashed_secret k = secret) (db_keys db))"

definition get_provisioner_key_by_name ::
  "'j prov_env \<Rightarrow> uuid \<Rightarrow> string \<Rightarrow> 'j ProvisionerDb \<Rightarrow> (StorageError, 'j ProvisionerKeyRecord option) result" where
  "get_provisioner_key_by_name E org name db =
     query E GetProvisionerKey org (find (\<lambda>k. pk_organization_id k = org \<and> pk_name k = name) (db_keys db))"

definition delete_provisioner_key :: "'j prov_env \<Rightarrow> uuid \<Rightarrow> 'j ProvisionerDb \<Rightarrow> ('j, bool) stmt" where
  "delete_provisioner_key E i db =
     attempt E DeleteProvisionerKey i db
       (db \<lparr> db_keys := filter (\<lambda>k. pk_id k \<noteq> i) (db_keys db),
             db_daemons := map (\<lambda>d. if pd_key_id d = Some i \<and> i \<in> pk_id ` set (db_keys db)
                                     then d \<lparr> pd_key_id := None \<rparr> else d) (db_daemons db) \<rparr>,
        Ok (i \<in> pk_id ` set (db_keys db)))"

section \<open>Tag matching in SQL and in Rust\<close>

lemma subset_eq_maps:
  assumes "hm_wf a" and "hm_wf b" and "length a = length b" and "set a \<subseteq> set b"
  shows "map_of a = map_of b"
proof -
  have "distinct a" "distinct b" using assms(1,2) by (auto simp: hm_wf_def distinct_map)
  then have "set a = set b"
    using assms(3,4) by (intro card_subset_eq) (simp_all add: distinct_card)
  then show ?thesis
    using assms(1,2) by (intro map_of_eqI) (auto simp: hm_wf_def map_of_eq_Some_iff simp flip: image_set)
qed

lemma hm_eq_iff:
  assumes "hm_wf a" and "hm_wf b"
  shows "hm_eq a b \<longleftrightarrow> map_of a = map_of b"
proof
  assume "hm_eq a b"
  then have len: "length a = length b" and "\<forall>(k, v) \<in> set a. map_of b k = Some v"
    by (simp_all add: hm_eq_def list_all_iff hm_get_def)
  then have "set a \<subseteq> set b" using assms(2) by (auto simp: hm_wf_def)
  with assms len show "map_of a = map_of b" by (rule subset_eq_maps)
next
  assume eq: "map_of a = map_of b"
  have "card (dom (map_of xs)) = length xs" if "hm_wf xs" for xs :: "('a, 'b) hash_map"
    using distinct_card [of "map fst xs"] that by (simp add: hm_wf_def dom_map_of_conv_image_fst)
  from this [OF assms(1)] this [OF assms(2)] eq have "length a = length b" by simp
  moreover have "list_all (\<lambda>(k, v). map_of b k = Some v) a"
    using assms(1) eq [symmetric] by (auto simp: list_all_iff hm_wf_def)
  ultimately show "hm_eq a b" by (simp add: hm_eq_def hm_get_def)
qed

lemma untagged_iff:
  assumes "hm_wf j"
  shows "is_untagged_org_scope j \<longleftrightarrow> sql_untagged j"
proof -
  define two where "two = [(TAG_SCOPE, SCOPE_ORGANIZATION), (TAG_OWNER, [] :: string)]"
  have two: "hm_wf two" "length two = 2" "map_of two = [TAG_SCOPE \<mapsto> SCOPE_ORGANIZATION, TAG_OWNER \<mapsto> []]"
    by (auto simp: two_def hm_wf_def tag_consts)
  have "is_untagged_org_scope j \<longleftrightarrow> hm_eq two j"
    by (auto simp: is_untagged_org_scope_def hm_eq_def two_def)
  also have "\<dots> \<longleftrightarrow> map_of two = map_of j" by (rule hm_eq_iff [OF two(1) assms])
  finally show ?thesis using two(3) by (auto simp: sql_untagged_def)
qed

text \<open>
  The acquisition statement decides like the matching function of the core crate, except for
  wildcards: a daemon's tags match a job's in SQL exactly when they match in Rust and every tag of the
  job has its own value among the daemon's tags. A daemon that matches through a wildcard is counted as
  a match but never gets the job.
\<close>

theorem sql_match_exact:
  assumes "hm_wf d" and "hm_wf j"
  shows "sql_tags_match d j \<longleftrightarrow>
    provisioner_tagset_matches d j \<and> (\<forall>(k, v) \<in> set j. hm_get d k = Some v)"
proof -
  have sub: "map_of j \<subseteq>\<^sub>m map_of d \<longleftrightarrow> (\<forall>(k, v) \<in> set j. hm_get d k = Some v)"
    using assms(2) by (auto simp: map_le_def hm_get_def hm_wf_def dom_def)
  show ?thesis
  proof (cases "sql_untagged j")
    case True
    then have "provisioner_tagset_matches d j \<longleftrightarrow> map_of d = map_of j"
      using untagged_iff [OF assms(2)] hm_eq_iff [OF assms] by (simp add: provisioner_tagset_matches_def)
    moreover have "map_of j = map_of d \<Longrightarrow> map_of j \<subseteq>\<^sub>m map_of d" by simp
    ultimately show ?thesis unfolding sql_tags_match_def if_P [OF True] sub [symmetric] by metis
  next
    case False
    then have "provisioner_tagset_matches d j \<longleftrightarrow> (\<forall>(k, v) \<in> set j. case hm_get d k of
        Some dv \<Rightarrow> if dv = TAG_WILDCARD then True else dv = v | None \<Rightarrow> False)"
      using untagged_iff [OF assms(2)] by (simp add: provisioner_tagset_matches_def list_all_iff)
    with False sub show ?thesis by (auto simp: sql_tags_match_def)
  qed
qed

theorem sql_match_exact_witness:
  "provisioner_tagset_matches [(''gpu'', ''*'')] [(''gpu'', ''yes'')] \<and>
   \<not> sql_tags_match [(''gpu'', ''*'')] [(''gpu'', ''yes'')]"
proof -
  have "sql_tags_match [(''gpu'', ''*'')] [(''gpu'', ''yes'')] \<longleftrightarrow>
      provisioner_tagset_matches [(''gpu'', ''*'')] [(''gpu'', ''yes'')] \<and>
      (\<forall>(k, v) \<in> set [(''gpu'', ''yes'')]. hm_get [(''gpu'', ''*'')] k = Some v)"
    by (rule sql_match_exact) (simp_all add: hm_wf_def)
  then show ?thesis
    by (simp add: provisioner_tagset_matches_def is_untagged_org_scope_def tag_consts hm_get_def)
qed

end
