(* ===== verification/Workspace_Store.thy ===== *)
theory Workspace_Store
  imports Provisioner_Store
begin

text \<open>
  The workspace tables and the statements of \<open>crates/coder-db/src/store/app_store.rs\<close> that the workspace
  services call, over the provisioner tables of \<open>Provisioner_Store\<close>. One statement is one atomic step;
  rows without an \<open>ORDER BY\<close> come in the order of the tables. \<open>wv_fault\<close> may make a statement fail,
  \<open>wv_now\<close> is \<open>NOW()\<close> and \<open>wv_reject\<close> the error of a violated constraint. A comparison with NULL is not
  satisfied. The statements compare the text columns \<open>transition\<close> and \<open>type\<close> with the text of the enum
  literals.
\<close>

section \<open>Records\<close>

record WorkspaceRecord =
  w_id :: uuid
  w_created_at :: instant
  w_updated_at :: instant
  w_deleted :: bool
  w_owner_id :: uuid
  w_organization_id :: uuid
  w_template_id :: uuid
  w_name :: string
  w_autostart_schedule :: "string option"
  w_ttl_ns :: "int option"
  w_last_used_at :: instant
  w_dormant_at :: "instant option"
  w_deleting_at :: "instant option"
  w_automatic_updates :: string
  w_favorite :: bool
  w_next_start_at :: "instant option"

record WorkspaceBuildRecord =
  b_id :: uuid
  b_created_at :: instant
  b_updated_at :: instant
  b_workspace_id :: uuid
  b_build_number :: int
  b_transition :: string
  b_job_id :: uuid
  b_template_version_id :: uuid
  b_initiator_id :: uuid
  b_provisioner_state :: "nat list option"
  b_deadline :: "instant option"
  b_max_deadline :: "instant option"
  b_reason :: string
  b_daily_cost :: int

record CreateWorkspaceInput =
  cw_id :: uuid
  cw_owner_id :: uuid
  cw_organization_id :: uuid
  cw_template_id :: uuid
  cw_name :: string
  cw_autostart_schedule :: "string option"
  cw_ttl_ns :: "int option"
  cw_automatic_updates :: string

record CreateWorkspaceBuildInput =
  cb_id :: uuid
  cb_workspace_id :: uuid
  cb_template_version_id :: uuid
  cb_build_number :: int
  cb_transition :: string
  cb_initiator_id :: uuid
  cb_job_id :: uuid
  cb_reason :: string
  cb_deadline :: "instant option"
  cb_max_deadline :: "instant option"

record 'j CreateProvisionerJobInput =
  cp_id :: uuid
  cp_created_at :: instant
  cp_updated_at :: instant
  cp_organization_id :: uuid
  cp_initiator_id :: uuid
  cp_provisioner :: string
  cp_file_id :: "uuid option"
  cp_job_type :: string
  cp_input :: 'j
  cp_tags :: tags

record WorkspaceTransitionRow =
  r_id :: uuid
  r_name :: string
  r_owner_id :: uuid
  r_template_id :: uuid
  r_autostart_schedule :: "string option"
  r_ttl_ns :: "int option"
  r_last_used_at :: instant
  r_dormant_at :: "instant option"
  r_deleting_at :: "instant option"
  r_deleted :: bool
  r_build_transition :: string
  r_build_deadline :: "instant option"
  r_job_status :: string
  r_job_completed_at :: "instant option"
  r_template_allow_user_autostart :: bool
  r_template_default_ttl :: int
  r_template_failure_ttl :: int
  r_template_time_til_dormant :: int
  r_template_time_til_dormant_autodelete :: int
  r_owner_status :: string
  r_build_id :: uuid
  r_max_deadline :: "instant option"
  r_activity_bump_ns :: int

section \<open>The database\<close>

text \<open>Of templates, users and template versions, the columns that the statements read.\<close>

record TemplateRow =
  t_id :: uuid
  t_allow_user_autostart :: bool
  t_default_ttl :: int
  t_failure_ttl :: int
  t_time_til_dormant :: int
  t_time_til_dormant_autodelete :: int
  t_activity_bump :: "int option"

record WorkspaceOwnerRow =
  u_id :: uuid
  u_status :: string

record TemplateVersionRow =
  tv_id :: uuid
  tv_job_id :: uuid

record 'j WorkspaceDb =
  wd_workspaces :: "WorkspaceRecord list"
  wd_favorites :: "(uuid \<times> uuid) list"
  wd_builds :: "WorkspaceBuildRecord list"
  wd_templates :: "TemplateRow list"
  wd_users :: "WorkspaceOwnerRow list"
  wd_versions :: "TemplateVersionRow list"
  wd_prov :: "'j ProvisionerDb"

datatype WorkspaceCall =
    FindWorkspaceById | FindWorkspaceByOwnerAndName | InsertWorkspace | UpdateWorkspaceName
  | UpdateWorkspaceAutostart | UpdateWorkspaceTtl | UpdateWorkspaceDormantAt | UpdateWorkspaceAutomaticUpdates
  | UpdateWorkspaceLastUsedAt | BatchUpdateWorkspaceLastUsedAt | FavoriteWorkspace | SoftDeleteWorkspace
  | UpdateWorkspaceDormantDeletingAt | GetWorkspacesEligibleForTransition
  | ListWorkspaceBuilds | FindLatestWorkspaceBuild | FindWorkspaceBuildById | FindWorkspaceBuildByNumber
  | InsertWorkspaceBuild | UpdateWorkspaceBuildDeadline | UpdateWorkspaceBuildProvisionerState
  | NextWorkspaceBuildNumber | FindTemplateVersionById | CreateProvisionerJob | FindProvisionerJob

record 'j ws_env =
  wv_fault :: "WorkspaceCall \<Rightarrow> uuid \<Rightarrow> StorageError option"
  wv_reject :: StorageError
  wv_now :: instant
  wv_empty_json :: 'j

type_synonym ('j, 'a) ws_stmt = "'j WorkspaceDb \<times> (StorageError, 'a) result"

definition ws_attempt ::
  "'j ws_env \<Rightarrow> WorkspaceCall \<Rightarrow> uuid \<Rightarrow> 'j WorkspaceDb \<Rightarrow> ('j, 'a) ws_stmt \<Rightarrow> ('j, 'a) ws_stmt" where
  "ws_attempt E call key db s = (case wv_fault E call key of Some e \<Rightarrow> (db, Err e) | None \<Rightarrow> s)"

definition ws_query :: "'j ws_env \<Rightarrow> WorkspaceCall \<Rightarrow> uuid \<Rightarrow> 'a \<Rightarrow> (StorageError, 'a) result" where
  "ws_query E call key x = (case wv_fault E call key of Some e \<Rightarrow> Err e | None \<Rightarrow> Ok x)"

definition PREBUILDS_SYSTEM_USER_ID :: uuid where
  "PREBUILDS_SYSTEM_USER_ID = 0xc42fdf753097471c8c33fb52454d81c0"

section \<open>Workspaces\<close>

definition with_favorite :: "'j WorkspaceDb \<Rightarrow> uuid option \<Rightarrow> WorkspaceRecord \<Rightarrow> WorkspaceRecord" where
  "with_favorite db viewer w =
     w \<lparr> w_favorite := (case viewer of Some u \<Rightarrow> (w_id w, u) \<in> set (wd_favorites db) | None \<Rightarrow> False) \<rparr>"

definition live :: "uuid \<Rightarrow> WorkspaceRecord \<Rightarrow> bool" where
  "live i w \<longleftrightarrow> w_id w = i \<and> \<not> w_deleted w"

definition update_live ::
  "uuid \<Rightarrow> (WorkspaceRecord \<Rightarrow> WorkspaceRecord) \<Rightarrow> 'j WorkspaceDb \<Rightarrow> 'j WorkspaceDb" where
  "update_live i f db = db \<lparr> wd_workspaces := map (\<lambda>w. if live i w then f w else w) (wd_workspaces db) \<rparr>"

definition find_workspace_by_id ::
  "'j ws_env \<Rightarrow> uuid \<Rightarrow> uuid option \<Rightarrow> 'j WorkspaceDb \<Rightarrow> (StorageError, WorkspaceRecord option) result" where
  "find_workspace_by_id E i viewer db =
     ws_query E FindWorkspaceById i (map_option (with_favorite db viewer) (find (live i) (wd_workspaces db)))"

definition find_workspace_by_owner_and_name ::
  "'j ws_env \<Rightarrow> uuid \<Rightarrow> string \<Rightarrow> uuid option \<Rightarrow> 'j WorkspaceDb \<Rightarrow> (StorageError, WorkspaceRecord option) result" where
  "find_workspace_by_owner_and_name E owner name viewer db =
     ws_query E FindWorkspaceByOwnerAndName owner
       (map_option (with_favorite db viewer)
          (find (\<lambda>w. w_owner_id w = owner \<and> map ascii_lower (w_name w) = map ascii_lower name \<and> \<not> w_deleted w)
             (wd_workspaces db)))"

definition name_taken :: "'j WorkspaceDb \<Rightarrow> uuid \<Rightarrow> uuid \<Rightarrow> string \<Rightarrow> bool" where
  "name_taken db i owner name \<longleftrightarrow>
     (\<exists>w \<in> set (wd_workspaces db). w_id w \<noteq> i \<and> \<not> w_deleted w \<and> w_owner_id w = owner \<and>
        map ascii_lower (w_name w) = map ascii_lower name)"

definition insert_workspace ::
  "'j ws_env \<Rightarrow> CreateWorkspaceInput \<Rightarrow> 'j WorkspaceDb \<Rightarrow> ('j, WorkspaceRecord) ws_stmt" where
  "insert_workspace E input db =
     ws_attempt E InsertWorkspace (cw_id input) db
       (if cw_id input \<in> w_id ` set (wd_workspaces db) \<or>
           name_taken db (cw_id input) (cw_owner_id input) (cw_name input)
        then (db, Err (wv_reject E))
        else
          let w = \<lparr> w_id = cw_id input, w_created_at = wv_now E, w_updated_at = wv_now E, w_deleted = False,
                     w_owner_id = cw_owner_id input, w_organization_id = cw_organization_id input,
                     w_template_id = cw_template_id input, w_name = cw_name input,
                     w_autostart_schedule = cw_autostart_schedule input, w_ttl_ns = cw_ttl_ns input,
                     w_last_used_at = wv_now E, w_dormant_at = None, w_deleting_at = None,
                     w_automatic_updates = cw_automatic_updates input, w_favorite = False,
                     w_next_start_at = None \<rparr>
          in (db \<lparr> wd_workspaces := wd_workspaces db @ [w] \<rparr>, Ok w))"

definition update_workspace_name ::
  "'j ws_env \<Rightarrow> uuid \<Rightarrow> string \<Rightarrow> uuid option \<Rightarrow> 'j WorkspaceDb \<Rightarrow> ('j, WorkspaceRecord option) ws_stmt" where
  "update_workspace_name E i name viewer db =
     ws_attempt E UpdateWorkspaceName i db
       (case find (live i) (wd_workspaces db) of
          None \<Rightarrow> (db, Ok None)
        | Some w \<Rightarrow>
            if name_taken db i (w_owner_id w) name then (db, Err (wv_reject E))
            else let f = (\<lambda>w. w \<lparr> w_name := name, w_updated_at := wv_now E \<rparr>)
                 in (update_live i f db, Ok (Some (with_favorite db viewer (f w)))))"

definition affected :: "uuid \<Rightarrow> 'j WorkspaceDb \<Rightarrow> bool" where
  "affected i db \<longleftrightarrow> list_ex (live i) (wd_workspaces db)"

definition update_workspace_autostart ::
  "'j ws_env \<Rightarrow> uuid \<Rightarrow> string option \<Rightarrow> 'j WorkspaceDb \<Rightarrow> ('j, bool) ws_stmt" where
  "update_workspace_autostart E i schedule db =
     ws_attempt E UpdateWorkspaceAutostart i db
       (update_live i (\<lambda>w. w \<lparr> w_autostart_schedule := schedule, w_updated_at := wv_now E \<rparr>) db, Ok (affected i db))"

definition update_workspace_ttl :: "'j ws_env \<Rightarrow> uuid \<Rightarrow> int option \<Rightarrow> 'j WorkspaceDb \<Rightarrow> ('j, bool) ws_stmt" where
  "update_workspace_ttl E i ttl_ns db =
     ws_attempt E UpdateWorkspaceTtl i db
       (update_live i (\<lambda>w. w \<lparr> w_ttl_ns := ttl_ns, w_updated_at := wv_now E \<rparr>) db, Ok (affected i db))"

definition update_workspace_dormant_at ::
  "'j ws_env \<Rightarrow> uuid \<Rightarrow> instant option \<Rightarrow> uuid option \<Rightarrow> 'j WorkspaceDb \<Rightarrow> ('j, WorkspaceRecord option) ws_stmt" where
  "update_workspace_dormant_at E i dormant_at viewer db =
     ws_attempt E UpdateWorkspaceDormantAt i db
       (let f = (\<lambda>w. w \<lparr> w_dormant_at := dormant_at, w_updated_at := wv_now E \<rparr>)
        in (update_live i f db, Ok (map_option (\<lambda>w. with_favorite db viewer (f w)) (find (live i) (wd_workspaces db)))))"

definition update_workspace_automatic_updates ::
  "'j ws_env \<Rightarrow> uuid \<Rightarrow> string \<Rightarrow> 'j WorkspaceDb \<Rightarrow> ('j, bool) ws_stmt" where
  "update_workspace_automatic_updates E i v db =
     ws_attempt E UpdateWorkspaceAutomaticUpdates i db
       (update_live i (\<lambda>w. w \<lparr> w_automatic_updates := v, w_updated_at := wv_now E \<rparr>) db, Ok (affected i db))"

definition update_workspace_last_used_at ::
  "'j ws_env \<Rightarrow> uuid \<Rightarrow> instant \<Rightarrow> 'j WorkspaceDb \<Rightarrow> ('j, bool) ws_stmt" where
  "update_workspace_last_used_at E i t db =
     ws_attempt E UpdateWorkspaceLastUsedAt i db
       (update_live i (\<lambda>w. w \<lparr> w_last_used_at := t, w_updated_at := wv_now E \<rparr>) db, Ok (affected i db))"

definition batch_update_workspace_last_used_at ::
  "'j ws_env \<Rightarrow> uuid list \<Rightarrow> instant \<Rightarrow> 'j WorkspaceDb \<Rightarrow> ('j, nat) ws_stmt" where
  "batch_update_workspace_last_used_at E ids t db =
     (if ids = [] then (db, Ok 0)
      else ws_attempt E BatchUpdateWorkspaceLastUsedAt 0 db
        (db \<lparr> wd_workspaces := map (\<lambda>w. if w_id w \<in> set ids then w \<lparr> w_last_used_at := t \<rparr> else w) (wd_workspaces db) \<rparr>,
         Ok (length (filter (\<lambda>w. w_id w \<in> set ids) (wd_workspaces db)))))"

definition favorite_workspace :: "'j ws_env \<Rightarrow> uuid \<Rightarrow> uuid \<Rightarrow> bool \<Rightarrow> 'j WorkspaceDb \<Rightarrow> ('j, bool) ws_stmt" where
  "favorite_workspace E i user favorite db =
     ws_attempt E FavoriteWorkspace i db
       (if favorite
        then if i \<in> w_id ` set (wd_workspaces db)
             then (db \<lparr> wd_favorites := List.insert (i, user) (wd_favorites db) \<rparr>, Ok True)
             else (db, Err (wv_reject E))
        else (db \<lparr> wd_favorites := removeAll (i, user) (wd_favorites db) \<rparr>, Ok True))"

definition soft_delete_workspace :: "'j ws_env \<Rightarrow> uuid \<Rightarrow> 'j WorkspaceDb \<Rightarrow> ('j, bool) ws_stmt" where
  "soft_delete_workspace E i db =
     ws_attempt E SoftDeleteWorkspace i db
       (update_live i (\<lambda>w. w \<lparr> w_deleted := True, w_updated_at := wv_now E \<rparr>) db, Ok (affected i db))"

text \<open>\<open>INTERVAL '1 millisecond' * (ns / 1000000)\<close>: whole milliseconds, truncated toward zero.\<close>

definition millis_interval :: "int \<Rightarrow> int" where
  "millis_interval ns = (if 0 \<le> ns then ns div 10 ^ 6 else - (- ns div 10 ^ 6)) * 10 ^ 6"

definition set_dormant :: "'j ws_env \<Rightarrow> instant option \<Rightarrow> TemplateRow \<Rightarrow> WorkspaceRecord \<Rightarrow> WorkspaceRecord" where
  "set_dormant E dormant_at t w =
     w \<lparr> w_dormant_at := dormant_at,
         w_last_used_at := (if dormant_at = None then wv_now E else w_last_used_at w),
         w_deleting_at :=
           (case dormant_at of
              None \<Rightarrow> None
            | Some d \<Rightarrow> if t_time_til_dormant_autodelete t = 0 then None
                         else Some (d + millis_interval (t_time_til_dormant_autodelete t))),
         w_updated_at := wv_now E \<rparr>"

definition template_of :: "'j WorkspaceDb \<Rightarrow> uuid \<Rightarrow> TemplateRow option" where
  "template_of db i = find (\<lambda>t. t_id t = i) (wd_templates db)"

definition dormant_target :: "'j WorkspaceDb \<Rightarrow> uuid \<Rightarrow> WorkspaceRecord \<Rightarrow> TemplateRow option" where
  "dormant_target db i w =
     (if live i w \<and> w_owner_id w \<noteq> PREBUILDS_SYSTEM_USER_ID then template_of db (w_template_id w) else None)"

definition update_workspace_dormant_deleting_at ::
  "'j ws_env \<Rightarrow> uuid \<Rightarrow> instant option \<Rightarrow> 'j WorkspaceDb \<Rightarrow> ('j, WorkspaceRecord option) ws_stmt" where
  "update_workspace_dormant_deleting_at E i dormant_at db =
     ws_attempt E UpdateWorkspaceDormantDeletingAt i db
       (let f = (\<lambda>w. case dormant_target db i w of Some t \<Rightarrow> set_dormant E dormant_at t w | None \<Rightarrow> w)
        in (db \<lparr> wd_workspaces := map f (wd_workspaces db) \<rparr>,
            Ok (map_option (\<lambda>w. with_favorite db None (f w))
              (find (\<lambda>w. dormant_target db i w \<noteq> None) (wd_workspaces db)))))"

section \<open>Builds\<close>

definition max_build_number :: "uuid \<Rightarrow> 'j WorkspaceDb \<Rightarrow> int option" where
  "max_build_number i db =
     (case map b_build_number (filter (\<lambda>b. b_workspace_id b = i) (wd_builds db)) of
        [] \<Rightarrow> None | n # ns \<Rightarrow> Some (fold max ns n))"

definition list_workspace_builds ::
  "'j ws_env \<Rightarrow> uuid \<Rightarrow> nat \<Rightarrow> nat \<Rightarrow> 'j WorkspaceDb \<Rightarrow> (StorageError, WorkspaceBuildRecord list) result" where
  "list_workspace_builds E i limit offset db =
     ws_query E ListWorkspaceBuilds i
       (take (min limit 1000) (drop offset
          (sort_key (\<lambda>b. - b_build_number b) (filter (\<lambda>b. b_workspace_id b = i) (wd_builds db)))))"

definition find_latest_workspace_build ::
  "'j ws_env \<Rightarrow> uuid \<Rightarrow> 'j WorkspaceDb \<Rightarrow> (StorageError, WorkspaceBuildRecord option) result" where
  "find_latest_workspace_build E i db =
     ws_query E FindLatestWorkspaceBuild i
       (case sort_key (\<lambda>b. - b_build_number b) (filter (\<lambda>b. b_workspace_id b = i) (wd_builds db)) of
          [] \<Rightarrow> None | b # _ \<Rightarrow> Some b)"

definition find_workspace_build_by_id ::
  "'j ws_env \<Rightarrow> uuid \<Rightarrow> 'j WorkspaceDb \<Rightarrow> (StorageError, WorkspaceBuildRecord option) result" where
  "find_workspace_build_by_id E i db =
     ws_query E FindWorkspaceBuildById i (find (\<lambda>b. b_id b = i) (wd_builds db))"

definition find_workspace_build_by_number ::
  "'j ws_env \<Rightarrow> uuid \<Rightarrow> int \<Rightarrow> 'j WorkspaceDb \<Rightarrow> (StorageError, WorkspaceBuildRecord option) result" where
  "find_workspace_build_by_number E i n db =
     ws_query E FindWorkspaceBuildByNumber i
       (find (\<lambda>b. b_workspace_id b = i \<and> b_build_number b = n) (wd_builds db))"

definition job_exists :: "uuid \<Rightarrow> 'j WorkspaceDb \<Rightarrow> bool" where
  "job_exists i db \<longleftrightarrow> i \<in> pj_id ` set (db_jobs (wd_prov db))"

definition insert_workspace_build ::
  "'j ws_env \<Rightarrow> CreateWorkspaceBuildInput \<Rightarrow> 'j WorkspaceDb \<Rightarrow> ('j, WorkspaceBuildRecord) ws_stmt" where
  "insert_workspace_build E input db =
     ws_attempt E InsertWorkspaceBuild (cb_id input) db
       (if cb_id input \<in> b_id ` set (wd_builds db) \<or> cb_workspace_id input \<notin> w_id ` set (wd_workspaces db) \<or>
           \<not> job_exists (cb_job_id input) db
        then (db, Err (wv_reject E))
        else
          let b = \<lparr> b_id = cb_id input, b_created_at = wv_now E, b_updated_at = wv_now E,
                     b_workspace_id = cb_workspace_id input,
                     b_build_number =
                       (case max_build_number (cb_workspace_id input) db of Some n \<Rightarrow> n | None \<Rightarrow> 0) + 1,
                     b_transition = cb_transition input, b_job_id = cb_job_id input,
                     b_template_version_id = cb_template_version_id input,
                     b_initiator_id = cb_initiator_id input, b_provisioner_state = None,
                     b_deadline = cb_deadline input, b_max_deadline = cb_max_deadline input,
                     b_reason = cb_reason input, b_daily_cost = 0 \<rparr>
          in (db \<lparr> wd_builds := wd_builds db @ [b] \<rparr>, Ok b))"

definition update_build ::
  "uuid \<Rightarrow> (WorkspaceBuildRecord \<Rightarrow> WorkspaceBuildRecord) \<Rightarrow> 'j WorkspaceDb \<Rightarrow> 'j WorkspaceDb" where
  "update_build i f db = db \<lparr> wd_builds := map (\<lambda>b. if b_id b = i then f b else b) (wd_builds db) \<rparr>"

definition update_workspace_build_deadline ::
  "'j ws_env \<Rightarrow> uuid \<Rightarrow> instant option \<Rightarrow> instant option \<Rightarrow> 'j WorkspaceDb \<Rightarrow> ('j, bool) ws_stmt" where
  "update_workspace_build_deadline E i deadline max_deadline db =
     ws_attempt E UpdateWorkspaceBuildDeadline i db
       (update_build i (\<lambda>b. b \<lparr> b_deadline := deadline, b_max_deadline := max_deadline,
                               b_updated_at := wv_now E \<rparr>) db,
        Ok (i \<in> b_id ` set (wd_builds db)))"

definition update_workspace_build_provisioner_state ::
  "'j ws_env \<Rightarrow> uuid \<Rightarrow> nat list \<Rightarrow> 'j WorkspaceDb \<Rightarrow> ('j, bool) ws_stmt" where
  "update_workspace_build_provisioner_state E i state db =
     ws_attempt E UpdateWorkspaceBuildProvisionerState i db
       (update_build i (\<lambda>b. b \<lparr> b_provisioner_state := Some state, b_updated_at := wv_now E \<rparr>) db,
        Ok (i \<in> b_id ` set (wd_builds db)))"

definition next_workspace_build_number :: "'j ws_env \<Rightarrow> uuid \<Rightarrow> 'j WorkspaceDb \<Rightarrow> (StorageError, int) result" where
  "next_workspace_build_number E i db =
     ws_query E NextWorkspaceBuildNumber i ((case max_build_number i db of Some n \<Rightarrow> n | None \<Rightarrow> 0) + 1)"

section \<open>Template versions and jobs\<close>

definition find_template_version_by_id ::
  "'j ws_env \<Rightarrow> uuid \<Rightarrow> 'j WorkspaceDb \<Rightarrow> (StorageError, TemplateVersionRow option) result" where
  "find_template_version_by_id E i db =
     ws_query E FindTemplateVersionById i (find (\<lambda>v. tv_id v = i) (wd_versions db))"

definition find_provisioner_job ::
  "'j ws_env \<Rightarrow> uuid \<Rightarrow> 'j WorkspaceDb \<Rightarrow> (StorageError, 'j ProvisionerJobRecord option) result" where
  "find_provisioner_job E i db =
     ws_query E FindProvisionerJob i (find (\<lambda>j. pj_id j = i) (db_jobs (wd_prov db)))"

definition new_job ::
  "'j ws_env \<Rightarrow> 'j CreateProvisionerJobInput \<Rightarrow> ProvisionerType \<Rightarrow> ProvisionerJobType \<Rightarrow> 'j ProvisionerJobRecord" where
  "new_job E input p k =
     \<lparr> pj_id = cp_id input, pj_created_at = cp_created_at input, pj_updated_at = cp_updated_at input,
        pj_started_at = None, pj_canceled_at = None, pj_completed_at = None, pj_error = [], pj_error_code = [],
        pj_organization_id = Some (cp_organization_id input), pj_initiator_id = Some (cp_initiator_id input),
        pj_provisioner = p, pj_storage_method = File, pj_file_id = cp_file_id input, pj_job_type = k,
        pj_input = cp_input input, pj_tags = cp_tags input, pj_trace_metadata = wv_empty_json E,
        pj_worker_id = None, pj_logs_overflowed = False, pj_logs_length = 0 \<rparr>"

definition create_provisioner_job ::
  "'j ws_env \<Rightarrow> 'j CreateProvisionerJobInput \<Rightarrow> 'j WorkspaceDb \<Rightarrow> ('j, 'j ProvisionerJobRecord) ws_stmt" where
  "create_provisioner_job E input db =
     ws_attempt E CreateProvisionerJob (cp_id input) db
       (case (provisioner_type_from_str (cp_provisioner input), job_type_from_str (cp_job_type input)) of
          (Inr p, Inr k) \<Rightarrow>
            if job_exists (cp_id input) db then (db, Err (wv_reject E))
            else
              let db' = db \<lparr> wd_prov := (wd_prov db) \<lparr> db_jobs := db_jobs (wd_prov db) @ [new_job E input p k] \<rparr> \<rparr>
              in (db', case find_provisioner_job E (cp_id input) db' of
                         Inl e \<Rightarrow> Err e
                       | Inr None \<Rightarrow> Err (Unavailable ''provisioner job not found after insert'')
                       | Inr (Some j) \<Rightarrow> Ok j)
        | _ \<Rightarrow> (db, Err (wv_reject E)))"

section \<open>Workspaces due for a transition\<close>

definition zero_deadline :: instant where
  "zero_deadline = secs (- 62135596800)"

definition due_autostop :: "instant \<Rightarrow> WorkspaceRecord \<Rightarrow> WorkspaceBuildRecord \<Rightarrow> 'j ProvisionerJobRecord \<Rightarrow> WorkspaceOwnerRow \<Rightarrow> bool" where
  "due_autostop now w b j u \<longleftrightarrow>
     job_status j \<noteq> Failed \<and> w_dormant_at w = None \<and> b_transition b = ''start'' \<and>
     (u_status u = ''suspended'' \<or>
      (case b_deadline b of Some d \<Rightarrow> d \<noteq> zero_deadline \<and> d < now | None \<Rightarrow> False))"

definition due_autostart :: "instant \<Rightarrow> WorkspaceRecord \<Rightarrow> WorkspaceBuildRecord \<Rightarrow> 'j ProvisionerJobRecord \<Rightarrow> WorkspaceOwnerRow \<Rightarrow> bool" where
  "due_autostart now w b j u \<longleftrightarrow>
     u_status u = ''active'' \<and> job_status j \<noteq> Failed \<and> b_transition b = ''stop'' \<and> w_dormant_at w = None \<and>
     w_autostart_schedule w \<noteq> None \<and> (case w_next_start_at w of None \<Rightarrow> True | Some t \<Rightarrow> t \<le> now)"

definition due_dormancy :: "instant \<Rightarrow> WorkspaceRecord \<Rightarrow> TemplateRow \<Rightarrow> bool" where
  "due_dormancy now w t \<longleftrightarrow>
     w_dormant_at w = None \<and> 0 < t_time_til_dormant t \<and>
     millis_interval (t_time_til_dormant t) < now - w_last_used_at w"

definition due_deletion ::
  "instant \<Rightarrow> WorkspaceRecord \<Rightarrow> WorkspaceBuildRecord \<Rightarrow> 'j ProvisionerJobRecord \<Rightarrow> TemplateRow \<Rightarrow> bool" where
  "due_deletion now w b j t \<longleftrightarrow>
     w_dormant_at w \<noteq> None \<and> (case w_deleting_at w of Some d \<Rightarrow> d < now | None \<Rightarrow> False) \<and>
     0 < t_time_til_dormant_autodelete t \<and>
     (if b_transition b = ''delete'' \<and> job_status j = Failed
      then case (pj_canceled_at j, pj_completed_at j) of
             (Some c, _) \<Rightarrow> secs (24 * 3600) < now - c
           | (None, Some c) \<Rightarrow> secs (24 * 3600) < now - c
           | (None, None) \<Rightarrow> False
      else True)"

definition due_failed_stop ::
  "instant \<Rightarrow> WorkspaceBuildRecord \<Rightarrow> 'j ProvisionerJobRecord \<Rightarrow> TemplateRow \<Rightarrow> bool" where
  "due_failed_stop now b j t \<longleftrightarrow>
     0 < t_failure_ttl t \<and> b_transition b = ''start'' \<and> job_status j = Failed \<and>
     (case pj_completed_at j of Some c \<Rightarrow> millis_interval (t_failure_ttl t) < now - c | None \<Rightarrow> False)"

definition transition_row ::
  "WorkspaceRecord \<Rightarrow> WorkspaceBuildRecord \<Rightarrow> 'j ProvisionerJobRecord \<Rightarrow> TemplateRow \<Rightarrow> WorkspaceOwnerRow \<Rightarrow> WorkspaceTransitionRow" where
  "transition_row w b j t u =
     \<lparr> r_id = w_id w, r_name = w_name w, r_owner_id = w_owner_id w, r_template_id = w_template_id w,
        r_autostart_schedule = w_autostart_schedule w, r_ttl_ns = w_ttl_ns w, r_last_used_at = w_last_used_at w,
        r_dormant_at = w_dormant_at w, r_deleting_at = w_deleting_at w, r_deleted = w_deleted w,
        r_build_transition = b_transition b, r_build_deadline = b_deadline b,
        r_job_status = job_status_as_str (job_status j), r_job_completed_at = pj_completed_at j,
        r_template_allow_user_autostart = t_allow_user_autostart t, r_template_default_ttl = t_default_ttl t,
        r_template_failure_ttl = t_failure_ttl t, r_template_time_til_dormant = t_time_til_dormant t,
        r_template_time_til_dormant_autodelete = t_time_til_dormant_autodelete t, r_owner_status = u_status u,
        r_build_id = b_id b, r_max_deadline = b_max_deadline b,
        r_activity_bump_ns = (case t_activity_bump t of Some a \<Rightarrow> a | None \<Rightarrow> 0) \<rparr>"

definition latest_build_of :: "'j WorkspaceDb \<Rightarrow> WorkspaceRecord \<Rightarrow> WorkspaceBuildRecord \<Rightarrow> bool" where
  "latest_build_of db w b \<longleftrightarrow>
     b_workspace_id b = w_id w \<and> max_build_number (w_id w) db = Some (b_build_number b)"

type_synonym 'j joined_row =
  "WorkspaceRecord \<times> WorkspaceBuildRecord \<times> 'j ProvisionerJobRecord \<times> TemplateRow \<times> WorkspaceOwnerRow"

text \<open>The join of the statement: the latest build of each workspace with its job, template and owner.\<close>

definition joined_rows :: "'j WorkspaceDb \<Rightarrow> 'j joined_row list" where
  "joined_rows db =
     [(w, b, j, t, u). w \<leftarrow> wd_workspaces db, b \<leftarrow> wd_builds db, latest_build_of db w b,
        j \<leftarrow> db_jobs (wd_prov db), pj_id j = b_job_id b,
        t \<leftarrow> wd_templates db, t_id t = w_template_id w,
        u \<leftarrow> wd_users db, u_id u = w_owner_id w]"

definition eligible_where :: "instant \<Rightarrow> 'j joined_row \<Rightarrow> bool" where
  "eligible_where now = (\<lambda>(w, b, j, t, u).
     (due_autostop now w b j u \<or> due_autostart now w b j u \<or> due_dormancy now w t \<or>
      due_deletion now w b j t \<or> due_failed_stop now b j t) \<and>
     \<not> w_deleted w \<and> w_owner_id w \<noteq> PREBUILDS_SYSTEM_USER_ID)"

definition get_workspaces_eligible_for_transition ::
  "'j ws_env \<Rightarrow> instant \<Rightarrow> 'j WorkspaceDb \<Rightarrow> (StorageError, WorkspaceTransitionRow list) result" where
  "get_workspaces_eligible_for_transition E now db =
     ws_query E GetWorkspacesEligibleForTransition 0
       (map (\<lambda>(w, b, j, t, u). transition_row w b j t u) (filter (eligible_where now) (joined_rows db)))"

section \<open>Keys\<close>

text \<open>The primary keys of the tables, and one number per build of a workspace.\<close>

definition build_key :: "WorkspaceBuildRecord \<Rightarrow> uuid \<times> int" where
  "build_key b = (b_workspace_id b, b_build_number b)"

definition ws_wf :: "'j WorkspaceDb \<Rightarrow> bool" where
  "ws_wf db \<longleftrightarrow>
     distinct (map w_id (wd_workspaces db)) \<and> distinct (map b_id (wd_builds db)) \<and>
     distinct (map build_key (wd_builds db)) \<and>
     distinct (map pj_id (db_jobs (wd_prov db))) \<and>
     distinct (map t_id (wd_templates db)) \<and> distinct (map u_id (wd_users db))"

lemma distinct_map_eq: "distinct (map f xs) \<Longrightarrow> x \<in> set xs \<Longrightarrow> y \<in> set xs \<Longrightarrow> f x = f y \<Longrightarrow> x = y"
  by (auto simp: distinct_map dest: inj_onD)

lemma ws_wf_unique:
  assumes "ws_wf db"
  shows "w \<in> set (wd_workspaces db) \<Longrightarrow> w' \<in> set (wd_workspaces db) \<Longrightarrow> w_id w = w_id w' \<Longrightarrow> w = w'"
    and "b \<in> set (wd_builds db) \<Longrightarrow> b' \<in> set (wd_builds db) \<Longrightarrow> b_id b = b_id b' \<Longrightarrow> b = b'"
    and "j \<in> set (db_jobs (wd_prov db)) \<Longrightarrow> j' \<in> set (db_jobs (wd_prov db)) \<Longrightarrow> pj_id j = pj_id j' \<Longrightarrow> j = j'"
    and "t \<in> set (wd_templates db) \<Longrightarrow> t' \<in> set (wd_templates db) \<Longrightarrow> t_id t = t_id t' \<Longrightarrow> t = t'"
    and "u \<in> set (wd_users db) \<Longrightarrow> u' \<in> set (wd_users db) \<Longrightarrow> u_id u = u_id u' \<Longrightarrow> u = u'"
  using assms unfolding ws_wf_def by (blast intro: distinct_map_eq [of w_id] distinct_map_eq [of b_id]
      distinct_map_eq [of pj_id] distinct_map_eq [of t_id] distinct_map_eq [of u_id])+

lemma max_build_number_ge:
  assumes "b \<in> set (wd_builds db)" and "b_workspace_id b = i"
  obtains n where "max_build_number i db = Some n" "b_build_number b \<le> n"
proof -
  have ge: "n \<in> set (m # ms) \<Longrightarrow> n \<le> fold max ms m" for n m and ms :: "int list"
    by (metis Max_ge finite_set Max.set_eq_fold)
  from assms have "b_build_number b \<in> set (map b_build_number (filter (\<lambda>b. b_workspace_id b = i) (wd_builds db)))"
    by auto
  with ge that show thesis
    unfolding max_build_number_def
    by (cases "map b_build_number (filter (\<lambda>b. b_workspace_id b = i) (wd_builds db))") (auto split: list.splits)
qed


section \<open>The tables stay consistent\<close>

text \<open>
  Beyond the keys: a user has no two live workspaces with one name, and a build refers to an existing
  workspace and an existing job.
\<close>

definition owner_name :: "WorkspaceRecord \<Rightarrow> uuid \<times> string" where
  "owner_name w = (w_owner_id w, map ascii_lower (w_name w))"

definition live_names :: "WorkspaceRecord list \<Rightarrow> (uuid \<times> string) list" where
  "live_names ws = map owner_name (filter (\<lambda>w. \<not> w_deleted w) ws)"

definition builds_refer :: "'j WorkspaceDb \<Rightarrow> bool" where
  "builds_refer db \<longleftrightarrow>
     (\<forall>b \<in> set (wd_builds db). b_workspace_id b \<in> w_id ` set (wd_workspaces db) \<and>
        b_job_id b \<in> pj_id ` set (db_jobs (wd_prov db)))"

definition ws_inv :: "'j WorkspaceDb \<Rightarrow> bool" where
  "ws_inv db \<longleftrightarrow> ws_wf db \<and> distinct (live_names (wd_workspaces db)) \<and> builds_refer db"

text \<open>The statements that write, with any environment.\<close>

inductive ws_step :: "'j WorkspaceDb \<Rightarrow> 'j WorkspaceDb \<Rightarrow> bool" where
  "ws_step db (fst (insert_workspace E input db))"
| "ws_step db (fst (update_workspace_name E i name viewer db))"
| "ws_step db (fst (update_workspace_autostart E i schedule db))"
| "ws_step db (fst (update_workspace_ttl E i ttl db))"
| "ws_step db (fst (update_workspace_dormant_at E i d viewer db))"
| "ws_step db (fst (update_workspace_automatic_updates E i v db))"
| "ws_step db (fst (update_workspace_last_used_at E i d' db))"
| "ws_step db (fst (batch_update_workspace_last_used_at E ids d' db))"
| "ws_step db (fst (favorite_workspace E i user fav db))"
| "ws_step db (fst (soft_delete_workspace E i db))"
| "ws_step db (fst (update_workspace_dormant_deleting_at E i d db))"
| "ws_step db (fst (insert_workspace_build E build_input db))"
| "ws_step db (fst (update_workspace_build_deadline E i d d2 db))"
| "ws_step db (fst (update_workspace_build_provisioner_state E i state db))"
| "ws_step db (fst (create_provisioner_job E job_input db))"

definition ws_init :: "'j WorkspaceDb \<Rightarrow> bool" where
  "ws_init db \<longleftrightarrow>
     wd_workspaces db = [] \<and> wd_builds db = [] \<and> db_jobs (wd_prov db) = [] \<and>
     distinct (map t_id (wd_templates db)) \<and> distinct (map u_id (wd_users db))"

text \<open>A column update of workspaces that keeps keys, owners and names and revives nothing.\<close>

lemma live_names_simps [simp]:
  "live_names [] = []"
  "live_names (w # ws) = (if w_deleted w then live_names ws else owner_name w # live_names ws)"
  "live_names (vs @ ws) = live_names vs @ live_names ws"
  by (simp_all add: live_names_def)

lemma live_names_map_subset:
  assumes "\<And>w. owner_name (f w) = owner_name w" and "\<And>w. w_deleted w \<Longrightarrow> w_deleted (f w)"
  shows "set (live_names (map f ws)) \<subseteq> set (live_names ws)"
  using assms by (induction ws) auto

lemma live_names_map:
  assumes "\<And>w. owner_name (f w) = owner_name w" and "\<And>w. w_deleted w \<Longrightarrow> w_deleted (f w)"
  shows "distinct (live_names ws) \<Longrightarrow> distinct (live_names (map f ws))"
  using assms live_names_map_subset [of f] by (induction ws) (auto split: if_splits)

lemma ws_inv_map_workspaces:
  assumes inv: "ws_inv db"
    and f: "\<And>w. w_id (f w) = w_id w" "\<And>w. owner_name (f w) = owner_name w" "\<And>w. w_deleted w \<Longrightarrow> w_deleted (f w)"
  shows "ws_inv (db \<lparr> wd_workspaces := map f (wd_workspaces db) \<rparr>)"
  using inv live_names_map [OF f(2,3), of "wd_workspaces db"]
  by (simp add: ws_inv_def ws_wf_def builds_refer_def comp_def f image_image)

lemma ws_inv_map_builds:
  assumes "ws_inv db" and f: "\<And>b. b_id (f b) = b_id b" "\<And>b. build_key (f b) = build_key b" "\<And>b. b_job_id (f b) = b_job_id b"
  shows "ws_inv (db \<lparr> wd_builds := map f (wd_builds db) \<rparr>)"
proof -
  have "b_workspace_id (f b) = b_workspace_id b" for b using f(2) [of b] by (simp add: build_key_def)
  with assms(1) show ?thesis by (simp add: ws_inv_def ws_wf_def builds_refer_def comp_def f)
qed

lemma name_taken_iff:
  "name_taken db i owner name \<longleftrightarrow>
     (owner, map ascii_lower name) \<in> set (live_names (filter (\<lambda>w. w_id w \<noteq> i) (wd_workspaces db)))"
  by (force simp: name_taken_def live_names_def owner_name_def)

lemma live_names_fresh:
  "i \<notin> w_id ` set ws \<Longrightarrow> live_names (filter (\<lambda>w. w_id w \<noteq> i) ws) = live_names ws"
  by (induction ws) auto

lemma ws_inv_insert_workspace: "ws_inv db \<Longrightarrow> ws_inv (fst (insert_workspace E input db))"
  by (auto simp: insert_workspace_def ws_attempt_def Let_def name_taken_iff live_names_fresh ws_inv_def ws_wf_def
      builds_refer_def owner_name_def split: option.split)

lemma ws_inv_insert_build:
  assumes "ws_inv db"
  shows "ws_inv (fst (insert_workspace_build E input db))"
proof -
  have "(cb_workspace_id input, (case max_build_number (cb_workspace_id input) db of Some n \<Rightarrow> n | None \<Rightarrow> 0) + 1) \<notin>
      build_key ` set (wd_builds db)"
  proof
    assume "(cb_workspace_id input, (case max_build_number (cb_workspace_id input) db of Some n \<Rightarrow> n | None \<Rightarrow> 0) + 1) \<in>
      build_key ` set (wd_builds db)"
    then obtain b where b: "b \<in> set (wd_builds db)" "b_workspace_id b = cb_workspace_id input"
      "b_build_number b = (case max_build_number (cb_workspace_id input) db of Some n \<Rightarrow> n | None \<Rightarrow> 0) + 1"
      by (auto simp: build_key_def)
    obtain n where "max_build_number (cb_workspace_id input) db = Some n" "b_build_number b \<le> n"
      by (rule max_build_number_ge [OF b(1,2)])
    with b(3) show False by simp
  qed
  with assms show ?thesis
    by (simp add: insert_workspace_build_def ws_attempt_def Let_def ws_inv_def ws_wf_def builds_refer_def job_exists_def
        build_key_def split: option.split)
qed

lemma ws_inv_create_job: "ws_inv db \<Longrightarrow> ws_inv (fst (create_provisioner_job E input db))"
  by (auto simp: create_provisioner_job_def ws_attempt_def new_job_def Let_def ws_inv_def ws_wf_def builds_refer_def
      job_exists_def split: option.split sum.split)

lemma rename_names:
  assumes "distinct (map w_id ws)" and "distinct (live_names ws)" and f: "\<And>w. w_id (f w) = w_id w"
    "\<And>w. w_deleted (f w) = w_deleted w"
    and "\<And>w. w \<in> set ws \<Longrightarrow> live i w \<Longrightarrow> owner_name (f w) \<notin> set (live_names (filter (\<lambda>w. w_id w \<noteq> i) ws))"
  shows "distinct (live_names (map (\<lambda>w. if live i w then f w else w) ws))"
  using assms
proof (induction ws)
  case (Cons w ws)
  show ?case
  proof (cases "live i w")
    case True
    then have w: "w_id w = i" "\<not> w_deleted w" by (simp_all add: live_def)
    then have i: "i \<notin> w_id ` set ws" using Cons.prems(1) by auto
    then have "map (\<lambda>w. if live i w then f w else w) ws = ws" by (auto simp: live_def intro!: map_idI)
    moreover have "owner_name (f w) \<notin> set (live_names ws)"
      using Cons.prems(5) [of w] True w live_names_fresh [OF i] by simp
    ultimately show ?thesis using True w Cons.prems(2,4) by simp
  next
    case False
    have later: "owner_name (f v) \<notin> set (live_names (filter (\<lambda>w. w_id w \<noteq> i) ws))"
      if "v \<in> set ws" "live i v" for v
      using Cons.prems(5) [of v] that by (auto split: if_splits)
    have IH: "distinct (live_names (map (\<lambda>w. if live i w then f w else w) ws))"
      using Cons.prems(1,2) by (intro Cons.IH f later) (auto split: if_splits)
    have "owner_name w \<notin> set (live_names (map (\<lambda>w. if live i w then f w else w) ws))" if nd: "\<not> w_deleted w"
    proof
      assume "owner_name w \<in> set (live_names (map (\<lambda>w. if live i w then f w else w) ws))"
      then obtain v where v: "v \<in> set ws" "\<not> w_deleted v" "owner_name w = owner_name (if live i v then f v else v)"
        using f(2) by (auto simp: live_names_def split: if_splits)
      show False
      proof (cases "live i v")
        case True
        have "w_id w \<noteq> i" using False nd by (simp add: live_def)
        with Cons.prems(5) [of v] v True nd show False by simp
      next
        case False
        with v Cons.prems(2) nd show False by (auto simp: live_names_def)
      qed
    qed
    with False IH show ?thesis by simp
  qed
qed simp

lemma ws_inv_rename:
  assumes inv: "ws_inv db"
  shows "ws_inv (fst (update_workspace_name E i name viewer db))"
proof -
  define f where "f = (\<lambda>w :: WorkspaceRecord. w \<lparr> w_name := name, w_updated_at := wv_now E \<rparr>)"
  define g where "g = (\<lambda>w. if live i w then f w else w)"
  have "ws_inv (update_live i f db)"
    if w: "find (live i) (wd_workspaces db) = Some w" "\<not> name_taken db i (w_owner_id w) name" for w
  proof -
    have wf: "distinct (map w_id (wd_workspaces db))" using inv by (simp add: ws_inv_def ws_wf_def)
    have only: "v = w" if "v \<in> set (wd_workspaces db)" "live i v" for v
    proof -
      have "w \<in> set (wd_workspaces db)" "live i w" using w(1) by (auto simp: find_Some_iff)
      with that wf show ?thesis by (auto simp: live_def intro: distinct_map_eq [of w_id])
    qed
    have "distinct (live_names (map g (wd_workspaces db)))"
      unfolding g_def
    proof (rule rename_names [OF wf])
      show "owner_name (f v) \<notin> set (live_names (filter (\<lambda>w. w_id w \<noteq> i) (wd_workspaces db)))"
        if "v \<in> set (wd_workspaces db)" "live i v" for v
        using only [OF that] w(2) by (simp add: name_taken_iff owner_name_def f_def)
    qed (use inv in \<open>simp_all add: ws_inv_def f_def\<close>)
    moreover have "w_id (g v) = w_id v" for v by (simp add: g_def f_def)
    ultimately show ?thesis
      using inv by (simp add: update_live_def ws_inv_def ws_wf_def builds_refer_def comp_def image_image flip: g_def)
  qed
  with inv show ?thesis
    by (auto simp: update_workspace_name_def ws_attempt_def Let_def f_def split: option.split)
qed

lemmas ws_update_defs = update_workspace_autostart_def update_workspace_ttl_def update_workspace_dormant_at_def
  update_workspace_automatic_updates_def update_workspace_last_used_at_def soft_delete_workspace_def
  batch_update_workspace_last_used_at_def update_workspace_dormant_deleting_at_def set_dormant_def
  update_live_def ws_attempt_def Let_def owner_name_def

lemmas ws_build_defs = update_workspace_build_deadline_def update_workspace_build_provisioner_state_def
  update_build_def ws_attempt_def build_key_def

lemma ws_inv_favorite: "ws_inv db \<Longrightarrow> ws_inv (fst (favorite_workspace E i user fav db))"
  by (auto simp: favorite_workspace_def ws_attempt_def ws_inv_def ws_wf_def builds_refer_def split: option.split)

lemma ws_inv_step: "ws_step db db' \<Longrightarrow> ws_inv db \<Longrightarrow> ws_inv db'"
proof (induction rule: ws_step.induct)
qed (auto intro: ws_inv_insert_workspace ws_inv_rename ws_inv_insert_build ws_inv_create_job ws_inv_favorite
    simp: ws_update_defs ws_build_defs intro!: ws_inv_map_workspaces ws_inv_map_builds split: option.split)

interpretation ws_tables: transition_invariant ws_init ws_step ws_inv
proof unfold_locales
  show "ws_inv db" if "ws_init db" for db :: "'j WorkspaceDb"
    using that by (simp add: ws_init_def ws_inv_def ws_wf_def builds_refer_def)
qed (rule ws_inv_step)


section \<open>An example database\<close>

definition demo_template :: TemplateRow where
  "demo_template = \<lparr> t_id = 30, t_allow_user_autostart = True, t_default_ttl = 0, t_failure_ttl = 0,
     t_time_til_dormant = 0, t_time_til_dormant_autodelete = 0, t_activity_bump = Some (secs 3600) \<rparr>"

definition demo_workspace :: WorkspaceRecord where
  "demo_workspace = \<lparr> w_id = 1, w_created_at = 0, w_updated_at = 0, w_deleted = False, w_owner_id = 10,
     w_organization_id = 20, w_template_id = 30, w_name = ''dev'', w_autostart_schedule = Some ''0 9 * * *'',
     w_ttl_ns = None, w_last_used_at = secs 400, w_dormant_at = None, w_deleting_at = None, w_automatic_updates = ''never'',
     w_favorite = False, w_next_start_at = None \<rparr>"

definition demo_build :: WorkspaceBuildRecord where
  "demo_build = \<lparr> b_id = 40, b_created_at = 0, b_updated_at = 0, b_workspace_id = 1, b_build_number = 1,
     b_transition = ''start'', b_job_id = 50, b_template_version_id = 60, b_initiator_id = 10,
     b_provisioner_state = None, b_deadline = Some (secs 1000), b_max_deadline = None, b_reason = ''initiator'',
     b_daily_cost = 0 \<rparr>"

definition demo_job :: "unit ProvisionerJobRecord" where
  "demo_job = \<lparr> pj_id = 50, pj_created_at = 0, pj_updated_at = 0, pj_started_at = Some 0, pj_canceled_at = None,
     pj_completed_at = Some (secs 100), pj_error = [], pj_error_code = [], pj_organization_id = Some 20,
     pj_initiator_id = Some 10, pj_provisioner = Echo, pj_storage_method = File, pj_file_id = None,
     pj_job_type = WorkspaceBuild, pj_input = (), pj_tags = [], pj_trace_metadata = (), pj_worker_id = None,
     pj_logs_overflowed = False, pj_logs_length = 0 \<rparr>"

definition demo_user :: WorkspaceOwnerRow where
  "demo_user = \<lparr> u_id = 10, u_status = ''active'' \<rparr>"

definition demo_db :: "unit WorkspaceDb" where
  "demo_db = \<lparr> wd_workspaces = [demo_workspace], wd_favorites = [], wd_builds = [demo_build],
     wd_templates = [demo_template], wd_users = [demo_user], wd_versions = [],
     wd_prov = \<lparr> db_jobs = [demo_job], db_logs = [], db_next_log_id = 0, db_timings = [], db_daemons = [], db_keys = [] \<rparr> \<rparr>"

definition demo_ws_env :: "unit ws_env" where
  "demo_ws_env = \<lparr> wv_fault = (\<lambda>_ _. None), wv_reject = InvalidData ''constraint'', wv_now = secs 2000, wv_empty_json = () \<rparr>"

definition empty_db :: "unit WorkspaceDb" where
  "empty_db = demo_db \<lparr> wd_workspaces := [], wd_builds := [],
     wd_prov := (wd_prov demo_db) \<lparr> db_jobs := [] \<rparr> \<rparr>"

lemma demo_wf: "ws_wf demo_db"
  by (simp add: demo_db_def ws_wf_def)

lemma demo_joined: "joined_rows demo_db = [(demo_workspace, demo_build, demo_job, demo_template, demo_user)]"
  by (simp add: joined_rows_def demo_db_def latest_build_of_def max_build_number_def demo_workspace_def
      demo_build_def demo_job_def demo_template_def demo_user_def)



end
