(* ===== verification/Prebuild_Builder.thy ===== *)
theory Prebuild_Builder
  imports Prebuilds Workspace_Store
begin

text \<open>
  The build executor behind the prebuild reconciler, \<open>crates/coder-workspaces/src/builder.rs\<close>, and the
  query for running prebuilds, \<open>list_running_prebuilt_workspaces\<close> of
  \<open>crates/coder-db/src/store/app_store.rs\<close>, over the statements of \<open>Workspace_Store\<close>. Together with
  \<open>Prebuilds\<close> this closes the loop: a tick reads the database, and its calls change it. JSON values,
  the undashed form of identifiers and the supply of fresh identifiers are parameters.
\<close>

section \<open>The builder\<close>

definition BUILD_REASON_PREBUILD :: string where
  "BUILD_REASON_PREBUILD = ''prebuild''"

datatype BuilderError = BuilderStorage StorageError

fun builder_error_display :: "BuilderError \<Rightarrow> string" where
  "builder_error_display (BuilderStorage e) = ''storage: '' @ storage_error_display e"

record 'j pb_env =
  pb_ws :: "'j ws_env"
  pb_codec :: uuid_codec
  pb_simple :: "uuid \<Rightarrow> string"
  pb_start_json :: "string \<Rightarrow> 'j"
  pb_delete_json :: 'j
  pb_query_fault :: "StorageError option"

text \<open>The three identifiers a call draws, and the time.\<close>

record draw =
  dr_now :: instant
  dr_workspace_id :: uuid
  dr_job_id :: uuid
  dr_build_id :: uuid

definition prebuild_name :: "'j pb_env \<Rightarrow> uuid \<Rightarrow> string" where
  "prebuild_name P workspace_id = ''prebuild-'' @ take 12 (pb_simple P workspace_id)"

definition storage_err :: "'s \<times> (StorageError, 'a) result \<Rightarrow> 's \<times> (BuilderError, 'a) result" where
  "storage_err = (\<lambda>(s, r). (s, case r of Inl e \<Rightarrow> Err (BuilderStorage e) | Inr x \<Rightarrow> Ok x))"

definition prebuild_job ::
  "instant \<Rightarrow> uuid \<Rightarrow> uuid \<Rightarrow> 'j \<Rightarrow> 'j CreateProvisionerJobInput" where
  "prebuild_job now job_id organization_id input =
     \<lparr> cp_id = job_id, cp_created_at = now, cp_updated_at = now, cp_organization_id = organization_id,
        cp_initiator_id = PREBUILDS_SYSTEM_USER_ID, cp_provisioner = ''echo'', cp_file_id = None,
        cp_job_type = ''workspace_build'', cp_input = input, cp_tags = hm_empty \<rparr>"

definition prebuild_build :: "uuid \<Rightarrow> uuid \<Rightarrow> uuid \<Rightarrow> uuid \<Rightarrow> string \<Rightarrow> CreateWorkspaceBuildInput" where
  "prebuild_build build_id workspace_id template_version_id job_id transition =
     \<lparr> cb_id = build_id, cb_workspace_id = workspace_id, cb_template_version_id = template_version_id,
        cb_build_number = 0, cb_transition = transition, cb_initiator_id = PREBUILDS_SYSTEM_USER_ID,
        cb_job_id = job_id, cb_reason = BUILD_REASON_PREBUILD, cb_deadline = None, cb_max_deadline = None \<rparr>"

definition prebuild_workspace :: "'j pb_env \<Rightarrow> uuid \<Rightarrow> PrebuildStartInput \<Rightarrow> CreateWorkspaceInput" where
  "prebuild_workspace P workspace_id input =
     \<lparr> cw_id = workspace_id, cw_owner_id = PREBUILDS_SYSTEM_USER_ID,
        cw_organization_id = pi_organization_id input, cw_template_id = pi_template_id input,
        cw_name = prebuild_name P workspace_id, cw_autostart_schedule = None, cw_ttl_ns = None,
        cw_automatic_updates = ''never'' \<rparr>"

definition builder_start ::
  "'j pb_env \<Rightarrow> draw \<Rightarrow> PrebuildStartInput \<Rightarrow> 'j WorkspaceDb \<Rightarrow>
   'j WorkspaceDb \<times> (BuilderError, WorkspaceBuildRecord) result" where
  "builder_start P d input db =
     (case storage_err (insert_workspace (pb_ws P) (prebuild_workspace P (dr_workspace_id d) input) db) of
        (db, Inl e) \<Rightarrow> (db, Err e)
      | (db, Inr _) \<Rightarrow>
          (case storage_err (create_provisioner_job (pb_ws P)
                  (prebuild_job (dr_now d) (dr_job_id d) (pi_organization_id input)
                     (pb_start_json P (to_string (pb_codec P) (pi_preset_id input)))) db) of
             (db, Inl e) \<Rightarrow> (db, Err e)
           | (db, Inr _) \<Rightarrow>
               storage_err (insert_workspace_build (pb_ws P)
                 (prebuild_build (dr_build_id d) (dr_workspace_id d) (pi_template_version_id input) (dr_job_id d) ''start'') db)))"

definition builder_delete ::
  "'j pb_env \<Rightarrow> draw \<Rightarrow> uuid \<Rightarrow> 'j WorkspaceDb \<Rightarrow> 'j WorkspaceDb \<times> (BuilderError, WorkspaceBuildRecord) result" where
  "builder_delete P d workspace_id db =
     (case find_workspace_by_id (pb_ws P) workspace_id (Some PREBUILDS_SYSTEM_USER_ID) db of
        Inl e \<Rightarrow> (db, Err (BuilderStorage e))
      | Inr None \<Rightarrow>
          (db, Err (BuilderStorage (NotFound
             (''prebuilt workspace '' @ to_string (pb_codec P) workspace_id @ '' not found''))))
      | Inr (Some workspace) \<Rightarrow>
          (case find_latest_workspace_build (pb_ws P) workspace_id db of
             Inl e \<Rightarrow> (db, Err (BuilderStorage e))
           | Inr latest \<Rightarrow>
               let template_version_id = (case latest of Some b \<Rightarrow> b_template_version_id b | None \<Rightarrow> nil_uuid)
               in case storage_err (create_provisioner_job (pb_ws P)
                         (prebuild_job (dr_now d) (dr_job_id d) (w_organization_id workspace) (pb_delete_json P)) db) of
                    (db, Inl e) \<Rightarrow> (db, Err e)
                  | (db, Inr _) \<Rightarrow>
                      storage_err (insert_workspace_build (pb_ws P)
                        (prebuild_build (dr_build_id d) workspace_id template_version_id (dr_job_id d) ''delete'') db)))"

section \<open>Rows for the reconciler\<close>

record TemplatePresetWithPrebuild =
  tp_template_id :: uuid
  tp_template_version_id :: uuid
  tp_organization_id :: uuid
  tp_preset_id :: uuid
  tp_preset_name :: string
  tp_desired_instances :: int
  tp_using_active_version :: bool
  tp_prebuild_status :: string
  tp_template_deleted :: bool
  tp_template_deprecated :: bool
  tp_created_at :: instant

record RunningPrebuiltWorkspace =
  rw_id :: uuid
  rw_name :: string
  rw_template_id :: uuid
  rw_template_version_id :: uuid
  rw_current_preset_id :: "uuid option"
  rw_ready :: bool
  rw_created_at :: instant

definition preset_row_to_info :: "TemplatePresetWithPrebuild \<Rightarrow> PresetPrebuildInfo" where
  "preset_row_to_info row =
     \<lparr> ps_template_id = tp_template_id row, ps_template_version_id = tp_template_version_id row,
        ps_organization_id = tp_organization_id row, ps_preset_id = tp_preset_id row,
        ps_preset_name = tp_preset_name row,
        ps_desired_instances =
          (let n = max (tp_desired_instances row) 0 in if n < 2 ^ 32 then of_int n else 0),
        ps_using_active_version = tp_using_active_version row,
        ps_is_hard_limited = (tp_prebuild_status row = ''hard_limited'') \<rparr>"

definition running_workspace_row_to_info :: "RunningPrebuiltWorkspace \<Rightarrow> PrebuiltWorkspace option" where
  "running_workspace_row_to_info row =
     map_option (\<lambda>preset_id. \<lparr> pw_id = rw_id row, pw_preset_id = preset_id, pw_created_at = rw_created_at row \<rparr>)
       (rw_current_preset_id row)"

text \<open>
  The database of the reconciler: the workspace tables, the preset column of builds (by build id;
  the statement that inserts builds does not name it), and the rows of the preset query. Which agents
  are ready is an argument of the query.
\<close>

record 'j PrebuildDb =
  pb_tables :: "'j WorkspaceDb"
  pb_preset_of :: "(uuid, uuid) hash_map"
  pb_presets :: "TemplatePresetWithPrebuild list"

text \<open>The view \<open>workspace_latest_builds\<close>: the newest build of a workspace that has a job.\<close>

definition latest_with_job ::
  "'j WorkspaceDb \<Rightarrow> uuid \<Rightarrow> (WorkspaceBuildRecord \<times> 'j ProvisionerJobRecord) option" where
  "latest_with_job db i =
     (case sort_key (\<lambda>(b, j). - b_build_number b)
             [(b, j). b \<leftarrow> wd_builds db, b_workspace_id b = i, j \<leftarrow> db_jobs (wd_prov db), pj_id j = b_job_id b] of
        [] \<Rightarrow> None | x # _ \<Rightarrow> Some x)"

definition current_preset :: "'j PrebuildDb \<Rightarrow> uuid \<Rightarrow> uuid option" where
  "current_preset db i =
     (case sort_key (\<lambda>b. - b_build_number b)
             (filter (\<lambda>b. b_workspace_id b = i \<and> b_transition b = ''start'' \<and> hm_get (pb_preset_of db) (b_id b) \<noteq> None)
                (wd_builds (pb_tables db))) of
        [] \<Rightarrow> None | b # _ \<Rightarrow> hm_get (pb_preset_of db) (b_id b))"

definition pb_query :: "'j pb_env \<Rightarrow> 'a \<Rightarrow> (StorageError, 'a) result" where
  "pb_query P x = (case pb_query_fault P of Some e \<Rightarrow> Err e | None \<Rightarrow> Ok x)"

definition running_rows :: "(uuid \<Rightarrow> bool) \<Rightarrow> 'j PrebuildDb \<Rightarrow> RunningPrebuiltWorkspace list" where
  "running_rows ready db =
     sort_key rw_id
       [\<lparr> rw_id = w_id w, rw_name = w_name w, rw_template_id = w_template_id w,
           rw_template_version_id = b_template_version_id b, rw_current_preset_id = current_preset db (w_id w),
           rw_ready = ready (b_job_id b), rw_created_at = w_created_at w \<rparr>.
         w \<leftarrow> wd_workspaces (pb_tables db), w_owner_id w = PREBUILDS_SYSTEM_USER_ID \<and> \<not> w_deleted w,
         (b, j) \<leftarrow> (case latest_with_job (pb_tables db) (w_id w) of Some x \<Rightarrow> [x] | None \<Rightarrow> []),
         b_transition b = ''start'' \<and> job_status j = Succeeded]"

definition list_running_prebuilt_workspaces ::
  "'j pb_env \<Rightarrow> (uuid \<Rightarrow> bool) \<Rightarrow> 'j PrebuildDb \<Rightarrow> (StorageError, RunningPrebuiltWorkspace list) result" where
  "list_running_prebuilt_workspaces P ready db = pb_query P (running_rows ready db)"

definition list_presets_with_prebuilds ::
  "'j pb_env \<Rightarrow> 'j PrebuildDb \<Rightarrow> (StorageError, PresetPrebuildInfo list) result" where
  "list_presets_with_prebuilds P db =
     map_sum id (\<lambda>rows. map preset_row_to_info (filter (\<lambda>r. \<not> tp_template_deleted r) rows))
       (pb_query P (pb_presets db))"

definition list_prebuilt_workspaces ::
  "'j pb_env \<Rightarrow> (uuid \<Rightarrow> bool) \<Rightarrow> 'j PrebuildDb \<Rightarrow> (StorageError, PrebuiltWorkspace list) result" where
  "list_prebuilt_workspaces P ready db =
     map_sum id (List.map_filter running_workspace_row_to_info) (list_running_prebuilt_workspaces P ready db)"

section \<open>The closed loop\<close>

definition perform ::
  "'j pb_env \<Rightarrow> draw \<Rightarrow> prebuild_call \<Rightarrow> 'j PrebuildDb \<Rightarrow> 'j PrebuildDb \<times> (BuilderError, WorkspaceBuildRecord) result" where
  "perform P d c db =
     (let (t, r) = (case c of
                      CreatePrebuild input \<Rightarrow> builder_start P d input (pb_tables db)
                    | DeletePrebuild i \<Rightarrow> builder_delete P d i (pb_tables db))
      in (db \<lparr> pb_tables := t \<rparr>, r))"

text \<open>The database after a log of calls; the \<open>k\<close>-th call of a tick draws \<open>ds k\<close>.\<close>

fun after_calls :: "'j pb_env \<Rightarrow> (nat \<Rightarrow> draw) \<Rightarrow> nat \<Rightarrow> call_log \<Rightarrow> 'j PrebuildDb \<Rightarrow> 'j PrebuildDb" where
  "after_calls P ds k [] db = db"
| "after_calls P ds k ((c, _) # log) db = after_calls P ds (Suc k) log (fst (perform P (ds k) c db))"

definition store_actions :: "'j pb_env \<Rightarrow> (nat \<Rightarrow> draw) \<Rightarrow> 'j PrebuildDb \<Rightarrow> executor" where
  "store_actions P ds db log c = is_ok (snd (perform P (ds (length log)) c (after_calls P ds 0 log db)))"

definition reconcile_once ::
  "'j pb_env \<Rightarrow> PrebuildReconcilerOptions \<Rightarrow> (uuid \<Rightarrow> bool) \<Rightarrow> (nat \<Rightarrow> draw) \<Rightarrow> 'j PrebuildDb \<Rightarrow> 'j PrebuildDb" where
  "reconcile_once P options ready ds db =
     (let (_, log, _) = tick (list_presets_with_prebuilds P db) (list_prebuilt_workspaces P ready db)
            (with_actions options (store_actions P ds db))
      in after_calls P ds 0 log db)"

text \<open>Ticks in a row: the \<open>i\<close>-th call of tick \<open>t\<close> draws \<open>ds (t, i)\<close>.\<close>

primrec reconcile_many ::
  "'j pb_env \<Rightarrow> PrebuildReconcilerOptions \<Rightarrow> (uuid \<Rightarrow> bool) \<Rightarrow> (nat \<times> nat \<Rightarrow> draw) \<Rightarrow> nat \<Rightarrow> 'j PrebuildDb \<Rightarrow> 'j PrebuildDb" where
  "reconcile_many P options ready ds 0 db = db"
| "reconcile_many P options ready ds (Suc t) db =
     reconcile_once P options ready (\<lambda>i. ds (t, i)) (reconcile_many P options ready ds t db)"

section \<open>What a start writes\<close>

text \<open>Statements that do not fail, and draws that no row uses.\<close>

definition statements_work :: "'j pb_env \<Rightarrow> bool" where
  "statements_work P \<longleftrightarrow> pb_query_fault P = None \<and> wv_fault (pb_ws P) = (\<lambda>_ _. None)"

definition prebuild_names :: "'j WorkspaceDb \<Rightarrow> string set" where
  "prebuild_names db = (\<lambda>w. map ascii_lower (w_name w)) ` set (wd_workspaces db)"

definition drawn_name :: "'j pb_env \<Rightarrow> draw \<Rightarrow> string" where
  "drawn_name P d = map ascii_lower (prebuild_name P (dr_workspace_id d))"

definition unused :: "'j pb_env \<Rightarrow> 'j WorkspaceDb \<Rightarrow> draw \<Rightarrow> bool" where
  "unused P db d \<longleftrightarrow>
     dr_workspace_id d \<notin> w_id ` set (wd_workspaces db) \<and> drawn_name P d \<notin> prebuild_names db \<and>
     \<not> job_exists (dr_job_id d) db \<and> dr_build_id d \<notin> b_id ` set (wd_builds db)"

definition fresh_draws :: "'j pb_env \<Rightarrow> (nat \<times> nat \<Rightarrow> draw) \<Rightarrow> (nat \<times> nat) set \<Rightarrow> 'j WorkspaceDb \<Rightarrow> bool" where
  "fresh_draws P ds I db \<longleftrightarrow>
     inj_on (\<lambda>i. dr_workspace_id (ds i)) I \<and> inj_on (\<lambda>i. drawn_name P (ds i)) I \<and>
     inj_on (\<lambda>i. dr_job_id (ds i)) I \<and> inj_on (\<lambda>i. dr_build_id (ds i)) I \<and> (\<forall>i \<in> I. unused P db (ds i))"

definition prebuild_rows :: "'j WorkspaceDb \<Rightarrow> WorkspaceRecord list" where
  "prebuild_rows db = filter (\<lambda>w. w_owner_id w = PREBUILDS_SYSTEM_USER_ID \<and> \<not> w_deleted w) (wd_workspaces db)"

text \<open>One start, as three appended rows.\<close>

definition untagged_job :: "draw \<Rightarrow> PrebuildStartInput \<Rightarrow> 'j ProvisionerJobRecord \<Rightarrow> bool" where
  "untagged_job d input j \<longleftrightarrow>
     pj_id j = dr_job_id d \<and> pj_started_at j = None \<and> pj_completed_at j = None \<and> pj_canceled_at j = None \<and>
     pj_organization_id j = Some (pi_organization_id input) \<and> pj_provisioner j = Echo \<and> pj_tags j = []"

definition started :: "draw \<Rightarrow> PrebuildStartInput \<Rightarrow> 'j pb_env \<Rightarrow> 'j WorkspaceDb \<Rightarrow> 'j WorkspaceDb \<Rightarrow> bool" where
  "started d input P db db' \<longleftrightarrow>
     (\<exists>w j b. wd_workspaces db' = wd_workspaces db @ [w] \<and> wd_builds db' = wd_builds db @ [b] \<and>
        db_jobs (wd_prov db') = db_jobs (wd_prov db) @ [j] \<and>
        w_id w = dr_workspace_id d \<and> w_owner_id w = PREBUILDS_SYSTEM_USER_ID \<and> \<not> w_deleted w \<and>
        w_name w = prebuild_name P (dr_workspace_id d) \<and> untagged_job d input j \<and> b_id b = dr_build_id d)"

lemma name_free: "drawn_name P d \<notin> prebuild_names db \<Longrightarrow> \<not> name_taken db i owner (prebuild_name P (dr_workspace_id d))"
  by (auto simp: name_taken_def prebuild_names_def drawn_name_def image_iff)

lemma insert_prebuild_workspace:
  assumes "statements_work P" and "unused P db d"
  shows "\<exists>w. insert_workspace (pb_ws P) (prebuild_workspace P (dr_workspace_id d) input) db =
       (db \<lparr> wd_workspaces := wd_workspaces db @ [w] \<rparr>, Inr w) \<and>
     w_id w = dr_workspace_id d \<and> w_owner_id w = PREBUILDS_SYSTEM_USER_ID \<and> \<not> w_deleted w \<and>
     w_name w = prebuild_name P (dr_workspace_id d)"
  using assms name_free [of P d db "dr_workspace_id d" PREBUILDS_SYSTEM_USER_ID]
  by (simp add: insert_workspace_def prebuild_workspace_def ws_attempt_def statements_work_def unused_def Let_def)

lemma find_last: "find Q xs = None \<Longrightarrow> find Q (xs @ [x]) = (if Q x then Some x else None)"
  by (induction xs) (auto split: if_splits)

lemma create_prebuild_job:
  assumes "statements_work P" and "\<not> job_exists (dr_job_id d) db"
  shows "\<exists>j x. create_provisioner_job (pb_ws P) (prebuild_job (dr_now d) (dr_job_id d) (pi_organization_id input) json) db =
       (db \<lparr> wd_prov := (wd_prov db) \<lparr> db_jobs := db_jobs (wd_prov db) @ [j] \<rparr> \<rparr>, Inr x) \<and> untagged_job d input j"
proof -
  have f: "find (\<lambda>j. pj_id j = dr_job_id d) (db_jobs (wd_prov db)) = None"
    using assms(2) by (auto simp: find_None_iff job_exists_def image_iff)
  show ?thesis
    using assms f
    by (intro exI [of _ "new_job (pb_ws P) (prebuild_job (dr_now d) (dr_job_id d) (pi_organization_id input) json) Echo WorkspaceBuild"])
      (simp add: untagged_job_def create_provisioner_job_def prebuild_job_def ws_attempt_def ws_query_def statements_work_def
        find_provisioner_job_def new_job_def provisioner_type_from_str_def job_type_from_str_def hm_empty_def find_last)
qed

lemma insert_prebuild_build:
  assumes "statements_work P" and "dr_build_id d \<notin> b_id ` set (wd_builds db)"
    and "wid \<in> w_id ` set (wd_workspaces db)" and "job_exists (dr_job_id d) db"
  shows "\<exists>b. insert_workspace_build (pb_ws P) (prebuild_build (dr_build_id d) wid tv (dr_job_id d) tr) db =
       (db \<lparr> wd_builds := wd_builds db @ [b] \<rparr>, Inr b) \<and> b_id b = dr_build_id d"
  using assms
  by (simp add: insert_workspace_build_def prebuild_build_def ws_attempt_def statements_work_def Let_def)

lemma builder_start_works:
  assumes work: "statements_work P" and fresh: "unused P db d"
  shows "is_ok (snd (builder_start P d input db)) \<and> started d input P db (fst (builder_start P d input db))"
proof -
  from insert_prebuild_workspace [OF assms] obtain w where w:
    "insert_workspace (pb_ws P) (prebuild_workspace P (dr_workspace_id d) input) db =
       (db \<lparr> wd_workspaces := wd_workspaces db @ [w] \<rparr>, Inr w)"
    "w_id w = dr_workspace_id d" "w_owner_id w = PREBUILDS_SYSTEM_USER_ID" "\<not> w_deleted w"
    "w_name w = prebuild_name P (dr_workspace_id d)" by blast
  define db1 where "db1 = db \<lparr> wd_workspaces := wd_workspaces db @ [w] \<rparr>"
  have "\<not> job_exists (dr_job_id d) db1" using fresh by (simp add: unused_def db1_def job_exists_def)
  from create_prebuild_job [OF work this, of input
      "pb_start_json P (to_string (pb_codec P) (pi_preset_id input))"] obtain j x where j:
    "create_provisioner_job (pb_ws P) (prebuild_job (dr_now d) (dr_job_id d) (pi_organization_id input)
        (pb_start_json P (to_string (pb_codec P) (pi_preset_id input)))) db1 =
       (db1 \<lparr> wd_prov := (wd_prov db1) \<lparr> db_jobs := db_jobs (wd_prov db1) @ [j] \<rparr> \<rparr>, Inr x)"
    "untagged_job d input j" by blast
  define db2 where "db2 = db1 \<lparr> wd_prov := (wd_prov db1) \<lparr> db_jobs := db_jobs (wd_prov db1) @ [j] \<rparr> \<rparr>"
  have pre: "dr_build_id d \<notin> b_id ` set (wd_builds db2)" "dr_workspace_id d \<in> w_id ` set (wd_workspaces db2)"
    "job_exists (dr_job_id d) db2"
    using fresh w(2) j(2) by (auto simp: unused_def db1_def db2_def job_exists_def untagged_job_def)
  from insert_prebuild_build [OF work pre, of "pi_template_version_id input" "''start''"] obtain b where b:
    "insert_workspace_build (pb_ws P) (prebuild_build (dr_build_id d) (dr_workspace_id d) (pi_template_version_id input) (dr_job_id d) ''start'') db2 =
       (db2 \<lparr> wd_builds := wd_builds db2 @ [b] \<rparr>, Inr b)" "b_id b = dr_build_id d" by blast
  have "builder_start P d input db = (db2 \<lparr> wd_builds := wd_builds db2 @ [b] \<rparr>, Inr b)"
    unfolding builder_start_def storage_err_def w(1) using j(1) b(1) by (simp add: db1_def db2_def)
  then show ?thesis using w(2-5) j(2) b(2) by (simp add: started_def db1_def db2_def)
qed

lemma started_unused:
  assumes "started d input P db db'" and "unused P db e"
    and "dr_workspace_id e \<noteq> dr_workspace_id d" and "drawn_name P e \<noteq> drawn_name P d"
    and "dr_job_id e \<noteq> dr_job_id d" and "dr_build_id e \<noteq> dr_build_id d"
  shows "unused P db' e"
  using assms by (auto simp: started_def unused_def job_exists_def prebuild_names_def drawn_name_def untagged_job_def)

lemma started_fresh:
  assumes "started (ds i) input P db db'" and "fresh_draws P ds I db" and "i \<in> I"
  shows "fresh_draws P ds (I - {i}) db'"
proof -
  have "unused P db' (ds k)" if k: "k \<in> I" "k \<noteq> i" for k
    using k assms(2,3) by (intro started_unused [OF assms(1)]) (auto simp: fresh_draws_def dest: inj_onD)
  then show ?thesis using assms(2) by (auto simp: fresh_draws_def intro: inj_on_diff)
qed

lemma started_count: "started d input P db db' \<Longrightarrow> length (prebuild_rows db') = Suc (length (prebuild_rows db))"
  by (auto simp: started_def prebuild_rows_def)

section \<open>A tick of the closed loop\<close>

lemma no_preset_no_running:
  assumes "pb_preset_of db = hm_empty"
  shows "list_prebuilt_workspaces P ready db = pb_query P []"
proof -
  have "current_preset db i = None" for i
    by (simp add: current_preset_def assms hm_empty_def hm_get_def)
  then have "List.map_filter running_workspace_row_to_info (running_rows ready db) = []"
    by (auto simp: running_rows_def running_workspace_row_to_info_def map_filter_def filter_empty_conv
        split: option.splits)
  then show ?thesis
    by (simp add: list_prebuilt_workspaces_def list_running_prebuilt_workspaces_def pb_query_def split: option.splits)
qed

lemma after_calls_snoc:
  "after_calls P ds k (log @ [(c, ok)]) db = fst (perform P (ds (k + length log)) c (after_calls P ds k log db))"
  by (induction log arbitrary: k db) auto

lemma perform_keeps [simp]:
  "pb_preset_of (fst (perform P d c db)) = pb_preset_of db" "pb_presets (fst (perform P d c db)) = pb_presets db"
  by (simp_all add: perform_def split: prod.splits)

lemma after_calls_keeps [simp]:
  "pb_preset_of (after_calls P ds k log db) = pb_preset_of db" "pb_presets (after_calls P ds k log db) = pb_presets db"
  by (induction log arbitrary: k db) auto

lemma reconcile_once_keeps [simp]:
  "pb_preset_of (reconcile_once P options ready ds db) = pb_preset_of db"
  "pb_presets (reconcile_once P options ready ds db) = pb_presets db"
  by (simp_all add: reconcile_once_def split: prod.splits)

text \<open>The creates of one preset when every call works and the limit leaves room.\<close>

lemma creates_of_preset:
  assumes "\<And>k. k < n \<Longrightarrow> ex (replicate k (CreatePrebuild (start_input p), True)) (CreatePrebuild (start_input p))"
    and "\<And>l. lim = Some l \<Longrightarrow> n \<le> l"
    and "ts_calls s = []" and "ts_running_total s = 0"
  shows "ts_calls ((create_one (Some ex) lim p ^^ n) s) = replicate n (CreatePrebuild (start_input p), True) \<and>
     ts_running_total ((create_one (Some ex) lim p ^^ n) s) = n"
  using assms(1,2)
proof (induction n)
  case 0
  then show ?case using assms(3,4) by simp
next
  case (Suc n)
  define t where "t = (create_one (Some ex) lim p ^^ n) s"
  from Suc have t: "ts_calls t = replicate n (CreatePrebuild (start_input p), True)" "ts_running_total t = n"
    by (auto simp: t_def Suc_le_eq less_Suc_eq dest: less_imp_le)
  have "\<not> (case lim of Some l \<Rightarrow> l \<le> ts_running_total t | None \<Rightarrow> False)"
    using Suc.prems(2) t(2) by (auto simp: Suc_le_eq split: option.splits)
  then have "create_one (Some ex) lim p t = (let s = t \<lparr> ts_running_total := Suc n, ts_calls := ts_calls t @ [(CreatePrebuild (start_input p), True)] \<rparr>
      in s \<lparr> ts_stats := (ts_stats s) \<lparr> rs_creates_executed := saturating_add (rs_creates_executed (ts_stats s)) 1 \<rparr> \<rparr>)"
    using t Suc.prems(1) [of n] by (simp add: create_one_def run_call_def Let_def)
  then show ?case using t by (simp add: t_def Let_def replicate_append_same)
qed

text \<open>The database after the first \<open>n\<close> creates of tick \<open>t\<close>.\<close>

definition creating ::
  "'j pb_env \<Rightarrow> (nat \<times> nat \<Rightarrow> draw) \<Rightarrow> PrebuildStartInput \<Rightarrow> 'j PrebuildDb \<Rightarrow> nat \<Rightarrow> nat \<Rightarrow> 'j PrebuildDb" where
  "creating P ds input db t n = after_calls P (\<lambda>i. ds (t, i)) 0 (replicate n (CreatePrebuild input, True)) db"

lemma creates_applied:
  assumes "statements_work P" and "fresh_draws P ds I (pb_tables db)" and "{t} \<times> {..<n} \<subseteq> I"
  shows "fresh_draws P ds (I - {t} \<times> {..<n}) (pb_tables (creating P ds input db t n)) \<and>
     length (prebuild_rows (pb_tables (creating P ds input db t n))) = length (prebuild_rows (pb_tables db)) + n \<and>
     (\<forall>k < n. is_ok (snd (perform P (ds (t, k)) (CreatePrebuild input) (creating P ds input db t k))))"
  using assms(3)
proof (induction n)
  case 0
  then show ?case using assms(2) by (simp add: creating_def)
next
  case (Suc n)
  then have IH: "fresh_draws P ds (I - {t} \<times> {..<n}) (pb_tables (creating P ds input db t n))"
    "length (prebuild_rows (pb_tables (creating P ds input db t n))) = length (prebuild_rows (pb_tables db)) + n"
    "\<forall>k < n. is_ok (snd (perform P (ds (t, k)) (CreatePrebuild input) (creating P ds input db t k)))"
    by (auto simp: subset_iff less_Suc_eq)
  have i: "(t, n) \<in> I - {t} \<times> {..<n}" using Suc.prems by auto
  then have un: "unused P (pb_tables (creating P ds input db t n)) (ds (t, n))" using IH(1) by (simp add: fresh_draws_def)
  note b = builder_start_works [OF assms(1) un, of input]
  have step: "creating P ds input db t (Suc n) = fst (perform P (ds (t, n)) (CreatePrebuild input) (creating P ds input db t n))"
    unfolding creating_def replicate_Suc replicate_append_same [symmetric] after_calls_snoc by simp
  have st: "started (ds (t, n)) input P (pb_tables (creating P ds input db t n)) (pb_tables (creating P ds input db t (Suc n)))"
    unfolding step using b by (simp add: perform_def case_prod_beta Let_def)
  have ok: "is_ok (snd (perform P (ds (t, n)) (CreatePrebuild input) (creating P ds input db t n)))"
    using b by (simp add: perform_def case_prod_beta Let_def)
  have I: "I - {t} \<times> {..<Suc n} = I - {t} \<times> {..<n} - {(t, n)}" by (auto simp: less_Suc_eq)
  show ?case
    unfolding I using started_fresh [OF st IH(1) i] started_count [OF st] IH(2,3) ok by (simp add: less_Suc_eq)
qed

definition live_preset :: "PrebuildReconcilerOptions \<Rightarrow> PresetPrebuildInfo \<Rightarrow> bool" where
  "live_preset options p \<longleftrightarrow> ps_using_active_version p \<and> \<not> ps_is_hard_limited p \<and>
     (case hard_limit options of None \<Rightarrow> True | Some l \<Rightarrow> unat (ps_desired_instances p) \<le> l)"

lemma tick_one_preset:
  assumes "live_preset options p"
    and "\<And>k. k < unat (ps_desired_instances p) \<Longrightarrow>
           ex (replicate k (CreatePrebuild (start_input p), True)) (CreatePrebuild (start_input p))"
  shows "fst (snd (tick (Inr [p]) (Inr []) (with_actions options ex))) =
    replicate (unat (ps_desired_instances p)) (CreatePrebuild (start_input p), True)"
proof -
  have "unat (ps_desired_instances p) < 2 ^ 32" using unsigned_less [of "ps_desired_instances p"] by simp
  then have w: "u32_of_usize (unat (ps_desired_instances p)) = ps_desired_instances p"
    by (simp add: u32_of_usize_def)
  have lim: "\<And>l. hard_limit options = Some l \<Longrightarrow> unat (ps_desired_instances p) \<le> l"
    using assms(1) by (simp add: live_preset_def)
  note c = creates_of_preset [where ex = ex and p = p and lim = "hard_limit options", OF assms(2) lim]
  show ?thesis
    using assms(1) c w
    by (simp add: tick_def with_actions_def compute_deltas_def preset_delta_def running_by_preset_def
        group_by_preset_def hm_empty_def hm_get_def live_preset_def Let_def apply_delta_def apply_deletes_def
        apply_creates_def word_less_nat_alt)
qed

lemma reconcile_creates:
  assumes work: "statements_work P" and fresh: "fresh_draws P ds I (pb_tables db)"
    and I: "{t} \<times> {..<unat (ps_desired_instances p)} \<subseteq> I"
    and none: "pb_preset_of db = hm_empty" and presets: "list_presets_with_prebuilds P db = Ok [p]"
    and live: "live_preset options p"
  shows "reconcile_once P options ready (\<lambda>i. ds (t, i)) db =
    creating P ds (start_input p) db t (unat (ps_desired_instances p))"
proof -
  have r: "list_prebuilt_workspaces P ready db = Inr []"
    using work by (simp add: no_preset_no_running [OF none] pb_query_def statements_work_def)
  have "store_actions P (\<lambda>i. ds (t, i)) db (replicate k (CreatePrebuild (start_input p), True)) (CreatePrebuild (start_input p))"
    if "k < unat (ps_desired_instances p)" for k
    using creates_applied [OF work fresh I, of "start_input p"] that
    by (simp add: store_actions_def creating_def)
  from tick_one_preset [where ex = "store_actions P (\<lambda>i. ds (t, i)) db", OF live this]
  have "fst (snd (tick (Inr [p]) (Inr []) (with_actions options (store_actions P (\<lambda>i. ds (t, i)) db)))) =
      replicate (unat (ps_desired_instances p)) (CreatePrebuild (start_input p), True)" .
  then show ?thesis
    by (simp add: reconcile_once_def presets r creating_def case_prod_beta)
qed

lemma list_presets_cong: "pb_presets db' = pb_presets db \<Longrightarrow> list_presets_with_prebuilds P db' = list_presets_with_prebuilds P db"
  by (simp add: list_presets_with_prebuilds_def)

lemma reconcile_many_creates:
  assumes work: "statements_work P"
    and fresh: "fresh_draws P ds ({..<T} \<times> {..<unat (ps_desired_instances p)}) (pb_tables db)"
    and none: "pb_preset_of db = hm_empty" and presets: "list_presets_with_prebuilds P db = Ok [p]"
    and live: "live_preset options p" and le: "t \<le> T"
  shows "fresh_draws P ds ({t..<T} \<times> {..<unat (ps_desired_instances p)}) (pb_tables (reconcile_many P options ready ds t db)) \<and>
     length (prebuild_rows (pb_tables (reconcile_many P options ready ds t db))) =
       length (prebuild_rows (pb_tables db)) + t * unat (ps_desired_instances p) \<and>
     pb_preset_of (reconcile_many P options ready ds t db) = hm_empty \<and>
     pb_presets (reconcile_many P options ready ds t db) = pb_presets db"
  using le
proof (induction t)
  case 0
  then show ?case using fresh none by (simp add: atLeast0LessThan)
next
  case (Suc t)
  let ?D = "unat (ps_desired_instances p)" and ?db = "reconcile_many P options ready ds t db"
  have IH: "fresh_draws P ds ({t..<T} \<times> {..<?D}) (pb_tables ?db)"
    "length (prebuild_rows (pb_tables ?db)) = length (prebuild_rows (pb_tables db)) + t * ?D"
    "pb_preset_of ?db = hm_empty" "pb_presets ?db = pb_presets db" using Suc by simp_all
  have I: "{t} \<times> {..<?D} \<subseteq> {t..<T} \<times> {..<?D}" using Suc.prems by auto
  have J: "{t..<T} \<times> {..<?D} - {t} \<times> {..<?D} = {Suc t..<T} \<times> {..<?D}" by auto
  have ps: "list_presets_with_prebuilds P ?db = Ok [p]" using list_presets_cong [OF IH(4)] presets by simp
  note c = creates_applied [OF work IH(1) I, of "start_input p", unfolded J]
  show ?case using c IH(2-4) reconcile_creates [OF work IH(1) I IH(3) ps live, where ready = ready]
    by (simp add: creating_def)
qed

section \<open>An example database\<close>

text \<open>Identifiers of the example are numbered; the undashed form of an identifier is that many letters.\<close>

definition demo_pb_env :: "unit pb_env" where
  "demo_pb_env = \<lparr> pb_ws = demo_ws_env, pb_codec = \<lparr> to_string = (\<lambda>_. []), parse_str = (\<lambda>_. None) \<rparr>,
     pb_simple = (\<lambda>i. replicate (unat i) CHR ''a''), pb_start_json = (\<lambda>_. ()), pb_delete_json = (), pb_query_fault = None \<rparr>"

definition demo_pb_row :: TemplatePresetWithPrebuild where
  "demo_pb_row = \<lparr> tp_template_id = 1, tp_template_version_id = 2, tp_organization_id = 3, tp_preset_id = 4,
     tp_preset_name = ''small'', tp_desired_instances = 2, tp_using_active_version = True,
     tp_prebuild_status = ''healthy'', tp_template_deleted = False, tp_template_deprecated = False, tp_created_at = 0 \<rparr>"

definition demo_pb_db :: "unit PrebuildDb" where
  "demo_pb_db = \<lparr> pb_tables = empty_db, pb_preset_of = hm_empty, pb_presets = [demo_pb_row] \<rparr>"

definition demo_pb_draw :: "nat \<times> nat \<Rightarrow> draw" where
  "demo_pb_draw = (\<lambda>(t, i). let n = of_nat (Suc (2 * t + i)) in
     \<lparr> dr_now = 0, dr_workspace_id = n, dr_job_id = n, dr_build_id = n \<rparr>)"

lemma demo_pb_preset: "list_presets_with_prebuilds demo_pb_env demo_pb_db = Ok [preset_row_to_info demo_pb_row]"
  by (simp add: list_presets_with_prebuilds_def pb_query_def demo_pb_env_def demo_pb_db_def demo_pb_row_def)

lemma demo_pb_desired: "unat (ps_desired_instances (preset_row_to_info demo_pb_row)) = 2"
  by (simp add: preset_row_to_info_def demo_pb_row_def)

lemma demo_pb_fresh: "fresh_draws demo_pb_env demo_pb_draw ({..<2} \<times> {..<2}) (pb_tables demo_pb_db)"
proof -
  have I: "{..<2} \<times> {..<2} = {(0::nat, 0::nat), (0, 1), (1, 0), (1, 1)}"
    by (auto simp: less_2_cases_iff)
  show ?thesis
    unfolding I by (simp add: fresh_draws_def unused_def demo_pb_draw_def demo_pb_db_def empty_db_def demo_db_def
        demo_pb_env_def drawn_name_def prebuild_name_def prebuild_names_def job_exists_def, simp add: eval_nat_numeral)
qed

section \<open>Properties\<close>



text \<open>
  A prebuild's job carries no tags at all, so it fits every daemon of its organisation that runs the echo provisioner,
  whatever the tags of that daemon: also one that a user registered for their own jobs.
\<close>

theorem prebuild_job_fits_every_daemon:
  assumes "statements_work P" and "unused P db d"
    and "aj_organization_id a = pi_organization_id input" and "Echo \<in> set (aj_types a)"
  shows "\<exists>j \<in> set (db_jobs (wd_prov (fst (builder_start P d input db)))). pj_id j = dr_job_id d \<and> acquirable a j"
proof -
  from builder_start_works [OF assms(1,2), of input] obtain j where
    "db_jobs (wd_prov (fst (builder_start P d input db))) = db_jobs (wd_prov db) @ [j]" "untagged_job d input j"
    unfolding started_def by blast
  moreover have "\<not> sql_untagged []"
    by (metis fun_upd_same map_of.simps(1) option.distinct(1) sql_untagged_def)
  moreover from calculation(2,3) have "acquirable a j"
    using assms(3,4) imageI [OF assms(4), of provisioner_type_as_str]
    by (simp add: untagged_job_def acquirable_def sql_tags_match_def)
  ultimately show ?thesis by (auto simp: untagged_job_def)
qed

theorem prebuild_job_fits_every_daemon_witness:
  "\<exists>j \<in> set (db_jobs (wd_prov (fst (builder_start demo_pb_env (demo_pb_draw (0, 0))
       \<lparr> pi_organization_id = 3, pi_template_id = 1, pi_template_version_id = 2, pi_preset_id = 4 \<rparr> empty_db)))).
     pj_id j = 1 \<and>
     acquirable \<lparr> aj_worker_id = 9, aj_started_at = 0, aj_organization_id = 3, aj_types = [Echo],
       aj_provisioner_tags = [(TAG_SCOPE, SCOPE_USER), (TAG_OWNER, ''alice'')] \<rparr> j"
proof -
  have "statements_work demo_pb_env" by (simp add: statements_work_def demo_pb_env_def demo_ws_env_def)
  moreover have "unused demo_pb_env empty_db (demo_pb_draw (0, 0))"
    using demo_pb_fresh by (simp add: fresh_draws_def demo_pb_db_def)
  ultimately show ?thesis
    using prebuild_job_fits_every_daemon [of demo_pb_env empty_db "demo_pb_draw (0, 0)"]
    by (simp add: demo_pb_draw_def)
qed

end
