(* ===== verification/Provisioner_Server.thy ===== *)
theory Provisioner_Server
  imports Provisioner_Store
begin

text \<open>
  The provisioner service and the stale-job reaper of \<open>crates/coder-provisioner/src/lib.rs\<close> and the
  daemon sessions of \<open>crates/coder-provisioner/src/server.rs\<close>. A session is a record and each branch of
  its \<open>select!\<close> loop a function of the database, the clock and whether the outgoing channel is still
  open; a branch runs at most one statement on the jobs table, so sessions interleave branch by branch
  in \<open>prov_step\<close>. The reaper runs one statement per job and interleaves statement by statement.
  Reading and printing timestamps belongs to the \<open>time\<close> crate and is a parameter.
\<close>

section \<open>Service\<close>

datatype ProvisionerServiceError = ServiceStorage StorageError

definition service_result :: "(StorageError, 'a) result \<Rightarrow> (ProvisionerServiceError, 'a) result" where
  "service_result r = (case r of Inl e \<Rightarrow> Err (ServiceStorage e) | Inr x \<Rightarrow> Ok x)"

definition service_stmt :: "('j, 'a) stmt \<Rightarrow> 'j ProvisionerDb \<times> (ProvisionerServiceError, 'a) result" where
  "service_stmt s = (fst s, service_result (snd s))"

definition acquire_job ::
  "'j prov_env \<Rightarrow> AcquireProvisionerJobInput \<Rightarrow> 'j ProvisionerDb \<Rightarrow>
   'j ProvisionerDb \<times> (ProvisionerServiceError, 'j ProvisionerJobRecord option) result" where
  "acquire_job E input db = service_stmt (acquire_provisioner_job E input db)"

definition get_job ::
  "'j prov_env \<Rightarrow> uuid \<Rightarrow> 'j ProvisionerDb \<Rightarrow> (ProvisionerServiceError, 'j ProvisionerJobRecord option) result" where
  "get_job E i db = service_result (get_provisioner_job_by_id E i db)"

definition get_jobs ::
  "'j prov_env \<Rightarrow> uuid list \<Rightarrow> 'j ProvisionerDb \<Rightarrow> (ProvisionerServiceError, 'j ProvisionerJobRecord list) result" where
  "get_jobs E ids db = service_result (get_provisioner_jobs_by_ids E ids db)"

definition insert_job ::
  "'j prov_env \<Rightarrow> 'j InsertProvisionerJobInput \<Rightarrow> 'j ProvisionerDb \<Rightarrow>
   'j ProvisionerDb \<times> (ProvisionerServiceError, 'j ProvisionerJobRecord) result" where
  "insert_job E input db = service_stmt (insert_provisioner_job E input db)"

definition heartbeat_job ::
  "'j prov_env \<Rightarrow> instant \<Rightarrow> uuid \<Rightarrow> 'j ProvisionerDb \<Rightarrow> 'j ProvisionerDb \<times> (ProvisionerServiceError, unit) result" where
  "heartbeat_job E now i db = service_stmt (update_provisioner_job_by_id E i now db)"

definition complete_job ::
  "'j prov_env \<Rightarrow> CompleteProvisionerJobInput \<Rightarrow> 'j ProvisionerDb \<Rightarrow>
   'j ProvisionerDb \<times> (ProvisionerServiceError, unit) result" where
  "complete_job E input db = service_stmt (update_provisioner_job_with_complete_by_id E input db)"

definition cancel_job ::
  "'j prov_env \<Rightarrow> CancelProvisionerJobInput \<Rightarrow> 'j ProvisionerDb \<Rightarrow>
   'j ProvisionerDb \<times> (ProvisionerServiceError, unit) result" where
  "cancel_job E input db = service_stmt (update_provisioner_job_with_cancel_by_id E input db)"

definition DEFAULT_HEARTBEAT_TIMEOUT_SECS :: int where
  "DEFAULT_HEARTBEAT_TIMEOUT_SECS = 30"

definition DEFAULT_MAX_PENDING_AGE_SECS :: int where
  "DEFAULT_MAX_PENDING_AGE_SECS = 60 * 30"

definition DEFAULT_REAP_BATCH_SIZE :: int where
  "DEFAULT_REAP_BATCH_SIZE = 100"

definition reap_input :: "instant \<Rightarrow> GetJobsToBeReapedInput" where
  "reap_input now =
     \<lparr> gj_pending_since = now - secs DEFAULT_MAX_PENDING_AGE_SECS,
       gj_hung_since = now - secs DEFAULT_HEARTBEAT_TIMEOUT_SECS,
       gj_max_jobs = DEFAULT_REAP_BATCH_SIZE \<rparr>"

definition get_stale_jobs ::
  "'j prov_env \<Rightarrow> instant \<Rightarrow> 'j ProvisionerDb \<Rightarrow> (ProvisionerServiceError, 'j ProvisionerJobRecord list) result" where
  "get_stale_jobs E now db = service_result (get_provisioner_jobs_to_be_reaped E (reap_input now) db)"

definition insert_job_logs ::
  "'j prov_env \<Rightarrow> InsertProvisionerJobLogsInput \<Rightarrow> 'j ProvisionerDb \<Rightarrow>
   'j ProvisionerDb \<times> (ProvisionerServiceError, ProvisionerJobLogRecord list) result" where
  "insert_job_logs E input db = service_stmt (insert_provisioner_job_logs E input db)"

definition get_logs_after ::
  "'j prov_env \<Rightarrow> uuid \<Rightarrow> int \<Rightarrow> 'j ProvisionerDb \<Rightarrow> (ProvisionerServiceError, ProvisionerJobLogRecord list) result" where
  "get_logs_after E job after_id db = service_result (get_provisioner_logs_after_id E job after_id db)"

definition insert_job_timings ::
  "'j prov_env \<Rightarrow> InsertProvisionerJobTimingsInput \<Rightarrow> 'j ProvisionerDb \<Rightarrow>
   'j ProvisionerDb \<times> (ProvisionerServiceError, ProvisionerJobTimingRecord list) result" where
  "insert_job_timings E input db = service_stmt (insert_provisioner_job_timings E input db)"

definition get_job_timings ::
  "'j prov_env \<Rightarrow> uuid \<Rightarrow> 'j ProvisionerDb \<Rightarrow> (ProvisionerServiceError, ProvisionerJobTimingRecord list) result" where
  "get_job_timings E job db = service_result (get_provisioner_job_timings_by_job_id E job db)"

definition upsert_daemon ::
  "'j prov_env \<Rightarrow> instant \<Rightarrow> UpsertProvisionerDaemonInput \<Rightarrow> 'j ProvisionerDb \<Rightarrow>
   'j ProvisionerDb \<times> (ProvisionerServiceError, ProvisionerDaemonRecord) result" where
  "upsert_daemon E now input db = service_stmt (upsert_provisioner_daemon E now input db)"

definition heartbeat_daemon ::
  "'j prov_env \<Rightarrow> instant \<Rightarrow> uuid \<Rightarrow> 'j ProvisionerDb \<Rightarrow> 'j ProvisionerDb \<times> (ProvisionerServiceError, unit) result" where
  "heartbeat_daemon E now i db = service_stmt (update_provisioner_daemon_last_seen_at E i now db)"

definition list_daemons ::
  "'j prov_env \<Rightarrow> uuid \<Rightarrow> 'j ProvisionerDb \<Rightarrow> (ProvisionerServiceError, ProvisionerDaemonRecord list) result" where
  "list_daemons E org db = service_result (get_provisioner_daemons_by_organization E org db)"

definition delete_old_daemons ::
  "'j prov_env \<Rightarrow> instant \<Rightarrow> 'j ProvisionerDb \<Rightarrow> 'j ProvisionerDb \<times> (ProvisionerServiceError, unit) result" where
  "delete_old_daemons E now db = service_stmt (delete_old_provisioner_daemons E now db)"

definition insert_key ::
  "'j prov_env \<Rightarrow> 'j ProvisionerKeyRecord \<Rightarrow> 'j ProvisionerDb \<Rightarrow>
   'j ProvisionerDb \<times> (ProvisionerServiceError, 'j ProvisionerKeyRecord) result" where
  "insert_key E input db = service_stmt (insert_provisioner_key E input db)"

definition get_key ::
  "'j prov_env \<Rightarrow> uuid \<Rightarrow> 'j ProvisionerDb \<Rightarrow> (ProvisionerServiceError, 'j ProvisionerKeyRecord option) result" where
  "get_key E i db = service_result (get_provisioner_key_by_id E i db)"

definition get_key_by_secret ::
  "'j prov_env \<Rightarrow> nat list \<Rightarrow> 'j ProvisionerDb \<Rightarrow> (ProvisionerServiceError, 'j ProvisionerKeyRecord option) result" where
  "get_key_by_secret E secret db = service_result (get_provisioner_key_by_hashed_secret E secret db)"

definition delete_key :: "'j prov_env \<Rightarrow> uuid \<Rightarrow> 'j ProvisionerDb \<Rightarrow> 'j ProvisionerDb \<times> (ProvisionerServiceError, bool) result" where
  "delete_key E i db = service_stmt (delete_provisioner_key E i db)"

section \<open>Reaper\<close>

text \<open>A number of seconds in minutes, printed without decimals: halves round to the even minute.\<close>

definition minutes_text :: "nat \<Rightarrow> string" where
  "minutes_text s =
     nat_str (if s mod 60 < 30 \<or> s mod 60 = 30 \<and> even (s div 60) then s div 60 else s div 60 + 1)"

definition reap_message :: "'j ProvisionerJobRecord \<Rightarrow> string" where
  "reap_message j =
     (let (reap_type, threshold) =
        (if pj_started_at j = None then (''pending'', DEFAULT_MAX_PENDING_AGE_SECS)
         else (''hung'', DEFAULT_HEARTBEAT_TIMEOUT_SECS))
      in ''Coder: Build has been detected as '' @ reap_type @ '' for '' @ minutes_text (nat threshold) @
         '' minutes and has been terminated by the reaper.'')"

definition reap_one :: "'j prov_env \<Rightarrow> instant \<Rightarrow> 'j ProvisionerJobRecord \<Rightarrow> 'j ProvisionerDb \<Rightarrow> ('j, unit) stmt" where
  "reap_one E now j db =
     update_provisioner_job_with_complete_by_id E
       \<lparr> cj_id = pj_id j, cj_updated_at = now, cj_completed_at = now, cj_error = reap_message j, cj_error_code = [] \<rparr> db"

fun reap_loop :: "'j prov_env \<Rightarrow> instant \<Rightarrow> 'j ProvisionerJobRecord list \<Rightarrow> nat \<Rightarrow> 'j ProvisionerDb \<Rightarrow> 'j ProvisionerDb \<times> nat" where
  "reap_loop E now [] reaped db = (db, reaped)"
| "reap_loop E now (j # js) reaped db =
     (case reap_one E now j db of
        (db, Inr _) \<Rightarrow> reap_loop E now js (reaped + 1) db
      | (db, Inl _) \<Rightarrow> reap_loop E now js reaped db)"

definition reap_stale_jobs_once :: "'j prov_env \<Rightarrow> instant \<Rightarrow> 'j ProvisionerDb \<Rightarrow> ('j, nat) stmt" where
  "reap_stale_jobs_once E now db =
     (case get_provisioner_jobs_to_be_reaped E (reap_input now) db of
        Inl e \<Rightarrow> (db, Err e)
      | Inr stale \<Rightarrow> (let (db, reaped) = reap_loop E now stale 0 db in (db, Ok reaped)))"

section \<open>Messages\<close>

record JobLogEntry =
  le_source :: string
  le_level :: string
  le_stage :: string
  le_output :: string

record JobTimingEntry =
  te_started_at :: string
  te_ended_at :: string
  te_stage :: string
  te_source :: string
  te_action :: string
  te_resource :: string

datatype DaemonMessage =
    AcquireJob
  | Heartbeat
  | JobLogs "JobLogEntry list"
  | JobTimings "JobTimingEntry list"
  | CompleteJob string string
  | CancelComplete

record 'j JobInfo =
  ji_id :: uuid
  ji_created_at :: string
  ji_organization_id :: "uuid option"
  ji_provisioner :: string
  ji_job_type :: string
  ji_input :: 'j
  ji_file_id :: "uuid option"
  ji_tags :: tags

datatype 'j ServerMessage =
    JobAssigned "'j JobInfo"
  | NoJob
  | HeartbeatAck
  | JobCanceled uuid
  | LogsAccepted nat
  | TimingsAccepted nat
  | JobCompleteAck
  | ServerError string

record DaemonRegistration =
  dr_name :: string
  dr_version :: string
  dr_api_version :: string
  dr_provisioners :: "string list"
  dr_tags :: tags
  dr_organization_id :: uuid
  dr_key_id :: "uuid option"

definition DEFAULT_HEARTBEAT_INTERVAL :: instant where
  "DEFAULT_HEARTBEAT_INTERVAL = secs 30"

definition DEFAULT_CANCEL_CHECK_INTERVAL :: instant where
  "DEFAULT_CANCEL_CHECK_INTERVAL = secs 5"

record DaemonServerConfig =
  dc_heartbeat_interval :: instant
  dc_cancel_check_interval :: instant

definition default_daemon_config :: DaemonServerConfig where
  "default_daemon_config =
     \<lparr> dc_heartbeat_interval = DEFAULT_HEARTBEAT_INTERVAL,
       dc_cancel_check_interval = DEFAULT_CANCEL_CHECK_INTERVAL \<rparr>"

datatype DaemonServerError = DaemonStorage StorageError | DaemonChannel string | DaemonJson string | DaemonProtocol string

fun daemon_error_display :: "DaemonServerError \<Rightarrow> string" where
  "daemon_error_display (DaemonStorage e) = ''storage: '' @ storage_error_display e"
| "daemon_error_display (DaemonChannel e) = ''channel: '' @ e"
| "daemon_error_display (DaemonJson e) = ''json: '' @ e"
| "daemon_error_display (DaemonProtocol e) = ''protocol: '' @ e"

datatype MessageResult = Continue | Close

record time_text =
  parse_rfc3339 :: "string \<Rightarrow> instant option"
  format_time :: "instant \<Rightarrow> string"

definition job_info :: "time_text \<Rightarrow> 'j ProvisionerJobRecord \<Rightarrow> 'j JobInfo" where
  "job_info T j =
     \<lparr> ji_id = pj_id j, ji_created_at = format_time T (pj_created_at j), ji_organization_id = pj_organization_id j,
       ji_provisioner = provisioner_type_as_str (pj_provisioner j), ji_job_type = job_type_as_str (pj_job_type j),
       ji_input = pj_input j, ji_file_id = pj_file_id j, ji_tags = pj_tags j \<rparr>"

definition parse_log_source :: "string \<Rightarrow> LogSource" where
  "parse_log_source s = (if s = ''provisioner_daemon'' then ProvisionerDaemonLog else ProvisionerLog)"

definition parse_log_level :: "string \<Rightarrow> LogLevel" where
  "parse_log_level s =
     (if s = ''trace'' then Trace else if s = ''debug'' then Debug else if s = ''info'' then Info
      else if s = ''warn'' then Warn else if s = ''error'' then Error else Info)"

definition parse_timing_stage :: "string \<Rightarrow> ProvisionerJobTimingStage" where
  "parse_timing_stage s =
     (if s = ''init'' then Init else if s = ''plan'' then Plan else if s = ''graph'' then Graph
      else if s = ''apply'' then Apply else Init)"

definition parse_timestamp :: "time_text \<Rightarrow> instant \<Rightarrow> string \<Rightarrow> instant" where
  "parse_timestamp T now s = (case parse_rfc3339 T s of Some t \<Rightarrow> t | None \<Rightarrow> now)"

section \<open>Sessions\<close>

record 'j DaemonSession =
  ss_daemon_id :: uuid
  ss_registration :: DaemonRegistration
  ss_types :: "ProvisionerType list"
  ss_current_job :: "'j ProvisionerJobRecord option"

definition registration_types :: "DaemonRegistration \<Rightarrow> ProvisionerType list" where
  "registration_types r =
     List.map_filter (\<lambda>s. if s = ''terraform'' then Some Terraform else if s = ''echo'' then Some Echo else None)
       (dr_provisioners r)"

definition register_session ::
  "'j prov_env \<Rightarrow> instant \<Rightarrow> DaemonRegistration \<Rightarrow> 'j ProvisionerDb \<Rightarrow>
   'j ProvisionerDb \<times> (DaemonServerError, 'j DaemonSession) result" where
  "register_session E now r db =
     (case upsert_provisioner_daemon E now
        \<lparr> ud_name = dr_name r, ud_provisioners = dr_provisioners r, ud_tags = dr_tags r, ud_last_seen_at = now,
          ud_version = dr_version r, ud_organization_id = dr_organization_id r,
          ud_api_version = dr_api_version r, ud_key_id = dr_key_id r \<rparr> db of
        (db, Inl e) \<Rightarrow> (db, Err (DaemonStorage e))
      | (db, Inr daemon) \<Rightarrow>
          (db, Ok \<lparr> ss_daemon_id = pd_id daemon, ss_registration = r, ss_types = registration_types r,
                    ss_current_job = None \<rparr>))"

type_synonym 'j handled =
  "'j ProvisionerDb \<times> 'j DaemonSession \<times> 'j ServerMessage list \<times> (DaemonServerError, MessageResult) result"

definition send_then_continue ::
  "bool \<Rightarrow> 'j ServerMessage \<Rightarrow> 'j ProvisionerDb \<Rightarrow> 'j DaemonSession \<Rightarrow> 'j handled" where
  "send_then_continue out_open msg db ss =
     (if out_open then (db, ss, [msg], Ok Continue) else (db, ss, [], Err (DaemonChannel ''channel closed'')))"

definition acquire_input :: "instant \<Rightarrow> 'j DaemonSession \<Rightarrow> AcquireProvisionerJobInput" where
  "acquire_input now ss =
     \<lparr> aj_worker_id = ss_daemon_id ss, aj_started_at = now,
       aj_organization_id = dr_organization_id (ss_registration ss), aj_types = ss_types ss,
       aj_provisioner_tags = dr_tags (ss_registration ss) \<rparr>"

definition beat :: "'j prov_env \<Rightarrow> instant \<Rightarrow> 'j DaemonSession \<Rightarrow> 'j ProvisionerDb \<Rightarrow> 'j ProvisionerDb" where
  "beat E now ss db =
     (let db = fst (update_provisioner_daemon_last_seen_at E (ss_daemon_id ss) now db)
      in case ss_current_job ss of
           Some job \<Rightarrow> fst (update_provisioner_job_by_id E (pj_id job) now db)
         | None \<Rightarrow> db)"

definition logs_input :: "instant \<Rightarrow> uuid \<Rightarrow> JobLogEntry list \<Rightarrow> InsertProvisionerJobLogsInput" where
  "logs_input now job logs =
     \<lparr> il_job_id = job, il_created_at = replicate (length logs) now,
       il_source = map (\<lambda>l. parse_log_source (le_source l)) logs,
       il_level = map (\<lambda>l. parse_log_level (le_level l)) logs,
       il_stage = map le_stage logs, il_output = map le_output logs \<rparr>"

definition timings_input :: "time_text \<Rightarrow> instant \<Rightarrow> uuid \<Rightarrow> JobTimingEntry list \<Rightarrow> InsertProvisionerJobTimingsInput" where
  "timings_input T now job timings =
     \<lparr> it_job_id = job, it_started_at = map (\<lambda>t. parse_timestamp T now (te_started_at t)) timings,
       it_ended_at = map (\<lambda>t. parse_timestamp T now (te_ended_at t)) timings,
       it_stage = map (\<lambda>t. parse_timing_stage (te_stage t)) timings, it_source = map te_source timings,
       it_action = map te_action timings, it_resource = map te_resource timings \<rparr>"

fun handle_daemon_message ::
  "'j prov_env \<Rightarrow> time_text \<Rightarrow> instant \<Rightarrow> bool \<Rightarrow> DaemonMessage \<Rightarrow> 'j DaemonSession \<Rightarrow> 'j ProvisionerDb \<Rightarrow> 'j handled" where
  "handle_daemon_message E T now out_open AcquireJob ss db =
     (if ss_current_job ss \<noteq> None
      then send_then_continue out_open (ServerError ''already have an active job'') db ss
      else case acquire_provisioner_job E (acquire_input now ss) db of
        (db, Inl e) \<Rightarrow> (db, ss, [], Err (DaemonStorage e))
      | (db, Inr (Some job)) \<Rightarrow>
          send_then_continue out_open (JobAssigned (job_info T job)) db (ss \<lparr> ss_current_job := Some job \<rparr>)
      | (db, Inr None) \<Rightarrow> send_then_continue out_open NoJob db ss)"
| "handle_daemon_message E T now out_open Heartbeat ss db =
     send_then_continue out_open HeartbeatAck (beat E now ss db) ss"
| "handle_daemon_message E T now out_open (JobLogs logs) ss db =
     (case ss_current_job ss of
        None \<Rightarrow> send_then_continue out_open (ServerError ''no active job for log insertion'') db ss
      | Some job \<Rightarrow>
          (case insert_provisioner_job_logs E (logs_input now (pj_id job) logs) db of
             (db, Inl e) \<Rightarrow> (db, ss, [], Err (DaemonStorage e))
           | (db, Inr _) \<Rightarrow> send_then_continue out_open (LogsAccepted (length logs)) db ss))"
| "handle_daemon_message E T now out_open (JobTimings timings) ss db =
     (case ss_current_job ss of
        None \<Rightarrow> send_then_continue out_open (ServerError ''no active job for timing insertion'') db ss
      | Some job \<Rightarrow>
          (case insert_provisioner_job_timings E (timings_input T now (pj_id job) timings) db of
             (db, Inl e) \<Rightarrow> (db, ss, [], Err (DaemonStorage e))
           | (db, Inr _) \<Rightarrow> send_then_continue out_open (TimingsAccepted (length timings)) db ss))"
| "handle_daemon_message E T now out_open (CompleteJob err err_code) ss db =
     (case ss_current_job ss of
        None \<Rightarrow> send_then_continue out_open (ServerError ''no active job to complete'') db ss
      | Some job \<Rightarrow>
          (case update_provisioner_job_with_complete_by_id E
             \<lparr> cj_id = pj_id job, cj_updated_at = now, cj_completed_at = now, cj_error = err,
               cj_error_code = err_code \<rparr> db of
             (db, Inl e) \<Rightarrow> (db, ss, [], Err (DaemonStorage e))
           | (db, Inr _) \<Rightarrow> send_then_continue out_open JobCompleteAck db (ss \<lparr> ss_current_job := None \<rparr>)))"
| "handle_daemon_message E T now out_open CancelComplete ss db =
     (case ss_current_job ss of
        None \<Rightarrow> send_then_continue out_open (ServerError ''no active job to cancel'') db ss
      | Some job \<Rightarrow>
          (case update_provisioner_job_with_cancel_by_id E
             \<lparr> xj_id = pj_id job, xj_canceled_at = now, xj_completed_at = Some now \<rparr> db of
             (db, Inl e) \<Rightarrow> (db, ss, [], Err (DaemonStorage e))
           | (db, Inr _) \<Rightarrow> send_then_continue out_open JobCompleteAck db (ss \<lparr> ss_current_job := None \<rparr>)))"

text \<open>The three branches of the loop. The last component says whether the session goes on.\<close>

datatype SessionEvent = Incoming DaemonMessage | IncomingClosed | HeartbeatTick | CancelCheckTick

fun session_event ::
  "'j prov_env \<Rightarrow> time_text \<Rightarrow> instant \<Rightarrow> bool \<Rightarrow> SessionEvent \<Rightarrow> 'j DaemonSession \<Rightarrow> 'j ProvisionerDb \<Rightarrow>
   'j ProvisionerDb \<times> 'j DaemonSession \<times> 'j ServerMessage list \<times> bool" where
  "session_event E T now out_open (Incoming msg) ss db =
     (case handle_daemon_message E T now out_open msg ss db of
        (db, ss, out, Inr Continue) \<Rightarrow> (db, ss, out, True)
      | (db, ss, out, Inr Close) \<Rightarrow> (db, ss, out, False)
      | (db, ss, out, Inl e) \<Rightarrow>
          if out_open then (db, ss, out @ [ServerError (daemon_error_display e)], True) else (db, ss, out, False))"
| "session_event E T now out_open IncomingClosed ss db = (db, ss, [], False)"
| "session_event E T now out_open HeartbeatTick ss db = (beat E now ss db, ss, [], True)"
| "session_event E T now out_open CancelCheckTick ss db =
     (case ss_current_job ss of
        None \<Rightarrow> (db, ss, [], True)
      | Some job \<Rightarrow>
          (case get_provisioner_job_by_id E (pj_id job) db of
             Inr (Some refreshed) \<Rightarrow>
               if pj_canceled_at refreshed \<noteq> None \<and> job_status refreshed = Canceling
               then if out_open then (db, ss, [JobCanceled (pj_id job)], True) else (db, ss, [], False)
               else (db, ss, [], True)
           | Inr None \<Rightarrow> (db, ss \<lparr> ss_current_job := None \<rparr>, [], True)
           | Inl _ \<Rightarrow> (db, ss, [], True)))"

text \<open>A whole session: registration, then the events it selects, with the clock and the channel at each.\<close>

fun daemon_session_loop ::
  "time_text \<Rightarrow> ('j prov_env \<times> instant \<times> bool \<times> SessionEvent) list \<Rightarrow> 'j DaemonSession \<Rightarrow> 'j ProvisionerDb \<Rightarrow>
   'j ProvisionerDb \<times> 'j ServerMessage list" where
  "daemon_session_loop T [] ss db = (db, [])"
| "daemon_session_loop T ((E, now, out_open, ev) # evs) ss db =
     (case session_event E T now out_open ev ss db of
        (db, ss, out, True) \<Rightarrow> (let (db, rest) = daemon_session_loop T evs ss db in (db, out @ rest))
      | (db, ss, out, False) \<Rightarrow> (db, out))"

definition run_daemon_session ::
  "'j prov_env \<Rightarrow> time_text \<Rightarrow> instant \<Rightarrow> DaemonRegistration \<Rightarrow> ('j prov_env \<times> instant \<times> bool \<times> SessionEvent) list \<Rightarrow>
   'j ProvisionerDb \<Rightarrow> 'j ProvisionerDb \<times> 'j ServerMessage list \<times> (DaemonServerError, unit) result" where
  "run_daemon_session E T now r evs db =
     (case register_session E now r db of
        (db, Inl e) \<Rightarrow> (db, [], Err e)
      | (db, Inr ss) \<Rightarrow> (let (db, out) = daemon_session_loop T evs ss db in (db, out, Ok ())))"

section \<open>Assignments are permanent\<close>

text \<open>A job is held by a worker once its row says that the worker started it.\<close>

definition held :: "'j ProvisionerDb \<Rightarrow> uuid \<Rightarrow> uuid \<Rightarrow> bool" where
  "held db i w \<longleftrightarrow> (\<exists>r \<in> set (db_jobs db). pj_id r = i \<and> pj_started_at r \<noteq> None \<and> pj_worker_id r = Some w)"

abbreviation job_keys :: "'j ProvisionerDb \<Rightarrow> bool" where
  "job_keys db \<equiv> distinct (map pj_id (db_jobs db))"

definition evolves :: "'j ProvisionerDb \<Rightarrow> 'j ProvisionerDb \<Rightarrow> bool" where
  "evolves db db' \<longleftrightarrow> (job_keys db \<longrightarrow> job_keys db' \<and> (\<forall>i w. held db i w \<longrightarrow> held db' i w))"

named_theorems evolve \<open>every statement only moves the assignments forward\<close>

lemma evolves_refl [simp]: "evolves db db"
  by (simp add: evolves_def)

lemma evolves_trans: "evolves db db1 \<Longrightarrow> evolves db1 db2 \<Longrightarrow> evolves db db2"
  by (auto simp: evolves_def)

lemma evolves_same_jobs: "db_jobs db' = db_jobs db \<Longrightarrow> evolves db db'"
  by (simp add: evolves_def held_def)

lemma evolves_attempt: "evolves db (fst s) \<Longrightarrow> evolves db (fst (attempt E call key db s))"
  by (simp add: attempt_def split: option.split)

lemma update_job_ids: "(\<And>j. pj_id (f j) = pj_id j) \<Longrightarrow> map pj_id (db_jobs (update_job i f db)) = map pj_id (db_jobs db)"
  by (simp add: update_job_def)

lemma evolves_update_job:
  assumes "\<And>j. pj_id (f j) = pj_id j" and "\<And>j. pj_started_at (f j) = pj_started_at j"
    and "\<And>j. pj_worker_id (f j) = pj_worker_id j"
  shows "evolves db (update_job i f db)"
proof -
  have "held (update_job i f db) k w" if h: "held db k w" for k w
  proof -
    obtain r where r: "r \<in> set (db_jobs db)" "pj_id r = k" "pj_started_at r \<noteq> None" "pj_worker_id r = Some w"
      using h unfolding held_def by blast
    let ?r = "if pj_id r = i then f r else r"
    have "?r \<in> set (db_jobs (update_job i f db))" using r(1) by (simp add: update_job_def)
    then show ?thesis unfolding held_def by (rule bexI [rotated]) (use assms r in simp)
  qed
  then show ?thesis by (simp add: evolves_def update_job_ids assms)
qed

lemma heartbeat_evolves [evolve]: "evolves db (fst (update_provisioner_job_by_id E i t db))"
  unfolding update_provisioner_job_by_id_def by (rule evolves_attempt) (simp add: evolves_update_job)

lemma complete_evolves [evolve]: "evolves db (fst (update_provisioner_job_with_complete_by_id E input db))"
  unfolding update_provisioner_job_with_complete_by_id_def by (rule evolves_attempt) (simp add: evolves_update_job)

lemma cancel_evolves [evolve]: "evolves db (fst (update_provisioner_job_with_cancel_by_id E input db))"
  unfolding update_provisioner_job_with_cancel_by_id_def by (rule evolves_attempt) (simp add: evolves_update_job)

lemma insert_evolves [evolve]: "evolves db (fst (insert_provisioner_job E input db))"
  unfolding insert_provisioner_job_def by (rule evolves_attempt) (auto simp: evolves_def held_def Let_def)

lemma logs_evolves [evolve]: "evolves db (fst (insert_provisioner_job_logs E input db))"
proof -
  have "evolves db (update_job i (\<lambda>j. j \<lparr> pj_logs_length := pj_logs_length j + n \<rparr>) db')"
    if "db_jobs db' = db_jobs db" for i n db'
    by (rule evolves_trans [of _ db']) (simp_all add: evolves_same_jobs evolves_update_job that)
  then show ?thesis
    unfolding insert_provisioner_job_logs_def Let_def by (auto intro!: evolves_attempt)
qed

lemma timings_evolves [evolve]: "evolves db (fst (insert_provisioner_job_timings E input db))"
  by (rule evolves_same_jobs) (simp add: insert_provisioner_job_timings_def attempt_def Let_def split: option.split)

lemma upsert_evolves [evolve]: "evolves db (fst (upsert_provisioner_daemon E now input db))"
  by (rule evolves_same_jobs) (simp add: upsert_provisioner_daemon_def attempt_def Let_def split: option.split)

lemma last_seen_evolves [evolve]: "evolves db (fst (update_provisioner_daemon_last_seen_at E i t db))"
  by (rule evolves_same_jobs) (simp add: update_provisioner_daemon_last_seen_at_def attempt_def Let_def split: option.split)

lemma delete_daemons_evolves [evolve]: "evolves db (fst (delete_old_provisioner_daemons E now db))"
  by (rule evolves_same_jobs) (simp add: delete_old_provisioner_daemons_def attempt_def Let_def split: option.split)

lemma sort_key_head:
  assumes "sort_key f xs = y # ys"
  shows "y \<in> set xs" and "\<forall>x \<in> set xs. f y \<le> f x"
proof -
  have set_eq: "set xs = insert y (set ys)" using assms set_sort [of f xs] by simp
  then show "y \<in> set xs" by simp
  have "sorted (map f (y # ys))" using sorted_sort_key [of f xs] assms by simp
  then show "\<forall>x \<in> set xs. f y \<le> f x" unfolding set_eq by auto
qed

abbreviation taken :: "AcquireProvisionerJobInput \<Rightarrow> 'j ProvisionerJobRecord \<Rightarrow> 'j ProvisionerJobRecord" where
  "taken input j \<equiv> j \<lparr> pj_started_at := Some (aj_started_at input), pj_updated_at := aj_started_at input,
                          pj_worker_id := Some (aj_worker_id input) \<rparr>"

definition candidates :: "'j prov_env \<Rightarrow> AcquireProvisionerJobInput \<Rightarrow> 'j ProvisionerDb \<Rightarrow> 'j ProvisionerJobRecord set" where
  "candidates E input db = {j \<in> set (db_jobs db). acquirable input j \<and> \<not> pv_locked E (pj_id j)}"

lemma acquire_cases:
  obtains (failed) e where "acquire_provisioner_job E input db = (db, Err e)"
    and "pv_fault E AcquireProvisionerJob (aj_worker_id input) = Some e"
  | (nothing) "acquire_provisioner_job E input db = (db, Ok None)" and "candidates E input db = {}"
    and "pv_fault E AcquireProvisionerJob (aj_worker_id input) = None"
  | (acquired) j where "acquire_provisioner_job E input db = (update_job (pj_id j) (taken input) db, Ok (Some (taken input j)))"
    and "j \<in> candidates E input db" and "\<forall>k \<in> candidates E input db. pj_created_at j \<le> pj_created_at k"
    and "pv_fault E AcquireProvisionerJob (aj_worker_id input) = None"
proof (cases "pv_fault E AcquireProvisionerJob (aj_worker_id input)")
  case (Some e)
  with failed show ?thesis by (simp add: acquire_provisioner_job_def attempt_def)
next
  case None
  let ?xs = "filter (\<lambda>j. acquirable input j \<and> \<not> pv_locked E (pj_id j)) (db_jobs db)"
  have c: "candidates E input db = set ?xs" by (auto simp: candidates_def)
  show ?thesis
  proof (cases "sort_key pj_created_at ?xs")
    case Nil
    have none: "candidates E input db = {}"
      unfolding c using Nil set_sort [of pj_created_at ?xs] by simp
    have "acquire_provisioner_job E input db = (db, Ok None)"
      using None Nil by (simp add: acquire_provisioner_job_def attempt_def)
    then show ?thesis using none None by (rule nothing)
  next
    case (Cons j js)
    have "acquire_provisioner_job E input db = (update_job (pj_id j) (taken input) db, Ok (Some (taken input j)))"
      using None Cons by (simp add: acquire_provisioner_job_def attempt_def Let_def)
    then show ?thesis by (rule acquired [OF _ sort_key_head [OF Cons, folded c] None])
  qed
qed

lemma acquire_evolves [evolve]: "evolves db (fst (acquire_provisioner_job E input db))"
proof (cases rule: acquire_cases [of E input db])
  case (acquired j)
  have j: "j \<in> set (db_jobs db)" "pj_started_at j = None"
    using acquired(2) by (simp_all add: candidates_def acquirable_def)
  have "held (update_job (pj_id j) (taken input) db) k w" if h: "held db k w" "job_keys db" for k w
  proof -
    obtain r where r: "r \<in> set (db_jobs db)" "pj_id r = k" "pj_started_at r \<noteq> None" "pj_worker_id r = Some w"
      using h(1) unfolding held_def by blast
    have "pj_id r \<noteq> pj_id j"
    proof
      assume "pj_id r = pj_id j"
      with h(2) r(1) j(1) have "r = j" by (simp add: distinct_map inj_on_def)
      with r(3) j(2) show False by simp
    qed
    with r have "r \<in> set (db_jobs (update_job (pj_id j) (taken input) db))" by (auto simp: update_job_def)
    with r show ?thesis by (auto simp: held_def)
  qed
  then show ?thesis by (simp add: acquired(1) evolves_def update_job_ids)
qed simp_all

lemma acquire_fresh:
  assumes "acquire_provisioner_job E input db = (db', Ok (Some job))" and keys: "job_keys db"
  shows "\<not> held db (pj_id job) w" and "held db' (pj_id job) (aj_worker_id input)"
proof -
  obtain j where j: "db' = update_job (pj_id j) (taken input) db" "job = taken input j" "j \<in> candidates E input db"
    using assms(1) by (cases rule: acquire_cases [of E input db]) auto
  then have mem: "j \<in> set (db_jobs db)" "pj_started_at j = None" by (simp_all add: candidates_def acquirable_def)
  have only: "r = j" if "r \<in> set (db_jobs db)" "pj_id r = pj_id j" for r
    using keys that mem(1) by (simp add: distinct_map inj_on_def)
  show "\<not> held db (pj_id job) w"
  proof
    assume "held db (pj_id job) w"
    then obtain r where "r \<in> set (db_jobs db)" "pj_id r = pj_id j" "pj_started_at r \<noteq> None"
      unfolding held_def j(2) by auto
    with only [of r] mem(2) show False by simp
  qed
  have "taken input j \<in> set (db_jobs db')"
    using mem(1) by (auto simp: j(1) update_job_def)
  then show "held db' (pj_id job) (aj_worker_id input)"
    unfolding held_def j(2) by (rule bexI [rotated]) simp
qed

section \<open>Daemons, jobs and the reaper together\<close>

lemma beat_evolves [evolve]: "evolves db (beat E now ss db)"
  by (auto simp: beat_def Let_def split: option.split intro: evolve evolves_trans)

lemma send_then_continue_simps [simp]:
  "fst (send_then_continue out_open msg db ss) = db"
  "fst (snd (send_then_continue out_open msg db ss)) = ss"
  by (simp_all add: send_then_continue_def)

text \<open>What a session may do to its own job while it handles an event.\<close>

definition job_move :: "'j DaemonSession \<Rightarrow> 'j ProvisionerDb \<Rightarrow> 'j DaemonSession \<Rightarrow> 'j ProvisionerDb \<Rightarrow> bool" where
  "job_move ss db ss' db' \<longleftrightarrow> evolves db db' \<and> ss_daemon_id ss' = ss_daemon_id ss \<and>
     (ss_current_job ss' = ss_current_job ss \<or> ss_current_job ss' = None \<or>
      (\<exists>j. ss_current_job ss' = Some j \<and>
         (job_keys db \<longrightarrow> (\<forall>w. \<not> held db (pj_id j) w) \<and> held db' (pj_id j) (ss_daemon_id ss))))"

lemma job_move_same: "evolves db db' \<Longrightarrow> job_move ss db ss db'"
  by (simp add: job_move_def)

lemma job_move_drop: "evolves db db' \<Longrightarrow> job_move ss db (ss \<lparr> ss_current_job := None \<rparr>) db'"
  by (simp add: job_move_def)

lemma handle_move:
  "job_move ss db (fst (snd (handle_daemon_message E T now out_open msg ss db)))
     (fst (handle_daemon_message E T now out_open msg ss db))"
proof (cases msg)
  case AcquireJob
  obtain db' r where acq: "acquire_provisioner_job E (acquire_input now ss) db = (db', r)" by fastforce
  have ev: "evolves db db'" using acquire_evolves [of db E "acquire_input now ss"] acq by simp
  show ?thesis
  proof (cases "\<exists>job. r = Inr (Some job)")
    case True
    then obtain job where r: "r = Inr (Some job)" by blast
    have "job_move ss db (ss \<lparr> ss_current_job := Some job \<rparr>) db'"
      using ev acquire_fresh [of E "acquire_input now ss" db db' job] acq r
      by (simp add: job_move_def acquire_input_def)
    with AcquireJob acq r show ?thesis by (simp add: job_move_same)
  next
    case False
    with AcquireJob acq ev show ?thesis
      by (cases r) (auto simp: job_move_same split: option.split)
  qed
next
  case Heartbeat
  then show ?thesis by (simp add: job_move_same beat_evolves)
next
  case (JobLogs logs)
  obtain i where "ss_current_job ss = None \<or> (\<exists>job. ss_current_job ss = Some job \<and> pj_id job = i)" by fastforce
  with JobLogs logs_evolves [of db E "logs_input now i logs"] show ?thesis
    by (auto simp: job_move_same split: prod.split sum.split)
next
  case (JobTimings timings)
  obtain i where "ss_current_job ss = None \<or> (\<exists>job. ss_current_job ss = Some job \<and> pj_id job = i)" by fastforce
  with JobTimings timings_evolves [of db E "timings_input T now i timings"] show ?thesis
    by (auto simp: job_move_same split: prod.split sum.split)
next
  case (CompleteJob err code)
  obtain i where "ss_current_job ss = None \<or> (\<exists>job. ss_current_job ss = Some job \<and> pj_id job = i)" by fastforce
  with CompleteJob complete_evolves [of db E "\<lparr> cj_id = i, cj_updated_at = now, cj_completed_at = now,
      cj_error = err, cj_error_code = code \<rparr>"] show ?thesis
    by (auto simp: job_move_same job_move_drop split: prod.split sum.split)
next
  case CancelComplete
  obtain i where "ss_current_job ss = None \<or> (\<exists>job. ss_current_job ss = Some job \<and> pj_id job = i)" by fastforce
  with CancelComplete cancel_evolves [of db E "\<lparr> xj_id = i, xj_canceled_at = now, xj_completed_at = Some now \<rparr>"]
  show ?thesis
    by (auto simp: job_move_same job_move_drop split: prod.split sum.split)
qed

lemma session_event_move:
  assumes "session_event E T now out_open ev ss db = (db', ss', out, go)"
  shows "job_move ss db ss' db'"
proof (cases ev)
  case (Incoming msg)
  obtain db1 ss1 out1 r where h: "handle_daemon_message E T now out_open msg ss db = (db1, ss1, out1, r)"
    by (metis prod_cases4)
  with assms Incoming have "db' = db1" "ss' = ss1"
    by (auto split: sum.splits MessageResult.splits if_splits)
  with handle_move [of ss db E T now out_open msg] h show ?thesis by simp
next
  case CancelCheckTick
  with assms show ?thesis
    by (auto simp: job_move_same job_move_drop split: option.splits sum.splits if_splits)
qed (use assms in \<open>auto simp: job_move_same beat_evolves\<close>)

text \<open>
  The system: one database and any number of connected sessions. Every step may meet its own faults,
  row locks and clock. The reaper, the API and other replicas complete, cancel and touch jobs through
  the service; the session that holds a job is not told.
\<close>

record 'j ProvSystem =
  sy_db :: "'j ProvisionerDb"
  sy_sessions :: "nat \<Rightarrow> 'j DaemonSession option"

inductive prov_step :: "time_text \<Rightarrow> 'j ProvSystem \<Rightarrow> 'j ProvSystem \<Rightarrow> bool" for T :: time_text where
  connect: "sy_sessions sy n = None \<Longrightarrow> register_session E now r (sy_db sy) = (db, Ok ss) \<Longrightarrow>
    prov_step T sy \<lparr> sy_db = db, sy_sessions = (sy_sessions sy)(n \<mapsto> ss) \<rparr>"
| refused: "register_session E now r (sy_db sy) = (db, Err e) \<Longrightarrow> prov_step T sy (sy \<lparr> sy_db := db \<rparr>)"
| goes_on: "sy_sessions sy n = Some ss \<Longrightarrow> session_event E T now out_open ev ss (sy_db sy) = (db, ss', out, True) \<Longrightarrow>
    prov_step T sy \<lparr> sy_db = db, sy_sessions = (sy_sessions sy)(n \<mapsto> ss') \<rparr>"
| ends: "sy_sessions sy n = Some ss \<Longrightarrow> session_event E T now out_open ev ss (sy_db sy) = (db, ss', out, False) \<Longrightarrow>
    prov_step T sy \<lparr> sy_db = db, sy_sessions = (sy_sessions sy)(n := None) \<rparr>"
| queue: "insert_job E input (sy_db sy) = (db, r) \<Longrightarrow> prov_step T sy (sy \<lparr> sy_db := db \<rparr>)"
| touch: "heartbeat_job E now i (sy_db sy) = (db, r) \<Longrightarrow> prov_step T sy (sy \<lparr> sy_db := db \<rparr>)"
| complete: "complete_job E input (sy_db sy) = (db, r) \<Longrightarrow> prov_step T sy (sy \<lparr> sy_db := db \<rparr>)"
| cancel: "cancel_job E input (sy_db sy) = (db, r) \<Longrightarrow> prov_step T sy (sy \<lparr> sy_db := db \<rparr>)"
| log: "insert_job_logs E input (sy_db sy) = (db, r) \<Longrightarrow> prov_step T sy (sy \<lparr> sy_db := db \<rparr>)"
| prune: "delete_old_daemons E now (sy_db sy) = (db, r) \<Longrightarrow> prov_step T sy (sy \<lparr> sy_db := db \<rparr>)"

definition prov_init :: "'j ProvSystem \<Rightarrow> bool" where
  "prov_init sy \<longleftrightarrow> job_keys (sy_db sy) \<and> sy_sessions sy = Map.empty"

definition working :: "'j ProvSystem \<Rightarrow> nat \<Rightarrow> 'j DaemonSession \<Rightarrow> 'j ProvisionerJobRecord \<Rightarrow> bool" where
  "working sy n ss j \<longleftrightarrow> sy_sessions sy n = Some ss \<and> ss_current_job ss = Some j"

definition prov_inv :: "'j ProvSystem \<Rightarrow> bool" where
  "prov_inv sy \<longleftrightarrow> job_keys (sy_db sy) \<and>
     (\<forall>n ss j. working sy n ss j \<longrightarrow> held (sy_db sy) (pj_id j) (ss_daemon_id ss)) \<and>
     (\<forall>n m ss ss' j j'. working sy n ss j \<longrightarrow> working sy m ss' j' \<longrightarrow> pj_id j = pj_id j' \<longrightarrow> n = m)"

lemma prov_invI:
  assumes "job_keys (sy_db sy)" and "\<And>n ss j. working sy n ss j \<Longrightarrow> held (sy_db sy) (pj_id j) (ss_daemon_id ss)"
    and "\<And>n m ss ss' j j'. working sy n ss j \<Longrightarrow> working sy m ss' j' \<Longrightarrow> pj_id j = pj_id j' \<Longrightarrow> n = m"
  shows "prov_inv sy"
  using assms unfolding prov_inv_def by blast

lemma prov_invD:
  assumes "prov_inv sy"
  shows "job_keys (sy_db sy)" and "working sy n ss j \<Longrightarrow> held (sy_db sy) (pj_id j) (ss_daemon_id ss)"
    and "working sy n ss j \<Longrightarrow> working sy m ss' j' \<Longrightarrow> pj_id j = pj_id j' \<Longrightarrow> n = m"
  using assms unfolding prov_inv_def by blast+

lemma working_simps [simp]:
  "working (sy \<lparr> sy_db := db \<rparr>) m s j \<longleftrightarrow> working sy m s j"
  "working \<lparr> sy_db = db, sy_sessions = (sy_sessions sy)(n \<mapsto> ss) \<rparr> m s j \<longleftrightarrow>
     m = n \<and> s = ss \<and> ss_current_job ss = Some j \<or> m \<noteq> n \<and> working sy m s j"
  "working \<lparr> sy_db = db, sy_sessions = (sy_sessions sy)(n := None) \<rparr> m s j \<longleftrightarrow> m \<noteq> n \<and> working sy m s j"
  by (auto simp: working_def)

lemma prov_inv_evolves:
  assumes "prov_inv sy" and "evolves (sy_db sy) db"
  shows "prov_inv (sy \<lparr> sy_db := db \<rparr>)"
  using prov_invD [OF assms(1)] assms(2) by (intro prov_invI) (auto simp: evolves_def)

lemma prov_inv_move:
  assumes inv: "prov_inv sy" and old: "\<And>j. ss_current_job ss = Some j \<Longrightarrow> working sy n ss j"
    and move: "job_move ss (sy_db sy) ss' db"
  shows "prov_inv \<lparr> sy_db = db, sy_sessions = (sy_sessions sy)(n \<mapsto> ss') \<rparr>"
proof -
  let ?held = "held (sy_db sy)"
  have ev: "job_keys db" "\<And>i w. ?held i w \<Longrightarrow> held db i w"
    using move prov_invD(1) [OF inv] by (simp_all add: job_move_def evolves_def)
  have mine: "held db (pj_id j) (ss_daemon_id ss')" if "ss_current_job ss' = Some j" for j
    using move that prov_invD(1) [OF inv] prov_invD(2) [OF inv old] ev(2) by (auto simp: job_move_def)
  have apart: "m = n" if "working sy m s k" "ss_current_job ss' = Some j" "pj_id k = pj_id j" for m s j k
  proof (cases "ss_current_job ss' = ss_current_job ss")
    case True
    with prov_invD(3) [OF inv that(1) old that(3)] that(2) show ?thesis by simp
  next
    case False
    with move that(2) prov_invD(1) [OF inv] have "\<not> ?held (pj_id j) (ss_daemon_id s)" by (auto simp: job_move_def)
    with prov_invD(2) [OF inv that(1)] that(3) show ?thesis by simp
  qed
  show ?thesis
  proof (rule prov_invI)
    fix m l s s' j j'
    let ?sy = "\<lparr> sy_db = db, sy_sessions = (sy_sessions sy)(n \<mapsto> ss') \<rparr>"
    assume "working ?sy m s j" "working ?sy l s' j'" "pj_id j = pj_id j'"
    then show "m = l"
      using apart [of m s j j'] apart [of l s' j' j] prov_invD(3) [OF inv, of m s j l s' j'] by auto
  next
    fix m s j
    assume "working \<lparr> sy_db = db, sy_sessions = (sy_sessions sy)(n \<mapsto> ss') \<rparr> m s j"
    then show "held (sy_db \<lparr> sy_db = db, sy_sessions = (sy_sessions sy)(n \<mapsto> ss') \<rparr>) (pj_id j) (ss_daemon_id s)"
      using mine ev(2) prov_invD(2) [OF inv, of m s j] by auto
  qed (simp add: ev(1))
qed

lemma prov_inv_close:
  assumes "prov_inv sy" and "evolves (sy_db sy) db"
  shows "prov_inv \<lparr> sy_db = db, sy_sessions = (sy_sessions sy)(n := None) \<rparr>"
  using prov_invD [OF assms(1)] assms(2) by (intro prov_invI) (auto simp: evolves_def)

lemma register_session_evolves:
  "register_session E now r db = (db', res) \<Longrightarrow> evolves db db' \<and> (\<forall>ss. res = Ok ss \<longrightarrow> ss_current_job ss = None)"
  using upsert_evolves [of db E now "\<lparr> ud_name = dr_name r, ud_provisioners = dr_provisioners r, ud_tags = dr_tags r,
      ud_last_seen_at = now, ud_version = dr_version r, ud_organization_id = dr_organization_id r,
      ud_api_version = dr_api_version r, ud_key_id = dr_key_id r \<rparr>"]
  by (auto simp: register_session_def split: prod.splits sum.splits)

lemma service_stmt_evolves: "evolves db (fst s) \<Longrightarrow> service_stmt s = (db', r) \<Longrightarrow> evolves db db'"
  by (auto simp: service_stmt_def)

lemma prov_inv_step: "prov_step T sy sy' \<Longrightarrow> prov_inv sy \<Longrightarrow> prov_inv sy'"
proof (induction rule: prov_step.induct)
  case (connect sy n E now r db ss)
  then have ev: "evolves (sy_db sy) db" and none: "ss_current_job ss = None"
    using register_session_evolves by blast+
  have "job_move ss (sy_db sy) ss db" using ev by (rule job_move_same)
  then show ?case using connect.prems none by (intro prov_inv_move) simp_all
next
  case (refused E now r sy db e)
  then show ?case using register_session_evolves prov_inv_evolves by blast
next
  case (goes_on sy n ss E now out_open ev db ss' out)
  show ?case
    by (rule prov_inv_move [OF goes_on.prems _ session_event_move [OF goes_on.hyps(2)]])
      (simp add: working_def goes_on.hyps(1))
next
  case (ends sy n ss E now out_open ev db ss' out)
  have "evolves (sy_db sy) db" using session_event_move [OF ends.hyps(2)] by (simp add: job_move_def)
  with ends.prems show ?case by (rule prov_inv_close)
qed (auto intro!: prov_inv_evolves elim!: service_stmt_evolves [rotated] intro: evolve
    simp: insert_job_def heartbeat_job_def complete_job_def cancel_job_def insert_job_logs_def delete_old_daemons_def)

interpretation prov: transition_invariant prov_init "prov_step T" prov_inv
proof unfold_locales
  show "prov_inv sy" if "prov_init sy" for sy :: "'a ProvSystem"
    using that by (intro prov_invI) (simp_all add: prov_init_def working_def)
qed (rule prov_inv_step)

section \<open>A small deployment\<close>

text \<open>One untagged job in the queue of organization 5, and a daemon of that organization.\<close>

definition demo_prov_env :: "unit prov_env" where
  "demo_prov_env = \<lparr> pv_fault = (\<lambda>_ _. None), pv_locked = (\<lambda>_. False), pv_shuffle = (\<lambda>xs. xs), pv_gen_uuid = 77,
     pv_reject = Unavailable ''constraint'' \<rparr>"

definition demo_time :: time_text where
  "demo_time = \<lparr> parse_rfc3339 = (\<lambda>_. None), format_time = (\<lambda>_. ''then'') \<rparr>"

definition demo_tags :: tags where
  "demo_tags = [(''scope'', ''organization''), (''owner'', [])]"

definition demo_job :: "unit ProvisionerJobRecord" where
  "demo_job = \<lparr> pj_id = 1, pj_created_at = 0, pj_updated_at = 0, pj_started_at = None, pj_canceled_at = None,
     pj_completed_at = None, pj_error = [], pj_error_code = [], pj_organization_id = Some 5,
     pj_initiator_id = Some 9, pj_provisioner = Terraform, pj_storage_method = File, pj_file_id = None,
     pj_job_type = WorkspaceBuild, pj_input = (), pj_tags = demo_tags, pj_trace_metadata = (),
     pj_worker_id = None, pj_logs_overflowed = False, pj_logs_length = 0 \<rparr>"

definition demo_db :: "unit ProvisionerDb" where
  "demo_db = \<lparr> db_jobs = [demo_job], db_logs = [], db_next_log_id = 1, db_timings = [], db_daemons = [], db_keys = [] \<rparr>"

definition demo_registration :: DaemonRegistration where
  "demo_registration = \<lparr> dr_name = ''d'', dr_version = [], dr_api_version = [], dr_provisioners = [''terraform''],
     dr_tags = demo_tags, dr_organization_id = 5, dr_key_id = None \<rparr>"

definition demo_running :: "unit ProvisionerJobRecord" where
  "demo_running = demo_job \<lparr> pj_started_at := Some 10, pj_updated_at := 10, pj_worker_id := Some 77 \<rparr>"

definition demo_session :: "unit ProvisionerJobRecord option \<Rightarrow> unit DaemonSession" where
  "demo_session job = \<lparr> ss_daemon_id = 77, ss_registration = demo_registration, ss_types = [Terraform],
     ss_current_job = job \<rparr>"

definition demo_daemons :: "ProvisionerDaemonRecord list" where
  "demo_daemons = [\<lparr> pd_id = 77, pd_organization_id = 5, pd_created_at = 3, pd_last_seen_at = Some 3, pd_name = ''d'',
     pd_version = [], pd_api_version = [], pd_provisioners = [''terraform''], pd_tags = demo_tags, pd_key_id = None \<rparr>]"

lemma demo_register:
  "register_session demo_prov_env 3 demo_registration demo_db = (demo_db \<lparr> db_daemons := demo_daemons \<rparr>, Ok (demo_session None))"
  by (simp add: register_session_def upsert_provisioner_daemon_def attempt_def registration_types_def
      map_filter_simps demo_daemons_def demo_prov_env_def demo_db_def demo_registration_def demo_session_def Let_def)

lemma demo_acquire:
  "session_event demo_prov_env demo_time 10 True (Incoming AcquireJob) (demo_session None)
     (demo_db \<lparr> db_daemons := demo_daemons \<rparr>) =
   (demo_db \<lparr> db_daemons := demo_daemons, db_jobs := [demo_running] \<rparr>, demo_session (Some demo_running),
    [JobAssigned (job_info demo_time demo_running)], True)"
proof -
  have "acquirable (acquire_input 10 (demo_session None)) demo_job"
    by (simp add: acquirable_def acquire_input_def demo_session_def demo_registration_def demo_job_def sql_tags_match_def)
  then show ?thesis
    by (simp add: acquire_provisioner_job_def attempt_def demo_prov_env_def demo_db_def update_job_def
        send_then_continue_def demo_session_def demo_running_def acquire_input_def)
qed

definition demo_system :: "unit ProvSystem" where
  "demo_system = \<lparr> sy_db = demo_db \<lparr> db_daemons := demo_daemons, db_jobs := [demo_running] \<rparr>,
     sy_sessions = [0 \<mapsto> demo_session (Some demo_running)] \<rparr>"

lemma demo_system_reachable: "reachable prov_init (prov_step demo_time) demo_system"
proof -
  let ?s0 = "\<lparr> sy_db = demo_db, sy_sessions = Map.empty \<rparr>"
  let ?s1 = "\<lparr> sy_db = demo_db \<lparr> db_daemons := demo_daemons \<rparr>, sy_sessions = [0 \<mapsto> demo_session None] \<rparr>"
  have "reachable prov_init (prov_step demo_time) ?s0"
    by (rule reachable.reach_init) (simp add: prov_init_def demo_db_def)
  moreover have "prov_step demo_time ?s0 ?s1"
    using prov_step.connect [of ?s0 0 demo_prov_env 3 demo_registration "demo_db \<lparr> db_daemons := demo_daemons \<rparr>"
        "demo_session None" demo_time] demo_register by simp
  moreover have "prov_step demo_time ?s1 demo_system"
    using prov_step.goes_on [of ?s1 0 "demo_session None" demo_prov_env demo_time 10 True "Incoming AcquireJob"]
      demo_acquire by (simp add: demo_system_def)
  ultimately show ?thesis by (meson reachable.reach_step)
qed

section \<open>Properties\<close>

text \<open>
  C3. A job runs in one session at most. However sessions, service calls, faults and row locks
  interleave, when a session works on a job, the job's row names its daemon as the worker, and no other
  session works on the same job.
\<close>

theorem job_runs_in_one_session:
  assumes "reachable prov_init (prov_step T) sy"
    and "sy_sessions sy n = Some ss" and "ss_current_job ss = Some j"
  shows "held (sy_db sy) (pj_id j) (ss_daemon_id ss) \<and>
    (\<forall>m ss' j'. sy_sessions sy m = Some ss' \<and> ss_current_job ss' = Some j' \<and> pj_id j' = pj_id j \<longrightarrow> m = n)"
proof -
  have inv: "prov_inv sy" by (rule prov.reachable_inv [OF assms(1)])
  have w: "working sy n ss j" using assms(2,3) by (simp add: working_def)
  show ?thesis
    using prov_invD(2) [OF inv w] prov_invD(3) [OF inv _ w] by (auto simp: working_def)
qed

theorem job_runs_in_one_session_witness:
  "held (sy_db demo_system) 1 77"
proof -
  have "sy_sessions demo_system 0 = Some (demo_session (Some demo_running))"
    "ss_current_job (demo_session (Some demo_running)) = Some demo_running"
    by (simp_all add: demo_system_def demo_session_def)
  from conjunct1 [OF job_runs_in_one_session [OF demo_system_reachable this]] show ?thesis
    by (simp add: demo_running_def demo_job_def demo_session_def)
qed

text \<open>
  C27. Acquisition hands out the oldest pending job: without a storage error it returns nothing exactly
  when no unlocked pending job of the organization fits the daemon's types and tags, and otherwise the
  oldest such job, which goes from pending to running under the daemon while every other job stays as it is.
\<close>

theorem acquire_takes_oldest:
  assumes "pv_fault E AcquireProvisionerJob (aj_worker_id input) = None" and "job_keys db"
  shows "(case acquire_provisioner_job E input db of
      (db', Inl e) \<Rightarrow> False
    | (db', Inr None) \<Rightarrow> candidates E input db = {} \<and> db' = db
    | (db', Inr (Some job)) \<Rightarrow>
        \<exists>j \<in> candidates E input db. (\<forall>k \<in> candidates E input db. pj_created_at j \<le> pj_created_at k) \<and>
          job_status j = Pending \<and> job_status job = Running \<and> pj_id job = pj_id j \<and>
          pj_worker_id job = Some (aj_worker_id input) \<and>
          db' = db \<lparr> db_jobs := map (\<lambda>k. if k = j then job else k) (db_jobs db) \<rparr>)"
proof (cases rule: acquire_cases [of E input db])
  case (failed e)
  with assms(1) show ?thesis by simp
next
  case nothing
  then show ?thesis by simp
next
  case (acquired j)
  have j: "j \<in> set (db_jobs db)" "acquirable input j" using acquired(2) by (simp_all add: candidates_def)
  have "(if pj_id k = pj_id j then taken input k else k) = (if k = j then taken input j else k)"
    if "k \<in> set (db_jobs db)" for k
    using assms(2) that j(1) by (auto simp: distinct_map inj_on_def)
  then have "update_job (pj_id j) (taken input) db =
      db \<lparr> db_jobs := map (\<lambda>k. if k = j then taken input j else k) (db_jobs db) \<rparr>"
    by (simp add: update_job_def)
  moreover have "job_status j = Pending" "job_status (taken input j) = Running"
    using j(2) by (simp_all add: acquirable_def job_status_def)
  ultimately show ?thesis using acquired(2,3) by (auto simp: acquired(1))
qed

theorem acquire_takes_oldest_witness:
  "\<exists>j \<in> candidates demo_prov_env (acquire_input 10 (demo_session None)) demo_db.
     job_status j = Pending \<and> pj_id j = 1"
proof -
  let ?input = "acquire_input 10 (demo_session None)"
  have "acquirable ?input demo_job"
    by (simp add: acquirable_def acquire_input_def demo_session_def demo_registration_def demo_job_def sql_tags_match_def)
  then have "acquire_provisioner_job demo_prov_env ?input demo_db =
      (demo_db \<lparr> db_jobs := [demo_running] \<rparr>, Ok (Some demo_running))"
    by (simp add: acquire_provisioner_job_def attempt_def demo_prov_env_def demo_db_def update_job_def
        demo_session_def demo_running_def acquire_input_def)
  with acquire_takes_oldest [of demo_prov_env ?input demo_db] show ?thesis
    by (auto simp: demo_prov_env_def demo_db_def demo_running_def demo_job_def)
qed

text \<open>
  A daemon's report overwrites a job that is already finished: a job that failed, for instance
  because the reaper gave up on it, becomes succeeded when the session that still holds it reports
  completion without an error.
\<close>

theorem completion_overwrites_failure:
  assumes "ss_current_job ss = Some job" and "pv_fault E UpdateProvisionerJobWithCompleteById (pj_id job) = None"
    and "r \<in> set (db_jobs db)" and "pj_id r = pj_id job" and "job_status r = Failed"
  shows "\<exists>r' \<in> set (db_jobs (fst (handle_daemon_message E T now out_open (CompleteJob [] code) ss db))).
    pj_id r' = pj_id r \<and> job_status r' = Succeeded"
proof -
  let ?r = "r \<lparr> pj_updated_at := now, pj_completed_at := Some now, pj_error := [], pj_error_code := code \<rparr>"
  have "?r \<in> set (db_jobs (fst (handle_daemon_message E T now out_open (CompleteJob [] code) ss db)))"
    using assms(1-4) by (auto simp: update_provisioner_job_with_complete_by_id_def attempt_def update_job_def)
  moreover have "pj_canceled_at r = None" using assms(5) by (auto simp: job_status_def split: if_splits)
  ultimately show ?thesis by (intro bexI [of _ ?r]) (simp_all add: job_status_def)
qed

theorem completion_overwrites_failure_witness:
  "job_status (demo_running \<lparr> pj_completed_at := Some 50, pj_error := ''hung'' \<rparr>) = Failed \<and>
   (\<exists>r' \<in> set (db_jobs (fst (handle_daemon_message demo_prov_env demo_time 60 True (CompleteJob [] [])
      (demo_session (Some demo_running))
      (demo_db \<lparr> db_jobs := [demo_running \<lparr> pj_completed_at := Some 50, pj_error := ''hung'' \<rparr>] \<rparr>)))).
      pj_id r' = 1 \<and> job_status r' = Succeeded)"
proof -
  let ?r = "demo_running \<lparr> pj_completed_at := Some 50, pj_error := ''hung'' \<rparr>"
  have failed: "job_status ?r = Failed" by (simp add: job_status_def demo_running_def demo_job_def)
  have "\<exists>r' \<in> set (db_jobs (fst (handle_daemon_message demo_prov_env demo_time 60 True (CompleteJob [] [])
      (demo_session (Some demo_running)) (demo_db \<lparr> db_jobs := [?r] \<rparr>)))).
      pj_id r' = pj_id ?r \<and> job_status r' = Succeeded"
    by (rule completion_overwrites_failure [of _ demo_running])
      (simp_all add: failed del: handle_daemon_message.simps, simp_all add: demo_session_def demo_prov_env_def)
  with failed show ?thesis by (simp add: demo_running_def demo_job_def del: handle_daemon_message.simps)
qed

section \<open>The reaper\<close>

text \<open>A row after the reaper gave up on it.\<close>

definition reaped :: "instant \<Rightarrow> 'j ProvisionerJobRecord \<Rightarrow> 'j ProvisionerJobRecord" where
  "reaped now j = j \<lparr> pj_updated_at := now, pj_completed_at := Some now, pj_error := reap_message j, pj_error_code := [] \<rparr>"

lemma reap_message_not_Nil: "reap_message j \<noteq> []"
  by (simp add: reap_message_def split: prod.split)

lemma reaped_status: "job_status (reaped now j) \<in> {Failed, Canceled}"
  by (simp add: reaped_def job_status_def reap_message_not_Nil)

lemma reap_loop_rows:
  assumes "\<And>c k. pv_fault E c k = None" and "distinct (map pj_id stale)"
    and "\<forall>k \<in> set (db_jobs db). pj_id k \<in> pj_id ` set stale \<longrightarrow> k \<in> set stale"
  shows "reap_loop E now stale n db =
    (db \<lparr> db_jobs := map (\<lambda>k. if k \<in> set stale then reaped now k else k) (db_jobs db) \<rparr>, n + length stale)"
  using assms(2,3)
proof (induction stale arbitrary: n db)
  case (Cons j js)
  define db1 where "db1 = db \<lparr> db_jobs := map (\<lambda>k. if k = j then reaped now j else k) (db_jobs db) \<rparr>"
  have fresh: "pj_id j \<notin> pj_id ` set js" using Cons.prems(1) by simp
  have "(if pj_id k = pj_id j then reaped now j else k) = (if k = j then reaped now j else k)"
    if "k \<in> set (db_jobs db)" for k
    using Cons.prems(2) that fresh by (metis image_eqI list.set_intros(1) set_ConsD)
  moreover have "(if pj_id k = pj_id j then k \<lparr> pj_updated_at := now, pj_completed_at := Some now,
      pj_error := reap_message j, pj_error_code := [] \<rparr> else k) = (if pj_id k = pj_id j then reaped now j else k)"
    if "k \<in> set (db_jobs db)" for k
  proof (cases "pj_id k = pj_id j")
    case True
    have "k \<in> set (j # js)" using Cons.prems(2) that True by simp
    moreover have "k \<notin> set js" using fresh True by (metis image_eqI)
    ultimately have "k = j" by simp
    then show ?thesis by (simp add: reaped_def)
  qed simp
  ultimately have "reap_one E now j db = (db1, Ok ())"
    using assms(1)
    by (simp add: reap_one_def update_provisioner_job_with_complete_by_id_def attempt_def update_job_def db1_def)
  then have "reap_loop E now (j # js) n db = reap_loop E now js (n + 1) db1" by simp
  also have "\<dots> = (db1 \<lparr> db_jobs := map (\<lambda>k. if k \<in> set js then reaped now k else k) (db_jobs db1) \<rparr>, n + 1 + length js)"
  proof (rule Cons.IH)
    show "distinct (map pj_id js)" using Cons.prems(1) by simp
    show "\<forall>k \<in> set (db_jobs db1). pj_id k \<in> pj_id ` set js \<longrightarrow> k \<in> set js"
    proof (intro ballI impI)
      fix k
      assume k: "k \<in> set (db_jobs db1)" "pj_id k \<in> pj_id ` set js"
      then have "pj_id k \<noteq> pj_id j" using fresh by metis
      with k(1) have "k \<in> set (db_jobs db)" "k \<noteq> j" by (auto simp: db1_def reaped_def split: if_splits)
      with Cons.prems(2) k(2) show "k \<in> set js" by auto
    qed
  qed
  also have "db1 \<lparr> db_jobs := map (\<lambda>k. if k \<in> set js then reaped now k else k) (db_jobs db1) \<rparr> =
      db \<lparr> db_jobs := map (\<lambda>k. if k \<in> set (j # js) then reaped now k else k) (db_jobs db) \<rparr>"
  proof -
    have "pj_id (reaped now j) = pj_id j" by (simp add: reaped_def)
    then have "j \<notin> set js" "reaped now j \<notin> set js" using fresh by (metis image_eqI)+
    then show ?thesis by (auto simp: db1_def)
  qed
  finally show ?case by simp
qed (simp add: map_idI)

text \<open>
  C28. Stuck jobs do not stay stuck: when the statements succeed and no more than one batch is stale, a
  pass of the reaper finishes every job that waited longer than the pending limit or whose heartbeat is
  older than the timeout (as failed, or canceled if a cancellation was requested), reports their number, and
  leaves every other job alone.
\<close>

theorem reaper_pass_exact:
  fixes E :: "'j prov_env" and now db
  defines "stale \<equiv> filter (reapable (reap_input now)) (db_jobs db)"
  assumes ok: "\<And>c k. pv_fault E c k = None" and keys: "job_keys db"
    and shuffle: "\<And>xs. set (pv_shuffle E xs) = set xs \<and> length (pv_shuffle E xs) = length xs"
    and batch: "length stale \<le> 100"
  shows "reap_stale_jobs_once E now db =
      (db \<lparr> db_jobs := map (\<lambda>j. if reapable (reap_input now) j then reaped now j else j) (db_jobs db) \<rparr>, Ok (length stale))
    \<and> (\<forall>j. job_status (reaped now j) \<in> {Failed, Canceled})"
proof -
  define xs where "xs = pv_shuffle E stale"
  have xs: "set xs = set stale" "length xs = length stale" using shuffle by (simp_all add: xs_def)
  have d: "distinct (map pj_id stale)" using keys by (simp add: stale_def distinct_map_filter)
  have "pj_id ` set stale = pj_id ` set xs" "length (map pj_id xs) = card (pj_id ` set stale)"
    using xs distinct_card [OF d] by simp_all
  then have dx: "distinct (map pj_id xs)" by (intro card_distinct) simp
  have "\<forall>k \<in> set (db_jobs db). pj_id k \<in> pj_id ` set xs \<longrightarrow> k \<in> set xs"
    using keys by (auto simp: xs stale_def distinct_map inj_on_def)
  from reap_loop_rows [OF ok dx this, of now 0]
  have loop: "reap_loop E now xs 0 db =
      (db \<lparr> db_jobs := map (\<lambda>k. if k \<in> set stale then reaped now k else k) (db_jobs db) \<rparr>, length stale)"
    by (simp add: xs)
  have "map (\<lambda>k. if k \<in> set stale then reaped now k else k) (db_jobs db) =
      map (\<lambda>j. if reapable (reap_input now) j then reaped now j else j) (db_jobs db)"
    by (auto simp: stale_def)
  moreover have "get_provisioner_jobs_to_be_reaped E (reap_input now) db = Ok xs"
    unfolding get_provisioner_jobs_to_be_reaped_def stale_def [symmetric] xs_def [symmetric]
    using ok batch xs(2) by (simp add: query_def reap_input_def DEFAULT_REAP_BATCH_SIZE_def)
  ultimately show ?thesis
    using loop by (simp add: reap_stale_jobs_once_def reaped_status [simplified])
qed

theorem reaper_pass_exact_witness:
  "db_jobs (fst (reap_stale_jobs_once demo_prov_env (10 + secs 31) (demo_db \<lparr> db_jobs := [demo_running] \<rparr>))) =
     [reaped (10 + secs 31) demo_running] \<and>
   job_status (reaped (10 + secs 31) demo_running) = Failed"
proof -
  let ?now = "10 + secs 31" and ?db = "demo_db \<lparr> db_jobs := [demo_running] \<rparr>"
  have stale: "reapable (reap_input ?now) demo_running"
    by (simp add: reapable_def reap_input_def secs_def DEFAULT_HEARTBEAT_TIMEOUT_SECS_def demo_running_def demo_job_def)
  have "reap_stale_jobs_once demo_prov_env ?now ?db =
      (?db \<lparr> db_jobs := map (\<lambda>j. if reapable (reap_input ?now) j then reaped ?now j else j) (db_jobs ?db) \<rparr>,
       Ok (length (filter (reapable (reap_input ?now)) (db_jobs ?db)))) \<and>
      (\<forall>j :: unit ProvisionerJobRecord. job_status (reaped ?now j) \<in> {Failed, Canceled})"
    by (rule reaper_pass_exact) (simp_all add: demo_prov_env_def)
  with stale show ?thesis by (simp add: job_status_def reaped_def demo_running_def demo_job_def reap_message_not_Nil)
qed

text \<open>
  The heartbeat has no slack: the session refreshes its job once per heartbeat interval, and the
  reaper's timeout is that same interval. Right after a heartbeat at time \<open>t\<close> the job of a connected
  session is due for reaping at every moment after the next heartbeat was due, however little later.
\<close>

theorem heartbeat_has_no_slack:
  assumes "ss_current_job ss = Some job" and "\<And>c k. pv_fault E c k = None"
    and "r \<in> set (db_jobs db)" and "pj_id r = pj_id job" and "pj_started_at r \<noteq> None" and "pj_completed_at r = None"
    and "0 < d"
  shows "\<exists>r' \<in> set (db_jobs (fst (session_event E T t out_open HeartbeatTick ss db))).
    pj_id r' = pj_id job \<and> reapable (reap_input (t + dc_heartbeat_interval default_daemon_config + d)) r'"
proof -
  let ?r = "r \<lparr> pj_updated_at := t \<rparr>"
  have "?r \<in> set (db_jobs (fst (session_event E T t out_open HeartbeatTick ss db)))"
    using assms(1-4) by (auto simp: beat_def update_provisioner_job_by_id_def
        update_provisioner_daemon_last_seen_at_def attempt_def update_job_def Let_def)
  moreover have "reapable (reap_input (t + dc_heartbeat_interval default_daemon_config + d)) ?r"
    using assms(5-7) by (auto simp: reapable_def reap_input_def default_daemon_config_def secs_def
        DEFAULT_HEARTBEAT_INTERVAL_def DEFAULT_HEARTBEAT_TIMEOUT_SECS_def)
  ultimately show ?thesis by (intro bexI [of _ ?r]) (simp_all add: assms(4))
qed

theorem heartbeat_has_no_slack_witness:
  "\<exists>r' \<in> set (db_jobs (fst (session_event demo_prov_env demo_time 10 True HeartbeatTick
     (demo_session (Some demo_running)) (demo_db \<lparr> db_jobs := [demo_running] \<rparr>)))).
     pj_id r' = pj_id demo_running \<and> reapable (reap_input (10 + dc_heartbeat_interval default_daemon_config + 1)) r'"
  by (rule heartbeat_has_no_slack [where r = demo_running])
    (simp_all add: demo_session_def demo_prov_env_def demo_running_def demo_job_def)

section \<open>Logs and tags\<close>

lemma log_rows_length [simp]: "length (log_rows input first) = length (il_created_at input)"
  by (simp add: log_rows_def)

lemma log_rows_sorted: "sort_key pl_id (log_rows input first) = log_rows input first"
  by (rule sort_key_id_if_sorted) (auto simp: log_rows_def sorted_iff_nth_mono)

lemma log_rows_filter:
  "filter (\<lambda>l. pl_job_id l = il_job_id input \<and> first - 1 < pl_id l) (log_rows input first) = log_rows input first"
  by (auto simp: log_rows_def)

text \<open>
  Accepted logs can be read back: when the session that holds a job reports log lines and the
  statements succeed, the daemon is told how many were accepted, and reading the logs of the job after
  the last id that existed before returns exactly those lines, in order, with their levels and sources parsed.
\<close>

theorem accepted_logs_read_back:
  assumes job: "ss_current_job ss = Some job" and ok: "\<And>c k. pv_fault E c k = None"
    and row: "pj_id job \<in> pj_id ` set (db_jobs db)"
    and room: "\<forall>j \<in> set (db_jobs db). pj_id j = pj_id job \<longrightarrow> pj_logs_length j + log_bytes (map le_output logs) \<le> i32_max"
    and serial: "\<forall>l \<in> set (db_logs db). pl_id l < db_next_log_id db"
    and handled: "handle_daemon_message E T now True (JobLogs logs) ss db = (db', ss', out, res)"
  shows "out = [LogsAccepted (length logs)] \<and> (\<exists>rows.
    get_provisioner_logs_after_id E (pj_id job) (db_next_log_id db - 1) db' = Ok rows \<and>
    map (\<lambda>l. (pl_source l, pl_level l, pl_stage l, pl_output l)) rows =
    map (\<lambda>l. (parse_log_source (le_source l), parse_log_level (le_level l), le_stage l, le_output l)) logs)"
proof -
  let ?input = "logs_input now (pj_id job) logs" and ?first = "db_next_log_id db"
  define rows where "rows = log_rows ?input ?first"
  have len: "length (il_source ?input) = length (il_created_at ?input)"
    "length (il_level ?input) = length (il_created_at ?input)" "length (il_stage ?input) = length (il_created_at ?input)"
    "length (il_output ?input) = length (il_created_at ?input)"
    by (simp_all add: logs_input_def)
  have "\<not> (\<exists>j \<in> set (db_jobs db). pj_id j = pj_id job \<and> i32_max < pj_logs_length j + log_bytes (map le_output logs))"
    using room by force
  then have ins: "insert_provisioner_job_logs E ?input db =
      (update_job (pj_id job) (\<lambda>j. j \<lparr> pj_logs_length := pj_logs_length j + log_bytes (map le_output logs) \<rparr>)
         (db \<lparr> db_logs := db_logs db @ rows, db_next_log_id := ?first + int (length logs) \<rparr>), Ok rows)"
    unfolding insert_provisioner_job_logs_def Let_def using len row
    by (simp add: attempt_def ok logs_input_def rows_def)
  have db': "db_logs db' = db_logs db @ rows" and out: "out = [LogsAccepted (length logs)]"
    using handled job ins by (auto simp: send_then_continue_def update_job_def)
  have "filter (\<lambda>l. pl_job_id l = pj_id job \<and> ?first - 1 < pl_id l) (db_logs db) = []"
    using serial by (auto simp: filter_empty_conv)
  moreover have "filter (\<lambda>l. pl_job_id l = pj_id job \<and> ?first - 1 < pl_id l) rows = rows"
    using log_rows_filter [of ?input ?first] by (simp add: rows_def logs_input_def)
  ultimately have "get_provisioner_logs_after_id E (pj_id job) (?first - 1) db' = Ok rows"
    by (simp add: get_provisioner_logs_after_id_def query_def ok db' rows_def log_rows_sorted)
  moreover have "map (\<lambda>l. (pl_source l, pl_level l, pl_stage l, pl_output l)) rows =
      map (\<lambda>l. (parse_log_source (le_source l), parse_log_level (le_level l), le_stage l, le_output l)) logs"
    by (rule nth_equalityI) (simp_all add: rows_def log_rows_def logs_input_def)
  ultimately show ?thesis using out by blast
qed

definition demo_log :: JobLogEntry where
  "demo_log = \<lparr> le_source = ''provisioner'', le_level = ''warn'', le_stage = ''plan'', le_output = ''slow'' \<rparr>"

theorem accepted_logs_read_back_witness:
  "\<exists>rows. get_provisioner_logs_after_id demo_prov_env (pj_id demo_running) (db_next_log_id demo_db - 1)
     (fst (handle_daemon_message demo_prov_env demo_time 20 True (JobLogs [demo_log]) (demo_session (Some demo_running))
       demo_db)) = Ok rows \<and> map pl_level rows = [Warn]"
proof -
  obtain db' ss' out res where h: "handle_daemon_message demo_prov_env demo_time 20 True (JobLogs [demo_log])
      (demo_session (Some demo_running)) demo_db = (db', ss', out, res)"
    by (metis prod_cases4)
  have "out = [LogsAccepted (length [demo_log])] \<and> (\<exists>rows.
      get_provisioner_logs_after_id demo_prov_env (pj_id demo_running) (db_next_log_id demo_db - 1) db' = Ok rows \<and>
      map (\<lambda>l. (pl_source l, pl_level l, pl_stage l, pl_output l)) rows =
      map (\<lambda>l. (parse_log_source (le_source l), parse_log_level (le_level l), le_stage l, le_output l)) [demo_log])"
    by (rule accepted_logs_read_back [OF _ _ _ _ _ h])
      (simp_all add: demo_session_def demo_prov_env_def demo_running_def demo_job_def demo_db_def demo_log_def
        log_bytes_def i32_max_def)
  then obtain rows where rows: "get_provisioner_logs_after_id demo_prov_env (pj_id demo_running)
      (db_next_log_id demo_db - 1) db' = Ok rows"
    "map (\<lambda>l. (pl_source l, pl_level l, pl_stage l, pl_output l)) rows = [(ProvisionerLog, Warn, ''plan'', ''slow'')]"
    by (auto simp: demo_log_def parse_log_source_def parse_log_level_def)
  then have "map pl_level rows = [Warn]" by auto
  with rows(1) h show ?thesis by auto
qed

text \<open>
  A daemon that registers without tags never gets a job: the session uses the tags of the
  registration as they are, while every job carries at least a scope and an owner, so the acquisition
  finds nothing, whatever is in the queue.
\<close>

theorem untagged_daemon_gets_no_job:
  assumes "dr_tags (ss_registration ss) = hm_empty" and "ss_current_job ss = None"
    and "\<And>c k. pv_fault E c k = None"
    and "\<forall>j \<in> set (db_jobs db). \<exists>user provided. pj_tags j = mutate_tags U user provided"
  shows "handle_daemon_message E T now True AcquireJob ss db = (db, ss, [NoJob], Ok Continue)"
proof -
  have "\<not> sql_tags_match hm_empty (mutate_tags U user provided)" for user provided
  proof -
    have "map_of (mutate_tags U user provided) TAG_SCOPE \<noteq> None"
      using mutate_tags_normal [of U user provided] by (auto simp: tags_normal_def hm_get_def)
    then show ?thesis by (auto simp: sql_tags_match_def hm_empty_def map_le_def dom_def)
  qed
  with assms(1,4) have "candidates E (acquire_input now ss) db = {}"
    by (fastforce simp: candidates_def acquirable_def acquire_input_def)
  with assms(3) have "acquire_provisioner_job E (acquire_input now ss) db = (db, Ok None)"
    by (cases rule: acquire_cases [of E "acquire_input now ss" db]) auto
  with assms(2) show ?thesis by (simp add: send_then_continue_def)
qed

theorem untagged_daemon_gets_no_job_witness:
  "handle_daemon_message demo_prov_env demo_time 20 True AcquireJob
     ((demo_session None) \<lparr> ss_registration := demo_registration \<lparr> dr_tags := hm_empty \<rparr> \<rparr>) demo_db =
   (demo_db, (demo_session None) \<lparr> ss_registration := demo_registration \<lparr> dr_tags := hm_empty \<rparr> \<rparr>, [NoJob], Ok Continue)"
proof (rule untagged_daemon_gets_no_job)
  show "\<forall>j \<in> set (db_jobs demo_db). \<exists>user provided. pj_tags j = mutate_tags hyphenated_codec user provided"
    by (auto simp: demo_db_def demo_job_def demo_tags_def mutate_tags_def tag_consts hm_defs intro!: exI [of _ "[]"])
qed (simp_all add: demo_session_def demo_prov_env_def)

end
