(* ===== verification/Tailnet_Tunnels.thy ===== *)
theory Tailnet_Tunnels
  imports Core_Types
begin

text \<open>
  The tunnel store of \<open>crates/coder-connectivity/src/tailnet.rs\<close>: two maps, from source to
  destinations and from destination to sources, kept in step. The locale \<open>tunnel_relation\<close> is what
  the coordinator relies on: the store stands for a relation between peers. The interpretation
  \<open>tun\<close> discharges it for the two maps.
\<close>

section \<open>The interface\<close>

locale tunnel_relation =
  fixes new :: "'t"
    and add :: "'p \<Rightarrow> 'p \<Rightarrow> 't \<Rightarrow> 't"
    and remove :: "'p \<Rightarrow> 'p \<Rightarrow> 't \<Rightarrow> 't"
    and remove_all :: "'p \<Rightarrow> 't \<Rightarrow> 't"
    and peers :: "'t \<Rightarrow> 'p \<Rightarrow> 'p list"
    and exists :: "'t \<Rightarrow> 'p \<Rightarrow> 'p \<Rightarrow> bool"
    and rel :: "'t \<Rightarrow> ('p \<times> 'p) set"
    and inv :: "'t \<Rightarrow> bool"
  assumes inv_new: "inv new"
    and inv_add: "inv t \<Longrightarrow> inv (add a b t)"
    and inv_remove: "inv t \<Longrightarrow> inv (remove a b t)"
    and inv_remove_all: "inv t \<Longrightarrow> inv (remove_all a t)"
    and rel_new: "rel new = {}"
    and rel_add: "inv t \<Longrightarrow> rel (add a b t) = insert (a, b) (rel t)"
    and rel_remove: "inv t \<Longrightarrow> rel (remove a b t) = rel t - {(a, b), (b, a)}"
    and rel_remove_all: "inv t \<Longrightarrow> rel (remove_all a t) = rel t - ({a} \<times> UNIV \<union> UNIV \<times> {a})"
    and peers_rel: "inv t \<Longrightarrow> set (peers t a) = {b. (a, b) \<in> rel t \<or> (b, a) \<in> rel t}"
    and peers_distinct: "inv t \<Longrightarrow> distinct (peers t a)"
    and exists_rel: "inv t \<Longrightarrow> exists t a b \<longleftrightarrow> (a, b) \<in> rel t \<or> (b, a) \<in> rel t"
begin

text \<open>Sharing a tunnel is symmetric, whichever peer asked for it.\<close>

lemma exists_sym: "inv t \<Longrightarrow> exists t a b \<longleftrightarrow> exists t b a"
  by (auto simp: exists_rel)

lemma peers_exists: "inv t \<Longrightarrow> b \<in> set (peers t a) \<longleftrightarrow> exists t a b"
  by (simp add: peers_rel exists_rel)

lemma exists_add:
  "inv t \<Longrightarrow> exists (add a b t) x y \<longleftrightarrow> {x, y} = {a, b} \<or> exists t x y"
  by (auto simp: exists_rel rel_add inv_add doubleton_eq_iff)

lemma exists_remove:
  "inv t \<Longrightarrow> exists (remove a b t) x y \<longleftrightarrow> exists t x y \<and> {x, y} \<noteq> {a, b}"
  by (auto simp: exists_rel rel_remove inv_remove doubleton_eq_iff)

lemma exists_remove_all:
  "inv t \<Longrightarrow> exists (remove_all a t) x y \<longleftrightarrow> exists t x y \<and> x \<noteq> a \<and> y \<noteq> a"
  by (auto simp: exists_rel rel_remove_all inv_remove_all)

lemma not_exists_new: "\<not> exists new a b"
  by (simp add: exists_rel inv_new rel_new)

end

section \<open>The store\<close>

record TunnelStore =
  by_src :: "(uuid, uuid) multi_map"
  by_dst :: "(uuid, uuid) multi_map"

definition tunnels_new :: TunnelStore where
  "tunnels_new = \<lparr> by_src = hm_empty, by_dst = hm_empty \<rparr>"

definition tunnels_add :: "uuid \<Rightarrow> uuid \<Rightarrow> TunnelStore \<Rightarrow> TunnelStore" where
  "tunnels_add src dst t =
     \<lparr> by_src = mm_insert src dst (by_src t), by_dst = mm_insert dst src (by_dst t) \<rparr>"

definition tunnels_remove :: "uuid \<Rightarrow> uuid \<Rightarrow> TunnelStore \<Rightarrow> TunnelStore" where
  "tunnels_remove a b t =
     (let t = t \<lparr> by_src := mm_remove a b (by_src t) \<rparr>;
          t = t \<lparr> by_dst := mm_remove b a (by_dst t) \<rparr>;
          t = t \<lparr> by_src := mm_remove b a (by_src t) \<rparr>
      in t \<lparr> by_dst := mm_remove a b (by_dst t) \<rparr>)"

definition tunnels_remove_all :: "uuid \<Rightarrow> TunnelStore \<Rightarrow> TunnelStore" where
  "tunnels_remove_all i t =
     (let t = (case hm_get (by_src t) i of
                 None \<Rightarrow> t
               | Some dsts \<Rightarrow>
                   t \<lparr> by_src := hm_remove i (by_src t),
                       by_dst := fold (\<lambda>dst. mm_remove dst i) dsts (by_dst t) \<rparr>)
      in case hm_get (by_dst t) i of
           None \<Rightarrow> t
         | Some srcs \<Rightarrow>
             t \<lparr> by_dst := hm_remove i (by_dst t),
                 by_src := fold (\<lambda>src. mm_remove src i) srcs (by_src t) \<rparr>)"

definition find_tunnel_peers :: "TunnelStore \<Rightarrow> uuid \<Rightarrow> uuid list" where
  "find_tunnel_peers t i =
     (let peers = (case hm_get (by_src t) i of Some dsts \<Rightarrow> hs_extend dsts [] | None \<Rightarrow> [])
      in case hm_get (by_dst t) i of Some srcs \<Rightarrow> hs_extend srcs peers | None \<Rightarrow> peers)"

definition tunnel_exists :: "TunnelStore \<Rightarrow> uuid \<Rightarrow> uuid \<Rightarrow> bool" where
  "tunnel_exists t a b \<longleftrightarrow>
     (case hm_get (by_src t) a of Some dsts \<Rightarrow> b \<in> set dsts | None \<Rightarrow> False) \<or>
     (case hm_get (by_dst t) a of Some srcs \<Rightarrow> b \<in> set srcs | None \<Rightarrow> False)"

section \<open>The store is a relation\<close>

definition tunnels_rel :: "TunnelStore \<Rightarrow> (uuid \<times> uuid) set" where
  "tunnels_rel t = mm_rel (by_src t)"

text \<open>Both maps are well formed and one is the converse of the other.\<close>

definition tunnels_inv :: "TunnelStore \<Rightarrow> bool" where
  "tunnels_inv t \<longleftrightarrow> mm_wf (by_src t) \<and> mm_wf (by_dst t) \<and> mm_rel (by_dst t) = (mm_rel (by_src t))\<inverse>"

lemmas tunnels_defs = tunnels_new_def tunnels_add_def tunnels_remove_def tunnels_inv_def
  tunnels_rel_def

lemma tunnels_inv_new: "tunnels_inv tunnels_new"
  by (simp add: tunnels_defs)

lemma tunnels_inv_add: "tunnels_inv t \<Longrightarrow> tunnels_inv (tunnels_add a b t)"
  by (auto simp: tunnels_defs)

lemma tunnels_inv_remove: "tunnels_inv t \<Longrightarrow> tunnels_inv (tunnels_remove a b t)"
  by (auto simp: tunnels_defs Let_def)

text \<open>The two halves of \<open>remove_all\<close>.\<close>

lemma drop_src:
  assumes "tunnels_inv t" and "hm_get (by_src t) i = Some dsts"
  defines "t' \<equiv> t \<lparr> by_src := hm_remove i (by_src t),
                    by_dst := fold (\<lambda>dst. mm_remove dst i) dsts (by_dst t) \<rparr>"
  shows "tunnels_inv t' \<and> tunnels_rel t' = tunnels_rel t - {i} \<times> UNIV"
  using assms(1) mm_get_rel [OF assms(2)] unfolding t'_def by (auto simp: tunnels_defs)

lemma drop_dst:
  assumes "tunnels_inv t" and "hm_get (by_dst t) i = Some srcs"
  defines "t' \<equiv> t \<lparr> by_dst := hm_remove i (by_dst t),
                    by_src := fold (\<lambda>src. mm_remove src i) srcs (by_src t) \<rparr>"
  shows "tunnels_inv t' \<and> tunnels_rel t' = tunnels_rel t - UNIV \<times> {i}"
  using assms(1) mm_get_rel [OF assms(2)] unfolding t'_def by (auto simp: tunnels_defs)

lemma no_src: "hm_get (by_src t) i = None \<Longrightarrow> tunnels_rel t = tunnels_rel t - {i} \<times> UNIV"
  by (auto simp: tunnels_rel_def mm_get_None_rel)

lemma no_dst:
  "tunnels_inv t \<Longrightarrow> hm_get (by_dst t) i = None \<Longrightarrow> tunnels_rel t = tunnels_rel t - UNIV \<times> {i}"
  by (auto simp: tunnels_inv_def tunnels_rel_def dest: mm_get_None_rel)

lemma tunnels_remove_all_correct:
  assumes "tunnels_inv t"
  shows "tunnels_inv (tunnels_remove_all i t) \<and>
    tunnels_rel (tunnels_remove_all i t) = tunnels_rel t - ({i} \<times> UNIV \<union> UNIV \<times> {i})"
proof -
  define u where "u = (case hm_get (by_src t) i of
      None \<Rightarrow> t
    | Some dsts \<Rightarrow> t \<lparr> by_src := hm_remove i (by_src t),
                      by_dst := fold (\<lambda>dst. mm_remove dst i) dsts (by_dst t) \<rparr>)"
  have u: "tunnels_inv u" "tunnels_rel u = tunnels_rel t - {i} \<times> UNIV"
    using assms drop_src [of t i] no_src [of t i]
    by (auto simp: u_def split: option.split)
  have "tunnels_remove_all i t = (case hm_get (by_dst u) i of
      None \<Rightarrow> u
    | Some srcs \<Rightarrow> u \<lparr> by_dst := hm_remove i (by_dst u),
                      by_src := fold (\<lambda>src. mm_remove src i) srcs (by_src u) \<rparr>)"
    unfolding tunnels_remove_all_def Let_def u_def ..
  then have "tunnels_inv (tunnels_remove_all i t)"
    "tunnels_rel (tunnels_remove_all i t) = tunnels_rel u - UNIV \<times> {i}"
    using u(1) drop_dst [of u i] no_dst [of u i] by (auto split: option.split)
  with u(2) show ?thesis by blast
qed

lemma find_tunnel_peers_set:
  "tunnels_inv t \<Longrightarrow>
   set (find_tunnel_peers t a) = {b. (a, b) \<in> tunnels_rel t \<or> (b, a) \<in> tunnels_rel t}"
  unfolding find_tunnel_peers_def tunnels_inv_def tunnels_rel_def Let_def
  by (cases "hm_get (by_src t) a"; cases "hm_get (by_dst t) a")
    (auto simp: mm_get_rel dest: mm_get_None_rel)

lemma find_tunnel_peers_distinct: "distinct (find_tunnel_peers t a)"
  by (simp add: find_tunnel_peers_def Let_def split: option.split)

lemma tunnel_exists_iff:
  "tunnels_inv t \<Longrightarrow> tunnel_exists t a b \<longleftrightarrow> (a, b) \<in> tunnels_rel t \<or> (b, a) \<in> tunnels_rel t"
  unfolding tunnel_exists_def tunnels_inv_def tunnels_rel_def
  by (cases "hm_get (by_src t) a"; cases "hm_get (by_dst t) a")
    (auto simp: mm_get_rel dest: mm_get_None_rel)

interpretation tun: tunnel_relation tunnels_new tunnels_add tunnels_remove tunnels_remove_all
    find_tunnel_peers tunnel_exists tunnels_rel tunnels_inv
proof unfold_locales
  fix t a b
  show "tunnels_inv t \<Longrightarrow> tunnels_rel (tunnels_remove a b t) = tunnels_rel t - {(a, b), (b, a)}"
    by (auto simp: tunnels_defs Let_def)
  show "tunnels_inv t \<Longrightarrow> tunnels_rel (tunnels_add a b t) = insert (a, b) (tunnels_rel t)"
    by (simp add: tunnels_defs)
  show "tunnels_rel tunnels_new = {}" by (simp add: tunnels_defs)
qed (simp_all add: tunnels_inv_new tunnels_inv_add tunnels_inv_remove tunnels_remove_all_correct
    find_tunnel_peers_set find_tunnel_peers_distinct tunnel_exists_iff)

end
