(* ===== verification/Tailnet_Coordinator.thy ===== *)
theory Tailnet_Coordinator
  imports Tailnet_Tunnels
begin

text \<open>
  The in-memory tailnet coordinator of \<open>crates/coder-connectivity/src/tailnet.rs\<close>. Its state is what
  the mutex protects, with a flag for a poisoned mutex, and a log of everything ever sent on each
  response channel: a sender is the index of its channel, and a send that no receiver reads any more
  is still in the log. The coordinator stores and forwards node information and DERP maps without
  looking into them, so their types are parameters, as are the clock and the fresh session
  identifiers. \<open>send_to\<close> is the pattern ``if the peer is registered, send to it''.
\<close>

section \<open>Data\<close>

datatype PeerKind = Agent | Client

record PeerInfo =
  pr_id :: uuid
  pr_name :: string
  pr_kind :: PeerKind
  pr_connected_at :: int

datatype PeerUpdateKind = Node | Disconnected | Lost | ReadyForHandshake

record 'n PeerUpdateMsg =
  pu_id :: uuid
  pu_kind :: PeerUpdateKind
  pu_node :: "'n option"

record 'n CoordinateResponse =
  re_peer_updates :: "'n PeerUpdateMsg list"
  re_error :: "string option"

record 'n CoordinateRequest =
  rq_update_self :: "'n option"
  rq_add_tunnel :: "uuid option"
  rq_remove_tunnel :: "uuid option"
  rq_disconnect :: "bool option"
  rq_ready_for_handshake :: "uuid list option"

definition default_request :: "'n CoordinateRequest" where
  "default_request =
     \<lparr> rq_update_self = None, rq_add_tunnel = None, rq_remove_tunnel = None, rq_disconnect = None,
       rq_ready_for_handshake = None \<rparr>"

datatype CoordinationError = UnknownPeer | Internal string

fun coordination_error_display :: "CoordinationError \<Rightarrow> string" where
  "coordination_error_display UnknownPeer = ''unknown peer''"
| "coordination_error_display (Internal msg) = ''internal error: '' @ msg"

record 'n CoordinatorPeer =
  cp_info :: PeerInfo
  cp_node :: "'n option"
  cp_response_tx :: "nat option"
  cp_session_id :: uuid

record ('n, 'd) Coordinator =
  co_poisoned :: bool
  co_peers :: "(uuid, 'n CoordinatorPeer) hash_map"
  co_tunnels :: TunnelStore
  co_subscriptions :: "(uuid, uuid) multi_map"
  co_channels :: "'n CoordinateResponse list list"
  co_derp_map :: 'd

definition coordinator_new :: "'d \<Rightarrow> ('n, 'd) Coordinator" where
  "coordinator_new initial_derp_map =
     \<lparr> co_poisoned = False, co_peers = hm_empty, co_tunnels = tunnels_new,
       co_subscriptions = hm_empty, co_channels = [], co_derp_map = initial_derp_map \<rparr>"

definition update_derp_map :: "'d \<Rightarrow> ('n, 'd) Coordinator \<Rightarrow> ('n, 'd) Coordinator" where
  "update_derp_map m c = c \<lparr> co_derp_map := m \<rparr>"

section \<open>Sending\<close>

definition send_to_peer ::
  "'n CoordinatorPeer \<Rightarrow> 'n CoordinateResponse \<Rightarrow> ('n, 'd) Coordinator \<Rightarrow> ('n, 'd) Coordinator" where
  "send_to_peer peer r c =
     (case cp_response_tx peer of
        Some tx \<Rightarrow> c \<lparr> co_channels := (co_channels c)[tx := co_channels c ! tx @ [r]] \<rparr>
      | None \<Rightarrow> c)"

definition send_to ::
  "uuid \<Rightarrow> 'n CoordinateResponse \<Rightarrow> ('n, 'd) Coordinator \<Rightarrow> ('n, 'd) Coordinator" where
  "send_to i r c = (case hm_get (co_peers c) i of Some peer \<Rightarrow> send_to_peer peer r c | None \<Rightarrow> c)"

definition error_response :: "string \<Rightarrow> 'n CoordinateResponse" where
  "error_response msg = \<lparr> re_peer_updates = [], re_error = Some msg \<rparr>"

definition update_response :: "uuid \<Rightarrow> PeerUpdateKind \<Rightarrow> 'n option \<Rightarrow> 'n CoordinateResponse" where
  "update_response i kind node =
     \<lparr> re_peer_updates = [\<lparr> pu_id = i, pu_kind = kind, pu_node = node \<rparr>], re_error = None \<rparr>"

definition node_of :: "('n, 'd) Coordinator \<Rightarrow> uuid \<Rightarrow> 'n option" where
  "node_of c i = Option.bind (hm_get (co_peers c) i) cp_node"

section \<open>Registration\<close>

definition add_peer ::
  "int \<Rightarrow> uuid \<Rightarrow> uuid \<Rightarrow> string \<Rightarrow> PeerKind \<Rightarrow> ('n, 'd) Coordinator \<Rightarrow> ('n, 'd) Coordinator" where
  "add_peer now session peer_id name kind c =
     (if co_poisoned c then c
      else c \<lparr> co_peers := hm_insert peer_id
                 \<lparr> cp_info = \<lparr> pr_id = peer_id, pr_name = name, pr_kind = kind, pr_connected_at = now \<rparr>,
                   cp_node = None, cp_response_tx = None, cp_session_id = session \<rparr>
                 (co_peers c) \<rparr>)"

text \<open>Drops a peer with its tunnels and subscriptions, as three operations do.\<close>

definition forget_peer :: "uuid \<Rightarrow> ('n, 'd) Coordinator \<Rightarrow> ('n, 'd) Coordinator" where
  "forget_peer peer_id c =
     c \<lparr> co_peers := hm_remove peer_id (co_peers c),
         co_tunnels := tunnels_remove_all peer_id (co_tunnels c),
         co_subscriptions := hm_remove peer_id (co_subscriptions c) \<rparr>"

definition remove_peer :: "uuid \<Rightarrow> ('n, 'd) Coordinator \<Rightarrow> ('n, 'd) Coordinator" where
  "remove_peer peer_id c = (if co_poisoned c then c else forget_peer peer_id c)"

definition initial_updates :: "('n, 'd) Coordinator \<Rightarrow> uuid \<Rightarrow> 'n PeerUpdateMsg list" where
  "initial_updates c peer_id =
     List.map_filter
       (\<lambda>tp. map_option (\<lambda>node. \<lparr> pu_id = tp, pu_kind = Node, pu_node = Some node \<rparr>) (node_of c tp))
       (find_tunnel_peers (co_tunnels c) peer_id)"

text \<open>The handle of a session: the channel it reads and its session identifier.\<close>

record CoordinationHandle =
  ch_response_rx :: nat
  ch_session_id :: uuid

definition open_session ::
  "int \<Rightarrow> uuid \<Rightarrow> uuid \<Rightarrow> string \<Rightarrow> PeerKind \<Rightarrow> ('n, 'd) Coordinator \<Rightarrow> ('n, 'd) Coordinator" where
  "open_session now session peer_id name kind c =
     c \<lparr> co_peers := hm_insert peer_id
           \<lparr> cp_info = \<lparr> pr_id = peer_id, pr_name = name, pr_kind = kind, pr_connected_at = now \<rparr>,
             cp_node = None, cp_response_tx = Some (length (co_channels c)), cp_session_id = session \<rparr>
           (co_peers c),
         co_channels := co_channels c @ [[]] \<rparr>"

definition coordinate ::
  "int \<Rightarrow> uuid \<Rightarrow> uuid \<Rightarrow> string \<Rightarrow> PeerKind \<Rightarrow> ('n, 'd) Coordinator \<Rightarrow>
   ('n, 'd) Coordinator \<times> CoordinationHandle" where
  "coordinate now session peer_id name kind c =
     (let handle = \<lparr> ch_response_rx = length (co_channels c), ch_session_id = session \<rparr> in
      if co_poisoned c then (c \<lparr> co_channels := co_channels c @ [[]] \<rparr>, handle)
      else
        let c = send_to peer_id (error_response ''overwritten by new connection'') c;
            c = open_session now session peer_id name kind c;
            updates = initial_updates c peer_id
        in (if updates \<noteq> []
            then send_to peer_id \<lparr> re_peer_updates = updates, re_error = None \<rparr> c else c,
            handle))"

section \<open>Requests\<close>

definition subscribers :: "('n, 'd) Coordinator \<Rightarrow> uuid \<Rightarrow> uuid list" where
  "subscribers c peer_id =
     map fst (filter (\<lambda>(client_id, agents). peer_id \<in> set agents) (co_subscriptions c))"

definition send_all ::
  "uuid list \<Rightarrow> 'n CoordinateResponse \<Rightarrow> ('n, 'd) Coordinator \<Rightarrow> ('n, 'd) Coordinator" where
  "send_all ids r c = fold (\<lambda>i. send_to i r) ids c"

definition set_node :: "uuid \<Rightarrow> 'n \<Rightarrow> ('n, 'd) Coordinator \<Rightarrow> ('n, 'd) Coordinator" where
  "set_node peer_id node c =
     (case hm_get (co_peers c) peer_id of
        Some peer \<Rightarrow> c \<lparr> co_peers := hm_insert peer_id (peer \<lparr> cp_node := Some node \<rparr>) (co_peers c) \<rparr>
      | None \<Rightarrow> c)"

definition req_update_self :: "uuid \<Rightarrow> 'n \<Rightarrow> ('n, 'd) Coordinator \<Rightarrow> ('n, 'd) Coordinator" where
  "req_update_self peer_id node c =
     (let c = set_node peer_id node c;
          r = update_response peer_id Node (Some node);
          c = send_all (find_tunnel_peers (co_tunnels c) peer_id) r c
      in send_all (subscribers c peer_id) r c)"

definition req_add_tunnel ::
  "uuid_codec \<Rightarrow> uuid \<Rightarrow> uuid \<Rightarrow> ('n, 'd) Coordinator \<Rightarrow> ('n, 'd) Coordinator" where
  "req_add_tunnel U peer_id dst_id c =
     (if dst_id = peer_id then send_to peer_id (error_response ''cannot add tunnel to self'') c
      else if hm_get (co_peers c) dst_id = None then
        send_to peer_id
          (error_response (''cannot add tunnel: peer \"'' @ to_string U dst_id @ ''\" is not connected'')) c
      else
        let c = c \<lparr> co_tunnels := tunnels_add peer_id dst_id (co_tunnels c) \<rparr>;
            c = (case node_of c dst_id of
                   Some node \<Rightarrow> send_to peer_id (update_response dst_id Node (Some node)) c
                 | None \<Rightarrow> c)
        in case node_of c peer_id of
             Some node \<Rightarrow> send_to dst_id (update_response peer_id Node (Some node)) c
           | None \<Rightarrow> c)"

definition req_remove_tunnel ::
  "uuid_codec \<Rightarrow> uuid \<Rightarrow> uuid \<Rightarrow> ('n, 'd) Coordinator \<Rightarrow> ('n, 'd) Coordinator" where
  "req_remove_tunnel U peer_id dst_id c =
     (if tunnel_exists (co_tunnels c) peer_id dst_id then
        let c = send_to peer_id (update_response dst_id Disconnected None) c;
            c = send_to dst_id (update_response peer_id Disconnected None) c
        in c \<lparr> co_tunnels := tunnels_remove peer_id dst_id (co_tunnels c) \<rparr>
      else
        send_to peer_id
          (error_response (''no tunnel exists between you and \"'' @ to_string U dst_id @ ''\"'')) c)"

text \<open>Tells the tunnel peers that a peer is gone, and forgets it.\<close>

definition leave :: "PeerUpdateKind \<Rightarrow> uuid \<Rightarrow> ('n, 'd) Coordinator \<Rightarrow> ('n, 'd) Coordinator" where
  "leave kind peer_id c =
     forget_peer peer_id
       (send_all (find_tunnel_peers (co_tunnels c) peer_id) (update_response peer_id kind None) c)"

definition req_ready_one ::
  "uuid_codec \<Rightarrow> uuid \<Rightarrow> uuid \<Rightarrow> ('n, 'd) Coordinator \<Rightarrow> ('n, 'd) Coordinator" where
  "req_ready_one U peer_id dst_id c =
     (if \<not> tunnel_exists (co_tunnels c) peer_id dst_id then
        send_to peer_id
          (error_response (''ready for handshake error: you do not share a tunnel with \"'' @
             to_string U dst_id @ ''\"'')) c
      else send_to dst_id (update_response peer_id ReadyForHandshake None) c)"

definition opt_apply :: "'a option \<Rightarrow> ('a \<Rightarrow> 'c \<Rightarrow> 'c) \<Rightarrow> 'c \<Rightarrow> 'c" where
  "opt_apply x f c = (case x of Some a \<Rightarrow> f a c | None \<Rightarrow> c)"

definition process_request ::
  "uuid_codec \<Rightarrow> uuid \<Rightarrow> 'n CoordinateRequest \<Rightarrow> ('n, 'd) Coordinator \<Rightarrow>
   ('n, 'd) Coordinator \<times> (CoordinationError, unit) result" where
  "process_request U peer_id req c =
     (if co_poisoned c then
        (c, Err (Internal ''poisoned lock: another task failed inside''))
      else if hm_get (co_peers c) peer_id = None then (c, Err UnknownPeer)
      else
        let c = opt_apply (rq_update_self req) (req_update_self peer_id) c;
            c = opt_apply (rq_add_tunnel req) (req_add_tunnel U peer_id) c;
            c = opt_apply (rq_remove_tunnel req) (req_remove_tunnel U peer_id) c
        in if rq_disconnect req = Some True then (leave Disconnected peer_id c, Ok ())
           else (opt_apply (rq_ready_for_handshake req) (fold (req_ready_one U peer_id)) c, Ok ()))"

definition close_coordination :: "uuid \<Rightarrow> uuid \<Rightarrow> ('n, 'd) Coordinator \<Rightarrow> ('n, 'd) Coordinator" where
  "close_coordination peer_id session_id c =
     (if co_poisoned c then c
      else case hm_get (co_peers c) peer_id of
        None \<Rightarrow> c
      | Some peer \<Rightarrow> if cp_session_id peer \<noteq> session_id then c else leave Lost peer_id c)"

section \<open>Multi-agent connections\<close>

record MultiAgentConn =
  ma_client_id :: uuid
  ma_session_id :: uuid
  ma_response_rx :: "nat option"

definition serve_multi_agent_client ::
  "uuid_codec \<Rightarrow> int \<Rightarrow> uuid \<Rightarrow> uuid \<Rightarrow> ('n, 'd) Coordinator \<Rightarrow> ('n, 'd) Coordinator \<times> MultiAgentConn" where
  "serve_multi_agent_client U now session i c =
     (let (c, handle) = coordinate now session i (''multi-agent-'' @ to_string U i) Client c
      in (c, \<lparr> ma_client_id = i, ma_session_id = ch_session_id handle,
               ma_response_rx = Some (ch_response_rx handle) \<rparr>))"

definition subscribe :: "MultiAgentConn \<Rightarrow> uuid \<Rightarrow> ('n, 'd) Coordinator \<Rightarrow> ('n, 'd) Coordinator" where
  "subscribe conn agent_id c =
     (if co_poisoned c then c
      else
        let c = c \<lparr> co_subscriptions := mm_insert (ma_client_id conn) agent_id (co_subscriptions c) \<rparr>
        in case node_of c agent_id of
             Some node \<Rightarrow> send_to (ma_client_id conn) (update_response agent_id Node (Some node)) c
           | None \<Rightarrow> c)"

definition unsubscribe :: "MultiAgentConn \<Rightarrow> uuid \<Rightarrow> ('n, 'd) Coordinator \<Rightarrow> ('n, 'd) Coordinator" where
  "unsubscribe conn agent_id c =
     (if co_poisoned c then c
      else c \<lparr> co_subscriptions := mm_remove (ma_client_id conn) agent_id (co_subscriptions c) \<rparr>)"

definition conn_update_self ::
  "uuid_codec \<Rightarrow> MultiAgentConn \<Rightarrow> 'n \<Rightarrow> ('n, 'd) Coordinator \<Rightarrow> ('n, 'd) Coordinator" where
  "conn_update_self U conn node c =
     fst (process_request U (ma_client_id conn) (default_request \<lparr> rq_update_self := Some node \<rparr>) c)"

definition conn_close ::
  "MultiAgentConn \<Rightarrow> ('n, 'd) Coordinator \<Rightarrow> MultiAgentConn \<times> ('n, 'd) Coordinator" where
  "conn_close conn c =
     (conn \<lparr> ma_response_rx := None \<rparr>,
      close_coordination (ma_client_id conn) (ma_session_id conn) c)"

definition conn_drop :: "MultiAgentConn \<Rightarrow> ('n, 'd) Coordinator \<Rightarrow> ('n, 'd) Coordinator" where
  "conn_drop conn c = (if ma_response_rx conn \<noteq> None then snd (conn_close conn c) else c)"

section \<open>What a peer receives\<close>

text \<open>The channel a peer listens on, and everything sent on it so far.\<close>

definition listens :: "('n, 'd) Coordinator \<Rightarrow> uuid \<Rightarrow> nat option" where
  "listens c q = Option.bind (hm_get (co_peers c) q) cp_response_tx"

definition received :: "('n, 'd) Coordinator \<Rightarrow> uuid \<Rightarrow> 'n CoordinateResponse list" where
  "received c q = (case listens c q of Some tx \<Rightarrow> co_channels c ! tx | None \<Rightarrow> [])"

text \<open>
  The state is consistent: peers are filed under their own identifier, every sender belongs to an
  existing channel and no two peers share one, and a tunnel joins two different registered peers.
\<close>

definition channels_ok :: "('n, 'd) Coordinator \<Rightarrow> bool" where
  "channels_ok c \<longleftrightarrow>
     (\<forall>i tx. listens c i = Some tx \<longrightarrow> tx < length (co_channels c)) \<and>
     (\<forall>i j tx. listens c i = Some tx \<longrightarrow> listens c j = Some tx \<longrightarrow> i = j)"

definition registered :: "('n, 'd) Coordinator \<Rightarrow> uuid \<Rightarrow> bool" where
  "registered c i \<longleftrightarrow> hm_get (co_peers c) i \<noteq> None"

definition tunnel_ends_ok :: "('n, 'd) Coordinator \<Rightarrow> bool" where
  "tunnel_ends_ok c \<longleftrightarrow>
     (\<forall>(a, b) \<in> tunnels_rel (co_tunnels c). a \<noteq> b \<and> registered c a \<and> registered c b)"

definition coordinator_inv :: "('n, 'd) Coordinator \<Rightarrow> bool" where
  "coordinator_inv c \<longleftrightarrow>
     hm_wf (co_peers c) \<and> mm_wf (co_subscriptions c) \<and> tunnels_inv (co_tunnels c) \<and>
     (\<forall>i p. hm_get (co_peers c) i = Some p \<longrightarrow> pr_id (cp_info p) = i) \<and>
     channels_ok c \<and> tunnel_ends_ok c"

lemma coordinator_invD [dest]:
  assumes "coordinator_inv c"
  shows "hm_wf (co_peers c)" "mm_wf (co_subscriptions c)" "tunnels_inv (co_tunnels c)" "channels_ok c"
    "tunnel_ends_ok c"
  using assms by (simp_all add: coordinator_inv_def)

subsection \<open>Sending\<close>

lemma send_to_peer_frame [simp]:
  "co_poisoned (send_to_peer p r c) = co_poisoned c" "co_peers (send_to_peer p r c) = co_peers c"
  "co_tunnels (send_to_peer p r c) = co_tunnels c"
  "co_subscriptions (send_to_peer p r c) = co_subscriptions c"
  "co_derp_map (send_to_peer p r c) = co_derp_map c"
  "length (co_channels (send_to_peer p r c)) = length (co_channels c)"
  by (simp_all add: send_to_peer_def split: option.split)

lemma send_to_frame [simp]:
  "co_poisoned (send_to i r c) = co_poisoned c" "co_peers (send_to i r c) = co_peers c"
  "co_tunnels (send_to i r c) = co_tunnels c" "co_subscriptions (send_to i r c) = co_subscriptions c"
  "co_derp_map (send_to i r c) = co_derp_map c"
  "length (co_channels (send_to i r c)) = length (co_channels c)"
  by (simp_all add: send_to_def split: option.split)

lemma send_all_frame [simp]:
  "co_poisoned (send_all is r c) = co_poisoned c" "co_peers (send_all is r c) = co_peers c"
  "co_tunnels (send_all is r c) = co_tunnels c"
  "co_subscriptions (send_all is r c) = co_subscriptions c"
  "co_derp_map (send_all is r c) = co_derp_map c"
  "length (co_channels (send_all is r c)) = length (co_channels c)"
  unfolding send_all_def by (induction "is" arbitrary: c) simp_all

lemma listens_peers: "co_peers c = co_peers d \<Longrightarrow> listens c i = listens d i"
  by (simp add: listens_def)

lemma listens_send [simp]:
  "listens (send_to i r c) q = listens c q" "listens (send_all is r c) q = listens c q"
  by (simp_all add: listens_def)

text \<open>The invariant speaks of everything but the contents of the channels.\<close>

lemma coordinator_inv_cong:
  assumes "co_peers c = co_peers d" "co_tunnels c = co_tunnels d"
    "co_subscriptions c = co_subscriptions d" "length (co_channels c) = length (co_channels d)"
  shows "coordinator_inv c = coordinator_inv d"
  using assms
  by (simp add: coordinator_inv_def channels_ok_def tunnel_ends_ok_def registered_def listens_def)

lemma coordinator_inv_send [simp]:
  "coordinator_inv (send_to i r c) = coordinator_inv c"
  "coordinator_inv (send_all is r c) = coordinator_inv c"
  by (rule coordinator_inv_cong; simp)+

lemma channels_ok_send [simp]: "channels_ok (send_to i r c) = channels_ok c"
  by (simp add: channels_ok_def)

lemma channels_send_to:
  "listens c i = Some tx \<Longrightarrow>
   co_channels (send_to i r c) = (co_channels c)[tx := co_channels c ! tx @ [r]]"
  by (auto simp: send_to_def send_to_peer_def listens_def bind_eq_Some_conv)

text \<open>A message reaches the peer it is sent to, at the end of what it has received, and no one else.\<close>

lemma received_send_to:
  assumes "channels_ok c"
  shows "received (send_to i r c) q =
    received c q @ (if q = i \<and> listens c q \<noteq> None then [r] else [])"
proof (cases "listens c i")
  case None
  then have "co_channels (send_to i r c) = co_channels c"
    by (auto simp: send_to_def send_to_peer_def listens_def split: option.split)
  with None show ?thesis by (simp add: received_def split: option.split)
next
  case (Some tx)
  note ch = channels_send_to [OF Some]
  have tx: "tx < length (co_channels c)" and other: "q \<noteq> i \<Longrightarrow> listens c q \<noteq> Some tx"
    using assms Some by (auto simp: channels_ok_def)
  show ?thesis
  proof (cases "q = i")
    case True
    with Some tx show ?thesis by (simp add: received_def ch)
  next
    case False
    with other show ?thesis by (cases "listens c q") (simp_all add: received_def ch)
  qed
qed

lemma received_send_all:
  assumes "channels_ok c"
  shows "received (send_all is r c) q =
    received c q @ (if listens c q \<noteq> None then replicate (count_list is q) r else [])"
  using assms unfolding send_all_def
  by (induction "is" arbitrary: c) (auto simp: received_send_to)

lemma count_distinct: "distinct xs \<Longrightarrow> count_list xs x = (if x \<in> set xs then 1 else 0)"
  by (induction xs) auto

lemma received_send_distinct:
  assumes "channels_ok c" and "distinct is"
  shows "received (send_all is r c) q =
    received c q @ (if q \<in> set is \<and> listens c q \<noteq> None then [r] else [])"
  using assms by (simp add: received_send_all count_distinct)

lemma received_cong:
  "co_peers c = co_peers d \<Longrightarrow> co_channels c = co_channels d \<Longrightarrow> received c q = received d q"
  by (simp add: received_def listens_def split: option.split)

lemma subscribers_set:
  "mm_wf (co_subscriptions c) \<Longrightarrow> q \<in> set (subscribers c p) \<longleftrightarrow> (q, p) \<in> mm_rel (co_subscriptions c)"
  by (force simp: subscribers_def mm_rel_def mm_wf_def simp flip: hm.entries_get)

lemma subscribers_distinct: "mm_wf (co_subscriptions c) \<Longrightarrow> distinct (subscribers c p)"
  by (simp add: subscribers_def mm_wf_def hm_wf_def distinct_map_filter)

subsection \<open>The other updates\<close>

lemma set_node_frame [simp]:
  "co_poisoned (set_node p n c) = co_poisoned c" "co_tunnels (set_node p n c) = co_tunnels c"
  "co_subscriptions (set_node p n c) = co_subscriptions c"
  "co_channels (set_node p n c) = co_channels c"
  by (simp_all add: set_node_def split: option.split)

lemma get_set_node:
  "hm_get (co_peers (set_node p n c)) q =
     map_option (\<lambda>peer. if q = p then peer \<lparr> cp_node := Some n \<rparr> else peer) (hm_get (co_peers c) q)"
  by (cases "hm_get (co_peers c) q") (auto simp: set_node_def hm.get_insert split: option.split)

lemma listens_set_node [simp]: "listens (set_node p n c) q = listens c q"
  by (simp add: listens_def get_set_node bind_map_option) (auto simp: comp_def split: bind_split)

lemma received_set_node [simp]: "received (set_node p n c) q = received c q"
  by (simp add: received_def split: option.split)

lemma hm_wf_set_node: "hm_wf (co_peers c) \<Longrightarrow> hm_wf (co_peers (set_node p n c))"
  by (simp add: set_node_def hm.wf_insert split: option.split)

lemma coordinator_inv_set_node [simp]: "coordinator_inv c \<Longrightarrow> coordinator_inv (set_node p n c)"
  by (auto simp: coordinator_inv_def hm_wf_set_node channels_ok_def tunnel_ends_ok_def registered_def
      get_set_node)

lemma forget_peer_frame [simp]:
  "co_poisoned (forget_peer p c) = co_poisoned c" "co_channels (forget_peer p c) = co_channels c"
  "co_tunnels (forget_peer p c) = tunnels_remove_all p (co_tunnels c)"
  "co_subscriptions (forget_peer p c) = hm_remove p (co_subscriptions c)"
  by (simp_all add: forget_peer_def)

lemma get_forget_peer:
  "hm_wf (co_peers c) \<Longrightarrow>
   hm_get (co_peers (forget_peer p c)) q = (if q = p then None else hm_get (co_peers c) q)"
  by (simp add: forget_peer_def hm.get_remove)

lemma listens_forget_peer:
  "hm_wf (co_peers c) \<Longrightarrow> listens (forget_peer p c) q = (if q = p then None else listens c q)"
  by (simp add: listens_def get_forget_peer)

lemma received_forget_peer:
  "hm_wf (co_peers c) \<Longrightarrow> received (forget_peer p c) q = (if q = p then [] else received c q)"
  by (simp add: received_def listens_forget_peer split: option.split)

lemma coordinator_inv_forget_peer [simp]:
  assumes "coordinator_inv c"
  shows "coordinator_inv (forget_peer p c)"
proof -
  note wf = coordinator_invD [OF assms]
  have "hm_wf (co_peers (forget_peer p c))"
    using wf(1) by (simp add: forget_peer_def hm.wf_remove)
  moreover have "channels_ok (forget_peer p c)"
    using wf(1,4) by (auto simp: channels_ok_def listens_forget_peer split: if_splits)
  moreover have "tunnel_ends_ok (forget_peer p c)"
    using wf(1,3,5)
    by (auto simp: tunnel_ends_ok_def registered_def get_forget_peer tun.rel_remove_all)
  ultimately show ?thesis
    using assms wf
    by (auto simp: coordinator_inv_def tun.inv_remove_all get_forget_peer split: if_splits)
qed

text \<open>Registering a peer, with or without a channel of its own.\<close>

lemma coordinator_inv_insert:
  assumes inv: "coordinator_inv c" and id: "pr_id (cp_info peer) = i"
    and ch: "cp_response_tx peer = None \<and> chs = co_channels c \<or>
      cp_response_tx peer = Some (length (co_channels c)) \<and> chs = co_channels c @ [[]]"
  shows "coordinator_inv (c \<lparr> co_peers := hm_insert i peer (co_peers c), co_channels := chs \<rparr>)"
    (is "coordinator_inv ?c")
proof -
  have listens: "listens ?c q = (if q = i then cp_response_tx peer else listens c q)" for q
    by (simp add: listens_def hm.get_insert)
  have "channels_ok ?c"
    using coordinator_invD(4) [OF inv] ch
    by (auto simp: channels_ok_def listens less_Suc_eq split: if_splits) (metis nat_neq_iff)+
  moreover have "tunnel_ends_ok ?c"
    using coordinator_invD(5) [OF inv]
    by (auto simp: tunnel_ends_ok_def registered_def hm.get_insert)
  ultimately show ?thesis
    using inv id by (auto simp: coordinator_inv_def hm.wf_insert hm.get_insert)
qed

lemma coordinator_inv_add_peer [simp]:
  "coordinator_inv c \<Longrightarrow> coordinator_inv (add_peer now session p name kind c)"
  using coordinator_inv_insert [of c "\<lparr> cp_info = \<lparr> pr_id = p, pr_name = name, pr_kind = kind,
      pr_connected_at = now \<rparr>, cp_node = None, cp_response_tx = None, cp_session_id = session \<rparr>" p
      "co_channels c"]
  by (simp add: add_peer_def)

lemma coordinator_inv_open_session [simp]:
  "coordinator_inv c \<Longrightarrow> coordinator_inv (open_session now session p name kind c)"
  by (simp add: open_session_def coordinator_inv_insert)

lemma coordinator_inv_extend:
  assumes "coordinator_inv c"
  shows "coordinator_inv (c \<lparr> co_channels := co_channels c @ [m] \<rparr>)" (is "coordinator_inv ?c")
proof -
  have "channels_ok ?c"
    using coordinator_invD(4) [OF assms] by (auto simp: channels_ok_def listens_def less_Suc_eq)
  with assms show ?thesis by (simp add: coordinator_inv_def tunnel_ends_ok_def registered_def)
qed

lemma coordinator_inv_tunnels:
  assumes "coordinator_inv c" and "tunnels_inv t"
    and "\<And>a b. (a, b) \<in> tunnels_rel t \<Longrightarrow> (a, b) \<in> tunnels_rel (co_tunnels c) \<or>
      a \<noteq> b \<and> registered c a \<and> registered c b"
  shows "coordinator_inv (c \<lparr> co_tunnels := t \<rparr>)" (is "coordinator_inv ?c")
proof -
  have "tunnel_ends_ok ?c"
    using coordinator_invD(5) [OF assms(1)] assms(3)
    by (fastforce simp: tunnel_ends_ok_def registered_def)
  with assms(1,2) show ?thesis by (simp add: coordinator_inv_def channels_ok_def listens_def)
qed

subsection \<open>Every operation keeps the state consistent\<close>

lemma coordinator_inv_new [simp]: "coordinator_inv (coordinator_new d)"
  by (simp add: coordinator_inv_def coordinator_new_def channels_ok_def listens_def tunnel_ends_ok_def
      tun.inv_new tun.rel_new hm.wf_empty)

lemma coordinator_inv_derp_map [simp]: "coordinator_inv (update_derp_map m c) = coordinator_inv c"
  by (rule coordinator_inv_cong) (simp_all add: update_derp_map_def)

lemma coordinator_inv_remove_peer [simp]: "coordinator_inv c \<Longrightarrow> coordinator_inv (remove_peer p c)"
  by (simp add: remove_peer_def)

lemma coordinator_inv_coordinate [simp]:
  "coordinator_inv c \<Longrightarrow> coordinator_inv (fst (coordinate now session p name kind c))"
  by (simp add: coordinate_def Let_def coordinator_inv_extend)

lemma coordinator_inv_update_self [simp]:
  "coordinator_inv c \<Longrightarrow> coordinator_inv (req_update_self p node c)"
  by (simp add: req_update_self_def Let_def)

lemma req_update_self_registered [simp]: "registered (req_update_self p node c) i = registered c i"
  by (simp add: registered_def req_update_self_def Let_def get_set_node)

lemma registered_send [simp]:
  "registered (send_to i r c) q = registered c q" "registered (send_all is r c) q = registered c q"
  by (simp_all add: registered_def)

lemma coordinator_inv_add_tunnel [simp]:
  assumes "coordinator_inv c" and "registered c p"
  shows "coordinator_inv (req_add_tunnel U p dst c)"
proof -
  have "coordinator_inv (c \<lparr> co_tunnels := tunnels_add p dst (co_tunnels c) \<rparr>)"
    if "dst \<noteq> p" "registered c dst"
    using that assms(2) coordinator_invD(3) [OF assms(1)]
    by (intro coordinator_inv_tunnels assms(1)) (auto simp: tun.inv_add tun.rel_add)
  then show ?thesis
    using assms(1) by (auto simp: req_add_tunnel_def registered_def Let_def split: option.split)
qed

lemma req_add_tunnel_peers [simp]: "co_peers (req_add_tunnel U p dst c) = co_peers c"
  by (simp add: req_add_tunnel_def Let_def split: option.split)

lemma coordinator_inv_remove_tunnel [simp]:
  assumes "coordinator_inv c"
  shows "coordinator_inv (req_remove_tunnel U p dst c)"
  using assms coordinator_invD(3) [OF assms]
  by (auto simp: req_remove_tunnel_def Let_def tun.inv_remove tun.rel_remove
      intro!: coordinator_inv_tunnels)

lemma req_remove_tunnel_peers [simp]: "co_peers (req_remove_tunnel U p dst c) = co_peers c"
  by (simp add: req_remove_tunnel_def Let_def)

lemma req_tunnel_registered [simp]:
  "registered (req_add_tunnel U p dst c) i = registered c i"
  "registered (req_remove_tunnel U p dst c) i = registered c i"
  by (simp_all add: registered_def)

lemma coordinator_inv_leave [simp]: "coordinator_inv c \<Longrightarrow> coordinator_inv (leave kind p c)"
  by (simp add: leave_def)

lemma req_ready_one_frame [simp]:
  "co_peers (req_ready_one U p dst c) = co_peers c"
  "co_tunnels (req_ready_one U p dst c) = co_tunnels c"
  "co_subscriptions (req_ready_one U p dst c) = co_subscriptions c"
  "coordinator_inv (req_ready_one U p dst c) = coordinator_inv c"
  by (simp_all add: req_ready_one_def)

lemma req_ready_frame [simp]:
  "co_peers (fold (req_ready_one U p) ds c) = co_peers c"
  "co_tunnels (fold (req_ready_one U p) ds c) = co_tunnels c"
  "co_subscriptions (fold (req_ready_one U p) ds c) = co_subscriptions c"
  "coordinator_inv (fold (req_ready_one U p) ds c) = coordinator_inv c"
  by (induction ds arbitrary: c) simp_all

text \<open>A request runs its optional parts one after the other; the sender stays registered until it leaves.\<close>

lemma opt_apply_keeps: "P c \<Longrightarrow> (\<And>a c. P c \<Longrightarrow> P (f a c)) \<Longrightarrow> P (opt_apply x f c)"
  by (cases x) (simp_all add: opt_apply_def)

definition tunnel_stage ::
  "uuid_codec \<Rightarrow> uuid \<Rightarrow> 'n CoordinateRequest \<Rightarrow> ('n, 'd) Coordinator \<Rightarrow> ('n, 'd) Coordinator" where
  "tunnel_stage U p req c =
     opt_apply (rq_remove_tunnel req) (req_remove_tunnel U p)
       (opt_apply (rq_add_tunnel req) (req_add_tunnel U p)
         (opt_apply (rq_update_self req) (req_update_self p) c))"

lemma process_request_stage:
  "\<not> co_poisoned c \<Longrightarrow> registered c p \<Longrightarrow>
   process_request U p req c =
     (if rq_disconnect req = Some True then leave Disconnected p (tunnel_stage U p req c)
      else opt_apply (rq_ready_for_handshake req) (fold (req_ready_one U p)) (tunnel_stage U p req c),
      Ok ())"
  by (auto simp: process_request_def registered_def tunnel_stage_def Let_def)

lemma process_request_refused:
  "co_poisoned c \<or> \<not> registered c p \<Longrightarrow> fst (process_request U p req c) = c"
  by (auto simp: process_request_def registered_def)

lemma tunnel_stage_inv:
  assumes "coordinator_inv c" and "registered c p"
  shows "coordinator_inv (tunnel_stage U p req c) \<and> registered (tunnel_stage U p req c) p"
  unfolding tunnel_stage_def
  by (intro opt_apply_keeps [where P = "\<lambda>c. coordinator_inv c \<and> registered c p"])
    (simp_all add: assms)

lemma coordinator_inv_process_request [simp]:
  assumes "coordinator_inv c"
  shows "coordinator_inv (fst (process_request U p req c))"
proof (cases "co_poisoned c \<or> \<not> registered c p")
  case True
  with assms show ?thesis by (simp add: process_request_refused)
next
  case False
  with tunnel_stage_inv [OF assms, of p U req] show ?thesis
    by (simp add: process_request_stage opt_apply_keeps [where P = coordinator_inv])
qed

lemma coordinator_inv_close [simp]: "coordinator_inv c \<Longrightarrow> coordinator_inv (close_coordination p s c)"
  by (simp add: close_coordination_def split: option.split)

lemma coordinator_inv_subscriptions:
  "coordinator_inv c \<Longrightarrow> mm_wf s \<Longrightarrow> coordinator_inv (c \<lparr> co_subscriptions := s \<rparr>)"
  by (simp add: coordinator_inv_def channels_ok_def listens_def tunnel_ends_ok_def registered_def)

lemma coordinator_inv_subscribe [simp]:
  "coordinator_inv c \<Longrightarrow> coordinator_inv (subscribe conn a c)"
  "coordinator_inv c \<Longrightarrow> coordinator_inv (unsubscribe conn a c)"
  by (auto simp: subscribe_def unsubscribe_def Let_def coordinator_inv_subscriptions coordinator_invD
      split: option.split)

section \<open>The coordinator as a transition system\<close>

text \<open>Any interleaving of the operations, each under the lock, by any peers and connections.\<close>

inductive co_step :: "uuid_codec \<Rightarrow> ('n, 'd) Coordinator \<Rightarrow> ('n, 'd) Coordinator \<Rightarrow> bool"
  for U :: uuid_codec
where
  step_add_peer: "co_step U c (add_peer now session p name kind c)"
| step_remove_peer: "co_step U c (remove_peer p c)"
| step_coordinate: "co_step U c (fst (coordinate now session p name kind c))"
| step_request: "co_step U c (fst (process_request U p req c))"
| step_close: "co_step U c (close_coordination p session c)"
| step_subscribe: "co_step U c (subscribe conn a c)"
| step_unsubscribe: "co_step U c (unsubscribe conn a c)"
| step_derp_map: "co_step U c (update_derp_map m c)"

definition co_init :: "('n, 'd) Coordinator \<Rightarrow> bool" where
  "co_init c \<longleftrightarrow> (\<exists>d. c = coordinator_new d)"

interpretation co: transition_invariant co_init "co_step U" coordinator_inv
  by unfold_locales (auto simp: co_init_def elim!: co_step.cases)

text \<open>Two coordinating peers that share a tunnel, the second one subscribed to the first as well.\<close>

definition demo_coordinator :: "uuid_codec \<Rightarrow> (nat, nat) Coordinator" where
  "demo_coordinator U =
     subscribe \<lparr> ma_client_id = 2, ma_session_id = 20, ma_response_rx = Some 1 \<rparr> 1
       (fst (process_request U 1 (default_request \<lparr> rq_add_tunnel := Some 2 \<rparr>)
         (fst (coordinate 1 20 2 ''b'' Client
           (fst (coordinate 0 10 1 ''a'' Agent (coordinator_new 0)))))))"

lemma demo_coordinator_reachable: "reachable co_init (co_step U) (demo_coordinator U)"
  unfolding demo_coordinator_def
  by (intro reach_step [where step = "co_step U", OF _ step_subscribe]
      reach_step [where step = "co_step U", OF _ step_request]
      reach_step [where step = "co_step U", OF _ step_coordinate] reach_init)
    (auto simp: co_init_def)

lemma demo_coordinator_inv: "coordinator_inv (demo_coordinator U)"
  using demo_coordinator_reachable by (rule co.reachable_inv)

lemma demo_coordinator_state:
  "\<not> co_poisoned (demo_coordinator U)" "registered (demo_coordinator U) 1"
  "listens (demo_coordinator U) 2 = Some 1" "tunnel_exists (co_tunnels (demo_coordinator U)) 1 2"
  "received (demo_coordinator U) 2 = []" "hm_get (co_subscriptions (demo_coordinator U)) 2 = Some [1]"
  by code_simp+

lemma demo_coordinator_subscription: "(2, 1) \<in> mm_rel (co_subscriptions (demo_coordinator U))"
  by (simp add: mm_rel_def demo_coordinator_state)

text \<open>
  C4. Consistency of the coordinator: after any sequence of operations, a tunnel joins two different
  peers that are both registered, and no two peers share a response channel. A node announced by one
  peer can therefore never end up on the channel of another peer's session.
\<close>

theorem coordinator_consistent:
  assumes "reachable co_init (co_step U) (c :: ('n, 'd) Coordinator)"
  shows "(tunnel_exists (co_tunnels c) a b \<longrightarrow> a \<noteq> b \<and> registered c a \<and> registered c b) \<and>
    (listens c i = Some tx \<longrightarrow> tx < length (co_channels c) \<and> (listens c j = Some tx \<longrightarrow> i = j))"
proof -
  have inv: "coordinator_inv c" using assms by (rule co.reachable_inv)
  then show ?thesis
    using coordinator_invD(4,5) [OF inv] tun.exists_rel [OF coordinator_invD(3) [OF inv]]
    by (fastforce simp: tunnel_ends_ok_def channels_ok_def)
qed

theorem coordinator_consistent_witness:
  "registered (demo_coordinator hyphenated_codec) 1 \<and> registered (demo_coordinator hyphenated_codec) 2"
  using coordinator_consistent [OF demo_coordinator_reachable, of hyphenated_codec 1 2]
  by (simp add: demo_coordinator_state)

text \<open>
  C30. Delivery of a node update: when a registered peer announces its node, the node is stored, the
  request succeeds, and each peer receives exactly: one copy if it shares a tunnel with the sender,
  and one copy if it subscribed to the sender (so two if it did both); everyone else's channel is
  unchanged. A peer registered without a session receives nothing.
\<close>

theorem node_update_delivery:
  fixes c :: "('n, 'd) Coordinator" and node :: 'n and p q :: uuid and U :: uuid_codec
  assumes "coordinator_inv c" and "\<not> co_poisoned c" and "registered c p"
  defines "msg \<equiv> update_response p Node (Some node)"
  defines "out \<equiv> process_request U p (default_request \<lparr> rq_update_self := Some node \<rparr>) c"
  shows "snd out = Ok () \<and> node_of (fst out) p = Some node \<and>
    received (fst out) q = received c q @
      (if listens c q = None then []
       else (if tunnel_exists (co_tunnels c) p q then [msg] else []) @
            (if (q, p) \<in> mm_rel (co_subscriptions c) then [msg] else []))"
proof -
  define c1 where "c1 = set_node p node c"
  define c2 where "c2 = send_all (find_tunnel_peers (co_tunnels c) p) msg c1"
  have out: "out = (send_all (subscribers c2 p) msg c2, Ok ())"
    using assms(2,3)
    by (simp add: out_def process_request_stage tunnel_stage_def opt_apply_def default_request_def
        req_update_self_def c1_def c2_def msg_def Let_def)
  note wf = coordinator_invD [OF assms(1)]
  have ok: "channels_ok c1" "channels_ok c2"
    using coordinator_inv_set_node [OF assms(1), of p node]
    by (simp_all add: c1_def c2_def coordinator_invD(4))
  have tun: "q \<in> set (find_tunnel_peers (co_tunnels c) p) \<longleftrightarrow> tunnel_exists (co_tunnels c) p q"
    using wf(3) by (rule tun.peers_exists)
  have sub: "q \<in> set (subscribers c2 p) \<longleftrightarrow> (q, p) \<in> mm_rel (co_subscriptions c)"
    using wf(2) by (simp add: subscribers_set c1_def c2_def)
  have "distinct (subscribers c2 p)"
    using wf(2) by (simp add: subscribers_distinct c1_def c2_def)
  then have "received (fst out) q = received c2 q @
      (if (q, p) \<in> mm_rel (co_subscriptions c) \<and> listens c2 q \<noteq> None then [msg] else [])"
    by (simp add: out received_send_distinct ok sub)
  moreover have "received c2 q = received c q @
      (if tunnel_exists (co_tunnels c) p q \<and> listens c q \<noteq> None then [msg] else [])"
    using received_send_distinct [OF ok(1) tun.peers_distinct [OF wf(3)], of p msg q] tun
    by (simp add: c2_def c1_def)
  moreover have "node_of (fst out) p = Some node"
    using assms(3) by (auto simp: out c2_def c1_def node_of_def get_set_node registered_def)
  ultimately show ?thesis by (simp add: out c2_def c1_def)
qed

theorem node_update_delivery_witness:
  "received (fst (process_request hyphenated_codec 1 (default_request \<lparr> rq_update_self := Some 7 \<rparr>)
       (demo_coordinator hyphenated_codec))) 2 =
     [update_response 1 Node (Some 7), update_response 1 Node (Some 7)]"
  using node_update_delivery [OF demo_coordinator_inv demo_coordinator_state(1,2),
      where U = hyphenated_codec and node = 7 and q = 2]
  by (simp add: demo_coordinator_state demo_coordinator_subscription)

section \<open>Isolation between peers\<close>

text \<open>
  What a peer can observe of the coordinator: its registration, its messages, its subscriptions and
  the peers it shares a tunnel with. Two peers are apart when they share no tunnel and the second is
  not subscribed to the first.
\<close>

definition view ::
  "('n, 'd) Coordinator \<Rightarrow> uuid \<Rightarrow>
   'n CoordinatorPeer option \<times> 'n CoordinateResponse list \<times> uuid list option \<times> uuid set" where
  "view c q =
     (hm_get (co_peers c) q, received c q, hm_get (co_subscriptions c) q,
      {r. tunnel_exists (co_tunnels c) q r})"

definition apart :: "uuid \<Rightarrow> uuid \<Rightarrow> ('n, 'd) Coordinator \<Rightarrow> bool" where
  "apart p q c \<longleftrightarrow>
     coordinator_inv c \<and> registered c p \<and> q \<noteq> p \<and> \<not> tunnel_exists (co_tunnels c) p q \<and>
     (q, p) \<notin> mm_rel (co_subscriptions c)"

text \<open>A step of \<open>p\<close>'s request that leaves \<open>q\<close> alone: they stay apart, and \<open>q\<close> sees no difference.\<close>

definition leaves_alone ::
  "uuid \<Rightarrow> uuid \<Rightarrow> (('n, 'd) Coordinator \<Rightarrow> ('n, 'd) Coordinator) \<Rightarrow> bool" where
  "leaves_alone p q f \<longleftrightarrow> (\<forall>c. apart p q c \<longrightarrow> apart p q (f c) \<and> view (f c) q = view c q)"

lemma leaves_aloneI:
  "(\<And>c. apart p q c \<Longrightarrow> apart p q (f c) \<and> view (f c) q = view c q) \<Longrightarrow> leaves_alone p q f"
  by (simp add: leaves_alone_def)

lemma leaves_aloneD:
  assumes "leaves_alone p q f" and "apart p q c"
  shows "apart p q (f c)" "view (f c) q = view c q"
  using assms by (simp_all add: leaves_alone_def)

lemma leaves_alone_opt:
  "(\<And>a. x = Some a \<Longrightarrow> leaves_alone p q (f a)) \<Longrightarrow> leaves_alone p q (opt_apply x f)"
  by (cases x) (simp_all add: leaves_alone_def opt_apply_def)

lemma leaves_alone_fold: "(\<And>a. leaves_alone p q (f a)) \<Longrightarrow> leaves_alone p q (fold f as)"
  unfolding leaves_alone_def by (induction "as") simp_all

lemma leaves_alone_send_to: "i \<noteq> q \<Longrightarrow> leaves_alone p q (send_to i r)"
  by (auto simp: leaves_alone_def apart_def view_def received_send_to coordinator_invD)

lemma leaves_alone_send_all: "q \<notin> set is \<Longrightarrow> leaves_alone p q (send_all is r)"
  by (simp add: leaves_alone_def apart_def view_def received_send_all coordinator_invD count_list_0_iff)

lemma leaves_alone_set_node: "leaves_alone p q (set_node p node)"
  by (auto simp: leaves_alone_def apart_def view_def registered_def get_set_node map_option_case
      split: option.split)

lemmas apart_basic = leaves_aloneD [OF leaves_alone_send_to] leaves_aloneD [OF leaves_alone_send_all]
  leaves_aloneD [OF leaves_alone_set_node]

lemma apart_not_peer: "apart p q c \<Longrightarrow> q \<notin> set (find_tunnel_peers (co_tunnels c) p)"
  by (auto simp: apart_def tun.peers_exists coordinator_invD)

lemma apart_not_subscriber: "apart p q c \<Longrightarrow> q \<notin> set (subscribers c p)"
  by (auto simp: apart_def subscribers_set coordinator_invD)

lemma leaves_alone_update_self: "leaves_alone p q (req_update_self p node)"
proof (rule leaves_aloneI)
  fix c :: "('a, 'b) Coordinator"
  assume "apart p q c"
  then have 1: "apart p q (set_node p node c)" "view (set_node p node c) q = view c q"
    by (simp_all add: apart_basic)
  define d where "d = send_all (find_tunnel_peers (co_tunnels c) p) (update_response p Node (Some node))
    (set_node p node c)"
  have 2: "apart p q d" "view d q = view c q"
    using apart_not_peer [OF 1(1)] 1 by (simp_all add: apart_basic d_def)
  then have "apart p q (send_all (subscribers d p) (update_response p Node (Some node)) d) \<and>
      view (send_all (subscribers d p) (update_response p Node (Some node)) d) q = view c q"
    using apart_not_subscriber [OF 2(1)] by (simp add: apart_basic)
  then show "apart p q (req_update_self p node c) \<and> view (req_update_self p node c) q = view c q"
    by (simp add: req_update_self_def d_def Let_def)
qed

lemma view_tunnels:
  "view (c \<lparr> co_tunnels := t \<rparr>) q = view c q \<longleftrightarrow>
     (\<forall>r. tunnel_exists t q r = tunnel_exists (co_tunnels c) q r)"
proof -
  have "received (c \<lparr> co_tunnels := t \<rparr>) q = received c q" by (rule received_cong) simp_all
  then show ?thesis by (auto simp: view_def)
qed

lemma leaves_alone_add_tunnel:
  assumes "dst \<noteq> q"
  shows "leaves_alone p q (req_add_tunnel U p dst)"
proof (rule leaves_aloneI)
  fix c :: "('a, 'b) Coordinator"
  assume apart: "apart p q c"
  then have q: "q \<noteq> p" "tunnels_inv (co_tunnels c)" by (auto simp: apart_def)
  define d where "d = c \<lparr> co_tunnels := tunnels_add p dst (co_tunnels c) \<rparr>"
  have send: "apart p q (send_to i r e) \<and> view (send_to i r e) q = view e q"
    if "apart p q e" "i \<in> {p, dst}" for i r and e :: "('a, 'b) Coordinator"
    using that assms q(1) by (auto simp: apart_basic)
  show "apart p q (req_add_tunnel U p dst c) \<and> view (req_add_tunnel U p dst c) q = view c q"
  proof (cases "dst = p \<or> hm_get (co_peers c) dst = None")
    case True
    with send [OF apart] show ?thesis by (auto simp: req_add_tunnel_def)
  next
    case False
    then have "coordinator_inv d"
      unfolding d_def using apart q(2)
      by (intro coordinator_inv_tunnels) (auto simp: apart_def registered_def tun.inv_add tun.rel_add)
    with apart assms False q have d: "apart p q d" "view d q = view c q"
      unfolding d_def view_tunnels
      by (auto simp: apart_def tun.exists_add registered_def doubleton_eq_iff)
    have "req_add_tunnel U p dst c =
        opt_apply (node_of d p) (\<lambda>node. send_to dst (update_response p Node (Some node)))
          (opt_apply (node_of d dst) (\<lambda>node. send_to p (update_response dst Node (Some node))) d)"
      using False
      by (auto simp: req_add_tunnel_def Let_def d_def opt_apply_def node_of_def split: option.split)
    with d send show ?thesis by (auto simp: opt_apply_def split: option.split)
  qed
qed

lemma leaves_alone_remove_tunnel: "leaves_alone p q (req_remove_tunnel U p dst)"
proof (rule leaves_aloneI)
  fix c :: "('a, 'b) Coordinator"
  assume apart: "apart p q c"
  then have q: "q \<noteq> p" "p \<noteq> q" by (auto simp: apart_def)
  show "apart p q (req_remove_tunnel U p dst c) \<and> view (req_remove_tunnel U p dst c) q = view c q"
  proof (cases "tunnel_exists (co_tunnels c) p dst")
    case False
    with apart q show ?thesis by (simp add: req_remove_tunnel_def apart_basic)
  next
    case True
    with apart have dst: "dst \<noteq> q" by (auto simp: apart_def)
    define d where "d = send_to dst (update_response p Disconnected None)
      (send_to p (update_response dst Disconnected None) c)"
    have d: "apart p q d" "view d q = view c q"
      using apart q dst by (simp_all add: d_def apart_basic apart_basic(2) [where p = p])
    have eq: "req_remove_tunnel U p dst c = d \<lparr> co_tunnels := tunnels_remove p dst (co_tunnels d) \<rparr>"
      using True by (simp add: req_remove_tunnel_def d_def Let_def)
    have "coordinator_inv (req_remove_tunnel U p dst c)"
      using apart by (simp add: apart_def)
    moreover have "tunnels_inv (co_tunnels d)" using d(1) by (auto simp: apart_def)
    ultimately have "apart p q (req_remove_tunnel U p dst c)"
      "view (req_remove_tunnel U p dst c) q = view d q"
      using d(1) q dst unfolding eq view_tunnels
      by (auto simp: apart_def registered_def tun.exists_remove doubleton_eq_iff)
    with d(2) show ?thesis by simp
  qed
qed

lemma leaves_alone_ready: "leaves_alone p q (req_ready_one U p dst)"
proof (rule leaves_aloneI)
  fix c :: "('a, 'b) Coordinator"
  assume apart: "apart p q c"
  show "apart p q (req_ready_one U p dst c) \<and> view (req_ready_one U p dst c) q = view c q"
  proof (cases "tunnel_exists (co_tunnels c) p dst")
    case True
    with apart have "dst \<noteq> q" by (auto simp: apart_def)
    with True apart show ?thesis by (simp add: req_ready_one_def apart_basic)
  next
    case False
    have "p \<noteq> q" using apart by (auto simp: apart_def)
    with False apart show ?thesis by (simp add: req_ready_one_def apart_basic)
  qed
qed

lemma view_forget_peer:
  assumes "apart p q c"
  shows "view (forget_peer p c) q = view c q"
proof -
  have inv: "coordinator_inv c" and q: "q \<noteq> p" and no: "\<not> tunnel_exists (co_tunnels c) q p"
    using assms tun.exists_sym [of "co_tunnels c" p q] by (auto simp: apart_def)
  note wf = coordinator_invD [OF inv]
  have "{r. tunnel_exists (co_tunnels (forget_peer p c)) q r} = {r. tunnel_exists (co_tunnels c) q r}"
    using no q by (auto simp: tun.exists_remove_all [OF wf(3)])
  moreover have "hm_get (co_subscriptions (forget_peer p c)) q = hm_get (co_subscriptions c) q"
    using wf(2) q by (simp add: mm_wf_def hm.get_remove)
  ultimately show ?thesis
    using wf(1) q by (simp add: view_def get_forget_peer received_forget_peer)
qed

lemma view_leave: "apart p q c \<Longrightarrow> view (leave kind p c) q = view c q"
  by (simp add: leave_def view_forget_peer apart_basic apart_not_peer)

text \<open>
  Isolation: whatever a peer puts into a request (a new node, tunnels to add or remove,
  handshakes, leaving), a peer that shares no tunnel with it, is not subscribed to it and is not the
  peer it asks to add a tunnel to notices nothing: its registration, the messages it receives, its
  subscriptions and its tunnels are those it had before.
\<close>

theorem request_isolation:
  fixes c :: "('n, 'd) Coordinator"
  assumes "coordinator_inv c" and "q \<noteq> p" and "\<not> tunnel_exists (co_tunnels c) p q"
    and "(q, p) \<notin> mm_rel (co_subscriptions c)" and "rq_add_tunnel req \<noteq> Some q"
  shows "view (fst (process_request U p req c)) q = view c q"
proof (cases "co_poisoned c \<or> \<not> registered c p")
  case True
  then show ?thesis by (simp add: process_request_refused)
next
  case False
  with assms have apart: "apart p q c" by (simp add: apart_def)
  have "leaves_alone p q (opt_apply (rq_add_tunnel req) (req_add_tunnel U p) :: ('n, 'd) Coordinator \<Rightarrow> _)"
    using assms(5) by (intro leaves_alone_opt leaves_alone_add_tunnel) auto
  moreover have
    "leaves_alone p q (opt_apply (rq_update_self req) (req_update_self p) :: ('n, 'd) Coordinator \<Rightarrow> _)"
    "leaves_alone p q (opt_apply (rq_remove_tunnel req) (req_remove_tunnel U p) :: ('n, 'd) Coordinator \<Rightarrow> _)"
    by (intro leaves_alone_opt leaves_alone_remove_tunnel leaves_alone_update_self)+
  ultimately have stage: "leaves_alone p q (tunnel_stage U p req :: ('n, 'd) Coordinator \<Rightarrow> _)"
    unfolding leaves_alone_def tunnel_stage_def by simp
  note stage = leaves_aloneD [OF stage apart]
  have ready: "leaves_alone p q (opt_apply (rq_ready_for_handshake req) (fold (req_ready_one U p))
      :: ('n, 'd) Coordinator \<Rightarrow> _)"
    by (intro leaves_alone_opt leaves_alone_fold leaves_alone_ready)
  show ?thesis
    using False leaves_aloneD(2) [OF ready stage(1)] view_leave [OF stage(1)] stage(2)
    by (simp add: process_request_stage)
qed

theorem request_isolation_witness:
  "view (fst (process_request hyphenated_codec 2
      (default_request \<lparr> rq_update_self := Some 7, rq_disconnect := Some True \<rparr>)
      (demo_coordinator hyphenated_codec))) 3 = view (demo_coordinator hyphenated_codec) 3"
proof -
  have "\<not> tunnel_exists (co_tunnels (demo_coordinator U)) 2 3"
    "hm_get (co_subscriptions (demo_coordinator U)) 3 = None" for U
    by code_simp+
  then show ?thesis
    by (intro request_isolation [OF demo_coordinator_inv]) (simp_all add: default_request_def mm_rel_def)
qed

section \<open>Sessions\<close>

text \<open>
  Closing a session: closing with a session identifier that is not the peer's current one
  changes nothing. Otherwise the peer and all its tunnels are gone, no other tunnel is touched, and
  each peer it shared a tunnel with is told once that it was lost, and nobody else hears of it.
\<close>

theorem close_coordination_exact:
  fixes c :: "('n, 'd) Coordinator" and p q s :: uuid
  assumes inv: "coordinator_inv c" and "\<not> co_poisoned c" and "q \<noteq> p"
  defines "c' \<equiv> close_coordination p s c"
  shows "if map_option cp_session_id (hm_get (co_peers c) p) = Some s
    then \<not> registered c' p \<and>
         tunnel_exists (co_tunnels c') a b = (tunnel_exists (co_tunnels c) a b \<and> a \<noteq> p \<and> b \<noteq> p) \<and>
         received c' q = received c q @
           (if tunnel_exists (co_tunnels c) p q \<and> listens c q \<noteq> None
            then [update_response p Lost None] else [])
    else c' = c"
proof (cases "map_option cp_session_id (hm_get (co_peers c) p) = Some s")
  case False
  then show ?thesis by (auto simp: c'_def close_coordination_def split: option.split)
next
  case True
  define d where "d = send_all (find_tunnel_peers (co_tunnels c) p) (update_response p Lost None) c"
  note wf = coordinator_invD [OF inv]
  have c': "c' = forget_peer p d"
    using True assms(2) by (auto simp: c'_def close_coordination_def leave_def d_def)
  have "received c' q = received d q"
    using wf(1) assms(3) by (simp add: c' d_def received_forget_peer)
  moreover have "received d q = received c q @
      (if tunnel_exists (co_tunnels c) p q \<and> listens c q \<noteq> None
       then [update_response p Lost None] else [])"
    using received_send_distinct [OF wf(4) tun.peers_distinct [OF wf(3)], of p "update_response p Lost None" q]
      tun.peers_exists [OF wf(3)]
    by (simp add: d_def)
  moreover have "\<not> registered c' p"
    using wf(1) by (simp add: c' d_def registered_def get_forget_peer)
  moreover have "tunnel_exists (co_tunnels c') a b = (tunnel_exists (co_tunnels c) a b \<and> a \<noteq> p \<and> b \<noteq> p)"
    by (simp add: c' d_def tun.exists_remove_all [OF wf(3)])
  ultimately show ?thesis using True by simp
qed

theorem close_coordination_exact_witness:
  "received (close_coordination 1 10 (demo_coordinator hyphenated_codec)) 2 = [update_response 1 Lost None] \<and>
   \<not> registered (close_coordination 1 10 (demo_coordinator hyphenated_codec)) 1"
proof -
  have "map_option cp_session_id (hm_get (co_peers (demo_coordinator U)) 1) = Some 10" for U
    by code_simp
  then show ?thesis
    using close_coordination_exact [OF demo_coordinator_inv demo_coordinator_state(1),
        where p = 1 and q = 2 and s = 10]
    by (simp add: demo_coordinator_state)
qed

text \<open>The state after a new session is opened, spelled out.\<close>

lemma received_open_session:
  assumes "coordinator_inv c"
  shows "received (open_session now s p name kind c) q = (if q = p then [] else received c q)"
proof (cases "q = p")
  case True
  then show ?thesis by (simp add: received_def listens_def open_session_def hm.get_insert)
next
  case False
  have "listens c q = Some tx \<Longrightarrow> tx < length (co_channels c)" for tx
    using assms by (auto simp: coordinator_inv_def channels_ok_def)
  moreover have "listens (open_session now s p name kind c) q = listens c q"
    using False by (simp add: listens_def open_session_def hm.get_insert)
  ultimately show ?thesis
    using False by (cases "listens c q") (simp_all add: received_def open_session_def nth_append)
qed

lemma map_filter_set: "set (List.map_filter f xs) = {y. \<exists>x \<in> set xs. f x = Some y}"
  by (force simp: map_filter_def)

text \<open>
  Taking over a session: a peer that coordinates again keeps its tunnels. Its old channel ends
  with the overwrite error, its new channel starts with the current nodes of exactly the peers it
  shares a tunnel with (no message when none has announced a node), no other peer receives anything,
  and closing the replaced session afterwards changes nothing.
\<close>

theorem session_takeover:
  fixes c :: "('n, 'd) Coordinator" and now :: int and session p :: uuid and name :: string
    and kind :: PeerKind
  assumes inv: "coordinator_inv c" and "\<not> co_poisoned c" and "listens c p = Some tx"
    and "old \<noteq> session"
  defines "c' \<equiv> fst (coordinate now session p name kind c)"
  shows "co_tunnels c' = co_tunnels c \<and>
    co_channels c' ! tx = co_channels c ! tx @ [error_response ''overwritten by new connection''] \<and>
    (q \<noteq> p \<longrightarrow> received c' q = received c q) \<and>
    (\<exists>us. received c' p = (if us = [] then [] else [\<lparr> re_peer_updates = us, re_error = None \<rparr>]) \<and>
          set us = {\<lparr> pu_id = r, pu_kind = Node, pu_node = Some node \<rparr> | r node.
                      tunnel_exists (co_tunnels c) p r \<and> node_of c r = Some node}) \<and>
    close_coordination p old c' = c'"
proof -
  define c1 where "c1 = send_to p (error_response ''overwritten by new connection'') c"
  define c2 where "c2 = open_session now session p name kind c1"
  define us where "us = initial_updates c2 p"
  have c': "c' = (if us \<noteq> [] then send_to p \<lparr> re_peer_updates = us, re_error = None \<rparr> c2 else c2)"
    using assms(2) by (simp add: c'_def coordinate_def c1_def c2_def us_def Let_def)
  note wf = coordinator_invD [OF inv]
  have inv1: "coordinator_inv c1" and inv2: "coordinator_inv c2"
    using inv by (simp_all add: c1_def c2_def)
  have tx: "tx < length (co_channels c)" using wf(4) assms(3) by (auto simp: channels_ok_def)
  have new: "listens c2 p = Some (length (co_channels c))"
    by (simp add: c2_def c1_def listens_def open_session_def hm.get_insert)
  have tun: "co_tunnels c2 = co_tunnels c" by (simp add: c2_def c1_def open_session_def)
  have "co_channels c2 ! tx = co_channels c ! tx @ [error_response ''overwritten by new connection'']"
    using tx by (simp add: c2_def open_session_def c1_def channels_send_to [OF assms(3)] nth_append)
  then have old: "co_channels c' ! tx = co_channels c ! tx @ [error_response ''overwritten by new connection'']"
    using tx by (simp add: c' channels_send_to [OF new])
  have rec2: "received c2 q = (if q = p then [] else received c q)" for q
    using wf(4) by (simp add: c2_def received_open_session [OF inv1]) (simp add: c1_def received_send_to)
  have rec: "received c' q = (if q \<noteq> p then received c q else if us = [] then []
      else [\<lparr> re_peer_updates = us, re_error = None \<rparr>])" for q
    using new coordinator_invD(4) [OF inv2] by (auto simp: c' received_send_to rec2)
  have no_self: "\<not> tunnel_exists (co_tunnels c) p p"
    using wf(5) by (auto simp: tun.exists_rel [OF wf(3)] tunnel_ends_ok_def)
  have node: "node_of c2 r = node_of c r" if "r \<noteq> p" for r
    using that by (simp add: node_of_def c2_def c1_def open_session_def hm.get_insert)
  have us: "set us = {\<lparr> pu_id = r, pu_kind = Node, pu_node = Some node \<rparr> | r node.
      tunnel_exists (co_tunnels c) p r \<and> node_of c r = Some node}"
    using no_self node
    by (force simp: us_def initial_updates_def map_filter_set tun tun.peers_exists [OF wf(3)])
  have "hm_get (co_peers c') p = hm_get (co_peers c2) p" by (simp add: c')
  then have "close_coordination p old c' = c'"
    using assms(4) by (simp add: close_coordination_def c2_def open_session_def hm.get_insert)
  with old rec us show ?thesis by (auto simp: c' tun)
qed

theorem session_takeover_witness:
  "\<exists>us. received (fst (coordinate 5 30 2 ''b'' Client (demo_coordinator hyphenated_codec))) 2 =
      (if us = [] then [] else [\<lparr> re_peer_updates = us, re_error = None \<rparr>]) \<and>
    close_coordination 2 20 (fst (coordinate 5 30 2 ''b'' Client (demo_coordinator hyphenated_codec))) =
      fst (coordinate 5 30 2 ''b'' Client (demo_coordinator hyphenated_codec))"
proof -
  have "(20 :: uuid) \<noteq> 30" by simp
  from session_takeover [OF demo_coordinator_inv [of hyphenated_codec] demo_coordinator_state(1,3) this,
      where q = 3 and now = 5 and name = "''b''" and kind = Client]
  show ?thesis by blast
qed

end
