(* ===== verification/Derp_Wire.thy ===== *)
theory Derp_Wire
  imports Byte_Codec
begin

text \<open>
  The DERP wire format of \<open>crates/coder-connectivity/src/derp.rs\<close>: node keys, their hexadecimal
  text, frame types, frames and their payloads. A node key is its list of bytes; \<open>key_ok\<close> is the
  length the Rust array type fixes, and the parsing functions are shown to produce nothing else. Rust
  strings that come from outside are lists of Unicode scalar values, since \<open>hex_decode\<close> mixes the
  length in bytes with an iteration over characters.
\<close>

unbundle bit_operations_syntax

section \<open>Node keys\<close>

definition NODE_KEY_LEN :: nat where
  "NODE_KEY_LEN = 32"

type_synonym NodeKey = "byte list"

definition key_ok :: "NodeKey \<Rightarrow> bool" where
  "key_ok k \<longleftrightarrow> length k = NODE_KEY_LEN"

definition from_slice :: "byte list \<Rightarrow> NodeKey option" where
  "from_slice bytes = (if length bytes \<noteq> NODE_KEY_LEN then None else Some bytes)"

definition is_zero :: "NodeKey \<Rightarrow> bool" where
  "is_zero k \<longleftrightarrow> list_all (\<lambda>b. b = 0) k"

text \<open>Two lower-case hexadecimal digits per byte.\<close>

definition hex_char :: "nat \<Rightarrow> char" where
  "hex_char d = char_of (if d < 10 then 48 + d else 87 + d)"

definition byte_hex :: "byte \<Rightarrow> string" where
  "byte_hex b = [hex_char (unat b div 16), hex_char (unat b mod 16)]"

definition node_key_display :: "NodeKey \<Rightarrow> string" where
  "node_key_display k = concat (map byte_hex k)"

definition node_key_debug :: "NodeKey \<Rightarrow> string" where
  "node_key_debug k = ''NodeKey('' @ concat (map byte_hex (take 4 k)) @ ''..)''"

section \<open>Reading hexadecimal text\<close>

text \<open>A Unicode scalar value, its length in UTF-8, and \<open>char::to_digit(16)\<close>.\<close>

type_synonym scalar = nat

definition utf8_len :: "scalar \<Rightarrow> nat" where
  "utf8_len c = (if c < 128 then 1 else if c < 2048 then 2 else if c < 65536 then 3 else 4)"

definition scalars :: "string \<Rightarrow> scalar list" where
  "scalars s = map of_char s"

definition to_digit16 :: "scalar \<Rightarrow> nat option" where
  "to_digit16 c =
     (if 48 \<le> c \<and> c \<le> 57 then Some (c - 48)
      else if 97 \<le> c \<and> c \<le> 102 then Some (c - 87)
      else if 65 \<le> c \<and> c \<le> 70 then Some (c - 55)
      else None)"

fun hex_decode_loop :: "scalar list \<Rightarrow> (scalar list, byte list) result" where
  "hex_decode_loop (hi # lo # cs) =
     (case to_digit16 hi of
        None \<Rightarrow> Err (scalars ''invalid hex char: '' @ [hi])
      | Some h \<Rightarrow>
          (case to_digit16 lo of
             None \<Rightarrow> Err (scalars ''invalid hex char: '' @ [lo])
           | Some l \<Rightarrow>
               and_then (hex_decode_loop cs)
                 (\<lambda>bytes. Ok ((push_bit 4 (word_of_nat h) OR word_of_nat l) # bytes))))"
| "hex_decode_loop cs = Ok []"

definition hex_decode :: "scalar list \<Rightarrow> (scalar list, byte list) result" where
  "hex_decode s =
     (if sum_list (map utf8_len s) mod 2 \<noteq> 0 then Err (scalars ''hex string must have even length'')
      else hex_decode_loop s)"

definition deserialize_node_key :: "scalar list \<Rightarrow> (scalar list, NodeKey) result" where
  "deserialize_node_key s =
     and_then (hex_decode s)
       (\<lambda>bytes. case from_slice bytes of
          Some k \<Rightarrow> Ok k
        | None \<Rightarrow> Err (scalars ''node key must be 32 bytes''))"

section \<open>Frame types\<close>

datatype FrameType = ServerKey | ClientInfo | MeshKey | SendPacket | RecvPacket | KeepAlive
  | NotePreferred | PeerGone | PeerPresent | WatchConns | ClosePeer | Ping | Pong | ServerInfo

fun from_byte :: "byte \<Rightarrow> FrameType option" where
  "from_byte b =
     (if b = 0x01 then Some ServerKey
      else if b = 0x02 then Some ClientInfo
      else if b = 0x03 then Some MeshKey
      else if b = 0x04 then Some SendPacket
      else if b = 0x05 then Some RecvPacket
      else if b = 0x06 then Some KeepAlive
      else if b = 0x07 then Some NotePreferred
      else if b = 0x08 then Some PeerGone
      else if b = 0x09 then Some PeerPresent
      else if b = 0x10 then Some WatchConns
      else if b = 0x11 then Some ClosePeer
      else if b = 0x12 then Some Ping
      else if b = 0x13 then Some Pong
      else if b = 0x14 then Some ServerInfo
      else None)"

declare from_byte.simps [simp del]

fun as_byte :: "FrameType \<Rightarrow> byte" where
  "as_byte ServerKey = 0x01"
| "as_byte ClientInfo = 0x02"
| "as_byte MeshKey = 0x03"
| "as_byte SendPacket = 0x04"
| "as_byte RecvPacket = 0x05"
| "as_byte KeepAlive = 0x06"
| "as_byte NotePreferred = 0x07"
| "as_byte PeerGone = 0x08"
| "as_byte PeerPresent = 0x09"
| "as_byte WatchConns = 0x10"
| "as_byte ClosePeer = 0x11"
| "as_byte Ping = 0x12"
| "as_byte Pong = 0x13"
| "as_byte ServerInfo = 0x14"

text \<open>The derived \<open>Debug\<close> text.\<close>

fun frame_type_debug :: "FrameType \<Rightarrow> string" where
  "frame_type_debug ServerKey = ''ServerKey''"
| "frame_type_debug ClientInfo = ''ClientInfo''"
| "frame_type_debug MeshKey = ''MeshKey''"
| "frame_type_debug SendPacket = ''SendPacket''"
| "frame_type_debug RecvPacket = ''RecvPacket''"
| "frame_type_debug KeepAlive = ''KeepAlive''"
| "frame_type_debug NotePreferred = ''NotePreferred''"
| "frame_type_debug PeerGone = ''PeerGone''"
| "frame_type_debug PeerPresent = ''PeerPresent''"
| "frame_type_debug WatchConns = ''WatchConns''"
| "frame_type_debug ClosePeer = ''ClosePeer''"
| "frame_type_debug Ping = ''Ping''"
| "frame_type_debug Pong = ''Pong''"
| "frame_type_debug ServerInfo = ''ServerInfo''"

section \<open>Frames\<close>

definition FRAME_HEADER_SIZE :: nat where
  "FRAME_HEADER_SIZE = 5"

definition MAX_FRAME_SIZE :: "32 word" where
  "MAX_FRAME_SIZE = push_bit 20 10"

datatype FrameError = BufferTooSmall nat | UnknownFrameType byte | PayloadTooLarge "32 word"
  | IncompletePayload "32 word" nat | InvalidPayload FrameType string

fun frame_error_display :: "FrameError \<Rightarrow> string" where
  "frame_error_display (BufferTooSmall n) =
     ''buffer too small for frame header: need '' @ nat_str FRAME_HEADER_SIZE @ '' bytes, got '' @ nat_str n"
| "frame_error_display (UnknownFrameType b) = ''unknown frame type: 0x'' @ byte_hex b"
| "frame_error_display (PayloadTooLarge n) =
     ''frame payload too large: '' @ nat_str (unat n) @ '' bytes (max '' @
     nat_str (unat MAX_FRAME_SIZE) @ '')''"
| "frame_error_display (IncompletePayload expected actual) =
     ''incomplete frame: expected '' @ nat_str (unat expected) @ '' payload bytes, got '' @ nat_str actual"
| "frame_error_display (InvalidPayload t reason) =
     ''invalid payload for '' @ frame_type_debug t @ '': '' @ reason"

record DerpFrame =
  df_type :: FrameType
  df_payload :: "byte list"

definition frame_to_bytes :: "DerpFrame \<Rightarrow> byte list" where
  "frame_to_bytes f =
     (let payload_len = (word_of_nat (length (df_payload f)) :: 32 word)
      in as_byte (df_type f) # to_be_bytes payload_len @ df_payload f)"

definition server_key_frame :: "NodeKey \<Rightarrow> DerpFrame" where
  "server_key_frame key = \<lparr> df_type = ServerKey, df_payload = key \<rparr>"

definition client_info_frame :: "NodeKey \<Rightarrow> DerpFrame" where
  "client_info_frame key = \<lparr> df_type = ClientInfo, df_payload = key \<rparr>"

definition mesh_key_frame :: "byte list \<Rightarrow> DerpFrame" where
  "mesh_key_frame key = \<lparr> df_type = MeshKey, df_payload = key \<rparr>"

definition send_packet_frame :: "NodeKey \<Rightarrow> byte list \<Rightarrow> DerpFrame" where
  "send_packet_frame dst data = \<lparr> df_type = SendPacket, df_payload = dst @ data \<rparr>"

definition recv_packet_frame :: "NodeKey \<Rightarrow> byte list \<Rightarrow> DerpFrame" where
  "recv_packet_frame src data = \<lparr> df_type = RecvPacket, df_payload = src @ data \<rparr>"

definition keep_alive_frame :: DerpFrame where
  "keep_alive_frame = \<lparr> df_type = KeepAlive, df_payload = [] \<rparr>"

definition note_preferred_frame :: "bool \<Rightarrow> DerpFrame" where
  "note_preferred_frame preferred =
     \<lparr> df_type = NotePreferred, df_payload = [if preferred then 1 else 0] \<rparr>"

definition peer_gone_frame :: "NodeKey \<Rightarrow> DerpFrame" where
  "peer_gone_frame key = \<lparr> df_type = PeerGone, df_payload = key \<rparr>"

definition peer_present_frame :: "NodeKey \<Rightarrow> DerpFrame" where
  "peer_present_frame key = \<lparr> df_type = PeerPresent, df_payload = key \<rparr>"

definition watch_conns_frame :: DerpFrame where
  "watch_conns_frame = \<lparr> df_type = WatchConns, df_payload = [] \<rparr>"

definition ping_frame :: "byte list \<Rightarrow> DerpFrame" where
  "ping_frame data = \<lparr> df_type = Ping, df_payload = data \<rparr>"

definition pong_frame :: "byte list \<Rightarrow> DerpFrame" where
  "pong_frame data = \<lparr> df_type = Pong, df_payload = data \<rparr>"

definition parse_frame :: "byte list \<Rightarrow> (FrameError, DerpFrame \<times> nat) result" where
  "parse_frame buf =
     (if length buf < FRAME_HEADER_SIZE then Err (BufferTooSmall (length buf))
      else case from_byte (buf ! 0) of
        None \<Rightarrow> Err (UnknownFrameType (buf ! 0))
      | Some frame_type \<Rightarrow>
          let payload_len = (from_be_bytes [buf ! 1, buf ! 2, buf ! 3, buf ! 4] :: 32 word);
              total_len = FRAME_HEADER_SIZE + unat payload_len
          in if payload_len > MAX_FRAME_SIZE then Err (PayloadTooLarge payload_len)
             else if length buf < total_len then
               Err (IncompletePayload payload_len (length buf - FRAME_HEADER_SIZE))
             else
               Ok (\<lparr> df_type = frame_type,
                     df_payload = take (total_len - FRAME_HEADER_SIZE) (drop FRAME_HEADER_SIZE buf) \<rparr>,
                   total_len))"

definition parse_send_packet :: "byte list \<Rightarrow> (FrameError, NodeKey \<times> byte list) result" where
  "parse_send_packet payload =
     (if length payload < NODE_KEY_LEN then
        Err (InvalidPayload SendPacket
          (''payload too short for destination key: '' @ nat_str (length payload) @ '' bytes''))
      else case from_slice (take NODE_KEY_LEN payload) of
        None \<Rightarrow> Err (InvalidPayload SendPacket ''invalid destination key length'')
      | Some dst \<Rightarrow> Ok (dst, drop NODE_KEY_LEN payload))"

definition parse_recv_packet :: "byte list \<Rightarrow> (FrameError, NodeKey \<times> byte list) result" where
  "parse_recv_packet payload =
     (if length payload < NODE_KEY_LEN then
        Err (InvalidPayload RecvPacket
          (''payload too short for source key: '' @ nat_str (length payload) @ '' bytes''))
      else case from_slice (take NODE_KEY_LEN payload) of
        None \<Rightarrow> Err (InvalidPayload RecvPacket ''invalid source key length'')
      | Some src \<Rightarrow> Ok (src, drop NODE_KEY_LEN payload))"

definition parse_peer_key :: "FrameType \<Rightarrow> byte list \<Rightarrow> (FrameError, NodeKey) result" where
  "parse_peer_key frame_type payload =
     (case from_slice payload of
        Some k \<Rightarrow> Ok k
      | None \<Rightarrow> Err (InvalidPayload frame_type
          (''expected '' @ nat_str NODE_KEY_LEN @ '' bytes, got '' @ nat_str (length payload))))"

section \<open>Frames survive the wire\<close>

lemma from_as_byte [simp]: "from_byte (as_byte t) = Some t"
  by (cases t) (simp_all add: from_byte.simps)

lemma as_from_byte: "from_byte b = Some t \<Longrightarrow> as_byte t = b"
  by (auto simp: from_byte.simps split: if_splits)

definition derp_frame_ok :: "DerpFrame \<Rightarrow> bool" where
  "derp_frame_ok f \<longleftrightarrow> length (df_payload f) \<le> unat MAX_FRAME_SIZE"

lemma unat_MAX_FRAME_SIZE: "unat MAX_FRAME_SIZE = 10 * 2 ^ 20"
  by (simp add: MAX_FRAME_SIZE_def push_bit_eq_mult)

lemma unat_payload_len:
  "derp_frame_ok f \<Longrightarrow> unat (word_of_nat (length (df_payload f)) :: 32 word) = length (df_payload f)"
  by (simp add: derp_frame_ok_def unat_MAX_FRAME_SIZE unsigned_of_nat take_bit_nat_eq_self)

lemma payload_len_le:
  "derp_frame_ok f \<Longrightarrow> (word_of_nat (length (df_payload f)) :: 32 word) \<le> MAX_FRAME_SIZE"
  by (simp add: word_le_nat_alt unat_payload_len) (simp add: derp_frame_ok_def)

lemma to_be_bytes_u32:
  obtains b1 b2 b3 b4 where "to_be_bytes (w :: 32 word) = [b1, b2, b3, b4]"
    and "from_be_bytes [b1, b2, b3, b4] = w"
proof -
  have "length (to_be_bytes w) = Suc (Suc (Suc (Suc 0)))" by simp
  then obtain b1 b2 b3 b4 where b: "to_be_bytes w = [b1, b2, b3, b4]"
    unfolding length_Suc_conv by auto
  with from_to_be_bytes [of w] show thesis by (intro that [OF b]) simp
qed

lemma parse_frame_to_bytes:
  assumes "derp_frame_ok f"
  shows "parse_frame (frame_to_bytes f @ rest) = Ok (f, FRAME_HEADER_SIZE + length (df_payload f))"
proof -
  obtain b1 b2 b3 b4 where b:
    "to_be_bytes (word_of_nat (length (df_payload f)) :: 32 word) = [b1, b2, b3, b4]"
    "from_be_bytes [b1, b2, b3, b4] = (word_of_nat (length (df_payload f)) :: 32 word)"
    by (rule to_be_bytes_u32)
  show ?thesis
    using payload_len_le [OF assms]
    by (simp add: frame_to_bytes_def b Let_def parse_frame_def FRAME_HEADER_SIZE_def
        unat_payload_len [OF assms])
qed

lemma length_frame_to_bytes: "length (frame_to_bytes f) = FRAME_HEADER_SIZE + length (df_payload f)"
  by (simp add: frame_to_bytes_def FRAME_HEADER_SIZE_def Let_def)

text \<open>A reader of frames, for the shared interface of self-delimiting formats.\<close>

definition next_frame :: "byte list \<times> 't \<Rightarrow> (FrameError, DerpFrame \<times> byte list \<times> 't) result" where
  "next_frame r = and_then (parse_frame (fst r)) (\<lambda>(f, n). Ok (f, drop n (fst r), snd r))"

interpretation derp: prefix_codec frame_to_bytes next_frame derp_frame_ok
  by unfold_locales (simp add: next_frame_def parse_frame_to_bytes length_frame_to_bytes)

lemma parse_frame_Ok:
  assumes "parse_frame buf = Ok (f, n)"
  shows "derp_frame_ok f \<and> n = FRAME_HEADER_SIZE + length (df_payload f) \<and>
    n \<le> length buf \<and> take n buf = frame_to_bytes f"
proof -
  define len where "len = (from_be_bytes [buf ! 1, buf ! 2, buf ! 3, buf ! 4] :: 32 word)"
  from assms have len: "5 + unat len \<le> length buf" "len \<le> MAX_FRAME_SIZE"
    and t: "from_byte (buf ! 0) = Some (df_type f)"
    and pay: "df_payload f = take (unat len) (drop 5 buf)" and n: "n = 5 + unat len"
    by (auto simp: parse_frame_def len_def Let_def FRAME_HEADER_SIZE_def
        split: if_splits option.splits)
  then have l: "length (df_payload f) = unat len" by simp
  have "take n buf = take 5 buf @ take (unat len) (drop 5 buf)"
    unfolding n by (rule take_add)
  moreover have "take 5 buf = [buf ! 0, buf ! 1, buf ! 2, buf ! 3, buf ! 4]"
    using len(1) by (intro nth_equalityI) (auto simp: less_Suc_eq numeral_eq_Suc)
  moreover have "to_be_bytes len = [buf ! 1, buf ! 2, buf ! 3, buf ! 4]"
    unfolding len_def by (rule to_from_be_bytes) simp_all
  ultimately have "take n buf = frame_to_bytes f"
    by (simp add: frame_to_bytes_def l as_from_byte [OF t]) (simp add: pay)
  with len l n show ?thesis
    by (simp add: derp_frame_ok_def FRAME_HEADER_SIZE_def word_le_nat_alt)
qed

text \<open>
  The DERP frame format is exact: a buffer parses as a frame consuming \<open>n\<close> bytes if and only if
  the payload is at most ten mebibytes and the first \<open>n\<close> bytes of the buffer are the frame's own
  serialisation. So what a peer writes is read back unchanged whatever follows it, and no two byte
  strings are taken for the same frame.
\<close>

theorem derp_frame_exact:
  "parse_frame buf = Ok (f, n) \<longleftrightarrow>
     length (df_payload f) \<le> 10 * 2 ^ 20 \<and> n = 5 + length (df_payload f) \<and>
     (\<exists>rest. buf = frame_to_bytes f @ rest)"
proof
  assume "parse_frame buf = Ok (f, n)"
  from parse_frame_Ok [OF this] show "length (df_payload f) \<le> 10 * 2 ^ 20 \<and>
      n = 5 + length (df_payload f) \<and> (\<exists>rest. buf = frame_to_bytes f @ rest)"
    by (auto simp: derp_frame_ok_def unat_MAX_FRAME_SIZE FRAME_HEADER_SIZE_def)
      (metis append_take_drop_id)
next
  assume "length (df_payload f) \<le> 10 * 2 ^ 20 \<and> n = 5 + length (df_payload f) \<and>
    (\<exists>rest. buf = frame_to_bytes f @ rest)"
  then show "parse_frame buf = Ok (f, n)"
    by (auto simp: parse_frame_to_bytes derp_frame_ok_def unat_MAX_FRAME_SIZE FRAME_HEADER_SIZE_def)
qed

section \<open>Payloads carry keys of the right length\<close>

lemma from_slice_eq: "from_slice bs = Some k \<longleftrightarrow> k = bs \<and> key_ok k"
  by (auto simp: from_slice_def key_ok_def)

lemma parse_send_packet_append [simp]:
  "key_ok dst \<Longrightarrow> parse_send_packet (dst @ data) = Ok (dst, data)"
  by (simp add: parse_send_packet_def key_ok_def from_slice_def)

lemma parse_recv_packet_append [simp]:
  "key_ok src \<Longrightarrow> parse_recv_packet (src @ data) = Ok (src, data)"
  by (simp add: parse_recv_packet_def key_ok_def from_slice_def)

lemma parse_peer_key_ok [simp]: "key_ok k \<Longrightarrow> parse_peer_key t k = Ok k"
  by (simp add: parse_peer_key_def key_ok_def from_slice_def)

lemma parse_send_packet_Ok:
  "parse_send_packet p = Ok (dst, data) \<Longrightarrow> key_ok dst \<and> p = dst @ data"
  by (auto simp: parse_send_packet_def from_slice_eq split: if_splits option.splits)

lemma parse_recv_packet_Ok:
  "parse_recv_packet p = Ok (src, data) \<Longrightarrow> key_ok src \<and> p = src @ data"
  by (auto simp: parse_recv_packet_def from_slice_eq split: if_splits option.splits)

lemma parse_peer_key_Ok: "parse_peer_key t p = Ok k \<Longrightarrow> key_ok k \<and> p = k"
  by (auto simp: parse_peer_key_def from_slice_eq split: option.splits)

section \<open>Keys survive their text\<close>

lemma to_digit_hex: "d < 16 \<Longrightarrow> to_digit16 (of_char (hex_char d)) = Some d"
  by (auto simp: to_digit16_def hex_char_def)

lemma hex_ascii: "d < 16 \<Longrightarrow> utf8_len (of_char (hex_char d)) = 1"
  by (auto simp: utf8_len_def hex_char_def)

lemma byte_nibbles:
  "push_bit 4 (word_of_nat (unat b div 16)) OR word_of_nat (unat b mod 16) = b" for b :: byte
proof -
  have "unat b div 16 = drop_bit 4 (unat b)" "unat b mod 16 = take_bit 4 (unat b)"
    by (simp_all add: drop_bit_eq_div take_bit_eq_mod)
  then show ?thesis by (intro bit_eqI) (auto simp: bit_simps)
qed

lemma hex_decode_loop_display: "hex_decode_loop (scalars (node_key_display k)) = Ok k"
proof (induction k)
  case (Cons b k)
  have "unat b div 16 < 16" "unat b mod 16 < 16"
    using unsigned_less [of b, where ?'a = nat] by simp_all
  with Cons show ?case
    by (simp add: node_key_display_def scalars_def byte_hex_def to_digit_hex byte_nibbles)
qed (simp add: node_key_display_def scalars_def)

lemma hex_display_len: "sum_list (map utf8_len (scalars (node_key_display k))) = 2 * length k"
proof (induction k)
  case (Cons b k)
  have "unat b div 16 < 16" "unat b mod 16 < 16"
    using unsigned_less [of b, where ?'a = nat] by simp_all
  with Cons show ?case
    by (simp add: node_key_display_def scalars_def byte_hex_def hex_ascii)
qed (simp add: node_key_display_def scalars_def)

text \<open>A key is read back from its text, through the serialisation as a string.\<close>

lemma node_key_text_roundtrip:
  "key_ok k \<Longrightarrow> deserialize_node_key (scalars (node_key_display k)) = Ok k"
  by (simp add: deserialize_node_key_def hex_decode_def hex_display_len hex_decode_loop_display
      from_slice_def key_ok_def)

lemma deserialize_node_key_ok: "deserialize_node_key s = Ok k \<Longrightarrow> key_ok k"
  by (auto simp: deserialize_node_key_def and_then_eq_Inr from_slice_eq split: option.splits)

lemma hex_decode_loop_trailing:
  "even (length s) \<Longrightarrow> hex_decode_loop (s @ [c]) = hex_decode_loop s"
  by (induction s rule: hex_decode_loop.induct) (auto split: option.split)

lemma length_node_key_display: "length (node_key_display k) = 2 * length k"
  by (induction k) (simp_all add: node_key_display_def byte_hex_def)

text \<open>
  The length test of the hexadecimal reader counts bytes while its loop counts characters: a
  key's text followed by any one character that takes two or four bytes in UTF-8 is accepted as that
  key, although it is not hexadecimal text.
\<close>

theorem node_key_accepts_trailing_character:
  assumes "key_ok k" and "even (utf8_len c)"
  shows "deserialize_node_key (scalars (node_key_display k) @ [c]) = Ok k"
proof -
  have "even (length (scalars (node_key_display k)))"
    by (simp add: scalars_def length_node_key_display)
  then show ?thesis
    using assms
    by (simp add: deserialize_node_key_def hex_decode_def hex_display_len hex_decode_loop_trailing
        hex_decode_loop_display from_slice_def key_ok_def mod_eq_0_iff_dvd)
qed

theorem node_key_accepts_trailing_character_witness:
  "to_digit16 233 = None \<and>
   deserialize_node_key (scalars (node_key_display (replicate 32 171)) @ [233]) = Ok (replicate 32 171)"
proof -
  have "key_ok (replicate 32 171)" by (simp add: key_ok_def NODE_KEY_LEN_def)
  moreover have "even (utf8_len 233)" by (simp add: utf8_len_def)
  ultimately show ?thesis
    using node_key_accepts_trailing_character by (simp add: to_digit16_def)
qed

end
