(* ===== verification/Derp_Server.thy ===== *)
theory Derp_Server
  imports Derp_Wire
begin

text \<open>
  The DERP relay server and its mesh of \<open>crates/coder-connectivity/src/derp.rs\<close>, the traffic tracker
  of \<open>tailnet.rs\<close> and the WebSocket session of \<open>crates/coder-server/src/handlers/derp.rs\<close>. The
  channels of the server live in one list; a sender or receiver is the index of its channel, and a
  channel knows whether its receiver is still there. Each operation runs as one step: the
  interleavings between the separate lock sections of one operation are not modelled. The clock is a
  parameter. The two tasks a session spawns, and the one a \<open>WatchConns\<close> spawns, appear as the steps
  they take.
\<close>

section \<open>Channels\<close>

record Channel =
  ch_capacity :: nat
  ch_queue :: "DerpFrame list"
  ch_open :: bool

definition CLIENT_CHANNEL_CAPACITY :: nat where
  "CLIENT_CHANNEL_CAPACITY = 64"

definition MESH_PEER_CHANNEL_CAPACITY :: nat where
  "MESH_PEER_CHANNEL_CAPACITY = 64"

definition has_room :: "Channel \<Rightarrow> bool" where
  "has_room ch \<longleftrightarrow> ch_open ch \<and> length (ch_queue ch) < ch_capacity ch"

section \<open>The server\<close>

record DerpClient =
  dc_key :: NodeKey
  dc_sender :: nat
  dc_preferred :: bool
  dc_connected_at :: int

record DerpServer =
  ds_server_key :: NodeKey
  ds_clients :: "(NodeKey, DerpClient) hash_map"
  ds_watchers :: "(NodeKey, nat) hash_map"
  ds_mesh_forwarders :: "(NodeKey, nat) hash_map"
  ds_channels :: "Channel list"

definition derp_server_new :: "NodeKey \<Rightarrow> DerpServer" where
  "derp_server_new key =
     \<lparr> ds_server_key = key, ds_clients = hm_empty, ds_watchers = hm_empty,
       ds_mesh_forwarders = hm_empty, ds_channels = [] \<rparr>"

definition new_channel :: "nat \<Rightarrow> DerpServer \<Rightarrow> DerpServer \<times> nat" where
  "new_channel capacity s =
     (s \<lparr> ds_channels := ds_channels s @ [\<lparr> ch_capacity = capacity, ch_queue = [], ch_open = True \<rparr>] \<rparr>,
      length (ds_channels s))"

definition try_send :: "nat \<Rightarrow> DerpFrame \<Rightarrow> DerpServer \<Rightarrow> DerpServer \<times> bool" where
  "try_send tx frame s =
     (let ch = ds_channels s ! tx in
      if has_room ch
      then (s \<lparr> ds_channels := (ds_channels s)[tx := ch \<lparr> ch_queue := ch_queue ch @ [frame] \<rparr>] \<rparr>, True)
      else (s, False))"

definition recv :: "nat \<Rightarrow> DerpServer \<Rightarrow> DerpServer \<times> DerpFrame option" where
  "recv rx s =
     (let ch = ds_channels s ! rx in
      case ch_queue ch of
        [] \<Rightarrow> (s, None)
      | f # fs \<Rightarrow> (s \<lparr> ds_channels := (ds_channels s)[rx := ch \<lparr> ch_queue := fs \<rparr>] \<rparr>, Some f))"

definition drop_receiver :: "nat \<Rightarrow> DerpServer \<Rightarrow> DerpServer" where
  "drop_receiver rx s =
     s \<lparr> ds_channels := (ds_channels s)[rx := (ds_channels s ! rx) \<lparr> ch_queue := [], ch_open := False \<rparr>] \<rparr>"

definition notify_watchers :: "DerpFrame \<Rightarrow> DerpServer \<Rightarrow> DerpServer" where
  "notify_watchers frame s = fold (\<lambda>tx s. fst (try_send tx frame s)) (hm_values (ds_watchers s)) s"

definition accept_client :: "int \<Rightarrow> NodeKey \<Rightarrow> DerpServer \<Rightarrow> DerpServer \<times> nat" where
  "accept_client now key s =
     (let (s, rx) = new_channel CLIENT_CHANNEL_CAPACITY s;
          client = \<lparr> dc_key = key, dc_sender = rx, dc_preferred = False, dc_connected_at = now \<rparr>;
          s = s \<lparr> ds_clients := hm_insert key client (ds_clients s) \<rparr>
      in (notify_watchers (peer_present_frame key) s, rx))"

definition remove_client :: "NodeKey \<Rightarrow> DerpServer \<Rightarrow> DerpServer" where
  "remove_client key s =
     (let s = s \<lparr> ds_clients := hm_remove key (ds_clients s) \<rparr>;
          s = s \<lparr> ds_watchers := hm_remove key (ds_watchers s) \<rparr>
      in notify_watchers (peer_gone_frame key) s)"

definition send_packet :: "NodeKey \<Rightarrow> NodeKey \<Rightarrow> byte list \<Rightarrow> DerpServer \<Rightarrow> DerpServer \<times> bool" where
  "send_packet src dst data s =
     (case hm_get (ds_clients s) dst of
        Some client \<Rightarrow> try_send (dc_sender client) (recv_packet_frame src data) s
      | None \<Rightarrow>
          (case hm_get (ds_mesh_forwarders s) dst of
             Some forwarder \<Rightarrow> try_send forwarder (send_packet_frame dst data) s
           | None \<Rightarrow> (s, False)))"

definition send_raw_frame :: "NodeKey \<Rightarrow> DerpFrame \<Rightarrow> DerpServer \<Rightarrow> DerpServer \<times> bool" where
  "send_raw_frame dst frame s =
     (case hm_get (ds_clients s) dst of
        Some client \<Rightarrow> try_send (dc_sender client) frame s
      | None \<Rightarrow> (s, False))"

definition note_preferred :: "NodeKey \<Rightarrow> bool \<Rightarrow> DerpServer \<Rightarrow> DerpServer" where
  "note_preferred key preferred s =
     (case hm_get (ds_clients s) key of
        Some client \<Rightarrow>
          s \<lparr> ds_clients := hm_insert key (client \<lparr> dc_preferred := preferred \<rparr>) (ds_clients s) \<rparr>
      | None \<Rightarrow> s)"

definition watch_conns :: "NodeKey \<Rightarrow> DerpServer \<Rightarrow> DerpServer \<times> nat" where
  "watch_conns watcher_key s =
     (let (s, tx) = new_channel CLIENT_CHANNEL_CAPACITY s;
          s = fold (\<lambda>k s. fst (try_send tx (peer_present_frame k) s)) (map fst (ds_clients s)) s
      in (s \<lparr> ds_watchers := hm_insert watcher_key tx (ds_watchers s) \<rparr>, tx))"

definition add_packet_forwarder :: "NodeKey \<Rightarrow> nat \<Rightarrow> DerpServer \<Rightarrow> DerpServer" where
  "add_packet_forwarder dst tx s = s \<lparr> ds_mesh_forwarders := hm_insert dst tx (ds_mesh_forwarders s) \<rparr>"

definition remove_packet_forwarder :: "NodeKey \<Rightarrow> DerpServer \<Rightarrow> DerpServer" where
  "remove_packet_forwarder dst s = s \<lparr> ds_mesh_forwarders := hm_remove dst (ds_mesh_forwarders s) \<rparr>"

definition client_count :: "DerpServer \<Rightarrow> nat" where
  "client_count s = length (ds_clients s)"

definition has_client :: "NodeKey \<Rightarrow> DerpServer \<Rightarrow> bool" where
  "has_client key s \<longleftrightarrow> hm_get (ds_clients s) key \<noteq> None"

definition connected_clients :: "DerpServer \<Rightarrow> (NodeKey \<times> int) list" where
  "connected_clients s = map (\<lambda>c. (dc_key c, dc_connected_at c)) (hm_values (ds_clients s))"

record DerpClientInfo =
  di_key :: string
  di_preferred :: bool
  di_connected_at :: int

record DerpServerInfo =
  si_server_key :: string
  si_client_count :: nat
  si_watcher_count :: nat
  si_forwarder_count :: nat
  si_clients :: "DerpClientInfo list"

definition server_info :: "DerpServer \<Rightarrow> DerpServerInfo" where
  "server_info s =
     \<lparr> si_server_key = node_key_display (ds_server_key s), si_client_count = length (ds_clients s),
       si_watcher_count = length (ds_watchers s), si_forwarder_count = length (ds_mesh_forwarders s),
       si_clients =
         map (\<lambda>c. \<lparr> di_key = node_key_display (dc_key c), di_preferred = dc_preferred c,
                     di_connected_at = dc_connected_at c \<rparr>) (hm_values (ds_clients s)) \<rparr>"

section \<open>The traffic tracker\<close>

record DerpClientStats =
  ts_client_id :: string
  ts_bytes_sent :: u64
  ts_bytes_received :: u64
  ts_packets_sent :: u64
  ts_packets_received :: u64
  ts_connected_at :: int

type_synonym DerpTrafficTracker = "(string, DerpClientStats) hash_map"

definition tracker_new :: DerpTrafficTracker where
  "tracker_new = hm_empty"

definition tracker_add_client :: "int \<Rightarrow> string \<Rightarrow> DerpTrafficTracker \<Rightarrow> DerpTrafficTracker" where
  "tracker_add_client now client_id t =
     hm_insert client_id
       \<lparr> ts_client_id = client_id, ts_bytes_sent = 0, ts_bytes_received = 0, ts_packets_sent = 0,
         ts_packets_received = 0, ts_connected_at = now \<rparr> t"

definition tracker_remove_client :: "string \<Rightarrow> DerpTrafficTracker \<Rightarrow> DerpTrafficTracker" where
  "tracker_remove_client client_id t = hm_remove client_id t"

definition record_sent :: "string \<Rightarrow> u64 \<Rightarrow> u64 \<Rightarrow> DerpTrafficTracker \<Rightarrow> DerpTrafficTracker" where
  "record_sent client_id bytes packets t =
     (case hm_get t client_id of
        Some st \<Rightarrow>
          hm_insert client_id
            (st \<lparr> ts_bytes_sent := saturating_add (ts_bytes_sent st) bytes,
                  ts_packets_sent := saturating_add (ts_packets_sent st) packets \<rparr>) t
      | None \<Rightarrow> t)"

definition record_received :: "string \<Rightarrow> u64 \<Rightarrow> u64 \<Rightarrow> DerpTrafficTracker \<Rightarrow> DerpTrafficTracker" where
  "record_received client_id bytes packets t =
     (case hm_get t client_id of
        Some st \<Rightarrow>
          hm_insert client_id
            (st \<lparr> ts_bytes_received := saturating_add (ts_bytes_received st) bytes,
                  ts_packets_received := saturating_add (ts_packets_received st) packets \<rparr>) t
      | None \<Rightarrow> t)"

section \<open>The WebSocket session\<close>

text \<open>A message the socket delivers; text, ping and pong messages are \<open>OtherMessage\<close>.\<close>

datatype WsMessage = Binary "byte list" | CloseMessage | OtherMessage

text \<open>The part of the server state a session uses, with the notification tasks that are running.\<close>

record RelayState =
  st_server :: DerpServer
  st_tracker :: DerpTrafficTracker
  st_watch_tasks :: "(nat \<times> NodeKey) list"

definition on_server :: "(DerpServer \<Rightarrow> DerpServer) \<Rightarrow> RelayState \<Rightarrow> RelayState" where
  "on_server f st = st \<lparr> st_server := f (st_server st) \<rparr>"

definition on_tracker :: "(DerpTrafficTracker \<Rightarrow> DerpTrafficTracker) \<Rightarrow> RelayState \<Rightarrow> RelayState" where
  "on_tracker f st = st \<lparr> st_tracker := f (st_tracker st) \<rparr>"

text \<open>\<open>None\<close> stands for a timeout, an error or the end of the stream.\<close>

definition receive_client_info :: "WsMessage option \<Rightarrow> NodeKey option" where
  "receive_client_info msg =
     (case msg of
        Some (Binary data) \<Rightarrow>
          (case parse_frame data of
             Inr (frame, _) \<Rightarrow>
               if df_type frame = ClientInfo \<and> NODE_KEY_LEN \<le> length (df_payload frame)
               then from_slice (take NODE_KEY_LEN (df_payload frame)) else None
           | Inl _ \<Rightarrow> None)
      | _ \<Rightarrow> None)"

definition handle_client_frame :: "NodeKey \<Rightarrow> DerpFrame \<Rightarrow> RelayState \<Rightarrow> RelayState" where
  "handle_client_frame src_key frame st =
     (case df_type frame of
        SendPacket \<Rightarrow>
          (case parse_send_packet (df_payload frame) of
             Inr (dst_key, packet_data) \<Rightarrow>
               on_server (\<lambda>s. fst (send_packet src_key dst_key packet_data s)) st
           | Inl _ \<Rightarrow> st)
      | NotePreferred \<Rightarrow>
          (let preferred = (case df_payload frame of b # _ \<Rightarrow> b | [] \<Rightarrow> 0) \<noteq> 0
           in on_server (note_preferred src_key preferred) st)
      | WatchConns \<Rightarrow>
          (let (s, rx) = watch_conns src_key (st_server st)
           in st \<lparr> st_server := s, st_watch_tasks := st_watch_tasks st @ [(rx, src_key)] \<rparr>)
      | Ping \<Rightarrow>
          if length (df_payload frame) = 8
          then on_server (\<lambda>s. fst (send_raw_frame src_key (pong_frame (df_payload frame)) s)) st
          else st
      | _ \<Rightarrow> st)"

definition session_open :: "int \<Rightarrow> NodeKey \<Rightarrow> RelayState \<Rightarrow> RelayState \<times> nat" where
  "session_open now client_key st =
     (let (s, rx) = accept_client now client_key (st_server st)
      in (on_tracker (tracker_add_client now (node_key_display client_key)) (st \<lparr> st_server := s \<rparr>), rx))"

definition session_binary :: "NodeKey \<Rightarrow> byte list \<Rightarrow> RelayState \<Rightarrow> RelayState" where
  "session_binary client_key data st =
     (let st = on_tracker (record_sent (node_key_display client_key) (word_of_nat (length data)) 1) st
      in case parse_frame data of
           Inr (frame, _) \<Rightarrow> handle_client_frame client_key frame st
         | Inl _ \<Rightarrow> st)"

text \<open>The read loop, on the messages the socket delivers before it times out, fails or ends.\<close>

fun session_loop :: "NodeKey \<Rightarrow> WsMessage list \<Rightarrow> RelayState \<Rightarrow> RelayState" where
  "session_loop k [] st = st"
| "session_loop k (Binary data # msgs) st = session_loop k msgs (session_binary k data st)"
| "session_loop k (CloseMessage # msgs) st = st"
| "session_loop k (OtherMessage # msgs) st = session_loop k msgs st"

definition session_close :: "NodeKey \<Rightarrow> nat \<Rightarrow> RelayState \<Rightarrow> RelayState" where
  "session_close client_key rx st =
     (let st = on_server (drop_receiver rx) st;
          st = on_server (remove_client client_key) st
      in on_tracker (tracker_remove_client (node_key_display client_key)) st)"

text \<open>One turn of the writer task: a frame leaves the client's channel for the socket.\<close>

definition writer_step :: "NodeKey \<Rightarrow> nat \<Rightarrow> RelayState \<Rightarrow> RelayState \<times> byte list option" where
  "writer_step client_key rx st =
     (case recv rx (st_server st) of
        (s, None) \<Rightarrow> (st, None)
      | (s, Some frame) \<Rightarrow>
          let bytes = frame_to_bytes frame
          in (on_tracker (record_received (node_key_display client_key) (word_of_nat (length bytes)) 1)
                (st \<lparr> st_server := s \<rparr>), Some bytes))"

text \<open>One tick of the keep-alive task; the answer is whether it goes on.\<close>

definition keep_alive_step :: "NodeKey \<Rightarrow> RelayState \<Rightarrow> RelayState \<times> bool" where
  "keep_alive_step key st =
     (if \<not> has_client key (st_server st) then (st, False)
      else let (s, ok) = send_raw_frame key keep_alive_frame (st_server st)
           in (st \<lparr> st_server := s \<rparr>, ok))"

text \<open>One turn of a notification task; the answer is whether it goes on.\<close>

definition watch_task_step :: "nat \<Rightarrow> NodeKey \<Rightarrow> RelayState \<Rightarrow> RelayState \<times> bool" where
  "watch_task_step rx dst st =
     (case recv rx (st_server st) of
        (s, None) \<Rightarrow> (st, True)
      | (s, Some frame) \<Rightarrow>
          let (s, ok) = send_raw_frame dst frame s
          in if ok then (st \<lparr> st_server := s \<rparr>, True)
             else (st \<lparr> st_server := drop_receiver rx s,
                        st_watch_tasks := remove1 (rx, dst) (st_watch_tasks st) \<rparr>, False))"

section \<open>What an operation puts on the channels\<close>

text \<open>
  Between two states, channels only grow: frames are appended to existing queues, every frame
  appended to channel \<open>i\<close> satisfies \<open>P i\<close>, and new channels hold only such frames.
\<close>

definition queue :: "DerpServer \<Rightarrow> nat \<Rightarrow> DerpFrame list" where
  "queue s i = (if i < length (ds_channels s) then ch_queue (ds_channels s ! i) else [])"

definition delivers :: "(nat \<Rightarrow> DerpFrame \<Rightarrow> bool) \<Rightarrow> DerpServer \<Rightarrow> DerpServer \<Rightarrow> bool" where
  "delivers P s s' \<longleftrightarrow>
     length (ds_channels s) \<le> length (ds_channels s') \<and>
     (\<forall>i. \<exists>new. queue s' i = queue s i @ new \<and> (\<forall>f \<in> set new. P i f))"

lemma delivers_same: "ds_channels s' = ds_channels s \<Longrightarrow> delivers P s s'"
  by (simp add: delivers_def queue_def)

lemma delivers_refl [simp]: "delivers P s s"
  by (simp add: delivers_same)

lemma delivers_trans:
  assumes st: "delivers P s t" and tu: "delivers P t u"
  shows "delivers P s u"
  unfolding delivers_def
proof (intro conjI allI)
  show "length (ds_channels s) \<le> length (ds_channels u)"
    using st tu by (simp add: delivers_def)
  fix i
  obtain xs ys where "queue t i = queue s i @ xs" "\<forall>f \<in> set xs. P i f"
    "queue u i = queue t i @ ys" "\<forall>f \<in> set ys. P i f"
    using st tu unfolding delivers_def by blast
  then show "\<exists>new. queue u i = queue s i @ new \<and> (\<forall>f \<in> set new. P i f)"
    by (intro exI [of _ "xs @ ys"]) auto
qed

lemma delivers_cong:
  "ds_channels s = ds_channels t \<Longrightarrow> ds_channels s' = ds_channels t' \<Longrightarrow>
   delivers P s s' = delivers P t t'"
  by (simp add: delivers_def queue_def)

lemma delivers_tables [simp]:
  "delivers P s (t \<lparr> ds_clients := c \<rparr>) = delivers P s t"
  "delivers P s (t \<lparr> ds_watchers := w \<rparr>) = delivers P s t"
  "delivers P s (t \<lparr> ds_mesh_forwarders := m \<rparr>) = delivers P s t"
  by (simp_all add: delivers_def queue_def)

lemma delivers_mono: "delivers P s t \<Longrightarrow> (\<And>i f. P i f \<Longrightarrow> Q i f) \<Longrightarrow> delivers Q s t"
  unfolding delivers_def by blast

lemma try_send_frame [simp]:
  "ds_clients (fst (try_send tx f s)) = ds_clients s"
  "ds_watchers (fst (try_send tx f s)) = ds_watchers s"
  "ds_mesh_forwarders (fst (try_send tx f s)) = ds_mesh_forwarders s"
  "ds_server_key (fst (try_send tx f s)) = ds_server_key s"
  "length (ds_channels (fst (try_send tx f s))) = length (ds_channels s)"
  by (simp_all add: try_send_def Let_def)

lemma queue_try_send:
  assumes "tx < length (ds_channels s)"
  shows "queue (fst (try_send tx f s)) i =
    queue s i @ (if i = tx \<and> has_room (ds_channels s ! tx) then [f] else [])"
  using assms by (simp add: try_send_def queue_def Let_def nth_list_update)

lemma delivers_try_send: "P tx f \<Longrightarrow> delivers P s (fst (try_send tx f s))"
proof (cases "tx < length (ds_channels s)")
  case True
  assume "P tx f"
  with True show ?thesis by (auto simp: delivers_def queue_try_send)
next
  case False
  then show ?thesis by (intro delivers_same) (simp add: try_send_def Let_def list_update_beyond)
qed

lemma delivers_fold:
  assumes "\<And>x s. x \<in> set xs \<Longrightarrow> delivers P s (f x s)"
  shows "delivers P s (fold f xs s)"
  using assms by (induction xs arbitrary: s) (auto intro: delivers_trans)

lemma delivers_new_channel: "delivers P s (fst (new_channel cap s))"
  by (auto simp: delivers_def new_channel_def queue_def nth_append less_Suc_eq)

lemma delivers_notify: "(\<And>i. P i f) \<Longrightarrow> delivers P s (notify_watchers f s)"
  unfolding notify_watchers_def by (intro delivers_fold delivers_try_send)

lemma delivers_send_packet:
  assumes "\<And>i. P i (recv_packet_frame src data)" and "\<And>i. P i (send_packet_frame dst data)"
  shows "delivers P s (fst (send_packet src dst data s))"
  using assms by (auto simp: send_packet_def intro: delivers_try_send split: option.split)

lemma delivers_send_raw: "(\<And>i. P i f) \<Longrightarrow> delivers P s (fst (send_raw_frame dst f s))"
  by (auto simp: send_raw_frame_def intro: delivers_try_send split: option.split)

lemma delivers_watch:
  assumes "\<And>i k. P i (peer_present_frame k)"
  shows "delivers P s (fst (watch_conns key s))"
proof -
  define t where "t = fst (new_channel CLIENT_CHANNEL_CAPACITY s)"
  have "delivers P t (fold (\<lambda>k s. fst (try_send tx (peer_present_frame k) s)) ks t)" for tx ks
    by (intro delivers_fold delivers_try_send assms)
  moreover have "delivers P s t" unfolding t_def by (rule delivers_new_channel)
  ultimately have "delivers P s (fold (\<lambda>k s. fst (try_send tx (peer_present_frame k) s)) ks t)" for tx ks
    by (blast intro: delivers_trans)
  then show ?thesis
    by (simp add: watch_conns_def Let_def case_prod_unfold t_def)
qed

lemma on_server_simps [simp]:
  "st_server (on_server f st) = f (st_server st)" "st_server (on_tracker g st) = st_server st"
  "st_watch_tasks (on_server f st) = st_watch_tasks st"
  "st_watch_tasks (on_tracker g st) = st_watch_tasks st"
  by (simp_all add: on_server_def on_tracker_def)

text \<open>The frames a client with key \<open>k\<close> may cause to be queued anywhere.\<close>

definition caused_by :: "NodeKey \<Rightarrow> nat \<Rightarrow> DerpFrame \<Rightarrow> bool" where
  "caused_by k i f \<longleftrightarrow>
     (\<exists>data. f = recv_packet_frame k data) \<or>
     (\<exists>dst data. f = send_packet_frame dst data) \<or>
     (\<exists>peer. f = peer_present_frame peer) \<or>
     (\<exists>data. f = pong_frame data)"

lemma delivers_handle:
  "delivers (caused_by k) (st_server st) (st_server (handle_client_frame k frame st))"
proof -
  have watch: "delivers (caused_by k) s (fst (watch_conns k s))" for s
    by (rule delivers_watch) (auto simp: caused_by_def)
  have pong: "delivers (caused_by k) s (fst (send_raw_frame k (pong_frame data) s))" for s data
    by (rule delivers_send_raw) (auto simp: caused_by_def)
  have send: "delivers (caused_by k) s (fst (send_packet k dst data s))" for s dst data
    by (rule delivers_send_packet) (auto simp: caused_by_def)
  have pref: "delivers (caused_by k) s (note_preferred k b s)" for s b
    by (rule delivers_same) (simp add: note_preferred_def split: option.split)
  show ?thesis
    using watch [of "st_server st"]
    by (auto simp: handle_client_frame_def Let_def pong send pref case_prod_unfold
        split: FrameType.split sum.split)
qed

lemma delivers_loop: "delivers (caused_by k) (st_server st) (st_server (session_loop k msgs st))"
proof (induction k msgs st rule: session_loop.induct)
  case (2 k data msgs st)
  have "delivers (caused_by k) (st_server st) (st_server (session_binary k data st))"
    using delivers_handle [of k "on_tracker g st" for g]
    by (auto simp: session_binary_def Let_def split: sum.split)
  with 2 show ?case by (auto intro: delivers_trans)
qed auto

text \<open>One client is connected.\<close>

definition demo_relay :: RelayState where
  "demo_relay =
     fst (session_open 0 (replicate 32 2)
       \<lparr> st_server = derp_server_new (replicate 32 1), st_tracker = tracker_new, st_watch_tasks = [] \<rparr>)"

lemma demo_relay_server:
  "st_server demo_relay =
     \<lparr> ds_server_key = replicate 32 1,
       ds_clients = [(replicate 32 2,
         \<lparr> dc_key = replicate 32 2, dc_sender = 0, dc_preferred = False, dc_connected_at = 0 \<rparr>)],
       ds_watchers = [], ds_mesh_forwarders = [],
       ds_channels = [\<lparr> ch_capacity = 64, ch_queue = [], ch_open = True \<rparr>] \<rparr>"
  by (simp add: demo_relay_def session_open_def accept_client_def new_channel_def derp_server_new_def
      notify_watchers_def hm_defs Let_def CLIENT_CHANNEL_CAPACITY_def)

lemma demo_relay_queue: "queue (st_server demo_relay) 0 = []"
  by (simp add: demo_relay_server queue_def)



section \<open>Delivery\<close>

text \<open>The tables are consistent: entries are filed under 32-byte keys and name existing channels.\<close>

definition server_inv :: "DerpServer \<Rightarrow> bool" where
  "server_inv s \<longleftrightarrow>
     hm_wf (ds_clients s) \<and> hm_wf (ds_watchers s) \<and> hm_wf (ds_mesh_forwarders s) \<and>
     key_ok (ds_server_key s) \<and>
     (\<forall>k c. hm_get (ds_clients s) k = Some c \<longrightarrow>
        key_ok k \<and> dc_key c = k \<and> dc_sender c < length (ds_channels s)) \<and>
     (\<forall>k tx. hm_get (ds_watchers s) k = Some tx \<longrightarrow> key_ok k \<and> tx < length (ds_channels s)) \<and>
     (\<forall>k tx. hm_get (ds_mesh_forwarders s) k = Some tx \<longrightarrow> key_ok k \<and> tx < length (ds_channels s)) \<and>
     (\<forall>ch \<in> set (ds_channels s). length (ch_queue ch) \<le> ch_capacity ch \<and> ch_capacity ch = 64)"

lemma server_inv_client:
  "server_inv s \<Longrightarrow> hm_get (ds_clients s) k = Some c \<Longrightarrow> dc_sender c < length (ds_channels s)"
  by (simp add: server_inv_def)

lemma session_binary_send_packet:
  assumes "key_ok dst" and "length data + 32 \<le> 10 * 2 ^ 20"
  shows "st_server (session_binary src (frame_to_bytes (send_packet_frame dst data)) st) =
    fst (send_packet src dst data (st_server st))"
proof -
  have "derp_frame_ok (send_packet_frame dst data)"
    using assms
    by (simp add: derp_frame_ok_def send_packet_frame_def key_ok_def NODE_KEY_LEN_def unat_MAX_FRAME_SIZE)
  from parse_frame_to_bytes [OF this, of "[]"] assms(1) show ?thesis
    by (simp add: session_binary_def Let_def handle_client_frame_def send_packet_frame_def)
qed

text \<open>
  Delivery through the relay, end to end: when a client sends the bytes of a packet frame for a
  connected destination whose channel has room, exactly one frame is queued for the destination,
  behind what was already queued, and on no other channel; the bytes the writer sends for it parse
  back to a packet from the sender with the same data.
\<close>

theorem relay_delivery:
  assumes "server_inv (st_server st)" and "key_ok src" and "key_ok dst"
    and "length data + 32 \<le> 10 * 2 ^ 20"
    and "hm_get (ds_clients (st_server st)) dst = Some client"
    and "has_room (ds_channels (st_server st) ! dc_sender client)"
  shows "\<exists>f. (\<forall>i. queue (st_server (session_binary src (frame_to_bytes (send_packet_frame dst data)) st)) i =
           queue (st_server st) i @ (if i = dc_sender client then [f] else [])) \<and>
    parse_frame (frame_to_bytes f) = Ok (f, length (frame_to_bytes f)) \<and>
    df_type f = RecvPacket \<and> parse_recv_packet (df_payload f) = Ok (src, data)"
proof (intro exI [of _ "recv_packet_frame src data"] conjI allI)
  have ok: "derp_frame_ok (recv_packet_frame src data)"
    using assms(2,4)
    by (simp add: derp_frame_ok_def recv_packet_frame_def key_ok_def NODE_KEY_LEN_def unat_MAX_FRAME_SIZE)
  show "parse_frame (frame_to_bytes (recv_packet_frame src data)) =
      Ok (recv_packet_frame src data, length (frame_to_bytes (recv_packet_frame src data)))"
    using parse_frame_to_bytes [OF ok, of "[]"] by (simp add: length_frame_to_bytes)
  show "queue (st_server (session_binary src (frame_to_bytes (send_packet_frame dst data)) st)) i =
      queue (st_server st) i @ (if i = dc_sender client then [recv_packet_frame src data] else [])" for i
    using server_inv_client [OF assms(1,5)] assms(3-6)
    by (simp add: session_binary_send_packet send_packet_def queue_try_send)
qed (use assms(2) in \<open>simp_all add: recv_packet_frame_def\<close>)

theorem relay_delivery_witness:
  "\<exists>f. queue (st_server (session_binary (replicate 32 3)
         (frame_to_bytes (send_packet_frame (replicate 32 2) [7])) demo_relay)) 0 = [f] \<and>
     parse_recv_packet (df_payload f) = Ok (replicate 32 3, [7])"
proof -
  have inv: "server_inv (st_server demo_relay)"
    by (simp add: demo_relay_server server_inv_def hm_defs key_ok_def NODE_KEY_LEN_def)
  have keys: "key_ok (replicate 32 3)" "key_ok (replicate 32 2)"
    by (simp_all add: key_ok_def NODE_KEY_LEN_def)
  show ?thesis
    using relay_delivery [OF inv keys, of "[7]"
        "\<lparr> dc_key = replicate 32 2, dc_sender = 0, dc_preferred = False, dc_connected_at = 0 \<rparr>"]
    by (auto simp: demo_relay_server hm_get_def has_room_def queue_def [of "\<lparr> ds_server_key = a,
      ds_clients = b, ds_watchers = c, ds_mesh_forwarders = d, ds_channels = e \<rparr>" for a b c d e])
qed

section \<open>Reconnection\<close>

lemma notify_frame [simp]:
  "ds_clients (notify_watchers f s) = ds_clients s" "ds_watchers (notify_watchers f s) = ds_watchers s"
  "ds_mesh_forwarders (notify_watchers f s) = ds_mesh_forwarders s"
  "ds_server_key (notify_watchers f s) = ds_server_key s"
  "length (ds_channels (notify_watchers f s)) = length (ds_channels s)"
proof -
  have "ds_clients (fold (\<lambda>tx s. fst (try_send tx f s)) txs s) = ds_clients s"
    "ds_watchers (fold (\<lambda>tx s. fst (try_send tx f s)) txs s) = ds_watchers s"
    "ds_mesh_forwarders (fold (\<lambda>tx s. fst (try_send tx f s)) txs s) = ds_mesh_forwarders s"
    "ds_server_key (fold (\<lambda>tx s. fst (try_send tx f s)) txs s) = ds_server_key s"
    "length (ds_channels (fold (\<lambda>tx s. fst (try_send tx f s)) txs s)) = length (ds_channels s)" for txs
    by (induction txs arbitrary: s) simp_all
  then show "ds_clients (notify_watchers f s) = ds_clients s" "ds_watchers (notify_watchers f s) = ds_watchers s"
    "ds_mesh_forwarders (notify_watchers f s) = ds_mesh_forwarders s"
    "ds_server_key (notify_watchers f s) = ds_server_key s"
    "length (ds_channels (notify_watchers f s)) = length (ds_channels s)"
    by (simp_all add: notify_watchers_def)
qed

lemma notify_open:
  assumes "i < length (ds_channels s)"
  shows "ch_open (ds_channels (notify_watchers f s) ! i) = ch_open (ds_channels s ! i)"
proof -
  have "i < length (ds_channels t) \<Longrightarrow>
      ch_open (ds_channels (fold (\<lambda>tx s. fst (try_send tx f s)) txs t) ! i) = ch_open (ds_channels t ! i)"
    for txs t
  proof (induction txs arbitrary: t)
    case (Cons tx txs)
    have "ch_open (ds_channels (fst (try_send tx f t)) ! i) = ch_open (ds_channels t ! i)"
      using Cons.prems
      by (cases "tx < length (ds_channels t)")
        (simp_all add: try_send_def Let_def nth_list_update list_update_beyond)
    with Cons show ?case by simp
  qed simp
  with assms show ?thesis by (simp add: notify_watchers_def)
qed

lemma session_open_rx:
  assumes "session_open now k st = (st', rx)"
  shows "rx < length (ds_channels (st_server st'))" "length (ds_channels (st_server st)) = rx"
    "ch_open (ds_channels (st_server st') ! rx)" "has_client k (st_server st')"
  using assms
  by (auto simp: session_open_def accept_client_def new_channel_def Let_def has_client_def hm.get_insert
      notify_open)

text \<open>
  A reconnecting client is cut off by its own old session. A client that opens a second session
  under the same key takes over the registration, but when the first session then ends its cleanup
  removes the registration by key alone: the client that is still connected is no longer known, its
  watcher is dropped, and packets sent to it are refused unless a mesh peer has announced it.
\<close>

theorem stale_cleanup_unregisters_new_session:
  assumes "session_open now1 k st = (st1, rx1)"
    and "session_open now2 k (session_loop k msgs st1) = (st2, rx2)"
    and "hm_wf (ds_clients (st_server st2))"
    and "hm_get (ds_mesh_forwarders (st_server st2)) k = None"
  shows "has_client k (st_server st2) \<and>
    ch_open (ds_channels (st_server (session_close k rx1 st2)) ! rx2) \<and>
    \<not> has_client k (st_server (session_close k rx1 st2)) \<and>
    snd (send_packet src k data (st_server (session_close k rx1 st2))) = False"
proof -
  have "rx1 < length (ds_channels (st_server st1))"
    using assms(1) by (simp add: session_open_rx(1))
  also have "\<dots> \<le> length (ds_channels (st_server (session_loop k msgs st1)))"
    using delivers_loop [of k st1 msgs] by (simp add: delivers_def)
  also have "\<dots> = rx2" using assms(2) by (simp add: session_open_rx(2))
  finally have ne: "rx1 \<noteq> rx2" by simp
  have rx2: "rx2 < length (ds_channels (st_server st2))" "ch_open (ds_channels (st_server st2) ! rx2)"
    and here: "has_client k (st_server st2)"
    using assms(2) by (simp_all add: session_open_rx)
  have "ch_open (ds_channels (st_server (session_close k rx1 st2)) ! rx2)"
    using ne rx2 by (simp add: session_close_def Let_def remove_client_def notify_open drop_receiver_def)
  moreover have "hm_get (ds_clients (st_server (session_close k rx1 st2))) k = None"
    using assms(3)
    by (simp add: session_close_def Let_def remove_client_def drop_receiver_def hm.get_remove)
  moreover have "ds_mesh_forwarders (st_server (session_close k rx1 st2)) =
      ds_mesh_forwarders (st_server st2)"
    by (simp add: session_close_def Let_def remove_client_def drop_receiver_def)
  ultimately show ?thesis
    using assms(4) here by (simp add: has_client_def send_packet_def)
qed

theorem stale_cleanup_unregisters_new_session_witness:
  "\<not> has_client (replicate 32 2)
      (st_server (session_close (replicate 32 2) 0 (fst (session_open 5 (replicate 32 2) demo_relay))))"
proof -
  have "st_server (fst (session_open 5 (replicate 32 2) demo_relay)) =
     \<lparr> ds_server_key = replicate 32 1,
       ds_clients = [(replicate 32 2,
         \<lparr> dc_key = replicate 32 2, dc_sender = 1, dc_preferred = False, dc_connected_at = 5 \<rparr>)],
       ds_watchers = [], ds_mesh_forwarders = [],
       ds_channels = [\<lparr> ch_capacity = 64, ch_queue = [], ch_open = True \<rparr>,
         \<lparr> ch_capacity = 64, ch_queue = [], ch_open = True \<rparr>] \<rparr>"
    by (simp add: session_open_def demo_relay_server accept_client_def new_channel_def
        notify_watchers_def hm_defs Let_def CLIENT_CHANNEL_CAPACITY_def)
  moreover have "session_open 0 (replicate 32 2)
       \<lparr> st_server = derp_server_new (replicate 32 1), st_tracker = tracker_new, st_watch_tasks = [] \<rparr> =
       (demo_relay, 0)"
    unfolding demo_relay_def
    by (simp add: session_open_def accept_client_def new_channel_def derp_server_new_def Let_def)
  ultimately show ?thesis
    using stale_cleanup_unregisters_new_session [where ?msgs = "[]" and ?k = "replicate 32 2" and ?now2.0 = 5
        and ?st1.0 = demo_relay and ?rx1.0 = 0, OF _ _ _ _]
    by (simp add: hm_defs prod_eq_iff)
qed

section \<open>Every operation keeps the tables consistent\<close>

definition channels_bounded :: "DerpServer \<Rightarrow> bool" where
  "channels_bounded s \<longleftrightarrow>
     (\<forall>ch \<in> set (ds_channels s). length (ch_queue ch) \<le> ch_capacity ch \<and> ch_capacity ch = 64)"

definition tables_ok :: "nat \<Rightarrow> DerpServer \<Rightarrow> bool" where
  "tables_ok n s \<longleftrightarrow>
     hm_wf (ds_clients s) \<and> hm_wf (ds_watchers s) \<and> hm_wf (ds_mesh_forwarders s) \<and>
     key_ok (ds_server_key s) \<and>
     (\<forall>k c. hm_get (ds_clients s) k = Some c \<longrightarrow> key_ok k \<and> dc_key c = k \<and> dc_sender c < n) \<and>
     (\<forall>k tx. hm_get (ds_watchers s) k = Some tx \<longrightarrow> key_ok k \<and> tx < n) \<and>
     (\<forall>k tx. hm_get (ds_mesh_forwarders s) k = Some tx \<longrightarrow> key_ok k \<and> tx < n)"

lemma server_inv_alt: "server_inv s \<longleftrightarrow> tables_ok (length (ds_channels s)) s \<and> channels_bounded s"
  by (auto simp: server_inv_def tables_ok_def channels_bounded_def)

lemma tables_ok_mono: "tables_ok m s \<Longrightarrow> m \<le> n \<Longrightarrow> tables_ok n s"
  unfolding tables_ok_def by (meson order_less_le_trans)

lemma server_inv_channels:
  assumes "server_inv s" and "ds_clients t = ds_clients s" "ds_watchers t = ds_watchers s"
    "ds_mesh_forwarders t = ds_mesh_forwarders s" "ds_server_key t = ds_server_key s"
    "length (ds_channels s) \<le> length (ds_channels t)" and "channels_bounded t"
  shows "server_inv t"
proof -
  have "tables_ok (length (ds_channels s)) t"
    using assms(1-5) by (simp add: server_inv_alt tables_ok_def)
  with assms(6,7) show ?thesis by (simp add: server_inv_alt tables_ok_mono)
qed

lemma server_inv_bounded [simp]: "server_inv s \<Longrightarrow> channels_bounded s"
  by (simp add: server_inv_alt)

lemma bounded_nth:
  "channels_bounded s \<Longrightarrow> i < length (ds_channels s) \<Longrightarrow>
   length (ch_queue (ds_channels s ! i)) \<le> ch_capacity (ds_channels s ! i) \<and>
   ch_capacity (ds_channels s ! i) = 64"
  unfolding channels_bounded_def using nth_mem by blast

lemma set_update_cases: "x \<in> set (xs[i := y]) \<Longrightarrow> x = y \<or> x \<in> set xs"
  using set_update_subset_insert [of xs i y] by blast

lemma bounded_update:
  assumes "channels_bounded s" and "i < length (ds_channels s) \<Longrightarrow>
    length (ch_queue ch) \<le> ch_capacity ch \<and> ch_capacity ch = 64"
  shows "channels_bounded (s \<lparr> ds_channels := (ds_channels s)[i := ch] \<rparr>)"
proof (cases "i < length (ds_channels s)")
  case True
  with assms show ?thesis by (auto simp: channels_bounded_def dest: set_update_cases)
next
  case False
  with assms(1) show ?thesis by (simp add: list_update_beyond)
qed

lemma bounded_try_send [simp]: "channels_bounded s \<Longrightarrow> channels_bounded (fst (try_send tx f s))"
  by (auto simp: try_send_def Let_def has_room_def intro!: bounded_update dest: bounded_nth)

lemma bounded_fold_send [simp]:
  "channels_bounded s \<Longrightarrow> channels_bounded (fold (\<lambda>x s. fst (try_send (g x) (h x) s)) xs s)"
  by (induction xs arbitrary: s) simp_all

lemma bounded_tables [simp]:
  "channels_bounded (s \<lparr> ds_clients := c \<rparr>) = channels_bounded s"
  "channels_bounded (s \<lparr> ds_watchers := w \<rparr>) = channels_bounded s"
  "channels_bounded (s \<lparr> ds_mesh_forwarders := m \<rparr>) = channels_bounded s"
  by (simp_all add: channels_bounded_def)

lemma bounded_notify [simp]: "channels_bounded s \<Longrightarrow> channels_bounded (notify_watchers f s)"
  unfolding notify_watchers_def using bounded_fold_send [where g = "\<lambda>x. x" and h = "\<lambda>_. f"] by simp

lemma server_inv_try_send [simp]: "server_inv s \<Longrightarrow> server_inv (fst (try_send tx f s))"
  by (rule server_inv_channels [of s]) simp_all

lemma server_inv_notify [simp]: "server_inv s \<Longrightarrow> server_inv (notify_watchers f s)"
  by (rule server_inv_channels [of s]) simp_all

lemma server_inv_new_channel:
  assumes "server_inv s"
  shows "server_inv (fst (new_channel 64 s)) \<and> snd (new_channel 64 s) = length (ds_channels s) \<and>
    length (ds_channels (fst (new_channel 64 s))) = Suc (length (ds_channels s))"
proof -
  have "channels_bounded (fst (new_channel 64 s))"
    using server_inv_bounded [OF assms] by (auto simp: new_channel_def channels_bounded_def)
  then have "server_inv (fst (new_channel 64 s))"
    by (intro server_inv_channels [OF assms]) (simp_all add: new_channel_def)
  then show ?thesis by (simp add: new_channel_def)
qed

lemma server_inv_clients:
  "server_inv s \<Longrightarrow> key_ok k \<Longrightarrow> dc_key c = k \<Longrightarrow> dc_sender c < length (ds_channels s) \<Longrightarrow>
   server_inv (s \<lparr> ds_clients := hm_insert k c (ds_clients s) \<rparr>)"
  by (auto simp: server_inv_def hm.wf_insert hm.get_insert)

lemma server_inv_watchers:
  "server_inv s \<Longrightarrow> key_ok k \<Longrightarrow> tx < length (ds_channels s) \<Longrightarrow>
   server_inv (s \<lparr> ds_watchers := hm_insert k tx (ds_watchers s) \<rparr>)"
  by (auto simp: server_inv_def hm.wf_insert hm.get_insert)

lemma server_inv_add_forwarder:
  "server_inv s \<Longrightarrow> key_ok k \<Longrightarrow> tx < length (ds_channels s) \<Longrightarrow>
   server_inv (add_packet_forwarder k tx s)"
  by (auto simp: server_inv_def add_packet_forwarder_def hm.wf_insert hm.get_insert)

lemma server_inv_remove_forwarder [simp]: "server_inv s \<Longrightarrow> server_inv (remove_packet_forwarder k s)"
  by (auto simp: server_inv_def remove_packet_forwarder_def hm.wf_remove hm.get_remove split: if_splits)

lemma server_inv_accept:
  assumes "server_inv s" and "key_ok k"
  shows "server_inv (fst (accept_client now k s))"
  using server_inv_new_channel [OF assms(1)] assms(2)
  by (auto simp: accept_client_def Let_def case_prod_unfold CLIENT_CHANNEL_CAPACITY_def
      intro!: server_inv_notify server_inv_clients)

lemma server_inv_remove_client [simp]: "server_inv s \<Longrightarrow> server_inv (remove_client k s)"
  unfolding remove_client_def Let_def
  by (rule server_inv_notify) (auto simp: server_inv_def hm.wf_remove hm.get_remove split: if_splits)

lemma server_inv_send_packet [simp]: "server_inv s \<Longrightarrow> server_inv (fst (send_packet src dst data s))"
  by (simp add: send_packet_def split: option.split)

lemma server_inv_send_raw [simp]: "server_inv s \<Longrightarrow> server_inv (fst (send_raw_frame dst f s))"
  by (simp add: send_raw_frame_def split: option.split)

lemma server_inv_note_preferred [simp]: "server_inv s \<Longrightarrow> server_inv (note_preferred k b s)"
  by (auto simp: note_preferred_def server_inv_def hm.wf_insert hm.get_insert split: option.split if_splits)

lemma fold_send_frame [simp]:
  "length (ds_channels (fold (\<lambda>x s. fst (try_send (g x) (h x) s)) xs s)) = length (ds_channels s)"
  by (induction xs arbitrary: s) simp_all

lemma server_inv_fold_send [simp]:
  "server_inv s \<Longrightarrow> server_inv (fold (\<lambda>x s. fst (try_send (g x) (h x) s)) xs s)"
  by (induction xs arbitrary: s) simp_all

lemma server_inv_watch:
  assumes "server_inv s" and "key_ok k"
  shows "server_inv (fst (watch_conns k s)) \<and>
    snd (watch_conns k s) < length (ds_channels (fst (watch_conns k s)))"
  using server_inv_new_channel [OF assms(1)] assms(2)
  by (auto simp: watch_conns_def Let_def case_prod_unfold CLIENT_CHANNEL_CAPACITY_def
      fold_send_frame [where g = "\<lambda>_. tx" and h = peer_present_frame for tx]
      intro!: server_inv_watchers server_inv_fold_send [where g = "\<lambda>_. tx" and h = peer_present_frame for tx])

lemma server_inv_recv [simp]: "server_inv s \<Longrightarrow> server_inv (fst (recv rx s))"
proof (rule server_inv_channels [of s])
  assume "server_inv s"
  then show "channels_bounded (fst (recv rx s))"
    using bounded_nth [of s rx]
    by (cases "ch_queue (ds_channels s ! rx)") (auto simp: recv_def Let_def intro!: bounded_update)
qed (simp_all add: recv_def Let_def split: list.split)

lemma server_inv_drop_receiver [simp]: "server_inv s \<Longrightarrow> server_inv (drop_receiver rx s)"
  by (rule server_inv_channels [of s])
    (auto simp: drop_receiver_def intro!: bounded_update dest: bounded_nth [OF server_inv_bounded])

end
