(* ===== verification/Derp_Mesh.thy ===== *)
theory Derp_Mesh
  imports Derp_Server Rust_Text
begin

text \<open>
  The DERP mesh of \<open>crates/coder-connectivity/src/derp.rs\<close>: the set of peer servers to dial, one link
  to a peer, and what the mesh does to the relay. What the network delivers to a link is a list of
  events; a link that is still running when the list ends has no result yet. The text of a dial,
  read or send error comes from the WebSocket library and is part of the event.
\<close>

section \<open>The peers to dial\<close>

text \<open>A cancellation sender is the number of its link; dropping it or using it stops that link.\<close>

record DerpMesh =
  dm_mesh_key :: "byte list"
  dm_self_url :: "string option"
  dm_active :: "(string, nat) hash_map"
  dm_spawned :: "string list"
  dm_cancelled :: "nat list"

definition mesh_new :: "byte list \<Rightarrow> string option \<Rightarrow> DerpMesh" where
  "mesh_new mesh_key self_url =
     \<lparr> dm_mesh_key = mesh_key, dm_self_url = self_url, dm_active = hm_empty, dm_spawned = [],
       dm_cancelled = [] \<rparr>"

definition mesh_cancel :: "string \<Rightarrow> DerpMesh \<Rightarrow> DerpMesh" where
  "mesh_cancel addr m =
     (case hm_get (dm_active m) addr of
        Some cancel_tx \<Rightarrow>
          m \<lparr> dm_active := hm_remove addr (dm_active m), dm_cancelled := dm_cancelled m @ [cancel_tx] \<rparr>
      | None \<Rightarrow> m)"

definition mesh_dial :: "string \<Rightarrow> DerpMesh \<Rightarrow> DerpMesh" where
  "mesh_dial addr m =
     (if hm_get (dm_active m) addr \<noteq> None then m
      else m \<lparr> dm_active := hm_insert addr (length (dm_spawned m)) (dm_active m),
               dm_spawned := dm_spawned m @ [addr] \<rparr>)"

definition set_addresses :: "string list \<Rightarrow> DerpMesh \<Rightarrow> DerpMesh" where
  "set_addresses addresses m =
     (let filtered =
            filter (\<lambda>addr. case dm_self_url m of Some self_url \<Rightarrow> addr \<noteq> self_url | None \<Rightarrow> True) addresses;
          to_remove = filter (\<lambda>addr. addr \<notin> set filtered) (map fst (dm_active m));
          m = fold mesh_cancel to_remove m
      in fold mesh_dial filtered m)"

definition peer_count :: "DerpMesh \<Rightarrow> nat" where
  "peer_count m = length (dm_active m)"

definition mesh_close :: "DerpMesh \<Rightarrow> DerpMesh" where
  "mesh_close m =
     m \<lparr> dm_active := hm_empty, dm_cancelled := dm_cancelled m @ hm_values (dm_active m) \<rparr>"

section \<open>One link\<close>

definition to_websocket_url :: "string \<Rightarrow> string" where
  "to_websocket_url address =
     (case strip_prefix ''https://'' address of
        Some rest \<Rightarrow> ''wss://'' @ rest
      | None \<Rightarrow>
          (case strip_prefix ''http://'' address of
             Some rest \<Rightarrow> ''ws://'' @ rest
           | None \<Rightarrow> address))"

text \<open>Delays in milliseconds.\<close>

definition MESH_RECONNECT_INITIAL_DELAY :: nat where
  "MESH_RECONNECT_INITIAL_DELAY = 500"

definition MESH_RECONNECT_MAX_DELAY :: nat where
  "MESH_RECONNECT_MAX_DELAY = 60000"

definition next_delay :: "nat \<Rightarrow> nat" where
  "next_delay delay = min (delay * 2) MESH_RECONNECT_MAX_DELAY"

datatype MeshLoopResult = LinkCancelled | LinkDisconnected string

datatype MeshEvent = CancelEvent | MessageEvent WsMessage | ReadErrorEvent string | StreamClosed

text \<open>
  The first message must be the peer's key (\<open>None\<close>: the stream ended); a \<open>None\<close> answer lets the
  handshake go on.
\<close>

definition expect_server_key :: "(string, WsMessage) result option \<Rightarrow> MeshLoopResult option" where
  "expect_server_key first =
     (case first of
        Some (Inr (Binary data)) \<Rightarrow>
          (case parse_frame data of
             Inr (frame, _) \<Rightarrow>
               if df_type frame = ServerKey then None
               else Some (LinkDisconnected (''expected ServerKey, got '' @ frame_type_debug (df_type frame)))
           | Inl err \<Rightarrow> Some (LinkDisconnected (''parse ServerKey: '' @ frame_error_display err)))
      | Some (Inr _) \<Rightarrow> Some (LinkDisconnected ''expected binary ServerKey'')
      | Some (Inl err) \<Rightarrow> Some (LinkDisconnected (''read ServerKey: '' @ err))
      | None \<Rightarrow> Some (LinkDisconnected ''stream closed before ServerKey''))"

definition handshake_bytes :: "NodeKey \<Rightarrow> byte list \<Rightarrow> byte list list" where
  "handshake_bytes server_key mesh_key =
     [frame_to_bytes (client_info_frame server_key)] @
     (if mesh_key \<noteq> [] then [frame_to_bytes (mesh_key_frame mesh_key)] else []) @
     [frame_to_bytes watch_conns_frame]"

text \<open>The state of a link: the local server and the peers the link has registered.\<close>

definition mesh_frame :: "nat \<Rightarrow> DerpFrame \<Rightarrow> DerpServer \<times> NodeKey list \<Rightarrow> DerpServer \<times> NodeKey list" where
  "mesh_frame forward_tx frame st =
     (let (s, registered) = st in
      case df_type frame of
        PeerPresent \<Rightarrow>
          (case parse_peer_key PeerPresent (df_payload frame) of
             Inr peer \<Rightarrow> (add_packet_forwarder peer forward_tx s, registered @ [peer])
           | Inl _ \<Rightarrow> st)
      | PeerGone \<Rightarrow>
          (case parse_peer_key PeerGone (df_payload frame) of
             Inr peer \<Rightarrow> (remove_packet_forwarder peer s, filter (\<lambda>k. k \<noteq> peer) registered)
           | Inl _ \<Rightarrow> st)
      | _ \<Rightarrow> st)"

fun mesh_read_loop ::
  "nat \<Rightarrow> MeshEvent list \<Rightarrow> DerpServer \<times> NodeKey list \<Rightarrow> (DerpServer \<times> NodeKey list) \<times> string option" where
  "mesh_read_loop tx [] st = (st, None)"
| "mesh_read_loop tx (CancelEvent # es) st = (st, Some ''cancelled'')"
| "mesh_read_loop tx (MessageEvent (Binary data) # es) st =
     (case parse_frame data of
        Inr (frame, _) \<Rightarrow> mesh_read_loop tx es (mesh_frame tx frame st)
      | Inl _ \<Rightarrow> mesh_read_loop tx es st)"
| "mesh_read_loop tx (MessageEvent CloseMessage # es) st = (st, Some ''peer sent close'')"
| "mesh_read_loop tx (MessageEvent OtherMessage # es) st = mesh_read_loop tx es st"
| "mesh_read_loop tx (ReadErrorEvent err # es) st = (st, Some (''read error: '' @ err))"
| "mesh_read_loop tx (StreamClosed # es) st = (st, Some ''stream closed'')"

text \<open>
  A link from the handshake on: the channel is created, the loop runs, and when it ends the link's
  forwarders are removed and the receiver is dropped.
\<close>

definition mesh_link :: "MeshEvent list \<Rightarrow> DerpServer \<Rightarrow> DerpServer \<times> MeshLoopResult option" where
  "mesh_link events s =
     (let (s, tx) = new_channel MESH_PEER_CHANNEL_CAPACITY s;
          ((s, registered), outcome) = mesh_read_loop tx events (s, [])
      in case outcome of
           None \<Rightarrow> (s, None)
         | Some reason \<Rightarrow>
             let s = fold remove_packet_forwarder registered s
             in (drop_receiver tx s,
                 Some (if reason = ''cancelled'' then LinkCancelled else LinkDisconnected reason)))"

section \<open>The set of peers follows the configuration\<close>

definition mesh_wf :: "DerpMesh \<Rightarrow> bool" where
  "mesh_wf m \<longleftrightarrow> hm_wf (dm_active m) \<and>
     (\<forall>a i. hm_get (dm_active m) a = Some i \<longrightarrow> i < length (dm_spawned m) \<and> dm_spawned m ! i = a)"

lemma mesh_cancel_simps:
  assumes "hm_wf (dm_active m)"
  shows "hm_get (dm_active (mesh_cancel a m)) b = (if b = a then None else hm_get (dm_active m) b)"
    "dm_spawned (mesh_cancel a m) = dm_spawned m" "hm_wf (dm_active (mesh_cancel a m))"
    "dm_self_url (mesh_cancel a m) = dm_self_url m"
    "set (dm_cancelled (mesh_cancel a m)) = set (dm_cancelled m) \<union> set_option (hm_get (dm_active m) a)"
  using assms by (auto simp: mesh_cancel_def hm.get_remove hm.wf_remove split: option.split)

lemma fold_mesh_cancel:
  assumes "hm_wf (dm_active m)"
  shows "hm_get (dm_active (fold mesh_cancel as m)) b =
      (if b \<in> set as then None else hm_get (dm_active m) b) \<and>
    dm_spawned (fold mesh_cancel as m) = dm_spawned m \<and> hm_wf (dm_active (fold mesh_cancel as m)) \<and>
    set (dm_cancelled (fold mesh_cancel as m)) =
      set (dm_cancelled m) \<union> {i. \<exists>a \<in> set as. hm_get (dm_active m) a = Some i}"
  using assms
proof (induction "as" arbitrary: m)
  case (Cons a "as")
  from Cons.IH [of "mesh_cancel a m"] Cons.prems show ?case
    by (auto simp: mesh_cancel_simps split: if_splits)
qed simp

lemma mesh_dial_simps:
  assumes "mesh_wf m"
  shows "mesh_wf (mesh_dial a m)" "dm_cancelled (mesh_dial a m) = dm_cancelled m"
    "hm_get (dm_active (mesh_dial a m)) b =
      (if b = a \<and> hm_get (dm_active m) a = None then Some (length (dm_spawned m)) else hm_get (dm_active m) b)"
    "dm_spawned (mesh_dial a m) = dm_spawned m @ (if hm_get (dm_active m) a = None then [a] else [])"
  using assms
  by (auto simp: mesh_wf_def mesh_dial_def hm.wf_insert hm.get_insert nth_append less_Suc_eq
      split: if_splits)

lemma fold_mesh_dial_wf:
  "mesh_wf m \<Longrightarrow> mesh_wf (fold mesh_dial as m) \<and> dm_cancelled (fold mesh_dial as m) = dm_cancelled m"
  by (induction "as" arbitrary: m) (simp_all add: mesh_dial_simps)

lemma fold_mesh_dial_keep:
  "mesh_wf m \<Longrightarrow> hm_get (dm_active m) b = Some i \<Longrightarrow> hm_get (dm_active (fold mesh_dial as m)) b = Some i"
proof (induction "as" arbitrary: m)
  case (Cons a "as")
  have "hm_get (dm_active (mesh_dial a m)) b = Some i"
    using Cons.prems by (auto simp: mesh_dial_simps)
  with Cons show ?case by (simp add: mesh_dial_simps)
qed simp

lemma fold_mesh_dial_active:
  "mesh_wf m \<Longrightarrow>
   hm_get (dm_active (fold mesh_dial as m)) b = None \<longleftrightarrow> hm_get (dm_active m) b = None \<and> b \<notin> set as"
  by (induction "as" arbitrary: m) (auto simp: mesh_dial_simps)

lemma fold_mesh_dial_spawned:
  "mesh_wf m \<Longrightarrow>
   \<exists>new. dm_spawned (fold mesh_dial as m) = dm_spawned m @ new \<and> distinct new \<and>
     set new = {b \<in> set as. hm_get (dm_active m) b = None}"
proof (induction "as" arbitrary: m)
  case (Cons a "as")
  note step = mesh_dial_simps [OF Cons.prems, of a]
  obtain new where new: "dm_spawned (fold mesh_dial as (mesh_dial a m)) = dm_spawned (mesh_dial a m) @ new"
    "distinct new" "set new = {b \<in> set as. hm_get (dm_active (mesh_dial a m)) b = None}"
    using Cons.IH [OF step(1)] by blast
  show ?case
  proof (cases "hm_get (dm_active m) a")
    case None
    then have "a \<notin> set new" "set (a # new) = {b \<in> set (a # as). hm_get (dm_active m) b = None}"
      using new(3) step(3) by auto
    with None new step(4) show ?thesis by (intro exI [of _ "a # new"]) simp
  next
    case (Some i)
    then have "set new = {b \<in> set (a # as). hm_get (dm_active m) b = None}"
      using new(3) step(3) by auto
    with Some new step(4) show ?thesis by (intro exI [of _ new]) simp
  qed
qed simp

text \<open>
  Setting the mesh addresses is an exact difference: afterwards a link is active for exactly the
  addresses of the list other than the server's own, a link that stays is not restarted, one task is
  spawned for each address that was not active however often it is listed, and exactly the links of
  the addresses that left are cancelled.
\<close>

theorem set_addresses_exact:
  fixes addresses :: "string list" and m :: DerpMesh
  assumes "mesh_wf m"
  defines "wanted \<equiv> {a \<in> set addresses. dm_self_url m \<noteq> Some a}"
  shows "mesh_wf (set_addresses addresses m) \<and>
    (hm_get (dm_active (set_addresses addresses m)) a \<noteq> None \<longleftrightarrow> a \<in> wanted) \<and>
    (a \<in> wanted \<and> hm_get (dm_active m) a = Some i \<longrightarrow>
       hm_get (dm_active (set_addresses addresses m)) a = Some i) \<and>
    (\<exists>new. dm_spawned (set_addresses addresses m) = dm_spawned m @ new \<and> distinct new \<and>
       set new = {b \<in> wanted. hm_get (dm_active m) b = None}) \<and>
    set (dm_cancelled (set_addresses addresses m)) =
      set (dm_cancelled m) \<union> {i. \<exists>b. b \<notin> wanted \<and> hm_get (dm_active m) b = Some i}"
proof -
  define filtered where "filtered =
    filter (\<lambda>addr. case dm_self_url m of Some self_url \<Rightarrow> addr \<noteq> self_url | None \<Rightarrow> True) addresses"
  define gone where "gone = filter (\<lambda>addr. addr \<notin> set filtered) (map fst (dm_active m))"
  define n where "n = fold mesh_cancel gone m"
  have wf: "hm_wf (dm_active m)" using assms(1) by (simp add: mesh_wf_def)
  have set: "set filtered = wanted"
    by (auto simp: filtered_def wanted_def split: option.splits)
  have gone: "b \<in> set gone \<longleftrightarrow> b \<notin> wanted \<and> hm_get (dm_active m) b \<noteq> None" for b
    using hm.entries_get [OF wf, of b] by (force simp: gone_def set)
  have n: "hm_get (dm_active n) b = (if b \<in> wanted then hm_get (dm_active m) b else None)" for b
    using fold_mesh_cancel [OF wf, of gone b] gone [of b] by (auto simp: n_def)
  have n_spawned: "dm_spawned n = dm_spawned m"
    and n_cancelled: "set (dm_cancelled n) =
      set (dm_cancelled m) \<union> {i. \<exists>b. b \<notin> wanted \<and> hm_get (dm_active m) b = Some i}"
    using fold_mesh_cancel [OF wf, of gone] gone by (auto simp: n_def)
  have wfn: "mesh_wf n"
    using assms(1) n n_spawned fold_mesh_cancel [OF wf, of gone]
    by (auto simp: mesh_wf_def n_def split: if_splits)
  define d where "d = fold mesh_dial filtered n"
  have d: "set_addresses addresses m = d"
    by (simp add: set_addresses_def Let_def filtered_def gone_def n_def d_def)
  obtain new where new: "dm_spawned d = dm_spawned n @ new" "distinct new"
    "set new = {b \<in> wanted. hm_get (dm_active n) b = None}"
    using fold_mesh_dial_spawned [OF wfn, of filtered] unfolding set d_def by blast
  have "set new = {b \<in> wanted. hm_get (dm_active m) b = None}"
    unfolding new(3) by (auto simp: n)
  with new have spawned: "\<exists>new. dm_spawned d = dm_spawned m @ new \<and> distinct new \<and>
      set new = {b \<in> wanted. hm_get (dm_active m) b = None}"
    by (auto simp: n_spawned)
  have "hm_get (dm_active d) a \<noteq> None \<longleftrightarrow> a \<in> wanted"
    unfolding d_def fold_mesh_dial_active [OF wfn] set by (simp add: n)
  moreover have "a \<in> wanted \<and> hm_get (dm_active m) a = Some i \<longrightarrow> hm_get (dm_active d) a = Some i"
    using fold_mesh_dial_keep [OF wfn, of a i filtered] by (simp add: n d_def)
  ultimately show ?thesis
    unfolding d using fold_mesh_dial_wf [OF wfn, of filtered] spawned n_cancelled
    by (intro conjI) (simp_all add: d_def)
qed

theorem set_addresses_exact_witness:
  "hm_get (dm_active (set_addresses [''b'', ''self'', ''b''] (mesh_new [] (Some ''self'')))) ''b'' \<noteq> None \<and>
   hm_get (dm_active (set_addresses [''b'', ''self'', ''b''] (mesh_new [] (Some ''self'')))) ''self'' = None"
proof -
  have wf: "mesh_wf (mesh_new [] (Some ''self''))"
    by (simp add: mesh_wf_def mesh_new_def hm.wf_empty)
  show ?thesis
    using set_addresses_exact [OF wf, of "[''b'', ''self'', ''b'']" "''b''"]
      set_addresses_exact [OF wf, of "[''b'', ''self'', ''b'']" "''self''"]
    by (simp add: mesh_new_def)
qed

section \<open>A link takes its forwarders with it\<close>

lemma get_remove_forwarders:
  "hm_wf (ds_mesh_forwarders s) \<Longrightarrow>
   hm_get (ds_mesh_forwarders (fold remove_packet_forwarder ks s)) k =
     (if k \<in> set ks then None else hm_get (ds_mesh_forwarders s) k)"
  by (induction ks arbitrary: s) (auto simp: remove_packet_forwarder_def hm.get_remove hm.wf_remove)

text \<open>Every forwarder that uses the link's channel belongs to a peer the link has registered.\<close>

definition link_inv :: "nat \<Rightarrow> DerpServer \<times> NodeKey list \<Rightarrow> bool" where
  "link_inv tx st \<longleftrightarrow>
     hm_wf (ds_mesh_forwarders (fst st)) \<and>
     (\<forall>k. hm_get (ds_mesh_forwarders (fst st)) k = Some tx \<longrightarrow> k \<in> set (snd st))"

lemma link_inv_frame: "link_inv tx st \<Longrightarrow> link_inv tx (mesh_frame tx f st)"
  by (cases st)
    (auto simp: link_inv_def mesh_frame_def add_packet_forwarder_def remove_packet_forwarder_def
      hm.get_insert hm.get_remove hm.wf_insert hm.wf_remove split: FrameType.split sum.split if_splits)

lemma link_inv_loop: "link_inv tx st \<Longrightarrow> link_inv tx (fst (mesh_read_loop tx es st))"
  by (induction tx es st rule: mesh_read_loop.induct) (auto simp: link_inv_frame split: sum.split)

text \<open>
  No stale forwarder outlives its link: when a mesh link ends, for whatever reason and after any
  traffic, no destination is forwarded to that link's channel any more, so packets are not silently
  queued for a connection that is gone.
\<close>

theorem mesh_link_cleanup:
  assumes "server_inv s" and "mesh_link events s = (s', Some outcome)"
  shows "hm_get (ds_mesh_forwarders s') k \<noteq> Some (length (ds_channels s))"
proof -
  define tx where "tx = length (ds_channels s)"
  obtain t registered reason where loop:
    "mesh_read_loop tx events (fst (new_channel MESH_PEER_CHANNEL_CAPACITY s), []) = ((t, registered), Some reason)"
    and s': "s' = drop_receiver tx (fold remove_packet_forwarder registered t)"
    using assms(2)
    by (auto simp: mesh_link_def Let_def new_channel_def tx_def split: prod.splits option.splits)
  have "link_inv tx (fst (new_channel MESH_PEER_CHANNEL_CAPACITY s), [])"
    using assms(1) by (auto simp: link_inv_def new_channel_def server_inv_def tx_def)
  from link_inv_loop [OF this, of events] have inv: "link_inv tx (t, registered)"
    by (simp add: loop)
  then have "hm_get (ds_mesh_forwarders s') k \<noteq> Some tx"
    by (auto simp: s' drop_receiver_def link_inv_def get_remove_forwarders)
  then show ?thesis by (simp add: tx_def)
qed

theorem mesh_link_cleanup_witness:
  "\<exists>s'. mesh_link [MessageEvent (Binary (frame_to_bytes (peer_present_frame (replicate 32 5)))), StreamClosed]
      (derp_server_new (replicate 32 1)) = (s', Some (LinkDisconnected ''stream closed'')) \<and>
    hm_get (ds_mesh_forwarders s') (replicate 32 5) \<noteq> Some 0"
proof -
  have inv: "server_inv (derp_server_new (replicate 32 1))"
    by (simp add: server_inv_def derp_server_new_def hm.wf_empty key_ok_def NODE_KEY_LEN_def)
  have "\<exists>s'. mesh_link [MessageEvent (Binary data), StreamClosed] (derp_server_new (replicate 32 1)) =
      (s', Some (LinkDisconnected ''stream closed''))" for data
    by (auto simp: mesh_link_def Let_def split: prod.splits sum.splits)
  then obtain s' where link: "mesh_link
      [MessageEvent (Binary (frame_to_bytes (peer_present_frame (replicate 32 5)))), StreamClosed]
      (derp_server_new (replicate 32 1)) = (s', Some (LinkDisconnected ''stream closed''))"
    by blast
  from mesh_link_cleanup [OF inv link, of "replicate 32 5"] link show ?thesis
    by (auto simp: derp_server_new_def)
qed

section \<open>Packets across the mesh\<close>

text \<open>
  The mesh loses the sender: a packet for a client of another server is forwarded without its
  source, and the other server, which knows the link under the first server's key, delivers it as
  coming from the first server and not from the client that sent it.
\<close>

theorem mesh_forwarding_loses_source:
  fixes src dst :: NodeKey and data :: "byte list" and a b :: RelayState
  assumes "key_ok dst" and "length data + 32 \<le> 10 * 2 ^ 20"
    and "hm_get (ds_clients (st_server a)) dst = None"
    and "hm_get (ds_mesh_forwarders (st_server a)) dst = Some link"
    and "link < length (ds_channels (st_server a))" and "has_room (ds_channels (st_server a) ! link)"
    and "server_inv (st_server b)" and "hm_get (ds_clients (st_server b)) dst = Some client"
    and "has_room (ds_channels (st_server b) ! dc_sender client)"
  defines "a' \<equiv> session_binary src (frame_to_bytes (send_packet_frame dst data)) a"
  shows "\<exists>f. queue (st_server a') link = queue (st_server a) link @ [f] \<and>
    queue (st_server (session_binary (ds_server_key (st_server a)) (frame_to_bytes f) b)) (dc_sender client) =
      queue (st_server b) (dc_sender client) @ [recv_packet_frame (ds_server_key (st_server a)) data]"
proof (intro exI [of _ "send_packet_frame dst data"] conjI)
  show "queue (st_server a') link = queue (st_server a) link @ [send_packet_frame dst data]"
    unfolding a'_def session_binary_send_packet [OF assms(1,2)]
    using assms(3-6) by (simp add: send_packet_def queue_try_send)
  show "queue (st_server (session_binary (ds_server_key (st_server a))
        (frame_to_bytes (send_packet_frame dst data)) b)) (dc_sender client) =
      queue (st_server b) (dc_sender client) @ [recv_packet_frame (ds_server_key (st_server a)) data]"
    unfolding session_binary_send_packet [OF assms(1,2)]
    using server_inv_client [OF assms(7,8)] assms(8,9) by (simp add: send_packet_def queue_try_send)
qed

text \<open>A server with one mesh link that has announced the client of \<open>demo_relay\<close>.\<close>

definition demo_mesh_relay :: RelayState where
  "demo_mesh_relay =
     \<lparr> st_server = \<lparr> ds_server_key = replicate 32 9, ds_clients = [], ds_watchers = [],
         ds_mesh_forwarders = [(replicate 32 2, 0)],
         ds_channels = [\<lparr> ch_capacity = 64, ch_queue = [], ch_open = True \<rparr>] \<rparr>,
       st_tracker = tracker_new, st_watch_tasks = [] \<rparr>"

lemma demo_relay_inv: "server_inv (st_server demo_relay)"
  by (simp add: demo_relay_server server_inv_def hm_defs key_ok_def NODE_KEY_LEN_def)

theorem mesh_forwarding_loses_source_witness:
  "\<exists>f. queue (st_server (session_binary (replicate 32 3)
          (frame_to_bytes (send_packet_frame (replicate 32 2) [7])) demo_mesh_relay)) 0 = [f] \<and>
     queue (st_server (session_binary (replicate 32 9) (frame_to_bytes f) demo_relay)) 0 =
       [recv_packet_frame (replicate 32 9) [7]]"
proof -
  have key: "key_ok (replicate 32 2)" by (simp add: key_ok_def NODE_KEY_LEN_def)
  show ?thesis
    using mesh_forwarding_loses_source [OF key, of "[7]" demo_mesh_relay 0 demo_relay
        "\<lparr> dc_key = replicate 32 2, dc_sender = 0, dc_preferred = False, dc_connected_at = 0 \<rparr>" "replicate 32 3"]
      demo_relay_inv
    by (simp add: demo_mesh_relay_def demo_relay_server hm_get_def has_room_def
        queue_def [of "\<lparr> ds_server_key = a, ds_clients = b, ds_watchers = c, ds_mesh_forwarders = d,
          ds_channels = e \<rparr>" for a b c d e])
qed

section \<open>The relay as a transition system\<close>

text \<open>
  Everything that can happen to the relay: sessions opened by whatever client information the sockets
  deliver, their messages, their tasks and their ends, and the announcements of mesh links.
\<close>

inductive relay_step :: "RelayState \<Rightarrow> RelayState \<Rightarrow> bool" where
  step_open: "receive_client_info msg = Some k \<Longrightarrow> relay_step st (fst (session_open now k st))"
| step_messages: "receive_client_info msg = Some k \<Longrightarrow> relay_step st (session_loop k msgs st)"
| step_close: "relay_step st (session_close k rx st)"
| step_writer: "relay_step st (fst (writer_step k rx st))"
| step_keep_alive: "relay_step st (fst (keep_alive_step k st))"
| step_watch_task: "relay_step st (fst (watch_task_step rx k st))"
| step_link_open: "relay_step st (on_server (\<lambda>s. fst (new_channel MESH_PEER_CHANNEL_CAPACITY s)) st)"
| step_link_frame: "tx < length (ds_channels (st_server st)) \<Longrightarrow>
    relay_step st (on_server (\<lambda>s. fst (mesh_frame tx f (s, registered))) st)"
| step_link_close: "relay_step st (on_server (\<lambda>s. drop_receiver tx (fold remove_packet_forwarder ks s)) st)"

definition relay_init :: "RelayState \<Rightarrow> bool" where
  "relay_init st \<longleftrightarrow>
     (\<exists>key. key_ok key \<and>
        st = \<lparr> st_server = derp_server_new key, st_tracker = tracker_new, st_watch_tasks = [] \<rparr>)"

definition relay_inv :: "RelayState \<Rightarrow> bool" where
  "relay_inv st \<longleftrightarrow> server_inv (st_server st)"

lemma receive_client_info_ok: "receive_client_info msg = Some k \<Longrightarrow> key_ok k"
  by (auto simp: receive_client_info_def from_slice_eq
      split: option.splits WsMessage.splits sum.splits if_splits)

lemma relay_inv_handle: "key_ok k \<Longrightarrow> relay_inv st \<Longrightarrow> relay_inv (handle_client_frame k f st)"
  by (auto simp: relay_inv_def handle_client_frame_def Let_def case_prod_unfold server_inv_watch
      split: FrameType.split sum.split)

lemma relay_inv_loop: "key_ok k \<Longrightarrow> relay_inv st \<Longrightarrow> relay_inv (session_loop k msgs st)"
proof (induction k msgs st rule: session_loop.induct)
  case (2 k data msgs st)
  have "relay_inv (session_binary k data st)"
    using 2 relay_inv_handle [OF "2.prems"(1), of "on_tracker g st" for g]
    by (auto simp: session_binary_def Let_def relay_inv_def split: sum.split)
  with 2 show ?case by simp
qed auto

lemma server_inv_mesh_frame:
  assumes "server_inv s" and "tx < length (ds_channels s)"
  shows "server_inv (fst (mesh_frame tx f (s, registered)))"
  using assms
  by (auto simp: mesh_frame_def intro!: server_inv_add_forwarder dest: parse_peer_key_Ok
      split: FrameType.split sum.split)

lemma server_inv_remove_forwarders:
  "server_inv s \<Longrightarrow> server_inv (fold remove_packet_forwarder ks s)"
  by (induction ks arbitrary: s) simp_all

lemma relay_inv_tasks:
  assumes "relay_inv st"
  shows "relay_inv (fst (writer_step k rx st))" "relay_inv (fst (keep_alive_step k st))"
    "relay_inv (fst (watch_task_step rx k st))"
proof -
  have recv: "server_inv s" if "recv rx (st_server st) = (s, x)" for s x
    using server_inv_recv [of "st_server st" rx] assms that by (simp add: relay_inv_def)
  have send: "server_inv s'" if "server_inv s" "send_raw_frame k f s = (s', ok)" for s s' f ok
    using server_inv_send_raw [OF that(1), of k f] that(2) by simp
  show "relay_inv (fst (writer_step k rx st))"
    using assms by (auto simp: writer_step_def relay_inv_def Let_def recv split: prod.split option.split)
  show "relay_inv (fst (keep_alive_step k st))"
    using assms by (auto simp: keep_alive_step_def relay_inv_def case_prod_unfold Let_def)
  show "relay_inv (fst (watch_task_step rx k st))"
    using assms
    by (auto simp: watch_task_step_def relay_inv_def Let_def split: prod.split option.split
        dest!: recv dest: send)
qed

lemma relay_inv_open: "key_ok k \<Longrightarrow> relay_inv st \<Longrightarrow> relay_inv (fst (session_open now k st))"
  by (simp add: session_open_def relay_inv_def Let_def case_prod_unfold server_inv_accept)

lemma relay_inv_server:
  assumes "relay_inv st"
  shows "relay_inv (session_close k rx st)"
    "relay_inv (on_server (\<lambda>s. fst (new_channel MESH_PEER_CHANNEL_CAPACITY s)) st)"
    "relay_inv (on_server (\<lambda>s. drop_receiver tx (fold remove_packet_forwarder ks s)) st)"
    "tx < length (ds_channels (st_server st)) \<Longrightarrow>
      relay_inv (on_server (\<lambda>s. fst (mesh_frame tx f (s, registered))) st)"
  using assms server_inv_new_channel [of "st_server st"]
  by (simp_all add: relay_inv_def session_close_def Let_def server_inv_remove_forwarders
      server_inv_mesh_frame MESH_PEER_CHANNEL_CAPACITY_def)

interpretation relay: transition_invariant relay_init relay_step relay_inv
proof unfold_locales
  show "relay_init st \<Longrightarrow> relay_inv st" for st
    by (auto simp: relay_init_def relay_inv_def server_inv_def derp_server_new_def hm.wf_empty)
  show "relay_inv st \<Longrightarrow> relay_step st st' \<Longrightarrow> relay_inv st'" for st st'
    by (erule relay_step.cases)
      (simp_all add: relay_inv_tasks relay_inv_loop relay_inv_open relay_inv_server
        receive_client_info_ok)
qed



end
