(* ===== verification/Proxy_Routing.thy ===== *)
theory Proxy_Routing
  imports Circuit_Breaker Core_Types
begin

text \<open>
  The workspace proxy router of \<open>crates/coder-connectivity/src/proxy_routing.rs\<close>, on top of the circuit
  breaker. A breaker is shared by every clone of its handle, so the router's breakers live in a list
  and an entry holds the index of its own; instants and durations are those of the breaker.
\<close>

section \<open>Data and operations\<close>

record WorkspaceProxyHealthRecord =
  wp_id :: uuid
  wp_name :: string
  wp_display_name :: string
  wp_icon_url :: string
  wp_path_app_url :: string
  wp_wildcard_hostname :: string
  wp_derp_enabled :: bool
  wp_derp_only :: bool
  wp_created_at :: int
  wp_updated_at :: int
  wp_deleted :: bool
  wp_version :: string

record ProxyEntry =
  pe_record :: WorkspaceProxyHealthRecord
  pe_breaker :: nat

record ProxyRouter =
  ro_entries :: "ProxyEntry list"
  ro_breakers :: "CircuitBreaker list"
  ro_config :: CircuitBreakerConfig
  ro_last_refresh :: "nat option"
  ro_refresh_interval :: nat

definition router_new :: "CircuitBreakerConfig \<Rightarrow> ProxyRouter" where
  "router_new config =
     \<lparr> ro_entries = [], ro_breakers = [], ro_config = config, ro_last_refresh = None,
       ro_refresh_interval = 30 * 1000000000 \<rparr>"

definition router_with_defaults :: ProxyRouter where
  "router_with_defaults =
     router_new \<lparr> failure_threshold = 3, reset_timeout = 30 * 1000000000, half_open_max_probes = 2 \<rparr>"

definition old_breakers :: "ProxyEntry list \<Rightarrow> (uuid, nat) hash_map" where
  "old_breakers entries = fold (\<lambda>e. hm_insert (wp_id (pe_record e)) (pe_breaker e)) entries hm_empty"

definition refresh_one ::
  "(uuid, nat) hash_map \<Rightarrow> CircuitBreakerConfig \<Rightarrow> WorkspaceProxyHealthRecord \<Rightarrow>
   ProxyEntry list \<times> CircuitBreaker list \<Rightarrow> ProxyEntry list \<times> CircuitBreaker list" where
  "refresh_one old config proxy st =
     (let (new, breakers) = st in
      if wp_deleted proxy then (new, breakers)
      else case hm_get old (wp_id proxy) of
             Some b \<Rightarrow> (new @ [\<lparr> pe_record = proxy, pe_breaker = b \<rparr>], breakers)
           | None \<Rightarrow>
               (new @ [\<lparr> pe_record = proxy, pe_breaker = length breakers \<rparr>],
                breakers @ [breaker_new (''proxy_'' @ wp_name proxy) config]))"

definition router_refresh :: "nat \<Rightarrow> WorkspaceProxyHealthRecord list \<Rightarrow> ProxyRouter \<Rightarrow> ProxyRouter" where
  "router_refresh now proxies r =
     (let old = old_breakers (ro_entries r);
          (new, breakers) = fold (refresh_one old (ro_config r)) proxies ([], ro_breakers r)
      in r \<lparr> ro_entries := new, ro_breakers := breakers, ro_last_refresh := Some now \<rparr>)"

definition needs_refresh :: "nat \<Rightarrow> ProxyRouter \<Rightarrow> bool" where
  "needs_refresh now r =
     (case ro_last_refresh r of None \<Rightarrow> True | Some t \<Rightarrow> ro_refresh_interval r \<le> now - t)"

definition all_proxies :: "ProxyRouter \<Rightarrow> ProxyEntry list" where
  "all_proxies r = ro_entries r"

text \<open>The breakers are asked one after the other; \<open>clock i\<close> is the instant of the i-th.\<close>

fun select_loop ::
  "(nat \<Rightarrow> nat) \<Rightarrow> nat \<Rightarrow> ProxyEntry list \<Rightarrow> CircuitBreaker list \<Rightarrow> CircuitBreaker list \<times> ProxyEntry list" where
  "select_loop clock i [] breakers = (breakers, [])"
| "select_loop clock i (e # es) breakers =
     (let (b, s) = state (clock i) (breakers ! pe_breaker e);
          (breakers, healthy) = select_loop clock (Suc i) es (breakers[pe_breaker e := b])
      in (breakers, if s \<noteq> Open then e # healthy else healthy))"

definition select_healthy_proxies :: "(nat \<Rightarrow> nat) \<Rightarrow> ProxyRouter \<Rightarrow> ProxyRouter \<times> ProxyEntry list" where
  "select_healthy_proxies clock r =
     (let (breakers, healthy) = select_loop clock 0 (ro_entries r) (ro_breakers r)
      in (r \<lparr> ro_breakers := breakers \<rparr>, healthy))"

definition on_breaker :: "uuid \<Rightarrow> (CircuitBreaker \<Rightarrow> CircuitBreaker) \<Rightarrow> ProxyRouter \<Rightarrow> ProxyRouter" where
  "on_breaker proxy_id f r =
     (case find (\<lambda>e. wp_id (pe_record e) = proxy_id) (ro_entries r) of
        Some e \<Rightarrow>
          r \<lparr> ro_breakers := (ro_breakers r)[pe_breaker e := f (ro_breakers r ! pe_breaker e)] \<rparr>
      | None \<Rightarrow> r)"

definition router_record_success :: "uuid \<Rightarrow> ProxyRouter \<Rightarrow> ProxyRouter" where
  "router_record_success proxy_id r = on_breaker proxy_id report_success r"

definition router_record_failure :: "nat \<Rightarrow> uuid \<Rightarrow> ProxyRouter \<Rightarrow> ProxyRouter" where
  "router_record_failure now proxy_id r = on_breaker proxy_id (report_failure now) r"

datatype ProxyRouteError = AllProxiesUnhealthy

fun proxy_route_error_display :: "ProxyRouteError \<Rightarrow> string" where
  "proxy_route_error_display AllProxiesUnhealthy = ''all workspace proxies are unhealthy''"

section \<open>Each proxy has its own breaker\<close>

abbreviation entry_id :: "ProxyEntry \<Rightarrow> uuid" where
  "entry_id e \<equiv> wp_id (pe_record e)"

definition entries_inv :: "nat \<Rightarrow> ProxyEntry list \<Rightarrow> bool" where
  "entries_inv n es \<longleftrightarrow>
     distinct (map entry_id es) \<and> distinct (map pe_breaker es) \<and> (\<forall>e \<in> set es. pe_breaker e < n)"

definition router_inv :: "ProxyRouter \<Rightarrow> bool" where
  "router_inv r \<longleftrightarrow> entries_inv (length (ro_breakers r)) (ro_entries r)"

definition breaker_of :: "ProxyRouter \<Rightarrow> uuid \<Rightarrow> CircuitBreaker option" where
  "breaker_of r i =
     map_option (\<lambda>e. ro_breakers r ! pe_breaker e) (find (\<lambda>e. entry_id e = i) (ro_entries r))"

lemma find_entry:
  assumes "distinct (map entry_id es)"
  shows "find (\<lambda>e. entry_id e = i) es = Some e \<longleftrightarrow> e \<in> set es \<and> entry_id e = i"
  using assms by (induction es) (auto simp: image_iff)

lemma same_breaker:
  "router_inv r \<Longrightarrow> e \<in> set (ro_entries r) \<Longrightarrow> f \<in> set (ro_entries r) \<Longrightarrow>
   pe_breaker e = pe_breaker f \<longleftrightarrow> e = f"
  by (auto simp: router_inv_def entries_inv_def distinct_map inj_on_def)

lemma router_inv_on_breaker [simp]: "router_inv r \<Longrightarrow> router_inv (on_breaker i f r)"
  by (simp add: router_inv_def on_breaker_def split: option.split)

lemma breaker_of_on_breaker:
  assumes "router_inv r"
  shows "breaker_of (on_breaker i f r) j = map_option (if j = i then f else id) (breaker_of r j)"
proof -
  have d: "distinct (map entry_id (ro_entries r))" using assms by (simp add: router_inv_def entries_inv_def)
  have lt: "e \<in> set (ro_entries r) \<Longrightarrow> pe_breaker e < length (ro_breakers r)" for e
    using assms by (simp add: router_inv_def entries_inv_def)
  show ?thesis
  proof (cases "find (\<lambda>e. entry_id e = i) (ro_entries r)")
    case None
    then show ?thesis by (auto simp: on_breaker_def breaker_of_def option.map_id0)
  next
    case (Some e)
    then have e: "e \<in> set (ro_entries r)" "entry_id e = i" by (simp_all add: find_entry [OF d])
    show ?thesis
    proof (cases "find (\<lambda>e. entry_id e = j) (ro_entries r)")
      case None
      with Some show ?thesis by (simp add: on_breaker_def breaker_of_def)
    next
      case f: (Some g)
      then have g: "g \<in> set (ro_entries r)" "entry_id g = j" by (simp_all add: find_entry [OF d])
      have "pe_breaker e = pe_breaker g \<longleftrightarrow> e = g" using same_breaker [OF assms e(1) g(1)] .
      with Some f e g lt show ?thesis
        by (auto simp: on_breaker_def breaker_of_def nth_list_update)
    qed
  qed
qed

section \<open>Refreshing\<close>

lemma old_breakers_get:
  assumes "distinct (map entry_id es)"
  shows "hm_get (old_breakers es) i = map_option pe_breaker (find (\<lambda>e. entry_id e = i) es)"
proof -
  have "hm_get (fold (\<lambda>e. hm_insert (entry_id e) (pe_breaker e)) es m) i =
      (case find (\<lambda>e. entry_id e = i) es of Some e \<Rightarrow> Some (pe_breaker e) | None \<Rightarrow> hm_get m i)" for m
    using assms
  proof (induction es arbitrary: m)
    case (Cons e es)
    have "find (\<lambda>e. entry_id e = i) es = None" if "entry_id e = i"
      using Cons.prems that by (auto simp: find_None_iff image_iff)
    with Cons show ?case by (auto simp: hm.get_insert split: option.split)
  qed simp
  from this [of hm_empty] show ?thesis
    by (simp add: old_breakers_def split: option.split)
qed

text \<open>
  What the loop of a refresh has built after some of the records: an entry per record that is not
  deleted, with the old breaker when there is one and a new one otherwise.
\<close>

definition built ::
  "(uuid, nat) hash_map \<Rightarrow> CircuitBreakerConfig \<Rightarrow> CircuitBreaker list \<Rightarrow> WorkspaceProxyHealthRecord list \<Rightarrow>
   ProxyEntry list \<Rightarrow> CircuitBreaker list \<Rightarrow> bool" where
  "built old config B ps new bs \<longleftrightarrow>
     map pe_record new = filter (\<lambda>p. \<not> wp_deleted p) ps \<and>
     (\<exists>extra. bs = B @ extra) \<and> distinct (map pe_breaker new) \<and>
     (\<forall>e \<in> set new. pe_breaker e < length bs \<and>
        (case hm_get old (entry_id e) of
           Some b \<Rightarrow> pe_breaker e = b
         | None \<Rightarrow> length B \<le> pe_breaker e \<and>
             bs ! pe_breaker e = breaker_new (''proxy_'' @ wp_name (pe_record e)) config))"

lemma built_snoc_old:
  assumes "built old config B ps new bs" and "\<not> wp_deleted p" and "hm_get old (wp_id p) = Some b"
    and "b < length B" and "wp_id p \<notin> wp_id ` set ps"
    and inj: "\<And>i j c. hm_get old i = Some c \<Longrightarrow> hm_get old j = Some c \<Longrightarrow> i = j"
  shows "built old config B (ps @ [p]) (new @ [\<lparr> pe_record = p, pe_breaker = b \<rparr>]) bs"
proof -
  have "pe_breaker e \<noteq> b" if "e \<in> set new" for e
  proof (cases "hm_get old (entry_id e)")
    case None
    with that assms(1,4) show ?thesis by (auto simp: built_def)
  next
    case (Some c)
    have "map pe_record new = filter (\<lambda>p. \<not> wp_deleted p) ps" using assms(1) by (simp add: built_def)
    then have "set (map pe_record new) \<subseteq> set ps" by auto
    with that have "pe_record e \<in> set ps" by auto
    with assms(5) have "entry_id e \<noteq> wp_id p" by (metis imageI)
    with inj [OF Some] assms(3) have "c \<noteq> b" by blast
    moreover have "pe_breaker e = c" using Some that assms(1) by (auto simp: built_def)
    ultimately show ?thesis by simp
  qed
  then have "b \<notin> pe_breaker ` set new" by auto
  with assms(1-4) show ?thesis by (auto simp: built_def)
qed

lemma built_snoc_new:
  assumes "built old config B ps new bs" and "\<not> wp_deleted p" and "hm_get old (wp_id p) = None"
  shows "built old config B (ps @ [p]) (new @ [\<lparr> pe_record = p, pe_breaker = length bs \<rparr>])
    (bs @ [breaker_new (''proxy_'' @ wp_name p) config])"
proof -
  have lt: "\<forall>e \<in> set new. pe_breaker e < length bs" using assms(1) by (simp add: built_def)
  then have "length bs \<notin> pe_breaker ` set new" by auto
  moreover have "length B \<le> length bs" using assms(1) by (auto simp: built_def)
  moreover have "(bs @ [c]) ! pe_breaker e = bs ! pe_breaker e" if "e \<in> set new" for e c
    using lt that by (simp add: nth_append)
  ultimately show ?thesis
    using assms by (auto simp: built_def less_SucI split: option.splits)
qed

lemma refresh_one_simps:
  "wp_deleted p \<Longrightarrow> refresh_one old config p st = st"
  "\<not> wp_deleted p \<Longrightarrow> hm_get old (wp_id p) = Some b \<Longrightarrow>
   refresh_one old config p (new, bs) = (new @ [\<lparr> pe_record = p, pe_breaker = b \<rparr>], bs)"
  "\<not> wp_deleted p \<Longrightarrow> hm_get old (wp_id p) = None \<Longrightarrow>
   refresh_one old config p (new, bs) =
     (new @ [\<lparr> pe_record = p, pe_breaker = length bs \<rparr>],
      bs @ [breaker_new (''proxy_'' @ wp_name p) config])"
  by (simp_all add: refresh_one_def split: prod.split)

lemma fold_refresh_one:
  assumes "\<And>i b. hm_get old i = Some b \<Longrightarrow> b < length B"
    and "\<And>i j c. hm_get old i = Some c \<Longrightarrow> hm_get old j = Some c \<Longrightarrow> i = j"
    and "distinct (map wp_id ps)"
  shows "case fold (refresh_one old config) ps ([], B) of (new, bs) \<Rightarrow> built old config B ps new bs"
  using assms(3)
proof (induction ps rule: rev_induct)
  case Nil
  show ?case by (simp add: built_def)
next
  case (snoc p ps)
  obtain new bs where st: "fold (refresh_one old config) ps ([], B) = (new, bs)" by fastforce
  with snoc have IH: "built old config B ps new bs" by simp
  show ?case
  proof (cases "wp_deleted p")
    case True
    with IH st show ?thesis by (simp add: refresh_one_simps) (simp add: built_def)
  next
    case False
    show ?thesis
    proof (cases "hm_get old (wp_id p)")
      case None
      with built_snoc_new [OF IH False] st False None show ?thesis by (simp add: refresh_one_simps)
    next
      case (Some b)
      with built_snoc_old [OF IH False Some assms(1) [OF Some] _ assms(2)] st False snoc.prems
      show ?thesis using Some by (simp add: refresh_one_simps)
    qed
  qed
qed

lemma refresh_built:
  assumes "router_inv r" and "distinct (map wp_id ps)"
  shows "built (old_breakers (ro_entries r)) (ro_config r) (ro_breakers r) ps
    (ro_entries (router_refresh now ps r)) (ro_breakers (router_refresh now ps r))"
proof -
  have d: "distinct (map entry_id (ro_entries r))"
    using assms(1) by (simp add: router_inv_def entries_inv_def)
  note get = old_breakers_get [OF d]
  have old: "\<exists>e \<in> set (ro_entries r). entry_id e = i \<and> pe_breaker e = b"
    if "hm_get (old_breakers (ro_entries r)) i = Some b" for i b
    using that by (auto simp: get find_entry [OF d])
  have "i = j" if "hm_get (old_breakers (ro_entries r)) i = Some c"
    "hm_get (old_breakers (ro_entries r)) j = Some c" for i j c
    using old [OF that(1)] old [OF that(2)] same_breaker [OF assms(1)] by metis
  moreover have "b < length (ro_breakers r)" if "hm_get (old_breakers (ro_entries r)) i = Some b" for i b
    using old [OF that] assms(1) by (auto simp: router_inv_def entries_inv_def)
  ultimately have "case fold (refresh_one (old_breakers (ro_entries r)) (ro_config r)) ps ([], ro_breakers r) of
      (new, bs) \<Rightarrow> built (old_breakers (ro_entries r)) (ro_config r) (ro_breakers r) ps new bs"
    using assms(2) by (intro fold_refresh_one)
  then show ?thesis by (auto simp: router_refresh_def Let_def split: prod.splits)
qed

lemma router_inv_refresh:
  assumes "router_inv r" and "distinct (map wp_id ps)"
  shows "router_inv (router_refresh now ps r)"
proof -
  note b = refresh_built [OF assms, of now]
  have "map entry_id (ro_entries (router_refresh now ps r)) =
      map wp_id (filter (\<lambda>p. \<not> wp_deleted p) ps)"
  proof -
    have "map wp_id (map pe_record (ro_entries (router_refresh now ps r))) =
        map wp_id (filter (\<lambda>p. \<not> wp_deleted p) ps)"
      using b by (simp only: built_def)
    then show ?thesis by (simp add: comp_def)
  qed
  with b assms(2) show ?thesis
    by (simp add: router_inv_def entries_inv_def built_def distinct_map_filter)
qed

lemma breaker_of_refresh:
  assumes "router_inv r" and "distinct (map wp_id ps)" and "p \<in> set ps" and "\<not> wp_deleted p"
  shows "breaker_of (router_refresh now ps r) (wp_id p) =
    Some (case breaker_of r (wp_id p) of
            Some b \<Rightarrow> b
          | None \<Rightarrow> breaker_new (''proxy_'' @ wp_name p) (ro_config r))"
proof -
  let ?r = "router_refresh now ps r"
  note b = refresh_built [OF assms(1,2), of now]
  have inv: "router_inv ?r" using assms(1,2) by (rule router_inv_refresh)
  then have d: "distinct (map entry_id (ro_entries ?r))" by (simp add: router_inv_def entries_inv_def)
  have d0: "distinct (map entry_id (ro_entries r))"
    using assms(1) by (simp add: router_inv_def entries_inv_def)
  have "p \<in> set (map pe_record (ro_entries ?r))" using b assms(3,4) unfolding built_def by auto
  then obtain e where e: "e \<in> set (ro_entries ?r)" "pe_record e = p" by auto
  then have find: "find (\<lambda>e. entry_id e = wp_id p) (ro_entries ?r) = Some e"
    by (simp add: find_entry [OF d])
  show ?thesis
  proof (cases "find (\<lambda>e. entry_id e = wp_id p) (ro_entries r)")
    case None
    with e b have "ro_breakers ?r ! pe_breaker e = breaker_new (''proxy_'' @ wp_name p) (ro_config r)"
      unfolding built_def by (auto simp: old_breakers_get [OF d0])
    with None find show ?thesis by (simp add: breaker_of_def)
  next
    case (Some f)
    then have f: "f \<in> set (ro_entries r)" by (simp add: find_entry [OF d0])
    with assms(1) have lt: "pe_breaker f < length (ro_breakers r)"
      by (simp add: router_inv_def entries_inv_def)
    from Some e b have "pe_breaker e = pe_breaker f"
      unfolding built_def by (auto simp: old_breakers_get [OF d0])
    moreover obtain extra where "ro_breakers ?r = ro_breakers r @ extra"
      using b unfolding built_def by blast
    ultimately show ?thesis using Some find lt by (simp add: breaker_of_def nth_append)
  qed
qed

lemma breaker_of_gone:
  assumes "router_inv r" and "distinct (map wp_id ps)" and "\<forall>p \<in> set ps. wp_id p = i \<longrightarrow> wp_deleted p"
  shows "breaker_of (router_refresh now ps r) i = None"
proof -
  have "map pe_record (ro_entries (router_refresh now ps r)) = filter (\<lambda>p. \<not> wp_deleted p) ps"
    using refresh_built [OF assms(1,2)] by (simp add: built_def)
  then have "set (map pe_record (ro_entries (router_refresh now ps r))) = {p \<in> set ps. \<not> wp_deleted p}"
    by simp
  then have "entry_id e \<noteq> i" if "e \<in> set (ro_entries (router_refresh now ps r))" for e
    using assms(3) that by auto
  then show ?thesis by (auto simp: breaker_of_def find_None_iff)
qed

section \<open>Selecting\<close>

text \<open>The breaker of each entry is asked once, at its own instant, and no other breaker is touched.\<close>

lemma select_loop_Cons:
  "select_loop clock i (e # es) bs =
     (let b = refresh (clock i) (bs ! pe_breaker e);
          rest = select_loop clock (Suc i) es (bs[pe_breaker e := b])
      in (fst rest, if i_state (b_inner b) \<noteq> Open then e # snd rest else snd rest))"
  by (simp add: state_def Let_def case_prod_unfold)

lemma select_loop_frame:
  "length (fst (select_loop clock i es bs)) = length bs \<and>
   (j \<notin> pe_breaker ` set es \<longrightarrow> fst (select_loop clock i es bs) ! j = bs ! j)"
  by (induction es arbitrary: i bs) (auto simp: select_loop_Cons Let_def simp del: select_loop.simps(2))

lemma select_loop_breaker:
  assumes "distinct (map pe_breaker es)" and "\<forall>e \<in> set es. pe_breaker e < length bs" and "k < length es"
  shows "fst (select_loop clock i es bs) ! pe_breaker (es ! k) =
    refresh (clock (i + k)) (bs ! pe_breaker (es ! k))"
  using assms
proof (induction es arbitrary: i bs k)
  case (Cons e es)
  let ?bs = "bs[pe_breaker e := refresh (clock i) (bs ! pe_breaker e)]"
  have e: "pe_breaker e \<notin> pe_breaker ` set es" using Cons.prems(1) by simp
  show ?case
  proof (cases k)
    case 0
    with e Cons.prems(2) show ?thesis
      using select_loop_frame [of clock "Suc i" es ?bs "pe_breaker e"]
      by (simp add: select_loop_Cons Let_def del: select_loop.simps(2))
  next
    case (Suc n)
    with Cons.prems have "pe_breaker (es ! n) \<noteq> pe_breaker e" using e by (metis Suc_less_eq imageI length_Cons nth_mem)
    with Suc Cons.prems Cons.IH [of ?bs n "Suc i"] show ?thesis
      by (simp add: select_loop_Cons Let_def del: select_loop.simps(2))
  qed
qed simp

lemma select_loop_selected:
  assumes "distinct (map pe_breaker es)" and "\<forall>e \<in> set es. pe_breaker e < length bs"
  shows "snd (select_loop clock i es bs) =
    map snd (filter (\<lambda>(k, e). i_state (b_inner (refresh (clock k) (bs ! pe_breaker e))) \<noteq> Open)
      (enumerate i es))"
  using assms
proof (induction es arbitrary: i bs)
  case (Cons e es)
  let ?bs = "bs[pe_breaker e := refresh (clock i) (bs ! pe_breaker e)]"
  have e: "pe_breaker e \<notin> pe_breaker ` set es" using Cons.prems(1) by simp
  have "?bs ! pe_breaker (snd x) = bs ! pe_breaker (snd x)" if "x \<in> set (enumerate (Suc i) es)" for x
  proof -
    have "snd x \<in> set (map snd (enumerate (Suc i) es))" using that by (simp del: map_snd_enumerate)
    then have "snd x \<in> set es" by simp
    with e have "pe_breaker (snd x) \<noteq> pe_breaker e" by (metis imageI)
    then show ?thesis by simp
  qed
  then have "filter (\<lambda>(k, e). i_state (b_inner (refresh (clock k) (?bs ! pe_breaker e))) \<noteq> Open)
        (enumerate (Suc i) es) =
      filter (\<lambda>(k, e). i_state (b_inner (refresh (clock k) (bs ! pe_breaker e))) \<noteq> Open)
        (enumerate (Suc i) es)"
    by (intro filter_cong) (auto simp: case_prod_unfold)
  with Cons.IH [of ?bs "Suc i"] Cons.prems show ?case
    by (simp add: select_loop_Cons Let_def del: select_loop.simps(2))
qed simp

lemma router_inv_select [simp]: "router_inv r \<Longrightarrow> router_inv (fst (select_healthy_proxies clock r))"
  using select_loop_frame [of clock 0 "ro_entries r" "ro_breakers r"]
  by (simp add: router_inv_def select_healthy_proxies_def Let_def case_prod_unfold)

lemma breaker_of_select:
  assumes "router_inv r"
  shows "breaker_of (fst (select_healthy_proxies (\<lambda>_. now) r)) i = map_option (refresh now) (breaker_of r i)"
proof (cases "find (\<lambda>e. entry_id e = i) (ro_entries r)")
  case None
  then show ?thesis by (simp add: breaker_of_def select_healthy_proxies_def Let_def case_prod_unfold)
next
  case (Some e)
  have "e \<in> set (ro_entries r)" using Some by (auto simp: find_Some_iff)
  then obtain k where "k < length (ro_entries r)" "ro_entries r ! k = e" by (auto simp: in_set_conv_nth)
  with select_loop_breaker [of "ro_entries r" "ro_breakers r" k "\<lambda>_. now" 0] assms Some show ?thesis
    by (simp add: breaker_of_def select_healthy_proxies_def Let_def case_prod_unfold router_inv_def
        entries_inv_def)
qed

section \<open>Properties\<close>

text \<open>Everything that can happen to a router, and what each event means for one proxy's breaker.\<close>

datatype RouterEvent =
    Outcome uuid nat bool
  | Refresh nat "WorkspaceProxyHealthRecord list"
  | Select nat

fun router_apply :: "RouterEvent \<Rightarrow> ProxyRouter \<Rightarrow> ProxyRouter" where
  "router_apply (Outcome i now ok) r =
     (if ok then router_record_success i r else router_record_failure now i r)"
| "router_apply (Refresh now ps) r = router_refresh now ps r"
| "router_apply (Select now) r = fst (select_healthy_proxies (\<lambda>_. now) r)"

fun breaker_event :: "uuid \<Rightarrow> RouterEvent \<Rightarrow> CircuitBreaker \<Rightarrow> CircuitBreaker" where
  "breaker_event i (Outcome j now ok) b = (if i = j then report (now, ok) b else b)"
| "breaker_event i (Refresh now ps) b = b"
| "breaker_event i (Select now) b = refresh now b"

text \<open>A refresh that names each proxy once and still lists the proxy in question.\<close>

fun keeps_proxy :: "uuid \<Rightarrow> RouterEvent \<Rightarrow> bool" where
  "keeps_proxy i (Refresh now ps) \<longleftrightarrow>
     distinct (map wp_id ps) \<and> (\<exists>p \<in> set ps. wp_id p = i \<and> \<not> wp_deleted p)"
| "keeps_proxy i (Outcome j now ok) \<longleftrightarrow> True"
| "keeps_proxy i (Select now) \<longleftrightarrow> True"

lemma router_apply_step:
  assumes "router_inv r" and "breaker_of r i = Some b" and "keeps_proxy i ev"
  shows "router_inv (router_apply ev r) \<and> breaker_of (router_apply ev r) i = Some (breaker_event i ev b)"
  using assms
  by (cases ev)
    (auto simp: router_record_success_def router_record_failure_def breaker_of_on_breaker
      breaker_of_select router_inv_refresh breaker_of_refresh)

text \<open>
  C31. The router refines one independent circuit breaker per proxy: after any interleaving of
  outcomes reported for any proxies, selections and refreshes that still list the proxy, the
  proxy's breaker is what a breaker of its own would be after the outcomes reported for that proxy
  and the selections. Other proxies' outcomes and refreshes of the list do not disturb it.
\<close>

theorem router_refines_breakers:
  assumes "router_inv r" and "breaker_of r i = Some b" and "\<forall>ev \<in> set evs. keeps_proxy i ev"
  shows "router_inv (fold router_apply evs r) \<and>
    breaker_of (fold router_apply evs r) i = Some (fold (breaker_event i) evs b)"
  using assms
proof (induction evs arbitrary: r b)
  case (Cons ev evs)
  with router_apply_step [OF Cons.prems(1,2), of ev] show ?case by simp
qed simp

definition example_proxy :: "uuid \<Rightarrow> string \<Rightarrow> WorkspaceProxyHealthRecord" where
  "example_proxy i name =
     \<lparr> wp_id = i, wp_name = name, wp_display_name = name, wp_icon_url = [], wp_path_app_url = [],
       wp_wildcard_hostname = [], wp_derp_enabled = True, wp_derp_only = False, wp_created_at = 0,
       wp_updated_at = 0, wp_deleted = False, wp_version = ''1'' \<rparr>"

definition example_router :: ProxyRouter where
  "example_router =
     router_refresh 0 [example_proxy 1 ''a'', example_proxy 2 ''b''] router_with_defaults"

lemma example_router_inv: "router_inv example_router"
  unfolding example_router_def
  by (rule router_inv_refresh)
    (simp_all add: router_inv_def entries_inv_def router_with_defaults_def router_new_def example_proxy_def)

lemma example_router_breaker:
  "breaker_of example_router 1 = Some (breaker_new ''proxy_a'' (ro_config router_with_defaults))"
  by (simp add: example_router_def router_refresh_def router_with_defaults_def router_new_def
      refresh_one_def old_breakers_def example_proxy_def breaker_of_def Let_def)

theorem router_refines_breakers_witness:
  "breaker_of (fold router_apply [Outcome 1 5 False, Outcome 2 6 False, Outcome 1 7 False,
       Refresh 8 [example_proxy 2 ''b'', example_proxy 1 ''a''], Outcome 1 9 False] example_router) 1 =
   Some (fold report [(5, False), (7, False), (9, False)]
     (breaker_new ''proxy_a'' (ro_config router_with_defaults)))"
  using router_refines_breakers [OF example_router_inv example_router_breaker,
      of "[Outcome 1 5 False, Outcome 2 6 False, Outcome 1 7 False,
       Refresh 8 [example_proxy 2 ''b'', example_proxy 1 ''a''], Outcome 1 9 False]"]
  by (simp add: example_proxy_def)

text \<open>
  Selection is exact: the selected proxies are, in order, those whose breaker would admit a call
  at the instant it is asked, and no others; a proxy is left out exactly when its breaker is open and
  its reset timeout has not passed.
\<close>

theorem selection_exact:
  assumes "router_inv r"
  shows "snd (select_healthy_proxies clock r) =
    map snd (filter (\<lambda>(k, e). is_ok (snd (call_preflight (clock k) (ro_breakers r ! pe_breaker e))))
      (enumerate 0 (ro_entries r)))"
proof -
  have admit: "is_ok (snd (call_preflight t b)) \<longleftrightarrow> i_state (b_inner (refresh t b)) \<noteq> Open" for t b
    by (simp add: call_preflight_def Let_def split: CircuitBreakerState.split)
  show ?thesis
    unfolding admit
    using select_loop_selected [of "ro_entries r" "ro_breakers r" clock 0] assms
    by (simp add: select_healthy_proxies_def Let_def case_prod_unfold router_inv_def entries_inv_def)
qed

theorem selection_exact_witness:
  "map (\<lambda>e. wp_id (pe_record e)) (snd (select_healthy_proxies (\<lambda>_. 10)
     (fold router_apply [Outcome 1 5 False, Outcome 1 6 False, Outcome 1 7 False] example_router))) = [2]"
proof -
  let ?r = "fold router_apply [Outcome 1 5 False, Outcome 1 6 False, Outcome 1 7 False] example_router"
  have inv: "router_inv ?r"
    by (simp add: router_record_failure_def example_router_inv)
  have "map (\<lambda>e. wp_id (pe_record e)) (map snd (filter
      (\<lambda>(k, e). is_ok (snd (call_preflight 10 (ro_breakers ?r ! pe_breaker e)))) (enumerate 0 (ro_entries ?r)))) = [2]"
    by (simp add: example_router_def router_refresh_def router_with_defaults_def router_new_def
        refresh_one_def old_breakers_def example_proxy_def Let_def router_record_failure_def on_breaker_def
        report_failure_def record_failure_def breaker_new_def saturating_add_def call_preflight_def
        Circuit_Breaker.refresh_def maybe_transition_to_half_open_def word_le_nat_alt)
  then show ?thesis unfolding selection_exact [OF inv] .
qed

end
