(* ===== verification/Identity_Tables.thy ===== *)
theory Identity_Tables
  imports Core_Types
begin

text \<open>
  The part of the database the identity-provider sync uses, as the statements of
  \<open>crates/coder-db/src/store/app_store.rs\<close> read and write it: the columns of the users,
  organizations, organization members, groups and group members that matter to it, in the order in
  which the queries return the rows. What Postgres contributes is a parameter: \<open>fault\<close> may make any
  statement fail, \<open>lower\<close> is its \<open>LOWER\<close>, \<open>gen_uuid\<close> its generator and \<open>fk_error\<close> the error of a
  violated foreign key. Primary keys, unique indexes and foreign keys are those of the migrations.
\<close>

record UserRow =
  us_id :: uuid
  us_deleted :: bool
  us_rbac_roles :: "string list"

record OrganizationRow =
  or_id :: uuid
  or_is_default :: bool
  or_deleted :: bool

record MemberRow =
  om_organization_id :: uuid
  om_user_id :: uuid
  om_roles :: "string list"
  om_is_idp_controlled :: bool

record GroupRow =
  gr_id :: uuid
  gr_name :: string
  gr_organization_id :: uuid
  gr_source :: string

record RoleSyncSettings =
  rs_field :: string
  rs_mapping :: "(string, string list) hash_map"

record GroupSyncSettings =
  gs_field :: string
  gs_mapping :: "(string, uuid list) hash_map"
  gs_regex_filter :: "string option"
  gs_auto_create_missing_groups :: bool

record OrganizationSyncSettings =
  os_field :: string
  os_mapping :: "(string, uuid list) hash_map"
  os_assign_default :: bool

record IdentityTables =
  it_users :: "UserRow list"
  it_organizations :: "OrganizationRow list"
  it_members :: "MemberRow list"
  it_groups :: "GroupRow list"
  it_group_members :: "(uuid \<times> uuid) list"
  it_role_settings :: "uuid \<Rightarrow> RoleSyncSettings"
  it_group_settings :: "uuid \<Rightarrow> GroupSyncSettings"
  it_org_settings :: OrganizationSyncSettings

datatype StoreCall =
    ListUserMemberships uuid
  | UpdateUserRoles uuid
  | FindUserById uuid
  | ListOrganizations
  | InsertOrganizationMember uuid uuid
  | DeleteOrganizationMember uuid uuid
  | UpdateOrganizationMemberRoles uuid uuid
  | FindOrganizationMember uuid uuid
  | RoleSyncSettingsOf uuid
  | GroupSyncSettingsOf uuid
  | GetOrganizationIdpSyncSettings
  | ListGroups uuid
  | CreateGroup string
  | FindGroupByName string
  | ListGroupMembers uuid
  | InsertGroupMember uuid uuid
  | DeleteGroupMember uuid uuid

record idp_env =
  fault :: "StoreCall \<Rightarrow> StorageError option"
  lower :: "string \<Rightarrow> string"
  gen_uuid :: "IdentityTables \<Rightarrow> uuid"
  fk_error :: StorageError
  regex_new :: "string \<Rightarrow> (string, string \<Rightarrow> bool) result"

definition guard_fault :: "idp_env \<Rightarrow> StoreCall \<Rightarrow> (StorageError, 'a) result \<Rightarrow> (StorageError, 'a) result" where
  "guard_fault E call r = (case fault E call of Some e \<Rightarrow> Err e | None \<Rightarrow> r)"

definition live_user :: "IdentityTables \<Rightarrow> uuid \<Rightarrow> bool" where
  "live_user t user \<longleftrightarrow> (\<exists>u \<in> set (it_users t). us_id u = user \<and> \<not> us_deleted u)"

section \<open>Users and organizations\<close>

definition find_user_by_id :: "idp_env \<Rightarrow> IdentityTables \<Rightarrow> uuid \<Rightarrow> (StorageError, UserRow option) result" where
  "find_user_by_id E t user =
     guard_fault E (FindUserById user)
       (Ok (find (\<lambda>u. us_id u = user \<and> \<not> us_deleted u) (it_users t)))"

definition update_user_roles ::
  "idp_env \<Rightarrow> uuid \<Rightarrow> string list \<Rightarrow> IdentityTables \<Rightarrow> IdentityTables \<times> (StorageError, unit) result" where
  "update_user_roles E user roles t =
     (case fault E (UpdateUserRoles user) of
        Some e \<Rightarrow> (t, Err e)
      | None \<Rightarrow>
          (t \<lparr> it_users := map (\<lambda>u. if us_id u = user \<and> \<not> us_deleted u then u \<lparr> us_rbac_roles := roles \<rparr> else u)
                 (it_users t) \<rparr>,
           if live_user t user then guard_fault E (FindUserById user) (Ok ()) else Ok ()))"

definition list_organizations ::
  "idp_env \<Rightarrow> IdentityTables \<Rightarrow> uuid list \<Rightarrow> (StorageError, OrganizationRow list) result" where
  "list_organizations E t ids =
     guard_fault E ListOrganizations
       (Ok (filter (\<lambda>r. \<not> or_deleted r \<and> (ids = [] \<or> or_id r \<in> set ids)) (it_organizations t)))"

section \<open>Memberships\<close>

definition list_user_memberships :: "idp_env \<Rightarrow> IdentityTables \<Rightarrow> uuid \<Rightarrow> (StorageError, MemberRow list) result" where
  "list_user_memberships E t user =
     guard_fault E (ListUserMemberships user)
       (Ok (if live_user t user then filter (\<lambda>m. om_user_id m = user) (it_members t) else []))"

datatype InsertOrganizationMemberError = AlreadyExists | InsertStorage StorageError

definition insert_organization_member ::
  "idp_env \<Rightarrow> uuid \<Rightarrow> uuid \<Rightarrow> bool \<Rightarrow> IdentityTables \<Rightarrow>
   IdentityTables \<times> (InsertOrganizationMemberError, unit) result" where
  "insert_organization_member E org user idp t =
     (case fault E (InsertOrganizationMember org user) of
        Some e \<Rightarrow> (t, Err (InsertStorage e))
      | None \<Rightarrow>
          if \<exists>m \<in> set (it_members t). om_organization_id m = org \<and> om_user_id m = user
          then (t, Err AlreadyExists)
          else if (\<forall>r \<in> set (it_organizations t). or_id r \<noteq> org) \<or> (\<forall>u \<in> set (it_users t). us_id u \<noteq> user)
          then (t, Err (InsertStorage (fk_error E)))
          else
            (t \<lparr> it_members := it_members t @ [\<lparr> om_organization_id = org, om_user_id = user, om_roles = [],
                                                  om_is_idp_controlled = idp \<rparr>] \<rparr>,
             case fault E (FindOrganizationMember org user) of
               Some e \<Rightarrow> Err (InsertStorage e)
             | None \<Rightarrow>
                 if live_user t user then Ok ()
                 else Err (InsertStorage (InvalidData ''inserted organization member could not be reloaded''))))"

definition delete_organization_member ::
  "idp_env \<Rightarrow> uuid \<Rightarrow> uuid \<Rightarrow> IdentityTables \<Rightarrow> IdentityTables \<times> (StorageError, bool) result" where
  "delete_organization_member E org user t =
     (case fault E (DeleteOrganizationMember org user) of
        Some e \<Rightarrow> (t, Err e)
      | None \<Rightarrow>
          (t \<lparr> it_members := filter (\<lambda>m. \<not> (om_organization_id m = org \<and> om_user_id m = user)) (it_members t) \<rparr>,
           Ok (\<exists>m \<in> set (it_members t). om_organization_id m = org \<and> om_user_id m = user)))"

definition update_organization_member_roles ::
  "idp_env \<Rightarrow> uuid \<Rightarrow> uuid \<Rightarrow> string list \<Rightarrow> IdentityTables \<Rightarrow> IdentityTables \<times> (StorageError, unit) result" where
  "update_organization_member_roles E org user roles t =
     (case fault E (UpdateOrganizationMemberRoles org user) of
        Some e \<Rightarrow> (t, Err e)
      | None \<Rightarrow>
          (t \<lparr> it_members := map (\<lambda>m. if om_organization_id m = org \<and> om_user_id m = user
                                        then m \<lparr> om_roles := roles \<rparr> else m) (it_members t) \<rparr>,
           if \<exists>m \<in> set (it_members t). om_organization_id m = org \<and> om_user_id m = user
           then guard_fault E (FindOrganizationMember org user) (Ok ()) else Ok ()))"

definition role_sync_settings :: "idp_env \<Rightarrow> IdentityTables \<Rightarrow> uuid \<Rightarrow> (StorageError, RoleSyncSettings) result" where
  "role_sync_settings E t org = guard_fault E (RoleSyncSettingsOf org) (Ok (it_role_settings t org))"

definition group_sync_settings :: "idp_env \<Rightarrow> IdentityTables \<Rightarrow> uuid \<Rightarrow> (StorageError, GroupSyncSettings) result" where
  "group_sync_settings E t org = guard_fault E (GroupSyncSettingsOf org) (Ok (it_group_settings t org))"

definition get_organization_idp_sync_settings ::
  "idp_env \<Rightarrow> IdentityTables \<Rightarrow> (StorageError, OrganizationSyncSettings) result" where
  "get_organization_idp_sync_settings E t = guard_fault E GetOrganizationIdpSyncSettings (Ok (it_org_settings t))"

section \<open>Groups\<close>

definition list_groups :: "idp_env \<Rightarrow> IdentityTables \<Rightarrow> uuid \<Rightarrow> (StorageError, GroupRow list) result" where
  "list_groups E t org =
     guard_fault E (ListGroups org) (Ok (filter (\<lambda>g. gr_organization_id g = org) (it_groups t)))"

definition create_group ::
  "idp_env \<Rightarrow> string \<Rightarrow> uuid \<Rightarrow> string option \<Rightarrow> IdentityTables \<Rightarrow>
   IdentityTables \<times> (StorageError, GroupRow) result" where
  "create_group E name org source t =
     (case fault E (CreateGroup name) of
        Some e \<Rightarrow> (t, Err e)
      | None \<Rightarrow>
          if \<exists>g \<in> set (it_groups t). gr_organization_id g = org \<and> lower E (gr_name g) = lower E name
          then (t, Err (InvalidData ''group with this name already exists in the organization''))
          else if \<forall>r \<in> set (it_organizations t). or_id r \<noteq> org then (t, Err (fk_error E))
          else
            let g = \<lparr> gr_id = gen_uuid E t, gr_name = name, gr_organization_id = org,
                       gr_source = (case source of Some s \<Rightarrow> s | None \<Rightarrow> ''user'') \<rparr>
            in (t \<lparr> it_groups := it_groups t @ [g] \<rparr>, Ok g))"

definition find_group_by_name ::
  "idp_env \<Rightarrow> IdentityTables \<Rightarrow> uuid \<Rightarrow> string \<Rightarrow> (StorageError, GroupRow option) result" where
  "find_group_by_name E t org name =
     guard_fault E (FindGroupByName name)
       (Ok (find (\<lambda>g. gr_organization_id g = org \<and> lower E (gr_name g) = lower E name) (it_groups t)))"

definition list_group_members :: "idp_env \<Rightarrow> IdentityTables \<Rightarrow> uuid \<Rightarrow> (StorageError, uuid list) result" where
  "list_group_members E t grp =
     guard_fault E (ListGroupMembers grp)
       (Ok (map snd (filter (\<lambda>(g, u). g = grp \<and> live_user t u) (it_group_members t))))"

definition insert_group_member ::
  "idp_env \<Rightarrow> uuid \<Rightarrow> uuid \<Rightarrow> IdentityTables \<Rightarrow> IdentityTables \<times> (StorageError, unit) result" where
  "insert_group_member E grp user t =
     (case fault E (InsertGroupMember grp user) of
        Some e \<Rightarrow> (t, Err e)
      | None \<Rightarrow>
          if (grp, user) \<in> set (it_group_members t)
          then (t, Err (InvalidData ''user is already a member of this group''))
          else if (\<forall>g \<in> set (it_groups t). gr_id g \<noteq> grp) \<or> (\<forall>u \<in> set (it_users t). us_id u \<noteq> user)
          then (t, Err (fk_error E))
          else (t \<lparr> it_group_members := it_group_members t @ [(grp, user)] \<rparr>, Ok ()))"

definition delete_group_member ::
  "idp_env \<Rightarrow> uuid \<Rightarrow> uuid \<Rightarrow> IdentityTables \<Rightarrow> IdentityTables \<times> (StorageError, bool) result" where
  "delete_group_member E grp user t =
     (case fault E (DeleteGroupMember grp user) of
        Some e \<Rightarrow> (t, Err e)
      | None \<Rightarrow>
          (t \<lparr> it_group_members := removeAll (grp, user) (it_group_members t) \<rparr>,
           Ok ((grp, user) \<in> set (it_group_members t))))"

end
