(* ===== verification/Idp_Sync.thy ===== *)
theory Idp_Sync
  imports Identity_Tables "HOL-Library.Char_ord" "HOL-Library.List_Lexorder"
begin

text \<open>
  The identity-provider sync of \<open>crates/coder-auth/src/idpsync\<close>: reading lists of names from the
  claims, and reconciling the user's organizations, roles and groups with them. The claims are JSON
  values; the regular expressions are those of the \<open>regex\<close> crate, a parameter. Strings compare by
  their bytes, as in Rust. A hash set is a list without repetitions, so the order in which the code
  iterates over one is whatever the list says and no result below depends on it.
\<close>

section \<open>Claims\<close>

datatype json = JNull | JBool bool | JNumber string | JString string | JArray "json list"
  | JObject "(string \<times> json) list"

definition json_get :: "string \<Rightarrow> json \<Rightarrow> json option" where
  "json_get k v = (case v of JObject kvs \<Rightarrow> map_of kvs k | _ \<Rightarrow> None)"

fun dedupe_loop :: "string hash_set \<Rightarrow> string list \<Rightarrow> string list" where
  "dedupe_loop seen [] = []"
| "dedupe_loop seen (x # xs) =
     (if x \<in> set seen then dedupe_loop seen xs else x # dedupe_loop (hs_insert x seen) xs)"

definition dedupe_stable :: "string list \<Rightarrow> string list" where
  "dedupe_stable items = dedupe_loop [] items"

definition string_items :: "json list \<Rightarrow> string list" where
  "string_items items = List.map_filter (\<lambda>v. case v of JString s \<Rightarrow> Some s | _ \<Rightarrow> None) items"

definition parse_string_slice :: "string \<Rightarrow> json \<Rightarrow> string list" where
  "parse_string_slice field claims =
     (case json_get field claims of
        None \<Rightarrow> []
      | Some (JArray items) \<Rightarrow> dedupe_stable (string_items items)
      | Some (JString s) \<Rightarrow> if s \<noteq> [] then dedupe_stable [s] else []
      | Some _ \<Rightarrow> [])"

record OidcConfig =
  oc_groups_field :: string
  oc_group_allow_list :: "string list"

definition parse_group_claims :: "OidcConfig \<Rightarrow> json \<Rightarrow> string list" where
  "parse_group_claims config claims =
     (let field = (if oc_groups_field config = [] then ''groups'' else oc_groups_field config);
          parsed = parse_string_slice field claims
      in if oc_group_allow_list config = [] then parsed
         else filter (\<lambda>g. g \<in> set (oc_group_allow_list config)) parsed)"

definition parse_org_claims :: "string \<Rightarrow> json \<Rightarrow> string list" where
  "parse_org_claims field claims = (if field = [] then [] else parse_string_slice field claims)"

definition parse_role_claims :: "string \<Rightarrow> json \<Rightarrow> string list" where
  "parse_role_claims field claims = (if field = [] then [] else parse_string_slice field claims)"

section \<open>Errors and filters\<close>

datatype IdpSyncError = Storage StorageError | InvalidRegex string

fun idp_sync_error_display :: "IdpSyncError \<Rightarrow> string" where
  "idp_sync_error_display (Storage e) = ''storage error: '' @ storage_error_display e"
| "idp_sync_error_display (InvalidRegex e) = ''invalid regex filter: '' @ e"

fun lift_storage :: "(StorageError, 'a) result \<Rightarrow> (IdpSyncError, 'a) result" where
  "lift_storage (Inl e) = Err (Storage e)"
| "lift_storage (Inr x) = Ok x"

definition compile_filter :: "idp_env \<Rightarrow> string option \<Rightarrow> (IdpSyncError, (string \<Rightarrow> bool) option) result" where
  "compile_filter E pattern =
     (case pattern of
        None \<Rightarrow> Ok None
      | Some p \<Rightarrow>
          if p = [] then Ok None
          else (case regex_new E p of Inr re \<Rightarrow> Ok (Some re) | Inl e \<Rightarrow> Err (InvalidRegex e)))"

definition passes :: "(string \<Rightarrow> bool) option \<Rightarrow> string \<Rightarrow> bool" where
  "passes re raw = (case re of None \<Rightarrow> True | Some f \<Rightarrow> f raw)"

section \<open>Organizations\<close>

record OrganizationSyncResult =
  osr_added :: nat
  osr_removed :: nat

record SyncPlan =
  sp_to_add :: "uuid list"
  sp_to_remove :: "uuid list"

definition plan_sync_diff :: "uuid hash_set \<Rightarrow> (uuid \<times> bool) list \<Rightarrow> SyncPlan" where
  "plan_sync_diff expected existing =
     (let existing_ids = hs_extend (map fst existing) []
      in \<lparr> sp_to_add = sort (filter (\<lambda>i. i \<notin> set existing_ids) expected),
           sp_to_remove = sort (map fst (filter (\<lambda>(org, idp). idp \<and> org \<notin> set expected) existing)) \<rparr>)"

definition mapped_orgs ::
  "(string \<Rightarrow> bool) option \<Rightarrow> (string, uuid list) hash_map \<Rightarrow> string list \<Rightarrow> uuid hash_set" where
  "mapped_orgs re mapping raw_claims =
     fold (\<lambda>raw expected.
       if \<not> passes re raw then expected
       else case hm_get mapping raw of Some ids \<Rightarrow> hs_extend ids expected | None \<Rightarrow> expected)
       raw_claims []"

definition expected_orgs ::
  "idp_env \<Rightarrow> string list \<Rightarrow> OrganizationSyncSettings \<Rightarrow> string option \<Rightarrow> IdentityTables \<Rightarrow>
   (IdpSyncError, uuid hash_set) result" where
  "expected_orgs E raw_claims settings regex_filter t =
     and_then (compile_filter E regex_filter) (\<lambda>re.
     let expected = mapped_orgs re (os_mapping settings) raw_claims in
     and_then
       (if os_assign_default settings then
          and_then (lift_storage (list_organizations E t []))
            (\<lambda>all_orgs. case find (\<lambda>r. or_is_default r \<and> \<not> or_deleted r) all_orgs of
               Some r \<Rightarrow> Ok (hs_insert (or_id r) expected)
             | None \<Rightarrow> Ok expected)
        else Ok expected) (\<lambda>expected.
     if expected = [] then Ok expected
     else
       and_then (lift_storage (list_organizations E t expected))
         (\<lambda>all_orgs.
            let live = map or_id (filter (\<lambda>r. \<not> or_deleted r) all_orgs)
            in Ok (filter (\<lambda>i. i \<in> set live) expected))))"

fun add_members ::
  "idp_env \<Rightarrow> uuid \<Rightarrow> uuid list \<Rightarrow> nat \<Rightarrow> IdentityTables \<Rightarrow> IdentityTables \<times> nat" where
  "add_members E user [] added t = (t, added)"
| "add_members E user (org # orgs) added t =
     (case insert_organization_member E org user True t of
        (t, Inr _) \<Rightarrow> add_members E user orgs (added + 1) t
      | (t, Inl _) \<Rightarrow> add_members E user orgs added t)"

fun remove_members ::
  "idp_env \<Rightarrow> uuid \<Rightarrow> uuid list \<Rightarrow> nat \<Rightarrow> IdentityTables \<Rightarrow> IdentityTables \<times> nat" where
  "remove_members E user [] removed t = (t, removed)"
| "remove_members E user (org # orgs) removed t =
     (case delete_organization_member E org user t of
        (t, Inr True) \<Rightarrow> remove_members E user orgs (removed + 1) t
      | (t, Inr False) \<Rightarrow> remove_members E user orgs removed t
      | (t, Inl _) \<Rightarrow> remove_members E user orgs removed t)"

definition sync_organizations ::
  "idp_env \<Rightarrow> uuid \<Rightarrow> string list \<Rightarrow> OrganizationSyncSettings \<Rightarrow> string option \<Rightarrow> IdentityTables \<Rightarrow>
   IdentityTables \<times> (IdpSyncError, OrganizationSyncResult) result" where
  "sync_organizations E user raw_claims settings regex_filter t =
     (if os_field settings = [] \<and> \<not> os_assign_default settings
      then (t, Ok \<lparr> osr_added = 0, osr_removed = 0 \<rparr>)
      else case expected_orgs E raw_claims settings regex_filter t of
        Inl e \<Rightarrow> (t, Err e)
      | Inr expected \<Rightarrow>
          (case lift_storage (list_user_memberships E t user) of
             Inl e \<Rightarrow> (t, Err e)
           | Inr existing \<Rightarrow>
               let plan = plan_sync_diff expected
                     (map (\<lambda>m. (om_organization_id m, om_is_idp_controlled m)) existing);
                   (t, added) = add_members E user (sp_to_add plan) 0 t;
                   (t, removed) = remove_members E user (sp_to_remove plan) 0 t
               in (t, Ok \<lparr> osr_added = added, osr_removed = removed \<rparr>)))"

section \<open>Roles\<close>

definition ORG_MEMBER_ROLE :: string where
  "ORG_MEMBER_ROLE = ''organization-member''"

record RoleSyncResult =
  rr_site_added :: nat
  rr_site_removed :: nat
  rr_org_added :: nat
  rr_org_removed :: nat

definition unique_sorted :: "string list \<Rightarrow> string list" where
  "unique_sorted items = remdups_adj (sort items)"

definition count_diff :: "string list \<Rightarrow> string list \<Rightarrow> nat" where
  "count_diff xs ys = length (filter (\<lambda>x. x \<notin> set ys) xs)"

definition sync_site_wide_roles ::
  "idp_env \<Rightarrow> uuid \<Rightarrow> string list \<Rightarrow> IdentityTables \<Rightarrow>
   IdentityTables \<times> (IdpSyncError, nat \<times> nat) result" where
  "sync_site_wide_roles E user raw_site_claims t =
     (case lift_storage (find_user_by_id E t user) of
        Inl e \<Rightarrow> (t, Err e)
      | Inr None \<Rightarrow> (t, Ok (0, 0))
      | Inr (Some u) \<Rightarrow>
          let existing = unique_sorted (us_rbac_roles u); expected = unique_sorted raw_site_claims in
          if existing = expected then (t, Ok (0, 0))
          else case update_user_roles E user expected t of
            (t, Inl _) \<Rightarrow> (t, Ok (0, 0))
          | (t, Inr _) \<Rightarrow> (t, Ok (count_diff expected existing, count_diff existing expected)))"

definition expected_org_roles :: "RoleSyncSettings \<Rightarrow> json \<Rightarrow> string list" where
  "expected_org_roles settings claims =
     unique_sorted (filter (\<lambda>r. r \<noteq> ORG_MEMBER_ROLE)
       (concat (map (\<lambda>role. case hm_get (rs_mapping settings) role of Some mapped \<Rightarrow> mapped | None \<Rightarrow> [role])
         (parse_role_claims (rs_field settings) claims))))"

definition sync_org_roles ::
  "idp_env \<Rightarrow> uuid \<Rightarrow> uuid \<Rightarrow> json \<Rightarrow> RoleSyncSettings \<Rightarrow> string list \<Rightarrow> IdentityTables \<Rightarrow>
   IdentityTables \<times> nat \<times> nat" where
  "sync_org_roles E user org claims settings existing_roles t =
     (let expected = expected_org_roles settings claims;
          existing = unique_sorted (filter (\<lambda>r. r \<noteq> ORG_MEMBER_ROLE) existing_roles) in
      if existing = expected then (t, 0, 0)
      else case update_organization_member_roles E org user expected t of
        (t, Inl _) \<Rightarrow> (t, 0, 0)
      | (t, Inr _) \<Rightarrow> (t, count_diff expected existing, count_diff existing expected))"

fun sync_each_org ::
  "idp_env \<Rightarrow> uuid \<Rightarrow> json \<Rightarrow> MemberRow list \<Rightarrow> RoleSyncResult \<Rightarrow> IdentityTables \<Rightarrow>
   IdentityTables \<times> RoleSyncResult" where
  "sync_each_org E user claims [] result t = (t, result)"
| "sync_each_org E user claims (m # ms) result t =
     (case role_sync_settings E t (om_organization_id m) of
        Inl _ \<Rightarrow> sync_each_org E user claims ms result t
      | Inr settings \<Rightarrow>
          if rs_field settings = [] then sync_each_org E user claims ms result t
          else
            let (t, added, removed) =
                  sync_org_roles E user (om_organization_id m) claims settings (om_roles m) t
            in sync_each_org E user claims ms
                 (result \<lparr> rr_org_added := rr_org_added result + added,
                           rr_org_removed := rr_org_removed result + removed \<rparr>) t)"

definition sync_roles ::
  "idp_env \<Rightarrow> uuid \<Rightarrow> json \<Rightarrow> string list \<Rightarrow> bool \<Rightarrow> IdentityTables \<Rightarrow>
   IdentityTables \<times> (IdpSyncError, RoleSyncResult) result" where
  "sync_roles E user claims raw_site_claims sync_site_wide t =
     (let (t, site) = (if sync_site_wide then sync_site_wide_roles E user raw_site_claims t
                       else (t, Ok (0, 0)))
      in case site of
        Inl e \<Rightarrow> (t, Err e)
      | Inr (site_added, site_removed) \<Rightarrow>
          (case lift_storage (list_user_memberships E t user) of
             Inl e \<Rightarrow> (t, Err e)
           | Inr memberships \<Rightarrow>
               let (t, result) =
                     sync_each_org E user claims memberships
                       \<lparr> rr_site_added = site_added, rr_site_removed = site_removed, rr_org_added = 0,
                         rr_org_removed = 0 \<rparr> t
               in (t, Ok result)))"

section \<open>Groups\<close>

definition IDP_GROUP_SOURCE :: string where
  "IDP_GROUP_SOURCE = ''oidc''"

record GroupSyncResult =
  gsr_added :: nat
  gsr_removed :: nat
  gsr_created :: nat

definition wanted_claims ::
  "(string \<Rightarrow> bool) option \<Rightarrow> (string, uuid list) hash_map \<Rightarrow> string list \<Rightarrow>
   uuid hash_set \<times> string hash_set" where
  "wanted_claims re mapping raw_claims =
     fold (\<lambda>raw (ids, names).
       if \<not> passes re raw then (ids, names)
       else case hm_get mapping raw of
         Some mapped \<Rightarrow> (hs_extend mapped ids, names)
       | None \<Rightarrow> (ids, hs_insert raw names))
       raw_claims ([], [])"

fun resolve_names ::
  "idp_env \<Rightarrow> uuid \<Rightarrow> GroupSyncSettings \<Rightarrow> GroupRow list \<Rightarrow> string list \<Rightarrow> uuid hash_set \<Rightarrow> nat \<Rightarrow> IdentityTables \<Rightarrow>
   IdentityTables \<times> (IdpSyncError, uuid hash_set \<times> nat) result" where
  "resolve_names E org settings existing [] ids created t = (t, Ok (ids, created))"
| "resolve_names E org settings existing (name # names) ids created t =
     (case find (\<lambda>g. gr_name g = name) existing of
        Some g \<Rightarrow> resolve_names E org settings existing names (hs_insert (gr_id g) ids) created t
      | None \<Rightarrow>
          if \<not> gs_auto_create_missing_groups settings
          then resolve_names E org settings existing names ids created t
          else case create_group E name org (Some IDP_GROUP_SOURCE) t of
            (t, Inr g) \<Rightarrow>
              resolve_names E org settings existing names (hs_insert (gr_id g) ids) (created + 1) t
          | (t, Inl err) \<Rightarrow>
              (case find_group_by_name E t org name of
                 Inr (Some g) \<Rightarrow>
                   resolve_names E org settings existing names (hs_insert (gr_id g) ids) created t
               | _ \<Rightarrow> (t, Err (Storage err))))"

fun idp_memberships ::
  "idp_env \<Rightarrow> uuid \<Rightarrow> IdentityTables \<Rightarrow> GroupRow list \<Rightarrow> (StorageError, uuid hash_set) result" where
  "idp_memberships E user t [] = Ok []"
| "idp_memberships E user t (g # gs) =
     (if gr_source g \<noteq> IDP_GROUP_SOURCE then idp_memberships E user t gs
      else and_then (list_group_members E t (gr_id g)) (\<lambda>members.
        and_then (idp_memberships E user t gs) (\<lambda>rest.
          Ok (if user \<in> set members then hs_insert (gr_id g) rest else rest))))"

fun add_group_members ::
  "idp_env \<Rightarrow> uuid \<Rightarrow> uuid hash_set \<Rightarrow> uuid list \<Rightarrow> nat \<Rightarrow> IdentityTables \<Rightarrow> IdentityTables \<times> nat" where
  "add_group_members E user current [] added t = (t, added)"
| "add_group_members E user current (g # gs) added t =
     (if g \<in> set current then add_group_members E user current gs added t
      else case insert_group_member E g user t of
        (t, Inr _) \<Rightarrow> add_group_members E user current gs (added + 1) t
      | (t, Inl _) \<Rightarrow> add_group_members E user current gs added t)"

text \<open>\<open>current\<close> holds only groups of the provider, so the second test of the loop never skips one.\<close>

fun remove_group_members ::
  "idp_env \<Rightarrow> uuid \<Rightarrow> uuid hash_set \<Rightarrow> uuid list \<Rightarrow> uuid list \<Rightarrow> nat \<Rightarrow> IdentityTables \<Rightarrow>
   IdentityTables \<times> nat" where
  "remove_group_members E user wanted idp [] removed t = (t, removed)"
| "remove_group_members E user wanted idp (g # gs) removed t =
     (if g \<in> set wanted then remove_group_members E user wanted idp gs removed t
      else if g \<notin> set idp then remove_group_members E user wanted idp gs removed t
      else case delete_group_member E g user t of
        (t, Inr True) \<Rightarrow> remove_group_members E user wanted idp gs (removed + 1) t
      | (t, Inr False) \<Rightarrow> remove_group_members E user wanted idp gs removed t
      | (t, Inl _) \<Rightarrow> remove_group_members E user wanted idp gs removed t)"

definition sync_groups ::
  "idp_env \<Rightarrow> uuid \<Rightarrow> uuid \<Rightarrow> string list \<Rightarrow> GroupSyncSettings \<Rightarrow> IdentityTables \<Rightarrow>
   IdentityTables \<times> (IdpSyncError, GroupSyncResult) result" where
  "sync_groups E user org raw_claims settings t =
     (if gs_field settings = [] then (t, Ok \<lparr> gsr_added = 0, gsr_removed = 0, gsr_created = 0 \<rparr>)
      else case compile_filter E (gs_regex_filter settings) of
        Inl e \<Rightarrow> (t, Err e)
      | Inr re \<Rightarrow>
          let (ids, names) = wanted_claims re (gs_mapping settings) raw_claims in
          case lift_storage (list_groups E t org) of
            Inl e \<Rightarrow> (t, Err e)
          | Inr existing \<Rightarrow>
              (case resolve_names E org settings existing names ids 0 t of
                 (t, Inl e) \<Rightarrow> (t, Err e)
               | (t, Inr (wanted, created)) \<Rightarrow>
                   (case lift_storage (list_groups E t org) of
                      Inl e \<Rightarrow> (t, Err e)
                    | Inr refreshed \<Rightarrow>
                        let idp = map gr_id (filter (\<lambda>g. gr_source g = IDP_GROUP_SOURCE) refreshed) in
                        (case lift_storage (idp_memberships E user t refreshed) of
                           Inl e \<Rightarrow> (t, Err e)
                         | Inr current \<Rightarrow>
                             let (t, added) = add_group_members E user current wanted 0 t;
                                 (t, removed) = remove_group_members E user wanted idp current 0 t
                             in (t, Ok \<lparr> gsr_added = added, gsr_removed = removed,
                                         gsr_created = created \<rparr>)))))"

section \<open>The sync at login\<close>

fun sync_groups_each ::
  "idp_env \<Rightarrow> uuid \<Rightarrow> string list \<Rightarrow> MemberRow list \<Rightarrow> IdentityTables \<Rightarrow> IdentityTables" where
  "sync_groups_each E user raw_groups [] t = t"
| "sync_groups_each E user raw_groups (m # ms) t =
     (case group_sync_settings E t (om_organization_id m) of
        Inl _ \<Rightarrow> sync_groups_each E user raw_groups ms t
      | Inr settings \<Rightarrow>
          sync_groups_each E user raw_groups ms
            (fst (sync_groups E user (om_organization_id m) raw_groups settings t)))"

definition oidc_login_sync :: "idp_env \<Rightarrow> OidcConfig \<Rightarrow> uuid \<Rightarrow> json \<Rightarrow> IdentityTables \<Rightarrow> IdentityTables" where
  "oidc_login_sync E config user merged_claims t =
     (let t = (case get_organization_idp_sync_settings E t of
                 Inl _ \<Rightarrow> t
               | Inr settings \<Rightarrow>
                   fst (sync_organizations E user (parse_org_claims (os_field settings) merged_claims) settings None t));
          t = fst (sync_roles E user merged_claims [] False t);
          raw_groups = parse_group_claims config merged_claims
      in if raw_groups \<noteq> [] \<or> oc_groups_field config \<noteq> []
         then (case list_user_memberships E t user of
                 Inl _ \<Rightarrow> t
               | Inr memberships \<Rightarrow> sync_groups_each E user raw_groups memberships t)
         else t)"

section \<open>Claims are read as sets\<close>

lemma dedupe_loop_set: "set (dedupe_loop seen xs) = set xs - set seen"
  by (induction xs arbitrary: seen) auto

lemma dedupe_loop_distinct: "distinct (dedupe_loop seen xs)"
  by (induction xs arbitrary: seen) (auto simp: dedupe_loop_set)

lemma dedupe_stable_spec: "set (dedupe_stable xs) = set xs" "distinct (dedupe_stable xs)"
  by (simp_all add: dedupe_stable_def dedupe_loop_set dedupe_loop_distinct)

lemma parse_string_slice_distinct: "distinct (parse_string_slice field claims)"
  by (simp add: parse_string_slice_def dedupe_stable_spec split: option.split json.split)

lemma parse_group_claims_allowed:
  "oc_group_allow_list config \<noteq> [] \<Longrightarrow>
   set (parse_group_claims config claims) \<subseteq> set (oc_group_allow_list config)"
  by (auto simp: parse_group_claims_def Let_def)

section \<open>Organizations\<close>

abbreviation member_key :: "MemberRow \<Rightarrow> uuid \<times> uuid" where
  "member_key m \<equiv> (om_organization_id m, om_user_id m)"

definition is_member :: "IdentityTables \<Rightarrow> uuid \<Rightarrow> uuid \<Rightarrow> bool" where
  "is_member t org user \<longleftrightarrow> (org, user) \<in> member_key ` set (it_members t)"

text \<open>The rows the sync must not touch: other users', and the user's own that were assigned by hand.\<close>

definition protected :: "uuid \<Rightarrow> MemberRow \<Rightarrow> bool" where
  "protected user m \<longleftrightarrow> om_user_id m \<noteq> user \<or> \<not> om_is_idp_controlled m"

lemma mapped_orgs_set:
  "set (mapped_orgs re mapping raws) =
     {i. \<exists>raw \<in> set raws. passes re raw \<and> (\<exists>ids. hm_get mapping raw = Some ids \<and> i \<in> set ids)}"
proof -
  have "set (fold (\<lambda>raw expected. if \<not> passes re raw then expected
        else case hm_get mapping raw of Some ids \<Rightarrow> hs_extend ids expected | None \<Rightarrow> expected) raws acc) =
      set acc \<union> {i. \<exists>raw \<in> set raws. passes re raw \<and> (\<exists>ids. hm_get mapping raw = Some ids \<and> i \<in> set ids)}"
    for acc
    by (induction raws arbitrary: acc) (auto split: option.splits)
  from this [of "[]"] show ?thesis by (simp add: mapped_orgs_def)
qed

lemma insert_member_cases:
  "fst (insert_organization_member E org user True t) = t \<or>
   (org, user) \<notin> member_key ` set (it_members t) \<and>
   fst (insert_organization_member E org user True t) =
     t \<lparr> it_members := it_members t @ [\<lparr> om_organization_id = org, om_user_id = user, om_roles = [],
       om_is_idp_controlled = True \<rparr>] \<rparr>"
  by (auto simp: insert_organization_member_def split: option.split)

lemma add_members_rows:
  "\<exists>new. fst (add_members E user orgs n t) = t \<lparr> it_members := it_members t @ new \<rparr> \<and>
     (\<forall>m \<in> set new. om_user_id m = user \<and> om_is_idp_controlled m \<and> om_organization_id m \<in> set orgs \<and>
        (om_organization_id m, user) \<notin> member_key ` set (it_members t))"
proof (induction orgs arbitrary: n t)
  case Nil
  show ?case by (intro exI [of _ "[]"]) simp
next
  case (Cons org orgs)
  obtain t1 r where ins: "insert_organization_member E org user True t = (t1, r)" by fastforce
  obtain k where rest: "fst (add_members E user (org # orgs) n t) = fst (add_members E user orgs k t1)"
    using ins by (cases r) auto
  obtain new where new: "fst (add_members E user orgs k t1) = t1 \<lparr> it_members := it_members t1 @ new \<rparr>"
    "\<forall>m \<in> set new. om_user_id m = user \<and> om_is_idp_controlled m \<and> om_organization_id m \<in> set orgs \<and>
       (om_organization_id m, user) \<notin> member_key ` set (it_members t1)"
    using Cons.IH by blast
  let ?m = "\<lparr> om_organization_id = org, om_user_id = user, om_roles = [], om_is_idp_controlled = True \<rparr>"
  consider "t1 = t" | "(org, user) \<notin> member_key ` set (it_members t)"
    "t1 = t \<lparr> it_members := it_members t @ [?m] \<rparr>"
    using insert_member_cases [of E org user t] ins by auto
  then show ?case
  proof cases
    case 1
    with rest new show ?thesis by (intro exI [of _ new]) simp
  next
    case 2
    with rest new show ?thesis by (intro exI [of _ "?m # new"]) auto
  qed
qed

lemma remove_members_rows:
  "fst (remove_members E user orgs n t) =
     t \<lparr> it_members := filter (\<lambda>m. \<not> (om_user_id m = user \<and> om_organization_id m \<in> set orgs \<and>
       fault E (DeleteOrganizationMember (om_organization_id m) user) = None)) (it_members t) \<rparr>"
proof (induction orgs arbitrary: n t)
  case (Cons org orgs)
  show ?case
  proof (cases "fault E (DeleteOrganizationMember org user)")
    case None
    define gone where "gone = (\<exists>m \<in> set (it_members t). om_organization_id m = org \<and> om_user_id m = user)"
    define t1 where "t1 = t \<lparr> it_members :=
      filter (\<lambda>m. \<not> (om_organization_id m = org \<and> om_user_id m = user)) (it_members t) \<rparr>"
    have "delete_organization_member E org user t = (t1, Ok gone)"
      using None by (simp add: delete_organization_member_def gone_def t1_def)
    then have "fst (remove_members E user (org # orgs) n t) =
        fst (remove_members E user orgs (if gone then n + 1 else n) t1)"
      by (cases gone) simp_all
    moreover have "filter (\<lambda>m. \<not> (om_user_id m = user \<and> om_organization_id m \<in> set orgs \<and>
          fault E (DeleteOrganizationMember (om_organization_id m) user) = None)) (it_members t1) =
        filter (\<lambda>m. \<not> (om_user_id m = user \<and> om_organization_id m \<in> set (org # orgs) \<and>
          fault E (DeleteOrganizationMember (om_organization_id m) user) = None)) (it_members t)"
      unfolding t1_def using None by (simp, intro filter_cong) auto
    ultimately show ?thesis unfolding Cons.IH by (simp add: t1_def)
  next
    case (Some e)
    then have "fst (remove_members E user (org # orgs) n t) = fst (remove_members E user orgs n t)"
      by (simp add: delete_organization_member_def)
    moreover have "filter (\<lambda>m. \<not> (om_user_id m = user \<and> om_organization_id m \<in> set orgs \<and>
          fault E (DeleteOrganizationMember (om_organization_id m) user) = None)) (it_members t) =
        filter (\<lambda>m. \<not> (om_user_id m = user \<and> om_organization_id m \<in> set (org # orgs) \<and>
          fault E (DeleteOrganizationMember (om_organization_id m) user) = None)) (it_members t)"
      using Some by (intro filter_cong) auto
    ultimately show ?thesis unfolding Cons.IH by simp
  qed
qed simp

lemma plan_sets:
  "set (sp_to_add (plan_sync_diff expected existing)) = set expected - fst ` set existing"
  "set (sp_to_remove (plan_sync_diff expected existing)) = {i. (i, True) \<in> set existing \<and> i \<notin> set expected}"
  by (force simp: plan_sync_diff_def Let_def)+

text \<open>The rows after a sync that got past its reading phase.\<close>

definition synced_rows :: "idp_env \<Rightarrow> uuid \<Rightarrow> uuid list \<Rightarrow> IdentityTables \<Rightarrow> IdentityTables" where
  "synced_rows E user expected t =
     (let plan = plan_sync_diff expected
            (map (\<lambda>m. (om_organization_id m, om_is_idp_controlled m))
              (if live_user t user then filter (\<lambda>m. om_user_id m = user) (it_members t) else []))
      in fst (remove_members E user (sp_to_remove plan) 0 (fst (add_members E user (sp_to_add plan) 0 t))))"

lemma sync_organizations_cases:
  obtains "fst (sync_organizations E user raws settings re t) = t"
  | expected where "expected_orgs E raws settings re t = Ok expected"
    and "fst (sync_organizations E user raws settings re t) = synced_rows E user expected t"
proof (cases "os_field settings = [] \<and> \<not> os_assign_default settings")
  case True
  with that(1) show ?thesis by (simp add: sync_organizations_def)
next
  case False
  show ?thesis
  proof (cases "expected_orgs E raws settings re t")
    case (Inl e)
    with that(1) False show ?thesis by (auto simp: sync_organizations_def)
  next
    case (Inr expected)
    with that False show ?thesis
      by (cases "fault E (ListUserMemberships user)")
        (auto simp: sync_organizations_def synced_rows_def list_user_memberships_def guard_fault_def
          Let_def case_prod_unfold)
  qed
qed

lemma same_member:
  assumes "distinct (map member_key ms)" and "m \<in> set ms" and "n \<in> set ms" and "member_key m = member_key n"
  shows "m = n"
  using assms by (metis (no_types, lifting) distinct_map inj_onD)

text \<open>
  The organization sync never revokes what an administrator granted: whatever the claims, the
  settings and the database errors, every membership of another user and every membership of this
  user that the provider does not control is still there afterwards, unchanged.
\<close>

lemma org_sync_keeps_manual:
  assumes "distinct (map member_key (it_members t))" and "m \<in> set (it_members t)" and "protected user m"
  shows "m \<in> set (it_members (fst (sync_organizations E user raw_claims settings regex_filter t)))"
proof (rule sync_organizations_cases [of E user raw_claims settings regex_filter t])
  assume "fst (sync_organizations E user raw_claims settings regex_filter t) = t"
  with assms(2) show ?thesis by simp
next
  fix expected
  assume eq: "fst (sync_organizations E user raw_claims settings regex_filter t) = synced_rows E user expected t"
  define existing where "existing = map (\<lambda>m. (om_organization_id m, om_is_idp_controlled m))
    (if live_user t user then filter (\<lambda>m. om_user_id m = user) (it_members t) else [])"
  define plan where "plan = plan_sync_diff expected existing"
  obtain new where new: "fst (add_members E user (sp_to_add plan) 0 t) = t \<lparr> it_members := it_members t @ new \<rparr>"
    using add_members_rows by blast
  have "om_organization_id m \<notin> set (sp_to_remove plan)" if "om_user_id m = user"
  proof
    assume "om_organization_id m \<in> set (sp_to_remove plan)"
    then have "(om_organization_id m, True) \<in> set existing" by (simp add: plan_def plan_sets)
    then obtain n where "n \<in> set (it_members t)" "om_user_id n = user" "om_is_idp_controlled n"
      "om_organization_id n = om_organization_id m"
      by (auto simp: existing_def split: if_splits)
    with same_member [OF assms(1,2), of n] that assms(3) show False by (auto simp: protected_def)
  qed
  then show ?thesis
    unfolding eq synced_rows_def existing_def [symmetric] plan_def [symmetric] Let_def remove_members_rows new
    using assms(2) by auto
qed

text \<open>A deployment in which every statement succeeds and regular expressions match everything.\<close>

definition demo_env :: idp_env where
  "demo_env =
     \<lparr> fault = (\<lambda>_. None), lower = map ascii_lower, gen_uuid = (\<lambda>t. word_of_nat (1000 + length (it_groups t))),
       fk_error = Unavailable ''foreign key'', regex_new = (\<lambda>_. Ok (\<lambda>_. True)) \<rparr>"

text \<open>One user, three organizations; the user is in 5 by hand and in 6 by an earlier sync.\<close>

definition demo_tables :: IdentityTables where
  "demo_tables =
     \<lparr> it_users = [\<lparr> us_id = 1, us_deleted = False, us_rbac_roles = [''auditor''] \<rparr>],
       it_organizations = [\<lparr> or_id = 5, or_is_default = True, or_deleted = False \<rparr>,
         \<lparr> or_id = 6, or_is_default = False, or_deleted = False \<rparr>,
         \<lparr> or_id = 7, or_is_default = False, or_deleted = False \<rparr>],
       it_members = [\<lparr> om_organization_id = 5, om_user_id = 1, om_roles = [], om_is_idp_controlled = False \<rparr>,
         \<lparr> om_organization_id = 6, om_user_id = 1, om_roles = [''organization-admin''], om_is_idp_controlled = True \<rparr>],
       it_groups = [\<lparr> gr_id = 20, gr_name = ''secrets'', gr_organization_id = 5, gr_source = ''user'' \<rparr>],
       it_group_members = [],
       it_role_settings = (\<lambda>_. \<lparr> rs_field = ''roles'', rs_mapping = [(''dev'', [''organization-auditor''])] \<rparr>),
       it_group_settings = (\<lambda>_. \<lparr> gs_field = ''groups'', gs_mapping = [], gs_regex_filter = None,
         gs_auto_create_missing_groups = True \<rparr>),
       it_org_settings = \<lparr> os_field = ''orgs'', os_mapping = [(''seven'', [7])], os_assign_default = False \<rparr> \<rparr>"

definition demo_org_settings :: OrganizationSyncSettings where
  "demo_org_settings = \<lparr> os_field = ''orgs'', os_mapping = [(''seven'', [7])], os_assign_default = False \<rparr>"

definition live_org :: "IdentityTables \<Rightarrow> uuid \<Rightarrow> bool" where
  "live_org t i \<longleftrightarrow> (\<exists>r \<in> set (it_organizations t). or_id r = i \<and> \<not> or_deleted r)"

text \<open>The organizations the claims and the settings ask for.\<close>

definition wanted_orgs ::
  "(string \<Rightarrow> bool) option \<Rightarrow> OrganizationSyncSettings \<Rightarrow> string list \<Rightarrow> IdentityTables \<Rightarrow> uuid set" where
  "wanted_orgs re settings raws t =
     {i. live_org t i \<and>
        ((\<exists>raw \<in> set raws. passes re raw \<and> (\<exists>ids. hm_get (os_mapping settings) raw = Some ids \<and> i \<in> set ids)) \<or>
         os_assign_default settings \<and>
         map_option or_id (find (\<lambda>r. or_is_default r \<and> \<not> or_deleted r) (it_organizations t)) = Some i)}"

lemma find_live: "find (\<lambda>r. or_is_default r \<and> \<not> or_deleted r) (filter (\<lambda>r. \<not> or_deleted r) rs) =
    find (\<lambda>r. or_is_default r \<and> \<not> or_deleted r) rs"
  by (induction rs) auto

lemma mapped_orgs_distinct: "distinct (mapped_orgs re mapping raws)"
proof -
  have "distinct acc \<Longrightarrow> distinct (fold (\<lambda>raw expected. if \<not> passes re raw then expected
        else case hm_get mapping raw of Some ids \<Rightarrow> hs_extend ids expected | None \<Rightarrow> expected) raws acc)" for acc
    by (induction raws arbitrary: acc) (auto split: option.split)
  from this [of "[]"] show ?thesis by (simp add: mapped_orgs_def)
qed

lemma expected_orgs_ok:
  assumes ok: "\<And>c. fault E c = None" and re: "compile_filter E rf = Ok re"
  obtains expected where "expected_orgs E raws settings rf t = Ok expected" and "distinct expected"
    and "set expected = wanted_orgs re settings raws t"
proof -
  let ?find = "find (\<lambda>r. or_is_default r \<and> \<not> or_deleted r) (it_organizations t)"
  define base where "base = mapped_orgs re (os_mapping settings) raws"
  define all where "all =
    (if os_assign_default settings then case ?find of Some r \<Rightarrow> hs_insert (or_id r) base | None \<Rightarrow> base else base)"
  have list: "list_organizations E t ids =
      Ok (filter (\<lambda>r. \<not> or_deleted r \<and> (ids = [] \<or> or_id r \<in> set ids)) (it_organizations t))" for ids
    by (simp add: list_organizations_def guard_fault_def ok)
  have d: "distinct all"
    using mapped_orgs_distinct by (auto simp: all_def base_def split: option.split)
  have all: "i \<in> set all \<longleftrightarrow>
      (\<exists>raw \<in> set raws. passes re raw \<and> (\<exists>ids. hm_get (os_mapping settings) raw = Some ids \<and> i \<in> set ids)) \<or>
      os_assign_default settings \<and> map_option or_id ?find = Some i" for i
    by (auto simp: all_def base_def mapped_orgs_set split: option.split)
  define expected where "expected = filter (live_org t) all"
  have step: "(if os_assign_default settings then
          and_then (lift_storage (list_organizations E t []))
            (\<lambda>all_orgs. case find (\<lambda>r. or_is_default r \<and> \<not> or_deleted r) all_orgs of
               Some r \<Rightarrow> Ok (hs_insert (or_id r) base)
             | None \<Rightarrow> Ok base)
        else Ok base) = Ok all"
    by (simp add: list find_live all_def split: option.split)
  have live: "filter (\<lambda>i. i \<in> set (map or_id (filter (\<lambda>r. \<not> or_deleted r)
      (filter (\<lambda>r. \<not> or_deleted r \<and> (all = [] \<or> or_id r \<in> set all)) (it_organizations t))))) all = expected"
    unfolding expected_def by (rule filter_cong) (auto simp: live_org_def)
  have "expected_orgs E raws settings rf t = Ok expected"
    unfolding expected_orgs_def re and_then.simps Let_def base_def [symmetric]
    unfolding step unfolding and_then.simps list lift_storage.simps live
    by (simp add: expected_def)
  moreover have "set expected = wanted_orgs re settings raws t"
    by (auto simp: expected_def all wanted_orgs_def)
  ultimately show ?thesis using that d by (simp add: expected_def)
qed

lemma is_member_iff:
  "is_member t org user \<longleftrightarrow> (\<exists>m \<in> set (it_members t). om_organization_id m = org \<and> om_user_id m = user)"
  by (force simp: is_member_def)

lemma insert_member_complete:
  assumes "fault E (InsertOrganizationMember o1 user) = None" and "user \<in> us_id ` set (it_users t)"
    and "o1 \<in> or_id ` set (it_organizations t)"
  shows "is_member (fst (insert_organization_member E o1 user True t)) org user \<longleftrightarrow>
    org = o1 \<or> is_member t org user"
proof -
  have "\<not> ((\<forall>r \<in> set (it_organizations t). or_id r \<noteq> o1) \<or> (\<forall>u \<in> set (it_users t). us_id u \<noteq> user))"
    using assms(2,3) by force
  with assms(1) show ?thesis
    by (auto simp: insert_organization_member_def is_member_iff)
qed

lemma insert_member_frame:
  "it_users (fst (insert_organization_member E o1 user idp t)) = it_users t"
  "it_organizations (fst (insert_organization_member E o1 user idp t)) = it_organizations t"
  by (simp_all add: insert_organization_member_def split: option.split)

lemma add_members_complete:
  assumes "\<And>c. fault E c = None" and "user \<in> us_id ` set (it_users t)"
    and "set orgs \<subseteq> or_id ` set (it_organizations t)"
  shows "is_member (fst (add_members E user orgs n t)) org user \<longleftrightarrow> org \<in> set orgs \<or> is_member t org user"
  using assms
proof (induction orgs arbitrary: n t)
  case (Cons o1 orgs)
  obtain t1 r where ins: "insert_organization_member E o1 user True t = (t1, r)" by fastforce
  obtain k where rest: "fst (add_members E user (o1 # orgs) n t) = fst (add_members E user orgs k t1)"
    using ins by (cases r) auto
  have "it_users t1 = it_users t" "it_organizations t1 = it_organizations t"
    using insert_member_frame [of E o1 user True t] ins by simp_all
  moreover have "is_member t1 org user \<longleftrightarrow> org = o1 \<or> is_member t org user"
    using insert_member_complete [of E o1 user t org] Cons.prems ins by simp
  ultimately have "is_member (fst (add_members E user orgs k t1)) org user \<longleftrightarrow>
      org \<in> set orgs \<or> org = o1 \<or> is_member t org user"
    using Cons.prems by (subst Cons.IH) auto
  then show ?case unfolding rest by auto
qed simp

lemma live_user_exists: "live_user t user \<Longrightarrow> user \<in> us_id ` set (it_users t)"
  by (auto simp: live_user_def)

lemma synced_rows_exact:
  assumes ok: "\<And>c. fault E c = None" and live: "live_user t user"
    and dist: "distinct (map member_key (it_members t))" and sub: "set expected \<subseteq> or_id ` set (it_organizations t)"
  shows "is_member (synced_rows E user expected t) org user \<longleftrightarrow>
    org \<in> set expected \<or> (\<exists>m \<in> set (it_members t). member_key m = (org, user) \<and> \<not> om_is_idp_controlled m)"
proof -
  define existing where "existing =
    map (\<lambda>m. (om_organization_id m, om_is_idp_controlled m)) (filter (\<lambda>m. om_user_id m = user) (it_members t))"
  define plan where "plan = plan_sync_diff expected existing"
  define t1 where "t1 = fst (add_members E user (sp_to_add plan) 0 t)"
  have eq: "is_member (synced_rows E user expected t) org user \<longleftrightarrow>
      is_member t1 org user \<and> org \<notin> set (sp_to_remove plan)"
    unfolding synced_rows_def Let_def if_P [OF live] existing_def [symmetric] plan_def [symmetric]
      remove_members_rows t1_def [symmetric]
    using ok by (auto simp: is_member_iff)
  have in_existing: "(i, b) \<in> set existing \<longleftrightarrow>
      (\<exists>m \<in> set (it_members t). member_key m = (i, user) \<and> om_is_idp_controlled m = b)" for i b
    by (auto simp: existing_def)
  have fst_existing: "i \<in> fst ` set existing \<longleftrightarrow> is_member t i user" for i
    by (force simp: existing_def is_member_def)
  have "set (sp_to_add plan) \<subseteq> or_id ` set (it_organizations t)"
    using sub by (auto simp: plan_def plan_sets)
  then have t1: "is_member t1 org user \<longleftrightarrow> org \<in> set expected \<or> is_member t org user"
    using add_members_complete [OF ok live_user_exists [OF live], of "sp_to_add plan" 0 org]
    by (auto simp: t1_def plan_def plan_sets fst_existing)
  have removed: "org \<in> set (sp_to_remove plan) \<longleftrightarrow>
      (\<exists>m \<in> set (it_members t). member_key m = (org, user) \<and> om_is_idp_controlled m) \<and> org \<notin> set expected"
    by (simp add: plan_def plan_sets in_existing)
  show ?thesis
  proof (cases "is_member t org user")
    case True
    then obtain m where m: "m \<in> set (it_members t)" "member_key m = (org, user)" by (auto simp: is_member_iff)
    have "n = m" if "n \<in> set (it_members t)" "member_key n = (org, user)" for n
      using same_member [OF dist that(1) m(1)] that(2) m(2) by simp
    with m have only: "(\<exists>n \<in> set (it_members t). member_key n = (org, user) \<and> P n) \<longleftrightarrow> P m" for P by metis
    from True show ?thesis unfolding eq t1 removed only by auto
  next
    case False
    then have none: "(\<exists>n \<in> set (it_members t). member_key n = (org, user) \<and> P n) \<longleftrightarrow> False" for P
      by (auto simp: is_member_iff)
    from False show ?thesis unfolding eq t1 removed none by simp
  qed
qed

text \<open>
  When every statement succeeds, the organization sync leaves a user in exactly the live
  organizations the claims map to (through the filter), the default organization when it is assigned
  to everyone, and those a person added the user to.
\<close>

theorem org_sync_exact:
  assumes ok: "\<And>c. fault E c = None" and re: "compile_filter E regex_filter = Ok re"
    and configured: "os_field settings \<noteq> [] \<or> os_assign_default settings"
    and live: "live_user t user" and dist: "distinct (map member_key (it_members t))"
  shows "is_member (fst (sync_organizations E user raws settings regex_filter t)) org user \<longleftrightarrow>
    org \<in> wanted_orgs re settings raws t \<or>
    (\<exists>m \<in> set (it_members t). member_key m = (org, user) \<and> \<not> om_is_idp_controlled m)"
proof -
  obtain expected where ex: "expected_orgs E raws settings regex_filter t = Ok expected" "distinct expected"
    "set expected = wanted_orgs re settings raws t"
    using expected_orgs_ok [OF ok re] by blast
  have "fst (sync_organizations E user raws settings regex_filter t) = synced_rows E user expected t"
    using configured ex(1) ok
    by (auto simp: sync_organizations_def synced_rows_def list_user_memberships_def guard_fault_def Let_def
        case_prod_unfold)
  moreover have "set expected \<subseteq> or_id ` set (it_organizations t)"
    by (auto simp: ex(3) wanted_orgs_def live_org_def)
  ultimately show ?thesis using synced_rows_exact [OF ok live dist] ex(3) by simp
qed

theorem org_sync_exact_witness:
  "is_member (fst (sync_organizations demo_env 1 [''seven''] demo_org_settings None demo_tables)) 7 1 \<and>
   \<not> is_member (fst (sync_organizations demo_env 1 [''seven''] demo_org_settings None demo_tables)) 6 1"
proof -
  have "is_member (fst (sync_organizations demo_env 1 [''seven''] demo_org_settings None demo_tables)) org 1 \<longleftrightarrow>
      org \<in> wanted_orgs None demo_org_settings [''seven''] demo_tables \<or>
      (\<exists>m \<in> set (it_members demo_tables). member_key m = (org, 1) \<and> \<not> om_is_idp_controlled m)" for org
    by (rule org_sync_exact) (simp_all add: demo_env_def compile_filter_def demo_org_settings_def live_user_def
        demo_tables_def)
  then show ?thesis
    by (simp add: wanted_orgs_def demo_org_settings_def demo_tables_def live_org_def passes_def hm_get_def)
qed

section \<open>Groups\<close>

lemma wanted_claims_sets:
  "set (fst (wanted_claims re mapping raws)) =
     {i. \<exists>raw \<in> set raws. passes re raw \<and> (\<exists>ids. hm_get mapping raw = Some ids \<and> i \<in> set ids)}"
  "set (snd (wanted_claims re mapping raws)) = {raw \<in> set raws. passes re raw \<and> hm_get mapping raw = None}"
proof -
  let ?f = "\<lambda>raw (ids, names). if \<not> passes re raw then (ids, names)
       else case hm_get mapping raw of Some mapped \<Rightarrow> (hs_extend mapped ids, names)
       | None \<Rightarrow> (ids, hs_insert raw names)"
  have "set (fst (fold ?f raws (ids, names))) = set ids \<union>
      {i. \<exists>raw \<in> set raws. passes re raw \<and> (\<exists>ids. hm_get mapping raw = Some ids \<and> i \<in> set ids)} \<and>
    set (snd (fold ?f raws (ids, names))) = set names \<union> {raw \<in> set raws. passes re raw \<and> hm_get mapping raw = None}"
    for ids names
    by (induction raws arbitrary: ids names) (auto split: option.splits)
  from this [of "[]" "[]"] show
    "set (fst (wanted_claims re mapping raws)) =
     {i. \<exists>raw \<in> set raws. passes re raw \<and> (\<exists>ids. hm_get mapping raw = Some ids \<and> i \<in> set ids)}"
    "set (snd (wanted_claims re mapping raws)) = {raw \<in> set raws. passes re raw \<and> hm_get mapping raw = None}"
    by (simp_all add: wanted_claims_def)
qed

lemma create_group_frame: "it_group_members (fst (create_group E name org source t)) = it_group_members t"
  by (simp add: create_group_def Let_def split: option.split)

lemma resolve_names_frame:
  "it_group_members (fst (resolve_names E org settings existing names ids n t)) = it_group_members t"
proof (induction names arbitrary: ids n t)
  case (Cons name names)
  obtain t1 r where "create_group E name org (Some IDP_GROUP_SOURCE) t = (t1, r)" by fastforce
  with Cons create_group_frame [of E name org "Some IDP_GROUP_SOURCE" t] show ?case
    by (auto split: option.split sum.split)
qed simp

lemma resolve_names_no_create:
  assumes "\<not> gs_auto_create_missing_groups settings"
  obtains wanted where "resolve_names E org settings existing names ids n t = (t, Ok (wanted, n))"
    and "set wanted = set ids \<union> {i. \<exists>name \<in> set names. map_option gr_id (find (\<lambda>g. gr_name g = name) existing) = Some i}"
proof -
  have "\<exists>wanted. resolve_names E org settings existing names ids n t = (t, Ok (wanted, n)) \<and>
    set wanted = set ids \<union> {i. \<exists>name \<in> set names. map_option gr_id (find (\<lambda>g. gr_name g = name) existing) = Some i}"
    using assms
  proof (induction names arbitrary: ids)
    case (Cons name names)
    show ?case
    proof (cases "find (\<lambda>g. gr_name g = name) existing")
      case None
      with Cons show ?thesis by simp
    next
      case (Some g)
      with Cons.IH [of "hs_insert (gr_id g) ids"] Cons.prems show ?thesis by auto
    qed
  qed simp
  with that show ?thesis by blast
qed

lemma idp_memberships_ok:
  assumes "\<And>c. fault E c = None" and "live_user t user"
  obtains current where "idp_memberships E user t gs = Ok current"
    and "set current = {i. \<exists>g \<in> set gs. gr_id g = i \<and> gr_source g = IDP_GROUP_SOURCE \<and>
           (i, user) \<in> set (it_group_members t)}"
proof -
  have members: "list_group_members E t g = Ok (map snd (filter (\<lambda>(h, u). h = g \<and> live_user t u) (it_group_members t)))"
    for g
    by (simp add: list_group_members_def guard_fault_def assms(1))
  have "\<exists>current. idp_memberships E user t gs = Ok current \<and>
    set current = {i. \<exists>g \<in> set gs. gr_id g = i \<and> gr_source g = IDP_GROUP_SOURCE \<and>
      (i, user) \<in> set (it_group_members t)}"
  proof (induction gs)
    case (Cons g gs)
    then obtain rest where rest: "idp_memberships E user t gs = Ok rest"
      "set rest = {i. \<exists>g \<in> set gs. gr_id g = i \<and> gr_source g = IDP_GROUP_SOURCE \<and>
        (i, user) \<in> set (it_group_members t)}" by blast
    have "user \<in> snd ` {x \<in> set (it_group_members t). case x of (h, u) \<Rightarrow> h = gr_id g \<and> live_user t u} \<longleftrightarrow>
        (gr_id g, user) \<in> set (it_group_members t)"
      using assms(2) by force
    with rest show ?case by (auto simp: members)
  qed simp
  with that show ?thesis by blast
qed

lemma insert_group_member_frame:
  "it_groups (fst (insert_group_member E g user t)) = it_groups t"
  "it_users (fst (insert_group_member E g user t)) = it_users t"
  "set (it_group_members t) \<subseteq> set (it_group_members (fst (insert_group_member E g user t)))"
  by (auto simp: insert_group_member_def split: option.split)

lemma add_group_members_step:
  obtains k where "fst (add_group_members E user current (g # gs) n t) =
    fst (add_group_members E user current gs k (if g \<in> set current then t else fst (insert_group_member E g user t)))"
proof (cases "insert_group_member E g user t")
  case (Pair t1 r)
  then have "\<exists>k. fst (add_group_members E user current (g # gs) n t) = fst (add_group_members E user current gs k
      (if g \<in> set current then t else fst (insert_group_member E g user t)))"
    by (cases r) auto
  with that show ?thesis by blast
qed

lemma add_group_members_frame:
  "it_groups (fst (add_group_members E user current gs n t)) = it_groups t \<and>
   set (it_group_members t) \<subseteq> set (it_group_members (fst (add_group_members E user current gs n t)))"
proof (induction gs arbitrary: n t)
  case (Cons g gs)
  obtain k where rest: "fst (add_group_members E user current (g # gs) n t) =
    fst (add_group_members E user current gs k (if g \<in> set current then t else fst (insert_group_member E g user t)))"
    by (rule add_group_members_step)
  show ?case
  proof (cases "g \<in> set current")
    case True
    with rest Cons [of k t] show ?thesis by simp
  next
    case False
    with rest have "fst (add_group_members E user current (g # gs) n t) =
        fst (add_group_members E user current gs k (fst (insert_group_member E g user t)))" by simp
    then show ?thesis
      using Cons [of k "fst (insert_group_member E g user t)"]
        insert_group_member_frame [where E = E and g = g and user = user and t = t] by auto
  qed
qed simp

lemma insert_group_member_complete:
  assumes "fault E (InsertGroupMember g user) = None" and "user \<in> us_id ` set (it_users t)"
    and "h \<in> gr_id ` set (it_groups t)"
  shows "(h, u) \<in> set (it_group_members (fst (insert_group_member E g user t))) \<longleftrightarrow>
    (h, u) = (g, user) \<or> (h, u) \<in> set (it_group_members t)"
  using assms by (force simp: insert_group_member_def)

lemma add_group_members_complete:
  assumes "\<And>c. fault E c = None" and "user \<in> us_id ` set (it_users t)" and "h \<in> gr_id ` set (it_groups t)"
  shows "(h, u) \<in> set (it_group_members (fst (add_group_members E user current gs n t))) \<longleftrightarrow>
    u = user \<and> h \<in> set gs \<and> h \<notin> set current \<or> (h, u) \<in> set (it_group_members t)"
  using assms
proof (induction gs arbitrary: n t)
  case (Cons g gs)
  obtain k where rest: "fst (add_group_members E user current (g # gs) n t) =
    fst (add_group_members E user current gs k (if g \<in> set current then t else fst (insert_group_member E g user t)))"
    by (rule add_group_members_step)
  show ?case
  proof (cases "g \<in> set current")
    case True
    then show ?thesis unfolding rest using Cons by auto
  next
    case False
    have "(h, u) \<in> set (it_group_members
          (fst (add_group_members E user current gs k (fst (insert_group_member E g user t))))) \<longleftrightarrow>
        u = user \<and> h \<in> set gs \<and> h \<notin> set current \<or>
        (h, u) \<in> set (it_group_members (fst (insert_group_member E g user t)))"
      by (rule Cons.IH) (simp_all add: insert_group_member_frame Cons.prems)
    with False show ?thesis
      unfolding rest by (auto simp: insert_group_member_complete [OF Cons.prems(1,2,3)])
  qed
qed simp

lemma remove_group_members_rows:
  "set (it_group_members (fst (remove_group_members E user wanted idp gs n t))) =
     set (it_group_members t) - {(g, u). u = user \<and> g \<in> set gs \<and> g \<notin> set wanted \<and> g \<in> set idp \<and>
       fault E (DeleteGroupMember g user) = None}"
proof (induction gs arbitrary: n t)
  case (Cons g gs)
  show ?case
  proof (cases "g \<in> set wanted \<or> g \<notin> set idp \<or> fault E (DeleteGroupMember g user) \<noteq> None")
    case True
    then have "fst (remove_group_members E user wanted idp (g # gs) n t) =
        fst (remove_group_members E user wanted idp gs n t)"
      by (auto simp: delete_group_member_def)
    with True Cons show ?thesis by auto
  next
    case False
    define gone where "gone = ((g, user) \<in> set (it_group_members t))"
    define t1 where "t1 = t \<lparr> it_group_members := removeAll (g, user) (it_group_members t) \<rparr>"
    have "delete_group_member E g user t = (t1, Ok gone)"
      using False by (simp add: delete_group_member_def gone_def t1_def)
    with False have "fst (remove_group_members E user wanted idp (g # gs) n t) =
        fst (remove_group_members E user wanted idp gs (if gone then n + 1 else n) t1)"
      by (cases gone) simp_all
    with False Cons show ?thesis by (auto simp: t1_def)
  qed
qed simp

lemma remove_group_members_frame: "it_groups (fst (remove_group_members E user wanted idp gs n t)) = it_groups t"
proof (induction gs arbitrary: n t)
  case (Cons g gs)
  then show ?case
    by (cases "(g, user) \<in> set (it_group_members t)") (auto simp: delete_group_member_def split: option.split)
qed simp

lemma list_groups_ok:
  "fault E (ListGroups org) = None \<Longrightarrow>
   list_groups E t org = Ok (filter (\<lambda>g. gr_organization_id g = org) (it_groups t))"
  by (simp add: list_groups_def guard_fault_def)

lemma list_groups_SomeE:
  assumes "lift_storage (list_groups E t org) = Inr gs"
  shows "gs = filter (\<lambda>g. gr_organization_id g = org) (it_groups t)"
  using assms by (auto simp: list_groups_def guard_fault_def split: option.splits)

text \<open>The tables after a group sync that got past its reading phase.\<close>

definition provider_groups :: "uuid \<Rightarrow> IdentityTables \<Rightarrow> uuid list" where
  "provider_groups org t =
     map gr_id (filter (\<lambda>g. gr_source g = IDP_GROUP_SOURCE) (filter (\<lambda>g. gr_organization_id g = org) (it_groups t)))"

lemma sync_groups_cases:
  obtains t1 where "fst (sync_groups E user org raws settings t) = t1" and "it_group_members t1 = it_group_members t"
  | t1 wanted current where "it_group_members t1 = it_group_members t"
    and "fst (sync_groups E user org raws settings t) =
      fst (remove_group_members E user wanted (provider_groups org t1) current 0
        (fst (add_group_members E user current wanted 0 t1)))"
proof (cases "it_group_members (fst (sync_groups E user org raws settings t)) = it_group_members t")
  case True
  with that(1) show ?thesis by blast
next
  case False
  then obtain re where re: "gs_field settings \<noteq> []" "compile_filter E (gs_regex_filter settings) = Inr re"
    by (cases "compile_filter E (gs_regex_filter settings)") (auto simp: sync_groups_def split: if_splits)
  obtain ids names where claims: "wanted_claims re (gs_mapping settings) raws = (ids, names)" by fastforce
  from False re claims obtain existing where ex: "lift_storage (list_groups E t org) = Inr existing"
    by (cases "lift_storage (list_groups E t org)") (auto simp: sync_groups_def)
  obtain t1 r where res: "resolve_names E org settings existing names ids 0 t = (t1, r)" by fastforce
  have same: "it_group_members t1 = it_group_members t"
    using resolve_names_frame [of E org settings existing names ids 0 t] res by simp
  from False re claims ex res same obtain wanted created where r: "r = Inr (wanted, created)"
    by (cases r) (auto simp: sync_groups_def)
  from False re claims ex res same r obtain refreshed where rf: "lift_storage (list_groups E t1 org) = Inr refreshed"
    by (cases "lift_storage (list_groups E t1 org)") (auto simp: sync_groups_def)
  from False re claims ex res same r rf obtain current where
    cur: "lift_storage (idp_memberships E user t1 refreshed) = Inr current"
    by (cases "lift_storage (idp_memberships E user t1 refreshed)") (auto simp: sync_groups_def)
  have "fst (sync_groups E user org raws settings t) =
      fst (remove_group_members E user wanted (provider_groups org t1) current 0
        (fst (add_group_members E user current wanted 0 t1)))"
    using re claims ex res r rf cur list_groups_SomeE [OF rf]
    by (simp add: sync_groups_def provider_groups_def case_prod_unfold Let_def)
  with that(2) same show ?thesis by blast
qed

text \<open>
  A group sync takes a membership away only from the user it is run for, and only in a group of
  this organization that the provider controls: whatever the claims, the settings and the database
  errors, every other membership survives.
\<close>

lemma group_sync_removes_only_provider_groups:
  fixes t t' E user org raws settings
  defines "t' \<equiv> fst (sync_groups E user org raws settings t)"
  assumes "(g, u) \<in> set (it_group_members t)" and "(g, u) \<notin> set (it_group_members t')"
  shows "u = user \<and> (\<exists>r \<in> set (it_groups t'). gr_id r = g \<and> gr_organization_id r = org \<and> gr_source r = ''oidc'')"
proof (rule sync_groups_cases [of E user org raws settings t])
  fix t1
  assume "fst (sync_groups E user org raws settings t) = t1" "it_group_members t1 = it_group_members t"
  with assms show ?thesis by simp
next
  fix t1 wanted current
  assume same: "it_group_members t1 = it_group_members t"
    and eq: "fst (sync_groups E user org raws settings t) =
      fst (remove_group_members E user wanted (provider_groups org t1) current 0
        (fst (add_group_members E user current wanted 0 t1)))"
  define t2 where "t2 = fst (add_group_members E user current wanted 0 t1)"
  have t': "t' = fst (remove_group_members E user wanted (provider_groups org t1) current 0 t2)"
    unfolding t'_def eq t2_def ..
  have "it_groups t2 = it_groups t1" "(g, u) \<in> set (it_group_members t2)"
    using add_group_members_frame [of E user current wanted 0 t1] assms(2) same by (auto simp: t2_def)
  then show ?thesis
    using assms(3) unfolding t' remove_group_members_rows remove_group_members_frame
    by (auto simp: provider_groups_def IDP_GROUP_SOURCE_def)
qed

text \<open>The groups the claims and the settings ask for when none is created.\<close>

definition wanted_groups ::
  "(string \<Rightarrow> bool) option \<Rightarrow> GroupSyncSettings \<Rightarrow> uuid \<Rightarrow> string list \<Rightarrow> IdentityTables \<Rightarrow> uuid set" where
  "wanted_groups re settings org raws t =
     {i. \<exists>raw \<in> set raws. passes re raw \<and>
        (case hm_get (gs_mapping settings) raw of
           Some ids \<Rightarrow> i \<in> set ids
         | None \<Rightarrow> map_option gr_id
             (find (\<lambda>g. gr_name g = raw) (filter (\<lambda>g. gr_organization_id g = org) (it_groups t))) = Some i)}"

lemma sync_groups_no_create:
  assumes ok: "\<And>c. fault E c = None" and configured: "gs_field settings \<noteq> []"
    and re: "compile_filter E (gs_regex_filter settings) = Ok re"
    and no_create: "\<not> gs_auto_create_missing_groups settings" and live: "live_user t user"
  obtains wanted current where "set wanted = wanted_groups re settings org raws t"
    and "set current = {i \<in> set (provider_groups org t). (i, user) \<in> set (it_group_members t)}"
    and "fst (sync_groups E user org raws settings t) =
      fst (remove_group_members E user wanted (provider_groups org t) current 0
        (fst (add_group_members E user current wanted 0 t)))"
proof -
  let ?groups = "filter (\<lambda>g. gr_organization_id g = org) (it_groups t)"
  obtain ids names where claims: "wanted_claims re (gs_mapping settings) raws = (ids, names)" by fastforce
  obtain wanted where res: "resolve_names E org settings ?groups names ids 0 t = (t, Ok (wanted, 0))"
    and wanted: "set wanted =
      set ids \<union> {i. \<exists>name \<in> set names. map_option gr_id (find (\<lambda>g. gr_name g = name) ?groups) = Some i}"
    by (rule resolve_names_no_create [OF no_create])
  obtain current where cur: "idp_memberships E user t ?groups = Ok current"
    and current: "set current = {i. \<exists>g \<in> set ?groups. gr_id g = i \<and> gr_source g = IDP_GROUP_SOURCE \<and>
           (i, user) \<in> set (it_group_members t)}"
    by (rule idp_memberships_ok [OF ok live])
  have "set wanted = wanted_groups re settings org raws t"
    using wanted_claims_sets [of re "gs_mapping settings" raws]
    unfolding wanted claims fst_conv snd_conv by (auto simp: wanted_groups_def split: option.splits)
  moreover have "set current = {i \<in> set (provider_groups org t). (i, user) \<in> set (it_group_members t)}"
    unfolding current provider_groups_def by auto
  moreover have "fst (sync_groups E user org raws settings t) =
      fst (remove_group_members E user wanted (provider_groups org t) current 0
        (fst (add_group_members E user current wanted 0 t)))"
    using configured re claims res cur
    by (simp add: sync_groups_def list_groups_ok [OF ok] provider_groups_def case_prod_unfold Let_def)
  ultimately show ?thesis using that by blast
qed

text \<open>
  When every statement succeeds and no group is to be created, a group sync leaves the user in
  exactly the groups the claims name, and in those groups of other sources and organizations the user
  was in before. A group a person made is joined too as soon as a claim has its name, though the
  module's rules say that such groups are never touched.
\<close>

theorem group_sync_exact:
  assumes ok: "\<And>c. fault E c = None" and configured: "gs_field settings \<noteq> []"
    and re: "compile_filter E (gs_regex_filter settings) = Ok re"
    and no_create: "\<not> gs_auto_create_missing_groups settings" and live: "live_user t user"
    and g: "g \<in> gr_id ` set (it_groups t)"
  shows "(g, user) \<in> set (it_group_members (fst (sync_groups E user org raws settings t))) \<longleftrightarrow>
    g \<in> wanted_groups re settings org raws t \<or>
    (g, user) \<in> set (it_group_members t) \<and> g \<notin> set (provider_groups org t)"
proof -
  obtain wanted current where w: "set wanted = wanted_groups re settings org raws t"
    and c: "set current = {i \<in> set (provider_groups org t). (i, user) \<in> set (it_group_members t)}"
    and eq: "fst (sync_groups E user org raws settings t) =
      fst (remove_group_members E user wanted (provider_groups org t) current 0
        (fst (add_group_members E user current wanted 0 t)))"
    using sync_groups_no_create [OF ok configured re no_create live] by blast
  show ?thesis
    unfolding eq remove_group_members_rows
    using add_group_members_complete [OF ok live_user_exists [OF live] g, of user current wanted 0] w c ok
    by auto
qed

definition demo_group_settings :: GroupSyncSettings where
  "demo_group_settings = \<lparr> gs_field = ''groups'', gs_mapping = [], gs_regex_filter = None,
     gs_auto_create_missing_groups = False \<rparr>"

theorem group_sync_exact_witness:
  "(20, 1) \<in> set (it_group_members
     (fst (sync_groups demo_env 1 5 [''secrets''] demo_group_settings demo_tables)))"
proof -
  have "(20, 1) \<in> set (it_group_members
      (fst (sync_groups demo_env 1 5 [''secrets''] demo_group_settings demo_tables))) \<longleftrightarrow>
      20 \<in> wanted_groups None demo_group_settings 5 [''secrets''] demo_tables \<or>
      (20, 1) \<in> set (it_group_members demo_tables) \<and> 20 \<notin> set (provider_groups 5 demo_tables)"
    by (rule group_sync_exact)
      (simp_all add: demo_env_def compile_filter_def demo_group_settings_def live_user_def demo_tables_def)
  then show ?thesis
    by (simp add: wanted_groups_def demo_group_settings_def demo_tables_def passes_def hm_get_def)
qed

section \<open>Roles\<close>

text \<open>What the sync makes of one membership row of the user.\<close>

definition synced_member :: "(uuid \<Rightarrow> RoleSyncSettings) \<Rightarrow> json \<Rightarrow> MemberRow \<Rightarrow> MemberRow" where
  "synced_member settings claims m =
     (let s = settings (om_organization_id m); expected = expected_org_roles s claims in
      if rs_field s = [] \<or> unique_sorted (filter (\<lambda>r. r \<noteq> ORG_MEMBER_ROLE) (om_roles m)) = expected then m
      else m \<lparr> om_roles := expected \<rparr>)"

lemma synced_member_key [simp]:
  "om_organization_id (synced_member settings claims m) = om_organization_id m"
  "om_user_id (synced_member settings claims m) = om_user_id m"
  by (simp_all add: synced_member_def Let_def)

lemma update_roles_ok:
  assumes "\<And>c. fault E c = None"
  shows "update_organization_member_roles E org user roles t =
      (t \<lparr> it_members := map (\<lambda>m. if om_organization_id m = org \<and> om_user_id m = user
         then m \<lparr> om_roles := roles \<rparr> else m) (it_members t) \<rparr>, Ok ())"
    and "update_user_roles E user roles t =
      (t \<lparr> it_users := map (\<lambda>u. if us_id u = user \<and> \<not> us_deleted u then u \<lparr> us_rbac_roles := roles \<rparr> else u)
         (it_users t) \<rparr>, Ok ())"
  by (simp_all add: update_organization_member_roles_def update_user_roles_def guard_fault_def assms)

lemma sync_each_org_step:
  assumes ok: "\<And>c. fault E c = None" and user: "om_user_id m = user"
    and only: "\<And>x. x \<in> set (it_members t) \<Longrightarrow> member_key x = member_key m \<Longrightarrow> x = m"
  obtains result' where "sync_each_org E user claims (m # ms) result t =
    sync_each_org E user claims ms result'
      (t \<lparr> it_members := map (\<lambda>x. if x = m then synced_member (it_role_settings t) claims m else x) (it_members t) \<rparr>)"
proof -
  let ?s = "it_role_settings t (om_organization_id m)"
  have settings: "role_sync_settings E t (om_organization_id m) = Ok ?s"
    by (simp add: role_sync_settings_def guard_fault_def ok)
  show ?thesis
  proof (cases "rs_field ?s = [] \<or>
      unique_sorted (filter (\<lambda>r. r \<noteq> ORG_MEMBER_ROLE) (om_roles m)) = expected_org_roles ?s claims")
    case True
    then have "t \<lparr> it_members := map (\<lambda>x. if x = m then synced_member (it_role_settings t) claims m else x) (it_members t) \<rparr> = t"
      by (simp add: synced_member_def Let_def if_distrib map_idI cong: if_cong)
    with True that settings show ?thesis by (auto simp: sync_org_roles_def Let_def)
  next
    case False
    then have diff: "rs_field ?s \<noteq> []"
      "unique_sorted (filter (\<lambda>r. r \<noteq> ORG_MEMBER_ROLE) (om_roles m)) \<noteq> expected_org_roles ?s claims"
      by (auto simp: synced_member_def Let_def)
    have "map (\<lambda>x. if om_organization_id x = om_organization_id m \<and> om_user_id x = user
          then x \<lparr> om_roles := expected_org_roles ?s claims \<rparr> else x) (it_members t) =
        map (\<lambda>x. if x = m then synced_member (it_role_settings t) claims m else x) (it_members t)"
      using only user diff by (intro map_cong) (auto simp: synced_member_def Let_def)
    with that settings ok diff show ?thesis
      by (auto simp: sync_org_roles_def update_roles_ok Let_def)
  qed
qed

lemma sync_each_org_rows:
  assumes ok: "\<And>c. fault E c = None" and "\<forall>m \<in> set ms. om_user_id m = user"
    and "distinct (map om_organization_id ms)"
    and "\<forall>x \<in> set (it_members t). member_key x \<in> member_key ` set ms \<longrightarrow> x \<in> set ms"
  shows "it_members (fst (sync_each_org E user claims ms result t)) =
    map (\<lambda>x. if x \<in> set ms then synced_member (it_role_settings t) claims x else x) (it_members t)"
  using assms(2-)
proof (induction ms arbitrary: result t)
  case (Cons m ms)
  let ?f = "synced_member (it_role_settings t) claims"
  define t1 where "t1 = t \<lparr> it_members := map (\<lambda>x. if x = m then ?f m else x) (it_members t) \<rparr>"
  have user: "om_user_id m = user" and fresh: "om_organization_id m \<notin> om_organization_id ` set ms"
    using Cons.prems by auto
  have only: "x = m" if "x \<in> set (it_members t)" "member_key x = member_key m" for x
  proof -
    have "member_key x \<in> member_key ` set (m # ms)" using that(2) by simp
    then have "x \<in> set (m # ms)" using Cons.prems(3) that(1) by blast
    moreover have "om_organization_id x \<notin> om_organization_id ` set ms" using that(2) fresh by simp
    ultimately show ?thesis by auto
  qed
  obtain result' where eq: "sync_each_org E user claims (m # ms) result t = sync_each_org E user claims ms result' t1"
    unfolding t1_def using sync_each_org_step [OF ok user only] by blast
  have keep: "\<forall>x \<in> set (it_members t1). member_key x \<in> member_key ` set ms \<longrightarrow> x \<in> set ms"
  proof (intro ballI impI)
    fix x
    assume x: "x \<in> set (it_members t1)" "member_key x \<in> member_key ` set ms"
    then have "om_organization_id x \<noteq> om_organization_id m" using fresh by auto
    with x(1) have "x \<in> set (it_members t)" "x \<noteq> m" by (auto simp: t1_def split: if_splits)
    with Cons.prems(3) x(2) show "x \<in> set ms" by auto
  qed
  have d: "\<forall>m \<in> set ms. om_user_id m = user" "distinct (map om_organization_id ms)"
    using Cons.prems(1,2) by simp_all
  have "it_members (fst (sync_each_org E user claims ms result' t1)) =
      map (\<lambda>x. if x \<in> set ms then synced_member (it_role_settings t1) claims x else x) (it_members t1)"
    by (rule Cons.IH [OF d keep])
  also have "\<dots> = map (\<lambda>x. if x \<in> set (m # ms) then ?f x else x) (it_members t)"
  proof -
    have "m \<notin> set ms" "?f m \<notin> set ms"
      using fresh synced_member_key(1) [of "it_role_settings t" claims m] by (metis image_eqI)+
    then show ?thesis by (auto simp: t1_def)
  qed
  finally show ?case unfolding eq .
qed simp

lemma distinct_orgs_of_user:
  assumes "distinct (map member_key ms)"
  shows "distinct (map om_organization_id (filter (\<lambda>m. om_user_id m = user) ms))"
  using assms
proof (induction ms)
  case (Cons m ms)
  have "om_organization_id m \<notin> om_organization_id ` {x \<in> set ms. om_user_id x = om_user_id m}"
  proof
    assume "om_organization_id m \<in> om_organization_id ` {x \<in> set ms. om_user_id x = om_user_id m}"
    then obtain x where x: "x \<in> set ms" "member_key m = member_key x" by auto
    have "member_key m \<in> member_key ` set ms" unfolding x(2) by (rule imageI [OF x(1)])
    with Cons.prems show False by simp
  qed
  with Cons show ?case by auto
qed simp

lemma sync_site_wide_roles_ok:
  assumes "\<And>c. fault E c = None"
  obtains users result where "sync_site_wide_roles E user raw_site t = (t \<lparr> it_users := users \<rparr>, Ok result)"
    and "live_user (t \<lparr> it_users := users \<rparr>) user = live_user t user"
proof -
  define users where "users =
    map (\<lambda>u. if us_id u = user \<and> \<not> us_deleted u then u \<lparr> us_rbac_roles := unique_sorted raw_site \<rparr> else u) (it_users t)"
  have users_of: "it_users (t \<lparr> it_users := users \<rparr>) = users" by simp
  have ex: "(\<exists>v \<in> f ` A. P v) \<longleftrightarrow> (\<exists>v \<in> A. P (f v))" for f :: "UserRow \<Rightarrow> UserRow" and A P by blast
  have "live_user (t \<lparr> it_users := users \<rparr>) user = live_user t user"
    unfolding live_user_def users_of unfolding users_def set_map ex
    by (rule bex_cong) (auto split: if_splits)
  moreover have "(\<exists>result. sync_site_wide_roles E user raw_site t = (t \<lparr> it_users := users \<rparr>, Ok result)) \<or>
      (\<exists>result. sync_site_wide_roles E user raw_site t = (t \<lparr> it_users := it_users t \<rparr>, Ok result))"
    by (auto simp: sync_site_wide_roles_def find_user_by_id_def guard_fault_def assms update_roles_ok users_def
        Let_def split: option.split)
  ultimately show ?thesis using that [of users] that [of "it_users t"] by auto
qed

text \<open>
  When every statement succeeds, a role sync leaves in every organization the user belongs to, if
  that organization configures role sync, exactly the roles the claims map to (the implied
  \<open>organization-member\<close> aside, which the sync neither grants nor counts), and touches no role of any
  other user or organization.
\<close>

theorem role_sync_exact:
  assumes ok: "\<And>c. fault E c = None" and live: "live_user t user"
    and dist: "distinct (map member_key (it_members t))"
  shows "it_members (fst (sync_roles E user claims raw_site sync_site_wide t)) =
    map (\<lambda>m. if om_user_id m = user then synced_member (it_role_settings t) claims m else m) (it_members t)"
proof -
  define ms where "ms = filter (\<lambda>m. om_user_id m = user) (it_members t)"
  obtain users site where users: "(if sync_site_wide then sync_site_wide_roles E user raw_site t else (t, Ok (0, 0))) =
      (t \<lparr> it_users := users \<rparr>, Ok site)" "live_user (t \<lparr> it_users := users \<rparr>) user"
  proof (cases sync_site_wide)
    case True
    with that live sync_site_wide_roles_ok [OF ok, of user raw_site t] show ?thesis by metis
  next
    case False
    with that [of "it_users t"] live show ?thesis by simp
  qed
  obtain result where eq: "fst (sync_roles E user claims raw_site sync_site_wide t) =
      fst (sync_each_org E user claims ms result (t \<lparr> it_users := users \<rparr>))"
    using ok users
    by (cases site) (simp add: sync_roles_def list_user_memberships_def guard_fault_def ms_def case_prod_unfold Let_def)
  have rows: "\<forall>m \<in> set ms. om_user_id m = user" "distinct (map om_organization_id ms)"
    "\<forall>x \<in> set (it_members t). member_key x \<in> member_key ` set ms \<longrightarrow> x \<in> set ms"
    unfolding ms_def by (auto intro: distinct_orgs_of_user [OF dist])
  have "it_members (fst (sync_roles E user claims raw_site sync_site_wide t)) =
      map (\<lambda>x. if x \<in> set ms then synced_member (it_role_settings t) claims x else x) (it_members t)"
    unfolding eq using sync_each_org_rows [OF ok rows(1,2), of "t \<lparr> it_users := users \<rparr>"] rows(3) by simp
  also have "\<dots> = map (\<lambda>m. if om_user_id m = user then synced_member (it_role_settings t) claims m else m) (it_members t)"
    by (intro map_cong) (auto simp: ms_def)
  finally show ?thesis .
qed

theorem role_sync_exact_witness:
  "map om_roles (it_members (fst (sync_roles demo_env 1 (JObject [(''roles'', JArray [JString ''dev''])]) [] False
     demo_tables))) = [[''organization-auditor''], [''organization-auditor'']]"
proof -
  let ?claims = "JObject [(''roles'', JArray [JString ''dev''])]"
  have "it_members (fst (sync_roles demo_env 1 ?claims [] False demo_tables)) =
    map (\<lambda>m. if om_user_id m = 1 then synced_member (it_role_settings demo_tables) ?claims m else m)
      (it_members demo_tables)"
    by (rule role_sync_exact) (simp_all add: demo_env_def live_user_def demo_tables_def)
  moreover have "map om_roles (map (\<lambda>m. if om_user_id m = 1 then synced_member (it_role_settings demo_tables) ?claims m else m)
      (it_members demo_tables)) = [[''organization-auditor''], [''organization-auditor'']]"
    by code_simp
  ultimately show ?thesis by simp
qed

section \<open>The sync at login\<close>

text \<open>Frames: what each of the three syncs leaves alone, whatever fails.\<close>

lemma sync_organizations_frame:
  "it_groups (fst (sync_organizations E user raws settings re t)) = it_groups t \<and>
   it_group_members (fst (sync_organizations E user raws settings re t)) = it_group_members t"
proof (rule sync_organizations_cases [of E user raws settings re t])
  assume "fst (sync_organizations E user raws settings re t) = t"
  then show ?thesis by simp
next
  fix expected
  assume eq: "fst (sync_organizations E user raws settings re t) = synced_rows E user expected t"
  define plan where "plan = plan_sync_diff expected
    (map (\<lambda>m. (om_organization_id m, om_is_idp_controlled m))
      (if live_user t user then filter (\<lambda>m. om_user_id m = user) (it_members t) else []))"
  obtain new where "fst (add_members E user (sp_to_add plan) 0 t) = t \<lparr> it_members := it_members t @ new \<rparr>"
    using add_members_rows by blast
  then show ?thesis
    unfolding eq synced_rows_def plan_def [symmetric] Let_def remove_members_rows by simp
qed

text \<open>A change of the membership rows that only touches roles of the user's own rows.\<close>

definition roles_only :: "uuid \<Rightarrow> IdentityTables \<Rightarrow> IdentityTables \<Rightarrow> bool" where
  "roles_only user t t' \<longleftrightarrow> it_groups t' = it_groups t \<and> it_group_members t' = it_group_members t \<and>
     (\<forall>m \<in> set (it_members t). \<exists>m' \<in> set (it_members t'). member_key m' = member_key m \<and>
        om_is_idp_controlled m' = om_is_idp_controlled m \<and> (om_user_id m \<noteq> user \<longrightarrow> m' = m))"

lemma roles_only_refl: "roles_only user t t"
  by (auto simp: roles_only_def)

lemma roles_only_trans:
  assumes "roles_only user t t1" and "roles_only user t1 t2"
  shows "roles_only user t t2"
  unfolding roles_only_def
proof (intro conjI ballI)
  fix m
  assume "m \<in> set (it_members t)"
  then obtain m1 where m1: "m1 \<in> set (it_members t1)" "member_key m1 = member_key m"
    "om_is_idp_controlled m1 = om_is_idp_controlled m" "om_user_id m \<noteq> user \<longrightarrow> m1 = m"
    using assms(1) unfolding roles_only_def by blast
  then obtain m2 where m2: "m2 \<in> set (it_members t2)" "member_key m2 = member_key m1"
    "om_is_idp_controlled m2 = om_is_idp_controlled m1" "om_user_id m1 \<noteq> user \<longrightarrow> m2 = m1"
    using assms(2) unfolding roles_only_def by blast
  show "\<exists>m' \<in> set (it_members t2). member_key m' = member_key m \<and>
      om_is_idp_controlled m' = om_is_idp_controlled m \<and> (om_user_id m \<noteq> user \<longrightarrow> m' = m)"
    by (rule bexI [OF _ m2(1)]) (use m1 m2 in simp)
qed (use assms in \<open>simp_all add: roles_only_def\<close>)

lemma update_member_roles_only: "roles_only user t (fst (update_organization_member_roles E org user roles t))"
proof (cases "fault E (UpdateOrganizationMemberRoles org user)")
  case None
  define f where "f m = (if om_organization_id m = org \<and> om_user_id m = user then m \<lparr> om_roles := roles \<rparr> else m)"
    for m :: MemberRow
  have same: "member_key (f m) = member_key m \<and> om_is_idp_controlled (f m) = om_is_idp_controlled m \<and>
      (om_user_id m \<noteq> user \<longrightarrow> f m = m)" for m
    by (simp add: f_def)
  have eq: "fst (update_organization_member_roles E org user roles t) = t \<lparr> it_members := map f (it_members t) \<rparr>"
    using None unfolding f_def by (simp add: update_organization_member_roles_def)
  have "\<exists>m' \<in> set (map f (it_members t)). member_key m' = member_key m \<and>
      om_is_idp_controlled m' = om_is_idp_controlled m \<and> (om_user_id m \<noteq> user \<longrightarrow> m' = m)"
    if "m \<in> set (it_members t)" for m
    by (rule bexI [of _ "f m"]) (use same that in simp_all)
  then show ?thesis unfolding roles_only_def eq by simp
qed (simp add: update_organization_member_roles_def roles_only_refl)

lemma sync_org_roles_only: "roles_only user t (fst (sync_org_roles E user org claims settings existing t))"
  using update_member_roles_only [of user t E org "expected_org_roles settings claims"]
  by (auto simp: sync_org_roles_def Let_def roles_only_refl split: prod.split sum.split)

lemma sync_each_org_only: "roles_only user t (fst (sync_each_org E user claims ms result t))"
proof (induction ms arbitrary: result t)
  case (Cons m ms)
  show ?case
  proof (cases "role_sync_settings E t (om_organization_id m)")
    case (Inr settings)
    obtain t1 a r where step: "sync_org_roles E user (om_organization_id m) claims settings (om_roles m) t = (t1, a, r)"
      by (metis prod_cases3)
    have "roles_only user t t1"
      using sync_org_roles_only [of user t E "om_organization_id m" claims settings "om_roles m"] step by simp
    with Inr step Cons show ?thesis by (auto intro: roles_only_trans)
  qed (simp add: Cons)
qed (simp add: roles_only_refl)

lemma sync_roles_only: "roles_only user t (fst (sync_roles E user claims [] False t))"
  by (auto simp: sync_roles_def sync_each_org_only roles_only_refl case_prod_unfold Let_def split: sum.split)

definition groups_grow :: "IdentityTables \<Rightarrow> IdentityTables \<Rightarrow> bool" where
  "groups_grow t t' \<longleftrightarrow> it_members t' = it_members t \<and> set (it_groups t) \<subseteq> set (it_groups t')"

lemma groups_grow_refl [simp]: "groups_grow t t"
  by (simp add: groups_grow_def)

lemma groups_grow_trans: "groups_grow t t1 \<Longrightarrow> groups_grow t1 t2 \<Longrightarrow> groups_grow t t2"
  by (auto simp: groups_grow_def)

lemma create_group_grows: "groups_grow t (fst (create_group E name org source t))"
  by (auto simp: groups_grow_def create_group_def Let_def split: option.split)

lemma insert_group_member_grows: "groups_grow t (fst (insert_group_member E g user t))"
  by (auto simp: groups_grow_def insert_group_member_def split: option.split)

lemma delete_group_member_grows: "groups_grow t (fst (delete_group_member E g user t))"
  by (auto simp: groups_grow_def delete_group_member_def split: option.split)

lemma resolve_names_grows: "groups_grow t (fst (resolve_names E org settings existing names ids n t))"
proof (induction names arbitrary: ids n t)
  case (Cons name names)
  obtain t1 r where create: "create_group E name org (Some IDP_GROUP_SOURCE) t = (t1, r)" by fastforce
  then have "groups_grow t t1" using create_group_grows [of t E name org "Some IDP_GROUP_SOURCE"] by simp
  with create Cons show ?case
    by (auto intro: groups_grow_trans split: option.split sum.split)
qed simp

lemma add_group_members_grows: "groups_grow t (fst (add_group_members E user current gs n t))"
proof (induction gs arbitrary: n t)
  case (Cons g gs)
  obtain k where rest: "fst (add_group_members E user current (g # gs) n t) =
    fst (add_group_members E user current gs k (if g \<in> set current then t else fst (insert_group_member E g user t)))"
    by (rule add_group_members_step)
  have "groups_grow t (if g \<in> set current then t else fst (insert_group_member E g user t))"
    by (simp add: insert_group_member_grows)
  then show ?case unfolding rest using Cons by (rule groups_grow_trans)
qed simp

lemma remove_group_members_grows: "groups_grow t (fst (remove_group_members E user wanted idp gs n t))"
proof (induction gs arbitrary: n t)
  case (Cons g gs)
  obtain t1 r where del: "delete_group_member E g user t = (t1, r)" by fastforce
  then have "groups_grow t t1" using delete_group_member_grows [of t E g user] by simp
  with del Cons show ?case by (auto intro: groups_grow_trans split: sum.split bool.split)
qed simp

lemma sync_groups_grows: "groups_grow t (fst (sync_groups E user org raws settings t))"
proof -
  have "groups_grow t (fst (remove_group_members E user wanted idp current n
      (fst (add_group_members E user current wanted k (fst (resolve_names E org settings existing names ids j t))))))"
    for wanted idp current n k existing names ids j
    by (intro groups_grow_trans [OF resolve_names_grows groups_grow_trans [OF add_group_members_grows
          remove_group_members_grows]])
  then show ?thesis
    unfolding sync_groups_def Let_def case_prod_unfold
    by (auto split: sum.split simp: case_prod_unfold resolve_names_grows)
qed

text \<open>A membership a group sync may not take away: of another user, or in a group the provider does not control.\<close>

definition only_provider_losses :: "uuid \<Rightarrow> IdentityTables \<Rightarrow> IdentityTables \<Rightarrow> bool" where
  "only_provider_losses user t t' \<longleftrightarrow>
     (\<forall>(g, u) \<in> set (it_group_members t) - set (it_group_members t').
        u = user \<and> (\<exists>r \<in> set (it_groups t'). gr_id r = g \<and> gr_source r = ''oidc''))"

lemma sync_groups_losses: "only_provider_losses user t (fst (sync_groups E user org raws settings t))"
  using group_sync_removes_only_provider_groups [of _ _ t E user org raws settings]
  unfolding only_provider_losses_def by blast

lemma losses_trans:
  assumes "only_provider_losses user t t1" and "only_provider_losses user t1 t2" and "groups_grow t1 t2"
  shows "only_provider_losses user t t2"
  using assms unfolding only_provider_losses_def groups_grow_def by blast

lemma sync_groups_each_safe:
  "groups_grow t (sync_groups_each E user raws ms t) \<and> only_provider_losses user t (sync_groups_each E user raws ms t)"
proof (induction ms arbitrary: t)
  case Nil
  show ?case by (simp add: only_provider_losses_def)
next
  case (Cons m ms)
  show ?case
  proof (cases "group_sync_settings E t (om_organization_id m)")
    case (Inl e)
    with Cons show ?thesis by simp
  next
    case (Inr settings)
    let ?t1 = "fst (sync_groups E user (om_organization_id m) raws settings t)"
    have "groups_grow t ?t1" "only_provider_losses user t ?t1" by (rule sync_groups_grows sync_groups_losses)+
    with Inr Cons [of ?t1] show ?thesis by (auto intro: groups_grow_trans losses_trans)
  qed
qed


definition demo_oidc_config :: OidcConfig where
  "demo_oidc_config = \<lparr> oc_groups_field = ''groups'', oc_group_allow_list = [] \<rparr>"


end
