(* ===== verification/Workspace_Schedule.thy ===== *)
theory Workspace_Schedule
  imports Provisioner_Store Rust_Text
begin

text \<open>
  The schedules of \<open>crates/coder-workspaces/src/lib.rs\<close>: autostart schedules, the autostop policy, quiet
  hours and the latest restart time that a template's autostop requirement gives a build. Instants
  are nanoseconds since the Unix epoch; the functions that work on \<open>chrono\<close> times take whole seconds.
  The cron and time-zone crates are the parameter \<open>cron_env\<close>. A function that panics on overflow
  returns \<open>None\<close>. The current time is an argument.
\<close>

section \<open>Autostart schedules\<close>

text \<open>
  \<open>ce_after c z t\<close> is the first occurrence of \<open>c\<close> strictly after \<open>t\<close>, evaluated in the zone \<open>z\<close>, or in
  UTC.
\<close>

record ('c, 'z) cron_env =
  ce_parse :: "string \<Rightarrow> (string, 'c) result"
  ce_tz :: "string \<Rightarrow> 'z option"
  ce_after :: "'c \<Rightarrow> 'z option \<Rightarrow> instant \<Rightarrow> instant option"

record 'c AutostartSchedule =
  as_expression :: string
  as_schedule :: 'c
  as_timezone :: string

datatype ScheduleParseError = InvalidCron string

definition schedule_parse :: "('c, 'z) cron_env \<Rightarrow> string \<Rightarrow> (ScheduleParseError, 'c AutostartSchedule) result" where
  "schedule_parse C raw =
     (let (timezone, cron_expr) =
        (case strip_prefix ''CRON_TZ='' raw of
           Some rest \<Rightarrow> (case split_once CHR '' '' rest of Some p \<Rightarrow> p | None \<Rightarrow> (rest, []))
         | None \<Rightarrow> (''UTC'', raw));
        full_expr = ''0 '' @ cron_expr @ '' *''
      in case ce_parse C full_expr of
           Inl e \<Rightarrow> Err (InvalidCron e)
         | Inr schedule \<Rightarrow>
             Ok \<lparr> as_expression = raw, as_schedule = schedule, as_timezone = timezone \<rparr>)"

definition next_after_chrono :: "('c, 'z) cron_env \<Rightarrow> 'c AutostartSchedule \<Rightarrow> instant \<Rightarrow> instant option" where
  "next_after_chrono C s after = ce_after C (as_schedule s) (ce_tz C (as_timezone s)) after"

text \<open>The instants an \<open>OffsetDateTime\<close> can hold: the years -9999 to 9999.\<close>

definition unix_timestamp :: "instant \<Rightarrow> int" where
  "unix_timestamp t = t div 10 ^ 9"

definition from_unix_timestamp :: "int \<Rightarrow> instant option" where
  "from_unix_timestamp ts = (if -377705116800 \<le> ts \<and> ts \<le> 253402300799 then Some (secs ts) else None)"

definition odt_add :: "instant \<Rightarrow> int \<Rightarrow> instant option" where
  "odt_add t d = (if from_unix_timestamp (unix_timestamp (t + d)) \<noteq> None then Some (t + d) else None)"

definition next_after_utc :: "('c, 'z) cron_env \<Rightarrow> 'c AutostartSchedule \<Rightarrow> instant \<Rightarrow> instant option" where
  "next_after_utc C s now = Option.bind (next_after_chrono C s now) (\<lambda>t. from_unix_timestamp (unix_timestamp t))"

definition should_have_fired :: "('c, 'z) cron_env \<Rightarrow> 'c AutostartSchedule \<Rightarrow> int \<Rightarrow> instant \<Rightarrow> bool" where
  "should_have_fired C s window_secs now =
     (case next_after_chrono C s (now - secs window_secs) of Some t \<Rightarrow> t \<le> now | None \<Rightarrow> False)"

section \<open>Autostop policy, deadlines and idleness\<close>

definition i64_max :: int where
  "i64_max = 2 ^ 63 - 1"

definition i64_of_u64 :: "64 word \<Rightarrow> int" where
  "i64_of_u64 n = (if uint n \<le> i64_max then uint n else i64_max)"

definition duration_minutes :: "int \<Rightarrow> int option" where
  "duration_minutes m = (if m * 60 \<le> i64_max then Some (secs (m * 60)) else None)"

record AutostopPolicy =
  ttl_minutes :: "64 word"

definition should_stop :: "AutostopPolicy \<Rightarrow> instant \<Rightarrow> instant \<Rightarrow> bool option" where
  "should_stop p last_activity_utc now =
     map_option (\<lambda>ttl. ttl \<le> now - last_activity_utc) (duration_minutes (i64_of_u64 (ttl_minutes p)))"

definition compute_extended_deadline :: "instant \<Rightarrow> 64 word \<Rightarrow> instant option \<Rightarrow> instant option" where
  "compute_extended_deadline current_deadline extension_minutes max_deadline =
     Option.bind (duration_minutes (i64_of_u64 extension_minutes)) (\<lambda>d.
     Option.bind (odt_add current_deadline d) (\<lambda>extended.
       Some (case max_deadline of
               Some limit \<Rightarrow> if extended > limit then limit else extended
             | None \<Rightarrow> extended)))"

datatype AutobuildAction = Start | Stop | Dormant | Delete | NoAction

datatype BuildReason = Initiator | Autostart | Autostop | Dormancy | Autodelete | FailureRetry

fun build_reason_as_str :: "BuildReason \<Rightarrow> string" where
  "build_reason_as_str Initiator = ''initiator''"
| "build_reason_as_str Autostart = ''autostart''"
| "build_reason_as_str Autostop = ''autostop''"
| "build_reason_as_str Dormancy = ''dormancy''"
| "build_reason_as_str Autodelete = ''autodelete''"
| "build_reason_as_str FailureRetry = ''failed_build_retry''"

definition whole_days :: "int \<Rightarrow> int" where
  "whole_days d = (if 0 \<le> d then d div secs 86400 else - (- d div secs 86400))"

definition evaluate_dormancy :: "instant \<Rightarrow> 64 word \<Rightarrow> instant \<Rightarrow> AutobuildAction" where
  "evaluate_dormancy last_used_at dormancy_threshold_days now =
     (if i64_of_u64 dormancy_threshold_days \<le> whole_days (now - last_used_at) then Dormant else NoAction)"

section \<open>Quiet hours\<close>

record QuietHoursWindow =
  start_hour :: "8 word"
  end_hour :: "8 word"

definition hour_of :: "instant \<Rightarrow> nat" where
  "hour_of t = nat (unix_timestamp t div 3600 mod 24)"

definition is_quiet :: "QuietHoursWindow \<Rightarrow> instant \<Rightarrow> bool" where
  "is_quiet q now_utc =
     (let hour = word_of_nat (hour_of now_utc)
      in if start_hour q \<le> end_hour q then start_hour q \<le> hour \<and> hour < end_hour q
         else start_hour q \<le> hour \<or> hour < end_hour q)"

definition QUIET_HOURS_WINDOW_DURATION :: "8 word" where
  "QUIET_HOURS_WINDOW_DURATION = 6"

text \<open>The floating-point quotient, rounded half away from zero.\<close>

definition round_hours :: "int \<Rightarrow> int" where
  "round_hours o_secs = (if 0 \<le> o_secs then (o_secs + 1800) div 3600 else - ((- o_secs + 1800) div 3600))"

text \<open>\<open>tz_offset\<close> is the offset of a known zone at the current time, in seconds east of UTC.\<close>

definition parse_quiet_hours_schedule :: "(string \<Rightarrow> int option) \<Rightarrow> string \<Rightarrow> QuietHoursWindow option" where
  "parse_quiet_hours_schedule tz_offset raw =
     (let schedule = trim raw in
      if schedule = [] then None
      else
        case (case strip_prefix ''CRON_TZ='' schedule of
                Some rest \<Rightarrow> split_once CHR '' '' rest
              | None \<Rightarrow> Some (''UTC'', schedule)) of
          None \<Rightarrow> None
        | Some (tz_name, cron_part) \<Rightarrow>
            (let fields = split_whitespace cron_part in
             if length fields < 2 then None
             else
               case parse_unsigned 255 (fields ! 1) of
                 None \<Rightarrow> None
               | Some local_hour \<Rightarrow>
                   if 24 \<le> local_hour then None
                   else
                     let utc_start =
                       (case tz_offset tz_name of
                          Some offset_secs \<Rightarrow>
                            word_of_int ((int local_hour - round_hours offset_secs) mod 24)
                        | None \<Rightarrow> word_of_nat local_hour)
                     in Some \<lparr> start_hour = utc_start,
                               end_hour = (utc_start + QUIET_HOURS_WINDOW_DURATION) mod 24 \<rparr>))"

record TemplateScheduleConstraints =
  max_autostart_interval :: "int option"
  max_ttl_minutes :: "64 word option"
  quiet_hours :: "QuietHoursWindow option"
  dormancy_threshold_days :: "64 word option"
  dormancy_auto_deletion_days :: "64 word option"

section \<open>The latest restart time\<close>

definition AUTOSTOP_REQUIREMENT_LEEWAY :: int where
  "AUTOSTOP_REQUIREMENT_LEEWAY = 2 * 3600"

text \<open>Days since Monday: the Unix epoch was a Thursday.\<close>

definition weekday :: "int \<Rightarrow> nat" where
  "weekday t = nat ((t div 86400 + 3) mod 7)"

unbundle bit_operations_syntax

definition autostop_requirement_day_is_set :: "16 word \<Rightarrow> nat \<Rightarrow> bool" where
  "autostop_requirement_day_is_set bitmap day \<longleftrightarrow> bitmap AND push_bit day 1 \<noteq> 0"

definition truncate_utc_midnight :: "int \<Rightarrow> int" where
  "truncate_utc_midnight t = t div 86400 * 86400"

definition quiet_window_on_date :: "int \<Rightarrow> QuietHoursWindow \<Rightarrow> int option" where
  "quiet_window_on_date day q =
     (if unat (start_hour q) < 24 then Some (truncate_utc_midnight day + int (unat (start_hour q)) * 3600)
      else None)"

definition autostop_epoch :: int where
  "autostop_epoch = 1672617600"

definition next_applicable_monday_of_n_weeks :: "int \<Rightarrow> int \<Rightarrow> int option" where
  "next_applicable_monday_of_n_weeks now n =
     (if now < autostop_epoch then None
      else
        let weeks_since = (now - autostop_epoch) div 86400 div 7;
            remainder = weeks_since mod n
        in if remainder = 0 then Some (truncate_utc_midnight (autostop_epoch + weeks_since * 7 * 86400))
           else Some (truncate_utc_midnight (autostop_epoch + (weeks_since + (n - remainder)) * 7 * 86400)))"

fun seek_day :: "nat \<Rightarrow> 16 word \<Rightarrow> int \<Rightarrow> int" where
  "seek_day 0 bitmap day = day"
| "seek_day (Suc n) bitmap day =
     (if autostop_requirement_day_is_set bitmap (weekday day) then day else seek_day n bitmap (day + 86400))"

definition compute_max_deadline ::
  "16 word \<Rightarrow> int \<Rightarrow> QuietHoursWindow option \<Rightarrow> instant \<Rightarrow> instant option" where
  "compute_max_deadline days_of_week requirement_weeks quiet build_completed_at =
     (if days_of_week = 0 then None
      else Option.bind quiet (\<lambda>quiet_hours.
        let completed = unix_timestamp build_completed_at;
            with_leeway = completed + AUTOSTOP_REQUIREMENT_LEEWAY;
            day = truncate_utc_midnight with_leeway;
            weeks = max requirement_weeks 1
        in Option.bind (if weeks > 1 then next_applicable_monday_of_n_weeks day weeks else Some day) (\<lambda>day.
             let day = (case quiet_window_on_date day quiet_hours of
                          Some today_window_start \<Rightarrow>
                            if today_window_start < with_leeway then day + 86400 else day
                        | None \<Rightarrow> day);
                 day = seek_day 8 days_of_week day
             in Option.bind (quiet_window_on_date day quiet_hours) (\<lambda>start. from_unix_timestamp start))))"

section \<open>Properties\<close>

lemma unat_word_hour: "n < 256 \<Longrightarrow> unat (word_of_nat n :: 8 word) = n"
  by (simp add: unat_of_nat take_bit_nat_eq_self)

lemma hour_of_less: "hour_of t < 24"
  by (simp add: hour_of_def nat_less_iff)

lemma window_hours:
  assumes "h < 24" and "k < (24 :: nat)"
  shows "(if h \<le> (h + 6) mod 24 then h \<le> k \<and> k < (h + 6) mod 24 else h \<le> k \<or> k < (h + 6) mod 24) \<longleftrightarrow>
    (k + 24 - h) mod 24 < 6"
  using assms by (auto simp: mod_if)

lemma parse_quiet_hours_shape:
  assumes "parse_quiet_hours_schedule tz raw = Some q"
  obtains h where "h < 24" "unat (start_hour q) = h" "unat (end_hour q) = (h + 6) mod 24"
proof -
  from assms obtain s :: "8 word" where q: "q = \<lparr> start_hour = s, end_hour = (s + 6) mod 24 \<rparr>" and s: "unat s < 24"
    by (auto simp: parse_quiet_hours_schedule_def Let_def QUIET_HOURS_WINDOW_DURATION_def unat_word_hour
        unsigned_of_int take_bit_int_eq_self nat_less_iff
        split: if_splits option.splits)
  have "unat (s + 6) = unat s + 6" using s by (simp add: unat_word_ariths(1) mod_less)
  then have "unat ((s + 6) mod 24) = (unat s + 6) mod 24" by (simp add: unat_mod)
  with that [of "unat s"] q s show thesis by simp
qed


text \<open>
  A parsed quiet-hours schedule is a window of six hours around the clock: an instant is quiet
  exactly if its UTC hour lies less than six hours after the start, also across midnight.
\<close>

theorem quiet_window_is_six_hours:
  assumes "parse_quiet_hours_schedule tz raw = Some q"
  shows "is_quiet q t \<longleftrightarrow> (hour_of t + 24 - unat (start_hour q)) mod 24 < 6"
proof -
  obtain h where h: "h < 24" "unat (start_hour q) = h" "unat (end_hour q) = (h + 6) mod 24"
    using assms by (rule parse_quiet_hours_shape)
  have k: "hour_of t < 24" by (rule hour_of_less)
  then have "unat (word_of_nat (hour_of t) :: 8 word) = hour_of t" by (simp add: unat_word_hour)
  then show ?thesis
    using window_hours [OF h(1) k] h
    by (simp add: is_quiet_def Let_def word_le_nat_alt word_less_nat_alt split: if_splits)
qed

lemma seek_day_first:
  obtains k where "seek_day n b d = d + 86400 * int k" "k \<le> n"
    "\<And>j. j < k \<Longrightarrow> \<not> autostop_requirement_day_is_set b (weekday (d + 86400 * int j))"
    "k < n \<Longrightarrow> autostop_requirement_day_is_set b (weekday (d + 86400 * int k))"
proof (induction n b d arbitrary: thesis rule: seek_day.induct)
  case (2 n b d)
  show ?case
  proof (cases "autostop_requirement_day_is_set b (weekday d)")
    case True
    then show ?thesis by (intro "2.prems" [of 0]) simp_all
  next
    case False
    obtain k where k: "seek_day n b (d + 86400) = d + 86400 + 86400 * int k" "k \<le> n"
      "\<And>j. j < k \<Longrightarrow> \<not> autostop_requirement_day_is_set b (weekday (d + 86400 + 86400 * int j))"
      "k < n \<Longrightarrow> autostop_requirement_day_is_set b (weekday (d + 86400 + 86400 * int k))"
      using "2.IH" False by metis
    show ?thesis
    proof (rule "2.prems" [of "Suc k"])
      show "\<not> autostop_requirement_day_is_set b (weekday (d + 86400 * int j))" if "j < Suc k" for j
        using that False k(3) [of "j - 1"] by (cases j) (simp_all add: algebra_simps)
    qed (use k False in \<open>simp_all add: algebra_simps\<close>)
  qed
qed simp

lemma weekday_shift: "weekday (q * 86400 + s + 86400 * int j) = nat ((q + int j + 3) mod 7)"
  if "0 \<le> s" "s < 86400"
proof -
  have "(q * 86400 + s + 86400 * int j) div 86400 = (s + 86400 * (q + int j)) div 86400"
    by (simp add: algebra_simps)
  also have "\<dots> = q + int j" using that by (simp only: div_mult_self2)
  finally show ?thesis unfolding weekday_def by (simp only: )
qed

lemma weekday_reached:
  assumes "i < 7" obtains j where "j < 7" "nat ((q + int j + 3) mod 7) = i"
proof -
  define j where "j = nat ((int i - q - 3) mod 7)"
  have "int j = (int i - q - 3) mod 7" by (simp add: j_def)
  then have "(q + int j + 3) mod 7 = (q + 3 + (int i - q - 3) mod 7) mod 7" by (simp add: ac_simps)
  also have "\<dots> = (q + 3 + (int i - q - 3)) mod 7" by (rule mod_add_right_eq)
  also have "\<dots> = int i mod 7" by simp
  finally have "(q + int j + 3) mod 7 = int i mod 7" .
  with assms have "nat ((q + int j + 3) mod 7) = i" by simp
  moreover have "j < 7" by (simp add: j_def nat_less_iff)
  ultimately show thesis using that by blast
qed

definition restart_time :: "16 word \<Rightarrow> QuietHoursWindow \<Rightarrow> int \<Rightarrow> bool" where
  "restart_time b q d \<longleftrightarrow>
     d mod 86400 = int (unat (start_hour q)) * 3600 \<and> autostop_requirement_day_is_set b (weekday d)"

lemma seek_earliest:
  fixes q0 :: int
  assumes s: "0 \<le> s" "s < 86400" and i: "i < 7" "autostop_requirement_day_is_set b i"
  obtains k where "k < 7" "seek_day 8 b (q0 * 86400) = (q0 + int k) * 86400"
    "autostop_requirement_day_is_set b (weekday ((q0 + int k) * 86400 + s))"
    "\<And>m. q0 \<le> m \<Longrightarrow> autostop_requirement_day_is_set b (weekday (m * 86400 + s)) \<Longrightarrow> q0 + int k \<le> m"
proof -
  obtain k where k: "seek_day 8 b (q0 * 86400) = q0 * 86400 + 86400 * int k" "k \<le> 8"
    "\<And>j. j < k \<Longrightarrow> \<not> autostop_requirement_day_is_set b (weekday (q0 * 86400 + 86400 * int j))"
    "k < 8 \<Longrightarrow> autostop_requirement_day_is_set b (weekday (q0 * 86400 + 86400 * int k))"
    by (rule seek_day_first) blast
  have day: "weekday (q0 * 86400 + 86400 * int j) = nat ((q0 + int j + 3) mod 7)" for j
    using weekday_shift [of 0 q0 j] by simp
  have day_s: "weekday ((q0 + int j) * 86400 + s) = nat ((q0 + int j + 3) mod 7)" for j
    using weekday_shift [OF s, of q0 j] by (simp add: algebra_simps)
  obtain j where j: "j < 7" "nat ((q0 + int j + 3) mod 7) = i" by (rule weekday_reached [OF i(1)])
  have k7: "k < 7"
  proof (rule ccontr)
    assume "\<not> k < 7"
    with j(1) have "j < k" by simp
    from k(3) [OF this] i(2) j(2) show False by (simp add: day)
  qed
  have set_k: "autostop_requirement_day_is_set b (weekday ((q0 + int k) * 86400 + s))"
    using k(4) k7 by (simp only: day day_s)
  have seek: "seek_day 8 b (q0 * 86400) = (q0 + int k) * 86400" using k(1) by (simp add: algebra_simps)
  show thesis
  proof (rule that [OF k7 seek set_k])
    show "q0 + int k \<le> m" if "q0 \<le> m" and set: "autostop_requirement_day_is_set b (weekday (m * 86400 + s))" for m
    proof (rule ccontr)
      assume "\<not> q0 + int k \<le> m"
      with that(1) obtain l where l: "m = q0 + int l" "l < k"
        by (metis add.commute add_less_cancel_left diff_add_cancel le_add_diff_inverse linorder_not_le
            of_nat_less_iff zle_iff_zadd)
      from k(3) [OF l(2)] set show False by (simp only: l(1) day day_s)
    qed
  qed
qed


theorem quiet_window_is_six_hours_witness:
  "is_quiet \<lparr> start_hour = 22, end_hour = 4 \<rparr> (secs (3 * 3600)) =
     ((hour_of (secs (3 * 3600)) + 24 - unat (start_hour \<lparr> start_hour = 22, end_hour = (4 :: 8 word) \<rparr>)) mod 24 < 6)"
proof (rule quiet_window_is_six_hours [of "\<lambda>_. None" "''0 22 * * *''"])
  show "parse_quiet_hours_schedule (\<lambda>_. None) ''0 22 * * *'' = Some \<lparr> start_hour = 22, end_hour = 4 \<rparr>"
    by (simp add: parse_quiet_hours_schedule_def trim_def is_space_def split_whitespace.simps
        parse_unsigned_def digits_value_def digit_value_def QUIET_HOURS_WINDOW_DURATION_def)
qed

lemma quiet_window_start:
  "unat (start_hour q) < 24 \<Longrightarrow>
     quiet_window_on_date x q = Some (x div 86400 * 86400 + int (unat (start_hour q)) * 3600)"
  by (simp add: quiet_window_on_date_def truncate_utc_midnight_def)

lemma first_day:
  fixes L s :: int
  assumes s: "0 \<le> s" "s < 86400" and q0: "q0 = (if L div 86400 * 86400 + s < L then L div 86400 + 1 else L div 86400)"
  shows "L \<le> q0 * 86400 + s \<and> (\<forall>m. L \<le> m * 86400 + s \<longrightarrow> q0 \<le> m)"
proof -
  have L: "L div 86400 * 86400 \<le> L" "L < L div 86400 * 86400 + 86400"
    using div_mult_mod_eq [of L 86400] pos_mod_bound [of 86400 L] pos_mod_sign [of 86400 L] by linarith+
  have "q0 \<le> m" if m: "L \<le> m * 86400 + s" for m
  proof -
    have "L div 86400 \<le> m" using m L s by linarith
    moreover have "L div 86400 \<noteq> m" if "L div 86400 * 86400 + s < L" using that m by auto
    ultimately show ?thesis by (auto simp: q0)
  qed
  then show ?thesis using L s by (simp add: q0)
qed

text \<open>
  For a weekly requirement the maximal deadline of a build is the first start of the quiet hours
  on a required day that is at least the leeway of two hours after the build completed.
\<close>

theorem weekly_max_deadline_earliest:
  assumes "weeks \<le> 1" and "unat (start_hour q) < 24"
    and i: "i < 7" "autostop_requirement_day_is_set b i"
    and range: "-377705116800 \<le> unix_timestamp t" "unix_timestamp t + 10 * 86400 \<le> 253402300799"
  shows "\<exists>d. compute_max_deadline b weeks (Some q) t = Some (secs d) \<and> restart_time b q d \<and>
    unix_timestamp t + 7200 \<le> d \<and>
    (\<forall>d'. restart_time b q d' \<and> unix_timestamp t + 7200 \<le> d' \<longrightarrow> d \<le> d')"
proof -
  define L where "L = unix_timestamp t + 7200"
  define s where "s = int (unat (start_hour q)) * 3600"
  define q0 where "q0 = (if L div 86400 * 86400 + s < L then L div 86400 + 1 else L div 86400)"
  have "int (unat (start_hour q)) < 24" using assms(2) by linarith
  then have s: "0 \<le> s" "s < 86400" by (simp_all add: s_def)
  note win = quiet_window_start [OF assms(2), folded s_def]
  have b: "b \<noteq> 0" using i by (auto simp: autostop_requirement_day_is_set_def)
  have L: "L div 86400 * 86400 \<le> L" "L < L div 86400 * 86400 + 86400"
    using div_mult_mod_eq [of L 86400] pos_mod_bound [of 86400 L] pos_mod_sign [of 86400 L] by linarith+
  note low = first_day [OF s q0_def, THEN conjunct1]
    and least = first_day [OF s q0_def, THEN conjunct2, rule_format]
  obtain k where k: "k < 7" "seek_day 8 b (q0 * 86400) = (q0 + int k) * 86400"
    "autostop_requirement_day_is_set b (weekday ((q0 + int k) * 86400 + s))"
    "\<And>m. q0 \<le> m \<Longrightarrow> autostop_requirement_day_is_set b (weekday (m * 86400 + s)) \<Longrightarrow> q0 + int k \<le> m"
    by (rule seek_earliest [OF s i]) blast
  define d where "d = (q0 + int k) * 86400 + s"
  have dmod: "d mod 86400 = s" unfolding d_def using s by (simp only: mod_mult_self3) simp
  have "d \<le> L + 8 * 86400" using k(1) L s by (simp add: d_def q0_def)
  with range have r: "from_unix_timestamp d = Some (secs d)"
    using low by (simp add: from_unix_timestamp_def L_def d_def)
  have day: "(if L div 86400 * 86400 + s < L then L div 86400 * 86400 + 86400 else L div 86400 * 86400) = q0 * 86400"
    by (simp add: q0_def)
  have "(q0 + int k) * 86400 div 86400 * 86400 + s = d" unfolding d_def by (simp only: nonzero_mult_div_cancel_right)
  then have "compute_max_deadline b weeks (Some q) t = Some (secs d)"
    using assms(1) b k(2) r
    unfolding compute_max_deadline_def Let_def truncate_utc_midnight_def AUTOSTOP_REQUIREMENT_LEEWAY_def
    by (simp add: win day flip: L_def)
  moreover have "restart_time b q d" using dmod k(3) unfolding restart_time_def s_def [symmetric] d_def [symmetric] by simp
  moreover have "L \<le> d" using low by (simp add: d_def)
  moreover have "d \<le> d'" if "restart_time b q d'" "L \<le> d'" for d'
  proof -
    from that(1) have "d' mod 86400 = s" by (simp add: restart_time_def s_def)
    then have d': "d' = d' div 86400 * 86400 + s" by (metis div_mult_mod_eq)
    then have "q0 \<le> d' div 86400" using that(2) least by metis
    then have "q0 + int k \<le> d' div 86400"
      using k(4) that(1) d' by (metis restart_time_def)
    then show ?thesis using d' by (simp add: d_def)
  qed
  ultimately show ?thesis unfolding L_def by blast
qed

theorem weekly_max_deadline_earliest_witness:
  "\<exists>d. compute_max_deadline 4 1 (Some \<lparr> start_hour = 2, end_hour = 8 \<rparr>) (secs 1700000000) = Some (secs d) \<and>
     restart_time 4 \<lparr> start_hour = 2, end_hour = 8 \<rparr> d \<and> 1700007200 \<le> d"
proof -
  have "unix_timestamp (secs 1700000000) = 1700000000" by (simp add: unix_timestamp_def secs_def)
  then show ?thesis
    using weekly_max_deadline_earliest [of 1 "\<lparr> start_hour = 2, end_hour = 8 \<rparr>" 2 4 "secs 1700000000"]
    by (auto simp: autostop_requirement_day_is_set_def)
qed

lemma monday_days:
  defines "M \<equiv> \<lambda>w. autostop_epoch + w * 604800"
  shows "M w div 86400 * 86400 = M w" "(M w + 86400) div 86400 * 86400 = M w + 86400" "weekday (M w + 86400) = 1"
proof -
  have M: "M w = (19359 + w * 7) * 86400" "M w + 86400 = (19360 + w * 7) * 86400"
    by (simp_all add: M_def autostop_epoch_def)
  show "M w div 86400 * 86400 = M w" "(M w + 86400) div 86400 * 86400 = M w + 86400" by (simp_all add: M)
  have "(19360 + w * 7 + 3) mod 7 = (1 + 7 * (2766 + w)) mod 7" by (simp add: algebra_simps)
  also have "\<dots> = 1" by (simp only: mod_mult_self2) simp
  finally show "weekday (M w + 86400) = 1" by (simp add: weekday_def M(2))
qed

lemma this_aligned_monday:
  assumes "0 \<le> r" and "r div 7 mod weeks = 0"
  shows "next_applicable_monday_of_n_weeks (autostop_epoch + r * 86400) weeks = Some (autostop_epoch + r div 7 * 604800)"
  using assms monday_days(1) [of "r div 7"]
  by (simp add: next_applicable_monday_of_n_weeks_def Let_def truncate_utc_midnight_def mult.assoc)

text \<open>
  With a requirement of several weeks the deadline may lie in the past: when a build completes from
  Thursday on in a week that the requirement selects and Tuesday is a required day, the maximal
  deadline is the Tuesday before.
\<close>

theorem multi_week_max_deadline_in_past:
  assumes "1 < weeks" and "unat (start_hour q) < 24" and "autostop_requirement_day_is_set b 1"
    and "autostop_epoch \<le> unix_timestamp t" and "unix_timestamp t \<le> 253402300799"
    and "(unix_timestamp t + 7200 - autostop_epoch) div (7 * 86400) mod weeks = 0"
    and "3 \<le> weekday (unix_timestamp t + 7200)"
  shows "\<exists>d. compute_max_deadline b weeks (Some q) t = Some (secs d) \<and> d < unix_timestamp t"
proof -
  define L where "L = unix_timestamp t + 7200"
  define s where "s = int (unat (start_hour q)) * 3600"
  define r where "r = L div 86400 - 19359"
  define M where "M = autostop_epoch + r div 7 * 604800"
  have "int (unat (start_hour q)) \<le> 23" using assms(2) by linarith
  then have s: "0 \<le> s" "s \<le> 82800" by (simp_all add: s_def)
  have L: "L div 86400 * 86400 \<le> L" using div_mult_mod_eq [of L 86400] pos_mod_sign [of 86400 L] by linarith
  have r: "0 \<le> r" using assms(4) by (simp add: r_def L_def autostop_epoch_def zdiv_mono1 [of 1672617600 _ 86400, simplified])
  have "(L div 86400 + 3) mod 7 = (r + 7 * 2766) mod 7" by (simp add: r_def add.commute)
  also have "\<dots> = r mod 7" by (simp only: mod_mult_self2)
  finally have "weekday L = nat (r mod 7)" by (simp add: weekday_def)
  then have "3 \<le> r mod 7" using assms(7) by (simp add: L_def)
  then have "7 * (r div 7) + 3 \<le> r" using div_mult_mod_eq [of r 7] by linarith
  then have D: "M + 3 * 86400 \<le> L" using L by (simp add: M_def r_def autostop_epoch_def)
  have "(L - autostop_epoch) div (7 * 86400) = (L - autostop_epoch) div 86400 div 7"
    by (simp add: zdiv_zmult2_eq [of 7 _ 86400, simplified] mult.commute)
  also have "(L - autostop_epoch) div 86400 = r"
    using div_mult_self1 [of 86400 "L - autostop_epoch" 19359] by (simp add: r_def autostop_epoch_def)
  finally have aligned: "r div 7 mod weeks = 0" using assms(6) by (simp flip: L_def)
  note M = monday_days [of "r div 7", folded M_def]
  note win = quiet_window_start [OF assms(2), folded s_def]
  have b: "b \<noteq> 0" using assms(3) by (auto simp: autostop_requirement_day_is_set_def)
  have "seek_day 8 b (M + 86400) = M + 86400"
    using assms(3) M(3) by (simp add: numeral_eq_Suc)
  moreover have "next_applicable_monday_of_n_weeks (L div 86400 * 86400) weeks = Some M"
    using this_aligned_monday [OF _ aligned] r by (simp add: r_def M_def autostop_epoch_def)
  moreover have "M + s < L" using D s by linarith
  moreover have d: "M + 86400 + s < unix_timestamp t" using D s by (simp add: L_def)
  moreover have "from_unix_timestamp (M + 86400 + s) = Some (secs (M + 86400 + s))"
    using d assms(5) r s pos_imp_zdiv_nonneg_iff [of 7 r]
    by (simp add: from_unix_timestamp_def M_def autostop_epoch_def)
  ultimately have "compute_max_deadline b weeks (Some q) t = Some (secs (M + 86400 + s))"
    using assms(1) b M(1,2)
    by (simp add: compute_max_deadline_def Let_def truncate_utc_midnight_def win
        AUTOSTOP_REQUIREMENT_LEEWAY_def flip: L_def)
  with d show ?thesis by blast
qed


text \<open>Friday, 6 January 2023, noon.\<close>

theorem multi_week_max_deadline_in_past_witness:
  "\<exists>d. compute_max_deadline 2 2 (Some \<lparr> start_hour = 2, end_hour = 8 \<rparr>) (secs 1673006400) = Some (secs d) \<and>
     d < 1673006400"
proof -
  have "unix_timestamp (secs 1673006400) = 1673006400" by (simp add: unix_timestamp_def secs_def)
  then show ?thesis
    using multi_week_max_deadline_in_past [of 2 "\<lparr> start_hour = 2, end_hour = 8 \<rparr>" 2 "secs 1673006400"]
    by (simp add: autostop_requirement_day_is_set_def autostop_epoch_def weekday_def)
qed

end
