(* ===== verification/Workspace_Lifecycle.thy ===== *)
theory Workspace_Lifecycle
  imports Workspace_Store Workspace_Schedule "HOL-Library.Multiset"
begin

text \<open>
  The workspace services of \<open>crates/coder-workspaces/src/lib.rs\<close>: the eligibility rules, the autobuild
  executor, the activity bump and dormancy workers and the lifecycle scheduler, over the statements
  of \<open>Workspace_Store\<close>. A tick is a fold over the rows that the query returned, with the database as
  state. The tasks of the executor run concurrently; each performs at most one statement, so a run of
  them is some order of the rows, and \<open>lc_order\<close> is that order. The identifiers a tick generates for a
  workspace are \<open>lc_job_id\<close> and \<open>lc_build_id\<close>.
\<close>

record ('j, 'c, 'z) lc_env =
  lc_ws :: "'j ws_env"
  lc_cron :: "('c, 'z) cron_env"
  lc_codec :: uuid_codec
  lc_job_id :: "uuid \<Rightarrow> uuid"
  lc_build_id :: "uuid \<Rightarrow> uuid"
  lc_order :: "WorkspaceTransitionRow list \<Rightarrow> WorkspaceTransitionRow list"

section \<open>Eligibility\<close>

definition is_eligible_for_autostart ::
  "('c, 'z) cron_env \<Rightarrow> WorkspaceTransitionRow \<Rightarrow> instant \<Rightarrow> bool" where
  "is_eligible_for_autostart C ws now =
     (if r_owner_status ws \<noteq> ''active'' then False
      else if r_job_status ws = ''failed'' then False
      else if r_dormant_at ws \<noteq> None then False
      else if r_build_transition ws \<noteq> ''stop'' then False
      else if \<not> r_template_allow_user_autostart ws then False
      else
        case r_autostart_schedule ws of
          None \<Rightarrow> False
        | Some schedule_str \<Rightarrow>
            if schedule_str = [] then False
            else
              case schedule_parse C schedule_str of
                Inl _ \<Rightarrow> False
              | Inr schedule \<Rightarrow>
                  (case r_job_completed_at ws of
                     None \<Rightarrow> False
                   | Some t \<Rightarrow>
                       (case next_after_chrono C schedule (secs (unix_timestamp t)) of
                          None \<Rightarrow> False
                        | Some next_transition \<Rightarrow> next_transition \<le> secs (unix_timestamp now))))"

definition is_eligible_for_autostop :: "WorkspaceTransitionRow \<Rightarrow> instant \<Rightarrow> bool" where
  "is_eligible_for_autostop ws now =
     (if r_job_status ws = ''failed'' then False
      else if r_dormant_at ws \<noteq> None then False
      else if r_build_transition ws = ''start'' \<and> r_owner_status ws = ''suspended'' then True
      else if r_build_transition ws \<noteq> ''start'' then False
      else case r_build_deadline ws of
             Some deadline \<Rightarrow> deadline \<noteq> 0 \<and> deadline < now
           | None \<Rightarrow> False)"

definition is_eligible_for_dormant_stop :: "WorkspaceTransitionRow \<Rightarrow> instant \<Rightarrow> bool" where
  "is_eligible_for_dormant_stop ws now =
     (if r_dormant_at ws \<noteq> None then False
      else if r_template_time_til_dormant ws \<le> 0 then False
      else r_template_time_til_dormant ws < now - r_last_used_at ws)"

definition is_eligible_for_delete :: "WorkspaceTransitionRow \<Rightarrow> instant \<Rightarrow> bool" where
  "is_eligible_for_delete ws now =
     (if r_dormant_at ws = None \<or> r_deleting_at ws = None then False
      else if r_template_time_til_dormant_autodelete ws \<le> 0 then False
      else
        case r_deleting_at ws of
          None \<Rightarrow> False
        | Some deleting_at \<Rightarrow>
            (let eligible = deleting_at < now in
             if r_build_transition ws = ''delete'' \<and> r_job_status ws = ''failed''
             then case r_job_completed_at ws of
                    Some completed_at \<Rightarrow> eligible \<and> secs (24 * 3600) < now - completed_at
                  | None \<Rightarrow> False
             else eligible))"

definition is_eligible_for_failed_stop :: "WorkspaceTransitionRow \<Rightarrow> instant \<Rightarrow> bool" where
  "is_eligible_for_failed_stop ws now =
     (if r_template_failure_ttl ws \<le> 0 then False
      else if r_job_status ws \<noteq> ''failed'' \<or> r_build_transition ws \<noteq> ''start'' then False
      else case r_job_completed_at ws of
             None \<Rightarrow> False
           | Some completed_at \<Rightarrow> r_template_failure_ttl ws < now - completed_at)"

definition get_next_transition ::
  "('c, 'z) cron_env \<Rightarrow> WorkspaceTransitionRow \<Rightarrow> instant \<Rightarrow> (AutobuildAction \<times> BuildReason) option" where
  "get_next_transition C ws now =
     (if is_eligible_for_autostop ws now then Some (Stop, Autostop)
      else if is_eligible_for_autostart C ws now then Some (Start, Autostart)
      else if is_eligible_for_failed_stop ws now then Some (Stop, Autostop)
      else if is_eligible_for_dormant_stop ws now
      then Some (if r_build_transition ws = ''start'' then Stop else Dormant, Dormancy)
      else if is_eligible_for_delete ws now then Some (Delete, Autodelete)
      else None)"

section \<open>The autobuild executor\<close>

record AutobuildStats =
  ab_transitions :: "32 word"
  ab_errors :: "32 word"
  ab_evaluated :: "32 word"

definition AUTOBUILD_TICK_SECS :: nat where
  "AUTOBUILD_TICK_SECS = 30"

definition evaluate_workspace ::
  "('j, 'c, 'z) lc_env \<Rightarrow> WorkspaceTransitionRow \<Rightarrow> instant \<Rightarrow> 'j WorkspaceDb \<Rightarrow> ('j, AutobuildAction) ws_stmt" where
  "evaluate_workspace L ws now db =
     (case get_next_transition (lc_cron L) ws now of
        None \<Rightarrow> (db, Ok NoAction)
      | Some (action, Dormancy) \<Rightarrow>
          (let (db, res) = update_workspace_dormant_deleting_at (lc_ws L) (r_id ws) (Some now) db
           in (db, case res of Inl e \<Rightarrow> Err e | Inr _ \<Rightarrow> Ok action))
      | Some (action, Autodelete) \<Rightarrow>
          (let (db, res) = soft_delete_workspace (lc_ws L) (r_id ws) db
           in (db, case res of Inl e \<Rightarrow> Err e | Inr _ \<Rightarrow> Ok action))
      | Some (action, _) \<Rightarrow> (db, Ok action))"

definition count_result :: "(StorageError, AutobuildAction) result \<Rightarrow> AutobuildStats \<Rightarrow> AutobuildStats" where
  "count_result res s =
     (let s = s \<lparr> ab_evaluated := saturating_add (ab_evaluated s) 1 \<rparr>
      in case res of
           Inr action \<Rightarrow>
             if action \<noteq> NoAction then s \<lparr> ab_transitions := saturating_add (ab_transitions s) 1 \<rparr> else s
         | Inl _ \<Rightarrow> s \<lparr> ab_errors := saturating_add (ab_errors s) 1 \<rparr>)"

definition truncate_minute :: "instant \<Rightarrow> instant" where
  "truncate_minute t = t div secs 60 * secs 60"

definition evaluate_all ::
  "('j, 'c, 'z) lc_env \<Rightarrow> instant \<Rightarrow> WorkspaceTransitionRow list \<Rightarrow> 'j WorkspaceDb \<times> AutobuildStats \<Rightarrow> 'j WorkspaceDb \<times> AutobuildStats" where
  "evaluate_all L now =
     fold (\<lambda>ws (db, stats). let (db, res) = evaluate_workspace L ws now db in (db, count_result res stats))"

definition evaluate_once ::
  "('j, 'c, 'z) lc_env \<Rightarrow> instant \<Rightarrow> 'j WorkspaceDb \<Rightarrow> ('j, AutobuildStats) ws_stmt" where
  "evaluate_once L raw_now db =
     (let now = truncate_minute raw_now;
          zero = \<lparr> ab_transitions = 0, ab_errors = 0, ab_evaluated = 0 \<rparr>
      in case get_workspaces_eligible_for_transition (lc_ws L) now db of
           Inl e \<Rightarrow> (db, Err e)
         | Inr workspaces \<Rightarrow>
             let (db, stats) = evaluate_all L now (lc_order L workspaces) (db, zero) in (db, Ok stats))"

section \<open>The activity bump worker\<close>

definition bump_target :: "WorkspaceTransitionRow \<Rightarrow> instant \<Rightarrow> instant option" where
  "bump_target ws now =
     (if r_build_transition ws \<noteq> ''start'' then None
      else if r_job_status ws \<noteq> ''succeeded'' then None
      else if r_activity_bump_ns ws \<le> 0 then None
      else if r_last_used_at ws < now - r_activity_bump_ns ws then None
      else
        case r_build_deadline ws of
          None \<Rightarrow> None
        | Some current_deadline \<Rightarrow>
            if current_deadline = 0 then None
            else
              let new_deadline = now + r_activity_bump_ns ws;
                  new_deadline =
                    (case r_max_deadline ws of
                       Some limit \<Rightarrow> if limit \<noteq> 0 \<and> limit < new_deadline then limit else new_deadline
                     | None \<Rightarrow> new_deadline)
              in if new_deadline \<le> current_deadline then None else Some new_deadline)"

definition bump_one ::
  "('j, 'c, 'z) lc_env \<Rightarrow> instant \<Rightarrow> WorkspaceTransitionRow \<Rightarrow> 'j WorkspaceDb \<times> nat \<Rightarrow> 'j WorkspaceDb \<times> nat" where
  "bump_one L now ws = (\<lambda>(db, bumped).
     case bump_target ws now of
       None \<Rightarrow> (db, bumped)
     | Some new_deadline \<Rightarrow>
         let (db, res) =
           update_workspace_build_deadline (lc_ws L) (r_build_id ws) (Some new_deadline) (r_max_deadline ws) db
         in (db, if res = Ok True then bumped + 1 else bumped))"

definition activity_bump_once :: "('j, 'c, 'z) lc_env \<Rightarrow> instant \<Rightarrow> 'j WorkspaceDb \<Rightarrow> ('j, nat) ws_stmt" where
  "activity_bump_once L now db =
     (case get_workspaces_eligible_for_transition (lc_ws L) now db of
        Inl e \<Rightarrow> (db, Err e)
      | Inr workspaces \<Rightarrow> let (db, bumped) = fold (bump_one L now) workspaces (db, 0) in (db, Ok bumped))"

section \<open>The dormancy checker\<close>

definition dormancy_one ::
  "('j, 'c, 'z) lc_env \<Rightarrow> instant \<Rightarrow> WorkspaceTransitionRow \<Rightarrow> 'j WorkspaceDb \<times> nat \<Rightarrow> 'j WorkspaceDb \<times> nat" where
  "dormancy_one L now ws = (\<lambda>(db, marked).
     if r_dormant_at ws \<noteq> None then (db, marked)
     else if \<not> is_eligible_for_dormant_stop ws now then (db, marked)
     else
       let (db, res) = update_workspace_dormant_deleting_at (lc_ws L) (r_id ws) (Some now) db
       in (db, case res of Inr (Some _) \<Rightarrow> marked + 1 | _ \<Rightarrow> marked))"

definition dormancy_check_once :: "('j, 'c, 'z) lc_env \<Rightarrow> instant \<Rightarrow> 'j WorkspaceDb \<Rightarrow> ('j, nat) ws_stmt" where
  "dormancy_check_once L now db =
     (case get_workspaces_eligible_for_transition (lc_ws L) now db of
        Inl e \<Rightarrow> (db, Err e)
      | Inr workspaces \<Rightarrow> let (db, marked) = fold (dormancy_one L now) workspaces (db, 0) in (db, Ok marked))"

section \<open>The lifecycle scheduler\<close>

record LifecycleStats =
  ls_started :: "32 word"
  ls_stopped :: "32 word"
  ls_errors :: "32 word"

definition lifecycle_provisioner_tags ::
  "('j, 'c, 'z) lc_env \<Rightarrow> uuid \<Rightarrow> uuid \<Rightarrow> 'j WorkspaceDb \<Rightarrow> (StorageError, tags) result" where
  "lifecycle_provisioner_tags L owner_id template_version_id db =
     and_then (find_template_version_by_id (lc_ws L) template_version_id db) (\<lambda>version.
     and_then (case version of
                 None \<Rightarrow> Ok None
               | Some v \<Rightarrow> find_provisioner_job (lc_ws L) (tv_job_id v) db) (\<lambda>job.
       Ok (mutate_tags (lc_codec L) owner_id [case job of Some j \<Rightarrow> pj_tags j | None \<Rightarrow> hm_empty])))"

definition ok_or_not_found :: "string \<Rightarrow> (StorageError, 'a option) result \<Rightarrow> (StorageError, 'a) result" where
  "ok_or_not_found m r = and_then r (\<lambda>x. case x of Some a \<Rightarrow> Ok a | None \<Rightarrow> Err (NotFound m))"

definition trigger_build ::
  "('j, 'c, 'z) lc_env \<Rightarrow> WorkspaceTransitionRow \<Rightarrow> string \<Rightarrow> string \<Rightarrow> instant \<Rightarrow> 'j WorkspaceDb \<Rightarrow> ('j, unit) ws_stmt" where
  "trigger_build L ws transition reason now db =
     (case and_then (ok_or_not_found ''no build found for workspace''
                       (find_latest_workspace_build (lc_ws L) (r_id ws) db)) (\<lambda>latest_build.
           and_then (ok_or_not_found ''workspace not found''
                       (find_workspace_by_id (lc_ws L) (r_id ws) None db)) (\<lambda>workspace.
           and_then (lifecycle_provisioner_tags L (r_owner_id ws) (b_template_version_id latest_build) db) (\<lambda>tags.
             Ok (latest_build, workspace, tags)))) of
        Inl e \<Rightarrow> (db, Err e)
      | Inr (latest_build, workspace, tags) \<Rightarrow>
          (case create_provisioner_job (lc_ws L)
                  \<lparr> cp_id = lc_job_id L (r_id ws), cp_created_at = now, cp_updated_at = now,
                     cp_organization_id = w_organization_id workspace, cp_initiator_id = r_owner_id ws,
                     cp_provisioner = ''echo'', cp_file_id = None, cp_job_type = ''workspace_build'',
                     cp_input = wv_empty_json (lc_ws L), cp_tags = tags \<rparr> db of
             (db, Inl e) \<Rightarrow> (db, Err e)
           | (db, Inr _) \<Rightarrow>
               (case insert_workspace_build (lc_ws L)
                       \<lparr> cb_id = lc_build_id L (r_id ws), cb_workspace_id = r_id ws,
                          cb_template_version_id = b_template_version_id latest_build, cb_build_number = 0,
                          cb_transition = transition, cb_initiator_id = r_owner_id ws,
                          cb_job_id = lc_job_id L (r_id ws), cb_reason = reason,
                          cb_deadline = None, cb_max_deadline = None \<rparr> db of
                  (db, Inl e) \<Rightarrow> (db, Err e)
                | (db, Inr _) \<Rightarrow> (db, Ok ()))))"

definition trigger_workspace_start ::
  "('j, 'c, 'z) lc_env \<Rightarrow> WorkspaceTransitionRow \<Rightarrow> instant \<Rightarrow> 'j WorkspaceDb \<Rightarrow> ('j, unit) ws_stmt" where
  "trigger_workspace_start L ws now db = trigger_build L ws ''start'' ''autostart'' now db"

definition trigger_workspace_stop ::
  "('j, 'c, 'z) lc_env \<Rightarrow> WorkspaceTransitionRow \<Rightarrow> string \<Rightarrow> instant \<Rightarrow> 'j WorkspaceDb \<Rightarrow> ('j, unit) ws_stmt" where
  "trigger_workspace_stop L ws reason now db = trigger_build L ws ''stop'' reason now db"

definition count_started :: "(StorageError, unit) result \<Rightarrow> LifecycleStats \<Rightarrow> LifecycleStats" where
  "count_started res s =
     (case res of
        Inr _ \<Rightarrow> s \<lparr> ls_started := saturating_add (ls_started s) 1 \<rparr>
      | Inl _ \<Rightarrow> s \<lparr> ls_errors := saturating_add (ls_errors s) 1 \<rparr>)"

definition count_stopped :: "(StorageError, unit) result \<Rightarrow> LifecycleStats \<Rightarrow> LifecycleStats" where
  "count_stopped res s =
     (case res of
        Inr _ \<Rightarrow> s \<lparr> ls_stopped := saturating_add (ls_stopped s) 1 \<rparr>
      | Inl _ \<Rightarrow> s \<lparr> ls_errors := saturating_add (ls_errors s) 1 \<rparr>)"

definition lifecycle_one ::
  "('j, 'c, 'z) lc_env \<Rightarrow> instant \<Rightarrow> QuietHoursWindow option \<Rightarrow> WorkspaceTransitionRow \<Rightarrow>
   'j WorkspaceDb \<times> LifecycleStats \<Rightarrow> 'j WorkspaceDb \<times> LifecycleStats" where
  "lifecycle_one L now quiet ws = (\<lambda>(db, stats).
     if is_eligible_for_autostop ws now
     then let (db, res) = trigger_workspace_stop L ws ''autostop'' now db in (db, count_stopped res stats)
     else if is_eligible_for_autostart (lc_cron L) ws now
     then (case quiet of
             Some qh \<Rightarrow>
               if is_quiet qh now then (db, stats)
               else let (db, res) = trigger_workspace_start L ws now db in (db, count_started res stats)
           | None \<Rightarrow> let (db, res) = trigger_workspace_start L ws now db in (db, count_started res stats))
     else if is_eligible_for_failed_stop ws now
     then let (db, res) = trigger_workspace_stop L ws ''autostop'' now db in (db, count_stopped res stats)
     else (db, stats))"

definition lifecycle_tick_once ::
  "('j, 'c, 'z) lc_env \<Rightarrow> instant \<Rightarrow> QuietHoursWindow option \<Rightarrow> 'j WorkspaceDb \<Rightarrow> ('j, LifecycleStats) ws_stmt" where
  "lifecycle_tick_once L now quiet db =
     (case get_workspaces_eligible_for_transition (lc_ws L) now db of
        Inl e \<Rightarrow> (db, Err e)
      | Inr workspaces \<Rightarrow>
          let (db, stats) = fold (lifecycle_one L now quiet) workspaces
                (db, \<lparr> ls_started = 0, ls_stopped = 0, ls_errors = 0 \<rparr>)
          in (db, Ok stats))"


section \<open>The query and the rules\<close>

lemma millis_interval_le: "0 \<le> n \<Longrightarrow> millis_interval n \<le> n"
  using div_mult_mod_eq [of n "10 ^ 6"] by (simp add: millis_interval_def)

lemma job_status_str_failed [simp]: "job_status_as_str s = ''failed'' \<longleftrightarrow> s = Failed"
  by (cases s) simp_all

lemma job_status_str_succeeded [simp]: "job_status_as_str s = ''succeeded'' \<longleftrightarrow> s = Succeeded"
  by (cases s) simp_all

lemma job_status_Failed: "job_status j = Failed \<Longrightarrow> pj_canceled_at j = None \<and> pj_completed_at j \<noteq> None"
  by (auto simp: job_status_def split: if_splits)

definition row_of :: "'j joined_row \<Rightarrow> WorkspaceTransitionRow" where
  "row_of = (\<lambda>(w, b, j, t, u). transition_row w b j t u)"

lemma row_of_simp [simp]: "row_of (w, b, j, t, u) = transition_row w b j t u"
  by (simp add: row_of_def)

lemma eligible_rows:
  "get_workspaces_eligible_for_transition E now db =
     ws_query E GetWorkspacesEligibleForTransition 0 (map row_of (filter (eligible_where now) (joined_rows db)))"
  by (simp add: get_workspaces_eligible_for_transition_def row_of_def)

lemma eligible_autostop:
  "is_eligible_for_autostop (transition_row w b j t u) now \<Longrightarrow> b_deadline b \<noteq> Some zero_deadline \<Longrightarrow>
     due_autostop now w b j u"
  by (auto simp: is_eligible_for_autostop_def due_autostop_def transition_row_def split: if_splits option.splits)

lemma eligible_autostart:
  "is_eligible_for_autostart C (transition_row w b j t u) now \<Longrightarrow> w_next_start_at w = None \<Longrightarrow>
     due_autostart now w b j u"
  by (auto simp: is_eligible_for_autostart_def due_autostart_def transition_row_def split: if_splits option.splits)

lemma eligible_failed_stop:
  "is_eligible_for_failed_stop (transition_row w b j t u) now \<Longrightarrow> due_failed_stop now b j t"
  using millis_interval_le [of "t_failure_ttl t"]
  by (auto simp: is_eligible_for_failed_stop_def due_failed_stop_def transition_row_def split: if_splits option.splits)

lemma eligible_dormant_stop:
  "is_eligible_for_dormant_stop (transition_row w b j t u) now \<Longrightarrow> due_dormancy now w t"
  using millis_interval_le [of "t_time_til_dormant t"]
  by (auto simp: is_eligible_for_dormant_stop_def due_dormancy_def transition_row_def split: if_splits)

lemma eligible_delete:
  "is_eligible_for_delete (transition_row w b j t u) now \<Longrightarrow> due_deletion now w b j t"
  by (auto simp: is_eligible_for_delete_def due_deletion_def transition_row_def Let_def
      dest: job_status_Failed split: if_splits option.splits)

lemmas eligible_due = eligible_autostop eligible_autostart eligible_failed_stop eligible_dormant_stop
  eligible_delete

definition visible :: "'j joined_row \<Rightarrow> bool" where
  "visible = (\<lambda>(w, b, j, t, u). \<not> w_deleted w \<and> w_owner_id w \<noteq> PREBUILDS_SYSTEM_USER_ID)"

lemma set_joined_rows:
  "(w, b, j, t, u) \<in> set (joined_rows db) \<longleftrightarrow>
     w \<in> set (wd_workspaces db) \<and> b \<in> set (wd_builds db) \<and> latest_build_of db w b \<and>
     j \<in> set (db_jobs (wd_prov db)) \<and> pj_id j = b_job_id b \<and>
     t \<in> set (wd_templates db) \<and> t_id t = w_template_id w \<and> u \<in> set (wd_users db) \<and> u_id u = w_owner_id w"
  by (auto simp: joined_rows_def)



text \<open>A build belongs to at most one row of the join.\<close>

lemma joined_build_unique:
  assumes "ws_wf db" and "(w, b, j, t, u) \<in> set (joined_rows db)"
    and "(w', b', j', t', u') \<in> set (joined_rows db)" and "b_id b = b_id b'"
  shows "w = w' \<and> b = b' \<and> j = j' \<and> t = t' \<and> u = u'"
proof -
  note j = assms(2,3) [unfolded set_joined_rows]
  have b: "b = b'" using ws_wf_unique(2) [OF assms(1)] j assms(4) by blast
  then have w: "w = w'" using ws_wf_unique(1) [OF assms(1)] j by (metis latest_build_of_def)
  with b show ?thesis using ws_wf_unique(3-5) [OF assms(1)] j by metis
qed

section \<open>What the executor does\<close>

definition idle_too_long :: "instant \<Rightarrow> 'j WorkspaceDb \<Rightarrow> WorkspaceRecord \<Rightarrow> bool" where
  "idle_too_long now db w \<longleftrightarrow>
     (\<exists>t \<in> set (wd_templates db). t_id t = w_template_id w \<and> 0 < t_time_til_dormant t \<and>
        t_time_til_dormant t < now - w_last_used_at w)"

definition deletion_due :: "instant \<Rightarrow> 'j WorkspaceDb \<Rightarrow> WorkspaceRecord \<Rightarrow> bool" where
  "deletion_due now db w \<longleftrightarrow>
     w_dormant_at w \<noteq> None \<and> (\<exists>d. w_deleting_at w = Some d \<and> d < now) \<and>
     (\<exists>t \<in> set (wd_templates db). t_id t = w_template_id w \<and> 0 < t_time_til_dormant_autodelete t)"

text \<open>Equal but for deletion, dormancy and the time of the last update.\<close>

definition same_settings :: "WorkspaceRecord \<Rightarrow> WorkspaceRecord \<Rightarrow> bool" where
  "same_settings w w' \<longleftrightarrow>
     w_id w' = w_id w \<and> w_created_at w' = w_created_at w \<and> w_owner_id w' = w_owner_id w \<and>
     w_organization_id w' = w_organization_id w \<and> w_template_id w' = w_template_id w \<and>
     w_name w' = w_name w \<and> w_autostart_schedule w' = w_autostart_schedule w \<and> w_ttl_ns w' = w_ttl_ns w \<and>
     w_last_used_at w' = w_last_used_at w \<and> w_automatic_updates w' = w_automatic_updates w \<and>
     w_favorite w' = w_favorite w \<and> w_next_start_at w' = w_next_start_at w"

definition due_change :: "instant \<Rightarrow> 'j WorkspaceDb \<Rightarrow> WorkspaceRecord \<Rightarrow> WorkspaceRecord \<Rightarrow> bool" where
  "due_change now db w w' \<longleftrightarrow>
     same_settings w w' \<and>
     (w_deleted w' \<longrightarrow> w_deleted w \<or> deletion_due now db w) \<and>
     (w_dormant_at w' = w_dormant_at w \<and> w_deleting_at w' = w_deleting_at w \<or>
      w_dormant_at w = None \<and> idle_too_long now db w \<and> w_dormant_at w' = Some now)"

lemma due_change_refl [simp]: "due_change now db w w"
  by (simp add: due_change_def same_settings_def)

lemma due_change_ids: "due_change now db w w' \<Longrightarrow> w_id w' = w_id w"
  by (simp add: due_change_def same_settings_def)

lemma due_change_delete:
  "due_change now db w w' \<Longrightarrow> deletion_due now db w \<Longrightarrow>
     due_change now db w (w' \<lparr> w_deleted := True, w_updated_at := x \<rparr>)"
  by (simp add: due_change_def same_settings_def)

lemma due_change_dormant:
  "due_change now db w w' \<Longrightarrow> w_dormant_at w = None \<Longrightarrow> idle_too_long now db w \<Longrightarrow>
     due_change now db w (set_dormant E (Some now) t w')"
  by (simp add: due_change_def same_settings_def set_dormant_def)


lemma next_transition_reason:
  "get_next_transition C r now = Some (a, Dormancy) \<Longrightarrow> is_eligible_for_dormant_stop r now"
  "get_next_transition C r now = Some (a, Autodelete) \<Longrightarrow> is_eligible_for_delete r now"
  by (auto simp: get_next_transition_def split: if_splits)

lemma dormant_stop_idle:
  "(w, b, j, t, u) \<in> set (joined_rows db) \<Longrightarrow> is_eligible_for_dormant_stop (transition_row w b j t u) now \<Longrightarrow>
     w_dormant_at w = None \<and> idle_too_long now db w"
  by (auto simp: set_joined_rows is_eligible_for_dormant_stop_def transition_row_def idle_too_long_def split: if_splits)

lemma delete_due:
  "(w, b, j, t, u) \<in> set (joined_rows db) \<Longrightarrow> is_eligible_for_delete (transition_row w b j t u) now \<Longrightarrow>
     deletion_due now db w"
  by (auto simp: set_joined_rows is_eligible_for_delete_def transition_row_def deletion_due_def Let_def
      split: if_splits option.splits)

lemma list_all2_map_right:
  "list_all2 P xs ys \<Longrightarrow> (\<And>x y. x \<in> set xs \<Longrightarrow> P x y \<Longrightarrow> P x (f y)) \<Longrightarrow> list_all2 P xs (map f ys)"
  by (simp add: list_all2_conv_all_nth)

lemma evaluate_workspace_cases:
  "fst (evaluate_workspace L r now db) =
     (case get_next_transition (lc_cron L) r now of
        Some (a, Dormancy) \<Rightarrow> fst (update_workspace_dormant_deleting_at (lc_ws L) (r_id r) (Some now) db)
      | Some (a, Autodelete) \<Rightarrow> fst (soft_delete_workspace (lc_ws L) (r_id r) db)
      | _ \<Rightarrow> db)"
  by (simp add: evaluate_workspace_def split: option.split prod.split BuildReason.split)

lemma dormancy_statement_due:
  assumes "list_all2 (due_change now db0) (wd_workspaces db0) (wd_workspaces db)"
    and "\<And>w. w \<in> set (wd_workspaces db0) \<Longrightarrow> w_id w = i \<Longrightarrow> w_dormant_at w = None \<and> idle_too_long now db0 w"
  shows "list_all2 (due_change now db0) (wd_workspaces db0)
    (wd_workspaces (fst (update_workspace_dormant_deleting_at E i (Some now) db)))"
  using assms
  by (auto simp: update_workspace_dormant_deleting_at_def ws_attempt_def Let_def dormant_target_def live_def
      due_change_ids intro!: list_all2_map_right due_change_dormant split: option.splits)

lemma delete_statement_due:
  assumes "list_all2 (due_change now db0) (wd_workspaces db0) (wd_workspaces db)"
    and "\<And>w. w \<in> set (wd_workspaces db0) \<Longrightarrow> w_id w = i \<Longrightarrow> deletion_due now db0 w"
  shows "list_all2 (due_change now db0) (wd_workspaces db0) (wd_workspaces (fst (soft_delete_workspace E i db)))"
  using assms
  by (auto simp: soft_delete_workspace_def ws_attempt_def update_live_def live_def due_change_ids
      intro!: list_all2_map_right due_change_delete split: option.splits)

text \<open>What a row of the query says of the workspaces with its identifier.\<close>

lemma row_workspace:
  assumes "ws_wf db" and "r \<in> row_of ` set (joined_rows db)"
  obtains w b j t u where "(w, b, j, t, u) \<in> set (joined_rows db)" "r = transition_row w b j t u"
    "\<And>w'. w' \<in> set (wd_workspaces db) \<Longrightarrow> w_id w' = r_id r \<Longrightarrow> w' = w"
proof -
  from assms(2) obtain w b j t u where x: "(w, b, j, t, u) \<in> set (joined_rows db)" "r = transition_row w b j t u"
    by auto
  moreover have "w' = w" if "w' \<in> set (wd_workspaces db)" "w_id w' = r_id r" for w'
    using that x ws_wf_unique(1) [OF assms(1)] by (simp add: set_joined_rows transition_row_def)
  ultimately show thesis using that by blast
qed

lemma evaluate_workspace_due:
  assumes wf: "ws_wf db0" and r: "r \<in> row_of ` set (joined_rows db0)"
    and inv: "list_all2 (due_change now db0) (wd_workspaces db0) (wd_workspaces db)"
  shows "list_all2 (due_change now db0) (wd_workspaces db0) (wd_workspaces (fst (evaluate_workspace L r now db)))"
proof -
  obtain w b j t u where x: "(w, b, j, t, u) \<in> set (joined_rows db0)" "r = transition_row w b j t u"
    "\<And>w'. w' \<in> set (wd_workspaces db0) \<Longrightarrow> w_id w' = r_id r \<Longrightarrow> w' = w"
    by (rule row_workspace [OF wf r]) blast
  have "list_all2 (due_change now db0) (wd_workspaces db0)
      (wd_workspaces (fst (update_workspace_dormant_deleting_at (lc_ws L) (r_id r) (Some now) db)))"
    if "is_eligible_for_dormant_stop r now"
    using that x dormant_stop_idle by (intro dormancy_statement_due [OF inv]) blast
  moreover have "list_all2 (due_change now db0) (wd_workspaces db0)
      (wd_workspaces (fst (soft_delete_workspace (lc_ws L) (r_id r) db)))"
    if "is_eligible_for_delete r now"
    using that x delete_due by (intro delete_statement_due [OF inv]) blast
  ultimately show ?thesis
    using inv next_transition_reason [of "lc_cron L" r now]
    unfolding evaluate_workspace_cases by (simp split: option.split prod.split BuildReason.split)
qed

lemma statement_frames [simp]:
  "wd_builds (fst (update_workspace_dormant_deleting_at E i d db)) = wd_builds db"
  "wd_prov (fst (update_workspace_dormant_deleting_at E i d db)) = wd_prov db"
  "wd_builds (fst (soft_delete_workspace E i db)) = wd_builds db"
  "wd_prov (fst (soft_delete_workspace E i db)) = wd_prov db"
  by (auto simp: update_workspace_dormant_deleting_at_def soft_delete_workspace_def ws_attempt_def
      update_live_def Let_def split: option.split)

lemma evaluate_all_due:
  assumes "ws_wf db0" and "set rows \<subseteq> row_of ` set (joined_rows db0)"
    and "list_all2 (due_change now db0) (wd_workspaces db0) (wd_workspaces db)"
  shows "list_all2 (due_change now db0) (wd_workspaces db0) (wd_workspaces (fst (evaluate_all L now rows (db, s)))) \<and>
    wd_builds (fst (evaluate_all L now rows (db, s))) = wd_builds db \<and>
    wd_prov (fst (evaluate_all L now rows (db, s))) = wd_prov db"
  using assms(2,3)
proof (induction rows arbitrary: db s)
  case (Cons r rows)
  obtain db' res where e: "evaluate_workspace L r now db = (db', res)" by (cases "evaluate_workspace L r now db")
  have db': "db' = fst (evaluate_workspace L r now db)" by (simp add: e)
  have "list_all2 (due_change now db0) (wd_workspaces db0) (wd_workspaces db')"
    unfolding db' using Cons.prems by (intro evaluate_workspace_due [OF assms(1)]) auto
  moreover have "wd_builds db' = wd_builds db" "wd_prov db' = wd_prov db"
    unfolding db' evaluate_workspace_cases by (simp_all split: option.split prod.split BuildReason.split)
  ultimately show ?case using Cons.IH [of db' "count_result res s"] Cons.prems by (simp add: evaluate_all_def e)
qed (simp add: evaluate_all_def)

text \<open>
  One tick of the autobuild executor, whatever the order of its tasks and whichever statements fail:
  a workspace is deleted only if it was dormant and past its deletion time, it becomes dormant only
  if it was idle for longer than its template allows, no other setting changes, and no build or job
  is created.
\<close>

theorem autobuild_acts_only_when_due:
  assumes "ws_wf db" and "\<And>rows. mset (lc_order L rows) = mset rows"
    and "evaluate_once L raw_now db = (db', res)"
  shows "list_all2 (due_change (truncate_minute raw_now) db) (wd_workspaces db) (wd_workspaces db') \<and>
    wd_builds db' = wd_builds db \<and> wd_prov db' = wd_prov db"
proof (cases "get_workspaces_eligible_for_transition (lc_ws L) (truncate_minute raw_now) db")
  case (Inl e)
  with assms(3) show ?thesis by (simp add: evaluate_once_def Let_def list.rel_refl)
next
  case (Inr rows)
  then have "set rows \<subseteq> row_of ` set (joined_rows db)"
    by (auto simp: eligible_rows ws_query_def split: option.splits)
  moreover have "set (lc_order L rows) = set rows" using assms(2) by (rule mset_eq_setD)
  moreover have "list_all2 (due_change now db) (wd_workspaces db) (wd_workspaces db)" for now
    by (simp add: list.rel_refl)
  ultimately show ?thesis
    using assms(3) Inr evaluate_all_due [OF assms(1), of "lc_order L rows" "truncate_minute raw_now" db L]
    by (auto simp: evaluate_once_def Let_def split: prod.splits) (metis fst_conv)+
qed


section \<open>What the activity bump does\<close>

definition bump_ok :: "instant \<Rightarrow> 'j WorkspaceDb \<Rightarrow> WorkspaceBuildRecord \<Rightarrow> WorkspaceBuildRecord \<Rightarrow> bool" where
  "bump_ok now db b b' \<longleftrightarrow>
     b' = b \<lparr> b_deadline := b_deadline b', b_updated_at := b_updated_at b' \<rparr> \<and>
     (b_deadline b' = b_deadline b \<or>
      (\<exists>w j t u d d'. (w, b, j, t, u) \<in> set (joined_rows db) \<and> eligible_where now (w, b, j, t, u) \<and>
         b_transition b = ''start'' \<and> job_status j = Succeeded \<and>
         b_deadline b = Some d \<and> b_deadline b' = Some d' \<and> d < d' \<and>
         (\<exists>a. t_activity_bump t = Some a \<and> d' \<le> now + a \<and> now \<le> w_last_used_at w + a) \<and>
         (\<forall>limit. b_max_deadline b = Some limit \<longrightarrow> limit = 0 \<or> d' \<le> limit)))"

lemma bump_ok_refl [simp]: "bump_ok now db b b"
  by (simp add: bump_ok_def)

lemma bump_ok_id: "bump_ok now db b b' \<Longrightarrow> b_id b' = b_id b \<and> b_max_deadline b' = b_max_deadline b"
  unfolding bump_ok_def by (metis WorkspaceBuildRecord.select_convs(1,12) WorkspaceBuildRecord.surjective
      WorkspaceBuildRecord.update_convs(3,11))

lemma bump_target_ok:
  assumes "(w, b, j, t, u) \<in> set (joined_rows db)" and "eligible_where now (w, b, j, t, u)"
    and "bump_target (transition_row w b j t u) now = Some d'" and "bump_ok now db b b'"
  shows "bump_ok now db b (b' \<lparr> b_deadline := Some d', b_max_deadline := b_max_deadline b, b_updated_at := x \<rparr>)"
proof -
  have "\<exists>d a. b_deadline b = Some d \<and> b_transition b = ''start'' \<and> job_status j = Succeeded \<and> d < d' \<and>
      t_activity_bump t = Some a \<and> d' \<le> now + a \<and> now \<le> w_last_used_at w + a \<and>
      (\<forall>limit. b_max_deadline b = Some limit \<longrightarrow> limit = 0 \<or> d' \<le> limit)"
    using assms(3)
    by (auto simp: bump_target_def transition_row_def Let_def split: if_splits option.splits)
  moreover from assms(4) obtain d u' where "b' = b \<lparr> b_deadline := d, b_updated_at := u' \<rparr>"
    unfolding bump_ok_def by blast
  ultimately show ?thesis using assms(1,2) unfolding bump_ok_def by fastforce
qed

lemma bump_one_ok:
  assumes wf: "ws_wf db0" and x: "(w, b, j, t, u) \<in> set (joined_rows db0)" "eligible_where now (w, b, j, t, u)"
    and inv: "list_all2 (bump_ok now db0) (wd_builds db0) (wd_builds db)"
  shows "list_all2 (bump_ok now db0) (wd_builds db0)
    (wd_builds (fst (bump_one L now (transition_row w b j t u) (db, n))))"
proof (cases "bump_target (transition_row w b j t u) now")
  case (Some d')
  have "bump_ok now db0 c (if b_id c' = b_id b then c' \<lparr> b_deadline := Some d', b_max_deadline := b_max_deadline b,
      b_updated_at := wv_now (lc_ws L) \<rparr> else c')" if "c \<in> set (wd_builds db0)" "bump_ok now db0 c c'" for c c'
  proof (cases "b_id c' = b_id b")
    case True
    then have "c = b" using that bump_ok_id ws_wf_unique(2) [OF wf] x(1) by (metis set_joined_rows)
    with True bump_target_ok [OF x Some] that show ?thesis by simp
  qed (use that in simp)
  with Some inv show ?thesis
    by (auto simp: bump_one_def update_workspace_build_deadline_def ws_attempt_def update_build_def transition_row_def
        intro!: list_all2_map_right split: option.split)
qed (simp add: bump_one_def inv)

lemma bump_fold_ok:
  assumes "ws_wf db0"
  shows "set xs \<subseteq> set (filter (eligible_where now) (joined_rows db0)) \<Longrightarrow>
    list_all2 (bump_ok now db0) (wd_builds db0) (wd_builds db) \<Longrightarrow>
    list_all2 (bump_ok now db0) (wd_builds db0) (wd_builds (fst (fold (bump_one L now) (map row_of xs) (db, n))))"
proof (induction xs arbitrary: db n)
  case (Cons x xs)
  obtain w b j t u where x: "x = (w, b, j, t, u)" by (cases x)
  obtain db' n' where b: "bump_one L now (row_of x) (db, n) = (db', n')" by fastforce
  have "db' = fst (bump_one L now (row_of x) (db, n))" by (simp add: b)
  with Cons.prems have "list_all2 (bump_ok now db0) (wd_builds db0) (wd_builds db')"
    using bump_one_ok [OF assms, of w b j t u now db L n] by (simp add: x)
  then show ?case using Cons.IH [of db' n'] Cons.prems b by simp
qed simp


text \<open>
  The activity bump comes too late: while the deadline of a running workspace is still ahead, its
  owner is not suspended and it is neither dormant nor idle for long enough to become dormant, the
  worker never extends the deadline, however recently the workspace was used, because the query
  behind it only returns workspaces that are already due for a transition.
\<close>

theorem activity_bump_only_when_due:
  assumes "ws_wf db" and "activity_bump_once L now db = (db', res)"
    and "(w, b, j, t, u) \<in> set (joined_rows db)" and "u_status u \<noteq> ''suspended''"
    and "b_deadline b = Some d" and "now \<le> d" and "w_dormant_at w = None" and "\<not> due_dormancy now w t"
  shows "\<exists>b' \<in> set (wd_builds db'). b_id b' = b_id b \<and> b_deadline b' = Some d"
proof -
  have all: "list_all2 (bump_ok now db) (wd_builds db) (wd_builds db')"
    using assms(1,2) bump_fold_ok [OF assms(1), of "filter (eligible_where now) (joined_rows db)" now db L 0]
    by (auto simp: activity_bump_once_def eligible_rows ws_query_def list.rel_refl
        split: prod.splits option.splits)
  have "b \<in> set (wd_builds db)" using assms(3) by (simp add: set_joined_rows)
  with all obtain b' where b': "b' \<in> set (wd_builds db')" "bump_ok now db b b'"
    by (metis list_all2_conv_all_nth in_set_conv_nth)
  have "b_deadline b' = b_deadline b"
  proof (rule ccontr)
    assume "b_deadline b' \<noteq> b_deadline b"
    then obtain w' j' t' u' where x: "(w', b, j', t', u') \<in> set (joined_rows db)"
      "eligible_where now (w', b, j', t', u')" "b_transition b = ''start''" "job_status j' = Succeeded"
      using b'(2) unfolding bump_ok_def by blast
    then have "w' = w" "t' = t" "u' = u" "j' = j" using joined_build_unique [OF assms(1) x(1) assms(3)] by simp_all
    with x assms(4-8) show False
      by (auto simp: eligible_where_def due_autostop_def due_autostart_def due_deletion_def due_failed_stop_def)
  qed
  with b' assms(5) bump_ok_id show ?thesis by metis
qed


section \<open>What the lifecycle scheduler does\<close>

definition lifecycle_decision ::
  "('c, 'z) cron_env \<Rightarrow> QuietHoursWindow option \<Rightarrow> instant \<Rightarrow> WorkspaceTransitionRow \<Rightarrow> (string \<times> string) option" where
  "lifecycle_decision C quiet now r =
     (if is_eligible_for_autostop r now then Some (''stop'', ''autostop'')
      else if is_eligible_for_autostart C r now
      then (if (case quiet of Some qh \<Rightarrow> is_quiet qh now | None \<Rightarrow> False) then None
            else Some (''start'', ''autostart''))
      else if is_eligible_for_failed_stop r now then Some (''stop'', ''autostop'')
      else None)"

lemma lifecycle_one_decision:
  "lifecycle_one L now quiet r (db, s) =
     (case lifecycle_decision (lc_cron L) quiet now r of
        None \<Rightarrow> (db, s)
      | Some (transition, reason) \<Rightarrow>
          let (db, res) = trigger_build L r transition reason now db
          in (db, if transition = ''start'' then count_started res s else count_stopped res s))"
  by (simp add: lifecycle_one_def lifecycle_decision_def trigger_workspace_start_def trigger_workspace_stop_def
      split: option.split)

definition ws_working :: "'j ws_env \<Rightarrow> bool" where
  "ws_working E \<longleftrightarrow> (\<forall>call key. wv_fault E call key = None)"

lemma ws_working_simps [simp]:
  "ws_working E \<Longrightarrow> ws_query E call key x = Ok x" "ws_working E \<Longrightarrow> ws_attempt E call key db s = s"
  by (simp_all add: ws_working_def ws_query_def ws_attempt_def)

lemma latest_exists:
  assumes "b \<in> set (wd_builds db)" and "b_workspace_id b = i"
  obtains l ls where "sort_key (\<lambda>b. - b_build_number b) (filter (\<lambda>b. b_workspace_id b = i) (wd_builds db)) = l # ls"
  using assms
  by (cases "sort_key (\<lambda>b. - b_build_number b) (filter (\<lambda>b. b_workspace_id b = i) (wd_builds db))")
    (auto dest!: arg_cong [where f = set] simp: filter_empty_conv)

lemma find_live_id: "find (live i) ws = Some w \<Longrightarrow> i \<in> w_id ` set ws"
  by (metis (no_types, lifting) find_Some_iff image_eqI live_def nth_mem)

lemma find_append_fresh: "x \<notin> f ` set ys \<Longrightarrow> f y = x \<Longrightarrow> find (\<lambda>y. f y = x) (ys @ [y]) = Some y"
  by (induction ys) auto

definition job_for :: "('j, 'c, 'z) lc_env \<Rightarrow> WorkspaceRecord \<Rightarrow> WorkspaceTransitionRow \<Rightarrow> 'j ProvisionerJobRecord \<Rightarrow> bool" where
  "job_for L w r j \<longleftrightarrow>
     pj_id j = lc_job_id L (r_id r) \<and> job_status j = Pending \<and>
     pj_organization_id j = Some (w_organization_id w) \<and> pj_initiator_id j = Some (r_owner_id r) \<and>
     pj_provisioner j = Echo \<and> pj_job_type j = WorkspaceBuild \<and> tags_normal (lc_codec L) (r_owner_id r) (pj_tags j)"

definition build_for ::
  "('j, 'c, 'z) lc_env \<Rightarrow> WorkspaceBuildRecord list \<Rightarrow> string \<times> string \<Rightarrow> WorkspaceTransitionRow \<Rightarrow> WorkspaceBuildRecord \<Rightarrow> bool" where
  "build_for L older what r b \<longleftrightarrow>
     b_id b = lc_build_id L (r_id r) \<and> b_workspace_id b = r_id r \<and> (b_transition b, b_reason b) = what \<and>
     b_job_id b = lc_job_id L (r_id r) \<and> b_initiator_id b = r_owner_id r \<and> b_deadline b = None \<and>
     (\<forall>c \<in> set older. b_workspace_id c = r_id r \<longrightarrow> b_build_number c < b_build_number b)"

lemma trigger_build_ok:
  assumes "ws_working (lc_ws L)" and "find (live (r_id r)) (wd_workspaces db) = Some w"
    and b0: "b0 \<in> set (wd_builds db)" "b_workspace_id b0 = r_id r"
    and fresh: "\<not> job_exists (lc_job_id L (r_id r)) db" "lc_build_id L (r_id r) \<notin> b_id ` set (wd_builds db)"
  obtains b j where "trigger_build L r tr rs now db =
      (db \<lparr> wd_prov := (wd_prov db) \<lparr> db_jobs := db_jobs (wd_prov db) @ [j] \<rparr>, wd_builds := wd_builds db @ [b] \<rparr>, Ok ())"
    "job_for L w r j" "build_for L (wd_builds db) (tr, rs) r b"
proof -
  obtain l ls where l: "sort_key (\<lambda>b. - b_build_number b) (filter (\<lambda>b. b_workspace_id b = r_id r) (wd_builds db)) = l # ls"
    by (rule latest_exists [OF b0])
  obtain tags prior where tags: "lifecycle_provisioner_tags L (r_owner_id r) (b_template_version_id l) db = Ok tags"
    "tags = mutate_tags (lc_codec L) (r_owner_id r) prior"
    using assms(1)
    by (cases "find (\<lambda>v. tv_id v = b_template_version_id l) (wd_versions db)")
      (simp_all add: lifecycle_provisioner_tags_def find_template_version_by_id_def find_provisioner_job_def)
  define job where "job = new_job (lc_ws L)
    \<lparr> cp_id = lc_job_id L (r_id r), cp_created_at = now, cp_updated_at = now,
      cp_organization_id = w_organization_id w, cp_initiator_id = r_owner_id r,
      cp_provisioner = ''echo'', cp_file_id = None, cp_job_type = ''workspace_build'',
      cp_input = wv_empty_json (lc_ws L), cp_tags = tags \<rparr> Echo WorkspaceBuild"
  define db1 where "db1 = db \<lparr> wd_prov := (wd_prov db) \<lparr> db_jobs := db_jobs (wd_prov db) @ [job] \<rparr> \<rparr>"
  have enums: "provisioner_type_from_str ''echo'' = Ok Echo" "job_type_from_str ''workspace_build'' = Ok WorkspaceBuild"
    by (simp_all add: provisioner_type_from_str_def job_type_from_str_def)
  have find: "find (\<lambda>j. pj_id j = lc_job_id L (r_id r)) (db_jobs (wd_prov db) @ [job]) = Some job"
    using fresh(1) by (simp add: job_exists_def find_append_fresh job_def new_job_def image_iff)
  obtain n where n: "max_build_number (r_id r) db = Some n" by (rule max_build_number_ge [OF b0])
  define build where "build = \<lparr> b_id = lc_build_id L (r_id r), b_created_at = wv_now (lc_ws L),
    b_updated_at = wv_now (lc_ws L), b_workspace_id = r_id r, b_build_number = n + 1, b_transition = tr,
    b_job_id = lc_job_id L (r_id r), b_template_version_id = b_template_version_id l,
    b_initiator_id = r_owner_id r, b_provisioner_state = None, b_deadline = None, b_max_deadline = None,
    b_reason = rs, b_daily_cost = 0 \<rparr>"
  have live: "r_id r \<in> w_id ` set (wd_workspaces db)"
    using assms(2) by (rule find_live_id)
  have n1: "max_build_number (r_id r) db1 = Some n" using n by (simp add: max_build_number_def db1_def)
  have db1: "wd_workspaces db1 = wd_workspaces db" "wd_builds db1 = wd_builds db"
    "lc_job_id L (r_id r) \<in> pj_id ` set (db_jobs (wd_prov db1))"
    by (simp_all add: db1_def job_def new_job_def)
  have "trigger_build L r tr rs now db = (db1 \<lparr> wd_builds := wd_builds db @ [build] \<rparr>, Ok ())"
    using assms(1) fresh
    by (simp add: trigger_build_def ok_or_not_found_def find_latest_workspace_build_def l find_workspace_by_id_def
        assms(2) with_favorite_def tags(1) create_provisioner_job_def enums find_provisioner_job_def
        flip: job_def)
      (simp add: find insert_workspace_build_def live n1 build_def job_exists_def db1 Let_def flip: db1_def job_def)
  moreover have "job_for L w r job"
    using tags(2) mutate_tags_normal by (simp add: job_for_def job_def new_job_def job_status_def)
  moreover have "build_for L (wd_builds db) (tr, rs) r build"
  proof -
    have "b_build_number c < n + 1" if "c \<in> set (wd_builds db)" "b_workspace_id c = r_id r" for c
      using max_build_number_ge [OF that] n by fastforce
    then show ?thesis by (simp add: build_for_def build_def)
  qed
  ultimately show thesis using that [of build job] by (simp add: db1_def)
qed


text \<open>One row per workspace.\<close>

lemma unique_concat:
  assumes "distinct xs" and "\<And>x y. x \<in> set xs \<Longrightarrow> y \<in> set xs \<Longrightarrow> P x \<Longrightarrow> P y \<Longrightarrow> x = y"
    and "\<And>x. x \<in> set xs \<Longrightarrow> length (f x) \<le> Suc 0"
  shows "length (concat (map (\<lambda>x. if P x then f x else []) xs)) \<le> Suc 0"
  using assms
proof (induction xs)
  case (Cons x xs)
  show ?case
  proof (cases "P x")
    case True
    have none: "\<not> P y" if "y \<in> set xs" for y using Cons.prems(1) Cons.prems(2) [of x y] that True by auto
    have "concat (map (\<lambda>x. if P x then f x else []) ys) = []" if "set ys \<subseteq> set xs" for ys
      using that none by (induction ys) (auto simp del: concat_eq_Nil_conv)
    note rest = this [OF subset_refl]
    show ?thesis using True Cons.prems(3) [of x] by (simp add: rest del: concat_eq_Nil_conv)
  next
    case False
    with Cons show ?thesis by simp
  qed
qed simp

lemma distinct_keys:
  assumes "distinct (map k xs)" and "\<And>x. x \<in> set xs \<Longrightarrow> length (g x) \<le> Suc 0"
    and "\<And>x y. x \<in> set xs \<Longrightarrow> y \<in> set (g x) \<Longrightarrow> h y = k x"
  shows "distinct (map h (concat (map g xs)))"
  using assms
proof (induction xs)
  case (Cons x xs)
  have "distinct (map h (g x))" using Cons.prems(2) [of x] by (cases "g x") (auto simp: le_Suc_eq)
  moreover have "h y \<noteq> h z" if "y \<in> set (g x)" "x' \<in> set xs" "z \<in> set (g x')" for x' y z
    using Cons.prems(1) Cons.prems(3) [of x y] Cons.prems(3) [of x' z] that by auto
  moreover have "distinct (map h (concat (map g xs)))" using Cons.prems by (intro Cons.IH) auto
  ultimately show ?case by auto
qed simp

lemma latest_build_unique:
  assumes "ws_wf db" and "b \<in> set (wd_builds db)" "b' \<in> set (wd_builds db)"
    "latest_build_of db w b" "latest_build_of db w b'"
  shows "b = b'"
proof -
  have "build_key b = build_key b'" using assms(4,5) by (simp add: latest_build_of_def build_key_def)
  with assms(1-3) show ?thesis unfolding ws_wf_def by (blast intro: distinct_map_eq [of build_key])
qed

lemma distinct_joined_rows: "ws_wf db \<Longrightarrow> distinct (map r_id (map row_of (joined_rows db)))"
proof -
  assume wf: "ws_wf db"
  note d = wf [unfolded ws_wf_def]
  show ?thesis
    unfolding map_map joined_rows_def
  proof (rule distinct_keys [where k = w_id])
    show "distinct (map w_id (wd_workspaces db))" using d by simp
  next
    fix w
    show "length (concat (map (\<lambda>b. if latest_build_of db w b
        then concat (map (\<lambda>j. if pj_id j = b_job_id b
          then concat (map (\<lambda>t. if t_id t = w_template_id w
            then concat (map (\<lambda>u. if u_id u = w_owner_id w then [(w, b, j, t, u)] else []) (wd_users db))
            else []) (wd_templates db))
          else []) (db_jobs (wd_prov db)))
        else []) (wd_builds db))) \<le> Suc 0"
      using d wf
      by (intro unique_concat)
        (auto simp: distinct_map intro: latest_build_unique ws_wf_unique(3-5) [OF wf])
  qed (auto simp: transition_row_def)
qed


definition fresh_ids :: "('j, 'c, 'z) lc_env \<Rightarrow> 'j WorkspaceDb \<Rightarrow> bool" where
  "fresh_ids L db \<longleftrightarrow>
     inj_on (lc_job_id L) (w_id ` set (wd_workspaces db)) \<and> inj_on (lc_build_id L) (w_id ` set (wd_workspaces db)) \<and>
     (\<forall>i \<in> w_id ` set (wd_workspaces db).
        \<not> job_exists (lc_job_id L i) db \<and> lc_build_id L i \<notin> b_id ` set (wd_builds db))"

definition acting ::
  "('j, 'c, 'z) lc_env \<Rightarrow> QuietHoursWindow option \<Rightarrow> instant \<Rightarrow> WorkspaceTransitionRow list \<Rightarrow> WorkspaceTransitionRow list" where
  "acting L quiet now rows = filter (\<lambda>r. lifecycle_decision (lc_cron L) quiet now r \<noteq> None) rows"

text \<open>The database after the given rows were handled: one build and one job for each that acts.\<close>

definition handled ::
  "('j, 'c, 'z) lc_env \<Rightarrow> QuietHoursWindow option \<Rightarrow> instant \<Rightarrow> 'j WorkspaceDb \<Rightarrow> WorkspaceTransitionRow list \<Rightarrow>
   'j WorkspaceDb \<Rightarrow> bool" where
  "handled L quiet now db0 rows db \<longleftrightarrow>
     wd_workspaces db = wd_workspaces db0 \<and> wd_templates db = wd_templates db0 \<and> wd_users db = wd_users db0 \<and>
     (\<exists>new js. wd_builds db = wd_builds db0 @ new \<and> db_jobs (wd_prov db) = db_jobs (wd_prov db0) @ js \<and>
        list_all2 (\<lambda>r b. build_for L (wd_builds db0) (the (lifecycle_decision (lc_cron L) quiet now r)) r b)
          (acting L quiet now rows) new \<and>
        list_all2 (\<lambda>r j. \<exists>w. find (live (r_id r)) (wd_workspaces db0) = Some w \<and> job_for L w r j)
          (acting L quiet now rows) js)"

lemma list_all2_right: "list_all2 P xs ys \<Longrightarrow> y \<in> set ys \<Longrightarrow> \<exists>x \<in> set xs. P x y"
  by (induction rule: list_all2_induct) auto

lemma list_all2_left: "list_all2 P xs ys \<Longrightarrow> x \<in> set xs \<Longrightarrow> \<exists>y \<in> set ys. P x y"
  by (induction rule: list_all2_induct) auto

lemma set_acting: "r \<in> set (acting L quiet now rows) \<Longrightarrow> r \<in> set rows"
  by (simp add: acting_def)

lemma build_for_mono: "build_for L bs what r b \<Longrightarrow> set cs \<subseteq> set bs \<Longrightarrow> build_for L cs what r b"
  by (auto simp: build_for_def)

lemma handled_fresh:
  assumes "handled L quiet now db0 rows db" and "fresh_ids L db0" and "i \<notin> r_id ` set rows"
    and "i \<in> w_id ` set (wd_workspaces db0)"
  shows "\<not> job_exists (lc_job_id L i) db" "lc_build_id L i \<notin> b_id ` set (wd_builds db)"
proof -
  obtain new js where h: "wd_builds db = wd_builds db0 @ new" "db_jobs (wd_prov db) = db_jobs (wd_prov db0) @ js"
    "list_all2 (\<lambda>r b. build_for L (wd_builds db0) (the (lifecycle_decision (lc_cron L) quiet now r)) r b)
      (acting L quiet now rows) new"
    "list_all2 (\<lambda>r j. \<exists>w. find (live (r_id r)) (wd_workspaces db0) = Some w \<and> job_for L w r j)
      (acting L quiet now rows) js"
    using assms(1) unfolding handled_def by blast
  have ids: "r_id r \<in> w_id ` set (wd_workspaces db0) \<and> r_id r \<noteq> i" if "r \<in> set (acting L quiet now rows)" for r
    using list_all2_left [OF h(4) that] assms(3) set_acting [OF that] by (auto dest: find_live_id)
  have "lc_build_id L i \<noteq> b_id b" if b: "b \<in> set new" for b
    using list_all2_right [OF h(3) b] ids assms(2,4) unfolding build_for_def fresh_ids_def by (metis inj_on_eq_iff)
  moreover have "lc_job_id L i \<noteq> pj_id j" if j: "j \<in> set js" for j
    using list_all2_right [OF h(4) j] ids assms(2,4) unfolding job_for_def fresh_ids_def by (metis inj_on_eq_iff)
  ultimately show "\<not> job_exists (lc_job_id L i) db" "lc_build_id L i \<notin> b_id ` set (wd_builds db)"
    using assms(2,4) h(1,2) by (auto simp: fresh_ids_def job_exists_def)
qed

lemma lifecycle_one_handled:
  assumes "ws_working (lc_ws L)" and "fresh_ids L db0" and h: "handled L quiet now db0 rows db"
    and new: "r_id r \<notin> r_id ` set rows" and w: "find (live (r_id r)) (wd_workspaces db0) = Some w"
    and b0: "b0 \<in> set (wd_builds db0)" "b_workspace_id b0 = r_id r"
  shows "handled L quiet now db0 (rows @ [r]) (fst (lifecycle_one L now quiet r (db, s))) \<and>
    ls_errors (snd (lifecycle_one L now quiet r (db, s))) = ls_errors s"
proof (cases "lifecycle_decision (lc_cron L) quiet now r")
  case None
  then have "acting L quiet now (rows @ [r]) = acting L quiet now rows" by (simp add: acting_def)
  with None h show ?thesis by (simp add: lifecycle_one_decision handled_def)
next
  case (Some what)
  obtain tr rs where what: "what = (tr, rs)" by (cases what)
  note fresh = handled_fresh [OF h assms(2) new find_live_id [OF w]]
  have ws: "wd_workspaces db = wd_workspaces db0" and sub: "set (wd_builds db0) \<subseteq> set (wd_builds db)"
    using h by (auto simp: handled_def)
  obtain b j where t: "trigger_build L r tr rs now db =
      (db \<lparr> wd_prov := (wd_prov db) \<lparr> db_jobs := db_jobs (wd_prov db) @ [j] \<rparr>, wd_builds := wd_builds db @ [b] \<rparr>, Ok ())"
    "job_for L w r j" "build_for L (wd_builds db) (tr, rs) r b"
    by (rule trigger_build_ok [OF assms(1) w [folded ws] subsetD [OF sub b0(1)] b0(2) fresh]) blast
  have "acting L quiet now (rows @ [r]) = acting L quiet now rows @ [r]" using Some by (simp add: acting_def)
  moreover have "build_for L (wd_builds db0) (tr, rs) r b" using t(3) sub by (rule build_for_mono)
  moreover obtain new js where "wd_builds db = wd_builds db0 @ new" "db_jobs (wd_prov db) = db_jobs (wd_prov db0) @ js"
    "list_all2 (\<lambda>r b. build_for L (wd_builds db0) (the (lifecycle_decision (lc_cron L) quiet now r)) r b)
      (acting L quiet now rows) new"
    "list_all2 (\<lambda>r j. \<exists>w. find (live (r_id r)) (wd_workspaces db0) = Some w \<and> job_for L w r j)
      (acting L quiet now rows) js"
    using h unfolding handled_def by blast
  ultimately have "handled L quiet now db0 (rows @ [r])
      (db \<lparr> wd_prov := (wd_prov db) \<lparr> db_jobs := db_jobs (wd_prov db) @ [j] \<rparr>, wd_builds := wd_builds db @ [b] \<rparr>)"
    unfolding handled_def using h Some what t(2) w
    by (intro conjI exI [of _ "new @ [b]"] exI [of _ "js @ [j]"]) (simp_all add: handled_def list_all2_appendI)
  then show ?thesis using Some what t(1) by (simp add: lifecycle_one_decision count_started_def count_stopped_def)
qed

lemma lifecycle_fold_handled:
  assumes "ws_working (lc_ws L)" and "fresh_ids L db0"
  shows "handled L quiet now db0 past db \<Longrightarrow> distinct (map r_id (past @ rows)) \<Longrightarrow>
    (\<And>r. r \<in> set rows \<Longrightarrow> find (live (r_id r)) (wd_workspaces db0) \<noteq> None \<and>
       (\<exists>b \<in> set (wd_builds db0). b_workspace_id b = r_id r)) \<Longrightarrow>
    handled L quiet now db0 (past @ rows) (fst (fold (lifecycle_one L now quiet) rows (db, s))) \<and>
    ls_errors (snd (fold (lifecycle_one L now quiet) rows (db, s))) = ls_errors s"
proof (induction rows arbitrary: past db s)
  case (Cons r rows)
  obtain db' s' where one: "lifecycle_one L now quiet r (db, s) = (db', s')" by fastforce
  have "r_id r \<notin> r_id ` set past" using Cons.prems(2) by auto
  moreover obtain w b where "find (live (r_id r)) (wd_workspaces db0) = Some w" "b \<in> set (wd_builds db0)"
    "b_workspace_id b = r_id r"
    using Cons.prems(3) [of r] by auto
  ultimately have "handled L quiet now db0 (past @ [r]) db' \<and> ls_errors s' = ls_errors s"
    using lifecycle_one_handled [OF assms Cons.prems(1), of r w b s] one by simp
  then show ?case using Cons.IH [of "past @ [r]" db' s'] Cons.prems(2,3) one by simp
qed simp


definition due_rows :: "'j WorkspaceDb \<Rightarrow> instant \<Rightarrow> WorkspaceTransitionRow list" where
  "due_rows db now = map row_of (filter (eligible_where now) (joined_rows db))"

lemma distinct_due_rows: "ws_wf db \<Longrightarrow> distinct (map r_id (due_rows db now))"
proof -
  assume "ws_wf db"
  then have "distinct (map (r_id \<circ> row_of) (joined_rows db))" using distinct_joined_rows by fastforce
  then show ?thesis by (simp add: due_rows_def distinct_map_filter)
qed

lemma due_row_exists:
  assumes "r \<in> set (due_rows db now)"
  shows "find (live (r_id r)) (wd_workspaces db) \<noteq> None \<and> (\<exists>b \<in> set (wd_builds db). b_workspace_id b = r_id r)"
proof -
  from assms obtain w b j t u where "(w, b, j, t, u) \<in> set (joined_rows db)" "eligible_where now (w, b, j, t, u)"
    "r = transition_row w b j t u"
    by (auto simp: due_rows_def)
  then show ?thesis
    by (auto simp: set_joined_rows eligible_where_def transition_row_def latest_build_of_def live_def find_None_iff
        simp del: not_None_eq)
qed

lemma lifecycle_tick_handled:
  assumes "ws_working (lc_ws L)" and "ws_wf db" and "fresh_ids L db"
  obtains db' stats where "lifecycle_tick_once L now quiet db = (db', Ok stats)" "ls_errors stats = 0"
    "handled L quiet now db (due_rows db now) db'"
proof -
  define s0 where "s0 = \<lparr> ls_started = 0, ls_stopped = (0 :: 32 word), ls_errors = 0 \<rparr>"
  obtain db' stats where f: "fold (lifecycle_one L now quiet) (due_rows db now) (db, s0) = (db', stats)"
    by fastforce
  have "handled L quiet now db [] db" by (simp add: handled_def acting_def)
  then have "handled L quiet now db ([] @ due_rows db now) (fst (fold (lifecycle_one L now quiet) (due_rows db now) (db, s0))) \<and>
      ls_errors (snd (fold (lifecycle_one L now quiet) (due_rows db now) (db, s0))) = ls_errors s0"
    by (rule lifecycle_fold_handled [OF assms(1,3)])
      (use due_row_exists in \<open>simp_all add: distinct_due_rows [OF assms(2)] del: not_None_eq\<close>)
  then have "handled L quiet now db (due_rows db now) db' \<and> ls_errors stats = 0"
    by (simp add: f) (simp add: s0_def)
  moreover have "lifecycle_tick_once L now quiet db = (db', Ok stats)"
    using f assms(1) by (simp add: lifecycle_tick_once_def eligible_rows s0_def due_rows_def)
  ultimately show thesis using that by blast
qed


lemma start_decision_active:
  "lifecycle_decision C quiet now r = Some (''start'', x) \<Longrightarrow> r_owner_status r = ''active''"
  by (auto simp: lifecycle_decision_def is_eligible_for_autostart_def split: if_splits)

lemma decision_transition:
  "lifecycle_decision C quiet now r = Some (tr, x) \<Longrightarrow> tr = ''start'' \<or> tr = ''stop''"
  by (auto simp: lifecycle_decision_def split: if_splits)

lemma fresh_build_no_decision:
  assumes "b_deadline b = None" and "job_status j = Pending" and "b_transition b = ''start'' \<Longrightarrow> u_status u \<noteq> ''suspended''"
  shows "lifecycle_decision C quiet now (transition_row w b j t u) = None"
proof -
  have "pj_completed_at j = None" using assms(2) by (auto simp: job_status_def split: if_splits)
  with assms show ?thesis
    by (auto simp: lifecycle_decision_def is_eligible_for_autostop_def is_eligible_for_autostart_def
        is_eligible_for_failed_stop_def transition_row_def split: option.splits sum.splits)
qed

lemma latest_build_is_new:
  assumes "list_all2 (\<lambda>r b. build_for L bs (what r) r b) rs new" and "r \<in> set rs" and db': "wd_builds db' = bs @ new"
    and b: "b \<in> set (wd_builds db')" "latest_build_of db' w b" and wid: "w_id w = r_id r"
  shows "b \<in> set new"
proof (rule ccontr)
  assume "b \<notin> set new"
  then have old: "b \<in> set bs" using b(1) db' by auto
  from list_all2_left [OF assms(1,2)] obtain c where c: "c \<in> set new" "build_for L bs (what r) r c" by blast
  then have "b_build_number b < b_build_number c"
    using old b(2) wid by (simp add: build_for_def latest_build_of_def)
  moreover have "c \<in> set (wd_builds db')" "b_workspace_id c = w_id w" using c db' wid by (auto simp: build_for_def)
  then obtain n where "max_build_number (w_id w) db' = Some n" "b_build_number c \<le> n"
    by (rule max_build_number_ge)
  then have "b_build_number c \<le> b_build_number b" using b(2) by (simp add: latest_build_of_def)
  ultimately show False by simp
qed

text \<open>
  The scheduler does not stack builds: in the next tick, at any later time, no workspace that this tick
  gave a build to is acted on again while the new job is still pending.
\<close>

theorem lifecycle_no_stacked_builds:
  assumes "ws_working (lc_ws L)" and wf: "ws_wf db" and fresh: "fresh_ids L db"
    and tick: "lifecycle_tick_once L now quiet db = (db', res)"
    and r: "r \<in> set (acting L quiet now (due_rows db now))"
    and r': "r' \<in> set (due_rows db' now')" "r_id r' = r_id r"
  shows "lifecycle_decision C quiet' now' r' = None"
proof -
  have "handled L quiet now db (due_rows db now) db'"
    by (rule lifecycle_tick_handled [OF assms(1) wf fresh, of now quiet]) (use tick in simp)
  then obtain new js where db': "wd_workspaces db' = wd_workspaces db" "wd_users db' = wd_users db"
    "wd_builds db' = wd_builds db @ new" "db_jobs (wd_prov db') = db_jobs (wd_prov db) @ js"
    and new: "list_all2 (\<lambda>r b. build_for L (wd_builds db) (the (lifecycle_decision (lc_cron L) quiet now r)) r b)
      (acting L quiet now (due_rows db now)) new"
    and js: "list_all2 (\<lambda>r j. \<exists>w. find (live (r_id r)) (wd_workspaces db) = Some w \<and> job_for L w r j)
      (acting L quiet now (due_rows db now)) js"
    unfolding handled_def by blast
  obtain w b j t u where x: "(w, b, j, t, u) \<in> set (joined_rows db')" "r' = transition_row w b j t u"
    using r'(1) by (auto simp: due_rows_def)
  have wid: "w_id w = r_id r" using x(2) r'(2) by (simp add: transition_row_def)
  note jx = x(1) [unfolded set_joined_rows]
  have "b \<in> set new"
    by (rule latest_build_is_new [OF new r db'(3)]) (use jx wid in simp_all)
  from list_all2_right [OF new this] obtain s where s: "s \<in> set (acting L quiet now (due_rows db now))"
    "build_for L (wd_builds db) (the (lifecycle_decision (lc_cron L) quiet now s)) s b" by blast
  have s_id: "r_id s \<in> w_id ` set (wd_workspaces db)"
    using list_all2_left [OF js s(1)] by (auto dest: find_live_id)
  obtain what where what: "lifecycle_decision (lc_cron L) quiet now s = Some what" using s(1) by (auto simp: acting_def)
  have "job_status j = Pending"
  proof -
    have "pj_id j = lc_job_id L (r_id s)" using jx s(2) by (simp add: build_for_def)
    then have "j \<notin> set (db_jobs (wd_prov db))" using fresh s_id unfolding fresh_ids_def job_exists_def by (metis image_eqI)
    then have "j \<in> set js" using jx db'(4) by auto
    from list_all2_right [OF js this] show ?thesis by (auto simp: job_for_def)
  qed
  moreover have "u_status u = ''active''" if "b_transition b = ''start''"
  proof -
    have "r_owner_status s = ''active''"
      using that s(2) what start_decision_active by (auto simp: build_for_def)
    moreover obtain w0 b0 j0 t0 u0 where y: "(w0, b0, j0, t0, u0) \<in> set (joined_rows db)" "s = transition_row w0 b0 j0 t0 u0"
      using s(1) by (auto simp: acting_def due_rows_def)
    moreover have "r_id s = w_id w" using s(2) jx by (simp add: build_for_def latest_build_of_def)
    moreover from this have "w0 = w"
      using y ws_wf_unique(1) [OF wf] jx db'(1) by (auto simp: set_joined_rows transition_row_def)
    moreover have "u0 = u"
      using y(1) jx db'(2) calculation ws_wf_unique(5) [OF wf] by (simp add: set_joined_rows)
    ultimately show ?thesis by (simp add: transition_row_def)
  qed
  ultimately show ?thesis
    using s(2) unfolding x(2) build_for_def by (intro fresh_build_no_decision) auto
qed


section \<open>Witnesses\<close>

definition demo_cron :: "(unit, unit) cron_env" where
  "demo_cron = \<lparr> ce_parse = (\<lambda>_. Ok ()), ce_tz = (\<lambda>_. None), ce_after = (\<lambda>_ _ t. Some (t + secs 60)) \<rparr>"

definition demo_env :: "(unit, unit, unit) lc_env" where
  "demo_env = \<lparr> lc_ws = demo_ws_env, lc_cron = demo_cron, lc_codec = hyphenated_codec,
     lc_job_id = (\<lambda>i. i + 1000), lc_build_id = (\<lambda>i. i + 2000), lc_order = (\<lambda>rows. rows) \<rparr>"

lemma demo_working: "ws_working (lc_ws demo_env)"
  by (simp add: ws_working_def demo_env_def demo_ws_env_def)

lemma demo_fresh: "fresh_ids demo_env demo_db"
  by (simp add: fresh_ids_def demo_env_def demo_db_def demo_workspace_def demo_build_def demo_job_def job_exists_def)

lemma demo_eligible:
  "eligible_where now (demo_workspace, demo_build, demo_job, demo_template, demo_user) \<longleftrightarrow> secs 1000 < now"
  by (auto simp: eligible_where_def due_autostop_def due_autostart_def due_dormancy_def due_deletion_def
      due_failed_stop_def demo_workspace_def demo_build_def demo_job_def demo_template_def demo_user_def
      job_status_def zero_deadline_def secs_def PREBUILDS_SYSTEM_USER_ID_def)

lemma demo_rows:
  "secs 1000 < now \<Longrightarrow> get_workspaces_eligible_for_transition demo_ws_env now demo_db =
     Ok [transition_row demo_workspace demo_build demo_job demo_template demo_user]"
  by (simp add: eligible_rows demo_joined demo_eligible ws_query_def demo_ws_env_def)


theorem autobuild_acts_only_when_due_witness:
  "list_all2 (due_change (truncate_minute (secs 2000)) demo_db) (wd_workspaces demo_db)
     (wd_workspaces (fst (evaluate_once demo_env (secs 2000) demo_db)))"
  using autobuild_acts_only_when_due [OF demo_wf, of demo_env "secs 2000"]
  by (cases "evaluate_once demo_env (secs 2000) demo_db") (simp add: demo_env_def)


text \<open>Used 100 seconds ago, 500 seconds before its deadline, with a bump of an hour.\<close>

theorem activity_bump_only_when_due_witness:
  "\<exists>b'. b' \<in> set (wd_builds (fst (activity_bump_once demo_env (secs 500) demo_db))) \<and>
     b_id b' = 40 \<and> b_deadline b' = Some (secs 1000)"
proof (cases "activity_bump_once demo_env (secs 500) demo_db")
  case (Pair db' res)
  have "\<exists>b' \<in> set (wd_builds db'). b_id b' = b_id demo_build \<and> b_deadline b' = Some (secs 1000)"
  proof (rule activity_bump_only_when_due [OF demo_wf Pair])
    show "(demo_workspace, demo_build, demo_job, demo_template, demo_user) \<in> set (joined_rows demo_db)"
      by (simp add: demo_joined)
  qed (simp_all add: demo_user_def demo_build_def demo_workspace_def due_dormancy_def demo_template_def secs_def)
  then show ?thesis by (auto simp: Pair demo_build_def)
qed

lemma demo_due: "due_rows demo_db (secs 2000) = [transition_row demo_workspace demo_build demo_job demo_template demo_user]"
proof -
  have "secs 1000 < secs 2000" by (simp add: secs_def)
  then show ?thesis by (simp add: due_rows_def demo_joined demo_eligible)
qed

lemma demo_decision:
  "lifecycle_decision (lc_cron demo_env) None (secs 2000)
     (transition_row demo_workspace demo_build demo_job demo_template demo_user) = Some (''stop'', ''autostop'')"
  by (simp add: lifecycle_decision_def is_eligible_for_autostop_def transition_row_def demo_workspace_def demo_build_def
      demo_job_def job_status_def secs_def)

lemma demo_acting:
  "acting demo_env None (secs 2000) (due_rows demo_db (secs 2000)) =
     [transition_row demo_workspace demo_build demo_job demo_template demo_user]"
  by (simp add: demo_due acting_def demo_decision)


text \<open>The database after the stop, and a second tick before the job is done.\<close>

definition stopped_build :: WorkspaceBuildRecord where
  "stopped_build = demo_build \<lparr> b_id := 2001, b_created_at := secs 2000, b_updated_at := secs 2000, b_build_number := 2,
     b_transition := ''stop'', b_job_id := 1001, b_deadline := None, b_reason := ''autostop'' \<rparr>"

definition stopped_job :: "unit ProvisionerJobRecord" where
  "stopped_job = demo_job \<lparr> pj_id := 1001, pj_created_at := secs 2000, pj_updated_at := secs 2000, pj_started_at := None,
     pj_completed_at := None, pj_tags := mutate_tags hyphenated_codec 10 [hm_empty] \<rparr>"

definition stopped_db :: "unit WorkspaceDb" where
  "stopped_db = demo_db \<lparr> wd_builds := [demo_build, stopped_build],
     wd_prov := (wd_prov demo_db) \<lparr> db_jobs := [demo_job, stopped_job] \<rparr> \<rparr>"

lemma demo_stop:
  "trigger_build demo_env (transition_row demo_workspace demo_build demo_job demo_template demo_user)
     ''stop'' ''autostop'' (secs 2000) demo_db = (stopped_db, Ok ())"
  by (simp add: trigger_build_def ok_or_not_found_def find_latest_workspace_build_def find_workspace_by_id_def
      lifecycle_provisioner_tags_def find_template_version_by_id_def create_provisioner_job_def
      provisioner_type_from_str_def job_type_from_str_def find_provisioner_job_def insert_workspace_build_def
      max_build_number_def new_job_def with_favorite_def live_def job_exists_def ws_working_simps [OF demo_working [unfolded demo_env_def lc_env.simps]]
      demo_env_def demo_db_def demo_workspace_def demo_build_def demo_job_def transition_row_def ws_query_def ws_attempt_def
      demo_ws_env_def stopped_db_def stopped_build_def stopped_job_def Let_def)

lemma stopped_joined:
  "(demo_workspace, stopped_build, stopped_job, demo_template, demo_user) \<in> set (joined_rows stopped_db)"
  by (simp add: set_joined_rows latest_build_of_def max_build_number_def stopped_db_def stopped_build_def stopped_job_def
      demo_db_def demo_workspace_def demo_build_def demo_job_def demo_template_def demo_user_def)

lemma demo_tick:
  "lifecycle_tick_once demo_env (secs 2000) None demo_db =
     (stopped_db, Ok \<lparr> ls_started = 0, ls_stopped = 1, ls_errors = 0 \<rparr>)"
proof -
  have e: "lc_ws demo_env = demo_ws_env" by (simp add: demo_env_def)
  have "secs 1000 < secs 2000" by (simp add: secs_def)
  note rows = demo_rows [OF this]
  show ?thesis
    by (simp add: lifecycle_tick_once_def e rows lifecycle_one_decision demo_decision demo_stop count_stopped_def
        saturating_add_def)
qed

lemma stopped_due:
  "transition_row demo_workspace stopped_build stopped_job demo_template demo_user \<in> set (due_rows stopped_db (secs 9000))"
proof -
  have "eligible_where (secs 9000) (demo_workspace, stopped_build, stopped_job, demo_template, demo_user)"
    by (simp add: eligible_where_def due_autostart_def stopped_build_def stopped_job_def demo_workspace_def
        demo_build_def demo_job_def demo_template_def demo_user_def job_status_def PREBUILDS_SYSTEM_USER_ID_def)
  with stopped_joined show ?thesis by (force simp: due_rows_def)
qed

theorem lifecycle_no_stacked_builds_witness:
  "lifecycle_decision demo_cron None (secs 9000)
     (transition_row demo_workspace stopped_build stopped_job demo_template demo_user) = None"
proof (rule lifecycle_no_stacked_builds [OF demo_working demo_wf demo_fresh])
  show "lifecycle_tick_once demo_env (secs 2000) None demo_db =
      (stopped_db, Ok \<lparr> ls_started = 0, ls_stopped = 1, ls_errors = 0 \<rparr>)"
    by (rule demo_tick)
  show "transition_row demo_workspace demo_build demo_job demo_template demo_user
      \<in> set (acting demo_env None (secs 2000) (due_rows demo_db (secs 2000)))"
    by (simp add: demo_acting)
qed (use stopped_due in \<open>simp_all add: transition_row_def\<close>)

end
