(* ===== verification/Auth_Tables.thy ===== *)
theory Auth_Tables
  imports Identity_Tables Rust_Text Byte_Codec
begin

text \<open>
  Users, sessions and API keys: the records of \<open>crates/coder-core/src/identity.rs\<close> and the statements of
  \<open>crates/coder-db/src/store/app_store.rs\<close> behind the trait \<open>AuthStore\<close>, over the columns they read and write. A
  statement may fail with any storage error (\<open>av_fault\<close>), the error of a violated constraint is \<open>av_reject\<close>, a
  transaction fails as a whole, \<open>NOW()\<close> is \<open>av_now\<close> and the order of the listing of keys is \<open>av_order\<close>. Byte columns that
  hold encoded hashes are texts; \<open>LOWER\<close> folds ASCII letters. Primary keys, unique indexes and foreign keys are those of the migrations.
\<close>

section \<open>Records\<close>

datatype ApiKeyScope = ScopeAll | ApplicationConnect

definition from_scope_string :: "string \<Rightarrow> ApiKeyScope option" where
  "from_scope_string s =
     (if s = ''all'' then Some ScopeAll else if s = ''application_connect'' then Some ApplicationConnect else None)"

fun scope_as_str :: "ApiKeyScope \<Rightarrow> string" where
  "scope_as_str ScopeAll = ''all''"
| "scope_as_str ApplicationConnect = ''application_connect''"

datatype LoginType = Password | Github | Oidc | Token | NoLogin | Oauth2ProviderApp

fun login_type_as_str :: "LoginType \<Rightarrow> string" where
  "login_type_as_str Password = ''password''"
| "login_type_as_str Github = ''github''"
| "login_type_as_str Oidc = ''oidc''"
| "login_type_as_str Token = ''token''"
| "login_type_as_str NoLogin = ''none''"
| "login_type_as_str Oauth2ProviderApp = ''oauth2_provider_app''"

datatype UserStatus = Active | Suspended | Dormant

fun user_status_as_str :: "UserStatus \<Rightarrow> string" where
  "user_status_as_str Active = ''active''"
| "user_status_as_str Suspended = ''suspended''"
| "user_status_as_str Dormant = ''dormant''"

record SlimRoleRecord =
  sr_name :: string
  sr_display_name :: string
  sr_organization_id :: "uuid option"

record UserRecord =
  ur_id :: uuid
  ur_email :: string
  ur_username :: string
  ur_name :: string
  ur_avatar_url :: string
  ur_created_at :: instant
  ur_updated_at :: instant
  ur_last_seen_at :: "instant option"
  ur_organization_ids :: "uuid list"
  ur_roles :: "SlimRoleRecord list"
  ur_login_type :: LoginType
  ur_status :: UserStatus
  ur_deleted :: bool
  ur_is_system :: bool

record AuthenticatedUser =
  au_id :: uuid
  au_email :: string
  au_username :: string
  au_name :: string
  au_avatar_url :: string
  au_created_at :: instant
  au_updated_at :: instant
  au_last_seen_at :: "instant option"
  au_organization_ids :: "uuid list"
  au_roles :: "SlimRoleRecord list"
  au_org_roles :: "string list"
  au_login_type :: LoginType
  au_status :: UserStatus

definition authenticated_from :: "UserRecord \<Rightarrow> AuthenticatedUser" where
  "authenticated_from u =
     \<lparr> au_id = ur_id u, au_email = ur_email u, au_username = ur_username u, au_name = ur_name u,
        au_avatar_url = ur_avatar_url u, au_created_at = ur_created_at u, au_updated_at = ur_updated_at u,
        au_last_seen_at = ur_last_seen_at u, au_organization_ids = ur_organization_ids u, au_roles = ur_roles u,
        au_org_roles = [], au_login_type = ur_login_type u, au_status = ur_status u \<rparr>"

record PasswordUserRecord =
  pu_user :: UserRecord
  pu_password_hash :: string
  pu_one_time_passcode_hash :: "string option"
  pu_one_time_passcode_expires_at :: "instant option"

record ApiAllowListTarget =
  al_type_name :: string
  al_id :: string

record ApiKeyRecord =
  ak_id :: string
  ak_hashed_secret :: "byte list"
  ak_user_id :: uuid
  ak_last_used :: instant
  ak_expires_at :: instant
  ak_created_at :: instant
  ak_updated_at :: instant
  ak_login_type :: LoginType
  ak_scopes :: "string list"
  ak_token_name :: string
  ak_lifetime_seconds :: int
  ak_allow_list :: "ApiAllowListTarget list"

record ApiKeyWithOwnerRecord =
  ko_key :: ApiKeyRecord
  ko_username :: string

record ApiKeyListFilter =
  kf_user_id :: "uuid option"
  kf_login_type :: LoginType
  kf_include_expired :: bool

record CreateApiKeyInput =
  ck_id :: string
  ck_hashed_secret :: "byte list"
  ck_user_id :: uuid
  ck_last_used :: instant
  ck_expires_at :: instant
  ck_created_at :: instant
  ck_updated_at :: instant
  ck_login_type :: LoginType
  ck_scopes :: "string list"
  ck_token_name :: string
  ck_lifetime_seconds :: int
  ck_allow_list :: "ApiAllowListTarget list"

datatype CreateApiKeyStoreError = DuplicateTokenName | ApiKeyStorage StorageError

record CreateFirstUserInput =
  fu_email :: string
  fu_username :: string
  fu_name :: string
  fu_password_hash :: string

record FirstUserRecord =
  fr_user_id :: uuid
  fr_organization_id :: uuid

datatype CreateFirstUserStoreError = FirstUserAlreadyExists | FirstUserStorage StorageError

section \<open>Tables\<close>

record AuthUserRow =
  uc_id :: uuid
  uc_email :: string
  uc_username :: string
  uc_name :: string
  uc_avatar_url :: string
  uc_created_at :: instant
  uc_updated_at :: instant
  uc_last_seen_at :: "instant option"
  uc_hashed_password :: string
  uc_hashed_one_time_passcode :: string
  uc_one_time_passcode_expires_at :: "instant option"
  uc_rbac_roles :: "string list"
  uc_login_type :: LoginType
  uc_status :: UserStatus
  uc_deleted :: bool
  uc_is_system :: bool

record AuthDb =
  ad_users :: "AuthUserRow list"
  ad_members :: "MemberRow list"
  ad_organizations :: "OrganizationRow list"
  ad_sessions :: "(byte list \<times> uuid) list"
  ad_keys :: "ApiKeyRecord list"

datatype AuthCall =
    FirstUserExists | CreateFirstUser | FindPasswordUserByEmail | FindPasswordUserById | InsertAuthSession
  | FindUserBySessionTokenHash | DeleteAuthSession | AuthFindUserById | FindUserByUsername
  | StoreOneTimePasscodeByEmail | ReplaceUserPassword | CreateApiKey | FindApiKeyById | FindApiKeyByName | ListApiKeys
  | DeleteApiKey | ExpireApiKey | UpdateApiKeyLastUsed | UpdateUserLastSeenAt | TokenConfigOf | UpdateUserStatus
  | AuthListUserMemberships

record auth_env =
  av_fault :: "AuthCall \<Rightarrow> StorageError option"
  av_reject :: StorageError
  av_now :: instant
  av_codec :: uuid_codec
  av_order :: "ApiKeyWithOwnerRecord list \<Rightarrow> ApiKeyWithOwnerRecord list"

type_synonym 'a auth_stmt = "AuthDb \<times> (StorageError, 'a) result"

definition auth_attempt :: "auth_env \<Rightarrow> AuthCall \<Rightarrow> AuthDb \<Rightarrow> 'a auth_stmt \<Rightarrow> 'a auth_stmt" where
  "auth_attempt E call db s = (case av_fault E call of Some e \<Rightarrow> (db, Err e) | None \<Rightarrow> s)"

definition auth_query :: "auth_env \<Rightarrow> AuthCall \<Rightarrow> 'a \<Rightarrow> (StorageError, 'a) result" where
  "auth_query E call x = (case av_fault E call of Some e \<Rightarrow> Err e | None \<Rightarrow> Ok x)"

definition same_text :: "string \<Rightarrow> string \<Rightarrow> bool" where
  "same_text a b \<longleftrightarrow> map ascii_lower a = map ascii_lower b"

section \<open>Rows to records\<close>

definition ascii_upper :: "char \<Rightarrow> char" where
  "ascii_upper c = (let n = (of_char c :: nat) in if 97 \<le> n \<and> n \<le> 122 then char_of (n - 32) else c)"

fun title_case :: "string \<Rightarrow> string" where
  "title_case [] = []"
| "title_case (c # cs) = ascii_upper c # cs"

fun join_words :: "string list \<Rightarrow> string" where
  "join_words [] = []"
| "join_words [w] = w"
| "join_words (w # v # ws) = w @ '' '' @ join_words (v # ws)"

definition slim_roles_from_names :: "string list \<Rightarrow> uuid option \<Rightarrow> SlimRoleRecord list" where
  "slim_roles_from_names role_names organization_id =
     map (\<lambda>role. \<lparr> sr_name = role,
            sr_display_name =
              join_words (map title_case (filter (\<lambda>p. p \<noteq> [])
                (split_on CHR ''-'' (map (\<lambda>c. if c = CHR ''_'' then CHR ''-'' else c) role)))),
            sr_organization_id = organization_id \<rparr>) role_names"

definition organizations_of :: "AuthDb \<Rightarrow> uuid \<Rightarrow> uuid list" where
  "organizations_of db user = sort (remdups (map om_organization_id (filter (\<lambda>m. om_user_id m = user) (ad_members db))))"

definition user_record_from_row :: "AuthDb \<Rightarrow> AuthUserRow \<Rightarrow> UserRecord" where
  "user_record_from_row db r =
     \<lparr> ur_id = uc_id r, ur_email = uc_email r, ur_username = uc_username r, ur_name = uc_name r,
        ur_avatar_url = uc_avatar_url r, ur_created_at = uc_created_at r, ur_updated_at = uc_updated_at r,
        ur_last_seen_at = uc_last_seen_at r, ur_organization_ids = organizations_of db (uc_id r),
        ur_roles = slim_roles_from_names (uc_rbac_roles r) None, ur_login_type = uc_login_type r,
        ur_status = uc_status r, ur_deleted = uc_deleted r, ur_is_system = uc_is_system r \<rparr>"

definition password_record_from_row :: "AuthDb \<Rightarrow> AuthUserRow \<Rightarrow> PasswordUserRecord" where
  "password_record_from_row db r =
     \<lparr> pu_user = user_record_from_row db r, pu_password_hash = uc_hashed_password r,
        pu_one_time_passcode_hash =
          (if uc_hashed_one_time_passcode r = [] then None else Some (uc_hashed_one_time_passcode r)),
        pu_one_time_passcode_expires_at = uc_one_time_passcode_expires_at r \<rparr>"

definition org_roles_of :: "uuid_codec \<Rightarrow> AuthDb \<Rightarrow> uuid \<Rightarrow> string list" where
  "org_roles_of U db user =
     [name @ '':'' @ to_string U (om_organization_id m). m \<leftarrow> ad_members db, om_user_id m = user, name \<leftarrow> om_roles m]"

definition live_row :: "AuthDb \<Rightarrow> uuid \<Rightarrow> AuthUserRow option" where
  "live_row db i = find (\<lambda>u. uc_id u = i \<and> \<not> uc_deleted u) (ad_users db)"

section \<open>Users\<close>

definition first_user_exists :: "auth_env \<Rightarrow> AuthDb \<Rightarrow> (StorageError, bool) result" where
  "first_user_exists E db =
     auth_query E FirstUserExists (list_ex (\<lambda>u. \<not> uc_deleted u \<and> \<not> uc_is_system u) (ad_users db))"

text \<open>The default organization, created under the identifier \<open>fresh\<close> if there is none.\<close>

definition ensure_default_organization :: "uuid \<Rightarrow> AuthDb \<Rightarrow> AuthDb \<times> uuid option" where
  "ensure_default_organization fresh db =
     (let db = (if list_ex or_is_default (ad_organizations db) then db
                else db \<lparr> ad_organizations := ad_organizations db @
                           [\<lparr> or_id = fresh, or_is_default = True, or_deleted = False \<rparr>] \<rparr>)
      in (db, map_option or_id (find or_is_default (ad_organizations db))))"

definition user_key_taken :: "AuthDb \<Rightarrow> uuid \<Rightarrow> string \<Rightarrow> string \<Rightarrow> bool" where
  "user_key_taken db i email username \<longleftrightarrow>
     (\<exists>u \<in> set (ad_users db). uc_id u = i \<or> \<not> uc_deleted u \<and> (same_text (uc_email u) email \<or> same_text (uc_username u) username))"

definition create_first_user ::
  "auth_env \<Rightarrow> uuid \<Rightarrow> uuid \<Rightarrow> CreateFirstUserInput \<Rightarrow> AuthDb \<Rightarrow> AuthDb \<times> (CreateFirstUserStoreError, FirstUserRecord) result" where
  "create_first_user E user_id org_id input db =
     (case av_fault E CreateFirstUser of
        Some e \<Rightarrow> (db, Err (FirstUserStorage e))
      | None \<Rightarrow>
          if list_ex (\<lambda>u. \<not> uc_deleted u \<and> \<not> uc_is_system u) (ad_users db) then (db, Err FirstUserAlreadyExists)
          else
            (case ensure_default_organization org_id db of
               (db', Some organization_id) \<Rightarrow>
                 if user_key_taken db' user_id (fu_email input) (fu_username input) then (db, Err (FirstUserStorage (av_reject E)))
                 else
                   (db' \<lparr> ad_users := ad_users db' @
                            [\<lparr> uc_id = user_id, uc_email = fu_email input, uc_username = fu_username input,
                               uc_name = fu_name input, uc_avatar_url = [], uc_created_at = av_now E,
                               uc_updated_at = av_now E, uc_last_seen_at = None,
                               uc_hashed_password = fu_password_hash input, uc_hashed_one_time_passcode = [],
                               uc_one_time_passcode_expires_at = None, uc_rbac_roles = [''owner''],
                               uc_login_type = Password, uc_status = Active, uc_deleted = False, uc_is_system = False \<rparr>],
                          ad_members := ad_members db' @
                            [\<lparr> om_organization_id = organization_id, om_user_id = user_id, om_roles = [],
                               om_is_idp_controlled = False \<rparr>] \<rparr>,
                    Ok \<lparr> fr_user_id = user_id, fr_organization_id = organization_id \<rparr>)
             | (_, None) \<Rightarrow> (db, Err (FirstUserStorage (av_reject E)))))"

definition find_password_user_by_email :: "auth_env \<Rightarrow> string \<Rightarrow> AuthDb \<Rightarrow> (StorageError, PasswordUserRecord option) result" where
  "find_password_user_by_email E email db =
     auth_query E FindPasswordUserByEmail
       (map_option (password_record_from_row db) (find (\<lambda>u. same_text (uc_email u) email \<and> \<not> uc_deleted u) (ad_users db)))"

definition find_password_user_by_id :: "auth_env \<Rightarrow> uuid \<Rightarrow> AuthDb \<Rightarrow> (StorageError, PasswordUserRecord option) result" where
  "find_password_user_by_id E i db =
     auth_query E FindPasswordUserById (map_option (password_record_from_row db) (live_row db i))"

definition auth_find_user_by_id :: "auth_env \<Rightarrow> uuid \<Rightarrow> AuthDb \<Rightarrow> (StorageError, UserRecord option) result" where
  "auth_find_user_by_id E i db = auth_query E AuthFindUserById (map_option (user_record_from_row db) (live_row db i))"

definition find_user_by_username :: "auth_env \<Rightarrow> string \<Rightarrow> AuthDb \<Rightarrow> (StorageError, UserRecord option) result" where
  "find_user_by_username E username db =
     auth_query E FindUserByUsername
       (map_option (user_record_from_row db) (find (\<lambda>u. same_text (uc_username u) username \<and> \<not> uc_deleted u) (ad_users db)))"

definition update_users :: "(AuthUserRow \<Rightarrow> bool) \<Rightarrow> (AuthUserRow \<Rightarrow> AuthUserRow) \<Rightarrow> AuthDb \<Rightarrow> AuthDb" where
  "update_users p f db = db \<lparr> ad_users := map (\<lambda>u. if p u then f u else u) (ad_users db) \<rparr>"

definition update_user_status ::
  "auth_env \<Rightarrow> uuid \<Rightarrow> UserStatus \<Rightarrow> AuthDb \<Rightarrow> UserRecord option auth_stmt" where
  "update_user_status E i status db =
     auth_attempt E UpdateUserStatus db
       (case live_row db i of
          None \<Rightarrow> (db, Ok None)
        | Some _ \<Rightarrow>
            let db' = update_users (\<lambda>u. uc_id u = i \<and> \<not> uc_deleted u)
                        (\<lambda>u. u \<lparr> uc_status := status, uc_updated_at := av_now E \<rparr>) db
            in (db', auth_find_user_by_id E i db'))"

definition update_user_last_seen_at :: "auth_env \<Rightarrow> uuid \<Rightarrow> instant \<Rightarrow> AuthDb \<Rightarrow> unit auth_stmt" where
  "update_user_last_seen_at E i last_seen_at db =
     auth_attempt E UpdateUserLastSeenAt db
       (update_users (\<lambda>u. uc_id u = i) (\<lambda>u. u \<lparr> uc_last_seen_at := Some last_seen_at, uc_updated_at := av_now E \<rparr>) db, Ok ())"

definition store_one_time_passcode_by_email ::
  "auth_env \<Rightarrow> string \<Rightarrow> string \<Rightarrow> instant \<Rightarrow> AuthDb \<Rightarrow> unit auth_stmt" where
  "store_one_time_passcode_by_email E email passcode_hash expires_at db =
     auth_attempt E StoreOneTimePasscodeByEmail db
       (update_users (\<lambda>u. same_text (uc_email u) email \<and> \<not> uc_deleted u \<and> uc_login_type u = Password)
          (\<lambda>u. u \<lparr> uc_hashed_one_time_passcode := passcode_hash, uc_one_time_passcode_expires_at := Some expires_at,
                   uc_updated_at := av_now E \<rparr>) db, Ok ())"

definition replace_user_password :: "auth_env \<Rightarrow> uuid \<Rightarrow> string \<Rightarrow> bool \<Rightarrow> AuthDb \<Rightarrow> bool auth_stmt" where
  "replace_user_password E i password_hash clear db =
     auth_attempt E ReplaceUserPassword db
       (case live_row db i of
          None \<Rightarrow> (db, Ok False)
        | Some _ \<Rightarrow>
            ((update_users (\<lambda>u. uc_id u = i \<and> \<not> uc_deleted u)
                (\<lambda>u. u \<lparr> uc_hashed_password := password_hash,
                         uc_hashed_one_time_passcode := (if clear then [] else uc_hashed_one_time_passcode u),
                         uc_one_time_passcode_expires_at := (if clear then None else uc_one_time_passcode_expires_at u),
                         uc_updated_at := av_now E \<rparr>) db)
               \<lparr> ad_sessions := filter (\<lambda>(h, u). u \<noteq> i) (ad_sessions db),
                 ad_keys := filter (\<lambda>k. ak_user_id k \<noteq> i) (ad_keys db) \<rparr>, Ok True))"

definition auth_list_user_memberships :: "auth_env \<Rightarrow> uuid \<Rightarrow> AuthDb \<Rightarrow> (StorageError, MemberRow list) result" where
  "auth_list_user_memberships E i db =
     auth_query E AuthListUserMemberships
       (case live_row db i of None \<Rightarrow> [] | Some _ \<Rightarrow> filter (\<lambda>m. om_user_id m = i) (ad_members db))"

section \<open>Sessions\<close>

definition insert_auth_session :: "auth_env \<Rightarrow> byte list \<Rightarrow> uuid \<Rightarrow> AuthDb \<Rightarrow> unit auth_stmt" where
  "insert_auth_session E token_hash user_id db =
     auth_attempt E InsertAuthSession db
       (if token_hash \<in> fst ` set (ad_sessions db) \<or> user_id \<notin> uc_id ` set (ad_users db)
        then (db, Err (av_reject E))
        else (db \<lparr> ad_sessions := ad_sessions db @ [(token_hash, user_id)] \<rparr>, Ok ()))"

definition session_user :: "uuid_codec \<Rightarrow> byte list \<Rightarrow> AuthDb \<Rightarrow> AuthenticatedUser option" where
  "session_user U token_hash db =
     (case map_of (ad_sessions db) token_hash of
        None \<Rightarrow> None
      | Some i \<Rightarrow>
          map_option (\<lambda>r. (authenticated_from (user_record_from_row db r)) \<lparr> au_org_roles := org_roles_of U db i \<rparr>)
            (live_row db i))"

definition find_user_by_session_token_hash ::
  "auth_env \<Rightarrow> byte list \<Rightarrow> AuthDb \<Rightarrow> (StorageError, AuthenticatedUser option) result" where
  "find_user_by_session_token_hash E token_hash db =
     auth_query E FindUserBySessionTokenHash (session_user (av_codec E) token_hash db)"

definition delete_auth_session :: "auth_env \<Rightarrow> byte list \<Rightarrow> AuthDb \<Rightarrow> bool auth_stmt" where
  "delete_auth_session E token_hash db =
     auth_attempt E DeleteAuthSession db
       (db \<lparr> ad_sessions := filter (\<lambda>(h, u). h \<noteq> token_hash) (ad_sessions db) \<rparr>,
        Ok (token_hash \<in> fst ` set (ad_sessions db)))"

section \<open>API keys\<close>

definition find_key :: "string \<Rightarrow> AuthDb \<Rightarrow> ApiKeyRecord option" where
  "find_key i db = find (\<lambda>k. ak_id k = i) (ad_keys db)"

definition find_api_key_by_id :: "auth_env \<Rightarrow> string \<Rightarrow> AuthDb \<Rightarrow> (StorageError, ApiKeyRecord option) result" where
  "find_api_key_by_id E i db = auth_query E FindApiKeyById (find_key i db)"

definition find_api_key_by_name :: "auth_env \<Rightarrow> uuid \<Rightarrow> string \<Rightarrow> AuthDb \<Rightarrow> (StorageError, ApiKeyRecord option) result" where
  "find_api_key_by_name E user token_name db =
     auth_query E FindApiKeyByName
       (find (\<lambda>k. ak_user_id k = user \<and> ak_token_name k = token_name \<and> ak_token_name k \<noteq> []) (ad_keys db))"

definition list_api_keys :: "auth_env \<Rightarrow> ApiKeyListFilter \<Rightarrow> AuthDb \<Rightarrow> (StorageError, ApiKeyWithOwnerRecord list) result" where
  "list_api_keys E flt db =
     auth_query E ListApiKeys (av_order E
       [\<lparr> ko_key = k, ko_username = uc_username u \<rparr>.
          k \<leftarrow> ad_keys db, ak_login_type k = kf_login_type flt \<and>
             (case kf_user_id flt of None \<Rightarrow> True | Some i \<Rightarrow> ak_user_id k = i) \<and>
             (kf_include_expired flt \<or> av_now E < ak_expires_at k),
          u \<leftarrow> ad_users db, uc_id u = ak_user_id k])"

definition key_of_input :: "CreateApiKeyInput \<Rightarrow> ApiKeyRecord" where
  "key_of_input i =
     \<lparr> ak_id = ck_id i, ak_hashed_secret = ck_hashed_secret i, ak_user_id = ck_user_id i, ak_last_used = ck_last_used i,
        ak_expires_at = ck_expires_at i, ak_created_at = ck_created_at i, ak_updated_at = ck_updated_at i,
        ak_login_type = ck_login_type i, ak_scopes = ck_scopes i, ak_token_name = ck_token_name i,
        ak_lifetime_seconds = ck_lifetime_seconds i, ak_allow_list = ck_allow_list i \<rparr>"

definition key_taken :: "AuthDb \<Rightarrow> CreateApiKeyInput \<Rightarrow> bool" where
  "key_taken db i \<longleftrightarrow>
     (\<exists>k \<in> set (ad_keys db). ak_id k = ck_id i \<or>
        ak_user_id k = ck_user_id i \<and> ak_token_name k \<noteq> [] \<and> ck_token_name i \<noteq> [] \<and> same_text (ak_token_name k) (ck_token_name i))"

definition create_api_key ::
  "auth_env \<Rightarrow> CreateApiKeyInput \<Rightarrow> AuthDb \<Rightarrow> AuthDb \<times> (CreateApiKeyStoreError, ApiKeyRecord) result" where
  "create_api_key E input db =
     (case av_fault E CreateApiKey of
        Some e \<Rightarrow> (db, Err (ApiKeyStorage e))
      | None \<Rightarrow>
          if key_taken db input then (db, Err DuplicateTokenName)
          else if ck_user_id input \<notin> uc_id ` set (ad_users db) then (db, Err (ApiKeyStorage (av_reject E)))
          else
            let db' = db \<lparr> ad_keys := ad_keys db @ [key_of_input input] \<rparr>
            in (db', case find_api_key_by_id E (ck_id input) db' of
                       Inl e \<Rightarrow> Err (ApiKeyStorage e)
                     | Inr None \<Rightarrow> Err (ApiKeyStorage (InvalidData ''inserted API key could not be reloaded''))
                     | Inr (Some k) \<Rightarrow> Ok k))"

definition delete_api_key :: "auth_env \<Rightarrow> string \<Rightarrow> AuthDb \<Rightarrow> bool auth_stmt" where
  "delete_api_key E i db =
     auth_attempt E DeleteApiKey db
       (db \<lparr> ad_keys := filter (\<lambda>k. ak_id k \<noteq> i) (ad_keys db) \<rparr>, Ok (find_key i db \<noteq> None))"

definition update_key :: "string \<Rightarrow> (ApiKeyRecord \<Rightarrow> ApiKeyRecord) \<Rightarrow> AuthDb \<Rightarrow> AuthDb" where
  "update_key i f db = db \<lparr> ad_keys := map (\<lambda>k. if ak_id k = i then f k else k) (ad_keys db) \<rparr>"

definition expire_api_key :: "auth_env \<Rightarrow> string \<Rightarrow> instant \<Rightarrow> AuthDb \<Rightarrow> bool auth_stmt" where
  "expire_api_key E i now db =
     auth_attempt E ExpireApiKey db
       (update_key i (\<lambda>k. k \<lparr> ak_expires_at := now, ak_updated_at := now \<rparr>) db, Ok (find_key i db \<noteq> None))"

definition update_api_key_last_used :: "auth_env \<Rightarrow> string \<Rightarrow> instant \<Rightarrow> instant \<Rightarrow> AuthDb \<Rightarrow> unit auth_stmt" where
  "update_api_key_last_used E i last_used expires_at db =
     auth_attempt E UpdateApiKeyLastUsed db
       (update_key i (\<lambda>k. k \<lparr> ak_last_used := last_used, ak_expires_at := expires_at, ak_updated_at := av_now E \<rparr>) db, Ok ())"

section \<open>Token configuration\<close>

definition REGULAR_MAX_TOKEN_LIFETIME_SECS :: int where "REGULAR_MAX_TOKEN_LIFETIME_SECS = 60 * 60 * 24 * 30"
definition OWNER_MAX_TOKEN_LIFETIME_SECS :: int where "OWNER_MAX_TOKEN_LIFETIME_SECS = 60 * 60 * 24 * 365"

definition token_config :: "auth_env \<Rightarrow> uuid \<Rightarrow> AuthDb \<Rightarrow> (StorageError, int) result" where
  "token_config E i db =
     auth_query E TokenConfigOf
       (if list_ex (\<lambda>u. uc_id u = i \<and> ''owner'' \<in> set (uc_rbac_roles u) \<and> \<not> uc_deleted u) (ad_users db)
        then secs OWNER_MAX_TOKEN_LIFETIME_SECS else secs REGULAR_MAX_TOKEN_LIFETIME_SECS)"

end
