(* ===== verification/Dbauthz.thy ===== *)
theory Dbauthz
  imports Rbac_Properties Workspace_Store Auth_Tables
begin

text \<open>
  The authorising wrapper around the store, \<open>crates/coder-db/src/dbauthz.rs\<close>: every operation asks the
  authorizer and then calls the operation of the same name of the inner store. The inner store is a type
  parameter of the source; its methods are arguments here, functions on the inner store's state, and
  the workspace methods are put together with the statements of \<open>Workspace_Store\<close>.
\<close>

section \<open>Inputs and errors\<close>

record CreateTemplateInput =
  ct_id :: uuid
  ct_created_at :: instant
  ct_updated_at :: instant
  ct_organization_id :: uuid
  ct_name :: string
  ct_display_name :: string
  ct_provisioner :: string
  ct_active_version_id :: uuid
  ct_description :: string
  ct_default_ttl :: int
  ct_created_by :: uuid
  ct_icon :: string
  ct_allow_user_cancel_workspace_jobs :: bool
  ct_allow_user_autostart :: bool
  ct_allow_user_autostop :: bool
  ct_failure_ttl :: int
  ct_time_til_dormant :: int
  ct_time_til_dormant_autodelete :: int
  ct_require_active_version :: bool
  ct_activity_bump :: int
  ct_max_port_share_level :: string

record CreateTemplateVersionInput =
  cv_id :: uuid
  cv_template_id :: "uuid option"
  cv_organization_id :: uuid
  cv_created_at :: instant
  cv_updated_at :: instant
  cv_name :: string
  cv_message :: string
  cv_readme :: string
  cv_job_id :: uuid
  cv_created_by :: uuid
  cv_source_example_id :: "string option"

record UpdateTemplateMetaInput =
  um_template_id :: uuid
  um_name :: string
  um_display_name :: string
  um_description :: string
  um_icon :: string
  um_default_ttl :: int
  um_activity_bump :: int
  um_allow_user_autostart :: bool
  um_allow_user_autostop :: bool
  um_allow_user_cancel_workspace_jobs :: bool
  um_failure_ttl :: int
  um_time_til_dormant :: int
  um_time_til_dormant_autodelete :: int
  um_require_active_version :: bool
  um_deprecation_message :: string
  um_max_port_share_level :: string
  um_cors_behavior :: string
  um_use_classic_parameter_flow :: bool
  um_disable_module_cache :: bool

datatype CreateTemplateStoreError = TemplateAlreadyExists | TemplateStorage StorageError
datatype CreateUserStoreError = UserAlreadyExists | UserStorage StorageError

datatype DbAuthzError =
    AuthzForbidden string
  | AuthzStorage StorageError
  | TemplateCreate CreateTemplateStoreError
  | UserCreate CreateUserStoreError
  | ApiKeyCreate CreateApiKeyStoreError

fun from_template_error :: "CreateTemplateStoreError \<Rightarrow> DbAuthzError" where
  "from_template_error (TemplateStorage e) = AuthzStorage e"
| "from_template_error e = TemplateCreate e"

fun from_user_error :: "CreateUserStoreError \<Rightarrow> DbAuthzError" where
  "from_user_error (UserStorage e) = AuthzStorage e"
| "from_user_error e = UserCreate e"

fun from_api_key_error :: "CreateApiKeyStoreError \<Rightarrow> DbAuthzError" where
  "from_api_key_error (ApiKeyStorage e) = AuthzStorage e"
| "from_api_key_error e = ApiKeyCreate e"

section \<open>The wrapper\<close>

type_synonym ('s, 'e, 'a) store_op = "'s \<Rightarrow> 's \<times> ('e, 'a) result"

record Authorized =
  az_actor :: Actor

definition authorized_new :: "Actor \<Rightarrow> Authorized" where
  "authorized_new actor = \<lparr> az_actor = actor \<rparr>"

definition authorize_action :: "uuid_codec \<Rightarrow> Authorized \<Rightarrow> Action \<Rightarrow> Object \<Rightarrow> (DbAuthzError, unit) result" where
  "authorize_action U az action object =
     (case authorize U (az_actor az) action object of
        Inl e \<Rightarrow> Err (AuthzForbidden (message e))
      | Inr x \<Rightarrow> Ok x)"

definition authorize_read_resource :: "uuid_codec \<Rightarrow> Authorized \<Rightarrow> ResourceType \<Rightarrow> (DbAuthzError, unit) result" where
  "authorize_read_resource U az rt =
     (let object = Object_new rt in
      case authorize U (az_actor az) Read object of
        Inl e \<Rightarrow> Err (AuthzForbidden (message e))
      | Inr x \<Rightarrow> Ok x)"

text \<open>The shape of every operation: check, return the refusal, or call the inner operation and convert its error.\<close>

definition delegate ::
  "(DbAuthzError, unit) result \<Rightarrow> ('e \<Rightarrow> DbAuthzError) \<Rightarrow> ('s, 'e, 'a) store_op \<Rightarrow> ('s, DbAuthzError, 'a) store_op" where
  "delegate check from inner s =
     (case check of
        Inl e \<Rightarrow> (s, Err e)
      | Inr _ \<Rightarrow> let (s', r) = inner s in (s', case r of Inl e \<Rightarrow> Err (from e) | Inr x \<Rightarrow> Ok x))"

subsection \<open>Lists\<close>

definition authz_list_workspaces where
  "authz_list_workspaces U az (inner :: 'f \<Rightarrow> ('s, StorageError, 'a) store_op) flt =
     delegate (authorize_read_resource U az Workspace) AuthzStorage (inner flt)"

definition authz_list_templates where
  "authz_list_templates U az (inner :: 'f \<Rightarrow> ('s, StorageError, 'a) store_op) flt =
     delegate (authorize_read_resource U az Template) AuthzStorage (inner flt)"

definition authz_list_users where
  "authz_list_users U az (inner :: 'f \<Rightarrow> ('s, StorageError, 'a) store_op) flt =
     delegate (authorize_read_resource U az User) AuthzStorage (inner flt)"

definition authz_list_audit_logs where
  "authz_list_audit_logs U az (inner :: 'f \<Rightarrow> ('s, StorageError, 'a) store_op) flt =
     delegate (authorize_read_resource U az AuditLog) AuthzStorage (inner flt)"

subsection \<open>Workspaces and builds\<close>

definition authz_insert_workspace where
  "authz_insert_workspace U az (inner :: CreateWorkspaceInput \<Rightarrow> ('s, StorageError, 'a) store_op) input =
     (let object = in_org (with_owner (Object_new Workspace) (cw_owner_id input)) (cw_organization_id input)
      in delegate (authorize_action U az Create object) AuthzStorage (inner input))"

definition authz_update_workspace_last_used_at where
  "authz_update_workspace_last_used_at U az (inner :: uuid \<Rightarrow> instant \<Rightarrow> ('s, StorageError, 'a) store_op)
     workspace_id last_used_at =
     (let object = with_id (Object_new Workspace) workspace_id
      in delegate (authorize_action U az Update object) AuthzStorage (inner workspace_id last_used_at))"

definition authz_update_workspace_dormant_deleting_at where
  "authz_update_workspace_dormant_deleting_at U az
     (inner :: uuid \<Rightarrow> instant option \<Rightarrow> ('s, StorageError, 'a) store_op) workspace_id dormant_at =
     (let object = with_id (Object_new Workspace) workspace_id
      in delegate (authorize_action U az Update object) AuthzStorage (inner workspace_id dormant_at))"

definition authz_soft_delete_workspace where
  "authz_soft_delete_workspace U az (inner :: uuid \<Rightarrow> ('s, StorageError, 'a) store_op) workspace_id =
     (let object = with_id (Object_new Workspace) workspace_id
      in delegate (authorize_action U az Delete object) AuthzStorage (inner workspace_id))"

definition authz_insert_workspace_build where
  "authz_insert_workspace_build U az (inner :: CreateWorkspaceBuildInput \<Rightarrow> ('s, StorageError, 'a) store_op) input =
     (let object = with_id (Object_new Workspace) (cb_workspace_id input)
      in delegate (authorize_action U az Create object) AuthzStorage (inner input))"

definition authz_update_workspace_build_deadline where
  "authz_update_workspace_build_deadline U az
     (inner :: uuid \<Rightarrow> instant option \<Rightarrow> instant option \<Rightarrow> ('s, StorageError, 'a) store_op)
     build_id deadline max_deadline =
     (let object = Object_new Workspace
      in delegate (authorize_action U az Update object) AuthzStorage (inner build_id deadline max_deadline))"

subsection \<open>Templates\<close>

definition authz_insert_template where
  "authz_insert_template U az (inner :: CreateTemplateInput \<Rightarrow> ('s, CreateTemplateStoreError, 'a) store_op) input =
     (let object = in_org (Object_new Template) (ct_organization_id input)
      in delegate (authorize_action U az Create object) from_template_error (inner input))"

definition authz_update_template_meta where
  "authz_update_template_meta U az (inner :: UpdateTemplateMetaInput \<Rightarrow> ('s, StorageError, 'a) store_op) input =
     (let object = with_id (Object_new Template) (um_template_id input)
      in delegate (authorize_action U az Update object) AuthzStorage (inner input))"

definition authz_update_template_active_version where
  "authz_update_template_active_version U az (inner :: uuid \<Rightarrow> uuid \<Rightarrow> ('s, StorageError, 'a) store_op)
     template_id active_version_id =
     (let object = with_id (Object_new Template) template_id
      in delegate (authorize_action U az Update object) AuthzStorage (inner template_id active_version_id))"

definition authz_soft_delete_template where
  "authz_soft_delete_template U az (inner :: uuid \<Rightarrow> ('s, StorageError, 'a) store_op) template_id =
     (let object = with_id (Object_new Template) template_id
      in delegate (authorize_action U az Delete object) AuthzStorage (inner template_id))"

definition authz_update_template_acl where
  "authz_update_template_acl U az (inner :: uuid \<Rightarrow> 'i \<Rightarrow> ('s, StorageError, 'a) store_op) template_id input =
     (let object = with_id (Object_new Template) template_id
      in delegate (authorize_action U az Update object) AuthzStorage (inner template_id input))"

definition authz_insert_template_version where
  "authz_insert_template_version U az (inner :: CreateTemplateVersionInput \<Rightarrow> ('s, StorageError, 'a) store_op) input =
     (let object = in_org (Object_new Template) (cv_organization_id input);
          object = (case cv_template_id input of Some template_id \<Rightarrow> with_id object template_id | None \<Rightarrow> object)
      in delegate (authorize_action U az Create object) AuthzStorage (inner input))"

subsection \<open>Users and API keys\<close>

definition authz_create_user where
  "authz_create_user U az (inner :: 'i \<Rightarrow> ('s, CreateUserStoreError, 'a) store_op) input =
     (let object = Object_new User
      in delegate (authorize_action U az Create object) from_user_error (inner input))"

definition authz_update_user_profile where
  "authz_update_user_profile U az (inner :: uuid \<Rightarrow> string \<Rightarrow> string \<Rightarrow> ('s, StorageError, 'a) store_op)
     user_id username name =
     (let object = with_id (Object_new User) user_id
      in delegate (authorize_action U az Update object) AuthzStorage (inner user_id username name))"

definition authz_update_user_status where
  "authz_update_user_status U az (inner :: uuid \<Rightarrow> 'i \<Rightarrow> ('s, StorageError, 'a) store_op) user_id status =
     (let object = with_id (Object_new User) user_id
      in delegate (authorize_action U az Update object) AuthzStorage (inner user_id status))"

definition authz_update_user_roles where
  "authz_update_user_roles U az (inner :: uuid \<Rightarrow> string list \<Rightarrow> ('s, StorageError, 'a) store_op) user_id roles =
     (let object = with_id (Object_new User) user_id
      in delegate (authorize_action U az Update object) AuthzStorage (inner user_id roles))"

definition authz_soft_delete_user where
  "authz_soft_delete_user U az (inner :: uuid \<Rightarrow> ('s, StorageError, 'a) store_op) user_id =
     (let object = with_id (Object_new User) user_id
      in delegate (authorize_action U az Delete object) AuthzStorage (inner user_id))"

definition authz_replace_user_password where
  "authz_replace_user_password U az (inner :: uuid \<Rightarrow> string \<Rightarrow> bool \<Rightarrow> ('s, StorageError, 'a) store_op)
     user_id password_hash clear_one_time_passcode =
     (let object = with_id (Object_new User) user_id
      in delegate (authorize_action U az Update object) AuthzStorage
           (inner user_id password_hash clear_one_time_passcode))"

definition authz_create_api_key where
  "authz_create_api_key U az (inner :: CreateApiKeyInput \<Rightarrow> ('s, CreateApiKeyStoreError, 'a) store_op) input =
     (let object = with_owner (Object_new ApiKey) (ck_user_id input)
      in delegate (authorize_action U az Create object) from_api_key_error (inner input))"

definition authz_update_api_key_last_used where
  "authz_update_api_key_last_used U az (inner :: string \<Rightarrow> instant \<Rightarrow> instant \<Rightarrow> ('s, StorageError, 'a) store_op)
     key last_used expires_at =
     (let object = Object_new ApiKey
      in delegate (authorize_action U az Update object) AuthzStorage (inner key last_used expires_at))"

definition authz_delete_api_key where
  "authz_delete_api_key U az (inner :: string \<Rightarrow> ('s, StorageError, 'a) store_op) key =
     (let object = Object_new ApiKey
      in delegate (authorize_action U az Delete object) AuthzStorage (inner key))"

section \<open>A reference monitor\<close>

text \<open>
  What a guarded interface promises: a refused call leaves the state alone and reports the refusal,
  an allowed call is the inner call. Then a run of guarded calls is the run of the allowed ones.
\<close>

locale reference_monitor =
  fixes guarded :: "'c \<Rightarrow> ('s, 'e, 'a) store_op" and inner :: "'c \<Rightarrow> ('s, 'f, 'a) store_op"
    and allowed :: "'c \<Rightarrow> bool" and refusal :: "'e \<Rightarrow> bool"
  assumes refused: "\<not> allowed c \<Longrightarrow> \<exists>e. guarded c s = (s, Err e) \<and> refusal e"
    and passed: "allowed c \<Longrightarrow> fst (guarded c s) = fst (inner c s)"
    and passed_ok: "allowed c \<Longrightarrow> snd (guarded c s) = Ok x \<longleftrightarrow> snd (inner c s) = Ok x"
begin

definition run :: "'c list \<Rightarrow> 's \<Rightarrow> 's" where
  "run cs = fold (\<lambda>c s. fst (guarded c s)) cs"

lemma run_filter: "run cs s = fold (\<lambda>c s. fst (inner c s)) (filter allowed cs) s"
proof (induction cs arbitrary: s)
  case (Cons c cs)
  show ?case
  proof (cases "allowed c")
    case True
    with Cons.IH show ?thesis by (simp add: run_def passed)
  next
    case False
    from refused [OF this, of s] have "fst (guarded c s) = s" by auto
    with False Cons.IH show ?thesis by (simp add: run_def)
  qed
qed (simp add: run_def)

lemma run_keeps:
  assumes "P s" and "\<And>c s. allowed c \<Longrightarrow> P s \<Longrightarrow> P (fst (inner c s))"
  shows "P (run cs s)"
  unfolding run_filter
  by (rule fold_invariant [where Q = allowed]) (use assms in auto)

end

section \<open>Mutations of workspaces\<close>

datatype WorkspaceMutation =
    InsertOne CreateWorkspaceInput
  | TouchOne uuid instant
  | DormantOne uuid "instant option"
  | DeleteOne uuid
  | BuildOne CreateWorkspaceBuildInput
  | DeadlineOne uuid "instant option" "instant option"

datatype MutationReply =
    RowReply WorkspaceRecord | RowOptionReply "WorkspaceRecord option" | FlagReply bool
  | BuildReply WorkspaceBuildRecord

definition reply :: "('a \<Rightarrow> MutationReply) \<Rightarrow> 's \<times> ('e, 'a) result \<Rightarrow> 's \<times> ('e, MutationReply) result" where
  "reply f = (\<lambda>(s, r). (s, case r of Inl e \<Rightarrow> Err e | Inr x \<Rightarrow> Ok (f x)))"

fun inner_mutation :: "'j ws_env \<Rightarrow> WorkspaceMutation \<Rightarrow> ('j WorkspaceDb, StorageError, MutationReply) store_op" where
  "inner_mutation E (InsertOne input) db = reply RowReply (insert_workspace E input db)"
| "inner_mutation E (TouchOne i t) db = reply FlagReply (update_workspace_last_used_at E i t db)"
| "inner_mutation E (DormantOne i t) db = reply RowOptionReply (update_workspace_dormant_deleting_at E i t db)"
| "inner_mutation E (DeleteOne i) db = reply FlagReply (soft_delete_workspace E i db)"
| "inner_mutation E (BuildOne input) db = reply BuildReply (insert_workspace_build E input db)"
| "inner_mutation E (DeadlineOne i d m) db = reply FlagReply (update_workspace_build_deadline E i d m db)"

fun guarded_mutation ::
  "uuid_codec \<Rightarrow> 'j ws_env \<Rightarrow> Authorized \<Rightarrow> WorkspaceMutation \<Rightarrow> ('j WorkspaceDb, DbAuthzError, MutationReply) store_op" where
  "guarded_mutation U E az (InsertOne input) db =
     reply RowReply (authz_insert_workspace U az (insert_workspace E) input db)"
| "guarded_mutation U E az (TouchOne i t) db =
     reply FlagReply (authz_update_workspace_last_used_at U az (update_workspace_last_used_at E) i t db)"
| "guarded_mutation U E az (DormantOne i t) db =
     reply RowOptionReply (authz_update_workspace_dormant_deleting_at U az (update_workspace_dormant_deleting_at E) i t db)"
| "guarded_mutation U E az (DeleteOne i) db =
     reply FlagReply (authz_soft_delete_workspace U az (soft_delete_workspace E) i db)"
| "guarded_mutation U E az (BuildOne input) db =
     reply BuildReply (authz_insert_workspace_build U az (insert_workspace_build E) input db)"
| "guarded_mutation U E az (DeadlineOne i d m) db =
     reply FlagReply (authz_update_workspace_build_deadline U az (update_workspace_build_deadline E) i d m db)"

text \<open>The policy: on which object each mutation needs which action.\<close>

fun mutation_action :: "WorkspaceMutation \<Rightarrow> Action" where
  "mutation_action (InsertOne _) = Create"
| "mutation_action (TouchOne _ _) = Update"
| "mutation_action (DormantOne _ _) = Update"
| "mutation_action (DeleteOne _) = Delete"
| "mutation_action (BuildOne _) = Create"
| "mutation_action (DeadlineOne _ _ _) = Update"

fun mutation_object :: "WorkspaceMutation \<Rightarrow> Object" where
  "mutation_object (InsertOne input) =
     in_org (with_owner (Object_new Workspace) (cw_owner_id input)) (cw_organization_id input)"
| "mutation_object (TouchOne i _) = with_id (Object_new Workspace) i"
| "mutation_object (DormantOne i _) = with_id (Object_new Workspace) i"
| "mutation_object (DeleteOne i) = with_id (Object_new Workspace) i"
| "mutation_object (BuildOne input) = with_id (Object_new Workspace) (cb_workspace_id input)"
| "mutation_object (DeadlineOne _ _ _) = Object_new Workspace"

definition mutation_allowed :: "uuid_codec \<Rightarrow> Actor \<Rightarrow> WorkspaceMutation \<Rightarrow> bool" where
  "mutation_allowed U actor c \<longleftrightarrow> permitted U actor (mutation_action c) (mutation_object c)"

lemma authorize_permitted: "is_ok (authorize U actor action obj) \<longleftrightarrow> permitted U actor action obj"
  by (simp add: authorize_Ok_iff permitted_def allows_object_iff Let_def)

lemma authorize_action_cases:
  "authorize_action U az action obj =
     (if permitted U (az_actor az) action obj then Ok ()
      else Err (AuthzForbidden (message (projl (authorize U (az_actor az) action obj)))))"
  by (cases "authorize U (az_actor az) action obj")
    (simp_all add: authorize_action_def flip: authorize_permitted)

lemma delegate_outcome:
  "is_ok check \<Longrightarrow> fst (delegate check from inner s) = fst (inner s)"
  "\<not> is_ok check \<Longrightarrow> fst (delegate check from inner s) = s"
  "\<not> is_ok check \<Longrightarrow> \<not> is_ok (snd (delegate check from inner s))"
  by (cases check; simp add: delegate_def split: prod.split)+

lemma reply_delegate:
  "reply f (delegate (Ok ()) from inner s) =
     (fst (inner s), case snd (inner s) of Inl e \<Rightarrow> Err (from e) | Inr x \<Rightarrow> Ok (f x))"
  "reply f (delegate (Err e) from inner s) = (s, Err e)"
  by (simp_all add: delegate_def reply_def split: prod.split sum.split)

lemma reply_fst_snd: "reply f x = (fst x, case snd x of Inl e \<Rightarrow> Err e | Inr y \<Rightarrow> Ok (f y))"
  by (simp add: reply_def split: prod.split)

lemmas authz_workspace_defs = authz_insert_workspace_def authz_update_workspace_last_used_at_def
  authz_update_workspace_dormant_deleting_at_def authz_soft_delete_workspace_def
  authz_insert_workspace_build_def authz_update_workspace_build_deadline_def

lemma guarded_mutation_cases:
  "guarded_mutation U E az c s =
     (if mutation_allowed U (az_actor az) c
      then (fst (inner_mutation E c s), map_sum AuthzStorage id (snd (inner_mutation E c s)))
      else (s, Err (AuthzForbidden (message (projl (authorize U (az_actor az) (mutation_action c) (mutation_object c)))))))"
proof (cases "mutation_allowed U (az_actor az) c")
  case True
  have conv: "(case r of Inl e \<Rightarrow> Err (AuthzStorage e) | Inr x \<Rightarrow> Ok (f x)) =
      map_sum AuthzStorage id (case r of Inl e \<Rightarrow> Err e | Inr x \<Rightarrow> Ok (f x))" for r :: "(StorageError, 'b) result" and f :: "'b \<Rightarrow> MutationReply"
    by (cases r) simp_all
  from True have ok: "authorize_action U az (mutation_action c) (mutation_object c) = Ok ()"
    by (simp add: authorize_action_cases mutation_allowed_def)
  show ?thesis
    using True ok
    by (cases c) (simp_all add: authz_workspace_defs Let_def reply_delegate(1) conv
        reply_fst_snd [of _ "insert_workspace E _ s"] reply_fst_snd [of _ "update_workspace_last_used_at E _ _ s"]
        reply_fst_snd [of _ "update_workspace_dormant_deleting_at E _ _ s"]
        reply_fst_snd [of _ "soft_delete_workspace E _ s"] reply_fst_snd [of _ "insert_workspace_build E _ s"]
        reply_fst_snd [of _ "update_workspace_build_deadline E _ _ _ s"])
next
  case False
  then have "authorize_action U az (mutation_action c) (mutation_object c) =
      Err (AuthzForbidden (message (projl (authorize U (az_actor az) (mutation_action c) (mutation_object c)))))"
    by (simp add: authorize_action_cases mutation_allowed_def)
  with False show ?thesis
    by (cases c) (simp_all add: authz_workspace_defs Let_def reply_delegate(2))
qed

lemma map_sum_Ok: "map_sum f id r = Ok x \<longleftrightarrow> r = Ok x"
  by (cases r) simp_all

interpretation wsm: reference_monitor "guarded_mutation U E az" "inner_mutation E"
  "mutation_allowed U (az_actor az)" "\<lambda>e. \<exists>m. e = AuthzForbidden m"
  by unfold_locales (simp_all add: guarded_mutation_cases map_sum_Ok)


section \<open>Keys of workspace agents\<close>

lemma permitted_scope: "permitted U actor action obj \<Longrightarrow> allows_object U (effective_scope actor) obj"
  by (simp add: permitted_def allows_object_iff Let_def)

lemma agent_mutations:
  assumes "uuid_text U" and "a_scope_override actor = Some (scope_workspace_agent U w t ow b)"
    and "mutation_allowed U actor c"
  shows "(\<exists>d. c = TouchOne w d) \<or> (\<exists>d. c = DormantOne w d) \<or> c = DeleteOne w \<or>
    (\<exists>input. c = BuildOne input \<and> cb_workspace_id input = w)"
proof -
  have "allows_object U (scope_workspace_agent U w t ow b) (mutation_object c)"
    using permitted_scope assms(2,3) by (fastforce simp: mutation_allowed_def effective_scope_def)
  then show ?thesis
    by (cases c) (auto simp: uuid_text.agent_allows_object [OF assms(1)] object_defs)
qed

definition others :: "uuid \<Rightarrow> 'j WorkspaceDb \<Rightarrow> WorkspaceRecord list \<times> WorkspaceBuildRecord list \<times> 'j ProvisionerDb" where
  "others w db =
     (filter (\<lambda>r. w_id r \<noteq> w) (wd_workspaces db), filter (\<lambda>r. b_workspace_id r \<noteq> w) (wd_builds db), wd_prov db)"

lemma filter_map_other: "(\<And>r. k r \<noteq> w \<Longrightarrow> f r = r) \<Longrightarrow> (\<And>r. k (f r) = k r) \<Longrightarrow>
    filter (\<lambda>r. k r \<noteq> w) (map f rs) = filter (\<lambda>r. k r \<noteq> w) rs"
  by (induction rs) auto

lemma others_statements:
  "others w (fst (update_workspace_last_used_at E w d db)) = others w db"
  "others w (fst (update_workspace_dormant_deleting_at E w d' db)) = others w db"
  "others w (fst (soft_delete_workspace E w db)) = others w db"
  "cb_workspace_id input = w \<Longrightarrow> others w (fst (insert_workspace_build E input db)) = others w db"
     apply (simp add: others_def update_workspace_last_used_at_def ws_attempt_def update_live_def live_def filter_map_other
      split: option.split)
    apply (simp add: others_def update_workspace_dormant_deleting_at_def ws_attempt_def live_def Let_def
      filter_map_other dormant_target_def set_dormant_def split: option.split)
   apply (simp add: others_def soft_delete_workspace_def ws_attempt_def update_live_def live_def filter_map_other
      split: option.split)
  apply (simp add: others_def insert_workspace_build_def ws_attempt_def Let_def split: option.split)
  done

text \<open>
  C6. The key of a workspace agent reaches no other workspace: whatever mutations are sent through the
  wrapper under a key that is scoped to one workspace, and whatever roles its owner has, every other
  workspace, every build of another workspace and every job stay as they are, and no workspace is created.
\<close>

theorem agent_key_touches_one_workspace:
  assumes "uuid_text U" and "a_scope_override actor = Some (scope_workspace_agent U w t ow block_user_data)"
  shows "others w (fold (\<lambda>c db. fst (guarded_mutation U E (authorized_new actor) c db)) cs db) = others w db"
  unfolding wsm.run_def [symmetric]
proof (rule wsm.run_keeps)
  fix c db'
  assume c: "mutation_allowed U (az_actor (authorized_new actor)) c" and IH: "others w db' = others w db"
  have "mutation_allowed U actor c" using c by (simp add: authorized_new_def)
  from agent_mutations [OF assms this] show "others w (fst (inner_mutation E c db')) = others w db"
    by (elim disjE exE conjE) (simp_all add: reply_fst_snd others_statements IH)
qed simp

theorem agent_key_touches_one_workspace_witness:
  "others 1 (fold (\<lambda>c db. fst (guarded_mutation hyphenated_codec demo_ws_env
       (authorized_new ((owner hyphenated_codec) \<lparr> a_scope_override := Some (scope_workspace_agent hyphenated_codec 1 2 3 True) \<rparr>))
       c db)) [DeleteOne 1, DeleteOne 2, DeadlineOne 40 None None] demo_db) = others 1 demo_db"
  by (rule agent_key_touches_one_workspace [OF hy.uuid_text_axioms]) simp

section \<open>Guards on identifiers\<close>

text \<open>
  A guard that only knows the identifier of an object decides on site level: the scope must admit the
  object and grant the action site-wide, no role the actor holds may deny it site-wide, and some role
  must grant it site-wide. Organization, ownership and access lists play no part.
\<close>

lemma no_org_no_owner:
  assumes "o_org_id obj = None" and "\<not> o_any_org obj" and "o_owner_id obj = None"
  shows "role_grants U role actor action obj \<longleftrightarrow> grants (r_site role) (o_resource_type obj) action"
    and "role_denies U role actor action obj \<longleftrightarrow> denies (r_site role) (o_resource_type obj) action"
  using assms by (simp_all add: role_grants_iff role_denies_iff org_in_reach_simps owns_def)

lemma id_guard_is_site_level:
  "is_ok (authorize_action U az action (with_id (Object_new rt) i)) \<longleftrightarrow>
     (let actor = az_actor az; scope = effective_scope actor in
        allows_object U scope (with_id (Object_new rt) i) \<and> grants (r_site (s_role scope)) rt action \<and>
        \<not> (\<exists>role. holds_role U actor role \<and> denies (r_site role) rt action) \<and>
        (\<exists>role. holds_role U actor role \<and> grants (r_site role) rt action))"
proof -
  let ?o = "with_id (Object_new rt) i"
  have "\<not> acl_entry U (az_actor az) action ?o" by (simp add: acl_entry_def object_defs hm_get_def hm_empty_def)
  moreover have "o_org_id ?o = None" "\<not> o_any_org ?o" "o_owner_id ?o = None" "o_resource_type ?o = rt"
    by (simp_all add: object_defs)
  ultimately show ?thesis
    by (simp add: authorize_action_cases permitted_def allows_object_iff no_org_no_owner Let_def)
qed

definition workspace_object :: "WorkspaceRecord \<Rightarrow> Object" where
  "workspace_object w =
     with_id (in_org (with_owner (Object_new Workspace) (w_owner_id w)) (w_organization_id w)) (w_id w)"

definition banned_owner :: "uuid_codec \<Rightarrow> uuid \<Rightarrow> Actor" where
  "banned_owner U org =
     (owner U) \<lparr> a_org_roles := [org_role_name U ROLE_ORGANIZATION_WORKSPACE_CREATION_BAN org] \<rparr>"

definition plain_member :: "uuid_codec \<Rightarrow> uuid \<Rightarrow> uuid \<Rightarrow> Actor" where
  "plain_member U user org =
     (owner_of U user) \<lparr> a_site_roles := [], a_org_roles := [org_role_name U ROLE_ORGANIZATION_MEMBER org] \<rparr>"

lemma holds_banned_owner:
  assumes "uuid_text U"
  shows "holds_role U (banned_owner U org) role \<longleftrightarrow>
    role = role_owner \<or> role = role_org_workspace_creation_ban U org"
  using uuid_text.expand_org_role_name [OF assms org_names_no_colon(6), of org]
  by (auto simp: holds_role_def banned_owner_def owner_def owner_of_def expand_owner)

lemma holds_plain_member:
  assumes "uuid_text U"
  shows "holds_role U (plain_member U user org) role \<longleftrightarrow> role = role_org_member U org"
  by (rule single_org_role_decides [OF assms, where rn = ROLE_ORGANIZATION_MEMBER and org = org])
    (simp_all add: plain_member_def org_names_no_colon)

lemma banned_owner_scope [simp]: "effective_scope (banned_owner U org) = scope_all"
  by (simp add: banned_owner_def owner_def owner_of_def)

lemma plain_member_scope [simp]: "effective_scope (plain_member U user org) = scope_all"
  by (simp add: plain_member_def owner_of_def)

lemma ban_on_workspace:
  assumes "uuid_text U" and "w_organization_id w = org"
  shows "\<not> is_ok (authorize U (banned_owner U org) Delete (workspace_object w))"
proof -
  have "role_denies U (role_org_workspace_creation_ban U org) (banned_owner U org) Delete (workspace_object w)"
    using assms(2)
    by (simp add: role_denies_iff role_org_workspace_creation_ban_def org_in_reach_simps workspace_object_def object_defs
        hm_defs decide_simps Let_def)
  then show ?thesis using holds_banned_owner [OF assms(1)] by (auto simp: authorize_Ok_iff)
qed

lemma ban_on_id:
  assumes "uuid_text U"
  shows "is_ok (authorize_action U (authorized_new (banned_owner U org)) Delete (with_id (Object_new Workspace) i))"
proof -
  have "grants (r_site role_owner) Workspace Delete" "\<not> denies (r_site role_owner) Workspace Delete"
    "\<not> denies (r_site (role_org_workspace_creation_ban U org)) Workspace Delete"
    by (simp_all add: role_owner_def role_org_workspace_creation_ban_def decide_simps Let_def)
  then show ?thesis
    using holds_banned_owner [OF assms, of org] by (auto simp: id_guard_is_site_level authorized_new_def)
qed

lemma member_on_own_workspace:
  assumes "uuid_text U" and "w_organization_id w = org" and "w_owner_id w = user"
  shows "is_ok (authorize U (plain_member U user org) Update (workspace_object w))"
proof -
  let ?m = "plain_member U user org" and ?r = "role_org_member U org"
  have own: "owns ?m (workspace_object w)"
    using assms(3) by (simp add: owns_def plain_member_def owner_of_def workspace_object_def object_defs)
  obtain ops where ops: "org_in_reach U ?r (workspace_object w) ops" "grants (op_member ops) Workspace Update"
    using assms(2)
    by (auto simp: org_in_reach_simps role_org_member_def workspace_object_def object_defs hm_defs Let_def
        grants_all_perms_except)
  have "\<not> role_denies U ?r ?m Update (workspace_object w)"
    by (auto simp: role_denies_iff role_org_member_def org_in_reach_simps hm_defs Let_def decide_simps)
  moreover have "role_grants U ?r ?m Update (workspace_object w)"
    using own ops by (auto simp: role_grants_iff workspace_object_def object_defs)
  ultimately show ?thesis by (simp add: unscoped_authorize holds_plain_member [OF assms(1)])
qed

lemma member_on_id:
  assumes "uuid_text U"
  shows "\<not> is_ok (authorize_action U (authorized_new (plain_member U user org)) action (with_id (Object_new rt) i))"
proof -
  have "\<not> grants (r_site (role_org_member U org)) rt action" by (simp add: role_org_member_def Let_def)
  then show ?thesis by (simp add: id_guard_is_site_level authorized_new_def holds_plain_member [OF assms] Let_def)
qed

text \<open>
  The guards of the methods that only take an identifier differ from the policy in both directions. A
  site owner who is banned from deleting workspaces of an organization is refused for the workspace as
  an object with its organization, but deletes it through the wrapper; a member who owns a
  workspace may update it, but is refused by the wrapper.
\<close>

theorem id_guard_diverges:
  assumes "uuid_text U"
  shows "\<not> is_ok (authorize U (banned_owner U (w_organization_id w)) Delete (workspace_object w)) \<and>
    fst (authz_soft_delete_workspace U (authorized_new (banned_owner U (w_organization_id w)))
        (soft_delete_workspace E) (w_id w) db) = fst (soft_delete_workspace E (w_id w) db) \<and>
    is_ok (authorize U (plain_member U (w_owner_id w) (w_organization_id w)) Update (workspace_object w)) \<and>
    \<not> is_ok (snd (authz_update_workspace_last_used_at U
        (authorized_new (plain_member U (w_owner_id w) (w_organization_id w)))
        (update_workspace_last_used_at E) (w_id w) t db))"
  using ban_on_workspace ban_on_id member_on_own_workspace member_on_id assms
  by (simp add: authz_soft_delete_workspace_def authz_update_workspace_last_used_at_def delegate_outcome)

theorem id_guard_diverges_witness:
  "\<not> is_ok (authorize hyphenated_codec (banned_owner hyphenated_codec (w_organization_id demo_workspace)) Delete
      (workspace_object demo_workspace)) \<and>
   w_deleted (hd (wd_workspaces (fst (authz_soft_delete_workspace hyphenated_codec
      (authorized_new (banned_owner hyphenated_codec (w_organization_id demo_workspace)))
      (soft_delete_workspace demo_ws_env) (w_id demo_workspace) demo_db))))"
proof -
  have "w_deleted (hd (wd_workspaces (fst (soft_delete_workspace demo_ws_env (w_id demo_workspace) demo_db))))"
    by (simp add: soft_delete_workspace_def ws_attempt_def demo_ws_env_def update_live_def demo_db_def live_def
        demo_workspace_def)
  then show ?thesis
    using id_guard_diverges [OF hy.uuid_text_axioms, of demo_workspace demo_ws_env demo_db] by simp
qed


end
