(* ===== verification/Hex_Text.thy ===== *)
theory Hex_Text
  imports Uuid_Text Byte_Codec
begin

text \<open>Bytes as hexadecimal text: a concrete encoding for the places where the sources call the base64 crate.\<close>

definition hex_text :: "byte list \<Rightarrow> string" where
  "hex_text bs = concat (map (\<lambda>b. hex_digits 2 (unat b)) bs)"

fun hex_bytes :: "string \<Rightarrow> byte list option" where
  "hex_bytes [] = Some []"
| "hex_bytes (a # b # cs) =
     (case (hex_number 0 [a, b], hex_bytes cs) of (Some n, Some bs) \<Rightarrow> Some (of_nat n # bs) | _ \<Rightarrow> None)"
| "hex_bytes [a] = None"

lemma hex_digits_2: "hex_digits 2 n = [hex_digit (n div 16 mod 16), hex_digit (n mod 16)]"
  by (simp add: numeral_2_eq_2)

lemma hex_bytes_text: "hex_bytes (hex_text bs) = Some bs"
proof (induction bs)
  case (Cons b bs)
  have b: "unat b < 256" using unsigned_less [of b] by simp
  have n: "hex_number 0 (hex_digits 2 (unat b)) = Some (unat b)"
    using b by (intro hex_number_digits) simp
  from Cons n show ?case by (simp add: hex_text_def hex_digits_2)
qed (simp add: hex_text_def)

lemma set_hex_text: "set (hex_text bs) \<subseteq> set ''0123456789abcdef''"
proof
  fix c assume "c \<in> set (hex_text bs)"
  then obtain b :: byte where "c \<in> set (hex_digits 2 (unat b))" unfolding hex_text_def by auto
  with set_hex_digits show "c \<in> set ''0123456789abcdef''" by (rule subsetD)
qed

lemma hex_text_Nil: "hex_text bs = [] \<longleftrightarrow> bs = []"
  by (cases bs) (auto simp: hex_text_def hex_digits_2)

end
