(* ===== verification/Pty_Token.thy ===== *)
theory Pty_Token
  imports Hex_Text Rust_Text
begin

text \<open>
  Signed capability tokens for terminal connections, \<open>crates/coder-auth/src/reconnecting_pty.rs\<close>.
  The HMAC and base64 crates are parameters: \<open>te_new\<close> is the fallible construction of a keyed MAC,
  \<open>te_mac\<close> the tag of a message, \<open>te_encode\<close> and \<open>te_decode\<close> the URL-safe base64 engine. What the code
  relies on is that the engine decodes what it encoded, into texts without a dot, and that HMAC
  accepts keys of every length.
\<close>

section \<open>Text as bytes\<close>

definition as_bytes :: "string \<Rightarrow> byte list" where
  "as_bytes s = map (\<lambda>c. of_nat (of_char c)) s"

text \<open>The well-formedness test of \<open>std::str::from_utf8\<close>.\<close>

definition utf8_cont :: "byte \<Rightarrow> bool" where
  "utf8_cont b \<longleftrightarrow> 0x80 \<le> b \<and> b \<le> 0xBF"

fun utf8_valid :: "byte list \<Rightarrow> bool" where
  "utf8_valid [] = True"
| "utf8_valid (a # bs) =
     (if a < 0x80 then utf8_valid bs
      else if 0xC2 \<le> a \<and> a \<le> 0xDF then
        (case bs of b # bs \<Rightarrow> utf8_cont b \<and> utf8_valid bs | _ \<Rightarrow> False)
      else if 0xE0 \<le> a \<and> a \<le> 0xEF then
        (case bs of
           b # c # bs \<Rightarrow>
             utf8_cont b \<and> utf8_cont c \<and> (a = 0xE0 \<longrightarrow> 0xA0 \<le> b) \<and> (a = 0xED \<longrightarrow> b \<le> 0x9F) \<and> utf8_valid bs
         | _ \<Rightarrow> False)
      else if 0xF0 \<le> a \<and> a \<le> 0xF4 then
        (case bs of
           b # c # d # bs \<Rightarrow>
             utf8_cont b \<and> utf8_cont c \<and> utf8_cont d \<and> (a = 0xF0 \<longrightarrow> 0x90 \<le> b) \<and> (a = 0xF4 \<longrightarrow> b \<le> 0x8F) \<and>
             utf8_valid bs
         | _ \<Rightarrow> False)
      else False)"

definition from_utf8 :: "byte list \<Rightarrow> string option" where
  "from_utf8 bs = (if utf8_valid bs then Some (map (\<lambda>b. char_of (unat b)) bs) else None)"

lemma from_utf8_as_bytes:
  "\<forall>c \<in> set s. of_char c < (128 :: nat) \<Longrightarrow> from_utf8 (as_bytes s) = Some s"
proof -
  assume ascii: "\<forall>c \<in> set s. of_char c < (128 :: nat)"
  have u: "unat (of_nat (of_char c) :: byte) = of_char c" for c
    by (simp add: unat_of_nat take_bit_eq_mod of_char_mod_256)
  have small: "(of_nat (of_char c) :: byte) < 0x80" if "of_char c < (128 :: nat)" for c
    using that by (simp add: word_less_nat_alt u)
  have "utf8_valid (as_bytes s)"
    using ascii by (induction s) (simp_all add: as_bytes_def small)
  moreover have "map (\<lambda>b. char_of (unat b)) (as_bytes s) = s"
    by (simp add: as_bytes_def comp_def u)
  ultimately show ?thesis by (simp add: from_utf8_def)
qed

section \<open>Tokens\<close>

record 'k token_env =
  te_new :: "byte list \<Rightarrow> 'k option"
  te_mac :: "'k \<Rightarrow> byte list \<Rightarrow> byte list"
  te_encode :: "byte list \<Rightarrow> string"
  te_decode :: "string \<Rightarrow> byte list option"

datatype VerifyError =
    Malformed | InvalidEncoding | InvalidPayload | InvalidField string | BindingMismatch | Expired | SignatureMismatch

fun verify_error_display :: "VerifyError \<Rightarrow> string" where
  "verify_error_display Malformed = ''malformed reconnecting-PTY token''"
| "verify_error_display InvalidEncoding = ''invalid base64 in reconnecting-PTY token''"
| "verify_error_display InvalidPayload = ''invalid reconnecting-PTY token payload''"
| "verify_error_display (InvalidField f) = ''invalid reconnecting-PTY token field: '' @ f"
| "verify_error_display BindingMismatch = ''reconnecting-PTY token binding mismatch''"
| "verify_error_display Expired = ''reconnecting-PTY token expired''"
| "verify_error_display SignatureMismatch = ''reconnecting-PTY token signature mismatch''"

record ReconnectingPtyTokenSigner =
  sg_key :: "byte list"

definition compute_mac :: "'k token_env \<Rightarrow> byte list \<Rightarrow> byte list \<Rightarrow> byte list" where
  "compute_mac T key msg =
     (case te_new T key of
        Some m \<Rightarrow> te_mac T m msg
      | None \<Rightarrow> (case te_new T [0] of Some m \<Rightarrow> te_mac T m msg | None \<Rightarrow> []))"

definition sign_payload :: "uuid_codec \<Rightarrow> uuid \<Rightarrow> uuid \<Rightarrow> int \<Rightarrow> string" where
  "sign_payload U workspace_id agent_id exp_unix =
     to_string U workspace_id @ ''.'' @ to_string U agent_id @ ''.'' @ int_str exp_unix"

definition sign ::
  "uuid_codec \<Rightarrow> 'k token_env \<Rightarrow> ReconnectingPtyTokenSigner \<Rightarrow> uuid \<Rightarrow> uuid \<Rightarrow> int \<Rightarrow> string" where
  "sign U T signer workspace_id agent_id exp_unix =
     (let payload = sign_payload U workspace_id agent_id exp_unix;
          mac = compute_mac T (sg_key signer) (as_bytes payload);
          payload_b64 = te_encode T (as_bytes payload);
          sig_b64 = te_encode T mac
      in payload_b64 @ ''.'' @ sig_b64)"

definition verify_claims ::
  "uuid_codec \<Rightarrow> string \<Rightarrow> uuid \<Rightarrow> uuid \<Rightarrow> int \<Rightarrow> (VerifyError, unit) result" where
  "verify_claims U payload_str workspace_id agent_id now_unix =
     (case split_on (CHR ''.'') payload_str of
        [workspace_part, agent_part, exp_part] \<Rightarrow>
          (case parse_str U workspace_part of
             None \<Rightarrow> Err (InvalidField ''workspace_id'')
           | Some ws_claim \<Rightarrow>
               (case parse_str U agent_part of
                  None \<Rightarrow> Err (InvalidField ''agent_id'')
                | Some agent_claim \<Rightarrow>
                    (case parse_signed 64 exp_part of
                       None \<Rightarrow> Err (InvalidField ''exp'')
                     | Some exp \<Rightarrow>
                         if ws_claim \<noteq> workspace_id \<or> agent_claim \<noteq> agent_id then Err BindingMismatch
                         else if exp \<le> now_unix then Err Expired
                         else Ok ())))
      | _ \<Rightarrow> Err InvalidPayload)"

definition verify_signed_token ::
  "uuid_codec \<Rightarrow> 'k token_env \<Rightarrow> byte list \<Rightarrow> string \<Rightarrow> uuid \<Rightarrow> uuid \<Rightarrow> int \<Rightarrow> (VerifyError, unit) result" where
  "verify_signed_token U T key token workspace_id agent_id now_unix =
     (case rsplit_once (CHR ''.'') token of
        None \<Rightarrow> Err Malformed
      | Some (payload_b64, sig_b64) \<Rightarrow>
          if payload_b64 = [] \<or> sig_b64 = [] then Err Malformed
          else
            (case te_decode T payload_b64 of
               None \<Rightarrow> Err InvalidEncoding
             | Some payload \<Rightarrow>
                 (case te_decode T sig_b64 of
                    None \<Rightarrow> Err InvalidEncoding
                  | Some provided_sig \<Rightarrow>
                      if provided_sig \<noteq> compute_mac T key payload then Err SignatureMismatch
                      else
                        (case from_utf8 payload of
                           None \<Rightarrow> Err InvalidPayload
                         | Some payload_str \<Rightarrow>
                             verify_claims U payload_str workspace_id agent_id now_unix))))"

section \<open>Properties\<close>

text \<open>What the documentation of the two crates says of the engine and the MAC.\<close>

definition base64_engine :: "'k token_env \<Rightarrow> bool" where
  "base64_engine T \<longleftrightarrow>
     (\<forall>bs. te_decode T (te_encode T bs) = Some bs) \<and> (\<forall>bs. CHR ''.'' \<notin> set (te_encode T bs)) \<and>
     (\<forall>bs. te_encode T bs = [] \<longrightarrow> bs = [])"

definition mac_nonempty :: "'k token_env \<Rightarrow> bool" where
  "mac_nonempty T \<longleftrightarrow> (\<forall>key. te_new T key \<noteq> None) \<and> (\<forall>m msg. te_mac T m msg \<noteq> [])"

lemma payload_parts:
  assumes "uuid_text U"
  shows "split_on (CHR ''.'') (sign_payload U w a e) = [to_string U w, to_string U a, int_str e]"
    and "\<forall>c \<in> set (sign_payload U w a e). of_char c < (128 :: nat)"
proof -
  have dot: "CHR ''.'' \<notin> set (to_string U u)" for u using uuid_text.to_string_chars [OF assms, of u] by auto
  have "CHR ''.'' \<notin> set (int_str e)" by (auto dest: int_str_chars)
  then show "split_on (CHR ''.'') (sign_payload U w a e) = [to_string U w, to_string U a, int_str e]"
    by (simp add: sign_payload_def split_on_append dot split_on_plain)
  have u: "of_char c < (128 :: nat)" if "c \<in> set (to_string U u)" for c u
    using that uuid_text.to_string_chars [OF assms, of u] by auto
  have "of_char c < (128 :: nat)" if "c \<in> set (int_str e)" for c
    using int_str_chars [OF that] by auto
  with u show "\<forall>c \<in> set (sign_payload U w a e). of_char c < (128 :: nat)"
    by (auto simp: sign_payload_def)
qed

lemma verify_own_token:
  assumes "uuid_text U" and "base64_engine T" and "mac_nonempty T"
    and "- (2 ^ 63) \<le> exp_unix" and "exp_unix < 2 ^ 63"
  shows "verify_signed_token U T key (sign U T signer w a exp_unix) w' a' now =
    (if compute_mac T (sg_key signer) (as_bytes (sign_payload U w a exp_unix)) \<noteq>
        compute_mac T key (as_bytes (sign_payload U w a exp_unix)) then Err SignatureMismatch
     else if w \<noteq> w' \<or> a \<noteq> a' then Err BindingMismatch
     else if exp_unix \<le> now then Err Expired
     else Ok ())"
proof -
  let ?p = "as_bytes (sign_payload U w a exp_unix)"
  have enc: "te_decode T (te_encode T bs) = Some bs" "CHR ''.'' \<notin> set (te_encode T bs)" "te_encode T bs = [] \<Longrightarrow> bs = []" for bs
    using assms(2) by (auto simp: base64_engine_def)
  have "compute_mac T (sg_key signer) ?p \<noteq> []"
    using assms(3) by (auto simp: compute_mac_def mac_nonempty_def split: option.split)
  moreover have "?p \<noteq> []" by (simp add: as_bytes_def sign_payload_def)
  moreover have "parse_signed 64 (int_str exp_unix) = Some exp_unix"
    using assms(4,5) by (intro parse_signed_int_str) simp_all
  ultimately show ?thesis
    using enc(3) from_utf8_as_bytes [OF payload_parts(2) [OF assms(1)]]
    by (auto simp: verify_signed_token_def sign_def Let_def rsplit_once_append enc(1,2) verify_claims_def
        payload_parts(1) [OF assms(1)] uuid_text.parse_to_string [OF assms(1)])
qed

text \<open>
  C26. A signed token is accepted for exactly the workspace and agent it was signed for, exactly until it
  expires, and under its key only up to MAC collisions: under another key the payload's tag must be
  the same.
\<close>

theorem signed_token_exact:
  assumes "uuid_text U" and "base64_engine T" and "mac_nonempty T"
    and "- (2 ^ 63) \<le> exp_unix" and "exp_unix < 2 ^ 63"
  shows "verify_signed_token U T key (sign U T signer w a exp_unix) w' a' now =
    (if compute_mac T (sg_key signer) (as_bytes (sign_payload U w a exp_unix)) \<noteq>
        compute_mac T key (as_bytes (sign_payload U w a exp_unix)) then Err SignatureMismatch
     else if w \<noteq> w' \<or> a \<noteq> a' then Err BindingMismatch
     else if exp_unix \<le> now then Err Expired
     else Ok ())"
  using assms by (rule verify_own_token)

text \<open>
  Nothing unsigned is accepted: whatever text a caller presents, acceptance means that the part
  after the last dot decodes to the MAC, under the server's key, of the bytes that the part before
  it decodes to, and that those bytes name the workspace, the agent and a later expiry.
\<close>

theorem accepted_token_is_signed:
  assumes "verify_signed_token U T key token w a now = Ok ()"
  shows "\<exists>p s payload body ws ag es exp. token = p @ CHR ''.'' # s \<and> CHR ''.'' \<notin> set s \<and>
    te_decode T p = Some payload \<and> te_decode T s = Some (compute_mac T key payload) \<and>
    from_utf8 payload = Some body \<and> split_on (CHR ''.'') body = [ws, ag, es] \<and>
    parse_str U ws = Some w \<and> parse_str U ag = Some a \<and> parse_signed 64 es = Some exp \<and> now < exp"
proof -
  obtain p s where ps: "rsplit_once (CHR ''.'') token = Some (p, s)"
    using assms by (cases "rsplit_once (CHR ''.'') token") (auto simp: verify_signed_token_def)
  then obtain payload body where pl: "te_decode T p = Some payload" "te_decode T s = Some (compute_mac T key payload)"
    "from_utf8 payload = Some body" "verify_claims U body w a now = Ok ()"
    using assms by (auto simp: verify_signed_token_def split: if_splits option.splits)
  from pl(4) obtain ws ag es exp where "split_on (CHR ''.'') body = [ws, ag, es]" "parse_str U ws = Some w"
    "parse_str U ag = Some a" "parse_signed 64 es = Some exp" "now < exp"
    by (auto simp: verify_claims_def split: list.splits option.splits if_splits)
  with pl rsplit_once_Some [OF ps] show ?thesis by blast
qed


section \<open>A concrete instance\<close>

text \<open>Hexadecimal text as the encoding and a checksum in the place of the MAC.\<close>

definition demo_tokens :: "byte list token_env" where
  "demo_tokens = \<lparr> te_new = Some, te_mac = (\<lambda>key msg. [sum_list key + sum_list msg]), te_encode = hex_text, te_decode = hex_bytes \<rparr>"

lemma demo_engine: "base64_engine demo_tokens" "mac_nonempty demo_tokens"
proof -
  have "CHR ''.'' \<notin> set (hex_text bs)" for bs using set_hex_text [of bs] by auto
  then show "base64_engine demo_tokens"
    by (simp add: base64_engine_def demo_tokens_def hex_bytes_text hex_text_Nil)
qed (simp add: mac_nonempty_def demo_tokens_def)

theorem signed_token_exact_witness:
  "verify_signed_token hyphenated_codec demo_tokens [1, 2]
     (sign hyphenated_codec demo_tokens \<lparr> sg_key = [1, 2] \<rparr> 7 8 1000) 7 8 999 = Ok () \<and>
   verify_signed_token hyphenated_codec demo_tokens [1, 2]
     (sign hyphenated_codec demo_tokens \<lparr> sg_key = [1, 2] \<rparr> 7 8 1000) 7 9 999 = Err BindingMismatch"
  by (simp add: signed_token_exact [OF hy.uuid_text_axioms demo_engine])

theorem accepted_token_is_signed_witness:
  "\<exists>p s payload. sign hyphenated_codec demo_tokens \<lparr> sg_key = [1, 2] \<rparr> 7 8 1000 = p @ CHR ''.'' # s \<and>
     te_decode demo_tokens p = Some payload \<and> te_decode demo_tokens s = Some (compute_mac demo_tokens [1, 2] payload)"
proof -
  have "verify_signed_token hyphenated_codec demo_tokens [1, 2]
      (sign hyphenated_codec demo_tokens \<lparr> sg_key = [1, 2] \<rparr> 7 8 1000) 7 8 999 = Ok ()"
    by (simp add: verify_own_token [OF hy.uuid_text_axioms demo_engine])
  from accepted_token_is_signed [OF this] show ?thesis by blast
qed

end
