(* ===== verification/Pty_Sessions.thy ===== *)
theory Pty_Sessions
  imports Pty_Token Workspace_Store Rbac_Properties
begin

text \<open>
  Reconnecting terminal sessions, \<open>crates/coder-server/src/reconnecting_pty.rs\<close>, and the web-socket
  endpoint of \<open>handlers/agents.rs\<close> that uses them. A session is shared by the store and by the guards
  of its clients and of the agent (an \<open>Arc\<close> in the source), and it lives on when the store has dropped
  it; so sessions are cells of a heap and the store maps reconnect ids to cells. Every critical
  section of a lock is one step; tasks interleave between them. The clock is an argument of each step.
\<close>

section \<open>The ring buffer\<close>

record RingBuffer =
  rb_capacity :: nat
  rb_data :: "byte list"

definition ring_new :: "nat \<Rightarrow> RingBuffer" where
  "ring_new capacity = \<lparr> rb_capacity = max capacity 1, rb_data = [] \<rparr>"

definition ring_push :: "byte list \<Rightarrow> RingBuffer \<Rightarrow> RingBuffer" where
  "ring_push bytes r =
     (let (start, overflow, data) =
            (if rb_capacity r \<le> length bytes then (length bytes - rb_capacity r, 0, [])
             else (0, length (rb_data r) + length bytes - rb_capacity r, rb_data r))
      in r \<lparr> rb_data := drop overflow data @ drop start bytes \<rparr>)"

definition ring_snapshot :: "RingBuffer \<Rightarrow> byte list" where
  "ring_snapshot r = rb_data r"

section \<open>Sessions\<close>

definition DEFAULT_BUFFER_BYTES :: nat where "DEFAULT_BUFFER_BYTES = 256 * 1024"
definition DEFAULT_AGENT_GRACE :: int where "DEFAULT_AGENT_GRACE = secs 60"
definition DEFAULT_IDLE_TIMEOUT :: int where "DEFAULT_IDLE_TIMEOUT = secs 3600"
definition BROADCAST_CAPACITY :: nat where "BROADCAST_CAPACITY = 256"

record ReconnectingPtyOptions =
  buffer_bytes :: nat
  agent_grace :: int
  idle_timeout :: int

definition default_pty_options :: ReconnectingPtyOptions where
  "default_pty_options =
     \<lparr> buffer_bytes = DEFAULT_BUFFER_BYTES, agent_grace = DEFAULT_AGENT_GRACE, idle_timeout = DEFAULT_IDLE_TIMEOUT \<rparr>"

datatype ReconnectingPtyError = AgentMismatch | Closed

fun pty_error_display :: "ReconnectingPtyError \<Rightarrow> string" where
  "pty_error_display AgentMismatch = ''reconnect_id already bound to a different agent''"
| "pty_error_display Closed = ''reconnect session closed''"

text \<open>
  The broadcast channel is the log of the messages sent: a receiver is a position in it, the last
  \<open>BROADCAST_CAPACITY\<close> messages are available, and a new receiver starts at the end.
\<close>

record PtySession =
  se_agent_id :: uuid
  se_buffer :: RingBuffer
  se_sent :: "byte list list"
  se_last_activity :: instant
  se_readers :: nat
  se_writers :: nat
  se_grace_deadline :: "instant option"
  se_pump_started :: bool

definition session_new :: "instant \<Rightarrow> uuid \<Rightarrow> nat \<Rightarrow> PtySession" where
  "session_new now agent_id bytes =
     \<lparr> se_agent_id = agent_id, se_buffer = ring_new bytes, se_sent = [], se_last_activity = now, se_readers = 0,
        se_writers = 0, se_grace_deadline = None, se_pump_started = False \<rparr>"

definition start_pump_once :: "PtySession \<Rightarrow> PtySession \<times> bool" where
  "start_pump_once s = (if se_pump_started s then (s, False) else (s \<lparr> se_pump_started := True \<rparr>, True))"

definition mark_pump_stopped :: "PtySession \<Rightarrow> PtySession" where
  "mark_pump_stopped s = s \<lparr> se_pump_started := False \<rparr>"

definition touch :: "instant \<Rightarrow> PtySession \<Rightarrow> PtySession" where
  "touch now s = s \<lparr> se_last_activity := now \<rparr>"

definition push_output :: "instant \<Rightarrow> byte list \<Rightarrow> PtySession \<Rightarrow> PtySession" where
  "push_output now bytes s =
     (if bytes = [] then s
      else touch now (s \<lparr> se_buffer := ring_push bytes (se_buffer s), se_sent := se_sent s @ [bytes] \<rparr>))"

definition scrollback :: "PtySession \<Rightarrow> byte list" where
  "scrollback s = ring_snapshot (se_buffer s)"

definition pty_subscribe :: "PtySession \<Rightarrow> nat" where
  "pty_subscribe s = length (se_sent s)"

datatype RecvResult = Received "byte list" | Lagged nat | Waiting

definition pty_recv :: "PtySession \<Rightarrow> nat \<Rightarrow> RecvResult \<times> nat" where
  "pty_recv s pos =
     (let oldest = length (se_sent s) - BROADCAST_CAPACITY
      in if pos < oldest then (Lagged (oldest - pos), oldest)
         else if pos < length (se_sent s) then (Received (se_sent s ! pos), Suc pos)
         else (Waiting, pos))"

section \<open>The store\<close>

record PtyStore =
  st_sessions :: "(uuid, nat) hash_map"
  st_heap :: "PtySession list"
  st_options :: ReconnectingPtyOptions

definition store_with_options :: "ReconnectingPtyOptions \<Rightarrow> PtyStore" where
  "store_with_options options = \<lparr> st_sessions = hm_empty, st_heap = [], st_options = options \<rparr>"

definition on_session :: "nat \<Rightarrow> (PtySession \<Rightarrow> PtySession) \<Rightarrow> PtyStore \<Rightarrow> PtyStore" where
  "on_session r f st = st \<lparr> st_heap := (st_heap st)[r := f (st_heap st ! r)] \<rparr>"

definition session_count :: "PtyStore \<Rightarrow> nat" where
  "session_count st = length (st_sessions st)"

definition pty_get :: "PtyStore \<Rightarrow> uuid \<Rightarrow> nat option" where
  "pty_get st reconnect_id = hm_get (st_sessions st) reconnect_id"

subsection \<open>The critical sections of attaching\<close>

datatype FastPath = Resume nat | Expire | Refuse ReconnectingPtyError

text \<open>The session was found under the read lock: the agent, then the grace window.\<close>

definition check_existing :: "instant \<Rightarrow> uuid \<Rightarrow> nat \<Rightarrow> PtyStore \<Rightarrow> FastPath" where
  "check_existing now agent_id r st =
     (if se_agent_id (st_heap st ! r) \<noteq> agent_id then Refuse AgentMismatch
      else case se_grace_deadline (st_heap st ! r) of
             Some deadline \<Rightarrow> if deadline \<le> now then Expire else Resume r
           | None \<Rightarrow> Resume r)"

definition remove_session :: "uuid \<Rightarrow> PtyStore \<Rightarrow> PtyStore" where
  "remove_session reconnect_id st = st \<lparr> st_sessions := hm_remove reconnect_id (st_sessions st) \<rparr>"

text \<open>The slow path, under the write lock: a session that appeared meanwhile is taken as it is.\<close>

definition create_session :: "instant \<Rightarrow> uuid \<Rightarrow> uuid \<Rightarrow> PtyStore \<Rightarrow> PtyStore \<times> (ReconnectingPtyError, nat) result" where
  "create_session now reconnect_id agent_id st =
     (case hm_get (st_sessions st) reconnect_id of
        Some r \<Rightarrow> (st, if se_agent_id (st_heap st ! r) \<noteq> agent_id then Err AgentMismatch else Ok r)
      | None \<Rightarrow>
          let r = length (st_heap st)
          in (st \<lparr> st_heap := st_heap st @ [session_new now agent_id (buffer_bytes (st_options st))],
                   st_sessions := hm_insert reconnect_id r (st_sessions st) \<rparr>, Ok r))"

definition get_or_create ::
  "instant \<Rightarrow> uuid \<Rightarrow> uuid \<Rightarrow> PtyStore \<Rightarrow> PtyStore \<times> (ReconnectingPtyError, nat) result" where
  "get_or_create now reconnect_id agent_id st =
     (case hm_get (st_sessions st) reconnect_id of
        Some r \<Rightarrow>
          (case check_existing now agent_id r st of
             Refuse e \<Rightarrow> (st, Err e)
           | Expire \<Rightarrow> (remove_session reconnect_id st, Err Closed)
           | Resume r \<Rightarrow> (st, Ok r))
      | None \<Rightarrow> create_session now reconnect_id agent_id st)"

definition add_reader :: "PtySession \<Rightarrow> PtySession" where
  "add_reader s = s \<lparr> se_readers := se_readers s + 1 \<rparr>"

definition clear_grace :: "PtySession \<Rightarrow> PtySession" where
  "clear_grace s = s \<lparr> se_grace_deadline := None \<rparr>"

definition add_writer :: "PtySession \<Rightarrow> PtySession" where
  "add_writer s = s \<lparr> se_writers := se_writers s + 1 \<rparr>"

definition attach_client ::
  "instant \<Rightarrow> uuid \<Rightarrow> uuid \<Rightarrow> PtyStore \<Rightarrow> PtyStore \<times> (ReconnectingPtyError, nat) result" where
  "attach_client now reconnect_id agent_id st =
     (case get_or_create now reconnect_id agent_id st of
        (st, Inl e) \<Rightarrow> (st, Err e)
      | (st, Inr r) \<Rightarrow> (on_session r (touch now) (on_session r add_reader st), Ok r))"

definition attach_agent ::
  "instant \<Rightarrow> uuid \<Rightarrow> uuid \<Rightarrow> PtyStore \<Rightarrow> PtyStore \<times> (ReconnectingPtyError, nat) result" where
  "attach_agent now reconnect_id agent_id st =
     (case get_or_create now reconnect_id agent_id st of
        (st, Inl e) \<Rightarrow> (st, Err e)
      | (st, Inr r) \<Rightarrow>
          (on_session r (touch now) (on_session r add_writer (on_session r clear_grace st)), Ok r))"

subsection \<open>Detaching and pruning\<close>

definition drop_reader :: "PtySession \<Rightarrow> PtySession" where
  "drop_reader s = s \<lparr> se_readers := se_readers s - 1 \<rparr>"

definition drop_writer :: "PtySession \<Rightarrow> PtySession" where
  "drop_writer s = s \<lparr> se_writers := se_writers s - 1 \<rparr>"

definition start_grace :: "instant \<Rightarrow> int \<Rightarrow> PtySession \<Rightarrow> PtySession" where
  "start_grace now grace s = s \<lparr> se_grace_deadline := Some (now + grace) \<rparr>"

definition prunable :: "instant \<Rightarrow> int \<Rightarrow> PtySession \<Rightarrow> bool" where
  "prunable now idle s \<longleftrightarrow>
     (case se_grace_deadline s of Some deadline \<Rightarrow> deadline \<le> now | None \<Rightarrow> False) \<or>
     se_readers s = 0 \<and> se_writers s = 0 \<and> idle \<le> now - se_last_activity s"

definition prune_candidates :: "instant \<Rightarrow> PtyStore \<Rightarrow> uuid list" where
  "prune_candidates now st =
     map fst (filter (\<lambda>(i, r). prunable now (idle_timeout (st_options st)) (st_heap st ! r)) (st_sessions st))"

definition prune :: "instant \<Rightarrow> PtyStore \<Rightarrow> PtyStore" where
  "prune now st = fold remove_session (prune_candidates now st) st"

section \<open>Tasks\<close>

text \<open>Where a task stands between two critical sections.\<close>

datatype Side = ClientSide | AgentSide

datatype Task =
    Reading Side uuid uuid
  | Checking Side uuid uuid nat
  | Expiring Side uuid uuid
  | Creating Side uuid uuid
  | Binding Side uuid uuid nat
  | Counting Side uuid uuid nat
  | Touching Side uuid uuid nat
  | Holding Side uuid uuid nat
  | Refused Side uuid uuid ReconnectingPtyError
  | Releasing Side uuid uuid nat
  | Stamping Side uuid uuid nat nat
  | Gracing uuid uuid nat
  | Gone
  | Collecting
  | Removing "uuid list"

fun task_step :: "instant \<Rightarrow> Task \<Rightarrow> PtyStore \<Rightarrow> PtyStore \<times> Task" where
  "task_step now (Reading side i a) st =
     (st, case hm_get (st_sessions st) i of Some r \<Rightarrow> Checking side i a r | None \<Rightarrow> Creating side i a)"
| "task_step now (Checking side i a r) st =
     (st, case check_existing now a r st of
            Refuse e \<Rightarrow> Refused side i a e | Expire \<Rightarrow> Expiring side i a | Resume r \<Rightarrow> Binding side i a r)"
| "task_step now (Expiring side i a) st = (remove_session i st, Refused side i a Closed)"
| "task_step now (Creating side i a) st =
     (case create_session now i a st of
        (st, Inl e) \<Rightarrow> (st, Refused side i a e) | (st, Inr r) \<Rightarrow> (st, Binding side i a r))"
| "task_step now (Binding side i a r) st =
     (case side of
        ClientSide \<Rightarrow> (on_session r add_reader st, Touching side i a r)
      | AgentSide \<Rightarrow> (on_session r clear_grace st, Counting side i a r))"
| "task_step now (Counting side i a r) st = (on_session r add_writer st, Touching side i a r)"
| "task_step now (Touching side i a r) st = (on_session r (touch now) st, Holding side i a r)"
| "task_step now (Releasing side i a r) st =
     (case side of
        ClientSide \<Rightarrow> (on_session r drop_reader st, Stamping side i a r 1)
      | AgentSide \<Rightarrow>
          (on_session r drop_writer st, Stamping side i a r (se_writers (st_heap st ! r) - 1)))"
| "task_step now (Stamping side i a r remaining) st =
     (on_session r (touch now) st, if side = AgentSide \<and> remaining = 0 then Gracing i a r else Gone)"
| "task_step now (Gracing i a r) st = (on_session r (start_grace now (agent_grace (st_options st))) st, Gone)"
| "task_step now Collecting st = (st, Removing (prune_candidates now st))"
| "task_step now (Removing ids) st = (fold remove_session ids st, Gone)"
| "task_step now t st = (st, t)"

inductive pty_step :: "PtyStore \<times> Task list \<Rightarrow> PtyStore \<times> Task list \<Rightarrow> bool" where
  attach: "pty_step (st, ts) (st, ts @ [Reading side i a])"
| sweep: "pty_step (st, ts) (st, ts @ [Collecting])"
| run: "k < length ts \<Longrightarrow> task_step now (ts ! k) st = (st', t') \<Longrightarrow> pty_step (st, ts) (st', ts[k := t'])"
| release: "k < length ts \<Longrightarrow> ts ! k = Holding side i a r \<Longrightarrow> pty_step (st, ts) (st, ts[k := Releasing side i a r])"
| produce: "r < length (st_heap st) \<Longrightarrow> pty_step (st, ts) (on_session r (push_output now bytes) st, ts)"
| pump_start: "r < length (st_heap st) \<Longrightarrow> pty_step (st, ts) (on_session r (fst \<circ> start_pump_once) st, ts)"
| pump_stop: "r < length (st_heap st) \<Longrightarrow> pty_step (st, ts) (on_session r mark_pump_stopped st, ts)"

definition pty_init :: "PtyStore \<times> Task list \<Rightarrow> bool" where
  "pty_init = (\<lambda>(st, ts). \<exists>options. st = store_with_options options \<and> ts = [])"

section \<open>The buffer holds the last bytes\<close>

definition last_bytes :: "nat \<Rightarrow> 'a list \<Rightarrow> 'a list" where
  "last_bytes n xs = drop (length xs - n) xs"

lemma last_bytes_append:
  "last_bytes n (last_bytes n xs @ ys) = last_bytes n (xs @ ys)"
  by (cases "n \<le> length xs") (simp_all add: last_bytes_def add.commute)

lemma ring_push_last:
  assumes "rb_data r = last_bytes (rb_capacity r) xs"
  shows "rb_data (ring_push bytes r) = last_bytes (rb_capacity r) (xs @ bytes)"
  using assms last_bytes_append [of "rb_capacity r" xs bytes]
  by (auto simp: ring_push_def last_bytes_def Let_def)

lemma ring_push_capacity [simp]: "rb_capacity (ring_push bytes r) = rb_capacity r"
  by (simp add: ring_push_def Let_def split: prod.split)

definition session_ok :: "nat \<Rightarrow> PtySession \<Rightarrow> bool" where
  "session_ok n s \<longleftrightarrow>
     rb_capacity (se_buffer s) = max n 1 \<and> rb_data (se_buffer s) = last_bytes (max n 1) (concat (se_sent s))"

lemmas session_ops = add_reader_def clear_grace_def add_writer_def drop_reader_def drop_writer_def start_grace_def
  touch_def mark_pump_stopped_def start_pump_once_def

definition keeps_session :: "(PtySession \<Rightarrow> PtySession) \<Rightarrow> bool" where
  "keeps_session f \<longleftrightarrow>
     (\<forall>s n. se_agent_id (f s) = se_agent_id s \<and> (session_ok n s \<longrightarrow> session_ok n (f s)))"

lemma keeps_session_ops:
  "keeps_session add_reader" "keeps_session clear_grace" "keeps_session add_writer" "keeps_session drop_reader"
  "keeps_session drop_writer" "keeps_session (start_grace now g)" "keeps_session (touch now)"
  "keeps_session mark_pump_stopped" "keeps_session (fst \<circ> start_pump_once)"
  by (simp_all add: keeps_session_def session_ok_def session_ops)

lemma keeps_session_push: "keeps_session (push_output now bytes)"
  by (auto simp: keeps_session_def session_ok_def push_output_def touch_def ring_push_last)

section \<open>Consistency\<close>

fun task_ok :: "PtySession list \<Rightarrow> Task \<Rightarrow> bool" where
  "task_ok h (Checking side i a r) \<longleftrightarrow> r < length h"
| "task_ok h (Binding side i a r) \<longleftrightarrow> r < length h \<and> se_agent_id (h ! r) = a"
| "task_ok h (Counting side i a r) \<longleftrightarrow> r < length h \<and> se_agent_id (h ! r) = a"
| "task_ok h (Touching side i a r) \<longleftrightarrow> r < length h \<and> se_agent_id (h ! r) = a"
| "task_ok h (Holding side i a r) \<longleftrightarrow> r < length h \<and> se_agent_id (h ! r) = a"
| "task_ok h (Releasing side i a r) \<longleftrightarrow> r < length h \<and> se_agent_id (h ! r) = a"
| "task_ok h (Stamping side i a r n) \<longleftrightarrow> r < length h \<and> se_agent_id (h ! r) = a"
| "task_ok h (Gracing i a r) \<longleftrightarrow> r < length h \<and> se_agent_id (h ! r) = a"
| "task_ok h t \<longleftrightarrow> True"

definition store_ok :: "PtyStore \<Rightarrow> bool" where
  "store_ok st \<longleftrightarrow>
     hm_wf (st_sessions st) \<and> (\<forall>i r. hm_get (st_sessions st) i = Some r \<longrightarrow> r < length (st_heap st)) \<and>
     (\<forall>s \<in> set (st_heap st). session_ok (buffer_bytes (st_options st)) s)"

definition pty_inv :: "PtyStore \<times> Task list \<Rightarrow> bool" where
  "pty_inv = (\<lambda>(st, ts). store_ok st \<and> (\<forall>t \<in> set ts. task_ok (st_heap st) t))"

text \<open>Cells are never freed and keep their agent.\<close>

definition heap_grows :: "PtySession list \<Rightarrow> PtySession list \<Rightarrow> bool" where
  "heap_grows h h' \<longleftrightarrow> length h \<le> length h' \<and> (\<forall>r < length h. se_agent_id (h' ! r) = se_agent_id (h ! r))"

lemma heap_grows_refl [simp]: "heap_grows h h"
  by (simp add: heap_grows_def)

lemma task_ok_grows: "heap_grows h h' \<Longrightarrow> task_ok h t \<Longrightarrow> task_ok h' t"
  by (cases t) (auto simp: heap_grows_def)

lemma on_session_ok:
  assumes "store_ok st" and "keeps_session f"
  shows "store_ok (on_session r f st)" and "heap_grows (st_heap st) (st_heap (on_session r f st))"
proof -
  have "session_ok n (f (st_heap st ! r))" if "r < length (st_heap st)" "n = buffer_bytes (st_options st)" for n
    using assms that by (auto simp: store_ok_def keeps_session_def)
  then show "store_ok (on_session r f st)"
    using assms(1)
    by (cases "r < length (st_heap st)")
      (auto simp: store_ok_def on_session_def list_update_beyond dest!: subsetD [OF set_update_subset_insert])
  show "heap_grows (st_heap st) (st_heap (on_session r f st))"
    using assms(2) by (cases "r < length (st_heap st)")
      (auto simp: heap_grows_def on_session_def nth_list_update keeps_session_def list_update_beyond)
qed

lemma remove_session_ok: "store_ok st \<Longrightarrow> store_ok (remove_session i st)" "st_heap (remove_session i st) = st_heap st"
  by (auto simp: store_ok_def remove_session_def hm.get_remove hm.wf_remove split: if_splits)

lemma fold_remove_ok: "store_ok st \<Longrightarrow> store_ok (fold remove_session ids st) \<and> st_heap (fold remove_session ids st) = st_heap st"
  by (induction ids arbitrary: st) (simp_all add: remove_session_ok)

lemma session_new_ok: "session_ok n (session_new now a n)"
  by (simp add: session_ok_def session_new_def ring_new_def last_bytes_def)

lemma get_in_heap: "store_ok st \<Longrightarrow> hm_get (st_sessions st) i = Some r \<Longrightarrow> r < length (st_heap st)"
  by (simp add: store_ok_def)

lemma create_session_ok:
  assumes "store_ok st" and "create_session now i a st = (st', res)"
  shows "store_ok st' \<and> heap_grows (st_heap st) (st_heap st') \<and>
    (\<forall>r. res = Ok r \<longrightarrow> r < length (st_heap st') \<and> se_agent_id (st_heap st' ! r) = a)"
proof (cases "hm_get (st_sessions st) i")
  case None
  let ?st = "st \<lparr> st_heap := st_heap st @ [session_new now a (buffer_bytes (st_options st))],
    st_sessions := hm_insert i (length (st_heap st)) (st_sessions st) \<rparr>"
  have "store_ok ?st"
    using assms(1) by (auto simp: store_ok_def session_new_ok less_Suc_eq hm.get_insert hm.wf_insert split: if_splits)
  with None assms(2) show ?thesis
    by (auto simp: create_session_def Let_def heap_grows_def nth_append session_new_def)
next
  case (Some r)
  with assms get_in_heap [OF assms(1) Some] show ?thesis
    by (auto simp: create_session_def split: if_splits)
qed


lemmas session_kept = on_session_ok [OF _ keeps_session_ops(1)] on_session_ok [OF _ keeps_session_ops(2)]
  on_session_ok [OF _ keeps_session_ops(3)] on_session_ok [OF _ keeps_session_ops(4)]
  on_session_ok [OF _ keeps_session_ops(5)] on_session_ok [OF _ keeps_session_ops(6)]
  on_session_ok [OF _ keeps_session_ops(7)] on_session_ok [OF _ keeps_session_ops(8)]
  on_session_ok [OF _ keeps_session_ops(9)] on_session_ok [OF _ keeps_session_push]

lemma task_step_ok:
  assumes "store_ok st" and "task_ok (st_heap st) t" and "task_step now t st = (st', t')"
  shows "store_ok st' \<and> heap_grows (st_heap st) (st_heap st') \<and> task_ok (st_heap st') t'"
proof -
  have moved: ?thesis if "keeps_session f" "st' = on_session r f st" "task_ok (st_heap st) t'" for r f
    using on_session_ok [OF assms(1) that(1), of r] that(2,3) task_ok_grows by blast
  show ?thesis
  proof (cases t)
    case (Reading side i a)
    with assms get_in_heap [OF assms(1)] show ?thesis by (auto split: option.splits)
  next
    case (Checking side i a r)
    with assms show ?thesis
      by (auto simp: check_existing_def split: FastPath.splits if_splits option.splits)
  next
    case (Creating side i a)
    obtain st1 res where c: "create_session now i a st = (st1, res)" by (cases "create_session now i a st")
    from create_session_ok [OF assms(1) c] c assms(3) Creating show ?thesis by (auto split: sum.splits)
  next
    case (Expiring side i a)
    with assms show ?thesis by (auto simp: remove_session_ok)
  next
    case (Removing ids)
    with assms fold_remove_ok [OF assms(1)] show ?thesis by auto
  next
    case (Binding side i a r)
    with assms show ?thesis
      using moved [OF keeps_session_ops(1), of r] moved [OF keeps_session_ops(2), of r] by (cases side) auto
  next
    case (Counting side i a r)
    with assms show ?thesis using moved [OF keeps_session_ops(3), of r] by auto
  next
    case (Touching side i a r)
    with assms show ?thesis using moved [OF keeps_session_ops(7) [of now], of r] by auto
  next
    case (Releasing side i a r)
    with assms show ?thesis
      using moved [OF keeps_session_ops(4), of r] moved [OF keeps_session_ops(5), of r] by (cases side) auto
  next
    case (Stamping side i a r n)
    with assms show ?thesis using moved [OF keeps_session_ops(7) [of now], of r] by (auto split: if_splits)
  next
    case (Gracing i a r)
    with assms show ?thesis
      using moved [OF keeps_session_ops(6) [of now "agent_grace (st_options st)"], of r] by auto
  qed (use assms in auto)
qed

lemma pty_inv_heap:
  "store_ok st' \<Longrightarrow> heap_grows (st_heap st) (st_heap st') \<Longrightarrow> pty_inv (st, ts) \<Longrightarrow> pty_inv (st', ts)"
  using task_ok_grows by (auto simp: pty_inv_def)

lemma pty_inv_on_session:
  "pty_inv (st, ts) \<Longrightarrow> keeps_session f \<Longrightarrow> pty_inv (on_session r f st, ts)"
  by (rule pty_inv_heap [of _ st]) (auto simp: pty_inv_def intro: on_session_ok)

lemma pty_inv_step: "pty_step s s' \<Longrightarrow> pty_inv s \<Longrightarrow> pty_inv s'"
proof (induction rule: pty_step.induct)
  case (run k ts now st st' t')
  then have ok: "store_ok st" "\<forall>t \<in> set ts. task_ok (st_heap st) t" by (simp_all add: pty_inv_def)
  with run(1) have "task_ok (st_heap st) (ts ! k)" by simp
  from task_step_ok [OF ok(1) this run(2)] have st': "store_ok st'" "heap_grows (st_heap st) (st_heap st')"
    "task_ok (st_heap st') t'" by simp_all
  then show ?case
    using ok(2) task_ok_grows
    by (auto simp: pty_inv_def dest!: subsetD [OF set_update_subset_insert])
next
  case (release k ts side i a r st)
  then have "task_ok (st_heap st) (ts ! k)" using nth_mem by (fastforce simp: pty_inv_def)
  with release show ?case by (auto simp: pty_inv_def dest!: subsetD [OF set_update_subset_insert])
next
  case (attach st ts side i a)
  then show ?case by (simp add: pty_inv_def)
next
  case (sweep st ts)
  then show ?case by (simp add: pty_inv_def)
qed (auto intro: pty_inv_on_session keeps_session_ops keeps_session_push)

interpretation pty: transition_invariant pty_init pty_step pty_inv
proof unfold_locales
  show "pty_init s \<Longrightarrow> pty_inv s" for s
    by (auto simp: pty_init_def pty_inv_def store_ok_def store_with_options_def hm.wf_empty)
qed (rule pty_inv_step)

text \<open>
  C8. However attaches, detaches, sweeps and output interleave, a guard never refers to a session of
  another agent than the one it was obtained for, and replaying the session gives exactly the last
  bytes, up to the buffer's capacity, of all that was output into it.
\<close>

theorem guards_see_their_agent:
  assumes "reachable pty_init pty_step (st, ts)" and "Holding side i agent_id r \<in> set ts"
  shows "se_agent_id (st_heap st ! r) = agent_id \<and>
    scrollback (st_heap st ! r) = last_bytes (max (buffer_bytes (st_options st)) 1) (concat (se_sent (st_heap st ! r)))"
proof -
  have inv: "pty_inv (st, ts)" by (rule pty.reachable_inv [OF assms(1)])
  then have "task_ok (st_heap st) (Holding side i agent_id r)" using assms(2) by (auto simp: pty_inv_def)
  with inv show ?thesis
    by (auto simp: pty_inv_def store_ok_def session_ok_def scrollback_def ring_snapshot_def)
qed

section \<open>What a client receives\<close>

text \<open>The loop of the endpoint after the replay: output arrives, and the client takes what is there.\<close>

datatype RelayEvent = Output instant "byte list" | Deliver

fun relay_step :: "RelayEvent \<Rightarrow> PtySession \<times> nat \<times> byte list \<Rightarrow> PtySession \<times> nat \<times> byte list" where
  "relay_step (Output now bytes) (s, pos, out) = (push_output now bytes s, pos, out)"
| "relay_step Deliver (s, pos, out) =
     (case pty_recv s pos of
        (Received data, pos) \<Rightarrow> (s, pos, out @ data)
      | (Lagged _, pos) \<Rightarrow> (s, pos, out)
      | (Waiting, pos) \<Rightarrow> (s, pos, out))"

text \<open>Replay first, then subscribe; \<open>gap\<close> is the output that arrives between the two.\<close>

definition client_loop :: "PtySession \<Rightarrow> (instant \<times> byte list) list \<Rightarrow> RelayEvent list \<Rightarrow> PtySession \<times> nat \<times> byte list" where
  "client_loop s gap events =
     (let replay = scrollback s;
          s = fold (\<lambda>(now, bytes). push_output now bytes) gap s;
          pos = pty_subscribe s
      in fold relay_step events (s, pos, replay))"

fun outputs :: "RelayEvent list \<Rightarrow> byte list" where
  "outputs [] = []"
| "outputs (Output now bytes # es) = bytes @ outputs es"
| "outputs (Deliver # es) = outputs es"

text \<open>The client is never more than the channel's capacity behind.\<close>

fun keeps_up :: "nat \<Rightarrow> RelayEvent list \<Rightarrow> bool" where
  "keeps_up behind [] \<longleftrightarrow> True"
| "keeps_up behind (Output now bytes # es) \<longleftrightarrow>
     (if bytes = [] then keeps_up behind es else behind < BROADCAST_CAPACITY \<and> keeps_up (behind + 1) es)"
| "keeps_up behind (Deliver # es) \<longleftrightarrow> keeps_up (behind - 1) es"

lemma relay_run:
  assumes "pos \<le> length (se_sent s)" and "keeps_up (length (se_sent s) - pos) es"
    and "length (se_sent s) - pos \<le> BROADCAST_CAPACITY"
    and "fold relay_step es (s, pos, out) = (s', pos', out')"
  shows "out' @ concat (drop pos' (se_sent s')) = out @ concat (drop pos (se_sent s)) @ outputs es"
  using assms
proof (induction es arbitrary: s pos out)
  case (Cons e es)
  show ?case
  proof (cases e)
    case (Output now bytes)
    with Cons.prems Cons.IH [of pos "push_output now bytes s" out] show ?thesis
      by (auto simp: push_output_def touch_def Suc_diff_le split: if_splits)
  next
    case Deliver
    show ?thesis
    proof (cases "pos < length (se_sent s)")
      case True
      then have d: "drop pos (se_sent s) = (se_sent s ! pos) # drop (Suc pos) (se_sent s)"
        by (rule Cons_nth_drop_Suc [symmetric])
      from Cons.prems(3) have "\<not> pos < length (se_sent s) - BROADCAST_CAPACITY" by linarith
      with True Deliver Cons.prems Cons.IH [of "Suc pos" s "out @ se_sent s ! pos"] show ?thesis
        by (simp add: pty_recv_def d Suc_diff_Suc)
    next
      case False
      moreover from False have "\<not> pos < length (se_sent s) - BROADCAST_CAPACITY" by linarith
      ultimately show ?thesis using Deliver Cons.prems Cons.IH [of pos s out] by (simp add: pty_recv_def)
    qed
  qed
qed simp

lemma length_sent_gap: "se_sent (fold (\<lambda>(now, bytes). push_output now bytes) gap s) =
    se_sent s @ filter (\<lambda>b. b \<noteq> []) (map snd gap)"
  by (induction gap arbitrary: s) (auto simp: push_output_def touch_def)

text \<open>
  A client that keeps up receives, in order, the last bytes of the session from before its replay and
  everything after its subscription. What is output between the replay and the subscription is in
  neither part, and the client never gets it.
\<close>

theorem replay_gap_is_lost:
  assumes "session_ok n s" and "keeps_up 0 events" and "client_loop s gap events = (s', pos, received)"
  shows "received @ concat (drop pos (se_sent s')) =
    last_bytes (max n 1) (concat (se_sent s)) @ outputs events"
proof -
  define s1 where "s1 = fold (\<lambda>(now, bytes). push_output now bytes) gap s"
  have "fold relay_step events (s1, length (se_sent s1), scrollback s) = (s', pos, received)"
    using assms(3) by (simp add: client_loop_def pty_subscribe_def Let_def s1_def)
  from relay_run [OF _ _ _ this] assms(2)
  have "received @ concat (drop pos (se_sent s')) = scrollback s @ outputs events" by simp
  then show ?thesis using assms(1) by (simp add: session_ok_def scrollback_def ring_snapshot_def)
qed

section \<open>A race\<close>

lemma run_one:
  assumes "pty_step\<^sup>*\<^sup>* x (st, ts)" and "k < length ts" and "task_step now (ts ! k) st = (st', t')"
  shows "pty_step\<^sup>*\<^sup>* x (st', ts[k := t'])"
  using assms(1) pty_step.run [OF assms(2,3)] by (rule rtranclp.rtrancl_into_rtrancl)

text \<open>
  Two clients that find the same expired session both remove it by its reconnect id, and the second
  removal does not look at what it removes: if a third client has created a new session in between, the
  new session is lost to the store while the client still holds it. No later client can rejoin it.
\<close>

theorem expired_attach_drops_new_session:
  assumes "store_ok st" and "hm_get (st_sessions st) i = Some r" and "se_agent_id (st_heap st ! r) = a"
    and "se_grace_deadline (st_heap st ! r) = Some d" and "d \<le> now"
  shows "\<exists>st' r'. pty_step\<^sup>*\<^sup>* (st, [Reading ClientSide i a, Reading ClientSide i a, Reading ClientSide i a])
      (st', [Refused ClientSide i a Closed, Refused ClientSide i a Closed, Holding ClientSide i a r']) \<and>
    r' < length (st_heap st') \<and> r' \<noteq> r \<and> hm_get (st_sessions st') i = None"
proof -
  have expire: "check_existing now a r st = Expire"
    using assms by (simp add: check_existing_def)
  define st1 where "st1 = remove_session i st"
  define st2 where "st2 = fst (create_session now i a st1)"
  let ?n = "length (st_heap st)"
  have get1: "hm_get (st_sessions st1) i = None" "st_heap st1 = st_heap st"
    using assms(1) by (simp_all add: st1_def remove_session_def store_ok_def hm.get_remove)
  then have c: "create_session now i a st1 = (st2, Ok ?n)"
    by (simp add: st2_def create_session_def Let_def)
  define st3 where "st3 = on_session ?n (touch now) (on_session ?n add_reader st2)"
  define st4 where "st4 = remove_session i st3"
  let ?x = "(st, [Reading ClientSide i a, Reading ClientSide i a, Reading ClientSide i a])"
  let ?R = "Reading ClientSide i a" and ?E = "Expiring ClientSide i a" and ?F = "Refused ClientSide i a Closed"
  have "pty_step\<^sup>*\<^sup>* ?x (st, [?E, ?R, ?R])"
    using run_one [OF run_one [of ?x st "[?R, ?R, ?R]" 0 now st "Checking ClientSide i a r"], of 0 now st ?E] assms(2) expire
    by simp
  then have "pty_step\<^sup>*\<^sup>* ?x (st, [?E, ?E, ?R])"
    using run_one [OF run_one [of ?x st "[?E, ?R, ?R]" 1 now st "Checking ClientSide i a r"], of 1 now st ?E] assms(2) expire
    by simp
  then have "pty_step\<^sup>*\<^sup>* ?x (st1, [?E, ?F, ?R])"
    using run_one [of ?x st "[?E, ?E, ?R]" 1 now st1 ?F] by (simp add: st1_def)
  then have "pty_step\<^sup>*\<^sup>* ?x (st1, [?E, ?F, Creating ClientSide i a])"
    using run_one [of ?x st1 "[?E, ?F, ?R]" 2 now st1 "Creating ClientSide i a"] get1 by simp
  then have "pty_step\<^sup>*\<^sup>* ?x (st2, [?E, ?F, Binding ClientSide i a ?n])"
    using run_one [of ?x st1 "[?E, ?F, Creating ClientSide i a]" 2 now st2 "Binding ClientSide i a ?n"] c by simp
  then have "pty_step\<^sup>*\<^sup>* ?x (on_session ?n add_reader st2, [?E, ?F, Touching ClientSide i a ?n])"
    using run_one [of ?x st2 "[?E, ?F, Binding ClientSide i a ?n]" 2 now "on_session ?n add_reader st2" "Touching ClientSide i a ?n"]
    by simp
  then have "pty_step\<^sup>*\<^sup>* ?x (st3, [?E, ?F, Holding ClientSide i a ?n])"
    using run_one [of ?x "on_session ?n add_reader st2" "[?E, ?F, Touching ClientSide i a ?n]" 2 now st3 "Holding ClientSide i a ?n"]
    by (simp add: st3_def)
  then have "pty_step\<^sup>*\<^sup>* ?x (st4, [?F, ?F, Holding ClientSide i a ?n])"
    using run_one [of ?x st3 "[?E, ?F, Holding ClientSide i a ?n]" 0 now st4 ?F] by (simp add: st4_def)
  moreover have "?n < length (st_heap st4)"
    using c get1 by (auto simp: st4_def st3_def remove_session_def on_session_def create_session_def Let_def)
  moreover have "hm_wf (st_sessions st3)"
    using assms(1) get1
    by (simp add: st3_def st2_def st1_def remove_session_def on_session_def create_session_def Let_def store_ok_def
        hm.wf_insert hm.wf_remove)
  then have "hm_get (st_sessions st4) i = None" by (simp add: st4_def remove_session_def hm.get_remove)
  moreover have "?n \<noteq> r" using get_in_heap [OF assms(1,2)] by simp
  ultimately show ?thesis by blast
qed

section \<open>Admission to the endpoint\<close>

record ('h, 'e) pty_env =
  pe_find_agent :: "uuid \<Rightarrow> ('e, bool) result"
  pe_find_workspace :: "uuid \<Rightarrow> ('e, WorkspaceRecord option) result"
  pe_authenticate :: "'h \<Rightarrow> ('e, Actor option) result"
  pe_token_header :: "'h \<Rightarrow> string option"

record ReconnectingPtyQuery =
  q_reconnect_id :: "uuid option"
  q_signed_token :: "string option"

datatype 'e Admission =
    FailedWith 'e | NotFoundResponse | UnauthorizedResponse string | BadRequestResponse string | UpgradeSocket

definition or_else :: "'a option \<Rightarrow> 'a option \<Rightarrow> 'a option" where
  "or_else a b = (case a of Some x \<Rightarrow> Some x | None \<Rightarrow> b)"

definition pty_identified ::
  "uuid_codec \<Rightarrow> 'k token_env \<Rightarrow> ('h, 'e) pty_env \<Rightarrow> byte list \<Rightarrow> int \<Rightarrow> 'h \<Rightarrow> uuid \<Rightarrow> string option \<Rightarrow> 'e Admission option" where
  "pty_identified U T V key now headers agent_id signed_token =
     (case signed_token of
        Some token \<Rightarrow>
          (case pe_find_workspace V agent_id of
             Inl e \<Rightarrow> Some (FailedWith e)
           | Inr None \<Rightarrow> Some NotFoundResponse
           | Inr (Some workspace) \<Rightarrow>
               (case verify_signed_token U T key token (w_id workspace) agent_id now of
                  Inl _ \<Rightarrow> Some (UnauthorizedResponse ''Invalid reconnecting-PTY signed token.'')
                | Inr _ \<Rightarrow> None))
      | None \<Rightarrow>
          (case pe_authenticate V headers of
             Inl e \<Rightarrow> Some (FailedWith e)
           | Inr None \<Rightarrow> Some (UnauthorizedResponse ''Missing or invalid session token.'')
           | Inr (Some _) \<Rightarrow> None))"

definition get_workspace_agent_pty ::
  "uuid_codec \<Rightarrow> 'k token_env \<Rightarrow> ('h, 'e) pty_env \<Rightarrow> byte list \<Rightarrow> int \<Rightarrow> 'h \<Rightarrow> uuid \<Rightarrow> ReconnectingPtyQuery \<Rightarrow> 'e Admission" where
  "get_workspace_agent_pty U T V key now headers agent_id params =
     (case pe_find_agent V agent_id of
        Inl e \<Rightarrow> FailedWith e
      | Inr False \<Rightarrow> NotFoundResponse
      | Inr True \<Rightarrow>
          (case pty_identified U T V key now headers agent_id (or_else (pe_token_header V headers) (q_signed_token params)) of
             Some response \<Rightarrow> response
           | None \<Rightarrow>
               (case q_reconnect_id params of
                  None \<Rightarrow> BadRequestResponse ''Missing reconnect_id params parameter.''
                | Some _ \<Rightarrow> UpgradeSocket)))"

text \<open>The check the sibling endpoints make: \<open>None\<close> lets the caller through.\<close>

definition authorize_agent_workspace ::
  "uuid_codec \<Rightarrow> ('h, 'e) pty_env \<Rightarrow> Actor \<Rightarrow> uuid \<Rightarrow> Action \<Rightarrow> 'e Admission option" where
  "authorize_agent_workspace U V actor agent_id action =
     (case pe_find_workspace V agent_id of
        Inl e \<Rightarrow> Some (FailedWith e)
      | Inr None \<Rightarrow> Some NotFoundResponse
      | Inr (Some workspace) \<Rightarrow>
          let rbac_obj = in_org (with_owner (Object_new Workspace) (w_owner_id workspace)) (w_organization_id workspace)
          in if is_ok (authorize U actor action rbac_obj) then None else Some NotFoundResponse)"

definition get_workspace_agent_coordinate :: "uuid_codec \<Rightarrow> ('h, 'e) pty_env \<Rightarrow> 'h \<Rightarrow> uuid \<Rightarrow> 'e Admission" where
  "get_workspace_agent_coordinate U V headers agent_id =
     (case pe_authenticate V headers of
        Inl e \<Rightarrow> FailedWith e
      | Inr None \<Rightarrow> UnauthorizedResponse ''Missing or invalid session token.''
      | Inr (Some actor) \<Rightarrow>
          (case pe_find_agent V agent_id of
             Inl e \<Rightarrow> FailedWith e
           | Inr False \<Rightarrow> NotFoundResponse
           | Inr True \<Rightarrow>
               (case authorize_agent_workspace U V actor agent_id Ssh of
                  Some response \<Rightarrow> response
                | None \<Rightarrow> UpgradeSocket)))"

text \<open>
  C36. The terminal endpoint does not ask the authorizer. Whoever is logged in is connected to the terminal
  of any agent, also where the policy refuses the actor to open a shell in the workspace; the
  coordination endpoint of the same agent answers that actor that the agent does not exist.
\<close>

theorem terminal_skips_authorization:
  assumes "pe_find_agent V agent_id = Ok True" and "pe_authenticate V headers = Ok (Some actor)"
    and "pe_token_header V headers = None" and "q_signed_token params = None" and "q_reconnect_id params = Some i"
    and "pe_find_workspace V agent_id = Ok (Some w)"
    and "\<not> permitted U actor Ssh (in_org (with_owner (Object_new Workspace) (w_owner_id w)) (w_organization_id w))"
  shows "get_workspace_agent_pty U T V key now headers agent_id params = UpgradeSocket \<and>
    get_workspace_agent_coordinate U V headers agent_id = NotFoundResponse"
proof -
  have "\<not> is_ok (authorize U actor Ssh (in_org (with_owner (Object_new Workspace) (w_owner_id w)) (w_organization_id w)))"
    using assms(7) by (simp add: authorize_Ok_iff permitted_def allows_object_iff Let_def)
  with assms show ?thesis
    by (simp add: get_workspace_agent_pty_def pty_identified_def or_else_def get_workspace_agent_coordinate_def
        authorize_agent_workspace_def Let_def)
qed


section \<open>Witnesses\<close>

definition demo_pty :: PtyStore where
  "demo_pty = store_with_options \<lparr> buffer_bytes = 4, agent_grace = 60, idle_timeout = 3600 \<rparr>"

definition demo_session :: PtySession where
  "demo_session = (session_new 0 7 4) \<lparr> se_grace_deadline := Some 5 \<rparr>"

definition expired_pty :: PtyStore where
  "expired_pty = demo_pty \<lparr> st_sessions := [(1, 0)], st_heap := [demo_session] \<rparr>"

lemma expired_pty_ok: "store_ok expired_pty"
  by (simp add: store_ok_def expired_pty_def demo_pty_def store_with_options_def demo_session_def session_ok_def
      session_new_def ring_new_def last_bytes_def hm_defs)

theorem expired_attach_drops_new_session_witness:
  "\<exists>st' r'. pty_step\<^sup>*\<^sup>* (expired_pty, [Reading ClientSide 1 7, Reading ClientSide 1 7, Reading ClientSide 1 7])
      (st', [Refused ClientSide 1 7 Closed, Refused ClientSide 1 7 Closed, Holding ClientSide 1 7 r']) \<and>
    r' < length (st_heap st') \<and> r' \<noteq> 0 \<and> hm_get (st_sessions st') 1 = None"
  by (rule expired_attach_drops_new_session [OF expired_pty_ok, where now = 9 and d = 5])
    (simp_all add: expired_pty_def demo_session_def session_new_def hm_defs)

lemma demo_attached:
  "reachable pty_init pty_step
     (on_session 0 (touch 3) (on_session 0 add_reader (fst (create_session 3 1 7 demo_pty))), [Holding ClientSide 1 7 0])"
proof -
  have init: "reachable pty_init pty_step (demo_pty, [])"
    by (rule reach_init) (auto simp: pty_init_def demo_pty_def)
  have run: "reachable pty_init pty_step (st', [t'])"
    if "reachable pty_init pty_step (st, [t])" "task_step 3 t st = (st', t')" for st t st' t'
    using reach_step [OF that(1) pty_step.run [of 0 "[t]" 3]] that(2) by simp
  have c: "create_session 3 1 7 demo_pty = (fst (create_session 3 1 7 demo_pty), Ok 0)"
    by (simp add: create_session_def demo_pty_def store_with_options_def hm_defs Let_def)
  have none: "hm_get (st_sessions demo_pty) 1 = None" by (simp add: demo_pty_def store_with_options_def hm_defs)
  have "reachable pty_init pty_step (demo_pty, [Reading ClientSide 1 7])"
    using reach_step [OF init pty_step.attach] by simp
  then have "reachable pty_init pty_step (demo_pty, [Creating ClientSide 1 7])" by (rule run) (simp add: none)
  then have "reachable pty_init pty_step (fst (create_session 3 1 7 demo_pty), [Binding ClientSide 1 7 0])"
    by (rule run) (subst task_step.simps, subst c, simp)
  then have "reachable pty_init pty_step (on_session 0 add_reader (fst (create_session 3 1 7 demo_pty)), [Touching ClientSide 1 7 0])"
    by (rule run) simp
  then show ?thesis by (rule run) simp
qed

theorem guards_see_their_agent_witness:
  "se_agent_id (st_heap (on_session 0 (touch 3) (on_session 0 add_reader (fst (create_session 3 1 7 demo_pty)))) ! 0) = 7"
  using guards_see_their_agent [OF demo_attached, of ClientSide 1 7 0] by simp

text \<open>A session with output; two bytes arrive between the replay and the subscription.\<close>

definition busy_session :: PtySession where
  "busy_session = push_output 1 [1, 2, 3] (push_output 0 [9, 9] (session_new 0 7 4))"

theorem replay_gap_is_lost_witness:
  "\<exists>s' pos. client_loop busy_session [(2, [4, 5])] [Output 3 [6], Deliver] = (s', pos, [9, 1, 2, 3, 6])"
proof -
  obtain s' pos received where l: "client_loop busy_session [(2, [4, 5])] [Output 3 [6], Deliver] = (s', pos, received)"
    by (metis prod_cases3)
  have ok: "session_ok 4 busy_session"
    using keeps_session_push session_new_ok [of 4 0 7] by (simp add: busy_session_def keeps_session_def)
  have sent: "se_sent busy_session = [[9, 9], [1, 2, 3]]"
    by (simp add: busy_session_def push_output_def touch_def session_new_def)
  have rest: "drop pos (se_sent s') = []"
    using l by (auto simp: client_loop_def pty_subscribe_def pty_recv_def push_output_def touch_def sent
        BROADCAST_CAPACITY_def Let_def)
  have "received @ concat (drop pos (se_sent s')) =
      last_bytes (max 4 1) (concat (se_sent busy_session)) @ outputs [Output 3 [6], Deliver]"
    by (rule replay_gap_is_lost [OF ok _ l]) (simp add: BROADCAST_CAPACITY_def)
  with rest have "received = [9, 1, 2, 3, 6]" by (simp add: sent last_bytes_def)
  with l show ?thesis by blast
qed

definition stranger :: Actor where
  "stranger = (owner hyphenated_codec) \<lparr> a_site_roles := [] \<rparr>"

definition demo_pty_env :: "(unit, unit) pty_env" where
  "demo_pty_env = \<lparr> pe_find_agent = (\<lambda>_. Ok True), pe_find_workspace = (\<lambda>_. Ok (Some demo_workspace)),
     pe_authenticate = (\<lambda>_. Ok (Some stranger)), pe_token_header = (\<lambda>_. None) \<rparr>"

theorem terminal_skips_authorization_witness:
  "get_workspace_agent_pty hyphenated_codec demo_tokens demo_pty_env [] 0 () 5
     \<lparr> q_reconnect_id = Some 1, q_signed_token = None \<rparr> = UpgradeSocket \<and>
   get_workspace_agent_coordinate hyphenated_codec demo_pty_env () 5 = NotFoundResponse"
proof (rule terminal_skips_authorization)
  show "\<not> permitted hyphenated_codec stranger Ssh
      (in_org (with_owner (Object_new Workspace) (w_owner_id demo_workspace)) (w_organization_id demo_workspace))"
    by (simp add: permitted_def holds_role_def acl_entry_def stranger_def owner_def owner_of_def object_defs hm_defs)
qed (simp_all add: demo_pty_env_def)


end
