(* ===== verification/Session_Cache.thy ===== *)
theory Session_Cache
  imports Auth_Tables
begin

text \<open>
  The in-memory session cache, \<open>crates/coder-auth/src/session_cache.rs\<close>. Instants of the monotonic clock are integers and
  \<open>elapsed\<close> saturates at zero, as in the standard library; every operation holds the lock of the map, so operations are
  atomic. The counters of the metrics are left out.
\<close>

section \<open>Cache\<close>

record CachedSession =
  cs_user :: AuthenticatedUser
  cs_cached_at :: instant

record SessionCache =
  sc_entries :: "(byte list, CachedSession) hash_map"
  sc_ttl :: int
  sc_insert_count :: "64 word"

definition SWEEP_INTERVAL :: "64 word" where "SWEEP_INTERVAL = 100"
definition SWEEP_SIZE_THRESHOLD :: nat where "SWEEP_SIZE_THRESHOLD = 10000"

definition elapsed :: "instant \<Rightarrow> instant \<Rightarrow> int" where
  "elapsed now at = max 0 (now - at)"

definition cache_new :: "int \<Rightarrow> SessionCache" where
  "cache_new ttl = \<lparr> sc_entries = hm_empty, sc_ttl = ttl, sc_insert_count = 0 \<rparr>"

definition cache_get :: "instant \<Rightarrow> SessionCache \<Rightarrow> byte list \<Rightarrow> AuthenticatedUser option" where
  "cache_get now c token_hash =
     (case hm_get (sc_entries c) token_hash of
        Some cached \<Rightarrow> if elapsed now (cs_cached_at cached) < sc_ttl c then Some (cs_user cached) else None
      | None \<Rightarrow> None)"

definition sweep :: "instant \<Rightarrow> SessionCache \<Rightarrow> SessionCache" where
  "sweep now c = c \<lparr> sc_entries := filter (\<lambda>(h, cached). elapsed now (cs_cached_at cached) < sc_ttl c) (sc_entries c) \<rparr>"

definition cache_insert :: "instant \<Rightarrow> byte list \<Rightarrow> AuthenticatedUser \<Rightarrow> SessionCache \<Rightarrow> SessionCache" where
  "cache_insert now token_hash user c =
     (let count = sc_insert_count c;
          c = c \<lparr> sc_insert_count := count + 1 \<rparr>;
          should_sweep = (count mod SWEEP_INTERVAL = 0 \<or> SWEEP_SIZE_THRESHOLD \<le> length (sc_entries c));
          c = (if should_sweep then sweep now c else c)
      in c \<lparr> sc_entries := hm_insert token_hash \<lparr> cs_user = user, cs_cached_at = now \<rparr> (sc_entries c) \<rparr>)"

definition cache_evict :: "byte list \<Rightarrow> SessionCache \<Rightarrow> SessionCache" where
  "cache_evict token_hash c = c \<lparr> sc_entries := hm_remove token_hash (sc_entries c) \<rparr>"

definition cache_evict_user :: "uuid \<Rightarrow> SessionCache \<Rightarrow> SessionCache" where
  "cache_evict_user user_id c = c \<lparr> sc_entries := filter (\<lambda>(h, cached). au_id (cs_user cached) \<noteq> user_id) (sc_entries c) \<rparr>"

definition cache_len :: "SessionCache \<Rightarrow> nat" where
  "cache_len c = length (sc_entries c)"

definition cache_is_empty :: "SessionCache \<Rightarrow> bool" where
  "cache_is_empty c \<longleftrightarrow> sc_entries c = []"

section \<open>The interface its client relies on\<close>

text \<open>
  A cache of vouched users: \<open>vouched\<close> lists who is bound to a token and since when. A lookup only returns what is vouched
  for and young enough; inserting vouches for one binding as of now and may forget others; evicting forgets.
\<close>

locale voucher_cache =
  fixes valid :: "'c \<Rightarrow> bool"
    and vouched :: "'c \<Rightarrow> ('k \<times> 'u \<times> int) set"
    and ttl :: "'c \<Rightarrow> int"
    and get :: "int \<Rightarrow> 'c \<Rightarrow> 'k \<Rightarrow> 'u option"
    and ins :: "int \<Rightarrow> 'k \<Rightarrow> 'u \<Rightarrow> 'c \<Rightarrow> 'c"
    and evict :: "'k \<Rightarrow> 'c \<Rightarrow> 'c"
    and evict_owner :: "'o \<Rightarrow> 'c \<Rightarrow> 'c"
    and owner_of :: "'u \<Rightarrow> 'o"
  assumes get_vouched: "valid c \<Longrightarrow> get now c k = Some u \<Longrightarrow> \<exists>at. (k, u, at) \<in> vouched c \<and> now - at < ttl c"
    and get_ins: "valid c \<Longrightarrow> 0 < ttl c \<Longrightarrow> get now (ins now k u c) k = Some u"
    and vouched_ins: "valid c \<Longrightarrow> vouched (ins now k u c) \<subseteq> insert (k, u, now) (vouched c)"
    and vouched_evict: "valid c \<Longrightarrow> vouched (evict k c) = {(k', u, at) \<in> vouched c. k' \<noteq> k}"
    and vouched_evict_owner: "valid c \<Longrightarrow> vouched (evict_owner w c) = {(k, u, at) \<in> vouched c. owner_of u \<noteq> w}"
    and valid_ins: "valid c \<Longrightarrow> valid (ins now k u c)"
    and valid_evict: "valid c \<Longrightarrow> valid (evict k c)"
    and valid_evict_owner: "valid c \<Longrightarrow> valid (evict_owner w c)"
    and ttl_ins: "ttl (ins now k u c) = ttl c"
    and ttl_evict: "ttl (evict k c) = ttl c"
    and ttl_evict_owner: "ttl (evict_owner w c) = ttl c"
begin

lemma evict_shrinks: "valid c \<Longrightarrow> vouched (evict k c) \<subseteq> vouched c"
  by (auto simp: vouched_evict)

lemma evict_owner_shrinks: "valid c \<Longrightarrow> vouched (evict_owner w c) \<subseteq> vouched c"
  by (auto simp: vouched_evict_owner)

lemma get_evicted: "valid c \<Longrightarrow> get now (evict k c) k = None"
  using get_vouched [OF valid_evict, of c now k k] by (cases "get now (evict k c) k") (auto simp: vouched_evict)

lemma get_evicted_owner: "valid c \<Longrightarrow> get now (evict_owner w c) k = Some u \<Longrightarrow> owner_of u \<noteq> w"
  using get_vouched [OF valid_evict_owner] by (fastforce simp: vouched_evict_owner)

text \<open>What a sequence of operations vouches for was vouched for before or inserted by one of them.\<close>

lemma not_vouched_ins: "valid c \<Longrightarrow> (\<And>at. (k, u, at) \<notin> vouched c) \<Longrightarrow> k' \<noteq> k \<Longrightarrow> (k, u, at) \<notin> vouched (ins now k' u' c)"
  using vouched_ins by fastforce

end

section \<open>The cache provides it\<close>

definition cache_valid :: "SessionCache \<Rightarrow> bool" where
  "cache_valid c \<longleftrightarrow> hm_wf (sc_entries c)"

definition cache_vouched :: "SessionCache \<Rightarrow> (byte list \<times> AuthenticatedUser \<times> instant) set" where
  "cache_vouched c = {(h, u, at). hm_get (sc_entries c) h = Some \<lparr> cs_user = u, cs_cached_at = at \<rparr>}"

lemma hm_filter:
  assumes "hm_wf m"
  shows "hm_wf (filter p m)" "hm_get (filter p m) k = (case hm_get m k of Some v \<Rightarrow> if p (k, v) then Some v else None | None \<Rightarrow> None)"
proof -
  show "hm_wf (filter p m)" using assms by (simp add: hm_wf_def distinct_map_filter)
  show "hm_get (filter p m) k = (case hm_get m k of Some v \<Rightarrow> if p (k, v) then Some v else None | None \<Rightarrow> None)"
    using assms
  proof (induction m)
    case (Cons x m)
    then have "map_of m (fst x) = None" by (simp add: hm_wf_def map_of_eq_None_iff)
    with Cons show ?case by (cases x) (auto simp: hm_defs split: option.splits)
  qed (simp add: hm_defs)
qed

lemma sweep_valid: "hm_wf (sc_entries c) \<Longrightarrow> hm_wf (sc_entries (sweep now c))"
  by (simp add: sweep_def hm_filter)

lemma sweep_get: "hm_wf (sc_entries c) \<Longrightarrow> hm_get (sc_entries (sweep now c)) h = Some s \<Longrightarrow> hm_get (sc_entries c) h = Some s"
  by (auto simp: sweep_def hm_filter split: option.splits if_splits)

interpretation sc: voucher_cache cache_valid cache_vouched sc_ttl cache_get cache_insert cache_evict cache_evict_user au_id
proof unfold_locales
  fix c now k u w
  show "cache_valid c \<Longrightarrow> cache_get now c k = Some u \<Longrightarrow> \<exists>at. (k, u, at) \<in> cache_vouched c \<and> now - at < sc_ttl c"
    by (auto simp: cache_get_def cache_vouched_def elapsed_def split: option.splits if_splits)
       (metis CachedSession.surjective max_less_iff_conj old.unit.exhaust)
  show "cache_valid c \<Longrightarrow> 0 < sc_ttl c \<Longrightarrow> cache_get now (cache_insert now k u c) k = Some u"
    by (simp add: cache_insert_def cache_get_def Let_def elapsed_def sweep_def)
  show "cache_valid c \<Longrightarrow> cache_vouched (cache_insert now k u c) \<subseteq> insert (k, u, now) (cache_vouched c)"
    by (auto simp: cache_insert_def cache_vouched_def cache_valid_def Let_def hm.get_insert dest!: sweep_get [rotated] split: if_splits)
  show "cache_valid c \<Longrightarrow> cache_vouched (cache_evict k c) = {(k', u, at) \<in> cache_vouched c. k' \<noteq> k}"
    by (auto simp: cache_evict_def cache_vouched_def cache_valid_def hm.get_remove split: if_splits)
  show "cache_valid c \<Longrightarrow> cache_vouched (cache_evict_user w c) = {(k, u, at) \<in> cache_vouched c. au_id u \<noteq> w}"
    by (auto simp: cache_evict_user_def cache_vouched_def cache_valid_def hm_filter split: option.splits if_splits)
  show "cache_valid c \<Longrightarrow> cache_valid (cache_insert now k u c)"
    by (simp add: cache_insert_def cache_valid_def Let_def hm.wf_insert sweep_valid)
  show "cache_valid c \<Longrightarrow> cache_valid (cache_evict k c)"
    by (simp add: cache_evict_def cache_valid_def hm.wf_remove)
  show "cache_valid c \<Longrightarrow> cache_valid (cache_evict_user w c)"
    by (simp add: cache_evict_user_def cache_valid_def hm_filter)
qed (simp_all add: cache_insert_def cache_evict_def cache_evict_user_def sweep_def Let_def)

end
