(* ===== verification/Passwords.thy ===== *)
theory Passwords
  imports Rust_Text Hex_Text
begin

text \<open>
  Password and session-token helpers, \<open>crates/coder-core/src/password.rs\<close>: the rules for user names, display names,
  e-mail addresses and passwords, the storage format of password hashes, and session tokens. PBKDF2, SHA-256, base64 and
  the random generator belong to third-party crates and are parameters: \<open>pw_pbkdf2\<close> derives the hash of a password from
  salt and iterations, \<open>pw_encode\<close> and \<open>pw_decode\<close> are the unpadded base64 engine, \<open>pw_sha256\<close> the digest. Random bytes
  are arguments.
\<close>

section \<open>Errors\<close>

datatype PasswordError = Validation string | InvalidHash string

fun password_error_display :: "PasswordError \<Rightarrow> string" where
  "password_error_display (Validation m) = m"
| "password_error_display (InvalidHash m) = ''stored password hash is invalid: '' @ m"

section \<open>Validation\<close>

definition is_ascii_alphanumeric :: "char \<Rightarrow> bool" where
  "is_ascii_alphanumeric c \<longleftrightarrow>
     (let n = (of_char c :: nat) in 48 \<le> n \<and> n \<le> 57 \<or> 65 \<le> n \<and> n \<le> 90 \<or> 97 \<le> n \<and> n \<le> 122)"

text \<open>The loop over the characters of a user name; the flag says whether the previous one was a hyphen.\<close>

fun username_loop :: "bool \<Rightarrow> string \<Rightarrow> (PasswordError, unit) result" where
  "username_loop previous_hyphen [] = Ok ()"
| "username_loop previous_hyphen (c # cs) =
     (if c = CHR ''-'' then
        if previous_hyphen then Err (Validation ''must be alphanumeric with hyphens'') else username_loop True cs
      else if \<not> is_ascii_alphanumeric c then Err (Validation ''must be alphanumeric with hyphens'')
      else username_loop False cs)"

definition validate_username :: "string \<Rightarrow> (PasswordError, unit) result" where
  "validate_username username =
     (let n = length username in
      if n = 0 then Err (Validation ''must be >= 1 character'')
      else if 32 < n then Err (Validation ''must be <= 32 characters'')
      else if username \<in> {''new'', ''create''} then
        Err (Validation (''cannot use '' @ [CHR 0x22] @ username @ [CHR 0x22] @ '' as a name''))
      else
        (case username_loop False username of
           Inl e \<Rightarrow> Err e
         | Inr _ \<Rightarrow>
             if hd username = CHR ''-'' \<or> last username = CHR ''-''
             then Err (Validation ''must be alphanumeric with hyphens'') else Ok ()))"

definition validate_real_name :: "string \<Rightarrow> (PasswordError, unit) result" where
  "validate_real_name name =
     (if 128 < length name then Err (Validation ''must be <= 128 characters'')
      else if trim name \<noteq> name then Err (Validation ''must not have leading or trailing whitespace'')
      else Ok ())"

definition normalize_real_name :: "string \<Rightarrow> string" where
  "normalize_real_name name = take 128 (trim name)"

definition validate_email :: "string \<Rightarrow> (PasswordError, unit) result" where
  "validate_email email =
     (let trimmed = trim email;
          parts = split_on CHR ''@'' trimmed;
          local = hd parts;
          domain = (if 1 < length parts then parts ! 1 else []);
          extra = (2 < length parts)
      in if trimmed = [] \<or> local = [] \<or> domain = [] \<or> extra \<or> CHR ''.'' \<notin> set domain
         then Err (Validation ''must be a valid email'') else Ok ())"

definition validate_password :: "string \<Rightarrow> (PasswordError, unit) result" where
  "validate_password password =
     (let n = length password in
      if n = 0 then Err (Validation ''must be >= 1 character'')
      else if 64 < n then Err (Validation ''password must be no more than 64 characters'')
      else if n < 8 then Err (Validation ''password must be at least 8 characters'')
      else Ok ())"

section \<open>Password hashes\<close>

record pw_env =
  pw_pbkdf2 :: "string \<Rightarrow> byte list \<Rightarrow> nat \<Rightarrow> byte list"
  pw_encode :: "byte list \<Rightarrow> string"
  pw_decode :: "string \<Rightarrow> (string, byte list) result"
  pw_sha256 :: "string \<Rightarrow> byte list"

definition HASH_SCHEME :: string where "HASH_SCHEME = ''pbkdf2-sha256''"
definition HASH_ITERATIONS :: nat where "HASH_ITERATIONS = 65535"

text \<open>\<open>str::parse::<u32>\<close>, with the messages of \<open>ParseIntError\<close>.\<close>

fun u32_digits :: "nat \<Rightarrow> string \<Rightarrow> (string, nat) result" where
  "u32_digits acc [] = Ok acc"
| "u32_digits acc (c # cs) =
     (case digit_value c of
        None \<Rightarrow> Err ''invalid digit found in string''
      | Some d \<Rightarrow>
          if 2 ^ 32 \<le> acc * 10 + d then Err ''number too large to fit in target type''
          else u32_digits (acc * 10 + d) cs)"

definition parse_u32 :: "string \<Rightarrow> (string, nat) result" where
  "parse_u32 s =
     (if s = [] then Err ''cannot parse integer from empty string''
      else if s = ''+'' \<or> s = ''-'' then Err ''invalid digit found in string''
      else u32_digits 0 (if hd s = CHR ''+'' then tl s else s))"

definition encode_password_hash :: "pw_env \<Rightarrow> string \<Rightarrow> byte list \<Rightarrow> nat \<Rightarrow> string" where
  "encode_password_hash W password salt iterations =
     ''$'' @ HASH_SCHEME @ ''$'' @ nat_str iterations @ ''$'' @ pw_encode W salt @ ''$'' @
     pw_encode W (pw_pbkdf2 W password salt iterations)"

definition hash_password :: "pw_env \<Rightarrow> byte list \<Rightarrow> string \<Rightarrow> (PasswordError, string) result" where
  "hash_password W salt password = Ok (encode_password_hash W password salt HASH_ITERATIONS)"

definition verify_password :: "pw_env \<Rightarrow> string \<Rightarrow> string \<Rightarrow> (PasswordError, bool) result" where
  "verify_password W stored_hash password =
     (case split_on CHR ''$'' stored_hash of
        [c0, c1, c2, c3, c4] \<Rightarrow>
          if c0 \<noteq> [] then Err (InvalidHash ''unexpected hash component count'')
          else if c1 \<noteq> HASH_SCHEME then Err (InvalidHash (''unexpected hash scheme: '' @ c1))
          else
            (case parse_u32 c2 of
               Inl e \<Rightarrow> Err (InvalidHash e)
             | Inr iterations \<Rightarrow>
                 (case pw_decode W c3 of
                    Inl e \<Rightarrow> Err (InvalidHash e)
                  | Inr salt \<Rightarrow> Ok (stored_hash = encode_password_hash W password salt iterations)))
      | _ \<Rightarrow> Err (InvalidHash ''unexpected hash component count''))"

section \<open>Session tokens\<close>

definition new_session_token :: "pw_env \<Rightarrow> byte list \<Rightarrow> string" where
  "new_session_token W random = pw_encode W random"

definition hash_session_token :: "pw_env \<Rightarrow> string \<Rightarrow> byte list" where
  "hash_session_token W token = pw_sha256 W token"

section \<open>What the base64 crate documents\<close>

text \<open>The engine decodes what it encoded, and its alphabet has neither a dollar sign nor a hyphen.\<close>

locale token_engine =
  fixes W :: pw_env
  assumes decode_encode [simp]: "pw_decode W (pw_encode W bs) = Inr bs"
    and encode_chars: "set (pw_encode W bs) \<inter> {CHR ''$'', CHR ''-''} = {}"
begin

lemma encode_eq [simp]: "pw_encode W a = pw_encode W b \<longleftrightarrow> a = b"
  by (metis decode_encode sum.inject(2))

lemma encode_no_dollar [simp]: "CHR ''$'' \<notin> set (pw_encode W bs)"
  using encode_chars by blast

lemma encode_no_hyphen [simp]: "CHR ''-'' \<notin> set (pw_encode W bs)"
  using encode_chars by blast

end

section \<open>Decimal iterations\<close>

lemma u32_digits_append:
  "u32_digits acc (xs @ [c]) =
     (case u32_digits acc xs of Inl e \<Rightarrow> Inl e | Inr a \<Rightarrow> u32_digits a [c])"
  by (induction xs arbitrary: acc) (auto split: option.splits)

lemma u32_digits_nat_str: "n < 2 ^ 32 \<Longrightarrow> u32_digits 0 (nat_str n) = Inr n"
proof (induction n rule: nat_str.induct)
  case (1 n)
  have d: "digit_value (digit_char (n mod 10)) = Some (n mod 10)" by (simp add: digit_value_digit_char)
  show ?case
  proof (cases "n < 10")
    case True
    then show ?thesis using d "1.prems" by (simp add: nat_str.simps [of n])
  next
    case False
    then have "u32_digits 0 (nat_str (n div 10)) = Inr (n div 10)" using 1 by simp
    then show ?thesis using False d "1.prems" by (simp add: nat_str.simps [of n] u32_digits_append)
  qed
qed

lemma nat_str_plain: "c \<in> set (nat_str n) \<Longrightarrow> c \<noteq> CHR ''$'' \<and> c \<noteq> CHR ''+'' \<and> c \<noteq> CHR ''-''"
  by (auto dest: nat_str_digits)

lemma parse_u32_nat_str: "n < 2 ^ 32 \<Longrightarrow> parse_u32 (nat_str n) = Inr n"
proof -
  assume n: "n < 2 ^ 32"
  obtain c cs where s: "nat_str n = c # cs" by (cases "nat_str n") auto
  then have "c \<noteq> CHR ''+''" "c \<noteq> CHR ''-''" using nat_str_plain [of c n] by simp_all
  with s u32_digits_nat_str [OF n] show ?thesis by (simp add: parse_u32_def)
qed

context token_engine
begin

lemma split_password_hash:
  "split_on CHR ''$'' (encode_password_hash W p salt n) =
     [[], HASH_SCHEME, nat_str n, pw_encode W salt, pw_encode W (pw_pbkdf2 W p salt n)]"
proof -
  have "CHR ''$'' \<notin> set HASH_SCHEME" "CHR ''$'' \<notin> set (nat_str n)"
    by (auto simp: HASH_SCHEME_def dest: nat_str_plain)
  then show ?thesis
    by (simp add: encode_password_hash_def split_on_append split_on_plain)
qed

lemma verify_encoded:
  "n < 2 ^ 32 \<Longrightarrow> verify_password W (encode_password_hash W p salt n) q =
     Ok (pw_pbkdf2 W p salt n = pw_pbkdf2 W q salt n)"
  by (simp add: verify_password_def split_password_hash parse_u32_nat_str) (simp add: encode_password_hash_def)

lemma token_not_split: "split_once CHR ''-'' (new_session_token W bs) = None"
  by (simp add: new_session_token_def split_once_None)

end

section \<open>User names\<close>

definition well_formed_username :: "string \<Rightarrow> bool" where
  "well_formed_username u \<longleftrightarrow>
     u \<noteq> [] \<and> length u \<le> 32 \<and> u \<noteq> ''new'' \<and> u \<noteq> ''create'' \<and>
     list_all (\<lambda>c. is_ascii_alphanumeric c \<or> c = CHR ''-'') u \<and>
     (\<forall>i. Suc i < length u \<longrightarrow> \<not> (u ! i = CHR ''-'' \<and> u ! Suc i = CHR ''-'')) \<and>
     hd u \<noteq> CHR ''-'' \<and> last u \<noteq> CHR ''-''"

lemma hyphen_not_alphanumeric [simp]: "\<not> is_ascii_alphanumeric (CHR ''-'')"
  by (simp add: is_ascii_alphanumeric_def)

lemma username_loop_exact:
  "username_loop prev u = Inr () \<longleftrightarrow>
     list_all (\<lambda>c. is_ascii_alphanumeric c \<or> c = CHR ''-'') u \<and>
     (\<forall>i. Suc i < length u \<longrightarrow> \<not> (u ! i = CHR ''-'' \<and> u ! Suc i = CHR ''-'')) \<and>
     (prev \<longrightarrow> u = [] \<or> hd u \<noteq> CHR ''-'')"
proof (induction prev u rule: username_loop.induct)
  case (2 prev c cs)
  have "(\<forall>i. Suc i < length (c # cs) \<longrightarrow> \<not> ((c # cs) ! i = CHR ''-'' \<and> (c # cs) ! Suc i = CHR ''-'')) \<longleftrightarrow>
      (\<forall>i. Suc i < length cs \<longrightarrow> \<not> (cs ! i = CHR ''-'' \<and> cs ! Suc i = CHR ''-'')) \<and>
      (c = CHR ''-'' \<longrightarrow> cs = [] \<or> hd cs \<noteq> CHR ''-'')"
    by (auto simp: All_less_Suc2 nth_Cons hd_conv_nth split: nat.splits)
  with 2 show ?case by auto
qed auto

lemma validate_username_exact: "validate_username u = Ok () \<longleftrightarrow> well_formed_username u"
  using username_loop_exact [of False u]
  by (cases "username_loop False u")
    (auto simp: validate_username_def well_formed_username_def Let_def split: sum.splits if_splits)

section \<open>A concrete instance\<close>

definition demo_pw :: pw_env where
  "demo_pw = \<lparr> pw_pbkdf2 = (\<lambda>p salt n. map (\<lambda>c. of_nat (of_char c)) p @ salt), pw_encode = hex_text,
     pw_decode = (\<lambda>s. case hex_bytes s of Some bs \<Rightarrow> Inr bs | None \<Rightarrow> Inl ''invalid''),
     pw_sha256 = map (\<lambda>c. of_nat (of_char c)) \<rparr>"

interpretation demo_pw: token_engine demo_pw
proof unfold_locales
  fix bs
  show "pw_decode demo_pw (pw_encode demo_pw bs) = Inr bs" by (simp add: demo_pw_def hex_bytes_text)
  show "set (pw_encode demo_pw bs) \<inter> {CHR ''$'', CHR ''-''} = {}"
    using set_hex_text [of bs] by (auto simp: demo_pw_def)
qed

section \<open>Properties\<close>

text \<open>
  A password verifies against the hash stored for a password exactly when PBKDF2 derives the same bytes for both; the
  stored text, with its scheme, iteration count and salt, is read back without loss.
\<close>

theorem password_hash_exact:
  assumes "token_engine W"
  shows "\<exists>h. hash_password W salt p = Ok h \<and>
    verify_password W h q = Ok (pw_pbkdf2 W p salt HASH_ITERATIONS = pw_pbkdf2 W q salt HASH_ITERATIONS)"
  using token_engine.verify_encoded [OF assms, of HASH_ITERATIONS p salt q]
  by (simp add: hash_password_def HASH_ITERATIONS_def)

theorem password_hash_exact_witness:
  "\<exists>h. hash_password demo_pw [1, 2] ''hunter22'' = Ok h \<and> verify_password demo_pw h ''hunter23'' = Ok False"
  using password_hash_exact [OF demo_pw.token_engine_axioms, of "[1, 2]" "''hunter22''" "''hunter23''"]
  by (simp add: demo_pw_def)

end
