(* ===== verification/Auth_Service.thy ===== *)
theory Auth_Service
  imports Session_Cache Passwords Rbac_Scope
begin

text \<open>
  The authentication service, \<open>AuthService\<close> of \<open>crates/coder-auth/src/lib.rs\<close>: sessions with their cache, passwords, one-time
  passcodes and API keys, over the tables of \<open>Auth_Tables\<close>. The state is the database and the cache. A call draws its
  random bytes and identifiers from its context, which also holds the two clocks: the wall clock is \<open>av_now\<close>, the monotonic
  clock of the cache \<open>ax_mono\<close>. Texts of header values are what \<open>HeaderValue::to_str\<close> accepts. Metrics and log lines are left out.
\<close>

section \<open>Requests\<close>

type_synonym headers = "(string \<times> string) list"

definition SESSION_TOKEN_HEADER :: string where "SESSION_TOKEN_HEADER = ''coder-session-token''"
definition SESSION_TOKEN_COOKIE :: string where "SESSION_TOKEN_COOKIE = ''coder_session_token''"
definition DEFAULT_SESSION_KEY_LIFETIME_SECS :: int where "DEFAULT_SESSION_KEY_LIFETIME_SECS = 60 * 60 * 24"
definition DEFAULT_TOKEN_KEY_LIFETIME_SECS :: int where "DEFAULT_TOKEN_KEY_LIFETIME_SECS = 60 * 60 * 24 * 30"
definition ONE_TIME_PASSCODE_VALIDITY_SECS :: int where "ONE_TIME_PASSCODE_VALIDITY_SECS = 60 * 30"

definition to_str :: "string \<Rightarrow> string option" where
  "to_str v = (if list_all (\<lambda>c. let n = (of_char c :: nat) in 32 \<le> n \<and> n < 127 \<or> n = 9) v then Some v else None)"

definition session_token_from_headers :: "headers \<Rightarrow> string option" where
  "session_token_from_headers hs = Option.bind (map_of hs SESSION_TOKEN_HEADER) to_str"

fun cookie_value :: "string \<Rightarrow> string list \<Rightarrow> string option" where
  "cookie_value name [] = None"
| "cookie_value name (entry # entries) =
     (case split_once CHR ''='' (trim entry) of
        Some (n, v) \<Rightarrow> if n = name then Some v else cookie_value name entries
      | None \<Rightarrow> cookie_value name entries)"

definition cookie_from_headers :: "headers \<Rightarrow> string \<Rightarrow> string option" where
  "cookie_from_headers hs name =
     Option.bind (Option.bind (map_of hs ''cookie'') to_str) (\<lambda>cookies. cookie_value name (split_on CHR '';'' cookies))"

record AuthenticatedRequest =
  ar_session_token :: string
  ar_user :: AuthenticatedUser
  ar_actor :: Actor

record ValidationError =
  ve_field :: string
  ve_detail :: string

datatype AuthServiceError =
    AuthStorage StorageError
  | AuthUnauthorized string
  | AuthForbidden string
  | AuthNotFound string
  | AuthBadRequest string "string option"
  | AuthValidation string "ValidationError list"
  | AuthConflict string "string option" "ValidationError list"

record AuthState =
  sv_db :: AuthDb
  sv_cache :: SessionCache

record auth_ctx =
  ax_env :: auth_env
  ax_pw :: pw_env
  ax_mono :: instant
  ax_random :: "byte list"
  ax_salt :: "byte list"
  ax_uuid :: uuid
  ax_uuid2 :: uuid
  ax_simple :: "uuid \<Rightarrow> string"

definition auth_service_new :: "AuthDb \<Rightarrow> AuthState" where
  "auth_service_new db = \<lparr> sv_db = db, sv_cache = cache_new (secs 30) \<rparr>"

definition actor_from_user :: "AuthenticatedUser \<Rightarrow> Actor" where
  "actor_from_user user =
     \<lparr> a_user_id = au_id user, a_username = au_username user, a_organization_ids = au_organization_ids user,
        a_site_roles = map sr_name (au_roles user), a_org_roles = au_org_roles user, a_groups = [],
        a_scope = None, a_scope_override = None \<rparr>"

definition actor_from_workspace_agent :: "uuid_codec \<Rightarrow> AuthenticatedUser \<Rightarrow> uuid \<Rightarrow> uuid \<Rightarrow> bool \<Rightarrow> Actor" where
  "actor_from_workspace_agent U owner workspace_id template_id block_user_data =
     (actor_from_user owner) \<lparr> a_scope_override :=
        Some (scope_workspace_agent U workspace_id template_id (au_id owner) block_user_data) \<rparr>"

section \<open>Sessions\<close>

definition request_token :: "headers \<Rightarrow> string option" where
  "request_token hs =
     (case session_token_from_headers hs of Some t \<Rightarrow> Some t | None \<Rightarrow> cookie_from_headers hs SESSION_TOKEN_COOKIE)"

definition authenticated_request :: "string \<Rightarrow> AuthenticatedUser \<Rightarrow> AuthenticatedRequest" where
  "authenticated_request token user = \<lparr> ar_session_token = token, ar_user = user, ar_actor = actor_from_user user \<rparr>"

text \<open>The database part of \<open>authenticate\<close> and its cache part are separate steps of concurrent requests.\<close>

definition authenticate_token :: "auth_ctx \<Rightarrow> string \<Rightarrow> AuthState \<Rightarrow> AuthState \<times> (StorageError, AuthenticatedRequest option) result" where
  "authenticate_token X token s =
     (let h = hash_session_token (ax_pw X) token in
      case cache_get (ax_mono X) (sv_cache s) h of
        Some user \<Rightarrow> (s, Ok (Some (authenticated_request token user)))
      | None \<Rightarrow>
          (case find_user_by_session_token_hash (ax_env X) h (sv_db s) of
             Inl e \<Rightarrow> (s, Err e)
           | Inr None \<Rightarrow> (s, Ok None)
           | Inr (Some user) \<Rightarrow>
               (s \<lparr> sv_cache := cache_insert (ax_mono X) h user (sv_cache s) \<rparr>,
                Ok (Some (authenticated_request token user)))))"

definition authenticate :: "auth_ctx \<Rightarrow> headers \<Rightarrow> AuthState \<Rightarrow> AuthState \<times> (StorageError, AuthenticatedRequest option) result" where
  "authenticate X hs s = (case request_token hs of None \<Rightarrow> (s, Ok None) | Some token \<Rightarrow> authenticate_token X token s)"

definition issue_session :: "auth_ctx \<Rightarrow> uuid \<Rightarrow> AuthState \<Rightarrow> AuthState \<times> (AuthServiceError, string) result" where
  "issue_session X user_id s =
     (let session_token = new_session_token (ax_pw X) (ax_random X);
          (db, r) = insert_auth_session (ax_env X) (hash_session_token (ax_pw X) session_token) user_id (sv_db s)
      in (s \<lparr> sv_db := db \<rparr>, case r of Inl e \<Rightarrow> Err (AuthStorage e) | Inr _ \<Rightarrow> Ok session_token))"

definition pw_storage :: "(PasswordError, 'a) result \<Rightarrow> (AuthServiceError, 'a) result" where
  "pw_storage r = (case r of Inl e \<Rightarrow> Err (AuthStorage (InvalidData (password_error_display e))) | Inr x \<Rightarrow> Ok x)"

definition may_log_in :: "UserRecord \<Rightarrow> bool" where
  "may_log_in u \<longleftrightarrow> \<not> (ur_deleted u \<or> ur_is_system u \<or> ur_login_type u \<noteq> Password \<or> ur_status u \<noteq> Active)"

definition login_with_password ::
  "auth_ctx \<Rightarrow> string \<Rightarrow> string \<Rightarrow> AuthState \<Rightarrow> AuthState \<times> (AuthServiceError, AuthenticatedUser \<times> string) result" where
  "login_with_password X email password s =
     (case find_password_user_by_email (ax_env X) (trim email) (sv_db s) of
        Inl e \<Rightarrow> (s, Err (AuthStorage e))
      | Inr None \<Rightarrow> (s, Err (AuthUnauthorized ''Incorrect email or password.''))
      | Inr (Some user_record) \<Rightarrow>
          if \<not> may_log_in (pu_user user_record) then (s, Err (AuthUnauthorized ''Incorrect email or password.''))
          else
            (case pw_storage (verify_password (ax_pw X) (pu_password_hash user_record) password) of
               Inl e \<Rightarrow> (s, Err e)
             | Inr False \<Rightarrow> (s, Err (AuthUnauthorized ''Incorrect email or password.''))
             | Inr True \<Rightarrow>
                 (case issue_session X (ur_id (pu_user user_record)) s of
                    (s, Inl e) \<Rightarrow> (s, Err e)
                  | (s, Inr token) \<Rightarrow> (s, Ok (authenticated_from (pu_user user_record), token)))))"

definition create_oauth_session :: "auth_ctx \<Rightarrow> UserRecord \<Rightarrow> AuthState \<Rightarrow> AuthState \<times> (AuthServiceError, string) result" where
  "create_oauth_session X user s = issue_session X (ur_id user) s"

definition logout :: "auth_ctx \<Rightarrow> string \<Rightarrow> AuthState \<Rightarrow> AuthState \<times> (StorageError, unit) result" where
  "logout X session_token s =
     (let h = hash_session_token (ax_pw X) session_token in
      case delete_auth_session (ax_env X) h (sv_db s) of
        (db, Inl e) \<Rightarrow> (s \<lparr> sv_db := db \<rparr>, Err e)
      | (db, Inr _) \<Rightarrow> (s \<lparr> sv_db := db, sv_cache := cache_evict h (sv_cache s) \<rparr>, Ok ()))"

section \<open>First user and passwords\<close>

definition push_validation :: "string \<Rightarrow> (PasswordError, unit) result \<Rightarrow> ValidationError list \<Rightarrow> ValidationError list" where
  "push_validation field r vs =
     (case r of Inl e \<Rightarrow> vs @ [\<lparr> ve_field = field, ve_detail = password_error_display e \<rparr>] | Inr _ \<Rightarrow> vs)"

record CreateFirstUserRequest =
  cf_email :: string
  cf_username :: string
  cf_name :: string
  cf_password :: string

definition validate_first_user_request :: "CreateFirstUserRequest \<Rightarrow> ValidationError list" where
  "validate_first_user_request r =
     push_validation ''password'' (validate_password (cf_password r))
       (push_validation ''name'' (validate_real_name (cf_name r))
          (push_validation ''username'' (validate_username (cf_username r))
             (push_validation ''email'' (validate_email (cf_email r)) [])))"

definition service_create_first_user ::
  "auth_ctx \<Rightarrow> CreateFirstUserRequest \<Rightarrow> AuthState \<Rightarrow> AuthState \<times> (AuthServiceError, FirstUserRecord) result" where
  "service_create_first_user X r s =
     (let validations = validate_first_user_request r in
      if validations \<noteq> [] then (s, Err (AuthValidation ''Request body has invalid fields.'' validations))
      else
        (case pw_storage (hash_password (ax_pw X) (ax_salt X) (cf_password r)) of
           Inl e \<Rightarrow> (s, Err e)
         | Inr password_hash \<Rightarrow>
             (case create_first_user (ax_env X) (ax_uuid X) (ax_uuid2 X)
                     \<lparr> fu_email = trim (cf_email r), fu_username = cf_username r,
                        fu_name = normalize_real_name (cf_name r), fu_password_hash = password_hash \<rparr> (sv_db s) of
                (db, Inl FirstUserAlreadyExists) \<Rightarrow>
                  (s \<lparr> sv_db := db \<rparr>, Err (AuthConflict ''The initial user has already been created!'' None []))
              | (db, Inl (FirstUserStorage e)) \<Rightarrow> (s \<lparr> sv_db := db \<rparr>, Err (AuthStorage e))
              | (db, Inr created) \<Rightarrow> (s \<lparr> sv_db := db \<rparr>, Ok created))))"

definition validate_user_password :: "string \<Rightarrow> bool \<times> string" where
  "validate_user_password password =
     (case validate_password password of Inr _ \<Rightarrow> (True, []) | Inl e \<Rightarrow> (False, password_error_display e))"

text \<open>\<open>OffsetDateTime::checked_add\<close>: the last representable instant is the end of the year 9999.\<close>

definition MAX_INSTANT :: instant where "MAX_INSTANT = 253402300799999999999"

definition odt_checked_add :: "instant \<Rightarrow> int \<Rightarrow> instant option" where
  "odt_checked_add t d = (if t + d \<le> MAX_INSTANT then Some (t + d) else None)"

definition request_one_time_passcode :: "auth_ctx \<Rightarrow> string \<Rightarrow> AuthState \<Rightarrow> AuthState \<times> (AuthServiceError, unit) result" where
  "request_one_time_passcode X email s =
     (let validations = push_validation ''email'' (validate_email email) [] in
      if validations \<noteq> [] then (s, Err (AuthValidation ''Request body has invalid fields.'' validations))
      else
        let passcode = to_string (av_codec (ax_env X)) (ax_uuid X) in
        case pw_storage (hash_password (ax_pw X) (ax_salt X) passcode) of
          Inl e \<Rightarrow> (s, Err e)
        | Inr passcode_hash \<Rightarrow>
            (case odt_checked_add (av_now (ax_env X)) (secs ONE_TIME_PASSCODE_VALIDITY_SECS) of
               None \<Rightarrow> (s, Err (AuthStorage (InvalidData ''invalid OTP expiry'')))
             | Some expires_at \<Rightarrow>
                 (case store_one_time_passcode_by_email (ax_env X) (trim email) passcode_hash expires_at (sv_db s) of
                    (db, Inl e) \<Rightarrow> (s \<lparr> sv_db := db \<rparr>, Err (AuthStorage e))
                  | (db, Inr _) \<Rightarrow> (s \<lparr> sv_db := db \<rparr>, Ok ()))))"

definition passcode_matches :: "auth_ctx \<Rightarrow> PasswordUserRecord \<Rightarrow> string \<Rightarrow> (AuthServiceError, bool) result" where
  "passcode_matches X user passcode =
     (case (pu_one_time_passcode_hash user, pu_one_time_passcode_expires_at user) of
        (Some stored_hash, Some expires_at) \<Rightarrow>
          if av_now (ax_env X) < expires_at then pw_storage (verify_password (ax_pw X) stored_hash passcode) else Ok False
      | _ \<Rightarrow> Ok False)"

text \<open>The shared end of both password changes: the new password differs, is stored, and the user's sessions are evicted.\<close>

definition change_password ::
  "auth_ctx \<Rightarrow> string \<Rightarrow> uuid \<Rightarrow> string \<Rightarrow> bool \<Rightarrow> AuthState \<Rightarrow> AuthState \<times> (AuthServiceError, uuid) result" where
  "change_password X old_hash i password clear s =
     (case pw_storage (verify_password (ax_pw X) old_hash password) of
        Inl e \<Rightarrow> (s, Err e)
      | Inr True \<Rightarrow> (s, Err (AuthBadRequest ''New password cannot match old password.'' None))
      | Inr False \<Rightarrow>
          (case pw_storage (hash_password (ax_pw X) (ax_salt X) password) of
             Inl e \<Rightarrow> (s, Err e)
           | Inr password_hash \<Rightarrow>
               (case replace_user_password (ax_env X) i password_hash clear (sv_db s) of
                  (db, Inl e) \<Rightarrow> (s \<lparr> sv_db := db \<rparr>, Err (AuthStorage e))
                | (db, Inr False) \<Rightarrow> (s \<lparr> sv_db := db \<rparr>, Err (AuthNotFound ''User not found.''))
                | (db, Inr True) \<Rightarrow> (s \<lparr> sv_db := db, sv_cache := cache_evict_user i (sv_cache s) \<rparr>, Ok i))))"

definition change_password_with_one_time_passcode ::
  "auth_ctx \<Rightarrow> string \<Rightarrow> string \<Rightarrow> string \<Rightarrow> AuthState \<Rightarrow> AuthState \<times> (AuthServiceError, uuid) result" where
  "change_password_with_one_time_passcode X email password passcode s =
     (let vs = push_validation ''password'' (validate_password password) (push_validation ''email'' (validate_email email) []);
          vs = (if trim passcode = [] then vs @ [\<lparr> ve_field = ''one_time_passcode'', ve_detail = ''must be >= 1 character'' \<rparr>] else vs)
      in if vs \<noteq> [] then (s, Err (AuthValidation ''Request body has invalid fields.'' vs))
         else
           (case find_password_user_by_email (ax_env X) (trim email) (sv_db s) of
              Inl e \<Rightarrow> (s, Err (AuthStorage e))
            | Inr None \<Rightarrow> (s, Err (AuthBadRequest ''Incorrect email or one-time passcode.'' None))
            | Inr (Some user) \<Rightarrow>
                (case passcode_matches X user passcode of
                   Inl e \<Rightarrow> (s, Err e)
                 | Inr False \<Rightarrow> (s, Err (AuthBadRequest ''Incorrect email or one-time passcode.'' None))
                 | Inr True \<Rightarrow> change_password X (pu_password_hash user) (ur_id (pu_user user)) password True s)))"

definition resolve_user :: "auth_ctx \<Rightarrow> string \<Rightarrow> AuthenticatedUser \<Rightarrow> AuthDb \<Rightarrow> (StorageError, UserRecord option) result" where
  "resolve_user X requested_user me db =
     (if requested_user = ''me'' then auth_find_user_by_id (ax_env X) (au_id me) db
      else
        case parse_str (av_codec (ax_env X)) requested_user of
          Some i \<Rightarrow> auth_find_user_by_id (ax_env X) i db
        | None \<Rightarrow> find_user_by_username (ax_env X) requested_user db)"

text \<open>The common beginning of the operations on a named user.\<close>

definition resolved ::
  "auth_ctx \<Rightarrow> string \<Rightarrow> AuthenticatedUser \<Rightarrow> AuthState \<Rightarrow>
   (UserRecord \<Rightarrow> AuthState \<times> (AuthServiceError, 'a) result) \<Rightarrow> AuthState \<times> (AuthServiceError, 'a) result" where
  "resolved X requested_user me s k =
     (case resolve_user X requested_user me (sv_db s) of
        Inl e \<Rightarrow> (s, Err (AuthStorage e))
      | Inr None \<Rightarrow> (s, Err (AuthNotFound ''User not found.''))
      | Inr (Some target) \<Rightarrow> k target)"

definition get_user_login_type ::
  "auth_ctx \<Rightarrow> Actor \<Rightarrow> AuthenticatedUser \<Rightarrow> string \<Rightarrow> AuthState \<Rightarrow> AuthState \<times> (AuthServiceError, LoginType) result" where
  "get_user_login_type X actor me requested_user s =
     resolved X requested_user me s (\<lambda>target.
       if ur_id target \<noteq> au_id me \<or> \<not> can_access_user actor (ur_id target)
       then (s, Err (AuthForbidden ''You are not authorized to view this user's login type.''))
       else (s, Ok (ur_login_type target)))"

definition update_user_password ::
  "auth_ctx \<Rightarrow> Actor \<Rightarrow> AuthenticatedUser \<Rightarrow> string \<Rightarrow> string \<Rightarrow> string \<Rightarrow> AuthState \<Rightarrow> AuthState \<times> (AuthServiceError, uuid) result" where
  "update_user_password X actor me requested_user old_password password s =
     resolved X requested_user me s (\<lambda>target.
       if \<not> can_access_user actor (ur_id target) then (s, Err (AuthNotFound ''User not found.''))
       else if ur_login_type target \<noteq> Password then
         (s, Err (AuthBadRequest ''Users without password login type cannot change their password.'' None))
       else
         (case find_password_user_by_id (ax_env X) (ur_id target) (sv_db s) of
            Inl e \<Rightarrow> (s, Err (AuthStorage e))
          | Inr None \<Rightarrow> (s, Err (AuthNotFound ''User not found.''))
          | Inr (Some pu) \<Rightarrow>
              if au_id me = ur_id target \<and> old_password = [] then (s, Err (AuthBadRequest ''Old password is required.'' None))
              else
                (case validate_password password of
                   Inl e \<Rightarrow> (s, Err (AuthValidation ''Invalid password.'' [\<lparr> ve_field = ''password'', ve_detail = password_error_display e \<rparr>]))
                 | Inr _ \<Rightarrow>
                     (case (if old_password = [] then Ok True else pw_storage (verify_password (ax_pw X) (pu_password_hash pu) old_password)) of
                        Inl e \<Rightarrow> (s, Err e)
                      | Inr False \<Rightarrow>
                          (s, Err (AuthValidation ''Old password is incorrect.''
                                [\<lparr> ve_field = ''old_password'', ve_detail = ''Old password is incorrect.'' \<rparr>]))
                      | Inr True \<Rightarrow> change_password X (pu_password_hash pu) (ur_id target) password False s))))"

definition convert_login ::
  "auth_ctx \<Rightarrow> AuthenticatedUser \<Rightarrow> string \<Rightarrow> LoginType \<Rightarrow> string \<Rightarrow> AuthState \<Rightarrow> AuthState \<times> (AuthServiceError, string) result" where
  "convert_login X me requested_user to_type password s =
     resolved X requested_user me s (\<lambda>target.
       if ur_id target \<noteq> au_id me then (s, Err (AuthForbidden ''You are not authorized to convert this user's login type.''))
       else if to_type \<noteq> Github \<and> to_type \<noteq> Oidc then
         (s, Err (AuthBadRequest (''Cannot convert to login type '' @ login_type_as_str to_type @ ''.'') None))
       else if ur_login_type target \<noteq> Password then
         (s, Err (AuthBadRequest ''User account must have password based authentication.'' None))
       else
         (case find_password_user_by_id (ax_env X) (ur_id target) (sv_db s) of
            Inl e \<Rightarrow> (s, Err (AuthStorage e))
          | Inr None \<Rightarrow> (s, Err (AuthNotFound ''User not found.''))
          | Inr (Some pu) \<Rightarrow>
              (case pw_storage (verify_password (ax_pw X) (pu_password_hash pu) password) of
                 Inl e \<Rightarrow> (s, Err e)
               | Inr False \<Rightarrow> (s, Err (AuthUnauthorized ''Incorrect email or password.''))
               | Inr True \<Rightarrow> (s, Ok (if to_type = Github then ''GitHub OAuth2 is not enabled.'' else ''OIDC is not enabled.'')))))"

section \<open>API keys\<close>

record ApiKeyCreation =
  kc_target_user :: UserRecord
  kc_login_type :: LoginType
  kc_lifetime :: int
  kc_token_name :: string
  kc_scopes :: "string list"
  kc_allow_list :: "ApiAllowListTarget list"

definition whole_seconds :: "int \<Rightarrow> int" where
  "whole_seconds d = d div 10 ^ 9"

definition create_api_key_for_user ::
  "auth_ctx \<Rightarrow> ApiKeyCreation \<Rightarrow> AuthState \<Rightarrow> AuthState \<times> (AuthServiceError, string \<times> string) result" where
  "create_api_key_for_user X r s =
     (let key_secret = new_session_token (ax_pw X) (ax_random X);
          key_id = to_string (av_codec (ax_env X)) (ax_uuid X);
          now = av_now (ax_env X);
          lifetime = whole_seconds (kc_lifetime r)
      in if 2 ^ 63 \<le> lifetime then (s, Err (AuthStorage (InvalidData ''out of range integral type conversion attempted'')))
         else
           (case odt_checked_add now (secs lifetime) of
              None \<Rightarrow> (s, Err (AuthStorage (InvalidData ''invalid token lifetime'')))
            | Some expires_at \<Rightarrow>
                (case create_api_key (ax_env X)
                        \<lparr> ck_id = key_id, ck_hashed_secret = hash_session_token (ax_pw X) key_secret,
                           ck_user_id = ur_id (kc_target_user r), ck_last_used = now, ck_expires_at = expires_at,
                           ck_created_at = now, ck_updated_at = now, ck_login_type = kc_login_type r,
                           ck_scopes = kc_scopes r, ck_token_name = kc_token_name r, ck_lifetime_seconds = lifetime,
                           ck_allow_list = kc_allow_list r \<rparr> (sv_db s) of
                   (db, Inr _) \<Rightarrow> (s \<lparr> sv_db := db \<rparr>, Ok (key_id, key_secret))
                 | (db, Inl DuplicateTokenName) \<Rightarrow>
                     (s \<lparr> sv_db := db \<rparr>,
                      Err (AuthConflict ''Failed to create API key.'' (Some ''A token with this name already exists.'') []))
                 | (db, Inl (ApiKeyStorage e)) \<Rightarrow> (s \<lparr> sv_db := db \<rparr>, Err (AuthStorage e)))))"

definition create_session_api_key ::
  "auth_ctx \<Rightarrow> Actor \<Rightarrow> AuthenticatedUser \<Rightarrow> string \<Rightarrow> AuthState \<Rightarrow> AuthState \<times> (AuthServiceError, string \<times> string) result" where
  "create_session_api_key X actor me requested_user s =
     resolved X requested_user me s (\<lambda>target.
       if \<not> can_access_user actor (ur_id target) then
         (s, Err (AuthForbidden ''You are not authorized to create API keys for this user.''))
       else if ur_is_system target then (s, Err (AuthForbidden ''System users cannot receive API keys.''))
       else
         create_api_key_for_user X
           \<lparr> kc_target_user = target, kc_login_type = Password, kc_lifetime = secs DEFAULT_SESSION_KEY_LIFETIME_SECS,
              kc_token_name = [], kc_scopes = [''all''], kc_allow_list = [] \<rparr> s)"

record CreateTokenRequest =
  ct_lifetime :: int
  ct_scope :: string
  ct_scopes :: "string list"
  ct_token_name :: string
  ct_allow_list :: "ApiAllowListTarget list"

definition create_token_api_key ::
  "auth_ctx \<Rightarrow> Actor \<Rightarrow> AuthenticatedUser \<Rightarrow> string \<Rightarrow> CreateTokenRequest \<Rightarrow> AuthState \<Rightarrow>
   AuthState \<times> (AuthServiceError, string \<times> string) result" where
  "create_token_api_key X actor me requested_user request s =
     resolved X requested_user me s (\<lambda>target.
       if \<not> can_access_user actor (ur_id target) then
         (s, Err (AuthForbidden ''You are not authorized to create API keys for this user.''))
       else if ur_is_system target then (s, Err (AuthForbidden ''System users cannot receive API keys.''))
       else
         (case token_config (ax_env X) (ur_id target) (sv_db s) of
            Inl e \<Rightarrow> (s, Err (AuthStorage e))
          | Inr max_token_lifetime \<Rightarrow>
              let requested_lifetime =
                    (if ct_lifetime request = 0 then secs DEFAULT_TOKEN_KEY_LIFETIME_SECS else ct_lifetime request);
                  scopes = (if ct_scopes request \<noteq> [] then ct_scopes request
                            else if ct_scope request \<noteq> [] then [ct_scope request] else [''all'']);
                  token_name = (if ct_token_name request = [] then ''token-'' @ ax_simple X (ax_uuid2 X) else ct_token_name request)
              in if max_token_lifetime < requested_lifetime then
                   (s, Err (AuthBadRequest ''Failed to validate create API key request.''
                         (Some (''lifetime must be less than or equal to '' @ int_str (whole_seconds max_token_lifetime) @ ''s''))))
                 else
                   create_api_key_for_user X
                     \<lparr> kc_target_user = target, kc_login_type = Token, kc_lifetime = requested_lifetime,
                        kc_token_name = token_name, kc_scopes = scopes, kc_allow_list = ct_allow_list request \<rparr> s))"

definition list_token_api_keys ::
  "auth_ctx \<Rightarrow> Actor \<Rightarrow> AuthenticatedUser \<Rightarrow> string \<Rightarrow> bool \<Rightarrow> bool \<Rightarrow> AuthState \<Rightarrow>
   AuthState \<times> (AuthServiceError, ApiKeyWithOwnerRecord list) result" where
  "list_token_api_keys X actor me requested_user include_all include_expired s =
     resolved X requested_user me s (\<lambda>target.
       if include_all \<and> \<not> is_owner actor then
         (s, Err (AuthForbidden ''You are not authorized to list API keys for all users.''))
       else if \<not> include_all \<and> \<not> can_access_user actor (ur_id target) then
         (s, Err (AuthForbidden ''You are not authorized to list API keys for this user.''))
       else
         (case list_api_keys (ax_env X)
                 \<lparr> kf_user_id = (if include_all then None else Some (ur_id target)), kf_login_type = Token,
                    kf_include_expired = include_expired \<rparr> (sv_db s) of
            Inl e \<Rightarrow> (s, Err (AuthStorage e))
          | Inr rows \<Rightarrow> (s, Ok rows)))"

text \<open>The check shared by the operations on one key: it must exist and belong to the user.\<close>

definition with_key ::
  "auth_ctx \<Rightarrow> string \<Rightarrow> UserRecord \<Rightarrow> AuthState \<Rightarrow> (ApiKeyRecord \<Rightarrow> AuthState \<times> (AuthServiceError, 'a) result) \<Rightarrow>
   AuthState \<times> (AuthServiceError, 'a) result" where
  "with_key X key_id target s k =
     (case find_api_key_by_id (ax_env X) key_id (sv_db s) of
        Inl e \<Rightarrow> (s, Err (AuthStorage e))
      | Inr None \<Rightarrow> (s, Err (AuthNotFound ''API key not found.''))
      | Inr (Some key) \<Rightarrow> if ak_user_id key \<noteq> ur_id target then (s, Err (AuthNotFound ''API key not found.'')) else k key)"

definition get_api_key ::
  "auth_ctx \<Rightarrow> Actor \<Rightarrow> AuthenticatedUser \<Rightarrow> string \<Rightarrow> string \<Rightarrow> AuthState \<Rightarrow> AuthState \<times> (AuthServiceError, ApiKeyRecord) result" where
  "get_api_key X actor me requested_user key_id s =
     resolved X requested_user me s (\<lambda>target.
       if \<not> can_access_user actor (ur_id target) then
         (s, Err (AuthForbidden ''You are not authorized to view API keys for this user.''))
       else with_key X key_id target s (\<lambda>key. (s, Ok key)))"

definition get_api_key_by_name ::
  "auth_ctx \<Rightarrow> Actor \<Rightarrow> AuthenticatedUser \<Rightarrow> string \<Rightarrow> string \<Rightarrow> AuthState \<Rightarrow> AuthState \<times> (AuthServiceError, ApiKeyRecord) result" where
  "get_api_key_by_name X actor me requested_user key_name s =
     resolved X requested_user me s (\<lambda>target.
       if \<not> can_access_user actor (ur_id target) then
         (s, Err (AuthForbidden ''You are not authorized to view API keys for this user.''))
       else
         (case find_api_key_by_name (ax_env X) (ur_id target) key_name (sv_db s) of
            Inl e \<Rightarrow> (s, Err (AuthStorage e))
          | Inr None \<Rightarrow> (s, Err (AuthNotFound ''API key not found.''))
          | Inr (Some key) \<Rightarrow> (s, Ok key)))"

text \<open>Deleting and expiring end alike: the statement says whether a row was affected.\<close>

definition key_changed :: "string \<Rightarrow> AuthState \<Rightarrow> bool auth_stmt \<Rightarrow> AuthState \<times> (AuthServiceError, string) result" where
  "key_changed key_id s stmt =
     (case stmt of
        (db, Inl e) \<Rightarrow> (s \<lparr> sv_db := db \<rparr>, Err (AuthStorage e))
      | (db, Inr False) \<Rightarrow> (s \<lparr> sv_db := db \<rparr>, Err (AuthNotFound ''API key not found.''))
      | (db, Inr True) \<Rightarrow> (s \<lparr> sv_db := db \<rparr>, Ok key_id))"

definition service_delete_api_key ::
  "auth_ctx \<Rightarrow> Actor \<Rightarrow> AuthenticatedUser \<Rightarrow> string \<Rightarrow> string \<Rightarrow> AuthState \<Rightarrow> AuthState \<times> (AuthServiceError, string) result" where
  "service_delete_api_key X actor me requested_user key_id s =
     resolved X requested_user me s (\<lambda>target.
       if \<not> can_access_user actor (ur_id target) then
         (s, Err (AuthForbidden ''You are not authorized to delete API keys for this user.''))
       else with_key X key_id target s (\<lambda>_. key_changed key_id s (delete_api_key (ax_env X) key_id (sv_db s))))"

definition service_expire_api_key ::
  "auth_ctx \<Rightarrow> Actor \<Rightarrow> AuthenticatedUser \<Rightarrow> string \<Rightarrow> string \<Rightarrow> AuthState \<Rightarrow> AuthState \<times> (AuthServiceError, string) result" where
  "service_expire_api_key X actor me requested_user key_id s =
     resolved X requested_user me s (\<lambda>target.
       if \<not> can_access_user actor (ur_id target) then
         (s, Err (AuthForbidden ''You are not authorized to expire API keys for this user.''))
       else with_key X key_id target s (\<lambda>_. key_changed key_id s (expire_api_key (ax_env X) key_id (av_now (ax_env X)) (sv_db s))))"

definition get_token_config ::
  "auth_ctx \<Rightarrow> Actor \<Rightarrow> AuthenticatedUser \<Rightarrow> string \<Rightarrow> AuthState \<Rightarrow> AuthState \<times> (AuthServiceError, int) result" where
  "get_token_config X actor me requested_user s =
     resolved X requested_user me s (\<lambda>target.
       if \<not> can_access_user actor (ur_id target) then
         (s, Err (AuthForbidden ''You are not authorized to view token configuration for this user.''))
       else
         (case token_config (ax_env X) (ur_id target) (sv_db s) of
            Inl e \<Rightarrow> (s, Err (AuthStorage e)) | Inr d \<Rightarrow> (s, Ok d)))"

end
