(* ===== verification/Auth_Middleware.thy ===== *)
theory Auth_Middleware
  imports Auth_Service
begin

text \<open>
  The authentication middleware, \<open>crates/coder-server/src/auth_middleware.rs\<close>: extraction of the token, API keys, session
  tokens, activation of dormant users. A response is either an early error or the request that goes on, with its context
  and headers. The refreshed expiry of a key is assumed to stay inside the range of \<open>OffsetDateTime\<close>.
\<close>

section \<open>Tokens\<close>

definition API_KEY_ID_LEN :: nat where "API_KEY_ID_LEN = 10"
definition API_KEY_SECRET_LEN :: nat where "API_KEY_SECRET_LEN = 22"
definition LAST_USED_DEBOUNCE_SECS :: int where "LAST_USED_DEBOUNCE_SECS = 3600"

record AuthenticatedContext =
  cx_user :: AuthenticatedUser
  cx_actor :: Actor
  cx_api_key :: "ApiKeyRecord option"
  cx_scopes :: "ApiKeyScope list"

datatype Response =
    PassThrough
  | Proceed AuthenticatedContext headers
  | UnauthorizedJson string
  | InternalErrorJson string string

definition split_api_token :: "string \<Rightarrow> (string \<times> string) option" where
  "split_api_token token =
     (case split_once CHR ''-'' token of
        None \<Rightarrow> None
      | Some (i, rest) \<Rightarrow>
          if CHR ''-'' \<in> set rest then None
          else if length i = API_KEY_ID_LEN \<and> length rest = API_KEY_SECRET_LEN then Some (i, rest) else None)"

definition bearer_token :: "string \<Rightarrow> string option" where
  "bearer_token auth_header =
     (case dropWhile (\<lambda>c. \<not> is_space c) auth_header of
        [] \<Rightarrow> None
      | _ # rest \<Rightarrow>
          if eq_ignore_ascii_case (takeWhile (\<lambda>c. \<not> is_space c) auth_header) ''bearer'' \<and> trim rest \<noteq> []
          then Some (trim rest) else None)"

definition nonempty_text :: "string option \<Rightarrow> string option" where
  "nonempty_text v = (case v of Some t \<Rightarrow> if t \<noteq> [] then Some t else None | None \<Rightarrow> None)"

definition extract_token_from_headers :: "headers \<Rightarrow> string option" where
  "extract_token_from_headers hs =
     (case nonempty_text (Option.bind (map_of hs ''coder-session-token'') to_str) of
        Some t \<Rightarrow> Some t
      | None \<Rightarrow>
          (case nonempty_text (cookie_from_headers hs ''coder_session_token'') of
             Some t \<Rightarrow> Some t
           | None \<Rightarrow> Option.bind (Option.bind (map_of hs ''authorization'') to_str) bearer_token))"

definition header_insert :: "string \<Rightarrow> string \<Rightarrow> headers \<Rightarrow> headers" where
  "header_insert name v hs = (name, v) # filter (\<lambda>(n, _). n \<noteq> name) hs"

section \<open>API keys\<close>

definition refreshed_key :: "instant \<Rightarrow> ApiKeyRecord \<Rightarrow> ApiKeyRecord \<times> bool" where
  "refreshed_key now key =
     (let used = (LAST_USED_DEBOUNCE_SECS < whole_seconds (now - ak_last_used key));
          updated = (if used then key \<lparr> ak_last_used := now \<rparr> else key);
          lifetime = secs (ak_lifetime_seconds key);
          extend = (ak_expires_at updated - now \<le> lifetime - secs 3600)
      in (if extend then updated \<lparr> ak_expires_at := now + lifetime \<rparr> else updated, used \<or> extend))"

definition record_key_use :: "auth_env \<Rightarrow> ApiKeyRecord \<Rightarrow> AuthDb \<Rightarrow> AuthDb" where
  "record_key_use E updated db =
     (let db = fst (update_api_key_last_used E (ak_id updated) (ak_last_used updated) (ak_expires_at updated) db)
      in fst (update_user_last_seen_at E (ak_user_id updated) (av_now E) db))"

definition validate_api_key ::
  "auth_ctx \<Rightarrow> string \<Rightarrow> string \<Rightarrow> AuthState \<Rightarrow> AuthState \<times> (Response, AuthenticatedContext) result" where
  "validate_api_key X key_id key_secret s =
     (let E = ax_env X in
      case find_api_key_by_id E key_id (sv_db s) of
        Inl e \<Rightarrow> (s, Err (InternalErrorJson ''A database error occurred.'' (storage_error_display e)))
      | Inr None \<Rightarrow> (s, Err (UnauthorizedJson ''API key is invalid.''))
      | Inr (Some key) \<Rightarrow>
          if pw_sha256 (ax_pw X) key_secret \<noteq> ak_hashed_secret key then (s, Err (UnauthorizedJson ''API key is invalid.''))
          else if ak_expires_at key < av_now E then (s, Err (UnauthorizedJson ''API key is invalid.''))
          else
            let scopes = List.map_filter from_scope_string (ak_scopes key) in
            if scopes = [] then (s, Err (UnauthorizedJson ''API key has no recognised scopes.''))
            else
              let (updated, changed) = refreshed_key (av_now E) key;
                  s = (if changed then s \<lparr> sv_db := record_key_use E updated (sv_db s) \<rparr> else s)
              in case auth_find_user_by_id E (ak_user_id key) (sv_db s) of
                   Inl e \<Rightarrow> (s, Err (InternalErrorJson ''A database error occurred.'' (storage_error_display e)))
                 | Inr None \<Rightarrow> (s, Err (UnauthorizedJson ''API key is invalid.''))
                 | Inr (Some user) \<Rightarrow>
                     let auth_user = authenticated_from user in
                     case auth_list_user_memberships E (au_id auth_user) (sv_db s) of
                       Inl e \<Rightarrow> (s, Err (InternalErrorJson ''A database error occurred.'' (storage_error_display e)))
                     | Inr memberships \<Rightarrow>
                         let auth_user = auth_user \<lparr> au_org_roles := au_org_roles auth_user @
                               [name @ '':'' @ to_string (av_codec E) (om_organization_id m). m \<leftarrow> memberships, name \<leftarrow> om_roles m] \<rparr>
                         in (s, Ok \<lparr> cx_user = auth_user, cx_actor = actor_from_user auth_user,
                                      cx_api_key = Some updated, cx_scopes = scopes \<rparr>))"

section \<open>The middleware\<close>

definition maybe_activate_dormant ::
  "auth_ctx \<Rightarrow> AuthenticatedContext \<Rightarrow> AuthState \<Rightarrow> AuthState \<times> (Response, AuthenticatedContext) result" where
  "maybe_activate_dormant X ctx s =
     (if au_status (cx_user ctx) \<noteq> Dormant then (s, Ok ctx)
      else
        (case update_user_status (ax_env X) (au_id (cx_user ctx)) Active (sv_db s) of
           (db, Inr (Some _)) \<Rightarrow>
             (s \<lparr> sv_db := db \<rparr>, Ok (ctx \<lparr> cx_user := (cx_user ctx) \<lparr> au_status := Active \<rparr> \<rparr>))
         | (db, Inr None) \<Rightarrow> (s \<lparr> sv_db := db \<rparr>, Err (UnauthorizedJson ''User not found.''))
         | (db, Inl e) \<Rightarrow>
             (s \<lparr> sv_db := db \<rparr>, Err (InternalErrorJson ''Failed to activate dormant user.'' (storage_error_display e)))))"

definition token_context ::
  "auth_ctx \<Rightarrow> string \<Rightarrow> AuthState \<Rightarrow> AuthState \<times> (Response, AuthenticatedContext) result" where
  "token_context X token s =
     (case split_api_token token of
        Some (key_id, key_secret) \<Rightarrow> validate_api_key X key_id key_secret s
      | None \<Rightarrow>
          let auth_headers = (case to_str token of Some v \<Rightarrow> [(SESSION_TOKEN_HEADER, v)] | None \<Rightarrow> []) in
          case authenticate X auth_headers s of
            (s, Inr (Some auth_req)) \<Rightarrow>
              (s, Ok \<lparr> cx_user = ar_user auth_req, cx_actor = actor_from_user (ar_user auth_req), cx_api_key = None,
                        cx_scopes = [ScopeAll] \<rparr>)
          | (s, Inr None) \<Rightarrow> (s, Err (UnauthorizedJson ''Missing or invalid session token.''))
          | (s, Inl e) \<Rightarrow> (s, Err (InternalErrorJson ''Internal authentication error.'' (storage_error_display e))))"

definition api_key_auth_middleware :: "auth_ctx \<Rightarrow> headers \<Rightarrow> AuthState \<Rightarrow> AuthState \<times> Response" where
  "api_key_auth_middleware X hs s =
     (case extract_token_from_headers hs of
        None \<Rightarrow> (s, PassThrough)
      | Some token \<Rightarrow>
          (case token_context X token s of
             (s, Inl response) \<Rightarrow> (s, response)
           | (s, Inr ctx) \<Rightarrow>
               (case maybe_activate_dormant X ctx s of
                  (s, Inl response) \<Rightarrow> (s, response)
                | (s, Inr ctx) \<Rightarrow>
                    if au_status (cx_user ctx) \<noteq> Active then
                      (s, UnauthorizedJson (''User is not active (status = '' @ user_status_as_str (au_status (cx_user ctx)) @
                            ''). Contact an admin to reactivate your account.''))
                    else
                      (s, Proceed ctx
                            (if cx_api_key ctx = None
                             then (case to_str token of Some v \<Rightarrow> header_insert SESSION_TOKEN_HEADER v hs | None \<Rightarrow> hs)
                             else hs)))))"

definition has_scope :: "AuthenticatedContext \<Rightarrow> ApiKeyScope \<Rightarrow> bool" where
  "has_scope ctx required \<longleftrightarrow> (\<exists>x \<in> set (cx_scopes ctx). x = ScopeAll \<or> x = required)"

end
