(* ===== verification/Auth_Sessions.thy ===== *)
theory Auth_Sessions
  imports Auth_Middleware
begin

text \<open>
  What the authentication service promises of sessions. Whole calls and changes of the database by anyone else follow one
  another in any order in the step relation \<open>session_step\<close>, which also remembers which databases there were and when; what
  a request that is overtaken between its two halves does is stated apart (\<open>late_answer_revives_session\<close>).
\<close>

section \<open>Accepted tokens\<close>

lemma live_row_id: "live_row db i = Some r \<Longrightarrow> uc_id r = i \<and> r \<in> set (ad_users db) \<and> \<not> uc_deleted r"
  by (auto simp: live_row_def find_Some_iff)

lemma session_user_id: "session_user U h db = Some u \<Longrightarrow> map_of (ad_sessions db) h = Some (au_id u)"
  by (auto simp: session_user_def authenticated_from_def user_record_from_row_def dest!: live_row_id split: option.splits)

lemma session_user_listed: "session_user U h db = Some u \<Longrightarrow> h \<in> fst ` set (ad_sessions db)"
  using session_user_id [of U h db u] by (force dest: map_of_SomeD)

text \<open>Who a token stands for: the cache answers first, then the database.\<close>

definition accepts :: "auth_ctx \<Rightarrow> string \<Rightarrow> AuthState \<Rightarrow> AuthenticatedUser \<Rightarrow> bool" where
  "accepts X token s u \<longleftrightarrow> (\<exists>r. snd (authenticate_token X token s) = Ok (Some r) \<and> ar_user r = u)"

lemma accepts_cases:
  assumes "accepts X token s u"
  shows "cache_get (ax_mono X) (sv_cache s) (hash_session_token (ax_pw X) token) = Some u \<or>
    session_user (av_codec (ax_env X)) (hash_session_token (ax_pw X) token) (sv_db s) = Some u"
  using assms
  by (auto simp: accepts_def authenticate_token_def authenticated_request_def Let_def find_user_by_session_token_hash_def
      auth_query_def split: option.splits)

lemma authenticate_token_state:
  "fst (authenticate_token X token s) = s \<or>
   (\<exists>u. session_user (av_codec (ax_env X)) (hash_session_token (ax_pw X) token) (sv_db s) = Some u \<and>
      fst (authenticate_token X token s) =
        s \<lparr> sv_cache := cache_insert (ax_mono X) (hash_session_token (ax_pw X) token) u (sv_cache s) \<rparr>)"
  by (auto simp: authenticate_token_def Let_def find_user_by_session_token_hash_def auth_query_def split: option.splits)

lemma logout_cases:
  "(fst (logout X token s) = s \<and> (\<exists>e. snd (logout X token s) = Err e)) \<or>
   (snd (logout X token s) = Ok () \<and>
    sv_cache (fst (logout X token s)) = cache_evict (hash_session_token (ax_pw X) token) (sv_cache s) \<and>
    sv_db (fst (logout X token s)) =
      (sv_db s) \<lparr> ad_sessions := filter (\<lambda>(h, u). h \<noteq> hash_session_token (ax_pw X) token) (ad_sessions (sv_db s)) \<rparr>)"
  by (cases "av_fault (ax_env X) DeleteAuthSession")
    (auto simp: logout_def delete_auth_session_def auth_attempt_def Let_def)

definition same_account :: "AuthUserRow \<Rightarrow> AuthUserRow \<Rightarrow> bool" where
  "same_account u v \<longleftrightarrow> uc_id u = uc_id v \<and> uc_deleted u = uc_deleted v"

definition passwords_changed :: "uuid \<Rightarrow> AuthState \<Rightarrow> AuthState \<Rightarrow> bool" where
  "passwords_changed i s s' \<longleftrightarrow>
     (\<exists>f. ad_users (sv_db s') = map (\<lambda>u. if uc_id u = i \<and> \<not> uc_deleted u then f u else u) (ad_users (sv_db s)) \<and>
          (\<forall>u. same_account (f u) u)) \<and> ad_members (sv_db s') = ad_members (sv_db s) \<and>
     sv_cache s' = cache_evict_user i (sv_cache s) \<and>
     ad_sessions (sv_db s') = filter (\<lambda>(h, u). u \<noteq> i) (ad_sessions (sv_db s)) \<and>
     ad_keys (sv_db s') = filter (\<lambda>k. ak_user_id k \<noteq> i) (ad_keys (sv_db s))"

lemma replace_user_password_cases:
  "(\<exists>e. replace_user_password E i h c db = (db, Inl e)) \<or> replace_user_password E i h c db = (db, Inr False) \<or>
   (\<exists>db'. replace_user_password E i h c db = (db', Inr True) \<and>
      passwords_changed i \<lparr> sv_db = db, sv_cache = ca \<rparr> \<lparr> sv_db = db', sv_cache = cache_evict_user i ca \<rparr>)"
proof (cases "av_fault E ReplaceUserPassword = None \<and> live_row db i \<noteq> None")
  case True
  let ?f = "\<lambda>u. u \<lparr> uc_hashed_password := h, uc_hashed_one_time_passcode := (if c then [] else uc_hashed_one_time_passcode u),
      uc_one_time_passcode_expires_at := (if c then None else uc_one_time_passcode_expires_at u), uc_updated_at := av_now E \<rparr>"
  let ?db = "(update_users (\<lambda>u. uc_id u = i \<and> \<not> uc_deleted u) ?f db)
      \<lparr> ad_sessions := filter (\<lambda>(h, u). u \<noteq> i) (ad_sessions db), ad_keys := filter (\<lambda>k. ak_user_id k \<noteq> i) (ad_keys db) \<rparr>"
  have "replace_user_password E i h c db = (?db, Inr True)"
    using True by (auto simp: replace_user_password_def auth_attempt_def)
  moreover have "passwords_changed i \<lparr> sv_db = db, sv_cache = ca \<rparr> \<lparr> sv_db = ?db, sv_cache = cache_evict_user i ca \<rparr>"
    unfolding passwords_changed_def by (intro conjI exI [of _ ?f]) (simp_all add: update_users_def same_account_def)
  ultimately show ?thesis by blast
next
  case False
  then show ?thesis
    by (cases "av_fault E ReplaceUserPassword") (auto simp: replace_user_password_def auth_attempt_def)
qed

lemma change_password_cases:
  "(sv_cache (fst (change_password X old i p c s)) = sv_cache s \<and> \<not> is_ok (snd (change_password X old i p c s)) \<and>
    sv_db (fst (change_password X old i p c s)) = sv_db s) \<or>
   (snd (change_password X old i p c s) = Ok i \<and> passwords_changed i s (fst (change_password X old i p c s)))"
proof -
  obtain h where h: "pw_storage (hash_password (ax_pw X) (ax_salt X) p) = Inr h"
    by (simp add: hash_password_def pw_storage_def)
  show ?thesis
  proof (cases "pw_storage (verify_password (ax_pw X) old p) = Inr False")
    case True
    from replace_user_password_cases [of "ax_env X" i h c "sv_db s" "sv_cache s"] show ?thesis
      by (elim disjE exE conjE) (simp_all add: change_password_def True h passwords_changed_def)
  next
    case False
    then show ?thesis
      by (cases "pw_storage (verify_password (ax_pw X) old p)") (auto simp: change_password_def)
  qed
qed

section \<open>Interleaved requests\<close>

record session_sys =
  ss_time :: instant
  ss_state :: AuthState
  ss_past :: "(instant \<times> AuthDb) set"

definition moved :: "AuthState \<Rightarrow> session_sys \<Rightarrow> session_sys" where
  "moved s \<sigma> = \<sigma> \<lparr> ss_state := s, ss_past := insert (ss_time \<sigma>, sv_db s) (ss_past \<sigma>) \<rparr>"

definition call_at :: "pw_env \<Rightarrow> uuid_codec \<Rightarrow> session_sys \<Rightarrow> auth_ctx \<Rightarrow> bool" where
  "call_at W U \<sigma> X \<longleftrightarrow> ax_pw X = W \<and> av_codec (ax_env X) = U \<and> ax_mono X = ss_time \<sigma>"

inductive session_step :: "pw_env \<Rightarrow> uuid_codec \<Rightarrow> session_sys \<Rightarrow> session_sys \<Rightarrow> bool" for W U where
  time_passes: "ss_time \<sigma> \<le> t \<Longrightarrow>
    session_step W U \<sigma> (\<sigma> \<lparr> ss_time := t, ss_past := insert (t, sv_db (ss_state \<sigma>)) (ss_past \<sigma>) \<rparr>)"
| request: "call_at W U \<sigma> X \<Longrightarrow> session_step W U \<sigma> (moved (fst (authenticate_token X token (ss_state \<sigma>))) \<sigma>)"
| logging_out: "call_at W U \<sigma> X \<Longrightarrow> session_step W U \<sigma> (moved (fst (logout X token (ss_state \<sigma>))) \<sigma>)"
| new_password: "call_at W U \<sigma> X \<Longrightarrow> session_step W U \<sigma> (moved (fst (change_password X old i p c (ss_state \<sigma>))) \<sigma>)"
| database_changes: "session_step W U \<sigma> (moved ((ss_state \<sigma>) \<lparr> sv_db := db \<rparr>) \<sigma>)"

definition session_init :: "session_sys \<Rightarrow> bool" where
  "session_init \<sigma> \<longleftrightarrow>
     (\<exists>ttl > 0. sv_cache (ss_state \<sigma>) = cache_new ttl) \<and> ss_past \<sigma> = {(ss_time \<sigma>, sv_db (ss_state \<sigma>))}"

text \<open>The cache only holds what the database answered at the recorded time.\<close>

definition justified :: "uuid_codec \<Rightarrow> instant \<Rightarrow> (instant \<times> AuthDb) set \<Rightarrow> byte list \<times> AuthenticatedUser \<times> instant \<Rightarrow> bool" where
  "justified U now past x \<longleftrightarrow>
     snd (snd x) \<le> now \<and> (\<exists>db. (snd (snd x), db) \<in> past \<and> session_user U (fst x) db = Some (fst (snd x)))"

definition vouched_by_past :: "uuid_codec \<Rightarrow> session_sys \<Rightarrow> bool" where
  "vouched_by_past U \<sigma> \<longleftrightarrow> (\<forall>x \<in> cache_vouched (sv_cache (ss_state \<sigma>)). justified U (ss_time \<sigma>) (ss_past \<sigma>) x)"

definition session_inv :: "uuid_codec \<Rightarrow> session_sys \<Rightarrow> bool" where
  "session_inv U \<sigma> \<longleftrightarrow>
     cache_valid (sv_cache (ss_state \<sigma>)) \<and> 0 < sc_ttl (sv_cache (ss_state \<sigma>)) \<and>
     (ss_time \<sigma>, sv_db (ss_state \<sigma>)) \<in> ss_past \<sigma> \<and> vouched_by_past U \<sigma>"

lemma moved_simps [simp]:
  "ss_time (moved s \<sigma>) = ss_time \<sigma>" "ss_state (moved s \<sigma>) = s" "ss_past (moved s \<sigma>) = insert (ss_time \<sigma>, sv_db s) (ss_past \<sigma>)"
  by (simp_all add: moved_def)

lemma justified_mono: "justified U t past x \<Longrightarrow> t \<le> t' \<Longrightarrow> past \<subseteq> past' \<Longrightarrow> justified U t' past' x"
  unfolding justified_def by (meson order_trans subsetD)

lemma vouched_by_past_mono:
  assumes "vouched_by_past U \<sigma>" and "cache_vouched (sv_cache (ss_state \<tau>)) \<subseteq> cache_vouched (sv_cache (ss_state \<sigma>))"
    and "ss_time \<sigma> \<le> ss_time \<tau>" and "ss_past \<sigma> \<subseteq> ss_past \<tau>"
  shows "vouched_by_past U \<tau>"
  using assms unfolding vouched_by_past_def by (meson justified_mono subsetD)

lemma session_inv_shrink:
  assumes "session_inv U \<sigma>" and "sv_cache s = cache_evict h (sv_cache (ss_state \<sigma>)) \<or>
    sv_cache s = cache_evict_user i (sv_cache (ss_state \<sigma>)) \<or> sv_cache s = sv_cache (ss_state \<sigma>)"
  shows "session_inv U (moved s \<sigma>)"
proof -
  have v: "cache_valid (sv_cache (ss_state \<sigma>))" using assms(1) by (simp add: session_inv_def)
  have "cache_vouched (sv_cache s) \<subseteq> cache_vouched (sv_cache (ss_state \<sigma>))"
    using assms(2) by (elim disjE) (simp_all add: sc.evict_shrinks [OF v] sc.evict_owner_shrinks [OF v])
  then have "vouched_by_past U (moved s \<sigma>)"
    using assms(1) by (subst vouched_by_past_mono [of U \<sigma>]) (simp_all add: session_inv_def subset_insertI)
  moreover have "cache_valid (sv_cache s)" "sc_ttl (sv_cache s) = sc_ttl (sv_cache (ss_state \<sigma>))"
    using assms(2) v
    by (elim disjE; simp add: sc.valid_evict sc.valid_evict_owner sc.ttl_evict sc.ttl_evict_owner)+
  ultimately show ?thesis using assms(1) by (simp add: session_inv_def)
qed

lemma session_inv_request:
  assumes "session_inv U \<sigma>" and "call_at W U \<sigma> X"
  shows "session_inv U (moved (fst (authenticate_token X token (ss_state \<sigma>))) \<sigma>)"
proof -
  let ?h = "hash_session_token (ax_pw X) token" and ?s = "ss_state \<sigma>"
  from authenticate_token_state [of X token ?s] consider "fst (authenticate_token X token ?s) = ?s"
    | u where "session_user U ?h (sv_db ?s) = Some u"
        "fst (authenticate_token X token ?s) = ?s \<lparr> sv_cache := cache_insert (ss_time \<sigma>) ?h u (sv_cache ?s) \<rparr>"
    using assms(2) by (auto simp: call_at_def)
  then show ?thesis
  proof cases
    case 1
    then show ?thesis using session_inv_shrink [OF assms(1), of ?s] by simp
  next
    case 2
    have v: "cache_valid (sv_cache ?s)" using assms(1) by (simp add: session_inv_def)
    have sub: "cache_vouched (cache_insert (ss_time \<sigma>) ?h u (sv_cache ?s)) \<subseteq> insert (?h, u, ss_time \<sigma>) (cache_vouched (sv_cache ?s))"
      by (rule sc.vouched_ins [OF v])
    have "justified U (ss_time \<sigma>) (ss_past \<sigma>) (?h, u, ss_time \<sigma>)"
      using assms(1) 2(1) by (auto simp: justified_def session_inv_def)
    then have "\<forall>x \<in> insert (?h, u, ss_time \<sigma>) (cache_vouched (sv_cache ?s)). justified U (ss_time \<sigma>) (ss_past \<sigma>) x"
      using assms(1) by (simp add: session_inv_def vouched_by_past_def)
    then have "vouched_by_past U (moved (fst (authenticate_token X token ?s)) \<sigma>)"
      unfolding vouched_by_past_def 2(2) using sub by (simp, meson justified_mono order_refl subsetD subset_insertI)
    with assms(1) v show ?thesis by (simp add: session_inv_def 2(2) sc.valid_ins sc.ttl_ins)
  qed
qed

lemma session_inv_step: "session_step W U \<sigma> \<tau> \<Longrightarrow> session_inv U \<sigma> \<Longrightarrow> session_inv U \<tau>"
proof (induction rule: session_step.induct)
  case (time_passes \<sigma> t)
  then have "vouched_by_past U (\<sigma> \<lparr> ss_time := t, ss_past := insert (t, sv_db (ss_state \<sigma>)) (ss_past \<sigma>) \<rparr>)"
    by (subst vouched_by_past_mono [of U \<sigma>]) (simp_all add: session_inv_def subset_insertI)
  with time_passes show ?case by (simp add: session_inv_def)
next
  case (logging_out \<sigma> X token)
  then show ?case using logout_cases [of X token "ss_state \<sigma>"] session_inv_shrink by metis
next
  case (new_password \<sigma> X old i p c)
  then show ?case
    using change_password_cases [of X old i p c "ss_state \<sigma>"] session_inv_shrink unfolding passwords_changed_def by metis
next
  case (request \<sigma> X token)
  then show ?case by (blast intro: session_inv_request)
next
  case (database_changes \<sigma> db)
  then show ?case by (rule session_inv_shrink) simp
qed

interpretation sessions: transition_invariant session_init "session_step W U" "session_inv U"
proof unfold_locales
  fix \<sigma> \<tau>
  show "session_init \<sigma> \<Longrightarrow> session_inv U \<sigma>"
    by (auto simp: session_init_def session_inv_def vouched_by_past_def cache_new_def cache_valid_def cache_vouched_def
        hm.wf_empty)
qed (rule session_inv_step)

section \<open>After a logout\<close>

definition forgotten :: "byte list \<Rightarrow> AuthState \<Rightarrow> bool" where
  "forgotten h s \<longleftrightarrow> cache_valid (sv_cache s) \<and> (\<forall>u at. (h, u, at) \<notin> cache_vouched (sv_cache s)) \<and> h \<notin> fst ` set (ad_sessions (sv_db s))"

lemma forgotten_rejected: "forgotten h s \<Longrightarrow> hash_session_token (ax_pw X) token = h \<Longrightarrow> \<not> accepts X token s u"
  using accepts_cases [of X token s u] sc.get_vouched [of "sv_cache s" "ax_mono X" h u]
  by (auto simp: forgotten_def dest: session_user_listed)

definition not_reissued :: "pw_env \<Rightarrow> uuid_codec \<Rightarrow> byte list \<Rightarrow> session_sys \<Rightarrow> session_sys \<Rightarrow> bool" where
  "not_reissued W U h \<sigma> \<tau> \<longleftrightarrow> session_step W U \<sigma> \<tau> \<and> h \<notin> fst ` set (ad_sessions (sv_db (ss_state \<tau>)))"

lemma forgotten_request:
  assumes "forgotten h s"
  shows "forgotten h (fst (authenticate_token X token s))"
proof -
  consider "fst (authenticate_token X token s) = s"
    | u k where "session_user (av_codec (ax_env X)) k (sv_db s) = Some u"
        "fst (authenticate_token X token s) = s \<lparr> sv_cache := cache_insert (ax_mono X) k u (sv_cache s) \<rparr>"
    using authenticate_token_state [of X token s] by blast
  then show ?thesis
  proof cases
    case 2
    then have "k \<noteq> h" using assms by (auto simp: forgotten_def dest: session_user_listed)
    with 2 assms show ?thesis using sc.vouched_ins [of "sv_cache s" "ax_mono X" k u] by (auto simp: forgotten_def sc.valid_ins)
  qed (simp add: assms)
qed

lemma forgotten_step: "session_step W U \<sigma> \<tau> \<Longrightarrow> forgotten h (ss_state \<sigma>) \<Longrightarrow> h \<notin> fst ` set (ad_sessions (sv_db (ss_state \<tau>))) \<Longrightarrow> forgotten h (ss_state \<tau>)"
proof (induction rule: session_step.induct)
  case (logging_out \<sigma> X token)
  then show ?case using logout_cases [of X token "ss_state \<sigma>"]
    by (auto simp: forgotten_def sc.valid_evict sc.vouched_evict)
next
  case (new_password \<sigma> X old i p c)
  then show ?case using change_password_cases [of X old i p c "ss_state \<sigma>"]
    by (auto simp: forgotten_def passwords_changed_def sc.valid_evict_owner sc.vouched_evict_owner)
next
  case (request \<sigma> X token)
  then show ?case using forgotten_request by simp
qed (simp_all add: forgotten_def)

lemma forgotten_run: "(not_reissued W U h)\<^sup>*\<^sup>* \<sigma> \<tau> \<Longrightarrow> forgotten h (ss_state \<sigma>) \<Longrightarrow> forgotten h (ss_state \<tau>)"
  by (induction rule: rtranclp_induct) (auto simp: not_reissued_def intro: forgotten_step)

lemma logout_forgets:
  assumes "cache_valid (sv_cache s)" and "snd (logout X token s) = Ok ()"
  shows "forgotten (hash_session_token (ax_pw X) token) (fst (logout X token s))"
  using logout_cases [of X token s] assms by (auto simp: forgotten_def sc.valid_evict sc.vouched_evict)

section \<open>A late answer\<close>

text \<open>The two halves of a request that misses the cache: the database answers, and later the answer is cached.\<close>

definition late_fill :: "auth_ctx \<Rightarrow> string \<Rightarrow> AuthenticatedUser \<Rightarrow> AuthState \<Rightarrow> AuthState" where
  "late_fill X token user s =
     s \<lparr> sv_cache := cache_insert (ax_mono X) (hash_session_token (ax_pw X) token) user (sv_cache s) \<rparr>"

lemma request_is_lookup_then_fill:
  assumes "cache_get (ax_mono X) (sv_cache s) (hash_session_token (ax_pw X) token) = None"
    and "find_user_by_session_token_hash (ax_env X) (hash_session_token (ax_pw X) token) (sv_db s) = Ok (Some u)"
  shows "authenticate_token X token s = (late_fill X token u s, Ok (Some (authenticated_request token u)))"
  using assms by (simp add: authenticate_token_def late_fill_def Let_def)

section \<open>Examples\<close>

definition demo_auth_env :: auth_env where
  "demo_auth_env = \<lparr> av_fault = (\<lambda>_. None), av_reject = InvalidData ''constraint'', av_now = 0, av_codec = hyphenated_codec, av_order = (\<lambda>x. x) \<rparr>"

definition demo_ctx :: "instant \<Rightarrow> auth_ctx" where
  "demo_ctx t = \<lparr> ax_env = demo_auth_env, ax_pw = demo_pw, ax_mono = t, ax_random = [7], ax_salt = [1], ax_uuid = 8, ax_uuid2 = 9,
     ax_simple = (\<lambda>_. ''x'') \<rparr>"

definition demo_row :: AuthUserRow where
  "demo_row = \<lparr> uc_id = 5, uc_email = ''a@b.c'', uc_username = ''ann'', uc_name = ''Ann'', uc_avatar_url = [], uc_created_at = 0,
     uc_updated_at = 0, uc_last_seen_at = None, uc_hashed_password = encode_password_hash demo_pw ''hunter22'' [1] HASH_ITERATIONS,
     uc_hashed_one_time_passcode = [], uc_one_time_passcode_expires_at = None, uc_rbac_roles = [], uc_login_type = Password,
     uc_status = Active, uc_deleted = False, uc_is_system = False \<rparr>"

definition demo_auth_db :: AuthDb where
  "demo_auth_db = \<lparr> ad_users = [demo_row], ad_members = [], ad_organizations = [],
     ad_sessions = [(hash_session_token demo_pw ''tok'', 5)], ad_keys = [] \<rparr>"

definition demo_auth_user :: AuthenticatedUser where
  "demo_auth_user = authenticated_from (user_record_from_row demo_auth_db demo_row)"

definition demo_sys :: session_sys where
  "demo_sys = \<lparr> ss_time = 0, ss_state = auth_service_new demo_auth_db, ss_past = {(0, demo_auth_db)} \<rparr>"

lemma demo_session: "session_user hyphenated_codec (hash_session_token demo_pw ''tok'') demo_auth_db = Some demo_auth_user"
  by (simp add: session_user_def demo_auth_db_def demo_auth_user_def live_row_def demo_row_def org_roles_of_def
      authenticated_from_def user_record_from_row_def organizations_of_def)

lemma demo_ctx_simps [simp]:
  "ax_env (demo_ctx t) = demo_auth_env" "ax_pw (demo_ctx t) = demo_pw" "ax_mono (demo_ctx t) = t"
  "ax_random (demo_ctx t) = [7]" "ax_salt (demo_ctx t) = [1]" "ax_uuid (demo_ctx t) = 8"
  by (simp_all add: demo_ctx_def)

lemma demo_env_simps [simp]:
  "av_fault demo_auth_env c = None" "av_codec demo_auth_env = hyphenated_codec" "av_now demo_auth_env = 0"
  by (simp_all add: demo_auth_env_def)

lemma demo_init: "session_init demo_sys"
proof -
  have "sv_cache (ss_state demo_sys) = cache_new (secs 30)" "0 < secs 30"
    by (simp_all add: demo_sys_def auth_service_new_def secs_def)
  then show ?thesis unfolding session_init_def by (auto simp: demo_sys_def auth_service_new_def)
qed

lemma demo_reachable: "reachable session_init (session_step demo_pw hyphenated_codec) demo_sys"
  by (rule reach_init) (rule demo_init)

lemma demo_accepts: "accepts (demo_ctx 0) ''tok'' (ss_state demo_sys) demo_auth_user"
  by (simp add: accepts_def authenticate_token_def Let_def demo_sys_def auth_service_new_def cache_get_def cache_new_def
      hm.get_empty find_user_by_session_token_hash_def auth_query_def demo_session authenticated_request_def)

section \<open>Properties\<close>

text \<open>
  C7. In whatever order requests, logouts, password changes and other changes of the database follow one another, each call
  running to its end, a token is only accepted for a user that the database bound to it now, or at some moment less than
  the cache's time to live ago.
\<close>

theorem accepted_token_was_bound:
  assumes "reachable session_init (session_step W U) \<sigma>" and "call_at W U \<sigma> X" and "accepts X token (ss_state \<sigma>) u"
  shows "\<exists>at db. (at, db) \<in> ss_past \<sigma> \<and> at \<le> ss_time \<sigma> \<and> ss_time \<sigma> - at < sc_ttl (sv_cache (ss_state \<sigma>)) \<and>
    session_user U (hash_session_token W token) db = Some u"
proof -
  have inv: "session_inv U \<sigma>" by (rule sessions.reachable_inv [OF assms(1)])
  from accepts_cases [OF assms(3)] show ?thesis
  proof
    assume "cache_get (ax_mono X) (sv_cache (ss_state \<sigma>)) (hash_session_token (ax_pw X) token) = Some u"
    then obtain at where at: "(hash_session_token W token, u, at) \<in> cache_vouched (sv_cache (ss_state \<sigma>))"
      "ss_time \<sigma> - at < sc_ttl (sv_cache (ss_state \<sigma>))"
      using sc.get_vouched inv assms(2) unfolding session_inv_def call_at_def by metis
    with inv have "justified U (ss_time \<sigma>) (ss_past \<sigma>) (hash_session_token W token, u, at)"
      unfolding session_inv_def vouched_by_past_def by blast
    with at(2) show ?thesis unfolding justified_def by auto
  next
    assume "session_user (av_codec (ax_env X)) (hash_session_token (ax_pw X) token) (sv_db (ss_state \<sigma>)) = Some u"
    with inv assms(2) show ?thesis
      by (intro exI [of _ "ss_time \<sigma>"] exI [of _ "sv_db (ss_state \<sigma>)"]) (simp add: session_inv_def call_at_def)
  qed
qed

theorem accepted_token_was_bound_witness:
  "\<exists>at db. (at, db) \<in> ss_past demo_sys \<and> at \<le> 0 \<and> 0 - at < secs 30 \<and>
     session_user hyphenated_codec (hash_session_token demo_pw ''tok'') db = Some demo_auth_user"
proof -
  have "call_at demo_pw hyphenated_codec demo_sys (demo_ctx 0)" by (simp add: call_at_def demo_sys_def)
  from accepted_token_was_bound [OF demo_reachable this demo_accepts]
  show ?thesis by (simp add: demo_sys_def auth_service_new_def cache_new_def)
qed



text \<open>
  The eviction does not reach a request that is between its two halves: when the database answered before the logout and
  the answer is cached after it, the logged-out token is accepted for another time to live, although no session exists.
\<close>

theorem late_answer_revives_session:
  assumes "find_user_by_session_token_hash (ax_env X) (hash_session_token (ax_pw X) token) (sv_db s) = Ok (Some u)"
    and "snd (logout Y token s) = Ok ()" and "ax_pw Y = ax_pw X" and "ax_pw Z = ax_pw X"
    and "cache_valid (sv_cache s)" and "elapsed (ax_mono Z) (ax_mono X) < sc_ttl (sv_cache s)"
  shows "accepts Z token (late_fill X token u (fst (logout Y token s))) u \<and>
    session_user U (hash_session_token (ax_pw X) token) (sv_db (late_fill X token u (fst (logout Y token s)))) = None"
proof -
  let ?h = "hash_session_token (ax_pw X) token" and ?s = "fst (logout Y token s)"
  have c: "sv_cache ?s = cache_evict ?h (sv_cache s)"
    and d: "?h \<notin> fst ` set (ad_sessions (sv_db ?s))"
    using logout_cases [of Y token s] assms(2,3) by (auto simp: logout_def Let_def)
  have "cache_get (ax_mono Z) (cache_insert (ax_mono X) ?h u (sv_cache ?s)) ?h = Some u"
    using assms(6) by (simp add: c cache_evict_def cache_insert_def cache_get_def Let_def sweep_def)
  then have "accepts Z token (late_fill X token u ?s) u"
    using assms(4) by (simp add: accepts_def authenticate_token_def late_fill_def Let_def authenticated_request_def)
  moreover have "session_user U ?h (sv_db (late_fill X token u ?s)) = None"
    using d session_user_listed [of U ?h "sv_db ?s"] by (cases "session_user U ?h (sv_db ?s)") (auto simp: late_fill_def)
  ultimately show ?thesis by simp
qed

theorem late_answer_revives_session_witness:
  "accepts (demo_ctx 2) ''tok'' (late_fill (demo_ctx 1) ''tok'' demo_auth_user (fst (logout (demo_ctx 0) ''tok'' (auth_service_new demo_auth_db)))) demo_auth_user"
proof -
  have "find_user_by_session_token_hash (ax_env (demo_ctx 1)) (hash_session_token (ax_pw (demo_ctx 1)) ''tok'')
      (sv_db (auth_service_new demo_auth_db)) = Ok (Some demo_auth_user)"
    by (simp add: find_user_by_session_token_hash_def auth_query_def auth_service_new_def demo_session)
  moreover have "snd (logout (demo_ctx 0) ''tok'' (auth_service_new demo_auth_db)) = Ok ()"
    by (simp add: logout_def delete_auth_session_def auth_attempt_def Let_def)
  moreover have "cache_valid (sv_cache (auth_service_new demo_auth_db))"
    by (simp add: auth_service_new_def cache_new_def cache_valid_def hm.wf_empty)
  moreover have "elapsed (ax_mono (demo_ctx 2)) (ax_mono (demo_ctx 1)) < sc_ttl (sv_cache (auth_service_new demo_auth_db))"
    by (simp add: elapsed_def auth_service_new_def cache_new_def secs_def)
  ultimately show ?thesis
    using late_answer_revives_session [of "demo_ctx 1" "''tok''" "auth_service_new demo_auth_db" demo_auth_user "demo_ctx 0" "demo_ctx 2" hyphenated_codec]
    by simp
qed

end
