(* ===== verification/Auth_Accounts.thy ===== *)
theory Auth_Accounts
  imports Auth_Sessions
begin

text \<open>
  What logins, password changes, API keys and the middleware amount to: who can log in and under which token, what a
  password change revokes, and what happens to created keys and to suspended users.
\<close>

section \<open>Password changes\<close>

lemma find_unique: "x \<in> set xs \<Longrightarrow> P x \<Longrightarrow> (\<And>y. y \<in> set xs \<Longrightarrow> P y \<Longrightarrow> y = x) \<Longrightarrow> find P xs = Some x"
proof (induction xs)
  case (Cons y ys)
  show ?case
  proof (cases "P y")
    case True
    then have "y = x" by (rule Cons.prems(3) [OF list.set_intros(1)])
    with True show ?thesis by simp
  next
    case False
    then have "x \<in> set ys" using Cons.prems(1,2) by auto
    then have "find P ys = Some x" using Cons.IH Cons.prems(2,3) by (meson list.set_intros(2))
    with False show ?thesis by simp
  qed
qed simp

lemma find_map_update: "(\<And>x. P x \<Longrightarrow> P (f x)) \<Longrightarrow> find P (map (\<lambda>x. if P x then f x else x) xs) = map_option f (find P xs)"
  by (induction xs) auto

lemma live_row_changed:
  assumes "ad_users db' = map (\<lambda>u. if uc_id u = i \<and> \<not> uc_deleted u then f u else u) (ad_users db)"
    and "\<And>u. same_account (f u) u" and "j \<noteq> i"
  shows "live_row db' j = live_row db j"
proof -
  have "find (\<lambda>u. uc_id u = j \<and> \<not> uc_deleted u) (map (\<lambda>u. if uc_id u = i \<and> \<not> uc_deleted u then f u else u) us) =
      find (\<lambda>u. uc_id u = j \<and> \<not> uc_deleted u) us" for us
    using assms(2,3) by (induction us) (auto simp: same_account_def)
  then show ?thesis by (simp add: live_row_def assms(1))
qed

lemma map_of_filter_value: "map_of (filter (\<lambda>(h, u). u \<noteq> i) m) h = Some j \<Longrightarrow> j \<noteq> i"
  by (auto dest!: map_of_SomeD)

lemma map_of_filter_other: "distinct (map fst m) \<Longrightarrow> map_of m h = Some j \<Longrightarrow> j \<noteq> i \<Longrightarrow> map_of (filter (\<lambda>(h, u). u \<noteq> i) m) h = Some j"
  by (induction m) (auto split: if_splits dest: map_of_SomeD)

lemma session_user_changed:
  assumes "passwords_changed i s s'" and "session_user U h (sv_db s) = Some u" and "au_id u \<noteq> i"
    and "distinct (map fst (ad_sessions (sv_db s)))"
  shows "session_user U h (sv_db s') = Some u"
proof -
  from assms(1) obtain f where f: "ad_users (sv_db s') = map (\<lambda>u. if uc_id u = i \<and> \<not> uc_deleted u then f u else u) (ad_users (sv_db s))"
    "\<And>u. same_account (f u) u" and m: "ad_members (sv_db s') = ad_members (sv_db s)"
    and se: "ad_sessions (sv_db s') = filter (\<lambda>(h, u). u \<noteq> i) (ad_sessions (sv_db s))"
    unfolding passwords_changed_def by blast
  note j = session_user_id [OF assms(2)]
  have "live_row (sv_db s') (au_id u) = live_row (sv_db s) (au_id u)"
    by (rule live_row_changed [OF f assms(3)])
  moreover have "map_of (ad_sessions (sv_db s')) h = Some (au_id u)"
    unfolding se by (rule map_of_filter_other [OF assms(4) j assms(3)])
  ultimately show ?thesis
    using assms(2) j by (simp add: session_user_def user_record_from_row_def organizations_of_def org_roles_of_def m)
qed

lemma cache_get_evicted_other:
  assumes "cache_valid c" and "cache_get now c h = Some u" and "au_id u \<noteq> i"
  shows "cache_get now (cache_evict_user i c) h = Some u"
  using assms by (auto simp: cache_get_def cache_evict_user_def cache_valid_def hm_filter split: option.splits if_splits)

lemma cache_get_evicted_miss:
  assumes "cache_valid c" and "cache_get now c h = None"
  shows "cache_get now (cache_evict_user i c) h = None"
  using assms by (auto simp: cache_get_def cache_evict_user_def cache_valid_def hm_filter split: option.splits if_splits)

text \<open>Who is accepted after a password change.\<close>

lemma accepts_db:
  assumes "accepts X token s u" and "cache_get (ax_mono X) (sv_cache s) (hash_session_token (ax_pw X) token) = None"
  shows "av_fault (ax_env X) FindUserBySessionTokenHash = None \<and>
    session_user (av_codec (ax_env X)) (hash_session_token (ax_pw X) token) (sv_db s) = Some u"
  using assms
  by (auto simp: accepts_def authenticate_token_def authenticated_request_def Let_def find_user_by_session_token_hash_def
      auth_query_def split: option.splits)

lemma accepts_cached:
  "cache_get (ax_mono X) (sv_cache s) (hash_session_token (ax_pw X) token) = Some u \<Longrightarrow> accepts X token s u"
  by (simp add: accepts_def authenticate_token_def authenticated_request_def Let_def)

lemma accepts_bound:
  "cache_get (ax_mono X) (sv_cache s) (hash_session_token (ax_pw X) token) = None \<Longrightarrow>
   av_fault (ax_env X) FindUserBySessionTokenHash = None \<Longrightarrow>
   session_user (av_codec (ax_env X)) (hash_session_token (ax_pw X) token) (sv_db s) = Some u \<Longrightarrow> accepts X token s u"
  by (simp add: accepts_def authenticate_token_def authenticated_request_def Let_def find_user_by_session_token_hash_def auth_query_def)

lemma changed_rejects:
  assumes "passwords_changed i s s'" and "cache_valid (sv_cache s)" and "accepts X token s' u"
  shows "au_id u \<noteq> i"
proof -
  have c: "sv_cache s' = cache_evict_user i (sv_cache s)"
    and se: "ad_sessions (sv_db s') = filter (\<lambda>(h, u). u \<noteq> i) (ad_sessions (sv_db s))"
    using assms(1) unfolding passwords_changed_def by blast+
  from accepts_cases [OF assms(3)] show ?thesis
  proof
    assume "cache_get (ax_mono X) (sv_cache s') (hash_session_token (ax_pw X) token) = Some u"
    then show ?thesis unfolding c by (rule sc.get_evicted_owner [OF assms(2)])
  next
    assume "session_user (av_codec (ax_env X)) (hash_session_token (ax_pw X) token) (sv_db s') = Some u"
    from session_user_id [OF this] show ?thesis unfolding se by (rule map_of_filter_value)
  qed
qed

lemma changed_keeps:
  assumes "passwords_changed i s s'" and "cache_valid (sv_cache s)" and "distinct (map fst (ad_sessions (sv_db s)))"
    and "accepts X token s u" and "au_id u \<noteq> i"
  shows "accepts X token s' u"
proof -
  let ?h = "hash_session_token (ax_pw X) token"
  have c: "sv_cache s' = cache_evict_user i (sv_cache s)" using assms(1) by (simp add: passwords_changed_def)
  show ?thesis
  proof (cases "cache_get (ax_mono X) (sv_cache s) ?h")
    case None
    note db = accepts_db [OF assms(4) None]
    show ?thesis
      using db session_user_changed [OF assms(1) conjunct2 [OF db] assms(5,3)] cache_get_evicted_miss [OF assms(2) None]
      by (intro accepts_bound) (simp_all add: c)
  next
    case (Some v)
    then have "v = u" using assms(4) by (auto simp: accepts_def authenticate_token_def authenticated_request_def Let_def)
    with Some cache_get_evicted_other [OF assms(2) _ assms(5)] show ?thesis by (intro accepts_cached) (simp add: c)
  qed
qed

lemma update_user_password_ends:
  assumes "update_user_password X actor me req old p s = (s', Ok i)"
  shows "\<exists>h. change_password X h i p False s = (s', Ok i)"
proof -
  have "\<exists>h t. change_password X h t p False s = (s', Ok i)"
    using assms by (auto simp: update_user_password_def resolved_def split: sum.splits option.splits if_splits bool.splits)
  then show ?thesis using change_password_cases by (metis (no_types, lifting) is_ok.simps(2) snd_conv sum.inject(2))
qed

lemma passcode_change_ends:
  assumes "change_password_with_one_time_passcode X email p code s = (s', Ok i)"
  shows "\<exists>h. change_password X h i p True s = (s', Ok i)"
proof -
  have "\<exists>h t. change_password X h t p True s = (s', Ok i)"
    using assms by (auto simp: change_password_with_one_time_passcode_def Let_def split: sum.splits option.splits if_splits bool.splits)
  then show ?thesis using change_password_cases by (metis (no_types, lifting) is_ok.simps(2) snd_conv sum.inject(2))
qed

section \<open>Logins\<close>

definition login_row :: "string \<Rightarrow> AuthDb \<Rightarrow> AuthUserRow option" where
  "login_row email db = find (\<lambda>u. same_text (uc_email u) (trim email) \<and> \<not> uc_deleted u) (ad_users db)"

definition can_log_in :: "pw_env \<Rightarrow> string \<Rightarrow> AuthUserRow \<Rightarrow> bool" where
  "can_log_in W password r \<longleftrightarrow>
     uc_login_type r = Password \<and> uc_status r = Active \<and> \<not> uc_is_system r \<and>
     verify_password W (uc_hashed_password r) password = Ok True"

lemma login_row_live: "login_row email db = Some r \<Longrightarrow> r \<in> set (ad_users db) \<and> \<not> uc_deleted r"
  by (auto simp: login_row_def find_Some_iff)

lemma may_log_in_row: "login_row email db = Some r \<Longrightarrow>
  may_log_in (user_record_from_row db r) \<longleftrightarrow> uc_login_type r = Password \<and> uc_status r = Active \<and> \<not> uc_is_system r"
  using login_row_live [of email db r] by (auto simp: may_log_in_def user_record_from_row_def)

text \<open>A new session under a fresh token, and the request that uses it.\<close>

lemma open_session_works:
  assumes "av_fault (ax_env X) = (\<lambda>_. None)" and "user \<in> uc_id ` set (ad_users (sv_db s))"
    and "hash_session_token (ax_pw X) (new_session_token (ax_pw X) (ax_random X)) \<notin> fst ` set (ad_sessions (sv_db s))"
  shows "issue_session X user s =
    (s \<lparr> sv_db := (sv_db s) \<lparr> ad_sessions := ad_sessions (sv_db s) @
        [(hash_session_token (ax_pw X) (new_session_token (ax_pw X) (ax_random X)), user)] \<rparr> \<rparr>,
     Ok (new_session_token (ax_pw X) (ax_random X)))"
  using assms by (simp add: issue_session_def insert_auth_session_def auth_attempt_def Let_def)

definition logged_in :: "auth_ctx \<Rightarrow> AuthUserRow \<Rightarrow> AuthState \<Rightarrow> AuthState" where
  "logged_in X r s =
     s \<lparr> sv_db := (sv_db s) \<lparr> ad_sessions := ad_sessions (sv_db s) @
        [(hash_session_token (ax_pw X) (new_session_token (ax_pw X) (ax_random X)), uc_id r)] \<rparr> \<rparr>"

lemma login_result:
  assumes "av_fault (ax_env X) = (\<lambda>_. None)"
    and "hash_session_token (ax_pw X) (new_session_token (ax_pw X) (ax_random X)) \<notin> fst ` set (ad_sessions (sv_db s))"
  shows "login_with_password X email password s =
    (case login_row email (sv_db s) of
       Some r \<Rightarrow>
         if \<not> may_log_in (user_record_from_row (sv_db s) r) then (s, Err (AuthUnauthorized ''Incorrect email or password.''))
         else (case pw_storage (verify_password (ax_pw X) (uc_hashed_password r) password) of
                 Inl e \<Rightarrow> (s, Err e)
               | Inr False \<Rightarrow> (s, Err (AuthUnauthorized ''Incorrect email or password.''))
               | Inr True \<Rightarrow> (logged_in X r s, Ok (authenticated_from (user_record_from_row (sv_db s) r), new_session_token (ax_pw X) (ax_random X))))
     | None \<Rightarrow> (s, Err (AuthUnauthorized ''Incorrect email or password.'')))"
proof (cases "login_row email (sv_db s)")
  case None
  then show ?thesis
    using assms(1) by (simp add: login_with_password_def find_password_user_by_email_def auth_query_def login_row_def)
next
  case (Some r)
  have u: "uc_id r \<in> uc_id ` set (ad_users (sv_db s))" using login_row_live [OF Some] by blast
  have o: "issue_session X (ur_id (user_record_from_row (sv_db s) r)) s =
      (logged_in X r s, Ok (new_session_token (ax_pw X) (ax_random X)))"
    using open_session_works [OF assms(1) u assms(2)] by (simp add: user_record_from_row_def logged_in_def)
  show ?thesis
    using assms(1) Some o
    by (simp add: login_with_password_def find_password_user_by_email_def auth_query_def login_row_def password_record_from_row_def
        split: sum.splits bool.splits)
qed

lemma pw_storage_True: "pw_storage r = Inr True \<longleftrightarrow> r = Inr True" "pw_storage (Inr x) = Inr x"
  by (simp_all add: pw_storage_def split: sum.splits)

section \<open>Created keys\<close>

lemma create_api_key_sessions: "ad_sessions (fst (create_api_key E input db)) = ad_sessions db"
  by (simp add: create_api_key_def Let_def split: option.splits)

lemma create_api_key_for_user_result:
  assumes "create_api_key_for_user X r s = (s', Ok (key_id, key))"
  shows "key = new_session_token (ax_pw X) (ax_random X) \<and> ad_sessions (sv_db s') = ad_sessions (sv_db s) \<and> sv_cache s' = sv_cache s"
  using assms create_api_key_sessions [where E = "ax_env X" and db = "sv_db s"]
  unfolding create_api_key_for_user_def Let_def
  by (clarsimp split: if_splits option.splits prod.splits sum.splits CreateApiKeyStoreError.splits) (metis fst_conv)

lemma created_key:
  assumes "create_token_api_key X actor me req request s = (s', Ok (key_id, key))"
  shows "key = new_session_token (ax_pw X) (ax_random X) \<and> ad_sessions (sv_db s') = ad_sessions (sv_db s) \<and> sv_cache s' = sv_cache s"
proof -
  have "\<exists>r. create_api_key_for_user X r s = (s', Ok (key_id, key))"
    using assms by (auto simp: create_token_api_key_def resolved_def Let_def split: sum.splits option.splits if_splits)
  then show ?thesis using create_api_key_for_user_result by blast
qed

lemma session_path_refuses:
  assumes "split_api_token token = None" and "forgotten (hash_session_token (ax_pw X) token) s"
    and "av_fault (ax_env X) FindUserBySessionTokenHash = None"
  shows "token_context X token s = (s, Err (UnauthorizedJson ''Missing or invalid session token.''))"
proof -
  let ?h = "hash_session_token (ax_pw X) token"
  have g: "cache_get (ax_mono X) (sv_cache s) ?h = None"
    using assms(2) sc.get_vouched [of "sv_cache s" "ax_mono X" ?h] unfolding forgotten_def by (metis not_None_eq)
  have u: "session_user (av_codec (ax_env X)) ?h (sv_db s) = None"
    using assms(2) session_user_listed [of "av_codec (ax_env X)" ?h "sv_db s"] unfolding forgotten_def by (metis not_None_eq)
  have "authenticate_token X token s = (s, Ok None)"
    using g u assms(3) by (simp add: authenticate_token_def Let_def find_user_by_session_token_hash_def auth_query_def)
  then show ?thesis
    using assms(1) by (auto simp: token_context_def authenticate_def request_token_def session_token_from_headers_def to_str_def
        cookie_from_headers_def)
qed

section \<open>Examples\<close>

definition demo_state :: AuthState where
  "demo_state = auth_service_new demo_auth_db"

lemma demo_state_simps [simp]:
  "sv_db demo_state = demo_auth_db" "cache_get t (sv_cache demo_state) h = None" "cache_valid (sv_cache demo_state)"
  "cache_vouched (sv_cache demo_state) = {}" "sc_ttl (sv_cache demo_state) = secs 30"
  by (simp_all add: demo_state_def auth_service_new_def cache_new_def cache_get_def cache_valid_def cache_vouched_def hm.wf_empty)

lemma demo_db_simps [simp]:
  "live_row demo_auth_db 5 = Some demo_row" "login_row ''a@b.c'' demo_auth_db = Some demo_row"
  "ad_sessions demo_auth_db = [(hash_session_token demo_pw ''tok'', 5)]" "ad_users demo_auth_db = [demo_row]"
  "ad_keys demo_auth_db = []" "uc_id demo_row = 5"
  by (simp_all add: live_row_def login_row_def demo_auth_db_def demo_row_def same_text_def trim_def is_space_def)

lemma demo_password:
  "verify_password demo_pw (uc_hashed_password demo_row) ''hunter22'' = Ok True"
  "verify_password demo_pw (uc_hashed_password demo_row) ''newpass99'' = Ok False"
  by (simp_all add: demo_row_def demo_pw.verify_encoded HASH_ITERATIONS_def) (simp_all add: demo_pw_def)

lemma demo_token: "new_session_token demo_pw [7] = ''07''" "hash_session_token demo_pw ''07'' \<noteq> hash_session_token demo_pw ''tok''"
  by (simp_all add: new_session_token_def hash_session_token_def demo_pw_def hex_text_def hex_digits_2 hex_digit_def)

lemma demo_resolve: "resolve_user (demo_ctx t) ''me'' demo_auth_user demo_auth_db = Ok (Some (user_record_from_row demo_auth_db demo_row))"
  by (simp add: resolve_user_def auth_find_user_by_id_def auth_query_def demo_auth_user_def authenticated_from_def user_record_from_row_def)

lemma demo_access: "can_access_user (actor_from_user demo_auth_user) 5" "ur_id (user_record_from_row demo_auth_db demo_row) = 5"
  "ur_login_type (user_record_from_row demo_auth_db demo_row) = Password" "au_id demo_auth_user = 5"
  "\<not> ur_is_system (user_record_from_row demo_auth_db demo_row)"
  by (simp_all add: can_access_user_def actor_from_user_def demo_auth_user_def authenticated_from_def user_record_from_row_def demo_row_def)

definition demo_changed :: AuthState where
  "demo_changed = fst (update_user_password (demo_ctx 0) (actor_from_user demo_auth_user) demo_auth_user ''me'' ''hunter22'' ''newpass99'' demo_state)"

lemma demo_change: "update_user_password (demo_ctx 0) (actor_from_user demo_auth_user) demo_auth_user ''me'' ''hunter22'' ''newpass99'' demo_state =
  (demo_changed, Ok 5)"
proof -
  have "snd (update_user_password (demo_ctx 0) (actor_from_user demo_auth_user) demo_auth_user ''me'' ''hunter22'' ''newpass99'' demo_state) = Ok 5"
    by (simp add: update_user_password_def resolved_def demo_resolve demo_access find_password_user_by_id_def auth_query_def
        password_record_from_row_def validate_password_def demo_password pw_storage_def change_password_def hash_password_def
        replace_user_password_def auth_attempt_def)
  then show ?thesis by (simp add: demo_changed_def prod_eq_iff)
qed

definition demo_request :: CreateTokenRequest where
  "demo_request = \<lparr> ct_lifetime = 0, ct_scope = [], ct_scopes = [], ct_token_name = ''ci'', ct_allow_list = [] \<rparr>"

definition demo_keyed :: AuthState where
  "demo_keyed = fst (create_token_api_key (demo_ctx 0) (actor_from_user demo_auth_user) demo_auth_user ''me'' demo_request demo_state)"

lemma demo_key: "create_token_api_key (demo_ctx 0) (actor_from_user demo_auth_user) demo_auth_user ''me'' demo_request demo_state =
  (demo_keyed, Ok (to_string hyphenated_codec 8, ''07''))"
proof -
  have "snd (create_token_api_key (demo_ctx 0) (actor_from_user demo_auth_user) demo_auth_user ''me'' demo_request demo_state) =
      Ok (to_string hyphenated_codec 8, ''07'')"
    by (simp add: create_token_api_key_def resolved_def demo_resolve demo_access token_config_def auth_query_def demo_request_def
        create_api_key_for_user_def create_api_key_def key_taken_def find_api_key_by_id_def find_key_def key_of_input_def
        odt_checked_add_def MAX_INSTANT_def secs_def whole_seconds_def DEFAULT_TOKEN_KEY_LIFETIME_SECS_def
        OWNER_MAX_TOKEN_LIFETIME_SECS_def REGULAR_MAX_TOKEN_LIFETIME_SECS_def demo_token Let_def)
  then show ?thesis by (simp add: demo_keyed_def prod_eq_iff)
qed

definition demo_suspended :: AuthState where
  "demo_suspended = \<lparr> sv_db = demo_auth_db \<lparr> ad_users := [demo_row \<lparr> uc_status := Suspended \<rparr>] \<rparr>,
     sv_cache = cache_insert 0 (hash_session_token demo_pw ''tok'') (demo_auth_user \<lparr> au_status := Dormant \<rparr>) (cache_new (secs 30)) \<rparr>"

section \<open>Properties\<close>



text \<open>
  C11. A login succeeds exactly for the live account with that address, if it is an active password account that is not a system
  account and the password verifies; it adds one session and nothing else, and a request with the returned token is then
  accepted for that account.
\<close>

theorem login_exact:
  assumes "av_fault (ax_env X) = (\<lambda>_. None)"
    and "forgotten (hash_session_token (ax_pw X) (new_session_token (ax_pw X) (ax_random X))) s"
    and "ax_pw Y = ax_pw X" and "av_fault (ax_env Y) FindUserBySessionTokenHash = None"
    and "distinct (map uc_id (ad_users (sv_db s)))"
  shows "login_with_password X email password s = (s', Ok (u, token)) \<longleftrightarrow>
    (\<exists>r. login_row email (sv_db s) = Some r \<and> can_log_in (ax_pw X) password r \<and> s' = logged_in X r s \<and>
       u = authenticated_from (user_record_from_row (sv_db s) r) \<and> token = new_session_token (ax_pw X) (ax_random X) \<and>
       accepts Y token s' (u \<lparr> au_org_roles := org_roles_of (av_codec (ax_env Y)) (sv_db s) (uc_id r) \<rparr>))"
proof -
  let ?t = "new_session_token (ax_pw X) (ax_random X)" and ?h = "hash_session_token (ax_pw X) (new_session_token (ax_pw X) (ax_random X))"
  have fresh: "?h \<notin> fst ` set (ad_sessions (sv_db s))" using assms(2) by (simp add: forgotten_def)
  have acc: "accepts Y ?t (logged_in X r s) ((authenticated_from (user_record_from_row (sv_db s) r))
      \<lparr> au_org_roles := org_roles_of (av_codec (ax_env Y)) (sv_db s) (uc_id r) \<rparr>)" if r: "login_row email (sv_db s) = Some r" for r
  proof (rule accepts_bound)
    show "cache_get (ax_mono Y) (sv_cache (logged_in X r s)) (hash_session_token (ax_pw Y) ?t) = None"
      using assms(2,3) sc.get_vouched [of "sv_cache s" "ax_mono Y" ?h] unfolding forgotten_def logged_in_def
      by (simp, metis not_None_eq)
    have "live_row (sv_db s) (uc_id r) = Some r"
      using login_row_live [OF r] assms(5) unfolding live_row_def
      by (intro find_unique [of r]) (auto simp: distinct_map inj_on_def)
    moreover have "map_of (ad_sessions (sv_db s) @ [(?h, uc_id r)]) ?h = Some (uc_id r)"
      using fresh [folded map_of_eq_None_iff] by (simp add: map_add_def)
    ultimately show "session_user (av_codec (ax_env Y)) (hash_session_token (ax_pw Y) ?t) (sv_db (logged_in X r s)) =
        Some ((authenticated_from (user_record_from_row (sv_db s) r))
          \<lparr> au_org_roles := org_roles_of (av_codec (ax_env Y)) (sv_db s) (uc_id r) \<rparr>)"
      using assms(3) by (simp add: session_user_def logged_in_def live_row_def user_record_from_row_def organizations_of_def org_roles_of_def)
  qed (rule assms(4))
  show ?thesis
    using acc may_log_in_row [of email "sv_db s"]
    by (auto simp: login_result [OF assms(1) fresh] can_log_in_def pw_storage_True split: option.splits sum.splits bool.splits if_splits)
qed

theorem login_exact_witness:
  "\<exists>s' token. login_with_password (demo_ctx 0) ''a@b.c'' ''hunter22'' demo_state = (s', Ok (demo_auth_user, token)) \<and>
     accepts (demo_ctx 1) token s' (demo_auth_user \<lparr> au_org_roles := [] \<rparr>)"
proof -
  have f: "forgotten (hash_session_token (ax_pw (demo_ctx 0)) (new_session_token (ax_pw (demo_ctx 0)) (ax_random (demo_ctx 0)))) demo_state"
    by (simp add: forgotten_def demo_token)
  have "av_fault (ax_env (demo_ctx 0)) = (\<lambda>_. None)" by (rule ext) simp
  moreover from this have "login_with_password (demo_ctx 0) ''a@b.c'' ''hunter22'' demo_state =
      (logged_in (demo_ctx 0) demo_row demo_state, Ok (demo_auth_user, ''07''))"
    using login_result [of "demo_ctx 0" demo_state "''a@b.c''" "''hunter22''"] demo_password(1)
    by (simp add: demo_token may_log_in_def user_record_from_row_def demo_row_def pw_storage_def demo_auth_user_def)
  moreover have "org_roles_of hyphenated_codec demo_auth_db 5 = []" by (simp add: org_roles_of_def demo_auth_db_def)
  ultimately show ?thesis
    using login_exact [of "demo_ctx 0" demo_state "demo_ctx 1" "''a@b.c''" "''hunter22''" "logged_in (demo_ctx 0) demo_row demo_state" demo_auth_user "''07''", OF _ f]
    by auto
qed

text \<open>
  C39. An API key that was just created does not open anything: its secret has no key identifier in front, so the middleware
  takes it for a session token, and no session has it.
\<close>

theorem created_key_is_refused:
  assumes "token_engine (ax_pw X)" and "create_token_api_key X actor me req request s = (s', Ok (key_id, key))"
    and "extract_token_from_headers hs = Some key" and "ax_pw Y = ax_pw X"
    and "av_fault (ax_env Y) FindUserBySessionTokenHash = None"
    and "forgotten (hash_session_token (ax_pw X) key) s"
  shows "api_key_auth_middleware Y hs s' = (s', UnauthorizedJson ''Missing or invalid session token.'')"
proof -
  note k = created_key [OF assms(2)]
  have "split_api_token key = None"
    using k token_engine.token_not_split [OF assms(1)] by (simp add: split_api_token_def)
  moreover have "forgotten (hash_session_token (ax_pw Y) key) s'" using assms(4,6) k by (simp add: forgotten_def)
  ultimately show ?thesis
    using session_path_refuses [OF _ _ assms(5)] assms(3) by (simp add: api_key_auth_middleware_def)
qed

theorem created_key_is_refused_witness:
  "snd (create_token_api_key (demo_ctx 0) (actor_from_user demo_auth_user) demo_auth_user ''me'' demo_request demo_state) =
     Ok (to_string hyphenated_codec 8, ''07'') \<and>
   snd (api_key_auth_middleware (demo_ctx 1) [(''coder-session-token'', ''07'')] demo_keyed) =
     UnauthorizedJson ''Missing or invalid session token.''"
proof -
  have "token_engine (ax_pw (demo_ctx 0))" using demo_pw.token_engine_axioms by simp
  moreover have "extract_token_from_headers [(''coder-session-token'', ''07'')] = Some ''07''"
    by (simp add: extract_token_from_headers_def nonempty_text_def to_str_def)
  moreover have "forgotten (hash_session_token (ax_pw (demo_ctx 0)) ''07'') demo_state" by (simp add: forgotten_def demo_token)
  ultimately show ?thesis
    using created_key_is_refused [OF _ demo_key, of "[(''coder-session-token'', ''07'')]" "demo_ctx 1"] demo_key by simp
qed

text \<open>
  A cached answer from before a suspension undoes it: while the cache holds the user as dormant, the next request of the
  suspended user sets the account active again and goes on.
\<close>

theorem stale_cache_undoes_suspension:
  assumes "extract_token_from_headers hs = Some token" and "split_api_token token = None" and "to_str token = Some token"
    and "cache_get (ax_mono X) (sv_cache s) (hash_session_token (ax_pw X) token) = Some u" and "au_status u = Dormant"
    and "live_row (sv_db s) (au_id u) = Some r" and "uc_status r = Suspended" and "av_fault (ax_env X) = (\<lambda>_. None)"
  shows "\<exists>s' ctx hs' r'. api_key_auth_middleware X hs s = (s', Proceed ctx hs') \<and>
    live_row (sv_db s') (au_id u) = Some r' \<and> uc_status r' = Active"
proof -
  let ?f = "\<lambda>v. v \<lparr> uc_status := Active, uc_updated_at := av_now (ax_env X) \<rparr>"
  let ?db = "update_users (\<lambda>v. uc_id v = au_id u \<and> \<not> uc_deleted v) ?f (sv_db s)"
  have live: "live_row ?db (au_id u) = Some (?f r)"
    using assms(6) by (simp add: live_row_def update_users_def find_map_update [where f = ?f])
  have "token_context X token s = (s, Ok \<lparr> cx_user = u, cx_actor = actor_from_user u, cx_api_key = None, cx_scopes = [ScopeAll] \<rparr>)"
    using assms(2-4) by (simp add: token_context_def authenticate_def request_token_def session_token_from_headers_def
        authenticate_token_def authenticated_request_def Let_def)
  then show ?thesis
    using assms(1,3,5,6,8) live
    by (auto simp: api_key_auth_middleware_def maybe_activate_dormant_def update_user_status_def auth_attempt_def
        auth_find_user_by_id_def auth_query_def Let_def)
qed

theorem stale_cache_undoes_suspension_witness:
  "\<exists>s' ctx hs' r'. api_key_auth_middleware (demo_ctx 1) [(''coder-session-token'', ''tok'')] demo_suspended = (s', Proceed ctx hs') \<and>
     live_row (sv_db s') 5 = Some r' \<and> uc_status r' = Active"
proof -
  have "extract_token_from_headers [(''coder-session-token'', ''tok'')] = Some ''tok''" "to_str ''tok'' = Some ''tok''"
    "split_api_token ''tok'' = None"
    by (simp_all add: extract_token_from_headers_def nonempty_text_def to_str_def split_api_token_def)
  moreover have "cache_get (ax_mono (demo_ctx 1)) (sv_cache demo_suspended) (hash_session_token (ax_pw (demo_ctx 1)) ''tok'') =
      Some (demo_auth_user \<lparr> au_status := Dormant \<rparr>)"
    by (simp add: demo_suspended_def cache_insert_def cache_get_def cache_new_def sweep_def elapsed_def secs_def Let_def)
  moreover have "live_row (sv_db demo_suspended) (au_id (demo_auth_user \<lparr> au_status := Dormant \<rparr>)) = Some (demo_row \<lparr> uc_status := Suspended \<rparr>)"
    by (simp add: demo_suspended_def live_row_def demo_access) (simp add: demo_row_def)
  moreover have "av_fault (ax_env (demo_ctx 1)) = (\<lambda>_. None)" by (rule ext) simp
  ultimately show ?thesis
    using stale_cache_undoes_suspension [of "[(''coder-session-token'', ''tok'')]" "''tok''" "demo_ctx 1" demo_suspended
        "demo_auth_user \<lparr> au_status := Dormant \<rparr>" "demo_row \<lparr> uc_status := Suspended \<rparr>"]
    by (simp add: demo_access)
qed

end
