(* ===== verification/OAuth2_Tables.thy ===== *)
theory OAuth2_Tables
  imports Auth_Service
begin

text \<open>
  The tables of the OAuth2 provider: the records of \<open>crates/coder-core/src/identity.rs\<close> and the statements of
  \<open>crates/coder-db/src/store/app_store.rs\<close> on applications, client secrets, authorization codes, tokens, approvals and
  pending consents, beside the tables of \<open>Auth_Tables\<close>. A statement may fail with any storage error (\<open>ov_fault\<close>); the
  defaults \<open>gen_random_uuid()\<close> and \<open>NOW()\<close> are \<open>ov_id\<close> and \<open>av_now\<close>. A query without an order returns rows in the order of
  \<open>ov_scan_codes\<close> and \<open>ov_scan_tokens\<close>. Byte columns that hold the front of a text are texts.
\<close>

section \<open>Records\<close>

record OAuth2ProviderAppRecord =
  op_id :: uuid
  op_created_at :: instant
  op_updated_at :: instant
  op_name :: string
  op_icon :: string
  op_callback_url :: string
  op_redirect_uris :: "string list"
  op_created_by :: "uuid option"
  op_registration_access_token :: "byte list option"
  op_first_party :: bool

record OAuth2PendingConsent =
  pc_app_id :: uuid
  pc_user_id :: uuid
  pc_state :: string
  pc_resource :: string
  pc_code_challenge :: string
  pc_code_challenge_method :: string

record CreateOAuth2ProviderAppInput =
  ia_name :: string
  ia_icon :: string
  ia_callback_url :: string
  ia_created_by :: "uuid option"
  ia_first_party :: bool

record UpdateOAuth2ProviderAppInput =
  ua_id :: uuid
  ua_name :: string
  ua_icon :: string
  ua_callback_url :: string
  ua_redirect_uris :: "string list"

record OAuth2ProviderAppSecretRecord =
  os_id :: uuid
  os_created_at :: instant
  os_last_used_at :: "instant option"
  os_secret_prefix :: string
  os_hashed_secret :: "byte list"
  os_display_secret :: string
  os_app_id :: uuid

record OAuth2ProviderAppCodeRecord =
  oc_id :: uuid
  oc_created_at :: instant
  oc_expires_at :: instant
  oc_secret_prefix :: string
  oc_hashed_secret :: "byte list"
  oc_app_id :: uuid
  oc_user_id :: uuid
  oc_resource_uri :: string
  oc_code_challenge :: string
  oc_code_challenge_method :: string
  oc_state_hash :: "string option"
  oc_redirect_uri :: "string option"

record OAuth2ProviderAppTokenRecord =
  ot_id :: uuid
  ot_created_at :: instant
  ot_expires_at :: instant
  ot_hash_prefix :: string
  ot_refresh_hash :: "byte list"
  ot_app_secret_id :: uuid
  ot_api_key_id :: string
  ot_audience :: string
  ot_user_id :: uuid

record CreateOAuth2ProviderAppTokenInput =
  ct_expires_at :: instant
  ct_hash_prefix :: string
  ct_refresh_hash :: "byte list"
  ct_app_secret_id :: uuid
  ct_api_key_id :: string
  ct_audience :: string
  ct_user_id :: uuid

section \<open>Tables and statements\<close>

record OAuthDb =
  od_auth :: AuthDb
  od_apps :: "OAuth2ProviderAppRecord list"
  od_secrets :: "OAuth2ProviderAppSecretRecord list"
  od_codes :: "OAuth2ProviderAppCodeRecord list"
  od_tokens :: "OAuth2ProviderAppTokenRecord list"
  od_approvals :: "((uuid \<times> uuid) \<times> string) list"
  od_consents :: "(uuid \<times> OAuth2PendingConsent \<times> instant) list"

datatype OAuthCall =
    ListApps | CreateApp | FindAppById | UpdateApp | DeleteApp | SetRegistrationToken | HasApproval | InsertApproval
  | InsertConsent | TakeConsent | ListSecrets | CreateSecret | FindSecretById | DeleteSecret | CreateCode
  | FindCodeByPrefix | DeleteCode | CreateToken | FindTokenByPrefix | FindTokenByRefreshHash | DeleteToken
  | ListTokensByAppAndUser | DeleteTokensByAppAndUser

record oauth_env =
  ov_auth :: auth_env
  ov_fault :: "OAuthCall \<Rightarrow> StorageError option"
  ov_id :: uuid
  ov_app_order :: "OAuth2ProviderAppRecord list \<Rightarrow> OAuth2ProviderAppRecord list"
  ov_scan_codes :: "OAuth2ProviderAppCodeRecord list \<Rightarrow> OAuth2ProviderAppCodeRecord list"
  ov_scan_tokens :: "OAuth2ProviderAppTokenRecord list \<Rightarrow> OAuth2ProviderAppTokenRecord list"

type_synonym 'a oauth_stmt = "OAuthDb \<times> (StorageError, 'a) result"

abbreviation ov_now :: "oauth_env \<Rightarrow> instant" where "ov_now E \<equiv> av_now (ov_auth E)"

definition oauth_attempt :: "oauth_env \<Rightarrow> OAuthCall \<Rightarrow> OAuthDb \<Rightarrow> 'a oauth_stmt \<Rightarrow> 'a oauth_stmt" where
  "oauth_attempt E call db s = (case ov_fault E call of Some e \<Rightarrow> (db, Err e) | None \<Rightarrow> s)"

definition oauth_query :: "oauth_env \<Rightarrow> OAuthCall \<Rightarrow> 'a \<Rightarrow> (StorageError, 'a) result" where
  "oauth_query E call x = (case ov_fault E call of Some e \<Rightarrow> Err e | None \<Rightarrow> Ok x)"

definition oauth_insert :: "oauth_env \<Rightarrow> OAuthCall \<Rightarrow> OAuthDb \<Rightarrow> bool \<Rightarrow> OAuthDb \<Rightarrow> 'a \<Rightarrow> 'a oauth_stmt" where
  "oauth_insert E call db accepted db' row =
     oauth_attempt E call db (if accepted then (db', Ok row) else (db, Err (av_reject (ov_auth E))))"

definition known_user :: "OAuthDb \<Rightarrow> uuid \<Rightarrow> bool" where
  "known_user db i \<longleftrightarrow> i \<in> uc_id ` set (ad_users (od_auth db))"

subsection \<open>Applications\<close>

definition list_oauth2_provider_apps :: "oauth_env \<Rightarrow> OAuthDb \<Rightarrow> (StorageError, OAuth2ProviderAppRecord list) result" where
  "list_oauth2_provider_apps E db = oauth_query E ListApps (ov_app_order E (od_apps db))"

text \<open>The column \<open>created_by\<close> is declared \<open>NOT NULL\<close>; names are unique up to case.\<close>

definition app_accepted :: "oauth_env \<Rightarrow> CreateOAuth2ProviderAppInput \<Rightarrow> OAuthDb \<Rightarrow> bool" where
  "app_accepted E input db \<longleftrightarrow>
     (case ia_created_by input of None \<Rightarrow> False | Some i \<Rightarrow> known_user db i) \<and>
     list_all (\<lambda>a. op_id a \<noteq> ov_id E \<and> \<not> same_text (op_name a) (ia_name input)) (od_apps db)"

definition new_app :: "oauth_env \<Rightarrow> CreateOAuth2ProviderAppInput \<Rightarrow> OAuth2ProviderAppRecord" where
  "new_app E input =
     \<lparr> op_id = ov_id E, op_created_at = ov_now E, op_updated_at = ov_now E, op_name = ia_name input,
        op_icon = ia_icon input, op_callback_url = ia_callback_url input, op_redirect_uris = [],
        op_created_by = ia_created_by input, op_registration_access_token = None, op_first_party = ia_first_party input \<rparr>"

definition create_oauth2_provider_app ::
  "oauth_env \<Rightarrow> CreateOAuth2ProviderAppInput \<Rightarrow> OAuthDb \<Rightarrow> OAuth2ProviderAppRecord oauth_stmt" where
  "create_oauth2_provider_app E input db =
     oauth_insert E CreateApp db (app_accepted E input db) (db \<lparr> od_apps := od_apps db @ [new_app E input] \<rparr>) (new_app E input)"

definition find_app :: "uuid \<Rightarrow> OAuthDb \<Rightarrow> OAuth2ProviderAppRecord option" where
  "find_app i db = find (\<lambda>a. op_id a = i) (od_apps db)"

definition find_oauth2_provider_app_by_id ::
  "oauth_env \<Rightarrow> uuid \<Rightarrow> OAuthDb \<Rightarrow> (StorageError, OAuth2ProviderAppRecord option) result" where
  "find_oauth2_provider_app_by_id E i db = oauth_query E FindAppById (find_app i db)"

definition update_apps ::
  "uuid \<Rightarrow> (OAuth2ProviderAppRecord \<Rightarrow> OAuth2ProviderAppRecord) \<Rightarrow> OAuthDb \<Rightarrow> OAuthDb" where
  "update_apps i f db = db \<lparr> od_apps := map (\<lambda>a. if op_id a = i then f a else a) (od_apps db) \<rparr>"

definition update_oauth2_provider_app ::
  "oauth_env \<Rightarrow> UpdateOAuth2ProviderAppInput \<Rightarrow> OAuthDb \<Rightarrow> OAuth2ProviderAppRecord option oauth_stmt" where
  "update_oauth2_provider_app E input db =
     (let db' = update_apps (ua_id input)
            (\<lambda>a. a \<lparr> op_updated_at := ov_now E, op_name := ua_name input, op_icon := ua_icon input,
                     op_callback_url := ua_callback_url input, op_redirect_uris := ua_redirect_uris input \<rparr>) db
      in oauth_insert E UpdateApp db
           (list_all (\<lambda>a. op_id a = ua_id input \<or> \<not> same_text (op_name a) (ua_name input)) (od_apps db) \<or>
            find_app (ua_id input) db = None)
           db' (find_app (ua_id input) db'))"

text \<open>Deleting an application takes its secrets, codes, approvals and consents along, and a secret takes its tokens along.\<close>

definition secrets_of :: "uuid \<Rightarrow> OAuthDb \<Rightarrow> uuid set" where
  "secrets_of app_id db = os_id ` {s \<in> set (od_secrets db). os_app_id s = app_id}"

definition delete_oauth2_provider_app :: "oauth_env \<Rightarrow> uuid \<Rightarrow> OAuthDb \<Rightarrow> bool oauth_stmt" where
  "delete_oauth2_provider_app E i db =
     oauth_attempt E DeleteApp db
       (db \<lparr> od_apps := filter (\<lambda>a. op_id a \<noteq> i) (od_apps db),
             od_secrets := filter (\<lambda>s. os_app_id s \<noteq> i) (od_secrets db),
             od_codes := filter (\<lambda>c. oc_app_id c \<noteq> i) (od_codes db),
             od_tokens := filter (\<lambda>t. ot_app_secret_id t \<notin> secrets_of i db) (od_tokens db),
             od_approvals := filter (\<lambda>p. fst (fst p) \<noteq> i) (od_approvals db),
             od_consents := filter (\<lambda>p. pc_app_id (fst (snd p)) \<noteq> i) (od_consents db) \<rparr>,
        Ok (find_app i db \<noteq> None))"

definition update_oauth2_provider_app_registration_token ::
  "oauth_env \<Rightarrow> uuid \<Rightarrow> byte list \<Rightarrow> OAuthDb \<Rightarrow> unit oauth_stmt" where
  "update_oauth2_provider_app_registration_token E i h db =
     oauth_attempt E SetRegistrationToken db
       (update_apps i (\<lambda>a. a \<lparr> op_registration_access_token := Some h \<rparr>) db, Ok ())"

subsection \<open>Approvals and consents\<close>

definition has_oauth2_provider_app_user_approval ::
  "oauth_env \<Rightarrow> uuid \<Rightarrow> uuid \<Rightarrow> OAuthDb \<Rightarrow> (StorageError, bool) result" where
  "has_oauth2_provider_app_user_approval E app_id user_id db =
     oauth_query E HasApproval ((app_id, user_id) \<in> fst ` set (od_approvals db))"

definition insert_oauth2_provider_app_user_approval ::
  "oauth_env \<Rightarrow> uuid \<Rightarrow> uuid \<Rightarrow> string \<Rightarrow> OAuthDb \<Rightarrow> unit oauth_stmt" where
  "insert_oauth2_provider_app_user_approval E app_id user_id scope db =
     oauth_insert E InsertApproval db (find_app app_id db \<noteq> None \<and> known_user db user_id)
       (db \<lparr> od_approvals := filter (\<lambda>p. fst p \<noteq> (app_id, user_id)) (od_approvals db) @ [((app_id, user_id), scope)] \<rparr>) ()"

definition insert_oauth2_pending_consent ::
  "oauth_env \<Rightarrow> uuid \<Rightarrow> OAuth2PendingConsent \<Rightarrow> instant \<Rightarrow> OAuthDb \<Rightarrow> uuid oauth_stmt" where
  "insert_oauth2_pending_consent E nonce c expires_at db =
     oauth_insert E InsertConsent db
       (find_app (pc_app_id c) db \<noteq> None \<and> known_user db (pc_user_id c) \<and> nonce \<notin> fst ` set (od_consents db))
       (db \<lparr> od_consents := od_consents db @ [(nonce, c, expires_at)] \<rparr>) nonce"

definition take_oauth2_pending_consent :: "oauth_env \<Rightarrow> uuid \<Rightarrow> OAuthDb \<Rightarrow> OAuth2PendingConsent option oauth_stmt" where
  "take_oauth2_pending_consent E nonce db =
     oauth_attempt E TakeConsent db
       (db \<lparr> od_consents := filter (\<lambda>p. fst p \<noteq> nonce) (od_consents db) \<rparr>,
        Ok (case map_of (od_consents db) nonce of
              Some (c, expires_at) \<Rightarrow> if ov_now E < expires_at then Some c else None
            | None \<Rightarrow> None))"

subsection \<open>Client secrets\<close>

definition app_secrets :: "uuid \<Rightarrow> OAuthDb \<Rightarrow> OAuth2ProviderAppSecretRecord list" where
  "app_secrets app_id db = sort_key os_created_at (sort_key os_id (filter (\<lambda>s. os_app_id s = app_id) (od_secrets db)))"

definition list_oauth2_provider_app_secrets ::
  "oauth_env \<Rightarrow> uuid \<Rightarrow> OAuthDb \<Rightarrow> (StorageError, OAuth2ProviderAppSecretRecord list) result" where
  "list_oauth2_provider_app_secrets E app_id db = oauth_query E ListSecrets (app_secrets app_id db)"

definition create_oauth2_provider_app_secret ::
  "oauth_env \<Rightarrow> uuid \<Rightarrow> string \<Rightarrow> byte list \<Rightarrow> string \<Rightarrow> OAuthDb \<Rightarrow> OAuth2ProviderAppSecretRecord oauth_stmt" where
  "create_oauth2_provider_app_secret E app_id prefix hashed display db =
     (let row = \<lparr> os_id = ov_id E, os_created_at = ov_now E, os_last_used_at = None, os_secret_prefix = prefix,
                   os_hashed_secret = hashed, os_display_secret = display, os_app_id = app_id \<rparr>
      in oauth_insert E CreateSecret db
           (find_app app_id db \<noteq> None \<and> list_all (\<lambda>s. os_id s \<noteq> ov_id E \<and> os_secret_prefix s \<noteq> prefix) (od_secrets db))
           (db \<lparr> od_secrets := od_secrets db @ [row] \<rparr>) row)"

definition find_secret :: "uuid \<Rightarrow> OAuthDb \<Rightarrow> OAuth2ProviderAppSecretRecord option" where
  "find_secret i db = find (\<lambda>s. os_id s = i) (od_secrets db)"

definition find_oauth2_provider_app_secret_by_id ::
  "oauth_env \<Rightarrow> uuid \<Rightarrow> OAuthDb \<Rightarrow> (StorageError, OAuth2ProviderAppSecretRecord option) result" where
  "find_oauth2_provider_app_secret_by_id E i db = oauth_query E FindSecretById (find_secret i db)"

definition delete_oauth2_provider_app_secret :: "oauth_env \<Rightarrow> uuid \<Rightarrow> OAuthDb \<Rightarrow> bool oauth_stmt" where
  "delete_oauth2_provider_app_secret E i db =
     oauth_attempt E DeleteSecret db
       (db \<lparr> od_secrets := filter (\<lambda>s. os_id s \<noteq> i) (od_secrets db),
             od_tokens := filter (\<lambda>t. ot_app_secret_id t \<noteq> i) (od_tokens db) \<rparr>,
        Ok (find_secret i db \<noteq> None))"

subsection \<open>Authorization codes\<close>

definition create_oauth2_provider_app_code ::
  "oauth_env \<Rightarrow> uuid \<Rightarrow> uuid \<Rightarrow> string \<Rightarrow> byte list \<Rightarrow> instant \<Rightarrow> string \<Rightarrow> string \<Rightarrow> string \<Rightarrow> string option \<Rightarrow> string option \<Rightarrow>
   OAuthDb \<Rightarrow> OAuth2ProviderAppCodeRecord oauth_stmt" where
  "create_oauth2_provider_app_code E app_id user_id prefix hashed expires_at resource_uri challenge challenge_method
      state_hash redirect_uri db =
     (let row = \<lparr> oc_id = ov_id E, oc_created_at = ov_now E, oc_expires_at = expires_at, oc_secret_prefix = prefix,
                   oc_hashed_secret = hashed, oc_app_id = app_id, oc_user_id = user_id, oc_resource_uri = resource_uri,
                   oc_code_challenge = challenge, oc_code_challenge_method = challenge_method,
                   oc_state_hash = state_hash, oc_redirect_uri = redirect_uri \<rparr>
      in oauth_insert E CreateCode db
           (find_app app_id db \<noteq> None \<and> known_user db user_id \<and> list_all (\<lambda>c. oc_id c \<noteq> ov_id E) (od_codes db))
           (db \<lparr> od_codes := od_codes db @ [row] \<rparr>) row)"

definition find_oauth2_provider_app_code_by_prefix ::
  "oauth_env \<Rightarrow> string \<Rightarrow> OAuthDb \<Rightarrow> (StorageError, OAuth2ProviderAppCodeRecord option) result" where
  "find_oauth2_provider_app_code_by_prefix E prefix db =
     oauth_query E FindCodeByPrefix (find (\<lambda>c. oc_secret_prefix c = prefix) (ov_scan_codes E (od_codes db)))"

definition delete_oauth2_provider_app_code :: "oauth_env \<Rightarrow> uuid \<Rightarrow> OAuthDb \<Rightarrow> bool oauth_stmt" where
  "delete_oauth2_provider_app_code E i db =
     oauth_attempt E DeleteCode db
       (db \<lparr> od_codes := filter (\<lambda>c. oc_id c \<noteq> i) (od_codes db) \<rparr>, Ok (i \<in> oc_id ` set (od_codes db)))"

subsection \<open>Tokens\<close>

definition create_oauth2_provider_app_token ::
  "oauth_env \<Rightarrow> CreateOAuth2ProviderAppTokenInput \<Rightarrow> OAuthDb \<Rightarrow> OAuth2ProviderAppTokenRecord oauth_stmt" where
  "create_oauth2_provider_app_token E input db =
     (let row = \<lparr> ot_id = ov_id E, ot_created_at = ov_now E, ot_expires_at = ct_expires_at input,
                   ot_hash_prefix = ct_hash_prefix input, ot_refresh_hash = ct_refresh_hash input,
                   ot_app_secret_id = ct_app_secret_id input, ot_api_key_id = ct_api_key_id input,
                   ot_audience = ct_audience input, ot_user_id = ct_user_id input \<rparr>
      in oauth_insert E CreateToken db
           (find_secret (ct_app_secret_id input) db \<noteq> None \<and> known_user db (ct_user_id input) \<and>
            list_all (\<lambda>t. ot_id t \<noteq> ov_id E) (od_tokens db))
           (db \<lparr> od_tokens := od_tokens db @ [row] \<rparr>) row)"

definition find_oauth2_provider_app_token_by_prefix ::
  "oauth_env \<Rightarrow> string \<Rightarrow> OAuthDb \<Rightarrow> (StorageError, OAuth2ProviderAppTokenRecord option) result" where
  "find_oauth2_provider_app_token_by_prefix E prefix db =
     oauth_query E FindTokenByPrefix (find (\<lambda>t. ot_hash_prefix t = prefix) (ov_scan_tokens E (od_tokens db)))"

definition find_oauth2_provider_app_token_by_refresh_hash ::
  "oauth_env \<Rightarrow> byte list \<Rightarrow> OAuthDb \<Rightarrow> (StorageError, OAuth2ProviderAppTokenRecord option) result" where
  "find_oauth2_provider_app_token_by_refresh_hash E h db =
     oauth_query E FindTokenByRefreshHash (find (\<lambda>t. ot_refresh_hash t = h) (ov_scan_tokens E (od_tokens db)))"

definition delete_oauth2_provider_app_token :: "oauth_env \<Rightarrow> uuid \<Rightarrow> OAuthDb \<Rightarrow> bool oauth_stmt" where
  "delete_oauth2_provider_app_token E i db =
     oauth_attempt E DeleteToken db
       (db \<lparr> od_tokens := filter (\<lambda>t. ot_id t \<noteq> i) (od_tokens db) \<rparr>, Ok (i \<in> ot_id ` set (od_tokens db)))"

definition of_app_and_user :: "uuid \<Rightarrow> uuid \<Rightarrow> OAuthDb \<Rightarrow> OAuth2ProviderAppTokenRecord \<Rightarrow> bool" where
  "of_app_and_user app_id user_id db t \<longleftrightarrow> ot_app_secret_id t \<in> secrets_of app_id db \<and> ot_user_id t = user_id"

definition list_oauth2_provider_app_tokens_by_app_and_user ::
  "oauth_env \<Rightarrow> uuid \<Rightarrow> uuid \<Rightarrow> OAuthDb \<Rightarrow> (StorageError, OAuth2ProviderAppTokenRecord list) result" where
  "list_oauth2_provider_app_tokens_by_app_and_user E app_id user_id db =
     oauth_query E ListTokensByAppAndUser (filter (of_app_and_user app_id user_id db) (ov_scan_tokens E (od_tokens db)))"

definition delete_oauth2_provider_app_tokens_by_app_and_user ::
  "oauth_env \<Rightarrow> uuid \<Rightarrow> uuid \<Rightarrow> OAuthDb \<Rightarrow> nat oauth_stmt" where
  "delete_oauth2_provider_app_tokens_by_app_and_user E app_id user_id db =
     oauth_attempt E DeleteTokensByAppAndUser db
       (db \<lparr> od_tokens := filter (\<lambda>t. \<not> of_app_and_user app_id user_id db t) (od_tokens db) \<rparr>,
        Ok (length (filter (of_app_and_user app_id user_id db) (od_tokens db))))"

subsection \<open>API keys\<close>

definition on_auth :: "'a auth_stmt \<Rightarrow> OAuthDb \<Rightarrow> 'a oauth_stmt" where
  "on_auth s db = (db \<lparr> od_auth := fst s \<rparr>, snd s)"

end
