(* ===== verification/OAuth2_Provider.thy ===== *)
theory OAuth2_Provider
  imports OAuth2_Tables
begin

text \<open>
  The OAuth2 provider service, \<open>OAuth2ProviderService\<close> of \<open>crates/coder-auth/src/lib.rs\<close>: applications and their secrets,
  authorization codes, the exchange of a code for tokens, refreshing and revoking them. A call draws its random bytes from
  its context: \<open>ox_raw\<close> for secrets, codes and refresh tokens, \<open>ox_session\<close> for access tokens. URL-safe base64 is \<open>ox_url64\<close>; the
  encoding of 32 bytes has 43 characters, so a slice of its front is a prefix. \<open>exchange_code\<close> and \<open>refresh_token\<close> are put
  together from the parts between which concurrent requests can come: checking, deleting the grant, and making new tokens.
\<close>

section \<open>Errors and checks\<close>

datatype OAuth2ProviderError =
    ProviderStorage StorageError
  | ProviderBadRequest string
  | ProviderNotFound string
  | ProviderUnauthorized string

record oauth_ctx =
  ox_env :: oauth_env
  ox_pw :: pw_env
  ox_url64 :: "byte list \<Rightarrow> string"
  ox_raw :: "byte list"
  ox_session :: "byte list"
  ox_key_id :: uuid

type_synonym 'a provided = "OAuthDb \<times> (OAuth2ProviderError, 'a) result"

definition validate_pkce_method :: "string \<Rightarrow> string \<Rightarrow> (OAuth2ProviderError, unit) result" where
  "validate_pkce_method code_challenge code_challenge_method =
     (if code_challenge = [] then Ok ()
      else if code_challenge_method = ''S256'' then Ok ()
      else Err (ProviderBadRequest ''Unsupported code_challenge_method: only S256 is accepted.''))"

definition validate_authorization_code_resource :: "string \<Rightarrow> string \<Rightarrow> (OAuth2ProviderError, unit) result" where
  "validate_authorization_code_resource stored requested =
     (case (stored = [], requested = []) of
        (True, True) \<Rightarrow> Ok ()
      | (True, False) \<Rightarrow> Err (ProviderBadRequest ''Resource parameter was not specified during authorization.'')
      | (False, True) \<Rightarrow> Err (ProviderBadRequest ''Resource parameter is required (bound at authorization).'')
      | (False, False) \<Rightarrow>
          if stored = requested then Ok ()
          else Err (ProviderBadRequest ''Resource parameter does not match the value bound at authorization.''))"

definition validate_refresh_token_resource :: "string \<Rightarrow> string \<Rightarrow> (OAuth2ProviderError, unit) result" where
  "validate_refresh_token_resource token_audience requested =
     (if requested = [] \<or> requested = token_audience then Ok ()
      else Err (ProviderBadRequest ''Resource parameter does not match the refresh token's audience.''))"

definition sha256 :: "oauth_ctx \<Rightarrow> string \<Rightarrow> byte list" where
  "sha256 X t = pw_sha256 (ox_pw X) t"

definition verify_pkce :: "oauth_ctx \<Rightarrow> string \<Rightarrow> string \<Rightarrow> string \<Rightarrow> bool" where
  "verify_pkce X code_verifier code_challenge challenge_method \<longleftrightarrow>
     (if challenge_method = ''S256'' then ox_url64 X (sha256 X code_verifier) = code_challenge
      else (challenge_method = ''plain'' \<or> challenge_method = []) \<and> code_verifier = code_challenge)"

definition from_storage :: "(StorageError, 'a) result \<Rightarrow> (OAuth2ProviderError, 'a) result" where
  "from_storage r = (case r of Inl e \<Rightarrow> Err (ProviderStorage e) | Inr x \<Rightarrow> Ok x)"

definition provide :: "'a oauth_stmt \<Rightarrow> 'a provided" where
  "provide s = (fst s, from_storage (snd s))"

section \<open>Applications\<close>

definition list_apps :: "oauth_ctx \<Rightarrow> OAuthDb \<Rightarrow> (OAuth2ProviderError, OAuth2ProviderAppRecord list) result" where
  "list_apps X db = from_storage (list_oauth2_provider_apps (ox_env X) db)"

definition valid_app :: "string \<Rightarrow> string \<Rightarrow> (OAuth2ProviderError, unit) result" where
  "valid_app name callback_url =
     (if trim name = [] then Err (ProviderBadRequest ''App name is required.'')
      else if trim callback_url = [] then Err (ProviderBadRequest ''Callback URL is required.'')
      else Ok ())"

definition create_app_with_first_party ::
  "oauth_ctx \<Rightarrow> string \<Rightarrow> string \<Rightarrow> string \<Rightarrow> uuid option \<Rightarrow> bool \<Rightarrow> OAuthDb \<Rightarrow> OAuth2ProviderAppRecord provided" where
  "create_app_with_first_party X name icon callback_url created_by first_party db =
     (case valid_app name callback_url of
        Inl e \<Rightarrow> (db, Err e)
      | Inr _ \<Rightarrow>
          provide (create_oauth2_provider_app (ox_env X)
            \<lparr> ia_name = trim name, ia_icon = icon, ia_callback_url = trim callback_url, ia_created_by = created_by,
               ia_first_party = first_party \<rparr> db))"

definition create_app ::
  "oauth_ctx \<Rightarrow> string \<Rightarrow> string \<Rightarrow> string \<Rightarrow> uuid option \<Rightarrow> OAuthDb \<Rightarrow> OAuth2ProviderAppRecord provided" where
  "create_app X name icon callback_url created_by db =
     create_app_with_first_party X name icon callback_url created_by True db"

definition create_app_dynamic :: "oauth_ctx \<Rightarrow> string \<Rightarrow> string \<Rightarrow> string \<Rightarrow> OAuthDb \<Rightarrow> OAuth2ProviderAppRecord provided" where
  "create_app_dynamic X name icon callback_url db = create_app_with_first_party X name icon callback_url None False db"

definition get_app :: "oauth_ctx \<Rightarrow> uuid \<Rightarrow> OAuthDb \<Rightarrow> (OAuth2ProviderError, OAuth2ProviderAppRecord) result" where
  "get_app X app_id db =
     (case find_oauth2_provider_app_by_id (ox_env X) app_id db of
        Inl e \<Rightarrow> Err (ProviderStorage e)
      | Inr None \<Rightarrow> Err (ProviderNotFound ''OAuth2 app not found.'')
      | Inr (Some app) \<Rightarrow> Ok app)"

definition update_app ::
  "oauth_ctx \<Rightarrow> uuid \<Rightarrow> string \<Rightarrow> string \<Rightarrow> string \<Rightarrow> OAuthDb \<Rightarrow> OAuth2ProviderAppRecord provided" where
  "update_app X app_id name icon callback_url db =
     (case valid_app name callback_url of
        Inl e \<Rightarrow> (db, Err e)
      | Inr _ \<Rightarrow>
          (case get_app X app_id db of
             Inl e \<Rightarrow> (db, Err e)
           | Inr existing \<Rightarrow>
               (case update_oauth2_provider_app (ox_env X)
                       \<lparr> ua_id = app_id, ua_name = trim name, ua_icon = icon, ua_callback_url = trim callback_url,
                          ua_redirect_uris = op_redirect_uris existing \<rparr> db of
                  (db, Inl e) \<Rightarrow> (db, Err (ProviderStorage e))
                | (db, Inr None) \<Rightarrow> (db, Err (ProviderNotFound ''OAuth2 app not found.''))
                | (db, Inr (Some app)) \<Rightarrow> (db, Ok app))))"

definition delete_app :: "oauth_ctx \<Rightarrow> uuid \<Rightarrow> OAuthDb \<Rightarrow> unit provided" where
  "delete_app X app_id db =
     (case delete_oauth2_provider_app (ox_env X) app_id db of
        (db, Inl e) \<Rightarrow> (db, Err (ProviderStorage e))
      | (db, Inr False) \<Rightarrow> (db, Err (ProviderNotFound ''OAuth2 app not found.''))
      | (db, Inr True) \<Rightarrow> (db, Ok ()))"

section \<open>Client secrets\<close>

definition list_app_secrets ::
  "oauth_ctx \<Rightarrow> uuid \<Rightarrow> OAuthDb \<Rightarrow> (OAuth2ProviderError, OAuth2ProviderAppSecretRecord list) result" where
  "list_app_secrets X app_id db =
     (case get_app X app_id db of
        Inl e \<Rightarrow> Err e
      | Inr _ \<Rightarrow> from_storage (list_oauth2_provider_app_secrets (ox_env X) app_id db))"

definition create_app_secret ::
  "oauth_ctx \<Rightarrow> uuid \<Rightarrow> OAuthDb \<Rightarrow> (string \<times> OAuth2ProviderAppSecretRecord) provided" where
  "create_app_secret X app_id db =
     (case get_app X app_id db of
        Inl e \<Rightarrow> (db, Err e)
      | Inr _ \<Rightarrow>
          let raw_secret = ox_url64 X (ox_raw X);
              display = (if 6 \<le> length raw_secret then take 6 raw_secret @ ''******'' else ''******'')
          in case create_oauth2_provider_app_secret (ox_env X) app_id (take 8 raw_secret) (sha256 X raw_secret) display db of
               (db, Inl e) \<Rightarrow> (db, Err (ProviderStorage e))
             | (db, Inr record) \<Rightarrow> (db, Ok (raw_secret, record)))"

definition delete_app_secret :: "oauth_ctx \<Rightarrow> uuid \<Rightarrow> uuid \<Rightarrow> OAuthDb \<Rightarrow> unit provided" where
  "delete_app_secret X app_id secret_id db =
     (case list_oauth2_provider_app_secrets (ox_env X) app_id db of
        Inl e \<Rightarrow> (db, Err (ProviderStorage e))
      | Inr secrets \<Rightarrow>
          if \<not> list_ex (\<lambda>s. os_id s = secret_id) secrets
          then (db, Err (ProviderNotFound ''OAuth2 app secret not found for this app.''))
          else
            (case delete_oauth2_provider_app_secret (ox_env X) secret_id db of
               (db, Inl e) \<Rightarrow> (db, Err (ProviderStorage e))
             | (db, Inr False) \<Rightarrow> (db, Err (ProviderNotFound ''OAuth2 app secret not found.''))
             | (db, Inr True) \<Rightarrow> (db, Ok ())))"

section \<open>Authorization codes\<close>

definition minutes :: "int \<Rightarrow> int" where "minutes n = secs (60 * n)"

definition create_authorization_code ::
  "oauth_ctx \<Rightarrow> uuid \<Rightarrow> uuid \<Rightarrow> string \<Rightarrow> string \<Rightarrow> string \<Rightarrow> OAuthDb \<Rightarrow> string provided" where
  "create_authorization_code X app_id user_id resource_uri code_challenge code_challenge_method db =
     (case get_app X app_id db of
        Inl e \<Rightarrow> (db, Err e)
      | Inr _ \<Rightarrow>
          (case validate_pkce_method code_challenge code_challenge_method of
             Inl e \<Rightarrow> (db, Err e)
           | Inr _ \<Rightarrow>
               let raw_code = ox_url64 X (ox_raw X) in
               case odt_checked_add (ov_now (ox_env X)) (minutes 10) of
                 None \<Rightarrow> (db, Err (ProviderBadRequest ''Failed to compute authorization code expiry.''))
               | Some expires_at \<Rightarrow>
                   (case create_oauth2_provider_app_code (ox_env X) app_id user_id (take 8 raw_code) (sha256 X raw_code)
                           expires_at resource_uri code_challenge code_challenge_method None None db of
                      (db, Inl e) \<Rightarrow> (db, Err (ProviderStorage e))
                    | (db, Inr _) \<Rightarrow> (db, Ok raw_code))))"

section \<open>Token pairs\<close>

record OAuth2TokenResult =
  tr_access_token :: string
  tr_token_type :: string
  tr_expires_in :: int
  tr_refresh_token :: string

definition access_key :: "oauth_ctx \<Rightarrow> uuid \<Rightarrow> instant \<Rightarrow> CreateApiKeyInput" where
  "access_key X user_id access_expires_at =
     (let now_utc = ov_now (ox_env X); api_key_id = to_string (av_codec (ov_auth (ox_env X))) (ox_key_id X) in
      \<lparr> ck_id = api_key_id, ck_hashed_secret = hash_session_token (ox_pw X) (new_session_token (ox_pw X) (ox_session X)),
         ck_user_id = user_id, ck_last_used = now_utc, ck_expires_at = access_expires_at, ck_created_at = now_utc,
         ck_updated_at = now_utc, ck_login_type = Oauth2ProviderApp, ck_scopes = [''all''],
         ck_token_name = ''oauth2_'' @ api_key_id, ck_lifetime_seconds = 3600, ck_allow_list = [] \<rparr>)"

definition token_input :: "oauth_ctx \<Rightarrow> uuid \<Rightarrow> uuid \<Rightarrow> string \<Rightarrow> instant \<Rightarrow> CreateOAuth2ProviderAppTokenInput" where
  "token_input X app_secret_id user_id audience refresh_expires_at =
     \<lparr> ct_expires_at = refresh_expires_at, ct_hash_prefix = take 8 (new_session_token (ox_pw X) (ox_session X)),
        ct_refresh_hash = sha256 X (ox_url64 X (ox_raw X)), ct_app_secret_id = app_secret_id,
        ct_api_key_id = to_string (av_codec (ov_auth (ox_env X))) (ox_key_id X), ct_audience = audience, ct_user_id = user_id \<rparr>"

definition drop_api_key :: "oauth_ctx \<Rightarrow> string \<Rightarrow> OAuthDb \<Rightarrow> OAuthDb" where
  "drop_api_key X key_id db = fst (on_auth (delete_api_key (ov_auth (ox_env X)) key_id (od_auth db)) db)"

definition generate_token_pair :: "oauth_ctx \<Rightarrow> uuid \<Rightarrow> uuid \<Rightarrow> string \<Rightarrow> OAuthDb \<Rightarrow> OAuth2TokenResult provided" where
  "generate_token_pair X app_secret_id user_id audience db =
     (let now_utc = ov_now (ox_env X) in
      case odt_checked_add now_utc (minutes 60) of
        None \<Rightarrow> (db, Err (ProviderBadRequest ''Failed to compute access token expiry.''))
      | Some access_expires_at \<Rightarrow>
          (case odt_checked_add now_utc (minutes (60 * 24 * 30)) of
             None \<Rightarrow> (db, Err (ProviderBadRequest ''Failed to compute refresh token expiry.''))
           | Some refresh_expires_at \<Rightarrow>
               (case create_api_key (ov_auth (ox_env X)) (access_key X user_id access_expires_at) (od_auth db) of
                  (auth, Inl (ApiKeyStorage e)) \<Rightarrow> (db \<lparr> od_auth := auth \<rparr>, Err (ProviderStorage e))
                | (auth, Inl DuplicateTokenName) \<Rightarrow>
                    (db \<lparr> od_auth := auth \<rparr>, Err (ProviderBadRequest ''Failed to create API key for token.''))
                | (auth, Inr _) \<Rightarrow>
                    (case create_oauth2_provider_app_token (ox_env X)
                            (token_input X app_secret_id user_id audience refresh_expires_at) (db \<lparr> od_auth := auth \<rparr>) of
                       (db, Inl e) \<Rightarrow>
                         (drop_api_key X (to_string (av_codec (ov_auth (ox_env X))) (ox_key_id X)) db, Err (ProviderStorage e))
                     | (db, Inr _) \<Rightarrow>
                         (db, Ok \<lparr> tr_access_token = new_session_token (ox_pw X) (ox_session X), tr_token_type = ''Bearer'',
                                    tr_expires_in = 3600, tr_refresh_token = ox_url64 X (ox_raw X) \<rparr>)))))"

section \<open>Exchanging a code\<close>

text \<open>A failed attempt deletes the code, whether or not that deletion works.\<close>

definition burn_code :: "oauth_ctx \<Rightarrow> uuid \<Rightarrow> OAuth2ProviderError \<Rightarrow> OAuthDb \<Rightarrow> 'a provided" where
  "burn_code X code_id e db = (fst (delete_oauth2_provider_app_code (ox_env X) code_id db), Err e)"

definition secret_matches :: "oauth_ctx \<Rightarrow> string \<Rightarrow> OAuth2ProviderAppSecretRecord \<Rightarrow> bool" where
  "secret_matches X client_secret s \<longleftrightarrow> os_hashed_secret s = sha256 X client_secret"

definition pkce_error :: "oauth_ctx \<Rightarrow> string \<Rightarrow> OAuth2ProviderAppCodeRecord \<Rightarrow> OAuth2ProviderError option" where
  "pkce_error X code_verifier c =
     (if oc_code_challenge c = [] then None
      else if code_verifier = [] then Some (ProviderBadRequest ''Code verifier is required for PKCE.'')
      else if \<not> verify_pkce X code_verifier (oc_code_challenge c) (oc_code_challenge_method c)
      then Some (ProviderUnauthorized ''PKCE code verifier is invalid.'') else None)"

definition exchange_check ::
  "oauth_ctx \<Rightarrow> string \<Rightarrow> uuid \<Rightarrow> string \<Rightarrow> string \<Rightarrow> string \<Rightarrow> OAuthDb \<Rightarrow>
   (OAuth2ProviderAppCodeRecord \<times> OAuth2ProviderAppSecretRecord) provided" where
  "exchange_check X raw_code client_id client_secret code_verifier resource db =
     (if raw_code = [] then (db, Err (ProviderBadRequest ''Code is required.''))
      else
        (case find_oauth2_provider_app_code_by_prefix (ox_env X) (take 8 raw_code) db of
           Inl e \<Rightarrow> (db, Err (ProviderStorage e))
         | Inr None \<Rightarrow> (db, Err (ProviderUnauthorized ''Invalid or expired authorization code.''))
         | Inr (Some c) \<Rightarrow>
             if oc_expires_at c < ov_now (ox_env X)
             then burn_code X (oc_id c) (ProviderUnauthorized ''Authorization code has expired.'') db
             else if sha256 X raw_code \<noteq> oc_hashed_secret c
             then burn_code X (oc_id c) (ProviderUnauthorized ''Invalid authorization code.'') db
             else if oc_app_id c \<noteq> client_id
             then burn_code X (oc_id c) (ProviderUnauthorized ''Authorization code does not belong to this client.'') db
             else
               (case pkce_error X code_verifier c of
                  Some e \<Rightarrow> burn_code X (oc_id c) e db
                | None \<Rightarrow>
                    (case list_oauth2_provider_app_secrets (ox_env X) (oc_app_id c) db of
                       Inl e \<Rightarrow> (db, Err (ProviderStorage e))
                     | Inr secrets \<Rightarrow>
                         (case find (secret_matches X client_secret) secrets of
                            None \<Rightarrow> burn_code X (oc_id c) (ProviderUnauthorized ''Invalid client credentials.'') db
                          | Some s \<Rightarrow>
                              (case validate_authorization_code_resource (oc_resource_uri c) resource of
                                 Inl e \<Rightarrow> (db, Err e)
                               | Inr _ \<Rightarrow> (db, Ok (c, s))))))))"

definition exchange_consume :: "oauth_ctx \<Rightarrow> OAuth2ProviderAppCodeRecord \<Rightarrow> OAuthDb \<Rightarrow> unit provided" where
  "exchange_consume X c db =
     (case delete_oauth2_provider_app_code (ox_env X) (oc_id c) db of
        (db, Inl e) \<Rightarrow> (db, Err (ProviderStorage e))
      | (db, Inr False) \<Rightarrow> (db, Err (ProviderUnauthorized ''Authorization code already consumed.''))
      | (db, Inr True) \<Rightarrow> (db, Ok ()))"

definition exchange_code ::
  "oauth_ctx \<Rightarrow> string \<Rightarrow> uuid \<Rightarrow> string \<Rightarrow> string \<Rightarrow> string \<Rightarrow> OAuthDb \<Rightarrow> OAuth2TokenResult provided" where
  "exchange_code X raw_code client_id client_secret code_verifier resource db =
     (case exchange_check X raw_code client_id client_secret code_verifier resource db of
        (db, Inl e) \<Rightarrow> (db, Err e)
      | (db, Inr (c, s)) \<Rightarrow>
          (case exchange_consume X c db of
             (db, Inl e) \<Rightarrow> (db, Err e)
           | (db, Inr _) \<Rightarrow> generate_token_pair X (os_id s) (oc_user_id c) (oc_resource_uri c) db))"

section \<open>Refreshing\<close>

definition refresh_check ::
  "oauth_ctx \<Rightarrow> string \<Rightarrow> uuid \<Rightarrow> string \<Rightarrow> string \<Rightarrow> OAuthDb \<Rightarrow> OAuth2ProviderAppTokenRecord provided" where
  "refresh_check X refresh client_id client_secret resource db =
     (if refresh = [] then (db, Err (ProviderBadRequest ''Refresh token is required.''))
      else
        (case find_oauth2_provider_app_token_by_refresh_hash (ox_env X) (sha256 X refresh) db of
           Inl e \<Rightarrow> (db, Err (ProviderStorage e))
         | Inr None \<Rightarrow> (db, Err (ProviderUnauthorized ''Invalid refresh token.''))
         | Inr (Some t) \<Rightarrow>
             if ot_expires_at t < ov_now (ox_env X)
             then (fst (delete_oauth2_provider_app_token (ox_env X) (ot_id t) db),
                   Err (ProviderUnauthorized ''Refresh token has expired.''))
             else
               (case find_oauth2_provider_app_secret_by_id (ox_env X) (ot_app_secret_id t) db of
                  Inl e \<Rightarrow> (db, Err (ProviderStorage e))
                | Inr None \<Rightarrow> (db, Err (ProviderUnauthorized ''App secret not found.''))
                | Inr (Some secret) \<Rightarrow>
                    if os_app_id secret \<noteq> client_id
                    then (db, Err (ProviderUnauthorized ''Refresh token does not belong to this client.''))
                    else
                      (case validate_refresh_token_resource (ot_audience t) resource of
                         Inl e \<Rightarrow> (db, Err e)
                       | Inr _ \<Rightarrow>
                           (case list_oauth2_provider_app_secrets (ox_env X) (os_app_id secret) db of
                              Inl e \<Rightarrow> (db, Err (ProviderStorage e))
                            | Inr secrets \<Rightarrow>
                                if \<not> list_ex (secret_matches X client_secret) secrets
                                then (db, Err (ProviderUnauthorized ''Invalid client credentials.''))
                                else (db, Ok t))))))"

definition refresh_consume :: "oauth_ctx \<Rightarrow> OAuth2ProviderAppTokenRecord \<Rightarrow> OAuthDb \<Rightarrow> unit provided" where
  "refresh_consume X t db =
     (case delete_oauth2_provider_app_token (ox_env X) (ot_id t) db of
        (db, Inl e) \<Rightarrow> (db, Err (ProviderStorage e))
      | (db, Inr False) \<Rightarrow> (db, Err (ProviderUnauthorized ''Refresh token already consumed.''))
      | (db, Inr True) \<Rightarrow> (drop_api_key X (ot_api_key_id t) db, Ok ()))"

definition refresh_token ::
  "oauth_ctx \<Rightarrow> string \<Rightarrow> uuid \<Rightarrow> string \<Rightarrow> string \<Rightarrow> OAuthDb \<Rightarrow> OAuth2TokenResult provided" where
  "refresh_token X refresh client_id client_secret resource db =
     (case refresh_check X refresh client_id client_secret resource db of
        (db, Inl e) \<Rightarrow> (db, Err e)
      | (db, Inr t) \<Rightarrow>
          (case refresh_consume X t db of
             (db, Inl e) \<Rightarrow> (db, Err e)
           | (db, Inr _) \<Rightarrow> generate_token_pair X (ot_app_secret_id t) (ot_user_id t) (ot_audience t) db))"

section \<open>Revoking\<close>

definition revoke_tokens :: "oauth_ctx \<Rightarrow> uuid \<Rightarrow> uuid \<Rightarrow> OAuthDb \<Rightarrow> nat provided" where
  "revoke_tokens X app_id user_id db =
     (case list_oauth2_provider_app_tokens_by_app_and_user (ox_env X) app_id user_id db of
        Inl e \<Rightarrow> (db, Err (ProviderStorage e))
      | Inr tokens \<Rightarrow>
          (case delete_oauth2_provider_app_tokens_by_app_and_user (ox_env X) app_id user_id db of
             (db, Inl e) \<Rightarrow> (db, Err (ProviderStorage e))
           | (db, Inr count) \<Rightarrow> (fold (\<lambda>t. drop_api_key X (ot_api_key_id t)) tokens db, Ok count)))"

end
