(* ===== verification/OAuth2_Handlers.thy ===== *)
theory OAuth2_Handlers
  imports OAuth2_Provider
begin

text \<open>
  The endpoints of the OAuth2 provider, \<open>crates/coder-server/src/handlers/oauth2.rs\<close>: authorization with and without the
  consent page, the token endpoint, revocation and the registration token. The first argument after the context is the user
  the request was authenticated as, if any. A redirect is its status, the parsed callback URL and the query pairs added to
  it; the consent page is the fields of its template. \<open>Url::parse\<close>, base64 with UTF-8 decoding and the new nonce are
  parameters. Audit records are left out.
\<close>

section \<open>Errors\<close>

datatype OAuth2ErrorCode =
    InvalidRequest | InvalidClient | InvalidGrant | UnauthorizedClient | UnsupportedGrantType | InvalidScope | AccessDenied
  | ServerError | TemporarilyUnavailable | InvalidTarget

fun error_code_as_str :: "OAuth2ErrorCode \<Rightarrow> string" where
  "error_code_as_str InvalidRequest = ''invalid_request''"
| "error_code_as_str InvalidClient = ''invalid_client''"
| "error_code_as_str InvalidGrant = ''invalid_grant''"
| "error_code_as_str UnauthorizedClient = ''unauthorized_client''"
| "error_code_as_str UnsupportedGrantType = ''unsupported_grant_type''"
| "error_code_as_str InvalidScope = ''invalid_scope''"
| "error_code_as_str AccessDenied = ''access_denied''"
| "error_code_as_str ServerError = ''server_error''"
| "error_code_as_str TemporarilyUnavailable = ''temporarily_unavailable''"
| "error_code_as_str InvalidTarget = ''invalid_target''"

record OAuth2Error =
  oe_status :: nat
  oe_code :: OAuth2ErrorCode
  oe_description :: string

definition oauth2_bad_request :: "OAuth2ErrorCode \<Rightarrow> string \<Rightarrow> OAuth2Error" where
  "oauth2_bad_request code description = \<lparr> oe_status = 400, oe_code = code, oe_description = description \<rparr>"

definition oauth2_invalid_client :: "string \<Rightarrow> OAuth2Error" where
  "oauth2_invalid_client description = \<lparr> oe_status = 401, oe_code = InvalidClient, oe_description = description \<rparr>"

definition oauth2_server_error :: "string \<Rightarrow> OAuth2Error" where
  "oauth2_server_error description = \<lparr> oe_status = 500, oe_code = ServerError, oe_description = description \<rparr>"

fun contains_text :: "string \<Rightarrow> string \<Rightarrow> bool" where
  "contains_text needle [] \<longleftrightarrow> needle = []"
| "contains_text needle (c # cs) \<longleftrightarrow> strip_prefix needle (c # cs) \<noteq> None \<or> contains_text needle cs"

fun oauth2_provider_error_to_oauth2_error :: "OAuth2ProviderError \<Rightarrow> OAuth2Error" where
  "oauth2_provider_error_to_oauth2_error (ProviderStorage e) = oauth2_server_error (storage_error_display e)"
| "oauth2_provider_error_to_oauth2_error (ProviderBadRequest message) =
     oauth2_bad_request
       (if contains_text ''resource parameter'' (map ascii_lower message) then InvalidTarget else InvalidRequest) message"
| "oauth2_provider_error_to_oauth2_error (ProviderNotFound message) = oauth2_bad_request InvalidRequest message"
| "oauth2_provider_error_to_oauth2_error (ProviderUnauthorized message) =
     \<lparr> oe_status = 401, oe_code = InvalidGrant, oe_description = message \<rparr>"

section \<open>Requests and responses\<close>

record OAuth2AuthorizeRequest =
  qa_response_type :: string
  qa_client_id :: string
  qa_redirect_uri :: string
  qa_state :: string
  qa_scope :: string
  qa_code_challenge :: string
  qa_code_challenge_method :: string
  qa_resource :: string

record OAuth2TokenRequest =
  qt_grant_type :: string
  qt_code :: string
  qt_redirect_uri :: string
  qt_client_id :: string
  qt_client_secret :: string
  qt_code_verifier :: string
  qt_refresh_token :: string
  qt_resource :: string
  qt_scope :: string

record ConsentTemplate =
  cp_app_name :: string
  cp_app_icon :: string
  cp_callback_url :: string
  cp_scope :: string
  cp_nonce :: uuid
  cp_cancel_pairs :: "(string \<times> string) list"

record OAuth2ConsentForm =
  cf_nonce :: string
  cf_decision :: string

datatype OAuthReply =
    OAuthUnauthorized string
  | OAuthFails OAuth2Error
  | OAuthAppError StorageError
  | OAuthRedirect nat string "(string \<times> string) list"
  | OAuthConsent ConsentTemplate
  | OAuthTokens OAuth2TokenResult
  | OAuthStatus nat
  | OAuthMessage nat string string

record oauth_web =
  ow_ctx :: oauth_ctx
  ow_parse_url :: "string \<Rightarrow> string option"
  ow_basic :: "string \<Rightarrow> string option"
  ow_nonce :: uuid

abbreviation ow_codec :: "oauth_web \<Rightarrow> uuid_codec" where "ow_codec V \<equiv> av_codec (ov_auth (ox_env (ow_ctx V)))"

definition no_session :: OAuthReply where
  "no_session = OAuthUnauthorized ''Missing or invalid session token.''"

definition state_pair :: "string \<Rightarrow> (string \<times> string) list" where
  "state_pair st = (if st = [] then [] else [(''state'', st)])"

section \<open>Authorization\<close>

text \<open>What the two authorization endpoints check first: the client, and the callback URL the code would be sent to.\<close>

definition authorize_client ::
  "oauth_web \<Rightarrow> OAuth2AuthorizeRequest \<Rightarrow> OAuthDb \<Rightarrow> (OAuthReply, uuid \<times> OAuth2ProviderAppRecord \<times> string) result" where
  "authorize_client V params db =
     (if qa_response_type params \<noteq> ''code''
      then Err (OAuthFails (oauth2_bad_request InvalidRequest (''response_type must be '' @ [CHR 0x22] @ ''code'' @ [CHR 0x22] @ ''.'')))
      else
        (case parse_str (ow_codec V) (qa_client_id params) of
           None \<Rightarrow> Err (OAuthFails (oauth2_bad_request InvalidRequest ''Invalid client_id: must be a valid UUID.''))
         | Some client_id \<Rightarrow>
             (case get_app (ow_ctx V) client_id db of
                Inl e \<Rightarrow> Err (OAuthFails (oauth2_provider_error_to_oauth2_error e))
              | Inr app \<Rightarrow>
                  (case ow_parse_url V (op_callback_url app) of
                     None \<Rightarrow> Err (OAuthFails (oauth2_server_error ''App has invalid callback URL configured.''))
                   | Some url \<Rightarrow> Ok (client_id, app, url)))))"

definition issue_code ::
  "oauth_web \<Rightarrow> uuid \<Rightarrow> uuid \<Rightarrow> string \<Rightarrow> string \<Rightarrow> string \<Rightarrow> (string \<Rightarrow> OAuthReply) \<Rightarrow> OAuthDb \<Rightarrow> OAuthDb \<times> OAuthReply" where
  "issue_code V app_id user_id resource challenge challenge_method reply db =
     (case create_authorization_code (ow_ctx V) app_id user_id resource challenge challenge_method db of
        (db, Inl e) \<Rightarrow> (db, OAuthFails (oauth2_provider_error_to_oauth2_error e))
      | (db, Inr raw_code) \<Rightarrow> (db, reply raw_code))"

definition approved :: "oauth_web \<Rightarrow> uuid \<Rightarrow> OAuth2ProviderAppRecord \<Rightarrow> uuid \<Rightarrow> OAuthDb \<Rightarrow> (StorageError, bool) result" where
  "approved V client_id app user_id db =
     (if op_first_party app then Ok True
      else has_oauth2_provider_app_user_approval (ox_env (ow_ctx V)) client_id user_id db)"

definition get_oauth2_authorize ::
  "oauth_web \<Rightarrow> AuthenticatedUser option \<Rightarrow> OAuth2AuthorizeRequest \<Rightarrow> OAuthDb \<Rightarrow> OAuthDb \<times> OAuthReply" where
  "get_oauth2_authorize V context params db =
     (case context of
        None \<Rightarrow> (db, no_session)
      | Some user \<Rightarrow>
          (case authorize_client V params db of
             Inl reply \<Rightarrow> (db, reply)
           | Inr (client_id, app, url) \<Rightarrow>
               (case approved V client_id app (au_id user) db of
                  Inl e \<Rightarrow> (db, OAuthAppError e)
                | Inr True \<Rightarrow>
                    issue_code V client_id (au_id user) (qa_resource params) (qa_code_challenge params)
                      (qa_code_challenge_method params)
                      (\<lambda>raw_code. OAuthRedirect 307 url [(''code'', raw_code), (''state'', qa_state params)]) db
                | Inr False \<Rightarrow>
                    (case insert_oauth2_pending_consent (ox_env (ow_ctx V)) (ow_nonce V)
                            \<lparr> pc_app_id = client_id, pc_user_id = au_id user, pc_state = qa_state params,
                               pc_resource = qa_resource params, pc_code_challenge = qa_code_challenge params,
                               pc_code_challenge_method = qa_code_challenge_method params \<rparr>
                            (ov_now (ox_env (ow_ctx V)) + minutes 10) db of
                       (db, Inl e) \<Rightarrow> (db, OAuthAppError e)
                     | (db, Inr nonce) \<Rightarrow>
                         (db, OAuthConsent
                            \<lparr> cp_app_name = op_name app, cp_app_icon = op_icon app, cp_callback_url = op_callback_url app,
                               cp_scope = qa_scope params, cp_nonce = nonce,
                               cp_cancel_pairs = (''error'', ''access_denied'') # state_pair (qa_state params) \<rparr>)))))"

definition post_oauth2_authorize ::
  "oauth_web \<Rightarrow> AuthenticatedUser option \<Rightarrow> (string, OAuth2AuthorizeRequest) result \<Rightarrow> OAuthDb \<Rightarrow> OAuthDb \<times> OAuthReply" where
  "post_oauth2_authorize V context payload db =
     (case context of
        None \<Rightarrow> (db, no_session)
      | Some user \<Rightarrow>
          (case payload of
             Inl e \<Rightarrow> (db, OAuthFails (oauth2_bad_request InvalidRequest (''Invalid JSON body: '' @ e)))
           | Inr params \<Rightarrow>
               (case authorize_client V params db of
                  Inl reply \<Rightarrow> (db, reply)
                | Inr (client_id, app, url) \<Rightarrow>
                    issue_code V client_id (au_id user) (qa_resource params) (qa_code_challenge params)
                      (qa_code_challenge_method params)
                      (\<lambda>raw_code. OAuthRedirect 303 url [(''code'', raw_code), (''state'', qa_state params)]) db)))"

definition consented ::
  "oauth_web \<Rightarrow> AuthenticatedUser \<Rightarrow> OAuth2ConsentForm \<Rightarrow> OAuth2PendingConsent \<Rightarrow> OAuthDb \<Rightarrow> OAuthDb \<times> OAuthReply" where
  "consented V user form pending db =
     (if pc_user_id pending \<noteq> au_id user
      then (db, OAuthFails (oauth2_bad_request InvalidRequest ''Consent session does not match the authenticated user.''))
      else
        (case get_app (ow_ctx V) (pc_app_id pending) db of
           Inl e \<Rightarrow> (db, OAuthFails (oauth2_provider_error_to_oauth2_error e))
         | Inr app \<Rightarrow>
             (case ow_parse_url V (op_callback_url app) of
                None \<Rightarrow> (db, OAuthFails (oauth2_server_error ''App has invalid callback URL configured.''))
              | Some url \<Rightarrow>
                  if cf_decision form \<noteq> ''approve''
                  then (db, OAuthRedirect 303 url ((''error'', ''access_denied'') # state_pair (pc_state pending)))
                  else
                    (case insert_oauth2_provider_app_user_approval (ox_env (ow_ctx V)) (pc_app_id pending) (au_id user) [] db of
                       (db, Inl e) \<Rightarrow> (db, OAuthAppError e)
                     | (db, Inr _) \<Rightarrow>
                         issue_code V (pc_app_id pending) (au_id user) (pc_resource pending) (pc_code_challenge pending)
                           (pc_code_challenge_method pending)
                           (\<lambda>raw_code. OAuthRedirect 303 url ((''code'', raw_code) # state_pair (pc_state pending))) db))))"

definition post_oauth2_authorize_consent ::
  "oauth_web \<Rightarrow> AuthenticatedUser option \<Rightarrow> OAuth2ConsentForm \<Rightarrow> OAuthDb \<Rightarrow> OAuthDb \<times> OAuthReply" where
  "post_oauth2_authorize_consent V context form db =
     (case context of
        None \<Rightarrow> (db, no_session)
      | Some user \<Rightarrow>
          (case parse_str (ow_codec V) (cf_nonce form) of
             None \<Rightarrow> (db, OAuthFails (oauth2_bad_request InvalidRequest ''Invalid consent nonce.''))
           | Some nonce \<Rightarrow>
               (case take_oauth2_pending_consent (ox_env (ow_ctx V)) nonce db of
                  (db, Inl e) \<Rightarrow> (db, OAuthAppError e)
                | (db, Inr None) \<Rightarrow>
                    (db, OAuthFails (oauth2_bad_request InvalidRequest ''Consent session has expired or is invalid.''))
                | (db, Inr (Some pending)) \<Rightarrow> consented V user form pending db)))"

section \<open>The token endpoint\<close>

definition parse_oauth2_basic_auth :: "oauth_web \<Rightarrow> headers \<Rightarrow> (string \<times> string) option" where
  "parse_oauth2_basic_auth V hs =
     (case Option.bind (map_of hs ''authorization'') to_str of
        None \<Rightarrow> None
      | Some auth_header \<Rightarrow>
          (case (case strip_prefix ''Basic '' auth_header of Some r \<Rightarrow> Some r | None \<Rightarrow> strip_prefix ''basic '' auth_header) of
             None \<Rightarrow> None
           | Some rest \<Rightarrow> Option.bind (ow_basic V (trim rest)) (split_once CHR '':'')))"

definition external_scope_names :: "string list" where
  "external_scope_names =
     [''all'', ''application_connect'',
      ''workspace:read'', ''workspace:create'', ''workspace:update'', ''workspace:delete'', ''workspace:ssh'',
      ''workspace:start'', ''workspace:stop'', ''workspace:application_connect'', ''workspace:*'',
      ''template:read'', ''template:create'', ''template:update'', ''template:delete'', ''template:use'', ''template:*'',
      ''api_key:read'', ''api_key:create'', ''api_key:update'', ''api_key:delete'', ''api_key:*'',
      ''file:read'', ''file:create'', ''file:*'',
      ''user:read_personal'', ''user:update_personal'', ''user.*'',
      ''user_secret:read'', ''user_secret:create'', ''user_secret:update'', ''user_secret:delete'', ''user_secret:*'',
      ''task:create'', ''task:read'', ''task:update'', ''task:delete'', ''task:*'',
      ''organization:read'', ''organization:update'', ''organization:delete'', ''organization:*'',
      ''coder:workspaces.create'', ''coder:workspaces.operate'', ''coder:workspaces.delete'', ''coder:workspaces.access'',
      ''coder:templates.build'', ''coder:templates.author'', ''coder:apikeys.manage_self'']"

definition validate_refresh_scope :: "string \<Rightarrow> (OAuth2Error, unit) result" where
  "validate_refresh_scope requested =
     (case find (\<lambda>scope. scope \<notin> set external_scope_names) (split_whitespace requested) of
        Some scope \<Rightarrow>
          Err (oauth2_bad_request InvalidScope
                 (''Requested scope '' @ [CHR 0x22] @ scope @ [CHR 0x22] @ '' is not within the scope originally granted.''))
      | None \<Rightarrow> Ok ())"

definition credentials ::
  "oauth_web \<Rightarrow> headers \<Rightarrow> OAuth2TokenRequest \<Rightarrow> (OAuth2Error, OAuth2TokenRequest) result" where
  "credentials V hs request =
     (case parse_oauth2_basic_auth V hs of
        None \<Rightarrow> Ok request
      | Some (basic_id, basic_secret) \<Rightarrow>
          if qt_client_id request \<noteq> [] \<or> qt_client_secret request \<noteq> []
          then Err (oauth2_bad_request InvalidRequest ''Use either HTTP Basic authentication or body credentials, not both.'')
          else Ok (request \<lparr> qt_client_id := basic_id, qt_client_secret := basic_secret \<rparr>))"

definition tokens_reply :: "OAuth2TokenResult provided \<Rightarrow> OAuthDb \<times> OAuthReply" where
  "tokens_reply r =
     (fst r, case snd r of Inl e \<Rightarrow> OAuthFails (oauth2_provider_error_to_oauth2_error e) | Inr t \<Rightarrow> OAuthTokens t)"

definition post_oauth2_token :: "oauth_web \<Rightarrow> headers \<Rightarrow> OAuth2TokenRequest \<Rightarrow> OAuthDb \<Rightarrow> OAuthDb \<times> OAuthReply" where
  "post_oauth2_token V hs request db =
     (case credentials V hs request of
        Inl e \<Rightarrow> (db, OAuthFails e)
      | Inr request \<Rightarrow>
          if qt_grant_type request = ''authorization_code'' then
            (case parse_str (ow_codec V) (qt_client_id request) of
               None \<Rightarrow> (db, OAuthFails (oauth2_invalid_client ''Invalid client_id: must be a valid UUID.''))
             | Some client_id \<Rightarrow>
                 tokens_reply (exchange_code (ow_ctx V) (qt_code request) client_id (qt_client_secret request)
                   (qt_code_verifier request) (qt_resource request) db))
          else if qt_grant_type request = ''refresh_token'' then
            (case parse_str (ow_codec V) (qt_client_id request) of
               None \<Rightarrow> (db, OAuthFails (oauth2_invalid_client ''Invalid client_id: must be a valid UUID.''))
             | Some client_id \<Rightarrow>
                 (case (if trim (qt_scope request) \<noteq> [] then validate_refresh_scope (qt_scope request) else Ok ()) of
                    Inl e \<Rightarrow> (db, OAuthFails e)
                  | Inr _ \<Rightarrow>
                      tokens_reply (refresh_token (ow_ctx V) (qt_refresh_token request) client_id (qt_client_secret request)
                        (qt_resource request) db)))
          else (db, OAuthFails (oauth2_bad_request UnsupportedGrantType
                  ''Supported grant types are: authorization_code, refresh_token.'')))"

section \<open>Revocation\<close>

definition handle_oauth2_provider_error :: "OAuth2ProviderError \<Rightarrow> OAuthReply" where
  "handle_oauth2_provider_error e =
     (case e of
        ProviderStorage e \<Rightarrow> OAuthAppError e
      | ProviderBadRequest m \<Rightarrow> OAuthMessage 400 m []
      | ProviderNotFound m \<Rightarrow> OAuthMessage 404 m []
      | ProviderUnauthorized m \<Rightarrow> OAuthUnauthorized m)"

definition delete_oauth2_tokens ::
  "oauth_web \<Rightarrow> AuthenticatedUser option \<Rightarrow> string \<Rightarrow> OAuthDb \<Rightarrow> OAuthDb \<times> OAuthReply" where
  "delete_oauth2_tokens V context client_id db =
     (case context of
        None \<Rightarrow> (db, no_session)
      | Some user \<Rightarrow>
          (case parse_str (ow_codec V) client_id of
             None \<Rightarrow> (db, OAuthMessage 400 ''Invalid client_id.'' ''The client_id must be a valid UUID.'')
           | Some app_id \<Rightarrow>
               (case revoke_tokens (ow_ctx V) app_id (au_id user) db of
                  (db, Inl e) \<Rightarrow> (db, handle_oauth2_provider_error e)
                | (db, Inr _) \<Rightarrow> (db, OAuthStatus 204))))"

text \<open>The two lookups of \<open>post_oauth2_revoke\<close> treat every failure as not found.\<close>

definition found :: "(StorageError, 'a option) result \<Rightarrow> 'a option" where
  "found r = (case r of Inr (Some x) \<Rightarrow> Some x | _ \<Rightarrow> None)"

definition revoke_if_owned :: "oauth_web \<Rightarrow> uuid \<Rightarrow> OAuth2ProviderAppTokenRecord \<Rightarrow> OAuthDb \<Rightarrow> OAuthDb" where
  "revoke_if_owned V client_id t db =
     (case found (find_oauth2_provider_app_secret_by_id (ox_env (ow_ctx V)) (ot_app_secret_id t) db) of
        Some secret \<Rightarrow>
          if os_app_id secret = client_id
          then fst (delete_oauth2_provider_app_token (ox_env (ow_ctx V)) (ot_id t)
                 (drop_api_key (ow_ctx V) (ot_api_key_id t) db))
          else db
      | None \<Rightarrow> db)"

definition verified_access_token :: "oauth_web \<Rightarrow> string \<Rightarrow> OAuthDb \<Rightarrow> OAuth2ProviderAppTokenRecord option" where
  "verified_access_token V token db =
     (case found (find_oauth2_provider_app_token_by_prefix (ox_env (ow_ctx V)) (take 8 token) db) of
        None \<Rightarrow> None
      | Some t \<Rightarrow>
          (case found (find_api_key_by_id (ov_auth (ox_env (ow_ctx V))) (ot_api_key_id t) (od_auth db)) of
             None \<Rightarrow> None
           | Some key \<Rightarrow> if ak_hashed_secret key = sha256 (ow_ctx V) token then Some t else None))"

definition post_oauth2_revoke :: "oauth_web \<Rightarrow> string \<Rightarrow> string \<Rightarrow> OAuthDb \<Rightarrow> OAuthDb \<times> OAuthReply" where
  "post_oauth2_revoke V token client db =
     (if token = [] then (db, OAuthFails (oauth2_bad_request InvalidRequest ''Missing token parameter.''))
      else
        (case parse_str (ow_codec V) client of
           None \<Rightarrow> (db, OAuthStatus 200)
         | Some client_id \<Rightarrow>
             (case get_app (ow_ctx V) client_id db of
                Inl _ \<Rightarrow> (db, OAuthStatus 200)
              | Inr _ \<Rightarrow>
                  (case verified_access_token V token db of
                     Some t \<Rightarrow> (revoke_if_owned V client_id t db, OAuthStatus 200)
                   | None \<Rightarrow>
                       (case found (find_oauth2_provider_app_token_by_refresh_hash (ox_env (ow_ctx V)) (sha256 (ow_ctx V) token) db) of
                          Some t \<Rightarrow> (revoke_if_owned V client_id t db, OAuthStatus 200)
                        | None \<Rightarrow> (db, OAuthStatus 200))))))"

section \<open>Registered clients\<close>

definition oauth2_registration_error :: "nat \<Rightarrow> string \<Rightarrow> string \<Rightarrow> OAuthReply" where
  "oauth2_registration_error status code description = OAuthMessage status code description"

definition validate_registration_token :: "oauth_web \<Rightarrow> headers \<Rightarrow> uuid \<Rightarrow> OAuthDb \<Rightarrow> OAuthReply option" where
  "validate_registration_token V hs app_id db =
     (case Option.bind (map_of hs ''authorization'') to_str of
        None \<Rightarrow> Some (oauth2_registration_error 401 ''invalid_token'' ''Missing Authorization header'')
      | Some auth_header \<Rightarrow>
          (case strip_prefix ''Bearer '' auth_header of
             None \<Rightarrow> Some (oauth2_registration_error 401 ''invalid_token'' ''Authorization header must use Bearer scheme'')
           | Some token \<Rightarrow>
               if token = [] then Some (oauth2_registration_error 401 ''invalid_token'' ''Missing registration access token'')
               else
                 (case find_oauth2_provider_app_by_id (ox_env (ow_ctx V)) app_id db of
                    Inl _ \<Rightarrow> Some (oauth2_registration_error 500 ''server_error'' ''Failed to retrieve client'')
                  | Inr None \<Rightarrow> Some (oauth2_registration_error 401 ''invalid_token'' ''Client not found'')
                  | Inr (Some app) \<Rightarrow>
                      (case op_registration_access_token app of
                         None \<Rightarrow> Some (oauth2_registration_error 401 ''invalid_token'' ''Invalid registration access token'')
                       | Some stored_hash \<Rightarrow>
                           if stored_hash \<noteq> sha256 (ow_ctx V) token
                           then Some (oauth2_registration_error 401 ''invalid_token'' ''Invalid registration access token'')
                           else None))))"

definition delete_oauth2_client_configuration ::
  "oauth_web \<Rightarrow> headers \<Rightarrow> string \<Rightarrow> OAuthDb \<Rightarrow> OAuthDb \<times> OAuthReply" where
  "delete_oauth2_client_configuration V hs client db =
     (case parse_str (ow_codec V) client of
        None \<Rightarrow> (db, oauth2_registration_error 400 ''invalid_client_metadata'' ''Invalid client ID format'')
      | Some client_id \<Rightarrow>
          (case validate_registration_token V hs client_id db of
             Some reply \<Rightarrow> (db, reply)
           | None \<Rightarrow>
               (case get_app (ow_ctx V) client_id db of
                  Inl (ProviderNotFound _) \<Rightarrow> (db, oauth2_registration_error 401 ''invalid_token'' ''Client not found'')
                | Inl _ \<Rightarrow> (db, oauth2_registration_error 500 ''server_error'' ''Failed to retrieve client'')
                | Inr _ \<Rightarrow>
                    (case delete_app (ow_ctx V) client_id db of
                       (db, Inl _) \<Rightarrow> (db, oauth2_registration_error 500 ''server_error'' ''Failed to delete client'')
                     | (db, Inr _) \<Rightarrow> (db, OAuthStatus 204)))))"

end
