(* ===== verification/Single_Use.thy ===== *)
theory Single_Use
  imports Prelude Uuid_Text
begin

text \<open>
  The protocol by which a one-time credential is turned into something else: check it, delete it from the database, and only
  then hand out what it stands for. Tasks interleave between the three parts, and anything else may change the database, as
  long as the identifiers of new credentials are new. The locale \<open>single_use\<close> states what the three parts have to promise,
  and shows that nothing is handed out twice.
\<close>

record ('db, 'g, 't) grant_sys =
  gs_db :: 'db
  gs_checked :: "'g list"
  gs_consumed :: "'g list"
  gs_issued :: "(uuid \<times> 't) list"
  gs_seen :: "uuid set"

text \<open>The identifiers that are in the database now were there before or are new.\<close>

definition only_fresh :: "('db \<Rightarrow> uuid set) \<Rightarrow> ('db, 'g, 't) grant_sys \<Rightarrow> 'db \<Rightarrow> bool" where
  "only_fresh ids \<sigma> db \<longleftrightarrow> ids db \<inter> gs_seen \<sigma> \<subseteq> ids (gs_db \<sigma>)"

definition arrive :: "('db \<Rightarrow> uuid set) \<Rightarrow> 'db \<Rightarrow> ('db, 'g, 't) grant_sys \<Rightarrow> ('db, 'g, 't) grant_sys" where
  "arrive ids db \<sigma> = \<sigma> \<lparr> gs_db := db, gs_seen := gs_seen \<sigma> \<union> ids db \<rparr>"

inductive grant_step ::
  "('db \<Rightarrow> uuid set) \<Rightarrow> ('g \<Rightarrow> uuid) \<Rightarrow> ('q \<Rightarrow> 'db \<Rightarrow> 'db \<times> ('e, 'g) result) \<Rightarrow> ('x \<Rightarrow> 'g \<Rightarrow> 'db \<Rightarrow> 'db \<times> ('e, unit) result) \<Rightarrow>
   ('x \<Rightarrow> 'g \<Rightarrow> 'db \<Rightarrow> 'db \<times> ('e, 't) result) \<Rightarrow> ('db, 'g, 't) grant_sys \<Rightarrow> ('db, 'g, 't) grant_sys \<Rightarrow> bool"
  for ids key check consume generate
where
  check_done: "check q (gs_db \<sigma>) = (db, r) \<Longrightarrow>
    grant_step ids key check consume generate \<sigma>
      ((arrive ids db \<sigma>) \<lparr> gs_checked := (case r of Inr g \<Rightarrow> g # gs_checked \<sigma> | Inl _ \<Rightarrow> gs_checked \<sigma>) \<rparr>)"
| consume_done: "g \<in> set (gs_checked \<sigma>) \<Longrightarrow> consume x g (gs_db \<sigma>) = (db, r) \<Longrightarrow>
    grant_step ids key check consume generate \<sigma>
      ((arrive ids db \<sigma>) \<lparr> gs_checked := remove1 g (gs_checked \<sigma>),
         gs_consumed := (if is_ok r then g # gs_consumed \<sigma> else gs_consumed \<sigma>) \<rparr>)"
| generate_done: "g \<in> set (gs_consumed \<sigma>) \<Longrightarrow> generate x g (gs_db \<sigma>) = (db, r) \<Longrightarrow> only_fresh ids \<sigma> db \<Longrightarrow>
    grant_step ids key check consume generate \<sigma>
      ((arrive ids db \<sigma>) \<lparr> gs_consumed := remove1 g (gs_consumed \<sigma>),
         gs_issued := (case r of Inr t \<Rightarrow> (key g, t) # gs_issued \<sigma> | Inl _ \<Rightarrow> gs_issued \<sigma>) \<rparr>)"
| anything_else: "only_fresh ids \<sigma> db \<Longrightarrow> grant_step ids key check consume generate \<sigma> (arrive ids db \<sigma>)"

inductive_cases grant_stepE: "grant_step ids key check consume generate \<sigma> \<tau>"

definition grant_init :: "('db \<Rightarrow> uuid set) \<Rightarrow> ('db, 'g, 't) grant_sys \<Rightarrow> bool" where
  "grant_init ids \<sigma> \<longleftrightarrow>
     gs_checked \<sigma> = [] \<and> gs_consumed \<sigma> = [] \<and> gs_issued \<sigma> = [] \<and> gs_seen \<sigma> = ids (gs_db \<sigma>)"

text \<open>The credentials that are used up: deleted and in progress, or handed out.\<close>

definition spent :: "('g \<Rightarrow> uuid) \<Rightarrow> ('db, 'g, 't) grant_sys \<Rightarrow> uuid list" where
  "spent key \<sigma> = map key (gs_consumed \<sigma>) @ map fst (gs_issued \<sigma>)"

definition grant_inv :: "('db \<Rightarrow> uuid set) \<Rightarrow> ('g \<Rightarrow> uuid) \<Rightarrow> ('db, 'g, 't) grant_sys \<Rightarrow> bool" where
  "grant_inv ids key \<sigma> \<longleftrightarrow>
     distinct (spent key \<sigma>) \<and> set (spent key \<sigma>) \<inter> ids (gs_db \<sigma>) = {} \<and>
     set (spent key \<sigma>) \<subseteq> gs_seen \<sigma> \<and> ids (gs_db \<sigma>) \<subseteq> gs_seen \<sigma>"

lemma arrive_simps [simp]:
  "gs_db (arrive ids db \<sigma>) = db" "gs_checked (arrive ids db \<sigma>) = gs_checked \<sigma>"
  "gs_consumed (arrive ids db \<sigma>) = gs_consumed \<sigma>" "gs_issued (arrive ids db \<sigma>) = gs_issued \<sigma>"
  "gs_seen (arrive ids db \<sigma>) = gs_seen \<sigma> \<union> ids db"
  by (simp_all add: arrive_def)

lemma grant_inv_arrive:
  "grant_inv ids key \<sigma> \<Longrightarrow> only_fresh ids \<sigma> db \<Longrightarrow> spent key \<tau> = spent key \<sigma> \<Longrightarrow> gs_db \<tau> = db \<Longrightarrow>
     gs_seen \<tau> = gs_seen \<sigma> \<union> ids db \<Longrightarrow> grant_inv ids key \<tau>"
  unfolding grant_inv_def only_fresh_def by auto

lemma shrinking_only_fresh: "ids db \<subseteq> ids (gs_db \<sigma>) \<Longrightarrow> only_fresh ids \<sigma> db"
  by (auto simp: only_fresh_def)

lemma set_map_remove1: "set (map f (remove1 g xs)) \<subseteq> set (map f xs)"
  using set_remove1_subset [of g xs] by auto

lemma spent_generating:
  assumes "g \<in> set (gs_consumed \<sigma>)" and "distinct (spent key \<sigma>)"
  shows "distinct (map key (remove1 g (gs_consumed \<sigma>)) @ key g # map fst (gs_issued \<sigma>))"
proof -
  obtain xs ys where "gs_consumed \<sigma> = xs @ g # ys" "g \<notin> set xs" using split_list_first [OF assms(1)] by blast
  with assms(2) show ?thesis by (auto simp: spent_def remove1_append)
qed

text \<open>A request is the three parts one after the other.\<close>

definition in_sequence ::
  "('q \<Rightarrow> 'db \<Rightarrow> 'db \<times> ('e, 'g) result) \<Rightarrow> ('x \<Rightarrow> 'g \<Rightarrow> 'db \<Rightarrow> 'db \<times> ('e, unit) result) \<Rightarrow> ('x \<Rightarrow> 'g \<Rightarrow> 'db \<Rightarrow> 'db \<times> ('e, 't) result) \<Rightarrow>
   'q \<Rightarrow> 'x \<Rightarrow> 'db \<Rightarrow> 'db \<times> ('e, 't) result" where
  "in_sequence check consume generate q x db =
     (case check q db of
        (db, Inl e) \<Rightarrow> (db, Inl e)
      | (db, Inr g) \<Rightarrow> (case consume x g db of (db, Inl e) \<Rightarrow> (db, Inl e) | (db, Inr _) \<Rightarrow> generate x g db))"

lemma in_sequence_exact:
  assumes "\<And>db' g. check q db = (db', Inr g) \<longleftrightarrow> db' = db \<and> P g"
    and "\<And>g. P g \<Longrightarrow> consume x g db = (f g, Inr ()) \<and> generate x g (f g) = (h g, Inr r)"
  shows "in_sequence check consume generate q x db = (db', Inr t) \<longleftrightarrow> (\<exists>g. P g \<and> db' = h g \<and> t = r)"
proof (cases "snd (check q db)")
  case (Inl e)
  then obtain d where d: "check q db = (d, Inl e)" by (cases "check q db") simp
  then have "\<not> P g" for g using assms(1) [of db g] by simp
  then show ?thesis using d by (simp add: in_sequence_def)
next
  case (Inr g)
  then obtain d where d: "check q db = (d, Inr g)" by (cases "check q db") simp
  then have c: "check q db = (db, Inr g)" "P g" using assms(1) [of d g] by simp_all
  have u: "P u \<Longrightarrow> u = g" for u using assms(1) [of db u] c(1) by simp
  have "in_sequence check consume generate q x db = (h g, Inr r)"
    using assms(2) [OF c(2)] c(1) by (simp add: in_sequence_def)
  then show ?thesis using u c(2) by (metis Pair_inject sum.inject(2))
qed

section \<open>The contract\<close>

locale single_use =
  fixes ids :: "'db \<Rightarrow> uuid set"
    and key :: "'g \<Rightarrow> uuid"
    and check :: "'q \<Rightarrow> 'db \<Rightarrow> 'db \<times> ('e, 'g) result"
    and consume :: "'x \<Rightarrow> 'g \<Rightarrow> 'db \<Rightarrow> 'db \<times> ('e, unit) result"
    and generate :: "'x \<Rightarrow> 'g \<Rightarrow> 'db \<Rightarrow> 'db \<times> ('e, 't) result"
  assumes check_adds_none: "ids (fst (check q db)) \<subseteq> ids db"
    and consume_adds_none: "ids (fst (consume x g db)) \<subseteq> ids db"
    and consume_takes: "is_ok (snd (consume x g db)) \<Longrightarrow> key g \<in> ids db \<and> key g \<notin> ids (fst (consume x g db))"
begin

lemma inv_checking:
  assumes "grant_inv ids key \<sigma>" and "check q (gs_db \<sigma>) = (db, r)"
  shows "grant_inv ids key ((arrive ids db \<sigma>) \<lparr> gs_checked := gs \<rparr>)"
proof (rule grant_inv_arrive [OF assms(1)])
  show "only_fresh ids \<sigma> db" using check_adds_none [of q "gs_db \<sigma>"] assms(2) by (intro shrinking_only_fresh) simp
qed (simp_all add: spent_def)

lemma inv_consuming:
  assumes "grant_inv ids key \<sigma>" and "consume x g (gs_db \<sigma>) = (db, r)"
  shows "grant_inv ids key ((arrive ids db \<sigma>) \<lparr> gs_checked := gs,
    gs_consumed := (if is_ok r then g # gs_consumed \<sigma> else gs_consumed \<sigma>) \<rparr>)"
proof (cases "is_ok r")
  case True
  then have "key g \<in> ids (gs_db \<sigma>)" "key g \<notin> ids db" "ids db \<subseteq> ids (gs_db \<sigma>)"
    using consume_takes [of x g "gs_db \<sigma>"] consume_adds_none [of x g "gs_db \<sigma>"] assms(2) by simp_all
  with assms(1) True show ?thesis unfolding grant_inv_def spent_def by auto
next
  case False
  have "only_fresh ids \<sigma> db" using consume_adds_none [of x g "gs_db \<sigma>"] assms(2) by (intro shrinking_only_fresh) simp
  with False show ?thesis by (intro grant_inv_arrive [OF assms(1)]) (simp_all add: spent_def)
qed

lemma inv_generating:
  assumes "grant_inv ids key \<sigma>" and "g \<in> set (gs_consumed \<sigma>)" and "only_fresh ids \<sigma> db"
  shows "grant_inv ids key ((arrive ids db \<sigma>) \<lparr> gs_consumed := remove1 g (gs_consumed \<sigma>),
    gs_issued := (case r of Inr t \<Rightarrow> (key g, t) # gs_issued \<sigma> | Inl _ \<Rightarrow> gs_issued \<sigma>) \<rparr>)" (is "grant_inv _ _ ?\<tau>")
proof -
  have d: "distinct (map key (remove1 g (gs_consumed \<sigma>)) @ key g # map fst (gs_issued \<sigma>))"
    using spent_generating [OF assms(2), of key] assms(1) unfolding grant_inv_def by blast
  have "set (spent key ?\<tau>) \<subseteq> set (spent key \<sigma>)"
    using set_map_remove1 [of key g "gs_consumed \<sigma>"] assms(2) by (cases r) (auto simp: spent_def)
  moreover have "distinct (spent key ?\<tau>)" using d by (cases r) (simp_all add: spent_def)
  ultimately show ?thesis using assms(1,3) unfolding grant_inv_def only_fresh_def by auto
qed

lemma grant_inv_step: "grant_inv ids key \<sigma> \<Longrightarrow> grant_step ids key check consume generate \<sigma> \<tau> \<Longrightarrow> grant_inv ids key \<tau>"
  by (elim grant_stepE)
    (simp_all only: inv_checking inv_consuming inv_generating grant_inv_arrive arrive_simps spent_def)

end

sublocale single_use \<subseteq> transition_invariant "grant_init ids" "grant_step ids key check consume generate" "grant_inv ids key"
proof unfold_locales
  fix \<sigma> \<tau> :: "('db, 'g, 't) grant_sys"
  show "grant_init ids \<sigma> \<Longrightarrow> grant_inv ids key \<sigma>" by (simp add: grant_init_def grant_inv_def spent_def)
  show "grant_inv ids key \<sigma> \<Longrightarrow> grant_step ids key check consume generate \<sigma> \<tau> \<Longrightarrow> grant_inv ids key \<tau>" by (rule grant_inv_step)
qed

context single_use
begin

lemma issued_once:
  assumes "reachable (grant_init ids) (grant_step ids key check consume generate) \<sigma>"
  shows "distinct (map fst (gs_issued \<sigma>))"
  using reachable_inv [OF assms] by (simp add: grant_inv_def spent_def)

lemma consumed_not_issued:
  assumes "reachable (grant_init ids) (grant_step ids key check consume generate) \<sigma>"
  shows "key ` set (gs_consumed \<sigma>) \<inter> fst ` set (gs_issued \<sigma>) = {}"
  using reachable_inv [OF assms] by (auto simp: grant_inv_def spent_def)

lemma issued_not_redeemable:
  assumes "reachable (grant_init ids) (grant_step ids key check consume generate) \<sigma>" and "(key g, t) \<in> set (gs_issued \<sigma>)"
  shows "\<not> is_ok (snd (consume x g (gs_db \<sigma>)))"
proof
  assume "is_ok (snd (consume x g (gs_db \<sigma>)))"
  from consume_takes [OF this] reachable_inv [OF assms(1)] assms(2) show False
    unfolding grant_inv_def spent_def by force
qed

text \<open>A request that is not disturbed goes through: the three parts in sequence are a run.\<close>

lemma undisturbed_run:
  assumes "check q db = (d0, Inr g)" and "consume x g d0 = (d1, Inr ())" and "generate x g d1 = (d2, Inr t)"
    and "ids d2 \<subseteq> ids d1"
  shows "\<exists>\<sigma>. reachable (grant_init ids) (grant_step ids key check consume generate) \<sigma> \<and> gs_issued \<sigma> = [(key g, t)] \<and> gs_db \<sigma> = d2"
proof -
  let ?step = "grant_step ids key check consume generate"
  define s0 :: "('db, 'g, 't) grant_sys" where
    "s0 = \<lparr> gs_db = db, gs_checked = [], gs_consumed = [], gs_issued = [], gs_seen = ids db \<rparr>"
  define s1 where "s1 = (arrive ids d0 s0) \<lparr> gs_checked := [g] \<rparr>"
  define s2 where "s2 = (arrive ids d1 s1) \<lparr> gs_checked := [], gs_consumed := [g] \<rparr>"
  define s3 where "s3 = (arrive ids d2 s2) \<lparr> gs_consumed := [], gs_issued := [(key g, t)] \<rparr>"
  have 1: "?step s0 s1" using check_done [of check q s0 d0 "Inr g"] assms(1) by (simp add: s0_def s1_def)
  have 2: "?step s1 s2" using consume_done [of g s1 consume x d1 "Inr ()"] assms(2) by (simp add: s0_def s1_def s2_def)
  have 3: "?step s2 s3"
    using generate_done [of g s2 generate x d2 "Inr t"] assms(3,4) by (simp add: s0_def s1_def s2_def s3_def only_fresh_def) blast
  have "reachable (grant_init ids) ?step s0" by (rule reach_init) (simp add: grant_init_def s0_def)
  with 1 2 3 have "reachable (grant_init ids) ?step s3" by (meson reach_step)
  then show ?thesis by (intro exI [of _ s3]) (simp add: s3_def)
qed

end

end
