(* ===== verification/OAuth2_Grants.thy ===== *)
theory OAuth2_Grants
  imports OAuth2_Handlers Single_Use Auth_Middleware
begin

text \<open>
  What the OAuth2 provider promises of codes and tokens: exactly when a code is exchanged, that codes and refresh tokens are
  used once however requests interleave, what refreshing and revoking leave behind, and what consent is worth.
\<close>

section \<open>Statements\<close>

lemmas oauth_stmt_defs = oauth_attempt_def oauth_query_def oauth_insert_def

lemma delete_code_cases:
  "(\<exists>e. delete_oauth2_provider_app_code E i db = (db, Inl e)) \<or>
   delete_oauth2_provider_app_code E i db =
     (db \<lparr> od_codes := filter (\<lambda>c. oc_id c \<noteq> i) (od_codes db) \<rparr>, Inr (i \<in> oc_id ` set (od_codes db)))"
  by (cases "ov_fault E DeleteCode") (simp_all add: delete_oauth2_provider_app_code_def oauth_attempt_def)

lemma delete_token_cases:
  "(\<exists>e. delete_oauth2_provider_app_token E i db = (db, Inl e)) \<or>
   delete_oauth2_provider_app_token E i db =
     (db \<lparr> od_tokens := filter (\<lambda>t. ot_id t \<noteq> i) (od_tokens db) \<rparr>, Inr (i \<in> ot_id ` set (od_tokens db)))"
  by (cases "ov_fault E DeleteToken") (simp_all add: delete_oauth2_provider_app_token_def oauth_attempt_def)

lemma drop_api_key_tables [simp]:
  "od_apps (drop_api_key X k db) = od_apps db" "od_secrets (drop_api_key X k db) = od_secrets db"
  "od_codes (drop_api_key X k db) = od_codes db" "od_tokens (drop_api_key X k db) = od_tokens db"
  by (simp_all add: drop_api_key_def on_auth_def)

definition code_ids :: "OAuthDb \<Rightarrow> uuid set" where "code_ids db = oc_id ` set (od_codes db)"
definition token_ids :: "OAuthDb \<Rightarrow> uuid set" where "token_ids db = ot_id ` set (od_tokens db)"

lemma code_ids_delete: "code_ids (fst (delete_oauth2_provider_app_code E i db)) \<subseteq> code_ids db"
  using delete_code_cases [of E i db] by (auto simp: code_ids_def)

lemma token_ids_delete: "token_ids (fst (delete_oauth2_provider_app_token E i db)) \<subseteq> token_ids db"
  using delete_token_cases [of E i db] by (auto simp: token_ids_def)

section \<open>One use each\<close>

type_synonym exchange_request = "oauth_ctx \<times> string \<times> uuid \<times> string \<times> string \<times> string"
type_synonym refresh_request = "oauth_ctx \<times> string \<times> uuid \<times> string \<times> string"

definition check_code :: "exchange_request \<Rightarrow> OAuthDb \<Rightarrow> (OAuth2ProviderAppCodeRecord \<times> OAuth2ProviderAppSecretRecord) provided" where
  "check_code q db = (case q of (X, raw, client, secret, verifier, resource) \<Rightarrow> exchange_check X raw client secret verifier resource db)"

definition consume_code :: "oauth_ctx \<Rightarrow> OAuth2ProviderAppCodeRecord \<times> OAuth2ProviderAppSecretRecord \<Rightarrow> OAuthDb \<Rightarrow> unit provided" where
  "consume_code X g db = exchange_consume X (fst g) db"

definition tokens_for_code ::
  "oauth_ctx \<Rightarrow> OAuth2ProviderAppCodeRecord \<times> OAuth2ProviderAppSecretRecord \<Rightarrow> OAuthDb \<Rightarrow> OAuth2TokenResult provided" where
  "tokens_for_code X g db = generate_token_pair X (os_id (snd g)) (oc_user_id (fst g)) (oc_resource_uri (fst g)) db"

definition check_refresh :: "refresh_request \<Rightarrow> OAuthDb \<Rightarrow> OAuth2ProviderAppTokenRecord provided" where
  "check_refresh q db = (case q of (X, refresh, client, secret, resource) \<Rightarrow> refresh_check X refresh client secret resource db)"

definition tokens_for_refresh :: "oauth_ctx \<Rightarrow> OAuth2ProviderAppTokenRecord \<Rightarrow> OAuthDb \<Rightarrow> OAuth2TokenResult provided" where
  "tokens_for_refresh X t db = generate_token_pair X (ot_app_secret_id t) (ot_user_id t) (ot_audience t) db"

lemma exchange_in_sequence:
  "exchange_code X raw client secret verifier resource db =
     in_sequence check_code consume_code tokens_for_code (X, raw, client, secret, verifier, resource) X db"
  by (simp add: exchange_code_def in_sequence_def check_code_def consume_code_def tokens_for_code_def
      split: prod.splits sum.splits)

lemma refresh_in_sequence:
  "refresh_token X refresh client secret resource db =
     in_sequence check_refresh refresh_consume tokens_for_refresh (X, refresh, client, secret, resource) X db"
  by (simp add: refresh_token_def in_sequence_def check_refresh_def tokens_for_refresh_def split: prod.splits sum.splits)

lemma exchange_check_ids: "code_ids (fst (exchange_check X raw client secret verifier resource db)) \<subseteq> code_ids db"
  by (auto simp: exchange_check_def burn_code_def split: sum.splits option.splits
      dest: subsetD [OF code_ids_delete])

lemma refresh_check_ids: "token_ids (fst (refresh_check X refresh client secret resource db)) \<subseteq> token_ids db"
  by (auto simp: refresh_check_def split: sum.splits option.splits dest: subsetD [OF token_ids_delete])

interpretation codes: single_use code_ids "\<lambda>g. oc_id (fst g)" check_code consume_code tokens_for_code
proof unfold_locales
  fix q x db and g :: "OAuth2ProviderAppCodeRecord \<times> OAuth2ProviderAppSecretRecord"
  show "code_ids (fst (check_code q db)) \<subseteq> code_ids db"
    using exchange_check_ids by (simp add: check_code_def split: prod.split)
  show "code_ids (fst (consume_code x g db)) \<subseteq> code_ids db"
    using delete_code_cases [of "ox_env x" "oc_id (fst g)" db]
    by (auto simp: consume_code_def exchange_consume_def code_ids_def split: bool.splits)
  show "is_ok (snd (consume_code x g db)) \<Longrightarrow> oc_id (fst g) \<in> code_ids db \<and> oc_id (fst g) \<notin> code_ids (fst (consume_code x g db))"
    using delete_code_cases [of "ox_env x" "oc_id (fst g)" db]
    by (auto simp: consume_code_def exchange_consume_def code_ids_def split: bool.splits)
qed

interpretation refreshes: single_use token_ids ot_id check_refresh refresh_consume tokens_for_refresh
proof unfold_locales
  fix q x db and g :: OAuth2ProviderAppTokenRecord
  show "token_ids (fst (check_refresh q db)) \<subseteq> token_ids db"
    using refresh_check_ids by (simp add: check_refresh_def split: prod.split)
  show "token_ids (fst (refresh_consume x g db)) \<subseteq> token_ids db"
    using delete_token_cases [of "ox_env x" "ot_id g" db]
    by (auto simp: refresh_consume_def token_ids_def split: bool.splits)
  show "is_ok (snd (refresh_consume x g db)) \<Longrightarrow> ot_id g \<in> token_ids db \<and> ot_id g \<notin> token_ids (fst (refresh_consume x g db))"
    using delete_token_cases [of "ox_env x" "ot_id g" db]
    by (auto simp: refresh_consume_def token_ids_def split: bool.splits)
qed

section \<open>Exchanging a code\<close>

definition oauth_working :: "oauth_ctx \<Rightarrow> bool" where
  "oauth_working X \<longleftrightarrow>
     (\<forall>call. ov_fault (ox_env X) call = None) \<and> (\<forall>call. av_fault (ov_auth (ox_env X)) call = None) \<and>
     (\<forall>cs. set (ov_scan_codes (ox_env X) cs) = set cs) \<and> (\<forall>ts. set (ov_scan_tokens (ox_env X) ts) = set ts)"

text \<open>The identifiers a call draws are unused, and the clock is far from its end.\<close>

definition key_name :: "oauth_ctx \<Rightarrow> string" where
  "key_name X = to_string (av_codec (ov_auth (ox_env X))) (ox_key_id X)"

definition oauth_fresh :: "oauth_ctx \<Rightarrow> OAuthDb \<Rightarrow> bool" where
  "oauth_fresh X db \<longleftrightarrow>
     (\<forall>k \<in> set (ad_keys (od_auth db)). ak_id k \<noteq> key_name X \<and> \<not> same_text (ak_token_name k) (''oauth2_'' @ key_name X)) \<and>
     ov_id (ox_env X) \<notin> token_ids db \<and> ov_now (ox_env X) + minutes (60 * 24 * 30) \<le> MAX_INSTANT"

text \<open>When a code can be exchanged, by the rows of the database alone.\<close>

definition redeemable ::
  "oauth_ctx \<Rightarrow> string \<Rightarrow> uuid \<Rightarrow> string \<Rightarrow> string \<Rightarrow> string \<Rightarrow> OAuthDb \<Rightarrow>
   OAuth2ProviderAppCodeRecord \<Rightarrow> OAuth2ProviderAppSecretRecord \<Rightarrow> bool" where
  "redeemable X raw client secret verifier resource db c s \<longleftrightarrow>
     raw \<noteq> [] \<and> find (\<lambda>c. oc_secret_prefix c = take 8 raw) (ov_scan_codes (ox_env X) (od_codes db)) = Some c \<and>
     ov_now (ox_env X) \<le> oc_expires_at c \<and> oc_hashed_secret c = sha256 X raw \<and> oc_app_id c = client \<and>
     (oc_code_challenge c = [] \<or>
      verifier \<noteq> [] \<and> verify_pkce X verifier (oc_code_challenge c) (oc_code_challenge_method c)) \<and>
     find (secret_matches X secret) (app_secrets client db) = Some s \<and> oc_resource_uri c = resource"

definition pair_row :: "oauth_ctx \<Rightarrow> uuid \<Rightarrow> uuid \<Rightarrow> string \<Rightarrow> OAuth2ProviderAppTokenRecord" where
  "pair_row X secret_id user_id audience =
     \<lparr> ot_id = ov_id (ox_env X), ot_created_at = ov_now (ox_env X),
        ot_expires_at = ov_now (ox_env X) + minutes (60 * 24 * 30),
        ot_hash_prefix = take 8 (new_session_token (ox_pw X) (ox_session X)),
        ot_refresh_hash = sha256 X (ox_url64 X (ox_raw X)), ot_app_secret_id = secret_id, ot_api_key_id = key_name X,
        ot_audience = audience, ot_user_id = user_id \<rparr>"

definition pair_result :: "oauth_ctx \<Rightarrow> OAuth2TokenResult" where
  "pair_result X =
     \<lparr> tr_access_token = new_session_token (ox_pw X) (ox_session X), tr_token_type = ''Bearer'', tr_expires_in = 3600,
        tr_refresh_token = ox_url64 X (ox_raw X) \<rparr>"

definition with_pair :: "oauth_ctx \<Rightarrow> uuid \<Rightarrow> uuid \<Rightarrow> string \<Rightarrow> OAuthDb \<Rightarrow> OAuthDb" where
  "with_pair X secret_id user_id audience db =
     db \<lparr> od_tokens := od_tokens db @ [pair_row X secret_id user_id audience],
          od_auth := (od_auth db) \<lparr> ad_keys := ad_keys (od_auth db) @
            [key_of_input (access_key X user_id (ov_now (ox_env X) + minutes 60))] \<rparr> \<rparr>"

lemma resource_ok: "validate_authorization_code_resource stored requested = Ok () \<longleftrightarrow> stored = requested"
  by (cases "stored = []"; cases "requested = []") (auto simp: validate_authorization_code_resource_def)

lemma pkce_ok:
  "pkce_error X verifier c = None \<longleftrightarrow> oc_code_challenge c = [] \<or>
     verifier \<noteq> [] \<and> verify_pkce X verifier (oc_code_challenge c) (oc_code_challenge_method c)"
  by (simp add: pkce_error_def)

lemma validate_resource_result: "validate_authorization_code_resource stored requested = Inr u \<longleftrightarrow> stored = requested"
  using resource_ok by (metis (full_types) unit_eq)

lemma validate_resource_same [simp]: "validate_authorization_code_resource r r = Inr ()"
  using resource_ok by blast

lemma find_appended: "(\<forall>x \<in> set xs. \<not> P x) \<Longrightarrow> find P (xs @ ys) = find P ys"
  by (induction xs) auto

lemma check_exact:
  assumes "oauth_working X"
  shows "exchange_check X raw client secret verifier resource db = (db', Ok (c, s)) \<longleftrightarrow>
    db' = db \<and> redeemable X raw client secret verifier resource db c s"
  using assms
  by (auto simp: oauth_working_def exchange_check_def redeemable_def burn_code_def find_oauth2_provider_app_code_by_prefix_def
      list_oauth2_provider_app_secrets_def oauth_query_def pkce_ok [symmetric] validate_resource_result
      split: option.splits sum.splits if_splits)

lemma redeemable_code: "oauth_working X \<Longrightarrow> redeemable X raw client secret verifier resource db c s \<Longrightarrow> c \<in> set (od_codes db)"
  by (auto simp: redeemable_def oauth_working_def find_Some_iff dest!: nth_mem)

lemma redeemable_secret:
  assumes "redeemable X raw client secret verifier resource db c s"
  shows "s \<in> set (od_secrets db) \<and> os_app_id s = client \<and> os_hashed_secret s = sha256 X secret"
proof -
  have "find (secret_matches X secret) (app_secrets client db) = Some s" using assms by (simp add: redeemable_def)
  then have "s \<in> set (app_secrets client db)" "secret_matches X secret s" by (auto simp: find_Some_iff)
  then show ?thesis by (simp add: app_secrets_def secret_matches_def)
qed

lemma odt_checked_add_ok: "t + d \<le> MAX_INSTANT \<Longrightarrow> odt_checked_add t d = Some (t + d)"
  by (simp add: odt_checked_add_def)

lemma access_key_accepted:
  assumes "oauth_working X" and "oauth_fresh X db" and "known_user db user"
  shows "create_api_key (ov_auth (ox_env X)) (access_key X user at) (od_auth db) =
    ((od_auth db) \<lparr> ad_keys := ad_keys (od_auth db) @ [key_of_input (access_key X user at)] \<rparr>,
     Ok (key_of_input (access_key X user at)))"
proof -
  have id: "ck_id (access_key X user at) = key_name X" "ck_user_id (access_key X user at) = user"
    "ck_token_name (access_key X user at) = ''oauth2_'' @ key_name X"
    by (simp_all add: access_key_def key_name_def Let_def)
  have "\<not> key_taken (od_auth db) (access_key X user at)"
    using assms(2) by (auto simp: key_taken_def oauth_fresh_def id)
  moreover have "find_key (key_name X)
      ((od_auth db) \<lparr> ad_keys := ad_keys (od_auth db) @ [key_of_input (access_key X user at)] \<rparr>) =
      Some (key_of_input (access_key X user at))"
    using assms(2) by (simp add: find_key_def oauth_fresh_def find_appended key_of_input_def id)
  ultimately show ?thesis
    using assms(1,3) by (simp add: create_api_key_def id known_user_def oauth_working_def find_api_key_by_id_def auth_query_def)
qed

lemma generate_exact:
  assumes "oauth_working X" and "oauth_fresh X db" and "known_user db user" and "find_secret secret_id db \<noteq> None"
  shows "generate_token_pair X secret_id user audience db = (with_pair X secret_id user audience db, Ok (pair_result X))"
proof -
  have t: "odt_checked_add (ov_now (ox_env X)) (minutes 60) = Some (ov_now (ox_env X) + minutes 60)"
    "odt_checked_add (ov_now (ox_env X)) (minutes 43200) = Some (ov_now (ox_env X) + minutes 43200)"
    using assms(2) by (auto simp: oauth_fresh_def minutes_def secs_def intro!: odt_checked_add_ok)
  let ?auth = "(od_auth db) \<lparr> ad_keys := ad_keys (od_auth db) @ [key_of_input (access_key X user (ov_now (ox_env X) + minutes 60))] \<rparr>"
  have "create_oauth2_provider_app_token (ox_env X) (token_input X secret_id user audience (ov_now (ox_env X) + minutes 43200))
      (db \<lparr> od_auth := ?auth \<rparr>) =
      (db \<lparr> od_auth := ?auth, od_tokens := od_tokens db @ [pair_row X secret_id user audience] \<rparr>, Ok (pair_row X secret_id user audience))"
    using assms
    by (auto simp: create_oauth2_provider_app_token_def oauth_stmt_defs token_input_def pair_row_def key_name_def oauth_working_def
        known_user_def find_secret_def oauth_fresh_def token_ids_def list_all_iff Let_def) (metis imageI)
  then show ?thesis
    by (simp add: generate_token_pair_def t access_key_accepted [OF assms(1-3)] with_pair_def pair_result_def Let_def)
qed

section \<open>Refreshing\<close>

definition refreshable :: "oauth_ctx \<Rightarrow> string \<Rightarrow> uuid \<Rightarrow> string \<Rightarrow> string \<Rightarrow> OAuthDb \<Rightarrow> OAuth2ProviderAppTokenRecord \<Rightarrow> bool" where
  "refreshable X refresh client secret resource db t \<longleftrightarrow>
     refresh \<noteq> [] \<and> find (\<lambda>t. ot_refresh_hash t = sha256 X refresh) (ov_scan_tokens (ox_env X) (od_tokens db)) = Some t \<and>
     ov_now (ox_env X) \<le> ot_expires_at t \<and>
     (\<exists>s. find_secret (ot_app_secret_id t) db = Some s \<and> os_app_id s = client) \<and>
     (resource = [] \<or> resource = ot_audience t) \<and> list_ex (secret_matches X secret) (app_secrets client db)"

lemma refresh_check_exact:
  assumes "oauth_working X"
  shows "refresh_check X refresh client secret resource db = (db', Ok t) \<longleftrightarrow>
    db' = db \<and> refreshable X refresh client secret resource db t"
  using assms
  by (auto simp: oauth_working_def refresh_check_def refreshable_def find_oauth2_provider_app_token_by_refresh_hash_def
      find_oauth2_provider_app_secret_by_id_def list_oauth2_provider_app_secrets_def oauth_query_def
      validate_refresh_token_resource_def split: option.splits sum.splits if_splits)

definition without_token :: "OAuth2ProviderAppTokenRecord \<Rightarrow> OAuthDb \<Rightarrow> OAuthDb" where
  "without_token t db =
     db \<lparr> od_tokens := filter (\<lambda>u. ot_id u \<noteq> ot_id t) (od_tokens db),
          od_auth := (od_auth db) \<lparr> ad_keys := filter (\<lambda>k. ak_id k \<noteq> ot_api_key_id t) (ad_keys (od_auth db)) \<rparr> \<rparr>"

lemma refresh_consume_works:
  "oauth_working X \<Longrightarrow> t \<in> set (od_tokens db) \<Longrightarrow> refresh_consume X t db = (without_token t db, Ok ())"
  by (auto simp: refresh_consume_def delete_oauth2_provider_app_token_def oauth_attempt_def drop_api_key_def on_auth_def
      delete_api_key_def auth_attempt_def oauth_working_def without_token_def)

lemma refreshable_token: "oauth_working X \<Longrightarrow> refreshable X refresh client secret resource db t \<Longrightarrow> t \<in> set (od_tokens db)"
  by (auto simp: refreshable_def oauth_working_def find_Some_iff dest!: nth_mem)

definition without_code :: "OAuth2ProviderAppCodeRecord \<Rightarrow> OAuthDb \<Rightarrow> OAuthDb" where
  "without_code c db = db \<lparr> od_codes := filter (\<lambda>d. oc_id d \<noteq> oc_id c) (od_codes db) \<rparr>"

lemma exchange_consume_works:
  "oauth_working X \<Longrightarrow> c \<in> set (od_codes db) \<Longrightarrow> exchange_consume X c db = (without_code c db, Ok ())"
  by (auto simp: exchange_consume_def delete_oauth2_provider_app_code_def oauth_attempt_def oauth_working_def without_code_def)

lemma find_secret_listed: "s \<in> set (od_secrets db) \<Longrightarrow> find_secret (os_id s) db \<noteq> None"
  by (auto simp: find_secret_def find_None_iff)

lemma fresh_after_code: "oauth_fresh X db \<Longrightarrow> oauth_fresh X (without_code c db)"
  by (simp add: oauth_fresh_def without_code_def token_ids_def)

lemma fresh_after_token: "oauth_fresh X db \<Longrightarrow> oauth_fresh X (without_token t db)"
  by (auto simp: oauth_fresh_def without_token_def token_ids_def)

lemma without_simps [simp]:
  "known_user (without_code c db) u = known_user db u" "find_secret i (without_code c db) = find_secret i db"
  "known_user (without_token t db) u = known_user db u" "find_secret i (without_token t db) = find_secret i db"
  "app_secrets i (without_token t db) = app_secrets i db" "od_secrets (without_token t db) = od_secrets db"
  by (simp_all add: without_code_def without_token_def known_user_def find_secret_def app_secrets_def)

lemma refresh_result:
  assumes "oauth_working X" and "oauth_fresh X db" and "\<forall>t \<in> set (od_tokens db). known_user db (ot_user_id t)"
  shows "refresh_token X refresh client secret resource db = (db', Ok tr) \<longleftrightarrow>
    (\<exists>t. refreshable X refresh client secret resource db t \<and> tr = pair_result X \<and>
      db' = with_pair X (ot_app_secret_id t) (ot_user_id t) (ot_audience t) (without_token t db))"
proof -
  let ?f = "\<lambda>t. without_token t db"
  let ?h = "\<lambda>t. with_pair X (ot_app_secret_id t) (ot_user_id t) (ot_audience t) (?f t)"
  have parts: "refresh_consume X t db = (?f t, Inr ()) \<and> tokens_for_refresh X t (?f t) = (?h t, Inr (pair_result X))"
    if t: "refreshable X refresh client secret resource db t" for t
  proof -
    have m: "t \<in> set (od_tokens db)" by (rule refreshable_token [OF assms(1) t])
    have "find_secret (ot_app_secret_id t) (?f t) \<noteq> None" using t by (auto simp: refreshable_def)
    moreover have "known_user (?f t) (ot_user_id t)" using assms(3) m by simp
    ultimately show ?thesis
      using generate_exact [OF assms(1) fresh_after_token [OF assms(2)]] refresh_consume_works [OF assms(1) m]
      by (simp add: tokens_for_refresh_def)
  qed
  have checked: "check_refresh (X, refresh, client, secret, resource) db = (d, Inr t) \<longleftrightarrow>
      d = db \<and> refreshable X refresh client secret resource db t" for d t
    using refresh_check_exact [OF assms(1)] by (simp add: check_refresh_def)
  have "refresh_token X refresh client secret resource db = (db', Ok tr) \<longleftrightarrow>
      (\<exists>t. refreshable X refresh client secret resource db t \<and> db' = ?h t \<and> tr = pair_result X)"
    unfolding refresh_in_sequence by (rule in_sequence_exact [where f = ?f]) (rule checked, rule parts)
  then show ?thesis by blast
qed

lemma with_pair_simps [simp]:
  "od_tokens (with_pair X i u a db) = od_tokens db @ [pair_row X i u a]"
  "od_secrets (with_pair X i u a db) = od_secrets db" "find_secret j (with_pair X i u a db) = find_secret j db"
  "app_secrets j (with_pair X i u a db) = app_secrets j db" "od_codes (with_pair X i u a db) = od_codes db"
  by (simp_all add: with_pair_def find_secret_def app_secrets_def)

lemma pair_row_simps [simp]:
  "ot_refresh_hash (pair_row X i u a) = sha256 X (tr_refresh_token (pair_result X))" "ot_app_secret_id (pair_row X i u a) = i"
  "ot_expires_at (pair_row X i u a) = ov_now (ox_env X) + minutes (60 * 24 * 30)"
  by (simp_all add: pair_row_def pair_result_def)

lemma unknown_refresh_refused:
  assumes "oauth_working Y" and "refresh \<noteq> []" and "sha256 Y refresh \<notin> ot_refresh_hash ` set (od_tokens db)"
  shows "refresh_token Y refresh client secret resource db = (db, Err (ProviderUnauthorized ''Invalid refresh token.''))"
proof -
  have scan: "set (ov_scan_tokens (ox_env Y) (od_tokens db)) = set (od_tokens db)" using assms(1) by (simp add: oauth_working_def)
  have "find (\<lambda>t. ot_refresh_hash t = sha256 Y refresh) (ov_scan_tokens (ox_env Y) (od_tokens db)) = None"
    using assms(3) scan by (metis (mono_tags, lifting) find_None_iff image_eqI)
  then show ?thesis
    using assms(1,2) by (simp add: refresh_token_def refresh_check_def find_oauth2_provider_app_token_by_refresh_hash_def
        oauth_query_def oauth_working_def)
qed

lemma unique_refresh_found:
  assumes "oauth_working Y" and "t \<in> set (od_tokens db)" and "\<And>u. u \<in> set (od_tokens db) \<Longrightarrow> ot_refresh_hash u = h \<longleftrightarrow> u = t"
  shows "find (\<lambda>t. ot_refresh_hash t = h) (ov_scan_tokens (ox_env Y) (od_tokens db)) = Some t"
proof -
  have s: "set (ov_scan_tokens (ox_env Y) (od_tokens db)) = set (od_tokens db)" using assms(1) by (simp add: oauth_working_def)
  obtain u where u: "find (\<lambda>t. ot_refresh_hash t = h) (ov_scan_tokens (ox_env Y) (od_tokens db)) = Some u"
    using assms(2,3) s by (metis (mono_tags, lifting) find_None_iff not_None_eq)
  then have "u \<in> set (od_tokens db)" "ot_refresh_hash u = h" using s by (auto simp: find_Some_iff)
  with assms(3) u show ?thesis by simp
qed

lemma refreshed_hashes:
  assumes "inj_on ot_refresh_hash (set (od_tokens db))" and "sha256 X (tr_refresh_token (pair_result X)) \<notin> ot_refresh_hash ` set (od_tokens db)"
    and "t \<in> set (od_tokens db)"
  shows "ot_refresh_hash t \<notin> ot_refresh_hash ` set (od_tokens (with_pair X i u a (without_token t db)))"
    and "v \<in> set (od_tokens (with_pair X i u a (without_token t db))) \<Longrightarrow>
      ot_refresh_hash v = sha256 X (tr_refresh_token (pair_result X)) \<longleftrightarrow> v = pair_row X i u a"
proof -
  show "ot_refresh_hash t \<notin> ot_refresh_hash ` set (od_tokens (with_pair X i u a (without_token t db)))"
    using assms by (auto simp: without_token_def dest: inj_onD) (metis imageI)
  show "v \<in> set (od_tokens (with_pair X i u a (without_token t db))) \<Longrightarrow>
      ot_refresh_hash v = sha256 X (tr_refresh_token (pair_result X)) \<longleftrightarrow> v = pair_row X i u a"
    using assms(2) by (auto simp: without_token_def) (metis imageI)
qed

lemma refreshed_keys:
  assumes "oauth_fresh X db" and "k \<in> set (ad_keys (od_auth db))" and "ak_id k = ot_api_key_id t"
  shows "k \<notin> set (ad_keys (od_auth (with_pair X i u a (without_token t db))))"
proof -
  have "ak_id (key_of_input (access_key X u at)) = key_name X" for at by (simp add: key_of_input_def access_key_def key_name_def Let_def)
  moreover have "ak_id k \<noteq> key_name X" using assms(1,2) by (simp add: oauth_fresh_def)
  ultimately show ?thesis using assms(3) by (auto simp: with_pair_def without_token_def)
qed

section \<open>Revoking\<close>

lemma drop_api_key_works:
  "oauth_working X \<Longrightarrow> drop_api_key X key_id db =
     db \<lparr> od_auth := (od_auth db) \<lparr> ad_keys := filter (\<lambda>k. ak_id k \<noteq> key_id) (ad_keys (od_auth db)) \<rparr> \<rparr>"
  by (simp add: drop_api_key_def on_auth_def delete_api_key_def auth_attempt_def oauth_working_def)

lemma drop_keys_fold:
  "oauth_working X \<Longrightarrow> fold (\<lambda>t. drop_api_key X (ot_api_key_id t)) ts db =
     db \<lparr> od_auth := (od_auth db) \<lparr> ad_keys := filter (\<lambda>k. ak_id k \<notin> ot_api_key_id ` set ts) (ad_keys (od_auth db)) \<rparr> \<rparr>"
  by (induction ts arbitrary: db) (simp_all add: drop_api_key_works)

text \<open>Deleting an application leaves the API keys behind its access tokens in place.\<close>

lemma delete_app_keeps_keys: "od_auth (fst (delete_app X app_id db)) = od_auth db"
  by (cases "ov_fault (ox_env X) DeleteApp")
    (auto simp: delete_app_def delete_oauth2_provider_app_def oauth_attempt_def split: bool.splits)

text \<open>Registering a client without a user never works: the column for the creator cannot be null.\<close>

lemma dynamic_registration_fails:
  "\<not> is_ok (snd (create_app_dynamic X name icon callback_url db)) \<and> fst (create_app_dynamic X name icon callback_url db) = db"
  by (cases "ov_fault (ox_env X) CreateApp")
    (auto simp: create_app_dynamic_def create_app_with_first_party_def provide_def from_storage_def
      create_oauth2_provider_app_def app_accepted_def oauth_stmt_defs split: sum.splits)

section \<open>An example\<close>

definition grant_user :: AuthUserRow where
  "grant_user = \<lparr> uc_id = 5, uc_email = ''a@b.c'', uc_username = ''ann'', uc_name = ''Ann'', uc_avatar_url = [], uc_created_at = 0,
     uc_updated_at = 0, uc_last_seen_at = None, uc_hashed_password = [], uc_hashed_one_time_passcode = [],
     uc_one_time_passcode_expires_at = None, uc_rbac_roles = [], uc_login_type = Password, uc_status = Active,
     uc_deleted = False, uc_is_system = False \<rparr>"

definition grant_ctx :: oauth_ctx where
  "grant_ctx = \<lparr> ox_env = \<lparr> ov_auth = \<lparr> av_fault = (\<lambda>_. None), av_reject = InvalidData ''constraint'', av_now = 0,
       av_codec = hyphenated_codec, av_order = (\<lambda>x. x) \<rparr>, ov_fault = (\<lambda>_. None), ov_id = 9, ov_app_order = (\<lambda>x. x),
       ov_scan_codes = (\<lambda>x. x), ov_scan_tokens = (\<lambda>x. x) \<rparr>,
     ox_pw = demo_pw, ox_url64 = hex_text, ox_raw = [1, 2, 3, 4, 5], ox_session = [7], ox_key_id = 8 \<rparr>"

definition grant_app :: "bool \<Rightarrow> OAuth2ProviderAppRecord" where
  "grant_app first_party = \<lparr> op_id = 1, op_created_at = 0, op_updated_at = 0, op_name = ''app'', op_icon = [], op_callback_url = ''cb'',
     op_redirect_uris = [], op_created_by = Some 5, op_registration_access_token = None, op_first_party = first_party \<rparr>"

definition grant_secret :: OAuth2ProviderAppSecretRecord where
  "grant_secret = \<lparr> os_id = 2, os_created_at = 0, os_last_used_at = None, os_secret_prefix = ''s3'', os_hashed_secret = sha256 grant_ctx ''s3'',
     os_display_secret = [], os_app_id = 1 \<rparr>"

definition grant_code :: OAuth2ProviderAppCodeRecord where
  "grant_code = \<lparr> oc_id = 3, oc_created_at = 0, oc_expires_at = 1, oc_secret_prefix = ''code'', oc_hashed_secret = sha256 grant_ctx ''code'',
     oc_app_id = 1, oc_user_id = 5, oc_resource_uri = [], oc_code_challenge = [], oc_code_challenge_method = [],
     oc_state_hash = None, oc_redirect_uri = None \<rparr>"

definition grant_db :: "bool \<Rightarrow> OAuthDb" where
  "grant_db first_party = \<lparr> od_auth = \<lparr> ad_users = [grant_user], ad_members = [], ad_organizations = [], ad_sessions = [], ad_keys = [] \<rparr>,
     od_apps = [grant_app first_party], od_secrets = [grant_secret], od_codes = [grant_code], od_tokens = [],
     od_approvals = [], od_consents = [] \<rparr>"

lemma grant_working: "oauth_working grant_ctx"
  by (simp add: oauth_working_def grant_ctx_def)

lemma grant_fresh: "oauth_fresh grant_ctx (grant_db b)"
  by (simp add: oauth_fresh_def grant_db_def grant_ctx_def token_ids_def minutes_def secs_def MAX_INSTANT_def)

lemma grant_known: "\<forall>c \<in> set (od_codes (grant_db b)). known_user (grant_db b) (oc_user_id c)"
  by (simp add: grant_db_def known_user_def grant_code_def grant_user_def)

lemma grant_redeemable: "redeemable grant_ctx ''code'' 1 ''s3'' [] [] (grant_db b) grant_code grant_secret"
  by (simp add: redeemable_def grant_db_def grant_ctx_def grant_code_def grant_secret_def sha256_def app_secrets_def
      secret_matches_def)

lemma grant_code_simps [simp]:
  "oc_id grant_code = 3" "oc_user_id grant_code = 5" "oc_resource_uri grant_code = []" "os_id grant_secret = 2"
  by (simp_all add: grant_code_def grant_secret_def)

lemma grant_run:
  "\<exists>\<sigma>. reachable (grant_init code_ids) (grant_step code_ids (\<lambda>g. oc_id (fst g)) check_code consume_code tokens_for_code) \<sigma> \<and>
     gs_issued \<sigma> = [(3, pair_result grant_ctx)]"
proof -
  let ?g = "(grant_code, grant_secret)" and ?db = "grant_db True"
  let ?d1 = "without_code grant_code ?db"
  have 1: "check_code (grant_ctx, ''code'', 1, ''s3'', [], []) ?db = (?db, Inr ?g)"
    using check_exact [OF grant_working] grant_redeemable by (simp add: check_code_def)
  have m: "grant_code \<in> set (od_codes ?db)" "grant_secret \<in> set (od_secrets ?db)" by (simp_all add: grant_db_def)
  have 2: "consume_code grant_ctx ?g ?db = (?d1, Inr ())" by (simp add: consume_code_def exchange_consume_works [OF grant_working m(1)])
  have "known_user ?d1 5" "find_secret 2 ?d1 \<noteq> None"
    using bspec [OF grant_known m(1)] find_secret_listed [OF m(2)] by simp_all
  then have 3: "tokens_for_code grant_ctx ?g ?d1 = (with_pair grant_ctx 2 5 [] ?d1, Inr (pair_result grant_ctx))"
    using generate_exact [OF grant_working fresh_after_code [OF grant_fresh]] by (simp add: tokens_for_code_def)
  from codes.undisturbed_run [OF 1 2 3] show ?thesis by (auto simp: code_ids_def with_pair_def)
qed

definition grant_token :: OAuth2ProviderAppTokenRecord where
  "grant_token = \<lparr> ot_id = 4, ot_created_at = 0, ot_expires_at = 1, ot_hash_prefix = [], ot_refresh_hash = sha256 grant_ctx ''ref'',
     ot_app_secret_id = 2, ot_api_key_id = ''k'', ot_audience = [], ot_user_id = 5 \<rparr>"

definition grant_issued :: OAuthDb where
  "grant_issued = (grant_db True) \<lparr> od_tokens := [grant_token] \<rparr>"

lemma grant_issued_ok:
  "oauth_fresh grant_ctx grant_issued" "\<forall>t \<in> set (od_tokens grant_issued). known_user grant_issued (ot_user_id t)"
  "inj_on ot_refresh_hash (set (od_tokens grant_issued))" "refreshable grant_ctx ''ref'' 1 ''s3'' [] grant_issued grant_token"
  by (simp_all add: grant_issued_def grant_token_def oauth_fresh_def grant_db_def grant_ctx_def token_ids_def minutes_def secs_def
      MAX_INSTANT_def known_user_def grant_user_def refreshable_def find_secret_def grant_secret_def sha256_def app_secrets_def
      secret_matches_def)

lemma grant_hash_new: "sha256 grant_ctx (tr_refresh_token (pair_result grant_ctx)) \<notin> ot_refresh_hash ` set (od_tokens grant_issued)"
  by (simp add: grant_issued_def grant_token_def pair_result_def grant_ctx_def sha256_def demo_pw_def hex_text_def hex_digits_2)

lemma grant_refresh_text: "tr_refresh_token (pair_result grant_ctx) \<noteq> []"
  by (simp add: pair_result_def grant_ctx_def hex_text_def hex_digits_2)

section \<open>Properties\<close>

text \<open>
  C13. With working statements and unused identifiers, an exchange succeeds exactly for a code whose text, client, verifier and
  resource are right and that has not expired, by a client that knows one of the application's secrets. It then deletes the
  code, adds one API key and one token row for the user who authorized it, and changes nothing else.
\<close>

theorem exchange_exact:
  assumes "oauth_working X" and "oauth_fresh X db" and "\<forall>c \<in> set (od_codes db). known_user db (oc_user_id c)"
  shows "exchange_code X raw client secret verifier resource db = (db', Ok tr) \<longleftrightarrow>
    (\<exists>c s. redeemable X raw client secret verifier resource db c s \<and> tr = pair_result X \<and>
      db' = with_pair X (os_id s) (oc_user_id c) resource (without_code c db))"
proof -
  let ?P = "\<lambda>(c, s). redeemable X raw client secret verifier resource db c s" and ?f = "\<lambda>g. without_code (fst g) db"
  have parts: "consume_code X g db = (?f g, Inr ()) \<and> tokens_for_code X g (?f g) =
      (with_pair X (os_id (snd g)) (oc_user_id (fst g)) resource (?f g), Inr (pair_result X))" if g: "?P g" for g
  proof -
    obtain c s where cs: "g = (c, s)" "redeemable X raw client secret verifier resource db c s" using g by (cases g) simp
    have m: "c \<in> set (od_codes db)" by (rule redeemable_code [OF assms(1) cs(2)])
    have "find_secret (os_id s) (?f g) \<noteq> None" using find_secret_listed redeemable_secret [OF cs(2)] by simp
    moreover have "known_user (?f g) (oc_user_id c)" using assms(3) m by simp
    moreover have "oc_resource_uri c = resource" using cs(2) by (simp add: redeemable_def)
    ultimately show ?thesis
      using generate_exact [OF assms(1) fresh_after_code [OF assms(2)]] exchange_consume_works [OF assms(1) m] cs(1)
      by (simp add: tokens_for_code_def consume_code_def)
  qed
  have checked: "check_code (X, raw, client, secret, verifier, resource) db = (d, Inr g) \<longleftrightarrow> d = db \<and> ?P g" for d g
    using check_exact [OF assms(1)] by (cases g) (simp add: check_code_def)
  have "exchange_code X raw client secret verifier resource db = (db', Ok tr) \<longleftrightarrow>
      (\<exists>g. ?P g \<and> db' = with_pair X (os_id (snd g)) (oc_user_id (fst g)) resource (?f g) \<and> tr = pair_result X)"
    unfolding exchange_in_sequence by (rule in_sequence_exact [where f = ?f]) (rule checked, rule parts)
  then show ?thesis by (auto simp only: split_paired_Ex prod.case fst_conv snd_conv)
qed

theorem exchange_exact_witness:
  "exchange_code grant_ctx ''code'' 1 ''s3'' [] [] (grant_db True) =
     (with_pair grant_ctx 2 5 [] (without_code grant_code (grant_db True)), Ok (pair_result grant_ctx))"
  using exchange_exact [OF grant_working grant_fresh grant_known, of "''code''" 1 "''s3''" "[]" "[]"] grant_redeemable
    grant_code_simps by metis

text \<open>
  C12. A code is used once. However exchanges interleave between checking the code, deleting it and making the tokens, and
  whatever else happens to the database as long as new codes get new identifiers, no two token pairs were handed out for the
  same code, and a code for which one was cannot be consumed again. An exchange is these three parts in sequence.
\<close>

theorem code_redeemed_once:
  assumes "reachable (grant_init code_ids) (grant_step code_ids (\<lambda>g. oc_id (fst g)) check_code consume_code tokens_for_code) \<sigma>"
  shows "distinct (map fst (gs_issued \<sigma>)) \<and>
    ((oc_id (fst g), tr) \<in> set (gs_issued \<sigma>) \<longrightarrow> \<not> is_ok (snd (consume_code Y g (gs_db \<sigma>)))) \<and>
    exchange_code X raw client secret verifier resource db =
      in_sequence check_code consume_code tokens_for_code (X, raw, client, secret, verifier, resource) X db"
  using codes.issued_once [OF assms] codes.issued_not_redeemable [OF assms] exchange_in_sequence by blast

theorem code_redeemed_once_witness:
  "\<exists>\<sigma> :: (OAuthDb, OAuth2ProviderAppCodeRecord \<times> OAuth2ProviderAppSecretRecord, OAuth2TokenResult) grant_sys.
     map fst (gs_issued \<sigma>) = [3] \<and> \<not> is_ok (snd (consume_code grant_ctx (grant_code, grant_secret) (gs_db \<sigma>)))"
proof -
  obtain \<sigma> where s: "reachable (grant_init code_ids) (grant_step code_ids (\<lambda>g. oc_id (fst g)) check_code consume_code tokens_for_code) \<sigma>"
    "gs_issued \<sigma> = [(3, pair_result grant_ctx)]" using grant_run by blast
  from code_redeemed_once [OF s(1), of "(grant_code, grant_secret)" "pair_result grant_ctx" grant_ctx] s(2) show ?thesis
    by (intro exI [of _ \<sigma>]) simp
qed

text \<open>
  C14. Refreshing rotates: the presented refresh token is refused from then on, whoever presents it, the API key behind the old
  access token is gone, and the new refresh token can be used by the same client until it expires.
\<close>

theorem refresh_rotates:
  assumes "oauth_working X" and "oauth_fresh X db" and "\<forall>t \<in> set (od_tokens db). known_user db (ot_user_id t)"
    and "inj_on ot_refresh_hash (set (od_tokens db))"
    and "sha256 X (tr_refresh_token (pair_result X)) \<notin> ot_refresh_hash ` set (od_tokens db)"
    and "refresh_token X refresh client secret resource db = (db', Ok tr)"
    and "oauth_working Y" and "ox_pw Y = ox_pw X" and "ov_now (ox_env Y) \<le> ov_now (ox_env X) + minutes (60 * 24 * 30)"
    and "tr_refresh_token tr \<noteq> []"
  shows "refresh_token Y refresh client' secret' resource' db' = (db', Err (ProviderUnauthorized ''Invalid refresh token.'')) \<and>
    (\<exists>t. t \<in> set (od_tokens db) \<and> ot_refresh_hash t = sha256 X refresh \<and>
       (\<forall>k. k \<in> set (ad_keys (od_auth db)) \<and> ak_id k = ot_api_key_id t \<longrightarrow> k \<notin> set (ad_keys (od_auth db')))) \<and>
    (\<exists>t. refreshable Y (tr_refresh_token tr) client secret [] db' t)"
proof -
  have Y: "sha256 Y = sha256 X" "secret_matches Y = secret_matches X" using assms(8) by (simp_all add: sha256_def secret_matches_def fun_eq_iff)
  obtain t where t: "refreshable X refresh client secret resource db t" and tr: "tr = pair_result X"
    and db': "db' = with_pair X (ot_app_secret_id t) (ot_user_id t) (ot_audience t) (without_token t db)"
    using refresh_result [OF assms(1-3)] assms(6) by blast
  let ?r = "pair_row X (ot_app_secret_id t) (ot_user_id t) (ot_audience t)"
  have m: "t \<in> set (od_tokens db)" by (rule refreshable_token [OF assms(1) t])
  have h: "ot_refresh_hash t = sha256 X refresh" "refresh \<noteq> []" using t by (auto simp: refreshable_def find_Some_iff)
  note hashes = refreshed_hashes [OF assms(4,5) m]
  have old: "refresh_token Y refresh client' secret' resource' db' = (db', Err (ProviderUnauthorized ''Invalid refresh token.''))"
    using unknown_refresh_refused [OF assms(7) h(2)] hashes(1) unfolding db' Y h(1) [symmetric] by blast
  have gone: "k \<notin> set (ad_keys (od_auth db'))" if "k \<in> set (ad_keys (od_auth db)) \<and> ak_id k = ot_api_key_id t" for k
    unfolding db' using refreshed_keys [OF assms(2)] that by blast
  have "find (\<lambda>t. ot_refresh_hash t = sha256 Y (tr_refresh_token tr)) (ov_scan_tokens (ox_env Y) (od_tokens db')) = Some ?r"
    unfolding Y db' tr by (rule unique_refresh_found [OF assms(7) _ hashes(2)]) simp_all
  then have new: "refreshable Y (tr_refresh_token tr) client secret [] db' ?r"
    using t assms(9,10) Y unfolding refreshable_def by (simp add: db')
  show ?thesis using old gone new m h(1) by blast
qed

theorem refresh_rotates_witness:
  "\<exists>db'. refresh_token grant_ctx ''ref'' 1 ''s3'' [] grant_issued = (db', Ok (pair_result grant_ctx)) \<and>
     refresh_token grant_ctx ''ref'' 1 ''s3'' [] db' = (db', Err (ProviderUnauthorized ''Invalid refresh token.''))"
proof -
  obtain db' where db': "refresh_token grant_ctx ''ref'' 1 ''s3'' [] grant_issued = (db', Ok (pair_result grant_ctx))"
    using refresh_result [OF grant_working grant_issued_ok(1,2)] grant_issued_ok(4) by blast
  have "ov_now (ox_env grant_ctx) \<le> ov_now (ox_env grant_ctx) + minutes (60 * 24 * 30)" by (simp add: minutes_def secs_def)
  from refresh_rotates [OF grant_working grant_issued_ok(1-3) grant_hash_new db' grant_working refl this grant_refresh_text]
  show ?thesis using db' by blast
qed

text \<open>
  Revoking the authorization of an application removes exactly the user's tokens for it and the API keys behind them, and
  reports how many tokens there were.
\<close>

theorem revoke_exact:
  assumes "oauth_working X"
  shows "revoke_tokens X app_id user_id db =
    (db \<lparr> od_tokens := filter (\<lambda>t. \<not> of_app_and_user app_id user_id db t) (od_tokens db),
          od_auth := (od_auth db) \<lparr> ad_keys := filter (\<lambda>k. ak_id k \<notin>
            ot_api_key_id ` {t \<in> set (od_tokens db). of_app_and_user app_id user_id db t}) (ad_keys (od_auth db)) \<rparr> \<rparr>,
     Ok (length (filter (of_app_and_user app_id user_id db) (od_tokens db))))"
proof -
  have scan: "set (ov_scan_tokens (ox_env X) (od_tokens db)) = set (od_tokens db)"
    and ok: "ov_fault (ox_env X) ListTokensByAppAndUser = None" "ov_fault (ox_env X) DeleteTokensByAppAndUser = None"
    using assms by (simp_all add: oauth_working_def)
  have "set (filter (of_app_and_user app_id user_id db) (ov_scan_tokens (ox_env X) (od_tokens db))) =
      {t \<in> set (od_tokens db). of_app_and_user app_id user_id db t}" by (simp add: scan)
  then show ?thesis
    by (simp add: revoke_tokens_def list_oauth2_provider_app_tokens_by_app_and_user_def ok oauth_query_def oauth_attempt_def
        delete_oauth2_provider_app_tokens_by_app_and_user_def drop_keys_fold [OF assms])
qed

theorem revoke_exact_witness: "od_tokens (fst (revoke_tokens grant_ctx 1 5 grant_issued)) = []"
proof -
  have "of_app_and_user 1 5 grant_issued grant_token"
    by (simp add: grant_issued_def grant_token_def of_app_and_user_def secrets_of_def grant_db_def) (simp add: image_def grant_secret_def)
  then show ?thesis using revoke_exact [OF grant_working, of 1 5 grant_issued] by (simp add: grant_issued_def)
qed

end
