(* ===== verification/OAuth2_Consent.thy ===== *)
theory OAuth2_Consent
  imports OAuth2_Grants
begin

text \<open>
  What the consent page of \<open>crates/coder-server/src/handlers/oauth2.rs\<close> is worth: an approval leads to a code for exactly
  what the user was asked, once; but one of the two authorization endpoints never asks.
\<close>

section \<open>Issuing codes\<close>

text \<open>The row of a code that an application got for a user under the given parameters.\<close>

definition code_for :: "oauth_ctx \<Rightarrow> uuid \<Rightarrow> uuid \<Rightarrow> string \<Rightarrow> string \<Rightarrow> string \<Rightarrow> OAuth2ProviderAppCodeRecord" where
  "code_for X app_id user_id resource challenge challenge_method =
     \<lparr> oc_id = ov_id (ox_env X), oc_created_at = ov_now (ox_env X), oc_expires_at = ov_now (ox_env X) + minutes 10,
        oc_secret_prefix = take 8 (ox_url64 X (ox_raw X)), oc_hashed_secret = sha256 X (ox_url64 X (ox_raw X)),
        oc_app_id = app_id, oc_user_id = user_id, oc_resource_uri = resource, oc_code_challenge = challenge,
        oc_code_challenge_method = challenge_method, oc_state_hash = None, oc_redirect_uri = None \<rparr>"

lemma create_code_cases:
  "(\<exists>e. create_authorization_code X a u r ch m db = (db, Inl e)) \<or>
   create_authorization_code X a u r ch m db = (db \<lparr> od_codes := od_codes db @ [code_for X a u r ch m] \<rparr>, Inr (ox_url64 X (ox_raw X)))"
  by (cases "ov_fault (ox_env X) CreateCode")
    (auto simp: create_authorization_code_def odt_checked_add_def create_oauth2_provider_app_code_def oauth_stmt_defs code_for_def
      Let_def split: sum.splits option.splits)

lemma create_code_works:
  assumes "oauth_working X" and "find_app a db \<noteq> None" and "known_user db u" and "ov_id (ox_env X) \<notin> code_ids db"
    and "ov_now (ox_env X) + minutes 10 \<le> MAX_INSTANT" and "validate_pkce_method ch m = Ok ()"
  shows "create_authorization_code X a u r ch m db =
    (db \<lparr> od_codes := od_codes db @ [code_for X a u r ch m] \<rparr>, Ok (ox_url64 X (ox_raw X)))"
proof -
  obtain app where "find_app a db = Some app" using assms(2) by blast
  moreover have "list_all (\<lambda>c. oc_id c \<noteq> ov_id (ox_env X)) (od_codes db)"
    using assms(4) by (auto simp: list_all_iff code_ids_def) (metis imageI)
  ultimately show ?thesis
    using assms(1,3,5,6)
    by (simp add: create_authorization_code_def get_app_def find_oauth2_provider_app_by_id_def oauth_working_def oauth_stmt_defs
        odt_checked_add_def create_oauth2_provider_app_code_def code_for_def Let_def)
qed

lemma issue_code_cases:
  "(\<exists>e. issue_code V a u r ch m reply db = (db, OAuthFails e)) \<or>
   issue_code V a u r ch m reply db =
     (db \<lparr> od_codes := od_codes db @ [code_for (ow_ctx V) a u r ch m] \<rparr>, reply (ox_url64 (ow_ctx V) (ox_raw (ow_ctx V))))"
  using create_code_cases [of "ow_ctx V" a u r ch m db] by (auto simp: issue_code_def)

section \<open>The consent form\<close>

lemma approval_cases:
  "(\<exists>e. insert_oauth2_provider_app_user_approval E a u sc db = (db, Inl e)) \<or>
   (\<exists>ps. insert_oauth2_provider_app_user_approval E a u sc db = (db \<lparr> od_approvals := ps \<rparr>, Inr ()))"
  by (cases "ov_fault E InsertApproval") (auto simp: insert_oauth2_provider_app_user_approval_def oauth_stmt_defs)

lemma consented_code:
  assumes "consented V user form pending db = (db', OAuthRedirect st url ((''code'', raw) # rest))"
  shows "pc_user_id pending = au_id user \<and> cf_decision form = ''approve'' \<and> od_consents db' = od_consents db \<and>
    raw = ox_url64 (ow_ctx V) (ox_raw (ow_ctx V)) \<and>
    od_codes db' = od_codes db @ [code_for (ow_ctx V) (pc_app_id pending) (au_id user) (pc_resource pending)
      (pc_code_challenge pending) (pc_code_challenge_method pending)]"
proof -
  obtain app u where app: "get_app (ow_ctx V) (pc_app_id pending) db = Inr app" "ow_parse_url V (op_callback_url app) = Some u"
    and who: "pc_user_id pending = au_id user" "cf_decision form = ''approve''"
    using assms by (auto simp: consented_def split: if_splits sum.splits option.splits)
  obtain ps where ps: "insert_oauth2_provider_app_user_approval (ox_env (ow_ctx V)) (pc_app_id pending) (au_id user) [] db =
      (db \<lparr> od_approvals := ps \<rparr>, Inr ())"
    using assms approval_cases [of "ox_env (ow_ctx V)" "pc_app_id pending" "au_id user" "[]" db]
    by (auto simp: consented_def app who)
  let ?reply = "\<lambda>raw. OAuthRedirect 303 u ((''code'', raw) # state_pair (pc_state pending))"
  have "issue_code V (pc_app_id pending) (au_id user) (pc_resource pending) (pc_code_challenge pending)
      (pc_code_challenge_method pending) ?reply (db \<lparr> od_approvals := ps \<rparr>) = (db', OAuthRedirect st url ((''code'', raw) # rest))"
    using assms by (simp add: consented_def app who ps)
  with issue_code_cases [of V "pc_app_id pending" "au_id user" "pc_resource pending" "pc_code_challenge pending"
      "pc_code_challenge_method pending" ?reply "db \<lparr> od_approvals := ps \<rparr>"] who
  show ?thesis by auto
qed

lemma taken_consent:
  "(\<exists>e. take_oauth2_pending_consent E nonce db = (db, Inl e)) \<or>
   take_oauth2_pending_consent E nonce db = (db \<lparr> od_consents := filter (\<lambda>p. fst p \<noteq> nonce) (od_consents db) \<rparr>,
     Inr (case map_of (od_consents db) nonce of
            Some (c, expires_at) \<Rightarrow> if ov_now E < expires_at then Some c else None | None \<Rightarrow> None))"
  by (cases "ov_fault E TakeConsent") (simp_all add: take_oauth2_pending_consent_def oauth_attempt_def)

section \<open>An example\<close>

definition consent_web :: oauth_web where
  "consent_web = \<lparr> ow_ctx = grant_ctx, ow_parse_url = Some, ow_basic = (\<lambda>_. None), ow_nonce = 6 \<rparr>"

definition consent_user :: AuthenticatedUser where
  "consent_user = authenticated_from (user_record_from_row (od_auth (grant_db False)) grant_user)"

definition consent_request :: OAuth2AuthorizeRequest where
  "consent_request = \<lparr> qa_response_type = ''code'', qa_client_id = to_string hyphenated_codec 1, qa_redirect_uri = [], qa_state = ''st'',
     qa_scope = [], qa_code_challenge = [], qa_code_challenge_method = [], qa_resource = [] \<rparr>"

definition consent_pending :: OAuth2PendingConsent where
  "consent_pending = \<lparr> pc_app_id = 1, pc_user_id = 5, pc_state = ''st'', pc_resource = [], pc_code_challenge = [],
     pc_code_challenge_method = [] \<rparr>"

definition consent_asked :: OAuthDb where
  "consent_asked = (grant_db False) \<lparr> od_consents := [(6, consent_pending, 1)] \<rparr>"

lemma consent_user_id [simp]: "au_id consent_user = 5"
  by (simp add: consent_user_def authenticated_from_def user_record_from_row_def grant_user_def)

lemma consent_app: "find_app 1 (grant_db b) = Some (grant_app b)" "find_app 1 consent_asked = Some (grant_app False)"
  by (simp_all add: find_app_def grant_db_def grant_app_def consent_asked_def)

lemma consent_known: "known_user (grant_db b) 5" "known_user consent_asked 5"
  by (simp_all add: known_user_def grant_db_def grant_user_def consent_asked_def)

lemma consent_ctx [simp]:
  "ow_ctx consent_web = grant_ctx" "ow_parse_url consent_web = Some" "ow_nonce consent_web = 6"
  "av_codec (ov_auth (ox_env grant_ctx)) = hyphenated_codec" "ox_url64 grant_ctx = hex_text" "ox_raw grant_ctx = [1, 2, 3, 4, 5]"
  "ov_now (ox_env grant_ctx) = 0" "ov_id (ox_env grant_ctx) = 9" "ov_fault (ox_env grant_ctx) call = None"
  by (simp_all add: consent_web_def grant_ctx_def)

lemma consent_request_simps [simp]:
  "qa_response_type consent_request = ''code''" "qa_client_id consent_request = to_string hyphenated_codec 1"
  "qa_state consent_request = ''st''" "validate_pkce_method (qa_code_challenge consent_request) (qa_code_challenge_method consent_request) = Ok ()"
  by (simp_all add: consent_request_def validate_pkce_method_def)

lemma consent_time: "minutes 10 \<le> MAX_INSTANT"
  by (simp add: minutes_def secs_def MAX_INSTANT_def)

lemma consent_app_simps [simp]: "op_callback_url (grant_app b) = ''cb''" "op_first_party (grant_app b) = b"
  by (simp_all add: grant_app_def)

lemma consent_form_accepted:
  "\<exists>db'. post_oauth2_authorize_consent consent_web (Some consent_user)
      \<lparr> cf_nonce = to_string hyphenated_codec 6, cf_decision = ''approve'' \<rparr> consent_asked =
      (db', OAuthRedirect 303 ''cb'' [(''code'', hex_text [1, 2, 3, 4, 5]), (''state'', ''st'')])"
proof -
  let ?db = "consent_asked \<lparr> od_consents := [] \<rparr>"
  have tables: "find_app i (db \<lparr> od_approvals := ps \<rparr>) = find_app i db" "known_user (db \<lparr> od_approvals := ps \<rparr>) u = known_user db u"
    "code_ids (db \<lparr> od_approvals := ps \<rparr>) = code_ids db" for db ps i u
    by (simp_all add: find_app_def known_user_def code_ids_def)
  have db: "find_app 1 ?db = Some (grant_app False)" "known_user ?db 5" "9 \<notin> code_ids ?db"
    using consent_app(2) consent_known(2) by (simp_all add: find_app_def known_user_def code_ids_def consent_asked_def grant_db_def)
  have code: "snd (create_authorization_code grant_ctx 1 5 [] [] [] (?db \<lparr> od_approvals := ps \<rparr>)) = Ok (hex_text [1, 2, 3, 4, 5])" for ps
    using create_code_works [OF grant_working, of 1 "?db \<lparr> od_approvals := ps \<rparr>" 5 "[]" "[]" "[]"] consent_time
    by (simp add: tables db validate_pkce_method_def)
  have "snd (consented consent_web consent_user \<lparr> cf_nonce = to_string hyphenated_codec 6, cf_decision = ''approve'' \<rparr> consent_pending ?db) =
      OAuthRedirect 303 ''cb'' [(''code'', hex_text [1, 2, 3, 4, 5]), (''state'', ''st'')]"
    using code [of "filter (\<lambda>p. fst p \<noteq> (1, 5)) (od_approvals ?db) @ [((1, 5), [])]"]
    by (simp add: consented_def consent_pending_def get_app_def find_oauth2_provider_app_by_id_def oauth_stmt_defs db
        insert_oauth2_provider_app_user_approval_def issue_code_def state_pair_def case_prod_beta)
  then show ?thesis
    by (cases "consented consent_web consent_user \<lparr> cf_nonce = to_string hyphenated_codec 6, cf_decision = ''approve'' \<rparr> consent_pending ?db")
      (simp add: post_oauth2_authorize_consent_def take_oauth2_pending_consent_def oauth_stmt_defs consent_asked_def)
qed

section \<open>Properties\<close>

text \<open>
  C15. A consent form leads to a code only if it is submitted by the user the page was shown to, with the decision to approve,
  before it expires; the code is for the application, the resource and the challenge the page was made for, and the form
  cannot be used again.
\<close>

theorem consent_binds:
  assumes "post_oauth2_authorize_consent V (Some user) form db = (db', OAuthRedirect st url ((''code'', raw) # rest))"
  shows "\<exists>nonce pending expires_at. parse_str (ow_codec V) (cf_nonce form) = Some nonce \<and>
    map_of (od_consents db) nonce = Some (pending, expires_at) \<and> ov_now (ox_env (ow_ctx V)) < expires_at \<and>
    pc_user_id pending = au_id user \<and> cf_decision form = ''approve'' \<and> nonce \<notin> fst ` set (od_consents db') \<and>
    od_codes db' = od_codes db @ [code_for (ow_ctx V) (pc_app_id pending) (au_id user) (pc_resource pending)
      (pc_code_challenge pending) (pc_code_challenge_method pending)]"
proof -
  obtain nonce where n: "parse_str (ow_codec V) (cf_nonce form) = Some nonce"
    using assms by (auto simp: post_oauth2_authorize_consent_def split: option.splits)
  let ?d = "db \<lparr> od_consents := filter (\<lambda>p. fst p \<noteq> nonce) (od_consents db) \<rparr>"
  obtain pending e where p: "map_of (od_consents db) nonce = Some (pending, e)" "ov_now (ox_env (ow_ctx V)) < e"
    and c: "consented V user form pending ?d = (db', OAuthRedirect st url ((''code'', raw) # rest))"
    using assms taken_consent [of "ox_env (ow_ctx V)" nonce db]
    by (auto simp: post_oauth2_authorize_consent_def n split: option.splits if_splits)
  from consented_code [OF c] show ?thesis using n p by (intro exI [of _ nonce] exI [of _ pending] exI [of _ e]) auto
qed

theorem consent_binds_witness:
  "\<exists>db'. post_oauth2_authorize_consent consent_web (Some consent_user)
       \<lparr> cf_nonce = to_string hyphenated_codec 6, cf_decision = ''approve'' \<rparr> consent_asked =
       (db', OAuthRedirect 303 ''cb'' [(''code'', hex_text [1, 2, 3, 4, 5]), (''state'', ''st'')]) \<and> 6 \<notin> fst ` set (od_consents db')"
proof -
  obtain db' where r: "post_oauth2_authorize_consent consent_web (Some consent_user)
      \<lparr> cf_nonce = to_string hyphenated_codec 6, cf_decision = ''approve'' \<rparr> consent_asked =
      (db', OAuthRedirect 303 ''cb'' [(''code'', hex_text [1, 2, 3, 4, 5]), (''state'', ''st'')])"
    using consent_form_accepted by blast
  from consent_binds [OF r] show ?thesis using r by (intro exI [of _ db']) (simp, blast)
qed

text \<open>
  C38. For a third-party application the user has not approved, the \<open>GET\<close> endpoint shows the consent page and issues nothing,
  but the \<open>POST\<close> endpoint for the same request redirects to the application with a new code for the user, without any
  consent or approval.
\<close>

theorem consent_is_bypassed:
  assumes "oauth_working (ow_ctx V)" and "qa_response_type params = ''code''" and "parse_str (ow_codec V) (qa_client_id params) = Some i"
    and "find_app i db = Some app" and "\<not> op_first_party app" and "(i, au_id user) \<notin> fst ` set (od_approvals db)"
    and "ow_parse_url V (op_callback_url app) = Some url" and "known_user db (au_id user)"
    and "ow_nonce V \<notin> fst ` set (od_consents db)" and "ov_id (ox_env (ow_ctx V)) \<notin> code_ids db"
    and "ov_now (ox_env (ow_ctx V)) + minutes 10 \<le> MAX_INSTANT"
    and "validate_pkce_method (qa_code_challenge params) (qa_code_challenge_method params) = Ok ()"
  shows "(\<exists>page. snd (get_oauth2_authorize V (Some user) params db) = OAuthConsent page) \<and>
    od_codes (fst (get_oauth2_authorize V (Some user) params db)) = od_codes db \<and>
    post_oauth2_authorize V (Some user) (Ok params) db =
      (db \<lparr> od_codes := od_codes db @ [code_for (ow_ctx V) i (au_id user) (qa_resource params) (qa_code_challenge params)
              (qa_code_challenge_method params)] \<rparr>,
       OAuthRedirect 303 url [(''code'', ox_url64 (ow_ctx V) (ox_raw (ow_ctx V))), (''state'', qa_state params)])"
proof -
  have ok: "ov_fault (ox_env (ow_ctx V)) call = None" for call using assms(1) by (simp add: oauth_working_def)
  have client: "authorize_client V params db = Ok (i, app, url)"
    using assms(2-4,7) by (simp add: authorize_client_def get_app_def find_oauth2_provider_app_by_id_def oauth_query_def ok)
  have "approved V i app (au_id user) db = Ok False"
    using assms(5,6) by (simp add: approved_def has_oauth2_provider_app_user_approval_def oauth_query_def ok)
  then have "\<exists>page cs. get_oauth2_authorize V (Some user) params db = (db \<lparr> od_consents := cs \<rparr>, OAuthConsent page)"
    using assms(4,8,9) by (simp add: get_oauth2_authorize_def client insert_oauth2_pending_consent_def oauth_stmt_defs ok) blast
  moreover have "post_oauth2_authorize V (Some user) (Ok params) db =
      (db \<lparr> od_codes := od_codes db @ [code_for (ow_ctx V) i (au_id user) (qa_resource params) (qa_code_challenge params)
              (qa_code_challenge_method params)] \<rparr>,
       OAuthRedirect 303 url [(''code'', ox_url64 (ow_ctx V) (ox_raw (ow_ctx V))), (''state'', qa_state params)])"
    using assms(4) by (simp add: post_oauth2_authorize_def client issue_code_def create_code_works [OF assms(1) _ assms(8,10-12)])
  ultimately show ?thesis by auto
qed

theorem consent_is_bypassed_witness:
  "(\<exists>page. snd (get_oauth2_authorize consent_web (Some consent_user) consent_request (grant_db False)) = OAuthConsent page) \<and>
   snd (post_oauth2_authorize consent_web (Some consent_user) (Ok consent_request) (grant_db False)) =
     OAuthRedirect 303 ''cb'' [(''code'', hex_text [1, 2, 3, 4, 5]), (''state'', ''st'')]"
proof -
  have "9 \<notin> code_ids (grant_db False)" "6 \<notin> fst ` set (od_consents (grant_db False))"
    "(1, 5) \<notin> fst ` set (od_approvals (grant_db False))"
    by (simp_all add: code_ids_def grant_db_def)
  then show ?thesis
    using consent_is_bypassed [of consent_web consent_request 1 "grant_db False" "grant_app False" consent_user "''cb''"]
    by (simp add: grant_working consent_app consent_known consent_time)
qed

end
