(* ===== verification/Crypto_Keys.thy ===== *)
theory Crypto_Keys
  imports Prelude Core_Types Rust_Text Provisioner_Store
begin

text \<open>
  The signing keys and their rotation: \<open>crates/coder-server/src/crypto_key_rotator.rs\<close>, the statements of
  \<open>app_store.rs\<close> it runs, and the handler of \<open>workspaceproxies.rs\<close> that hands the keys to workspace proxies and
  mints the first one when there is none.

  Instants and durations are integers in nanoseconds; the column type \<open>TIMESTAMPTZ\<close> keeps microseconds. The range of
  \<open>OffsetDateTime\<close> is not modelled. Every statement may fail, before or after it took effect (\<open>ke_fault\<close>). The step
  relation runs whole sweeps and whole requests one after another, on clocks that do not run backwards; the advisory
  lock keeps two sweeps apart.
\<close>

section \<open>Features and rows\<close>

datatype CryptoKeyFeature = WorkspaceAppsToken | WorkspaceAppsApiKey | OidcConvert | TailnetResume

fun crypto_feature_as_str :: "CryptoKeyFeature \<Rightarrow> string" where
  "crypto_feature_as_str WorkspaceAppsToken = ''workspace_apps_token''"
| "crypto_feature_as_str WorkspaceAppsApiKey = ''workspace_apps_api_key''"
| "crypto_feature_as_str OidcConvert = ''oidc_convert''"
| "crypto_feature_as_str TailnetResume = ''tailnet_resume''"

definition crypto_feature_from_str :: "string \<Rightarrow> (string, CryptoKeyFeature) result" where
  "crypto_feature_from_str s =
     (if s = ''workspace_apps_token'' then Ok WorkspaceAppsToken
      else if s = ''workspace_apps_api_key'' then Ok WorkspaceAppsApiKey
      else if s = ''oidc_convert'' then Ok OidcConvert
      else if s = ''tailnet_resume'' then Ok TailnetResume
      else Err (''unknown crypto key feature: '' @ s))"

text \<open>\<open>Debug\<close> of the enum, and the place of a value in the database's enum type, which orders its values.\<close>

fun crypto_feature_debug :: "CryptoKeyFeature \<Rightarrow> string" where
  "crypto_feature_debug WorkspaceAppsToken = ''WorkspaceAppsToken''"
| "crypto_feature_debug WorkspaceAppsApiKey = ''WorkspaceAppsApiKey''"
| "crypto_feature_debug OidcConvert = ''OidcConvert''"
| "crypto_feature_debug TailnetResume = ''TailnetResume''"

fun crypto_feature_rank :: "CryptoKeyFeature \<Rightarrow> nat" where
  "crypto_feature_rank WorkspaceAppsToken = 0"
| "crypto_feature_rank WorkspaceAppsApiKey = 1"
| "crypto_feature_rank OidcConvert = 2"
| "crypto_feature_rank TailnetResume = 3"

type_synonym instant_ns = int

record CryptoKeyRow =
  cy_feature :: CryptoKeyFeature
  cy_sequence :: int
  cy_secret :: "8 word list"
  cy_starts_at :: instant_ns
  cy_deletes_at :: "instant_ns option"

type_synonym CryptoKeys = "CryptoKeyRow list"

definition seconds_ns :: "nat \<Rightarrow> nat" where
  "seconds_ns n = n * 1000000000"

definition hour_ns :: nat where
  "hour_ns = seconds_ns 3600"

fun token_duration :: "CryptoKeyFeature \<Rightarrow> nat" where
  "token_duration WorkspaceAppsApiKey = seconds_ns 60"
| "token_duration WorkspaceAppsToken = seconds_ns 60"
| "token_duration OidcConvert = seconds_ns (5 * 60)"
| "token_duration TailnetResume = seconds_ns (24 * 60 * 60)"

fun secret_byte_length :: "CryptoKeyFeature \<Rightarrow> nat" where
  "secret_byte_length WorkspaceAppsApiKey = 32"
| "secret_byte_length WorkspaceAppsToken = 64"
| "secret_byte_length OidcConvert = 64"
| "secret_byte_length TailnetResume = 64"

definition MANAGED_FEATURES :: "CryptoKeyFeature list" where
  "MANAGED_FEATURES = [WorkspaceAppsApiKey, WorkspaceAppsToken, OidcConvert, TailnetResume]"

record RotatorOptions =
  ro_interval :: nat
  ro_key_duration :: nat

definition DEFAULT_ROTATION_INTERVAL :: nat where
  "DEFAULT_ROTATION_INTERVAL = seconds_ns (5 * 60)"

definition DEFAULT_KEY_DURATION :: nat where
  "DEFAULT_KEY_DURATION = seconds_ns (30 * 24 * 60 * 60)"

definition default_rotator_options :: RotatorOptions where
  "default_rotator_options =
     \<lparr> ro_interval = DEFAULT_ROTATION_INTERVAL, ro_key_duration = DEFAULT_KEY_DURATION \<rparr>"

section \<open>The table\<close>

text \<open>The statements a sweep or a request runs; a maximum is looked up for the key that is rotated, or for a first key.\<close>

datatype KeyCall =
    TryRotationLock | ReleaseRotationLock | ListAllKeys
  | ListFeatureKeys CryptoKeyFeature
  | MaxSequence CryptoKeyFeature "int option"
  | InsertKey CryptoKeyFeature
  | DeleteKey CryptoKeyFeature int
  | RotateKey CryptoKeyFeature int

text \<open>
  What surrounds a sweep: the failure of a statement with its error and whether its effect was kept, the error of a
  violated primary key, whether the advisory lock is free, and the random bytes.
\<close>

record key_env =
  ke_fault :: "KeyCall \<Rightarrow> (StorageError \<times> bool) option"
  ke_reject :: StorageError
  ke_lock_free :: bool
  ke_random :: "KeyCall \<Rightarrow> nat \<Rightarrow> 8 word"

type_synonym 'a key_stmt = "CryptoKeys \<times> (StorageError, 'a) result"

definition key_attempt :: "key_env \<Rightarrow> KeyCall \<Rightarrow> CryptoKeys \<Rightarrow> 'a key_stmt \<Rightarrow> 'a key_stmt" where
  "key_attempt E call db s =
     (case ke_fault E call of
        Some (e, kept) \<Rightarrow> (if kept then fst s else db, Err e)
      | None \<Rightarrow> s)"

definition key_query :: "key_env \<Rightarrow> KeyCall \<Rightarrow> 'a \<Rightarrow> (StorageError, 'a) result" where
  "key_query E call x = (case ke_fault E call of Some (e, kept) \<Rightarrow> Err e | None \<Rightarrow> Ok x)"

text \<open>A time stamp as the database keeps it, to the microsecond.\<close>

definition pg_instant :: "instant_ns \<Rightarrow> instant_ns" where
  "pg_instant t = t - t mod 1000"

definition pg_row :: "CryptoKeyRow \<Rightarrow> CryptoKeyRow" where
  "pg_row k = k \<lparr> cy_starts_at := pg_instant (cy_starts_at k), cy_deletes_at := map_option pg_instant (cy_deletes_at k) \<rparr>"

definition key_at :: "CryptoKeyFeature \<Rightarrow> int \<Rightarrow> CryptoKeyRow \<Rightarrow> bool" where
  "key_at f n k \<longleftrightarrow> cy_feature k = f \<and> cy_sequence k = n"

definition list_crypto_keys_by_feature :: "instant_ns \<Rightarrow> CryptoKeyFeature \<Rightarrow> CryptoKeys \<Rightarrow> CryptoKeys" where
  "list_crypto_keys_by_feature pg_now f db =
     sort_key cy_sequence
       (filter (\<lambda>k. cy_feature k = f \<and> cy_starts_at k \<le> pg_now \<and>
                    (case cy_deletes_at k of None \<Rightarrow> True | Some d \<Rightarrow> pg_now < d)) db)"

definition list_all_crypto_keys :: "CryptoKeys \<Rightarrow> CryptoKeys" where
  "list_all_crypto_keys db = sort_key (\<lambda>k. crypto_feature_rank (cy_feature k)) (sort_key cy_sequence db)"

definition insert_crypto_key :: "key_env \<Rightarrow> CryptoKeyRow \<Rightarrow> CryptoKeys \<Rightarrow> CryptoKeyRow key_stmt" where
  "insert_crypto_key E row db =
     (if list_ex (key_at (cy_feature row) (cy_sequence row)) db then (db, Err (ke_reject E))
      else (db @ [pg_row row], Ok (pg_row row)))"

definition set_deletes_at ::
  "CryptoKeyFeature \<Rightarrow> int \<Rightarrow> instant_ns option \<Rightarrow> CryptoKeys \<Rightarrow> CryptoKeys" where
  "set_deletes_at f n d db =
     map (\<lambda>k. if key_at f n k then k \<lparr> cy_deletes_at := map_option pg_instant d \<rparr> else k) db"

definition update_crypto_key_deletes_at ::
  "CryptoKeyFeature \<Rightarrow> int \<Rightarrow> instant_ns option \<Rightarrow> CryptoKeys \<Rightarrow> bool key_stmt" where
  "update_crypto_key_deletes_at f n d db = (set_deletes_at f n d db, Ok (list_ex (key_at f n) db))"

definition delete_crypto_key :: "CryptoKeyFeature \<Rightarrow> int \<Rightarrow> CryptoKeys \<Rightarrow> bool key_stmt" where
  "delete_crypto_key f n db = (filter (\<lambda>k. \<not> key_at f n k) db, Ok (list_ex (key_at f n) db))"

definition max_crypto_key_sequence_for_feature :: "CryptoKeyFeature \<Rightarrow> CryptoKeys \<Rightarrow> int" where
  "max_crypto_key_sequence_for_feature f db =
     (case map cy_sequence (filter (\<lambda>k. cy_feature k = f) db) of
        [] \<Rightarrow> 0
      | n # ns \<Rightarrow> fold max ns n)"

definition rotate_crypto_key_transactional ::
  "key_env \<Rightarrow> CryptoKeyFeature \<Rightarrow> int \<Rightarrow> instant_ns \<Rightarrow> CryptoKeyRow \<Rightarrow> CryptoKeys \<Rightarrow> CryptoKeyRow key_stmt" where
  "rotate_crypto_key_transactional E f n d row db =
     (case update_crypto_key_deletes_at f n (Some d) db of
        (db1, Err e) \<Rightarrow> (db, Err e)
      | (db1, Ok affected) \<Rightarrow>
          if \<not> affected
          then (db, Err (InvalidData (''crypto key '' @ crypto_feature_debug f @ ''#'' @ int_str n @ '' vanished mid-rotation'')))
          else (case insert_crypto_key E row db1 of
                  (_, Err e) \<Rightarrow> (db, Err e)
                | (db2, Ok inserted) \<Rightarrow> (db2, Ok inserted)))"

section \<open>The sweep\<close>

text \<open>\<open>Duration::saturating_mul\<close>, and the clamping conversion to the signed \<open>time::Duration\<close>.\<close>

definition DURATION_MAX :: nat where
  "DURATION_MAX = seconds_ns (2 ^ 64 - 1) + 999999999"

definition TIME_DURATION_MAX :: nat where
  "TIME_DURATION_MAX = seconds_ns (2 ^ 63 - 1) + 999999999"

definition duration_to_time_duration :: "nat \<Rightarrow> nat" where
  "duration_to_time_duration d = min d TIME_DURATION_MAX"

definition should_delete_key :: "CryptoKeyRow \<Rightarrow> instant_ns \<Rightarrow> bool" where
  "should_delete_key k now = (case cy_deletes_at k of None \<Rightarrow> False | Some d \<Rightarrow> d \<le> now)"

definition should_rotate_key :: "CryptoKeyRow \<Rightarrow> nat \<Rightarrow> instant_ns \<Rightarrow> bool" where
  "should_rotate_key k key_duration now =
     (if cy_deletes_at k \<noteq> None then False
      else cy_starts_at k + int (duration_to_time_duration key_duration) \<le> now + int hour_ns)"

definition min_starts_at :: "CryptoKeyRow \<Rightarrow> instant_ns \<Rightarrow> nat \<Rightarrow> nat \<Rightarrow> instant_ns" where
  "min_starts_at k now key_duration interval =
     (let expires_at = cy_starts_at k + int (duration_to_time_duration key_duration);
          floor = now + int (duration_to_time_duration (min (interval * 3) DURATION_MAX))
      in if expires_at < floor then floor else expires_at)"

text \<open>\<open>max + 1\<close> on an \<open>i32\<close>, as the release build computes it.\<close>

definition i32_min :: int where
  "i32_min = - (2 ^ 31)"

definition next_sequence :: "int \<Rightarrow> int" where
  "next_sequence n = (if n = i32_max then i32_min else n + 1)"

definition fresh_secret :: "key_env \<Rightarrow> KeyCall \<Rightarrow> CryptoKeyFeature \<Rightarrow> 8 word list" where
  "fresh_secret E call f = map (ke_random E call) [0..<secret_byte_length f]"

definition rotate_key ::
  "key_env \<Rightarrow> RotatorOptions \<Rightarrow> CryptoKeyRow \<Rightarrow> instant_ns \<Rightarrow> CryptoKeys \<Rightarrow> unit key_stmt" where
  "rotate_key E options old now db =
     (let f = cy_feature old;
          starts_at = min_starts_at old now (ro_key_duration options) (ro_interval options);
          deletes_at = starts_at + int hour_ns + int (duration_to_time_duration (token_duration f));
          call = RotateKey f (cy_sequence old)
      in case key_query E (MaxSequence f (Some (cy_sequence old))) (max_crypto_key_sequence_for_feature f db) of
           Err e \<Rightarrow> (db, Err e)
         | Ok m \<Rightarrow>
             (case key_attempt E call db
                     (rotate_crypto_key_transactional E f (cy_sequence old) deletes_at
                        \<lparr> cy_feature = f, cy_sequence = next_sequence m, cy_secret = fresh_secret E call f,
                          cy_starts_at = starts_at, cy_deletes_at = None \<rparr> db) of
                (db, Err e) \<Rightarrow> (db, Err e)
              | (db, Ok _) \<Rightarrow> (db, Ok ())))"

definition insert_new_key :: "key_env \<Rightarrow> CryptoKeyFeature \<Rightarrow> instant_ns \<Rightarrow> CryptoKeys \<Rightarrow> unit key_stmt" where
  "insert_new_key E f starts_at db =
     (case key_query E (MaxSequence f None) (max_crypto_key_sequence_for_feature f db) of
        Err e \<Rightarrow> (db, Err e)
      | Ok m \<Rightarrow>
          (case key_attempt E (InsertKey f) db
                  (insert_crypto_key E
                     \<lparr> cy_feature = f, cy_sequence = next_sequence m, cy_secret = fresh_secret E (InsertKey f) f,
                       cy_starts_at = starts_at, cy_deletes_at = None \<rparr> db) of
             (db, Err e) \<Rightarrow> (db, Err e)
           | (db, Ok _) \<Rightarrow> (db, Ok ())))"

text \<open>One row of a feature's list, with the number of valid keys counted so far.\<close>

definition sweep_key ::
  "key_env \<Rightarrow> RotatorOptions \<Rightarrow> instant_ns \<Rightarrow> CryptoKeyRow \<Rightarrow> CryptoKeys \<times> nat \<Rightarrow> CryptoKeys \<times> nat" where
  "sweep_key E options now key acc =
     (case acc of (db, valid_keys) \<Rightarrow>
        if should_delete_key key now
        then (fst (key_attempt E (DeleteKey (cy_feature key) (cy_sequence key)) db
                     (delete_crypto_key (cy_feature key) (cy_sequence key) db)), valid_keys)
        else if should_rotate_key key (ro_key_duration options) now
        then (case rotate_key E options key now db of
                (db, Ok _) \<Rightarrow> (db, valid_keys + 1)
              | (db, Err _) \<Rightarrow> (db, valid_keys))
        else if cy_deletes_at key = None then (db, valid_keys + 1)
        else (db, valid_keys))"

text \<open>The rows of the table, by feature and in the order of the listing.\<close>

definition keys_by_feature :: "CryptoKeys \<Rightarrow> CryptoKeyFeature \<Rightarrow> CryptoKeys" where
  "keys_by_feature keys = fold (\<lambda>k m. m (cy_feature k := m (cy_feature k) @ [k])) keys (\<lambda>_. [])"

definition sweep_feature ::
  "key_env \<Rightarrow> RotatorOptions \<Rightarrow> instant_ns \<Rightarrow> (CryptoKeyFeature \<Rightarrow> CryptoKeys) \<Rightarrow> CryptoKeyFeature \<Rightarrow> CryptoKeys \<Rightarrow> CryptoKeys" where
  "sweep_feature E options now by_feature f db =
     (case fold (sweep_key E options now) (by_feature f) (db, 0) of (db, valid_keys) \<Rightarrow>
        if valid_keys = 0 then fst (insert_new_key E f now db) else db)"

definition rotate_once_locked :: "key_env \<Rightarrow> RotatorOptions \<Rightarrow> instant_ns \<Rightarrow> CryptoKeys \<Rightarrow> unit key_stmt" where
  "rotate_once_locked E options now db =
     (case key_query E ListAllKeys (list_all_crypto_keys db) of
        Err e \<Rightarrow> (db, Err e)
      | Ok keys \<Rightarrow> (fold (sweep_feature E options now (keys_by_feature keys)) MANAGED_FEATURES db, Ok ()))"

definition rotate_once :: "key_env \<Rightarrow> RotatorOptions \<Rightarrow> instant_ns \<Rightarrow> CryptoKeys \<Rightarrow> unit key_stmt" where
  "rotate_once E options now db =
     (case key_query E TryRotationLock (ke_lock_free E) of
        Err e \<Rightarrow> (db, Err e)
      | Ok False \<Rightarrow> (db, Ok ())
      | Ok True \<Rightarrow>
          (case rotate_once_locked E options now db of (db, res) \<Rightarrow>
             (case (res, key_query E ReleaseRotationLock ()) of
                (Ok _, Ok _) \<Rightarrow> (db, Ok ())
              | (Err sweep_err, _) \<Rightarrow> (db, Err sweep_err)
              | (Ok _, Err release_err) \<Rightarrow> (db, Err release_err))))"

section \<open>Handing out keys\<close>

text \<open>The query parameter of the request, and the statements after it: the active keys, or a first key minted now.\<close>

definition crypto_keys_feature :: "string option \<Rightarrow> (string, CryptoKeyFeature) result" where
  "crypto_keys_feature param =
     (let s = (case param of None \<Rightarrow> [] | Some s \<Rightarrow> s)
      in if s = [] then Err ''Missing feature query parameter.''
         else if s \<notin> set [''workspace_apps_token'', ''workspace_apps_api_key'']
         then Err (''Invalid feature: \"'' @ s @ ''\"'')
         else (case crypto_feature_from_str s of
                 Ok f \<Rightarrow> Ok f
               | Err _ \<Rightarrow> Err (''Invalid feature: \"'' @ s @ ''\"'')))"

definition serve_crypto_keys ::
  "key_env \<Rightarrow> instant_ns \<Rightarrow> instant_ns \<Rightarrow> CryptoKeyFeature \<Rightarrow> CryptoKeys \<Rightarrow> CryptoKeys key_stmt" where
  "serve_crypto_keys E pg_now now f db =
     (case key_query E (ListFeatureKeys f) (list_crypto_keys_by_feature pg_now f db) of
        Err e \<Rightarrow> (db, Err e)
      | Ok keys \<Rightarrow>
          if keys = []
          then (case key_attempt E (InsertKey f) db
                       (insert_crypto_key E
                          \<lparr> cy_feature = f, cy_sequence = 1, cy_secret = fresh_secret E (InsertKey f) f,
                            cy_starts_at = now, cy_deletes_at = None \<rparr> db) of
                  (db, Err e) \<Rightarrow> (db, Err e)
                | (db, Ok inserted) \<Rightarrow> (db, Ok [inserted]))
          else (db, Ok keys))"

end
