(* ===== verification/Key_Rotation.thy ===== *)
theory Key_Rotation
  imports Crypto_Keys
begin

text \<open>
  What key rotation promises. A sweep and a request are sequences of three moves on the table (\<open>key_move\<close>): a key past
  its end is dropped, a live key is retired in favour of a successor, a first key is minted. The moves keep the invariant
  of the table (\<open>key_inv\<close>), which says that a feature that has a key has a usable one at every later time, and that a
  retired key outlives the start of its successor by the hour of grace and the life of a token.
\<close>

section \<open>Moves\<close>

definition usable_key :: "CryptoKeyRow \<Rightarrow> instant_ns \<Rightarrow> bool" where
  "usable_key k t \<longleftrightarrow> cy_starts_at k \<le> t \<and> (case cy_deletes_at k of None \<Rightarrow> True | Some d \<Rightarrow> t < d)"

definition has_key :: "CryptoKeyFeature \<Rightarrow> CryptoKeys \<Rightarrow> bool" where
  "has_key f db \<longleftrightarrow> (\<exists>k \<in> set db. cy_feature k = f)"

definition has_usable :: "CryptoKeyFeature \<Rightarrow> instant_ns \<Rightarrow> CryptoKeys \<Rightarrow> bool" where
  "has_usable f t db \<longleftrightarrow> (\<exists>k \<in> set db. cy_feature k = f \<and> usable_key k t)"

definition grace :: "CryptoKeyFeature \<Rightarrow> int" where
  "grace f = int hour_ns + int (token_duration f)"

definition key_of :: "CryptoKeyRow \<Rightarrow> CryptoKeyFeature \<times> int" where
  "key_of k = (cy_feature k, cy_sequence k)"

definition after_key :: "CryptoKeyRow \<Rightarrow> CryptoKeyRow \<Rightarrow> bool" where
  "after_key k k' \<longleftrightarrow> cy_sequence k < cy_sequence k' \<or> cy_sequence k' = i32_min"

inductive key_move :: "instant_ns \<Rightarrow> CryptoKeys \<Rightarrow> CryptoKeys \<Rightarrow> bool" for now where
  drop_key: "k \<in> set db \<Longrightarrow> should_delete_key k now \<Longrightarrow>
    key_move now db (filter (\<lambda>r. \<not> key_at (cy_feature k) (cy_sequence k) r) db)"
| retire_key: "k \<in> set db \<Longrightarrow> cy_deletes_at k = None \<Longrightarrow> cy_feature k' = cy_feature k \<Longrightarrow> key_of k' \<notin> key_of ` set db \<Longrightarrow>
    cy_deletes_at k' = None \<Longrightarrow> cy_starts_at k' mod 1000 = 0 \<Longrightarrow> cy_starts_at k \<le> cy_starts_at k' \<Longrightarrow>
    now < cy_starts_at k' + 1000 \<Longrightarrow> after_key k k' \<Longrightarrow> d = cy_starts_at k' + grace (cy_feature k) \<Longrightarrow>
    key_move now db (map (\<lambda>r. if key_at (cy_feature k) (cy_sequence k) r then r \<lparr> cy_deletes_at := Some d \<rparr> else r) db @ [k'])"
| mint_key: "key_of k \<notin> key_of ` set db \<Longrightarrow> cy_deletes_at k = None \<Longrightarrow> cy_starts_at k mod 1000 = 0 \<Longrightarrow> cy_starts_at k \<le> now \<Longrightarrow>
    key_move now db (db @ [k])"

inductive_cases key_moveE: "key_move now db db'"

section \<open>The invariant\<close>

definition succeeded :: "instant_ns \<Rightarrow> CryptoKeys \<Rightarrow> CryptoKeyRow \<Rightarrow> bool" where
  "succeeded now db k \<longleftrightarrow>
     (\<forall>d. cy_deletes_at k = Some d \<and> now < d \<longrightarrow>
        (\<exists>k' \<in> set db. cy_feature k' = cy_feature k \<and> after_key k k' \<and> cy_starts_at k' + grace (cy_feature k) = d \<and>
           (\<forall>d'. cy_deletes_at k' = Some d' \<longrightarrow> d \<le> d')))"

definition key_inv :: "instant_ns \<Rightarrow> CryptoKeys \<Rightarrow> bool" where
  "key_inv now db \<longleftrightarrow>
     distinct (map key_of db) \<and> (\<forall>k \<in> set db. cy_starts_at k mod 1000 = 0) \<and>
     (\<forall>f t. has_key f db \<longrightarrow> now \<le> t \<longrightarrow> has_usable f t db) \<and> (\<forall>k \<in> set db. succeeded now db k)"

lemma key_at_iff: "key_at f n k \<longleftrightarrow> key_of k = (f, n)"
  by (simp add: key_at_def key_of_def)

lemma key_of_inj: "distinct (map key_of db) \<Longrightarrow> k \<in> set db \<Longrightarrow> r \<in> set db \<Longrightarrow> key_of k = key_of r \<Longrightarrow> k = r"
  by (auto simp: distinct_map inj_on_def)

lemma grace_pos: "0 < grace f"
  by (simp add: grace_def hour_ns_def seconds_ns_def)

lemma drop_set:
  assumes "distinct (map key_of db)" "k \<in> set db"
  shows "set (filter (\<lambda>r. \<not> key_at (cy_feature k) (cy_sequence k) r) db) = set db - {k}"
  using key_of_inj [OF assms(1)] assms(2) by (auto simp: key_at_iff key_of_def)

lemma retire_set:
  assumes "distinct (map key_of db)" "k \<in> set db"
  shows "set (map (\<lambda>r. if key_at (cy_feature k) (cy_sequence k) r then r \<lparr> cy_deletes_at := Some d \<rparr> else r) db @ [k'])
         = insert (k \<lparr> cy_deletes_at := Some d \<rparr>) (insert k' (set db - {k}))"
proof -
  have "key_at (cy_feature k) (cy_sequence k) r \<longleftrightarrow> r = k" if "r \<in> set db" for r
    using key_of_inj [OF assms(1) that assms(2)] by (auto simp: key_at_iff key_of_def)
  then show ?thesis
    using assms(2) by auto
qed

lemma key_of_deletes [simp]: "key_of (k \<lparr> cy_deletes_at := d \<rparr>) = key_of k"
  by (simp add: key_of_def)

lemma key_move_distinct:
  assumes "key_move now db db'" "distinct (map key_of db)"
  shows "distinct (map key_of db')"
  using assms
proof cases
  case (retire_key k k' d)
  have "map key_of db' = map key_of db @ [key_of k']"
    by (simp add: retire_key(1))
  then show ?thesis
    using assms(2) retire_key(5) by (simp only: distinct_append) simp
qed (auto simp: distinct_map_filter)

lemma has_usable_move:
  assumes move: "key_move now db db'" and dist: "distinct (map key_of db)" and t: "now \<le> t" and has: "has_usable f t db"
  shows "has_usable f t db'"
proof -
  obtain r where r: "r \<in> set db" "cy_feature r = f" "usable_key r t"
    using has by (auto simp: has_usable_def)
  from move show ?thesis
  proof cases
    case (drop_key k)
    have "r \<noteq> k"
      using drop_key r t by (auto simp: usable_key_def should_delete_key_def split: option.splits)
    then show ?thesis
      using r drop_set [OF dist drop_key(2)] by (auto simp: has_usable_def drop_key(1))
  next
    case (retire_key k k' d)
    show ?thesis
    proof (cases "r = k")
      case False
      then show ?thesis
        using r retire_set [OF dist retire_key(2)] by (auto simp: has_usable_def retire_key(1))
    next
      case True
      have "usable_key (k \<lparr> cy_deletes_at := Some d \<rparr>) t \<or> usable_key k' t"
        using True r retire_key grace_pos [of f] by (auto simp: usable_key_def)
      then show ?thesis
        unfolding has_usable_def retire_key(1) retire_set [OF dist retire_key(2)] using True r retire_key(4) by auto
    qed
  next
    case (mint_key k)
    then show ?thesis
      using r by (auto simp: has_usable_def)
  qed
qed

lemma usable_move:
  assumes move: "key_move now db db'" and inv: "key_inv now db" and t: "now \<le> t" and has: "has_key f db'"
  shows "has_usable f t db'"
proof (cases "has_key f db")
  case True
  then show ?thesis
    using inv t has_usable_move [OF move] by (auto simp: key_inv_def)
next
  case False
  from move show ?thesis
  proof cases
    case (drop_key k)
    then show ?thesis
      using False has by (auto simp: has_key_def)
  next
    case (retire_key k k' d)
    then show ?thesis
      using False has by (fastforce simp: has_key_def)
  next
    case (mint_key k)
    then show ?thesis
      using False has t by (auto simp: has_key_def has_usable_def usable_key_def)
  qed
qed

lemma succeeded_mono: "succeeded now db k \<Longrightarrow> set db \<subseteq> set db' \<Longrightarrow> succeeded now db' k"
  by (fastforce simp: succeeded_def)

lemma succeeded_unretired: "cy_deletes_at k = None \<Longrightarrow> succeeded now db k"
  by (simp add: succeeded_def)

lemma succeeded_drop:
  assumes "succeeded now db r" "should_delete_key k now" "set db' = set db - {k}"
  shows "succeeded now db' r"
  unfolding succeeded_def
proof (intro allI impI, elim conjE)
  fix d
  assume d: "cy_deletes_at r = Some d" "now < d"
  then obtain k' where k': "k' \<in> set db" "cy_feature k' = cy_feature r" "after_key r k'"
      "cy_starts_at k' + grace (cy_feature r) = d" "\<And>d'. cy_deletes_at k' = Some d' \<Longrightarrow> d \<le> d'"
    using assms(1) unfolding succeeded_def by blast
  have "k' \<noteq> k"
    using assms(2) d(2) k'(5) by (fastforce simp: should_delete_key_def split: option.splits)
  then show "\<exists>k' \<in> set db'. cy_feature k' = cy_feature r \<and> after_key r k' \<and> cy_starts_at k' + grace (cy_feature r) = d \<and>
      (\<forall>d'. cy_deletes_at k' = Some d' \<longrightarrow> d \<le> d')"
    using k' assms(3) by blast
qed

lemma succeeded_retire:
  assumes succ: "succeeded now db r" and k: "cy_deletes_at k = None" "cy_starts_at k \<le> cy_starts_at k'"
    and set: "set db' = insert (k \<lparr> cy_deletes_at := Some (cy_starts_at k' + grace (cy_feature k)) \<rparr>) (insert k' (set db - {k}))"
  shows "succeeded now db' r"
  unfolding succeeded_def
proof (intro allI impI, elim conjE)
  fix d
  assume d: "cy_deletes_at r = Some d" "now < d"
  then obtain q where q: "q \<in> set db" "cy_feature q = cy_feature r" "after_key r q"
      "cy_starts_at q + grace (cy_feature r) = d" "\<And>d'. cy_deletes_at q = Some d' \<Longrightarrow> d \<le> d'"
    using succ unfolding succeeded_def by blast
  define q' where "q' = (if q = k then k \<lparr> cy_deletes_at := Some (cy_starts_at k' + grace (cy_feature k)) \<rparr> else q)"
  have "q' \<in> set db'"
    using q(1) by (simp add: q'_def set)
  moreover have "cy_feature q' = cy_feature r" "after_key r q'" "cy_starts_at q' + grace (cy_feature r) = d"
    using q by (auto simp: q'_def after_key_def)
  moreover have "d \<le> d'" if "cy_deletes_at q' = Some d'" for d'
    using that q k by (auto simp: q'_def split: if_splits)
  ultimately show "\<exists>k' \<in> set db'. cy_feature k' = cy_feature r \<and> after_key r k' \<and> cy_starts_at k' + grace (cy_feature r) = d \<and>
      (\<forall>d'. cy_deletes_at k' = Some d' \<longrightarrow> d \<le> d')"
    by blast
qed

lemma succeeded_move:
  assumes move: "key_move now db db'" and inv: "key_inv now db" and r: "r \<in> set db'"
  shows "succeeded now db' r"
proof -
  have dist: "distinct (map key_of db)" and succ: "\<And>k. k \<in> set db \<Longrightarrow> succeeded now db k"
    using inv by (auto simp: key_inv_def)
  from move show ?thesis
  proof cases
    case (drop_key k)
    have set: "set db' = set db - {k}"
      using drop_set [OF dist drop_key(2)] by (simp add: drop_key(1))
    show ?thesis
      using succeeded_drop [OF succ drop_key(3) set] r set by blast
  next
    case (retire_key k k' d)
    have set: "set db' = insert (k \<lparr> cy_deletes_at := Some (cy_starts_at k' + grace (cy_feature k)) \<rparr>) (insert k' (set db - {k}))"
      using retire_set [OF dist retire_key(2)] by (simp only: retire_key(1) retire_key(11))
    consider (old) "r \<in> set db" | (new) "r = k'" | (retired) "r = k \<lparr> cy_deletes_at := Some (cy_starts_at k' + grace (cy_feature k)) \<rparr>"
      using r set by blast
    then show ?thesis
    proof cases
      case old
      then show ?thesis
        using succeeded_retire [OF succ retire_key(3,8) set] by blast
    next
      case new
      then show ?thesis
        using retire_key(6) succeeded_unretired by blast
    next
      case retired
      then show ?thesis
        unfolding succeeded_def set using retire_key(4,6,10) by (auto simp: after_key_def)
    qed
  next
    case (mint_key k)
    show ?thesis
    proof (cases "r = k")
      case True
      then show ?thesis
        using mint_key(3) succeeded_unretired by blast
    next
      case False
      then show ?thesis
        using r succ [of r] succeeded_mono [of now db r db'] by (auto simp: mint_key(1))
    qed
  qed
qed

lemma key_move_inv:
  assumes move: "key_move now db db'" and inv: "key_inv now db"
  shows "key_inv now db'"
proof -
  have dist: "distinct (map key_of db)" and mic: "\<forall>k \<in> set db. cy_starts_at k mod 1000 = 0"
    using inv by (auto simp: key_inv_def)
  have "\<forall>k \<in> set db'. cy_starts_at k mod 1000 = 0"
    using move by cases (use mic in auto)
  then show ?thesis
    unfolding key_inv_def
    using key_move_distinct [OF move dist] usable_move [OF move inv] succeeded_move [OF move inv] by blast
qed

abbreviation key_moves :: "instant_ns \<Rightarrow> CryptoKeys \<Rightarrow> CryptoKeys \<Rightarrow> bool" where
  "key_moves now \<equiv> (key_move now)\<^sup>*\<^sup>*"

lemma key_moves_inv: "key_moves now db db' \<Longrightarrow> key_inv now db \<Longrightarrow> key_inv now db'"
  by (induction rule: rtranclp_induct) (auto intro: key_move_inv)

lemma key_moves_usable:
  assumes "key_moves now db db'" "key_inv now db" "now \<le> t" "has_usable f t db"
  shows "has_usable f t db'"
  using assms(1)
proof (induction rule: rtranclp_induct)
  case base
  then show ?case
    using assms(4) .
next
  case (step y z)
  have "distinct (map key_of y)"
    using key_moves_inv [OF step(1) assms(2)] by (simp add: key_inv_def)
  then show ?case
    using has_usable_move [OF step(2) _ assms(3) step(3)] by blast
qed

lemma key_inv_later: "key_inv now db \<Longrightarrow> now \<le> now' \<Longrightarrow> key_inv now' db"
  unfolding key_inv_def succeeded_def by (meson order_trans less_le_trans le_less_trans)

section \<open>A sweep is a sequence of moves\<close>

lemma pg_instant_bounds: "pg_instant t \<le> t" "t < pg_instant t + 1000" "pg_instant t mod 1000 = 0"
  by (auto simp: pg_instant_def minus_mod_eq_mult_div)

lemma pg_instant_mono: "s mod 1000 = 0 \<Longrightarrow> s \<le> t \<Longrightarrow> s \<le> pg_instant t"
  unfolding pg_instant_def using zdiv_mono1 [of s t 1000] mult_div_mod_eq [of 1000 s] by (simp add: minus_mod_eq_mult_div)

lemma pg_instant_grace: "pg_instant (t + grace f) = pg_instant t + grace f"
proof -
  have "grace f mod 1000 = 0"
    by (cases f) (simp_all add: grace_def hour_ns_def seconds_ns_def)
  then show ?thesis
    by (simp add: pg_instant_def mod_add_eq [symmetric, of t])
qed

lemma time_token_duration [simp]: "duration_to_time_duration (token_duration f) = token_duration f"
  by (cases f) (simp_all add: duration_to_time_duration_def TIME_DURATION_MAX_def seconds_ns_def)

lemma min_starts_at_bounds:
  "cy_starts_at k \<le> min_starts_at k now kd i" "now \<le> min_starts_at k now kd i"
  by (simp_all add: min_starts_at_def Let_def)

lemma fold_max_ge: "(n :: int) \<le> fold max ns n" "m \<in> set ns \<Longrightarrow> m \<le> fold max ns n"
proof (induction ns arbitrary: n)
  case (Cons a ns)
  {
    case 1
    then show ?case
      using Cons.IH(1) [of "max a n"] by simp
  next
    case 2
    then show ?case
      using Cons.IH(1) [of "max a n"] Cons.IH(2) [of "max a n"] by auto
  }
qed simp_all

lemma max_sequence_ge:
  assumes "k \<in> set db" "cy_feature k = f"
  shows "cy_sequence k \<le> max_crypto_key_sequence_for_feature f db"
proof -
  have "cy_sequence k \<in> set (map cy_sequence (filter (\<lambda>k. cy_feature k = f) db))" (is "_ \<in> set ?ns")
    using assms by simp
  then show ?thesis
    unfolding max_crypto_key_sequence_for_feature_def using fold_max_ge
    by (cases ?ns) (auto simp del: list.set_map)
qed

lemma fst_result [simp]:
  "fst (case s of (db, Inl e) \<Rightarrow> (db, Inl e) | (db, Inr x) \<Rightarrow> (db, Inr (g x))) = fst s"
  by (simp split: prod.split sum.split)

lemma insert_cases:
  assumes "insert_crypto_key E row db = (db', r)"
  shows "(\<exists>e. r = Err e) \<and> db' = db \<and> has_key (cy_feature row) db \<or>
         r = Ok (pg_row row) \<and> db' = db @ [pg_row row] \<and> key_of row \<notin> key_of ` set db"
  using assms by (auto simp: insert_crypto_key_def list_ex_iff key_at_iff key_of_def has_key_def image_iff split: if_splits)

lemma pg_row_sel [simp]:
  "key_of (pg_row k) = key_of k" "cy_feature (pg_row k) = cy_feature k" "cy_sequence (pg_row k) = cy_sequence k"
  "cy_secret (pg_row k) = cy_secret k" "cy_starts_at (pg_row k) = pg_instant (cy_starts_at k)"
  "cy_deletes_at (pg_row k) = map_option pg_instant (cy_deletes_at k)"
  by (simp_all add: pg_row_def key_of_def)

lemma attempt_cases: "fst (key_attempt E call db s) = db \<or> fst (key_attempt E call db s) = fst s"
  by (auto simp: key_attempt_def split: option.splits)

lemma insert_move:
  assumes "cy_deletes_at row = None" "cy_starts_at row \<le> now"
  shows "key_moves now db (fst (key_attempt E call db (insert_crypto_key E row db)))"
proof -
  have "key_move now db (db @ [pg_row row])" if "key_of row \<notin> key_of ` set db"
    using that assms pg_instant_bounds [of "cy_starts_at row"] by (intro mint_key) auto
  then show ?thesis
    using attempt_cases [of E call db "insert_crypto_key E row db"] insert_cases [of E row db]
    by (cases "insert_crypto_key E row db") auto
qed

lemma insert_new_key_moves: "key_moves now db (fst (insert_new_key E f now db))"
  by (simp add: insert_new_key_def key_query_def insert_move split: option.split prod.split)

lemma serve_moves: "key_moves now db (fst (serve_crypto_keys E pg_now now f db))"
  by (simp add: serve_crypto_keys_def key_query_def insert_move split: option.split prod.split)

lemma rotate_tx_cases:
  assumes "rotate_crypto_key_transactional E f n d row db = (db', r)"
  shows "db' = db \<or> db' = set_deletes_at f n (Some d) db @ [pg_row row] \<and> key_of row \<notin> key_of ` set db"
proof -
  have keys: "key_of ` set (set_deletes_at f n (Some d) db) = key_of ` set db"
    unfolding set_deletes_at_def set_map image_image by (intro image_cong refl) simp
  obtain db2 r2 where ins: "insert_crypto_key E row (set_deletes_at f n (Some d) db) = (db2, r2)"
    by fastforce
  show ?thesis
    using assms insert_cases [OF ins] unfolding keys
    by (auto simp: rotate_crypto_key_transactional_def update_crypto_key_deletes_at_def ins split: if_splits)
qed

lemma retire_tx_move:
  assumes k: "k \<in> set db" "cy_deletes_at k = None" "cy_starts_at k mod 1000 = 0"
    and row: "cy_feature row = cy_feature k" "cy_sequence row = next_sequence (max_crypto_key_sequence_for_feature (cy_feature k) db)"
      "cy_starts_at row = min_starts_at k now kd i" "cy_deletes_at row = None" "key_of row \<notin> key_of ` set db"
  shows "key_move now db (set_deletes_at (cy_feature k) (cy_sequence k) (Some (cy_starts_at row + grace (cy_feature k))) db @ [pg_row row])"
proof -
  have "after_key k (pg_row row)"
    using row(2) max_sequence_ge [OF k(1) refl] by (auto simp: after_key_def next_sequence_def)
  moreover have "cy_starts_at k \<le> pg_instant (cy_starts_at row)"
    using pg_instant_mono [OF k(3)] min_starts_at_bounds(1) [of k now kd i] by (simp add: row(3))
  moreover have "now < pg_instant (cy_starts_at row) + 1000"
    using pg_instant_bounds(2) [of "cy_starts_at row"] min_starts_at_bounds(2) [of now k kd i] row(3) by linarith
  ultimately show ?thesis
    unfolding set_deletes_at_def option.map pg_instant_grace using k(1,2) row(1,4,5) pg_instant_bounds(3)
    by (intro retire_key) simp_all
qed

text \<open>What one row's turn does: moves that touch no other row.\<close>

definition turn :: "instant_ns \<Rightarrow> CryptoKeyRow \<Rightarrow> CryptoKeys \<Rightarrow> CryptoKeys \<Rightarrow> bool" where
  "turn now k db db' \<longleftrightarrow> key_moves now db db' \<and> (\<forall>r \<in> set db. key_of r \<noteq> key_of k \<longrightarrow> r \<in> set db')"

lemma turn_refl [simp]: "turn now k db db"
  by (simp add: turn_def)

lemma key_inv_starts: "key_inv now db \<Longrightarrow> k \<in> set db \<Longrightarrow> cy_starts_at k mod 1000 = 0"
  by (simp add: key_inv_def)

lemma delete_turn:
  assumes "k \<in> set db" "should_delete_key k now"
  shows "turn now k db (fst (key_attempt E call db (delete_crypto_key (cy_feature k) (cy_sequence k) db)))"
proof -
  have "turn now k db (filter (\<lambda>r. \<not> key_at (cy_feature k) (cy_sequence k) r) db)"
    using drop_key [OF assms] by (auto simp: turn_def key_at_iff key_of_def)
  then show ?thesis
    using attempt_cases [of E call db "delete_crypto_key (cy_feature k) (cy_sequence k) db"]
    by (auto simp: delete_crypto_key_def)
qed

lemma rotate_turn:
  assumes inv: "key_inv now db" and k: "k \<in> set db" "cy_deletes_at k = None"
  shows "turn now k db (fst (rotate_key E options k now db))"
proof -
  define f where "f = cy_feature k"
  define row where "row = \<lparr> cy_feature = f, cy_sequence = next_sequence (max_crypto_key_sequence_for_feature f db),
      cy_secret = fresh_secret E (RotateKey f (cy_sequence k)) f,
      cy_starts_at = min_starts_at k now (ro_key_duration options) (ro_interval options), cy_deletes_at = None \<rparr>"
  let ?tx = "rotate_crypto_key_transactional E f (cy_sequence k) (cy_starts_at row + grace f) row db"
  let ?db = "set_deletes_at f (cy_sequence k) (Some (cy_starts_at row + grace f)) db @ [pg_row row]"
  have "turn now k db ?db" if "key_of row \<notin> key_of ` set db"
  proof -
    have "key_move now db ?db"
      unfolding f_def using k key_inv_starts [OF inv k(1)] that
      by (intro retire_tx_move) (simp_all add: row_def f_def)
    then show ?thesis
      by (auto simp: turn_def set_deletes_at_def key_at_iff key_of_def f_def image_iff)
  qed
  then have tx: "turn now k db (fst ?tx)"
    using rotate_tx_cases [of E f "cy_sequence k" "cy_starts_at row + grace f" row db] by (cases ?tx) auto
  have "fst (rotate_key E options k now db) \<in> {db, fst ?tx}"
    using attempt_cases [of E "RotateKey f (cy_sequence k)" db ?tx]
    by (simp add: rotate_key_def Let_def key_query_def grace_def row_def f_def add.assoc split: option.split)
  then show ?thesis
    using tx by auto
qed

lemma sweep_key_turn:
  assumes inv: "key_inv now db" and k: "k \<in> set db" and run: "sweep_key E options now k (db, v) = (db', v')"
  shows "turn now k db db'"
proof -
  have live: "cy_deletes_at k = None" if "should_rotate_key k kd now" for kd
    using that by (simp add: should_rotate_key_def split: if_splits)
  show "turn now k db db'"
    using run delete_turn [OF k] rotate_turn [OF inv k live, of _ E options]
    by (auto simp: sweep_key_def split: if_splits prod.splits sum.splits)
qed

text \<open>The turns of the listed rows: each still finds its row in the table.\<close>

lemma sweep_keys_moves:
  assumes "key_inv now db" "set ks \<subseteq> set db" "distinct (map key_of ks)"
    "fold (sweep_key E options now) ks (db, v) = (db', v')"
  shows "key_moves now db db' \<and> (\<forall>r \<in> set db. key_of r \<notin> key_of ` set ks \<longrightarrow> r \<in> set db')"
  using assms
proof (induction ks arbitrary: db v)
  case (Cons k ks)
  obtain db1 v1 where one: "sweep_key E options now k (db, v) = (db1, v1)"
    by fastforce
  have turn: "key_moves now db db1" "\<And>r. r \<in> set db \<Longrightarrow> key_of r \<noteq> key_of k \<Longrightarrow> r \<in> set db1"
    using sweep_key_turn [OF Cons.prems(1) _ one] Cons.prems(2) by (auto simp: turn_def)
  have "set ks \<subseteq> set db1"
  proof
    fix r
    assume "r \<in> set ks"
    then have "key_of r \<noteq> key_of k"
      using Cons.prems(3) by (metis distinct.simps(2) image_eqI list.simps(9) set_map)
    then show "r \<in> set db1"
      using turn(2) Cons.prems(2) \<open>r \<in> set ks\<close> by auto
  qed
  then have "key_moves now db1 db' \<and> (\<forall>r \<in> set db1. key_of r \<notin> key_of ` set ks \<longrightarrow> r \<in> set db')"
    using Cons.IH [of db1 v1] key_moves_inv [OF turn(1) Cons.prems(1)] Cons.prems(3,4) one by simp
  then show ?case
    using turn by (auto intro: rtranclp_trans)
qed simp

lemma keys_by_feature: "keys_by_feature keys f = filter (\<lambda>k. cy_feature k = f) keys"
proof -
  have "fold (\<lambda>k m. m (cy_feature k := m (cy_feature k) @ [k])) keys m f = m f @ filter (\<lambda>k. cy_feature k = f) keys" for m
    by (induction keys arbitrary: m) simp_all
  then show ?thesis
    by (simp add: keys_by_feature_def)
qed

lemma attempt_keeps:
  "set db \<subseteq> set (fst (key_attempt E call db (insert_crypto_key E row db)))"
  by (auto simp: key_attempt_def insert_crypto_key_def split: option.split)

lemma insert_new_key_keeps: "set db \<subseteq> set (fst (insert_new_key E f now db))"
  by (simp add: insert_new_key_def key_query_def attempt_keeps split: option.split prod.split)

definition clean_env :: "key_env \<Rightarrow> bool" where
  "clean_env E \<longleftrightarrow> ke_lock_free E \<and> (\<forall>call. ke_fault E call = None)"

lemma insert_new_key_has: "clean_env E \<Longrightarrow> has_key f (fst (insert_new_key E f now db))"
  by (auto simp: insert_new_key_def key_query_def key_attempt_def clean_env_def insert_crypto_key_def has_key_def key_at_def list_ex_iff)

lemma sweep_feature_moves:
  fixes E options
  assumes inv: "key_inv now db" and rows: "\<forall>k \<in> set keys. cy_feature k = f \<longrightarrow> k \<in> set db" and dist: "distinct (map key_of keys)"
  defines "db' \<equiv> sweep_feature E options now (keys_by_feature keys) f db"
  shows "key_moves now db db'" "\<And>r. r \<in> set db \<Longrightarrow> cy_feature r \<noteq> f \<Longrightarrow> r \<in> set db'"
    "clean_env E \<Longrightarrow> has_usable f now db'"
proof -
  let ?ks = "filter (\<lambda>k. cy_feature k = f) keys"
  obtain db1 v where fold: "fold (sweep_key E options now) ?ks (db, 0) = (db1, v)"
    by fastforce
  have db': "db' = (if v = 0 then fst (insert_new_key E f now db1) else db1)"
    by (simp add: db'_def sweep_feature_def keys_by_feature fold)
  have one: "key_moves now db db1" "\<And>r. r \<in> set db \<Longrightarrow> key_of r \<notin> key_of ` set ?ks \<Longrightarrow> r \<in> set db1"
    using sweep_keys_moves [OF inv _ _ fold] rows dist by (auto simp: distinct_map_filter)
  have two: "key_moves now db1 db'" "set db1 \<subseteq> set db'"
    using insert_new_key_moves insert_new_key_keeps by (auto simp: db')
  show moves: "key_moves now db db'"
    using one(1) two(1) by (rule rtranclp_trans)
  show "r \<in> set db'" if "r \<in> set db" "cy_feature r \<noteq> f" for r
    using one(2) [OF that(1)] two(2) that(2) by (auto simp: key_of_def)
  assume clean: "clean_env E"
  have "has_key f db'" if "\<not> has_key f db"
  proof -
    have "?ks = []"
      using rows that by (auto simp: has_key_def filter_empty_conv)
    then show ?thesis
      using fold insert_new_key_has [OF clean] by (simp add: db')
  qed
  then show "has_usable f now db'"
    using key_moves_usable [OF moves inv order_refl] key_moves_inv [OF moves inv] inv unfolding key_inv_def by blast
qed

lemma sweep_features_moves:
  assumes "key_inv now db" "\<forall>k \<in> set keys. cy_feature k \<in> set fs \<longrightarrow> k \<in> set db" "distinct (map key_of keys)" "distinct fs"
  shows "key_moves now db (fold (sweep_feature E options now (keys_by_feature keys)) fs db) \<and>
    (clean_env E \<longrightarrow> (\<forall>f \<in> set fs. has_usable f now (fold (sweep_feature E options now (keys_by_feature keys)) fs db)))"
  using assms
proof (induction fs arbitrary: db)
  case (Cons f fs)
  let ?db1 = "sweep_feature E options now (keys_by_feature keys) f db"
  have rows: "\<forall>k \<in> set keys. cy_feature k = f \<longrightarrow> k \<in> set db"
    using Cons.prems(2) by simp
  note one = sweep_feature_moves [OF Cons.prems(1) rows Cons.prems(3), where E = E and options = options]
  have inv1: "key_inv now ?db1"
    using key_moves_inv [OF one(1) Cons.prems(1)] .
  have "\<forall>k \<in> set keys. cy_feature k \<in> set fs \<longrightarrow> k \<in> set ?db1"
    using one(2) Cons.prems(2,4) by fastforce
  then have rest: "key_moves now ?db1 (fold (sweep_feature E options now (keys_by_feature keys)) fs ?db1) \<and>
    (clean_env E \<longrightarrow> (\<forall>f \<in> set fs. has_usable f now (fold (sweep_feature E options now (keys_by_feature keys)) fs ?db1)))"
    using Cons.IH [OF inv1 _ Cons.prems(3)] Cons.prems(4) by simp
  then show ?case
    using one(1,3) key_moves_usable [OF _ inv1 order_refl] by (auto intro: rtranclp_trans)
qed simp

lemma list_all_crypto_keys:
  "set (list_all_crypto_keys db) = set db" "distinct (map key_of db) \<Longrightarrow> distinct (map key_of (list_all_crypto_keys db))"
  by (simp_all add: list_all_crypto_keys_def distinct_map)

lemma rotate_once_locked_moves:
  assumes "key_inv now db"
  shows "key_moves now db (fst (rotate_once_locked E options now db))"
    "clean_env E \<Longrightarrow> has_usable f now (fst (rotate_once_locked E options now db))"
    "clean_env E \<Longrightarrow> snd (rotate_once_locked E options now db) = Ok ()"
proof -
  have dist: "distinct (map key_of (list_all_crypto_keys db))" "distinct MANAGED_FEATURES" "f \<in> set MANAGED_FEATURES"
    using assms list_all_crypto_keys(2) by (auto simp: key_inv_def MANAGED_FEATURES_def intro: CryptoKeyFeature.exhaust)
  note moves = sweep_features_moves [OF assms _ dist(1,2), where E = E and options = options]
  show "key_moves now db (fst (rotate_once_locked E options now db))"
    using moves by (simp add: rotate_once_locked_def key_query_def list_all_crypto_keys split: option.split prod.split)
  assume clean: "clean_env E"
  show "has_usable f now (fst (rotate_once_locked E options now db))"
    using moves clean dist(3) by (simp add: rotate_once_locked_def key_query_def list_all_crypto_keys clean_env_def)
  show "snd (rotate_once_locked E options now db) = Ok ()"
    using clean by (simp add: rotate_once_locked_def key_query_def clean_env_def)
qed

lemma rotate_once_moves:
  assumes "key_inv now db"
  shows "key_moves now db (fst (rotate_once E options now db))"
    "clean_env E \<Longrightarrow> has_usable f now (fst (rotate_once E options now db))"
    "clean_env E \<Longrightarrow> snd (rotate_once E options now db) = Ok ()"
proof -
  note locked = rotate_once_locked_moves [OF assms, where E = E and options = options]
  show "key_moves now db (fst (rotate_once E options now db))"
    using locked(1) by (auto simp: rotate_once_def key_query_def split: option.split prod.split sum.split bool.split)
  assume clean: "clean_env E"
  show "has_usable f now (fst (rotate_once E options now db))" "snd (rotate_once E options now db) = Ok ()"
    using locked(2,3) [OF clean] clean
    by (auto simp: rotate_once_def key_query_def clean_env_def split: prod.split sum.split)
qed

section \<open>Sweeps and requests over time\<close>

record key_sys =
  kt_now :: instant_ns
  kt_db :: CryptoKeys

inductive key_step :: "key_sys \<Rightarrow> key_sys \<Rightarrow> bool" where
  sweep_runs: "kt_now s \<le> now \<Longrightarrow>
    key_step s \<lparr> kt_now = now, kt_db = fst (rotate_once E options now (kt_db s)) \<rparr>"
| keys_served: "kt_now s \<le> now \<Longrightarrow>
    key_step s \<lparr> kt_now = now, kt_db = fst (serve_crypto_keys E pg_now now f (kt_db s)) \<rparr>"

definition key_init :: "key_sys \<Rightarrow> bool" where
  "key_init s \<longleftrightarrow> kt_db s = []"

definition sys_key_inv :: "key_sys \<Rightarrow> bool" where
  "sys_key_inv s \<longleftrightarrow> key_inv (kt_now s) (kt_db s)"

lemma key_step_moves:
  assumes "key_step s s'" "sys_key_inv s"
  shows "kt_now s \<le> kt_now s'" "key_inv (kt_now s') (kt_db s)" "key_moves (kt_now s') (kt_db s) (kt_db s')"
  using assms by (auto simp: sys_key_inv_def elim!: key_step.cases intro: key_inv_later serve_moves rotate_once_moves(1) [OF key_inv_later])

interpretation rotation: transition_invariant key_init key_step sys_key_inv
proof
  show "sys_key_inv s" if "key_init s" for s
    using that by (simp add: sys_key_inv_def key_inv_def key_init_def has_key_def)
  show "sys_key_inv t" if "sys_key_inv s" "key_step s t" for s t
    using key_moves_inv [OF key_step_moves(3,2)] that unfolding sys_key_inv_def by blast
qed

text \<open>The row of a key, not to be deleted before a bound.\<close>

definition kept_until :: "instant_ns \<Rightarrow> CryptoKeyRow \<Rightarrow> CryptoKeys \<Rightarrow> bool" where
  "kept_until b k db \<longleftrightarrow>
     (\<exists>r \<in> set db. key_of r = key_of k \<and> cy_secret r = cy_secret k \<and> cy_starts_at r = cy_starts_at k \<and>
        (\<forall>d. cy_deletes_at r = Some d \<longrightarrow> b < d))"

lemma kept_until_move:
  assumes move: "key_move now db db'" and dist: "distinct (map key_of db)" and kept: "kept_until b k db"
    and b: "now \<le> b" "b + 1000 \<le> now + grace (cy_feature k)"
  shows "kept_until b k db'"
proof -
  obtain r where r: "r \<in> set db" "key_of r = key_of k" "cy_secret r = cy_secret k" "cy_starts_at r = cy_starts_at k"
      "\<And>d. cy_deletes_at r = Some d \<Longrightarrow> b < d"
    using kept unfolding kept_until_def by blast
  from move show ?thesis
  proof cases
    case (drop_key x)
    have "r \<noteq> x"
      using drop_key(3) r(5) b(1) by (fastforce simp: should_delete_key_def split: option.splits)
    then show ?thesis
      unfolding kept_until_def drop_key(1) drop_set [OF dist drop_key(2)] using r by blast
  next
    case (retire_key x x' d)
    show ?thesis
    proof (cases "r = x")
      case True
      have "b < d"
        using retire_key(9,11) b True r(2) by (simp add: key_of_def)
      then show ?thesis
        unfolding kept_until_def retire_key(1) retire_set [OF dist retire_key(2)] using True r by auto
    next
      case False
      then show ?thesis
        unfolding kept_until_def retire_key(1) retire_set [OF dist retire_key(2)] using r by blast
    qed
  next
    case (mint_key x)
    then show ?thesis
      unfolding kept_until_def using r by auto
  qed
qed

lemma kept_until_moves:
  assumes "key_moves now db db'" "key_inv now db" "kept_until b k db" "now \<le> b" "b + 1000 \<le> now + grace (cy_feature k)"
  shows "kept_until b k db'"
  using assms(1)
proof (induction rule: rtranclp_induct)
  case (step y z)
  have "distinct (map key_of y)"
    using key_moves_inv [OF step(1) assms(2)] by (simp add: key_inv_def)
  then show ?case
    using kept_until_move [OF step(2) _ step(3) assms(4,5)] by blast
qed (rule assms(3))

lemma kept_until_later:
  assumes "reachable (\<lambda>x. x = s) key_step s'" "sys_key_inv s" "kept_until b k (kt_db s)" "b + 1000 \<le> kt_now s + grace (cy_feature k)"
  shows "sys_key_inv s' \<and> kt_now s \<le> kt_now s' \<and> (kt_now s' \<le> b \<longrightarrow> kept_until b k (kt_db s'))"
  using assms(1)
proof (induction rule: reachable.induct)
  case (reach_step x y)
  then have inv: "sys_key_inv x"
    by blast
  note moves = key_step_moves [OF reach_step(2) inv]
  show ?case
    using reach_step rotation.inv_step [OF inv reach_step(2)] moves(1) kept_until_moves [OF moves(3,2)] assms(4) by force
qed (simp add: assms)

text \<open>The key that signs: the usable key of its feature with the highest sequence number.\<close>

definition signing_key :: "instant_ns \<Rightarrow> CryptoKeys \<Rightarrow> CryptoKeyRow \<Rightarrow> bool" where
  "signing_key t db k \<longleftrightarrow>
     k \<in> set db \<and> usable_key k t \<and>
     list_all (\<lambda>r. cy_feature r = cy_feature k \<and> usable_key r t \<longrightarrow> cy_sequence r \<le> cy_sequence k) db"

lemma signing_key_kept:
  assumes inv: "key_inv now db" and k: "signing_key now db k" and seqs: "list_all (\<lambda>r. 0 < cy_sequence r) db"
  shows "kept_until (now + int (token_duration (cy_feature k))) k db"
proof -
  have "now + int (token_duration (cy_feature k)) < d" if d: "cy_deletes_at k = Some d" for d
  proof -
    have "now < d"
      using k d by (simp add: signing_key_def usable_key_def)
    moreover have "succeeded now db k"
      using inv k by (simp add: key_inv_def signing_key_def)
    ultimately obtain k' where k': "k' \<in> set db" "cy_feature k' = cy_feature k" "after_key k k'"
        "cy_starts_at k' + grace (cy_feature k) = d" "\<And>d'. cy_deletes_at k' = Some d' \<Longrightarrow> d \<le> d'"
      using d unfolding succeeded_def by blast
    have "cy_sequence k < cy_sequence k'"
      using k'(1,3) seqs by (auto simp: after_key_def i32_min_def list_all_iff)
    then have "\<not> usable_key k' now"
      using k k'(1,2) by (auto simp: signing_key_def list_all_iff)
    then have "now < cy_starts_at k'"
      using k'(5) \<open>now < d\<close> by (fastforce simp: usable_key_def split: option.splits)
    then show ?thesis
      using k'(4) by (simp add: grace_def)
  qed
  then show ?thesis
    using k by (auto simp: kept_until_def signing_key_def)
qed

text \<open>
  A request for keys never collides with the rotation: as long as the database's clock is not behind, it returns keys that
  are usable now, or mints the first key of the feature.
\<close>

lemma served_keys:
  assumes "reachable key_init key_step s" "clean_env E" "kt_now s \<le> pg_now"
  shows "if has_key f (kt_db s)
    then \<exists>keys. serve_crypto_keys E pg_now now f (kt_db s) = (kt_db s, Ok keys) \<and> keys \<noteq> [] \<and> (\<forall>k \<in> set keys. usable_key k pg_now)
    else \<exists>k. serve_crypto_keys E pg_now now f (kt_db s) = (kt_db s @ [k], Ok [k]) \<and> key_of k = (f, 1) \<and> cy_starts_at k \<le> now"
proof (cases "has_key f (kt_db s)")
  case True
  then have "has_usable f pg_now (kt_db s)"
    using rotation.reachable_inv [OF assms(1)] assms(3) by (auto simp: sys_key_inv_def key_inv_def)
  then have "list_crypto_keys_by_feature pg_now f (kt_db s) \<noteq> []" (is "?keys \<noteq> []")
    by (auto simp: list_crypto_keys_by_feature_def has_usable_def usable_key_def filter_empty_conv
        dest: arg_cong [where f = set])
  moreover have "\<forall>k \<in> set ?keys. usable_key k pg_now"
    by (auto simp: list_crypto_keys_by_feature_def usable_key_def)
  ultimately show ?thesis
    using True assms(2) by (simp add: serve_crypto_keys_def key_query_def clean_env_def)
next
  case False
  then have "list_crypto_keys_by_feature pg_now f (kt_db s) = []" "\<not> list_ex (key_at f 1) (kt_db s)"
    by (auto simp: list_crypto_keys_by_feature_def has_key_def list_ex_iff key_at_def filter_empty_conv)
  then show ?thesis
    using False assms(2) pg_instant_bounds(1) [of now]
    by (simp add: serve_crypto_keys_def key_query_def key_attempt_def clean_env_def insert_crypto_key_def key_of_def)
qed


text \<open>
  C17. A token outlives the rotation of its key: the key that signs now is still in the table, with the same secret and before
  its end, at every moment of the token's lifetime, through any sweeps and requests and any failed statements, as long as
  the sequence numbers have not wrapped around.
\<close>

theorem token_outlives_rotation:
  assumes "reachable key_init key_step s" "signing_key (kt_now s) (kt_db s) k" "list_all (\<lambda>r. 0 < cy_sequence r) (kt_db s)"
    "reachable (\<lambda>x. x = s) key_step s'" "kt_now s' \<le> kt_now s + int (token_duration (cy_feature k))"
  shows "\<exists>r \<in> set (kt_db s'). cy_feature r = cy_feature k \<and> cy_sequence r = cy_sequence k \<and> cy_secret r = cy_secret k \<and>
    usable_key r (kt_now s')"
proof -
  let ?b = "kt_now s + int (token_duration (cy_feature k))"
  have inv: "sys_key_inv s"
    by (rule rotation.reachable_inv [OF assms(1)])
  have "kept_until ?b k (kt_db s)"
    using signing_key_kept inv assms(2,3) by (simp add: sys_key_inv_def)
  then have "kept_until ?b k (kt_db s')" "kt_now s \<le> kt_now s'"
    using kept_until_later [OF assms(4) inv, of ?b k] assms(5) by (simp_all add: grace_def hour_ns_def seconds_ns_def)
  then show ?thesis
    using assms(2,5) by (fastforce simp: kept_until_def signing_key_def usable_key_def key_of_def split: option.splits)
qed

definition quiet_env :: key_env where
  "quiet_env = \<lparr> ke_fault = (\<lambda>_. None), ke_reject = Unavailable ''duplicate key'', ke_lock_free = True, ke_random = (\<lambda>_ i. of_nat i) \<rparr>"

definition first_sweep :: key_sys where
  "first_sweep = \<lparr> kt_now = 0, kt_db = fst (rotate_once quiet_env default_rotator_options 0 []) \<rparr>"

definition first_row :: "CryptoKeyFeature \<Rightarrow> CryptoKeyRow" where
  "first_row f = \<lparr> cy_feature = f, cy_sequence = 1, cy_secret = map of_nat [0..<secret_byte_length f], cy_starts_at = 0, cy_deletes_at = None \<rparr>"

lemma first_sweep: "first_sweep = \<lparr> kt_now = 0, kt_db = map first_row MANAGED_FEATURES \<rparr>"
  by (simp add: first_sweep_def rotate_once_def rotate_once_locked_def key_query_def quiet_env_def list_all_crypto_keys_def
      keys_by_feature MANAGED_FEATURES_def sweep_feature_def insert_new_key_def insert_crypto_key_def key_attempt_def key_at_def
      max_crypto_key_sequence_for_feature_def next_sequence_def i32_max_def pg_row_def pg_instant_def fresh_secret_def first_row_def)

lemma sweep_reachable:
  "reachable init key_step s \<Longrightarrow> kt_now s \<le> now \<Longrightarrow>
   reachable init key_step \<lparr> kt_now = now, kt_db = fst (rotate_once E options now (kt_db s)) \<rparr>"
  by (erule reach_step) (rule sweep_runs)

lemma first_sweep_reachable: "reachable key_init key_step first_sweep"
  using sweep_reachable [OF reach_init, of key_init "\<lparr> kt_now = 0, kt_db = [] \<rparr>" 0]
  by (simp add: key_init_def first_sweep_def)


theorem token_outlives_rotation_witness:
  "\<exists>(s :: key_sys) s' k. reachable key_init key_step s \<and> signing_key (kt_now s) (kt_db s) k \<and> reachable (\<lambda>x. x = s) key_step s' \<and>
     kt_now s' = kt_now s + 60000000000 \<and>
     (\<exists>r \<in> set (kt_db s'). cy_secret r = cy_secret k \<and> cy_sequence r = cy_sequence k \<and> usable_key r (kt_now s'))"
proof -
  let ?s' = "\<lparr> kt_now = 60000000000, kt_db = fst (rotate_once quiet_env \<lparr> ro_interval = 1, ro_key_duration = 1 \<rparr> 60000000000 (kt_db first_sweep)) \<rparr>"
  have step: "reachable (\<lambda>x. x = first_sweep) key_step ?s'"
    by (intro sweep_reachable reach_init) (simp_all add: first_sweep_def)
  have sign: "signing_key (kt_now first_sweep) (kt_db first_sweep) (first_row WorkspaceAppsToken)"
    by (simp add: first_sweep MANAGED_FEATURES_def signing_key_def first_row_def usable_key_def)
  have "list_all (\<lambda>r. 0 < cy_sequence r) (kt_db first_sweep)"
    by (simp add: first_sweep MANAGED_FEATURES_def first_row_def)
  moreover have "kt_now ?s' = kt_now first_sweep + 60000000000"
    by (simp add: first_sweep_def)
  moreover have "kt_now ?s' \<le> kt_now first_sweep + int (token_duration (cy_feature (first_row WorkspaceAppsToken)))"
    by (simp add: first_sweep_def first_row_def seconds_ns_def)
  ultimately show ?thesis
    using token_outlives_rotation [OF first_sweep_reachable sign _ step] first_sweep_reachable sign step by blast
qed

end
