(* ===== verification/Pubsub.thy ===== *)
theory Pubsub
  imports Prelude Byte_Codec Uuid_Text Pty_Token
begin

text \<open>
  Publish and subscribe: the channel names, the subscriptions and the in-memory hub of \<open>crates/coder-core/src/pubsub.rs\<close>, and
  the hub over Postgres of \<open>crates/coder-db/src/pubsub.rs\<close>. A broadcast channel is the log of what was sent into it, a
  receiver a position in the log. An operation of the Postgres hub is cut where it leaves the lock: what it does afterwards
  is a task that runs at some later moment, between the sections of the other operations and the turns of the listener.
\<close>

section \<open>Messages, errors and subscriptions\<close>

datatype PubSubError = PubSubUnavailable string | PubSubClosed

fun pubsub_error_display :: "PubSubError \<Rightarrow> string" where
  "pubsub_error_display (PubSubUnavailable message) = ''pubsub unavailable: '' @ message"
| "pubsub_error_display PubSubClosed = ''pubsub closed''"

definition PUBSUB_CAPACITY :: nat where
  "PUBSUB_CAPACITY = 2048"

text \<open>
  \<open>Subscription::recv\<close> on the log of its channel: a receiver that fell behind skips to the oldest message there is.
  \<open>None\<close> means that it waits.
\<close>

definition subscription_recv ::
  "byte list list \<Rightarrow> bool \<Rightarrow> nat \<Rightarrow> (PubSubError, byte list) result option \<times> nat" where
  "subscription_recv sent sender_alive pos =
     (let pos = max pos (length sent - PUBSUB_CAPACITY)
      in if pos < length sent then (Some (Ok (sent ! pos)), Suc pos)
         else if sender_alive then (None, pos)
         else (Some (Err PubSubClosed), pos))"

text \<open>The channel map behind its mutex; senders are cells with their log and the number of receivers.\<close>

record pubsub_hub =
  hu_closed :: bool
  hu_channels :: "(string, nat) hash_map"
  hu_sent :: "byte list list list"
  hu_receivers :: "nat list"

definition empty_hub :: pubsub_hub where
  "empty_hub = \<lparr> hu_closed = False, hu_channels = hm_empty, hu_sent = [], hu_receivers = [] \<rparr>"

definition get_or_create_sender :: "string \<Rightarrow> 'a pubsub_hub_scheme \<Rightarrow> 'a pubsub_hub_scheme \<times> nat" where
  "get_or_create_sender channel h =
     (case hm_get (hu_channels h) channel of
        Some r \<Rightarrow> (h, r)
      | None \<Rightarrow>
          let r = length (hu_sent h)
          in (h \<lparr> hu_channels := hm_insert channel r (hu_channels h), hu_sent := hu_sent h @ [[]],
                  hu_receivers := hu_receivers h @ [0] \<rparr>, r))"

text \<open>\<open>Sender::subscribe\<close>: a receiver at the end of the log. \<open>Sender::send\<close>: lost when there is no receiver.\<close>

definition sender_subscribe :: "nat \<Rightarrow> 'a pubsub_hub_scheme \<Rightarrow> 'a pubsub_hub_scheme \<times> nat" where
  "sender_subscribe r h = (h \<lparr> hu_receivers := (hu_receivers h)[r := Suc (hu_receivers h ! r)] \<rparr>, length (hu_sent h ! r))"

definition sender_send :: "nat \<Rightarrow> byte list \<Rightarrow> 'a pubsub_hub_scheme \<Rightarrow> 'a pubsub_hub_scheme" where
  "sender_send r message h =
     (if hu_receivers h ! r = 0 then h else h \<lparr> hu_sent := (hu_sent h)[r := hu_sent h ! r @ [message]] \<rparr>)"

definition release_receiver :: "nat \<Rightarrow> 'a pubsub_hub_scheme \<Rightarrow> 'a pubsub_hub_scheme" where
  "release_receiver r h = h \<lparr> hu_receivers := (hu_receivers h)[r := hu_receivers h ! r - 1] \<rparr>"

section \<open>The in-memory hub\<close>

definition in_memory_subscribe :: "string \<Rightarrow> pubsub_hub \<Rightarrow> pubsub_hub \<times> (PubSubError, nat \<times> nat) result" where
  "in_memory_subscribe channel h =
     (if hu_closed h then (h, Err PubSubClosed)
      else case get_or_create_sender channel h of (h, r) \<Rightarrow>
           (case sender_subscribe r h of (h, pos) \<Rightarrow> (h, Ok (r, pos))))"

definition in_memory_publish :: "string \<Rightarrow> byte list \<Rightarrow> pubsub_hub \<Rightarrow> pubsub_hub \<times> (PubSubError, unit) result" where
  "in_memory_publish channel message h =
     (if hu_closed h then (h, Err PubSubClosed)
      else case get_or_create_sender channel h of (h, r) \<Rightarrow> (sender_send r message h, Ok ()))"

definition in_memory_close :: "pubsub_hub \<Rightarrow> pubsub_hub \<times> (PubSubError, unit) result" where
  "in_memory_close h =
     (if hu_closed h then (h, Ok ())
      else (h \<lparr> hu_closed := True, hu_channels := hm_empty \<rparr>, Ok ()))"

section \<open>Text payloads\<close>

text \<open>
  \<open>std::str::from_utf8\<close>: the index of the first fault and the number of bytes it spans, unless the input just ends there.
\<close>

definition utf8_second :: "byte \<Rightarrow> byte \<Rightarrow> bool" where
  "utf8_second a b \<longleftrightarrow>
     utf8_cont b \<and> (a = 0xE0 \<longrightarrow> 0xA0 \<le> b) \<and> (a = 0xED \<longrightarrow> b \<le> 0x9F) \<and> (a = 0xF0 \<longrightarrow> 0x90 \<le> b) \<and> (a = 0xF4 \<longrightarrow> b \<le> 0x8F)"

definition utf8_width :: "byte \<Rightarrow> nat" where
  "utf8_width a =
     (if a < 0x80 then 1 else if 0xC2 \<le> a \<and> a \<le> 0xDF then 2 else if 0xE0 \<le> a \<and> a \<le> 0xEF then 3
      else if 0xF0 \<le> a \<and> a \<le> 0xF4 then 4 else 0)"

text \<open>The first fault of one character: \<open>Inl None\<close> when input is missing, \<open>Inl (Some n)\<close> when \<open>n\<close> bytes are wrong, or its width.\<close>

definition utf8_char :: "byte \<Rightarrow> byte list \<Rightarrow> nat option + nat" where
  "utf8_char a bs =
     (let w = utf8_width a
      in if w = 0 then Inl (Some 1)
         else if w = 1 then Inr 1
         else if bs = [] then Inl None
         else if \<not> utf8_second a (bs ! 0) then Inl (Some 1)
         else if w = 2 then Inr 2
         else if length bs < 2 then Inl None
         else if \<not> utf8_cont (bs ! 1) then Inl (Some 2)
         else if w = 3 then Inr 3
         else if length bs < 3 then Inl None
         else if \<not> utf8_cont (bs ! 2) then Inl (Some 3)
         else Inr 4)"

function utf8_fault :: "nat \<Rightarrow> byte list \<Rightarrow> (nat \<times> nat option) option" where
  "utf8_fault i [] = None"
| "utf8_fault i (a # bs) =
     (case utf8_char a bs of
        Inl n \<Rightarrow> Some (i, n)
      | Inr w \<Rightarrow> utf8_fault (i + w) (drop (w - 1) bs))"
  by pat_completeness auto
termination
  by (relation "measure (\<lambda>(i, bs). length bs)") auto

text \<open>The two readings of the standard library's test agree.\<close>

lemma utf8_fault_valid: "utf8_fault i bs = None \<longleftrightarrow> utf8_valid bs"
proof (induction i bs rule: utf8_fault.induct)
  case (2 i a bs)
  have "utf8_width a \<in> {0, 1, 2, 3, 4}"
    by (simp add: utf8_width_def)
  then consider (w1) "utf8_width a = 1" | (w2) "utf8_width a = 2" | (w3) "utf8_width a = 3" | (w4) "utf8_width a = 4" | (w0) "utf8_width a = 0"
    by (elim insertE emptyE)
  then show ?case
  proof cases
    case w1
    then show ?thesis
      using 2 by (simp add: utf8_char_def utf8_width_def Let_def split: if_splits)
  next
    case w2
    then have "\<not> a < 0x80" "0xC2 \<le> a" "a \<le> 0xDF" "a \<noteq> 0xE0" "a \<noteq> 0xED" "a \<noteq> 0xF0" "a \<noteq> 0xF4"
      by (auto simp: utf8_width_def split: if_splits)
    then show ?thesis
      using 2 w2 by (cases bs) (auto simp: utf8_char_def utf8_second_def Let_def)
  next
    case w3
    then have "\<not> a < 0x80" "\<not> (0xC2 \<le> a \<and> a \<le> 0xDF)" "0xE0 \<le> a" "a \<le> 0xEF" "a \<noteq> 0xF0" "a \<noteq> 0xF4"
      by (auto simp: utf8_width_def split: if_splits)
    note a = this w3 utf8_char_def utf8_second_def
    have "bs = [] \<or> (\<exists>b. bs = [b]) \<or> (\<exists>b c ds. bs = b # c # ds)"
      by (metis list.exhaust)
    then show ?thesis
      using 2 [of 3] by (elim disjE exE) (simp_all add: a Let_def split: if_split, blast)
  next
    case w4
    then have "\<not> a < 0x80" "\<not> (0xC2 \<le> a \<and> a \<le> 0xDF)" "\<not> (0xE0 \<le> a \<and> a \<le> 0xEF)" "0xF0 \<le> a" "a \<le> 0xF4" "a \<noteq> 0xE0" "a \<noteq> 0xED"
      by (auto simp: utf8_width_def split: if_splits)
    note a = this w4 utf8_char_def utf8_second_def
    have "bs = [] \<or> (\<exists>b. bs = [b]) \<or> (\<exists>b c. bs = [b, c]) \<or> (\<exists>b c d ds. bs = b # c # d # ds)"
      by (metis list.exhaust)
    then show ?thesis
      using 2 [of 4] by (elim disjE exE) (simp_all add: a Let_def split: if_split, blast)
  next
    case w0
    then show ?thesis
      by (auto simp: utf8_char_def utf8_width_def Let_def split: if_splits)
  qed
qed simp

definition utf8_error_display :: "nat \<times> nat option \<Rightarrow> string" where
  "utf8_error_display e =
     (case e of
        (i, Some n) \<Rightarrow> ''invalid utf-8 sequence of '' @ nat_str n @ '' bytes from index '' @ nat_str i
      | (i, None) \<Rightarrow> ''incomplete utf-8 byte sequence from index '' @ nat_str i)"

section \<open>The hub over Postgres\<close>

datatype ListenerCommand = Listen string | Unlisten string | CloseListener

text \<open>What an operation has left to do after it has given up the lock.\<close>

datatype pubsub_task =
    SendListen string nat
  | ForgetChannel string nat
  | NotifyTask string "byte list"
  | CleanUp string
  | SendUnlisten string
  | SendClose

text \<open>
  \<open>pn_commands\<close> is the queue to the listener, \<open>pn_running\<close> says that the listener holds its end of it; \<open>pn_listening\<close> are the
  channels its connection listens to, and \<open>pn_inbox\<close> the notifications it has not taken. \<open>pn_raced\<close> records the channels
  that were created while an \<open>Unlisten\<close> of the same name had been decided on and not yet sent.
\<close>

record postgres_pubsub = pubsub_hub +
  pn_commands :: "ListenerCommand list"
  pn_running :: bool
  pn_listening :: "string hash_set"
  pn_inbox :: "(string \<times> byte list) list"
  pn_tasks :: "pubsub_task list"
  pn_raced :: "string list"

definition postgres_new :: postgres_pubsub where
  "postgres_new =
     \<lparr> hu_closed = False, hu_channels = hm_empty, hu_sent = [], hu_receivers = [], pn_commands = [], pn_running = True,
        pn_listening = [], pn_inbox = [], pn_tasks = [], pn_raced = [] \<rparr>"

definition add_task :: "pubsub_task \<Rightarrow> postgres_pubsub \<Rightarrow> postgres_pubsub" where
  "add_task t s = s \<lparr> pn_tasks := pn_tasks s @ [t] \<rparr>"

text \<open>The locked part of \<open>subscribe\<close>; a new channel leaves the \<open>Listen\<close> command to be sent.\<close>

definition postgres_subscribe :: "string \<Rightarrow> postgres_pubsub \<Rightarrow> postgres_pubsub \<times> (PubSubError, nat \<times> nat) result" where
  "postgres_subscribe channel s =
     (if hu_closed s then (s, Err PubSubClosed)
      else let need_listen = (hm_get (hu_channels s) channel = None);
               (s, r) = get_or_create_sender channel s;
               (s, pos) = sender_subscribe r s
           in (if need_listen
               then add_task (SendListen channel r)
                      (if SendUnlisten channel \<in> set (pn_tasks s) then s \<lparr> pn_raced := channel # pn_raced s \<rparr> else s)
               else s, Ok (r, pos)))"

text \<open>The checks of \<open>publish\<close>; the notification is left to be sent. The caller alone sees the error of a notification that fails.\<close>

definition postgres_publish :: "string \<Rightarrow> byte list \<Rightarrow> postgres_pubsub \<Rightarrow> postgres_pubsub \<times> (PubSubError, unit) result" where
  "postgres_publish channel message s =
     (if hu_closed s then (s, Err PubSubClosed)
      else case utf8_fault 0 message of
             Some e \<Rightarrow> (s, Err (PubSubUnavailable (''payload is not valid UTF-8: '' @ utf8_error_display e)))
           | None \<Rightarrow> (add_task (NotifyTask channel message) s, Ok ()))"

definition postgres_close :: "postgres_pubsub \<Rightarrow> postgres_pubsub" where
  "postgres_close s =
     (if hu_closed s then s else add_task SendClose (s \<lparr> hu_closed := True, hu_channels := hm_empty \<rparr>))"

text \<open>\<open>pg_notify\<close>: the notification reaches the connections that listen to the channel.\<close>

definition pg_notify :: "string \<Rightarrow> byte list \<Rightarrow> postgres_pubsub \<Rightarrow> postgres_pubsub" where
  "pg_notify channel message s =
     (if pn_running s \<and> channel \<in> set (pn_listening s) then s \<lparr> pn_inbox := pn_inbox s @ [(channel, message)] \<rparr> else s)"

definition maybe_cleanup_channel :: "string \<Rightarrow> postgres_pubsub \<Rightarrow> postgres_pubsub" where
  "maybe_cleanup_channel channel s =
     (case hm_get (hu_channels s) channel of
        Some r \<Rightarrow>
          if hu_receivers s ! r = 0
          then add_task (SendUnlisten channel) (s \<lparr> hu_channels := hm_remove channel (hu_channels s) \<rparr>)
          else s
      | None \<Rightarrow> s)"

definition send_command :: "ListenerCommand \<Rightarrow> postgres_pubsub \<Rightarrow> postgres_pubsub" where
  "send_command c s = (if pn_running s then s \<lparr> pn_commands := pn_commands s @ [c] \<rparr> else s)"

text \<open>
  A task takes its next section. \<open>fault\<close> is the failure of the notification, \<open>kept\<close> whether it was sent all the same.
\<close>

definition run_task :: "bool \<Rightarrow> bool \<Rightarrow> pubsub_task \<Rightarrow> postgres_pubsub \<Rightarrow> postgres_pubsub" where
  "run_task fault kept t s =
     (let s = s \<lparr> pn_tasks := remove1 t (pn_tasks s) \<rparr>
      in case t of
           SendListen channel r \<Rightarrow>
             if pn_running s then send_command (Listen channel) s else add_task (ForgetChannel channel r) s
         | ForgetChannel channel r \<Rightarrow> release_receiver r (s \<lparr> hu_channels := hm_remove channel (hu_channels s) \<rparr>)
         | NotifyTask channel message \<Rightarrow>
             if fault then (if kept then pg_notify channel message s else s)
             else add_task (CleanUp channel) (pg_notify channel message s)
         | CleanUp channel \<Rightarrow> maybe_cleanup_channel channel s
         | SendUnlisten channel \<Rightarrow> send_command (Unlisten channel) s
         | SendClose \<Rightarrow> send_command CloseListener s)"

text \<open>A turn of \<open>listener_loop\<close> over a command, which the database may refuse, or over a notification.\<close>

definition listener_command :: "bool \<Rightarrow> postgres_pubsub \<Rightarrow> postgres_pubsub" where
  "listener_command accepted s =
     (case pn_commands s of
        [] \<Rightarrow> s
      | c # cs \<Rightarrow>
          let s = s \<lparr> pn_commands := cs \<rparr>
          in (case c of
                Listen channel \<Rightarrow>
                  if accepted then s \<lparr> pn_listening := hs_insert channel (pn_listening s) \<rparr>
                  else s \<lparr> hu_channels := hm_remove channel (hu_channels s) \<rparr>
              | Unlisten channel \<Rightarrow>
                  if accepted then s \<lparr> pn_listening := hs_remove channel (pn_listening s) \<rparr> else s
              | CloseListener \<Rightarrow> s \<lparr> pn_running := False \<rparr>))"

definition listener_notification :: "postgres_pubsub \<Rightarrow> postgres_pubsub" where
  "listener_notification s =
     (case pn_inbox s of
        [] \<Rightarrow> s
      | (channel, message) # inbox \<Rightarrow>
          let s = s \<lparr> pn_inbox := inbox \<rparr>
          in (case hm_get (hu_channels s) channel of
                Some r \<Rightarrow> sender_send r message s
              | None \<Rightarrow> s))"

inductive pubsub_step :: "postgres_pubsub \<Rightarrow> postgres_pubsub \<Rightarrow> bool" where
  subscribes: "pubsub_step s (fst (postgres_subscribe channel s))"
| publishes: "pubsub_step s (fst (postgres_publish channel message s))"
| closes: "pubsub_step s (postgres_close s)"
| task_runs: "t \<in> set (pn_tasks s) \<Longrightarrow> pubsub_step s (run_task fault kept t s)"
| receiver_drops: "0 < hu_receivers s ! r \<Longrightarrow> pubsub_step s (release_receiver r s)"
| listener_obeys: "pn_running s \<Longrightarrow> pubsub_step s (listener_command accepted s)"
| listener_hears: "pn_running s \<Longrightarrow> pubsub_step s (listener_notification s)"
| connection_lost: "pubsub_step s (s \<lparr> pn_inbox := [] \<rparr>)"

section \<open>Channel names\<close>

definition workspace_event_channel :: "uuid_codec \<Rightarrow> uuid \<Rightarrow> string" where
  "workspace_event_channel U owner_id = ''workspace_owner:'' @ to_string U owner_id"

definition workspace_agent_channel :: "uuid_codec \<Rightarrow> uuid \<Rightarrow> string" where
  "workspace_agent_channel U agent_id = ''workspace_agent:'' @ to_string U agent_id"

definition workspace_build_logs_channel :: "uuid_codec \<Rightarrow> uuid \<Rightarrow> string" where
  "workspace_build_logs_channel U build_id = ''workspace_build_logs:'' @ to_string U build_id"

definition workspace_agent_logs_channel :: "uuid_codec \<Rightarrow> uuid \<Rightarrow> string" where
  "workspace_agent_logs_channel U agent_id = ''workspace_agent_logs:'' @ to_string U agent_id"

definition workspace_agent_reinit_channel :: "uuid_codec \<Rightarrow> uuid \<Rightarrow> string" where
  "workspace_agent_reinit_channel U agent_id = ''workspace_agent_reinit:'' @ to_string U agent_id"

definition workspace_agent_containers_channel :: "uuid_codec \<Rightarrow> uuid \<Rightarrow> string" where
  "workspace_agent_containers_channel U agent_id = ''workspace_agent_containers:'' @ to_string U agent_id"

definition workspace_agent_metadata_channel :: "uuid_codec \<Rightarrow> uuid \<Rightarrow> string" where
  "workspace_agent_metadata_channel U agent_id = ''workspace_agent_metadata:'' @ to_string U agent_id"

definition workspace_agent_pty_input_channel :: "uuid_codec \<Rightarrow> uuid \<Rightarrow> string" where
  "workspace_agent_pty_input_channel U agent_id = ''workspace_agent_pty_input:'' @ to_string U agent_id"

definition workspace_agent_pty_output_channel :: "uuid_codec \<Rightarrow> uuid \<Rightarrow> string" where
  "workspace_agent_pty_output_channel U agent_id = ''workspace_agent_pty_output:'' @ to_string U agent_id"

definition inbox_notification_channel :: "uuid_codec \<Rightarrow> uuid \<Rightarrow> string" where
  "inbox_notification_channel U user_id = ''inbox_notification:owner:'' @ to_string U user_id"

definition REPLICA_EVENTS_CHANNEL :: string where
  "REPLICA_EVENTS_CHANNEL = ''replica''"

section \<open>Which channels are listened to\<close>

text \<open>The channels the connection listens to once the listener has worked off its queue.\<close>

fun apply_command :: "ListenerCommand \<Rightarrow> string hash_set \<Rightarrow> string hash_set" where
  "apply_command (Listen channel) l = hs_insert channel l"
| "apply_command (Unlisten channel) l = hs_remove channel l"
| "apply_command CloseListener l = l"

definition will_listen :: "postgres_pubsub \<Rightarrow> string set" where
  "will_listen s = set (fold apply_command (pn_commands s) (pn_listening s))"

definition heard :: "postgres_pubsub \<Rightarrow> string \<Rightarrow> bool" where
  "heard s channel \<longleftrightarrow> channel \<in> will_listen s \<or> (\<exists>r. SendListen channel r \<in> set (pn_tasks s)) \<or> channel \<in> set (pn_raced s)"

definition pubsub_inv :: "postgres_pubsub \<Rightarrow> bool" where
  "pubsub_inv s \<longleftrightarrow>
     hm_wf (hu_channels s) \<and> length (hu_receivers s) = length (hu_sent s) \<and>
     (\<forall>c r. hm_get (hu_channels s) c = Some r \<longrightarrow> r < length (hu_sent s)) \<and>
     (\<forall>c. SendUnlisten c \<in> set (pn_tasks s) \<longrightarrow> hm_get (hu_channels s) c = None \<or> c \<in> set (pn_raced s)) \<and>
     (pn_running s \<longrightarrow> (\<forall>c. hm_get (hu_channels s) c \<noteq> None \<longrightarrow> heard s c))"

text \<open>The parts of the state a step keeps, so that its effect on the invariant can be read off.\<close>

lemma pubsub_invI:
  assumes "pubsub_inv s" "hm_wf (hu_channels s')" "length (hu_receivers s') = length (hu_sent s')"
    "\<And>c r. hm_get (hu_channels s') c = Some r \<Longrightarrow> r < length (hu_sent s')"
    "\<And>c. SendUnlisten c \<in> set (pn_tasks s') \<Longrightarrow> hm_get (hu_channels s') c \<noteq> None \<Longrightarrow> c \<in> set (pn_raced s')"
    "\<And>c r. pn_running s' \<Longrightarrow> hm_get (hu_channels s') c = Some r \<Longrightarrow> heard s' c"
  shows "pubsub_inv s'"
  using assms unfolding pubsub_inv_def by blast

lemma pubsub_invD:
  assumes "pubsub_inv s"
  shows "hm_wf (hu_channels s)" "length (hu_receivers s) = length (hu_sent s)"
    "hm_get (hu_channels s) c = Some r \<Longrightarrow> r < length (hu_sent s)"
    "SendUnlisten c \<in> set (pn_tasks s) \<Longrightarrow> hm_get (hu_channels s) c = Some r \<Longrightarrow> c \<in> set (pn_raced s)"
    "pn_running s \<Longrightarrow> hm_get (hu_channels s) c = Some r \<Longrightarrow> heard s c"
  using assms unfolding pubsub_inv_def by auto

lemma remove_get: "hm_wf m \<Longrightarrow> hm_get (hm_remove c m) c' = Some r \<Longrightarrow> c' \<noteq> c \<and> hm_get m c' = Some r"
  by (simp add: hm.get_remove split: if_splits)

lemma release_receiver_sel [simp]:
  "hu_closed (release_receiver r s) = hu_closed s" "hu_channels (release_receiver r s) = hu_channels s" "hu_sent (release_receiver r s) = hu_sent s"
  "length (hu_receivers (release_receiver r s)) = length (hu_receivers s)"
  "pn_commands (release_receiver r s) = pn_commands s" "pn_running (release_receiver r s) = pn_running s"
  "pn_listening (release_receiver r s) = pn_listening s" "pn_tasks (release_receiver r s) = pn_tasks s"
  "pn_raced (release_receiver r s) = pn_raced s" "pn_inbox (release_receiver r s) = pn_inbox s"
  by (simp_all add: release_receiver_def)

lemma sender_send_sel [simp]:
  "hu_closed (sender_send r m s) = hu_closed s" "hu_channels (sender_send r m s) = hu_channels s" "hu_receivers (sender_send r m s) = hu_receivers s"
  "length (hu_sent (sender_send r m s)) = length (hu_sent s)"
  "pn_commands (sender_send r m s) = pn_commands s" "pn_running (sender_send r m s) = pn_running s"
  "pn_listening (sender_send r m s) = pn_listening s" "pn_tasks (sender_send r m s) = pn_tasks s"
  "pn_raced (sender_send r m s) = pn_raced s" "pn_inbox (sender_send r m s) = pn_inbox s"
  by (simp_all add: sender_send_def)

text \<open>Steps that leave the channels, the commands and the tasks of sending alone.\<close>

lemma pubsub_inv_quiet:
  assumes "pubsub_inv s" "hu_channels s' = hu_channels s" "length (hu_sent s') = length (hu_sent s)"
    "length (hu_receivers s') = length (hu_receivers s)" "pn_commands s' = pn_commands s" "pn_running s' = pn_running s"
    "pn_listening s' = pn_listening s" "pn_raced s' = pn_raced s"
    "\<And>c. SendUnlisten c \<in> set (pn_tasks s') \<Longrightarrow> SendUnlisten c \<in> set (pn_tasks s)"
    "\<And>c r. SendListen c r \<in> set (pn_tasks s) \<Longrightarrow> SendListen c r \<in> set (pn_tasks s')"
  shows "pubsub_inv s'"
  using assms unfolding pubsub_inv_def heard_def will_listen_def by (metis (no_types, lifting))

lemma pubsub_inv_publish: "pubsub_inv s \<Longrightarrow> pubsub_inv (fst (postgres_publish channel message s))"
  by (erule pubsub_inv_quiet) (auto simp: postgres_publish_def add_task_def split: option.splits if_splits)

lemma pubsub_inv_close: "pubsub_inv s \<Longrightarrow> pubsub_inv (postgres_close s)"
  by (simp add: postgres_close_def add_task_def pubsub_inv_def hm.wf_empty)

lemma pubsub_inv_notification: "pubsub_inv s \<Longrightarrow> pubsub_inv (listener_notification s)"
  by (erule pubsub_inv_quiet) (auto simp: listener_notification_def Let_def split: list.splits prod.splits option.splits)

lemma pubsub_inv_lost: "pubsub_inv s \<Longrightarrow> pubsub_inv (s \<lparr> pn_inbox := [] \<rparr>)"
  by (erule pubsub_inv_quiet) simp_all

lemma pubsub_inv_drop: "pubsub_inv s \<Longrightarrow> pubsub_inv (release_receiver r s)"
  by (erule pubsub_inv_quiet) simp_all

lemma get_or_create_new:
  "hm_get (hu_channels s) c = None \<Longrightarrow>
   get_or_create_sender c s =
     (s \<lparr> hu_channels := hm_insert c (length (hu_sent s)) (hu_channels s), hu_sent := hu_sent s @ [[]], hu_receivers := hu_receivers s @ [0] \<rparr>,
      length (hu_sent s))"
  by (simp add: get_or_create_sender_def Let_def)

lemma get_or_create_old: "hm_get (hu_channels s) c = Some r \<Longrightarrow> get_or_create_sender c s = (s, r)"
  by (simp add: get_or_create_sender_def)

lemma pubsub_inv_subscribe:
  assumes inv: "pubsub_inv s"
  shows "pubsub_inv (fst (postgres_subscribe channel s))" (is "pubsub_inv ?s'")
proof (cases "hu_closed s")
  case True
  then show ?thesis
    using inv by (simp add: postgres_subscribe_def)
next
  case open_hub: False
  show ?thesis
  proof (cases "hm_get (hu_channels s) channel")
    case (Some r)
    then show ?thesis
      using open_hub
      by (intro pubsub_inv_quiet [OF inv]) (simp_all add: postgres_subscribe_def get_or_create_old sender_subscribe_def)
  next
    case None
    note new = postgres_subscribe_def get_or_create_new [OF None] sender_subscribe_def add_task_def open_hub None
    have chan: "hu_channels ?s' = hm_insert channel (length (hu_sent s)) (hu_channels s)"
      by (simp add: new)
    have rest: "length (hu_sent ?s') = Suc (length (hu_sent s))" "length (hu_receivers ?s') = Suc (length (hu_receivers s))"
        "pn_commands ?s' = pn_commands s" "pn_running ?s' = pn_running s" "pn_listening ?s' = pn_listening s"
        "pn_tasks ?s' = pn_tasks s @ [SendListen channel (length (hu_sent s))]"
        "pn_raced ?s' = (if SendUnlisten channel \<in> set (pn_tasks s) then channel # pn_raced s else pn_raced s)"
      by (simp_all add: new)
    show ?thesis
    proof (rule pubsub_invI [OF inv])
      show "hm_wf (hu_channels ?s')"
        using pubsub_invD(1) [OF inv] by (simp add: chan hm.wf_insert)
      show "length (hu_receivers ?s') = length (hu_sent ?s')"
        using pubsub_invD(2) [OF inv] by (simp add: rest)
      show "r < length (hu_sent ?s')" if "hm_get (hu_channels ?s') c = Some r" for c r
        using that pubsub_invD(3) [OF inv, of c r] by (auto simp: chan rest hm.get_insert split: if_splits)
      show "c \<in> set (pn_raced ?s')" if "SendUnlisten c \<in> set (pn_tasks ?s')" "hm_get (hu_channels ?s') c \<noteq> None" for c
        using that pubsub_invD(4) [OF inv, of c] by (auto simp: chan rest hm.get_insert split: if_splits)
      show "heard ?s' c" if "pn_running ?s'" "hm_get (hu_channels ?s') c = Some r" for c r
        using that pubsub_invD(5) [OF inv, of c r]
        by (auto simp: chan rest hm.get_insert heard_def will_listen_def split: if_splits)
    qed
  qed
qed

lemma pubsub_inv_cleanup:
  assumes inv: "pubsub_inv s"
  shows "pubsub_inv (maybe_cleanup_channel channel s)"
proof (cases "hm_get (hu_channels s) channel")
  case (Some r)
  show ?thesis
  proof (cases "hu_receivers s ! r = 0")
    case True
    let ?s' = "maybe_cleanup_channel channel s"
    have eq: "?s' = s \<lparr> hu_channels := hm_remove channel (hu_channels s), pn_tasks := pn_tasks s @ [SendUnlisten channel] \<rparr>"
      by (simp add: maybe_cleanup_channel_def Some True add_task_def)
    note wf = pubsub_invD(1) [OF inv]
    show ?thesis
    proof (rule pubsub_invI [OF inv])
      show "r < length (hu_sent ?s')" if "hm_get (hu_channels ?s') c = Some r" for c r
        using that remove_get [OF wf] pubsub_invD(3) [OF inv] by (simp add: eq) blast
      show "c \<in> set (pn_raced ?s')" if "SendUnlisten c \<in> set (pn_tasks ?s')" "hm_get (hu_channels ?s') c \<noteq> None" for c
        using that remove_get [OF wf] pubsub_invD(4) [OF inv] by (auto simp: eq)
      show "heard ?s' c" if "pn_running ?s'" "hm_get (hu_channels ?s') c = Some r" for c r
        using that remove_get [OF wf, of channel c r] pubsub_invD(5) [OF inv, of c r]
        by (auto simp: eq heard_def will_listen_def)
    qed (use wf pubsub_invD(2) [OF inv] in \<open>simp_all add: eq hm.wf_remove\<close>)
  next
    case False
    then show ?thesis
      using inv by (simp add: maybe_cleanup_channel_def Some)
  qed
next
  case None
  then show ?thesis
    using inv by (simp add: maybe_cleanup_channel_def)
qed

lemma pubsub_inv_unqueue:
  assumes "pubsub_inv s" "\<And>c r. t \<noteq> SendListen c r"
  shows "pubsub_inv (s \<lparr> pn_tasks := remove1 t (pn_tasks s) \<rparr>)"
proof (rule pubsub_inv_quiet [OF assms(1)])
  fix c r
  show "SendUnlisten c \<in> set (pn_tasks s)" if "SendUnlisten c \<in> set (pn_tasks (s \<lparr> pn_tasks := remove1 t (pn_tasks s) \<rparr>))"
    using that notin_set_remove1 by fastforce
  show "SendListen c r \<in> set (pn_tasks (s \<lparr> pn_tasks := remove1 t (pn_tasks s) \<rparr>))" if "SendListen c r \<in> set (pn_tasks s)"
    using that in_set_remove1 [of "SendListen c r" t "pn_tasks s"] assms(2) [of c r] by simp
qed simp_all

lemma pubsub_inv_forget:
  assumes inv: "pubsub_inv s"
  shows "pubsub_inv (s \<lparr> hu_channels := hm_remove channel (hu_channels s) \<rparr>)" (is "pubsub_inv ?s'")
proof (rule pubsub_invI [OF inv])
  note wf = pubsub_invD(1) [OF inv]
  show "hm_wf (hu_channels ?s')"
    using wf by (simp add: hm.wf_remove)
  show "length (hu_receivers ?s') = length (hu_sent ?s')"
    using pubsub_invD(2) [OF inv] by simp
  show "r < length (hu_sent ?s')" if "hm_get (hu_channels ?s') c = Some r" for c r
    using that remove_get [OF wf, of channel c r] pubsub_invD(3) [OF inv, of c r] by simp
  show "c \<in> set (pn_raced ?s')" if "SendUnlisten c \<in> set (pn_tasks ?s')" "hm_get (hu_channels ?s') c \<noteq> None" for c
    using that remove_get [OF wf, of channel c] pubsub_invD(4) [OF inv, of c] by auto
  show "heard ?s' c" if "pn_running ?s'" "hm_get (hu_channels ?s') c = Some r" for c r
    using that remove_get [OF wf, of channel c r] pubsub_invD(5) [OF inv, of c r] by (simp add: heard_def will_listen_def)
qed

lemma pubsub_inv_listen_sent:
  assumes inv: "pubsub_inv s"
  shows "pubsub_inv (run_task fault kept (SendListen channel r) s)" (is "pubsub_inv ?s'")
proof (cases "pn_running s")
  case True
  have eq: "?s' = s \<lparr> pn_tasks := remove1 (SendListen channel r) (pn_tasks s), pn_commands := pn_commands s @ [Listen channel] \<rparr>"
    using True by (simp add: run_task_def send_command_def Let_def)
  show ?thesis
  proof (rule pubsub_invI [OF inv])
    show "c \<in> set (pn_raced ?s')" if "SendUnlisten c \<in> set (pn_tasks ?s')" "hm_get (hu_channels ?s') c \<noteq> None" for c
      using that pubsub_invD(4) [OF inv, of c] by (auto simp: eq dest: notin_set_remove1)
    show "heard ?s' c" if "pn_running ?s'" "hm_get (hu_channels ?s') c = Some q" for c q
      using that pubsub_invD(5) [OF inv, of c q] by (auto simp: eq heard_def will_listen_def in_set_remove1)
  qed (use pubsub_invD(1,2,3) [OF inv] in \<open>simp_all add: eq\<close>)
next
  case False
  then show ?thesis
    using inv by (auto simp: run_task_def add_task_def Let_def pubsub_inv_def dest: notin_set_remove1)
qed

lemma pubsub_inv_unlisten_sent:
  assumes inv: "pubsub_inv s" and t: "SendUnlisten channel \<in> set (pn_tasks s)"
  shows "pubsub_inv (run_task fault kept (SendUnlisten channel) s)" (is "pubsub_inv ?s'")
proof (cases "pn_running s")
  case True
  have eq: "?s' = s \<lparr> pn_tasks := remove1 (SendUnlisten channel) (pn_tasks s), pn_commands := pn_commands s @ [Unlisten channel] \<rparr>"
    using True by (simp add: run_task_def send_command_def Let_def)
  show ?thesis
  proof (rule pubsub_invI [OF inv])
    show "c \<in> set (pn_raced ?s')" if "SendUnlisten c \<in> set (pn_tasks ?s')" "hm_get (hu_channels ?s') c \<noteq> None" for c
      using that pubsub_invD(4) [OF inv, of c] by (auto simp: eq dest: notin_set_remove1)
    show "heard ?s' c" if "pn_running ?s'" "hm_get (hu_channels ?s') c = Some q" for c q
      using that pubsub_invD(5) [OF inv, of c q] pubsub_invD(4) [OF inv t, of q]
      by (auto simp: eq heard_def will_listen_def in_set_remove1)
  qed (use pubsub_invD(1,2,3) [OF inv] in \<open>simp_all add: eq\<close>)
next
  case False
  then show ?thesis
    using pubsub_inv_unqueue [OF inv, of "SendUnlisten channel"] by (simp add: run_task_def send_command_def Let_def)
qed

lemma pubsub_inv_notify: "pubsub_inv s \<Longrightarrow> pubsub_inv (pg_notify channel message s)"
  by (erule pubsub_inv_quiet) (auto simp: pg_notify_def split: if_splits)

lemma pubsub_inv_task_cleanup: "pubsub_inv s \<Longrightarrow> pubsub_inv (add_task (CleanUp channel) s)"
  by (erule pubsub_inv_quiet) (auto simp: add_task_def)

lemma pubsub_inv_send_close: "pubsub_inv s \<Longrightarrow> pubsub_inv (send_command CloseListener s)"
  by (simp add: send_command_def pubsub_inv_def heard_def will_listen_def)

lemma pubsub_inv_task:
  assumes inv: "pubsub_inv s" and t: "t \<in> set (pn_tasks s)"
  shows "pubsub_inv (run_task fault kept t s)"
proof (cases t)
  case (SendListen channel r)
  then show ?thesis
    using pubsub_inv_listen_sent [OF inv] by simp
next
  case (SendUnlisten channel)
  then show ?thesis
    using pubsub_inv_unlisten_sent [OF inv] t by simp
next
  case (ForgetChannel channel r)
  then show ?thesis
    using pubsub_inv_drop [OF pubsub_inv_forget [OF pubsub_inv_unqueue [OF inv, of t]]] by (simp add: run_task_def Let_def)
next
  case (NotifyTask channel message)
  then show ?thesis
    using pubsub_inv_unqueue [OF inv, of t] pubsub_inv_notify [of "s \<lparr> pn_tasks := remove1 t (pn_tasks s) \<rparr>" channel message]
      pubsub_inv_task_cleanup
    by (simp add: run_task_def Let_def)
next
  case (CleanUp channel)
  then show ?thesis
    using pubsub_inv_cleanup [OF pubsub_inv_unqueue [OF inv, of t]] by (simp add: run_task_def Let_def)
next
  case SendClose
  then show ?thesis
    using pubsub_inv_send_close [OF pubsub_inv_unqueue [OF inv, of t]] by (simp add: run_task_def Let_def)
qed

lemma apply_commands_mono:
  "(x \<in> set a \<Longrightarrow> x \<in> set b) \<Longrightarrow> x \<in> set (fold apply_command cs a) \<Longrightarrow> x \<in> set (fold apply_command cs b)"
proof (induction cs arbitrary: a b)
  case (Cons c cs)
  have "x \<in> set (apply_command c b)" if "x \<in> set (apply_command c a)"
    using that Cons.prems(1) by (cases c) auto
  then show ?case
    using Cons.IH [of "apply_command c a" "apply_command c b"] Cons.prems(2) by simp
qed simp

lemma pubsub_inv_obeyed:
  assumes inv: "pubsub_inv s" and c: "pn_commands s = c # cs" and wf: "hm_wf m"
    and sub: "\<And>x r. hm_get m x = Some r \<Longrightarrow> hm_get (hu_channels s) x = Some r"
    and l: "\<And>x r. hm_get m x = Some r \<Longrightarrow> x \<in> set (apply_command c (pn_listening s)) \<Longrightarrow> x \<in> set l"
  shows "pubsub_inv (s \<lparr> pn_commands := cs, pn_listening := l, hu_channels := m \<rparr>)" (is "pubsub_inv ?s'")
proof (rule pubsub_invI [OF inv])
  show "r < length (hu_sent ?s')" if "hm_get (hu_channels ?s') x = Some r" for x r
    using that sub [of x r] pubsub_invD(3) [OF inv, of x r] by simp
  show "x \<in> set (pn_raced ?s')" if "SendUnlisten x \<in> set (pn_tasks ?s')" "hm_get (hu_channels ?s') x \<noteq> None" for x
    using that sub pubsub_invD(4) [OF inv] by auto
  show "heard ?s' x" if "pn_running ?s'" "hm_get (hu_channels ?s') x = Some r" for x r
    using that sub [of x r] pubsub_invD(5) [OF inv, of x r] l [of x r]
      apply_commands_mono [of x "apply_command c (pn_listening s)" l cs]
    by (auto simp: heard_def will_listen_def c)
qed (use wf pubsub_invD(2) [OF inv] in simp_all)

lemma pubsub_inv_command:
  assumes inv: "pubsub_inv s"
  shows "pubsub_inv (listener_command accepted s)"
proof (cases "pn_commands s")
  case Nil
  then show ?thesis
    using inv by (simp add: listener_command_def)
next
  case (Cons c cs)
  note wf = pubsub_invD(1) [OF inv] and obeyed = pubsub_inv_obeyed [OF inv Cons]
  show ?thesis
  proof (cases c)
    case (Listen channel)
    then show ?thesis
      using obeyed [OF wf, of "hs_insert channel (pn_listening s)"]
        obeyed [OF hm.wf_remove [OF wf, of channel], of "pn_listening s"] remove_get [OF wf, of channel]
      by (cases accepted) (auto simp: listener_command_def Cons)
  next
    case (Unlisten channel)
    then show ?thesis
      using obeyed [OF wf, of "hs_remove channel (pn_listening s)"] obeyed [OF wf, of "pn_listening s"]
      by (cases accepted) (auto simp: listener_command_def Cons)
  next
    case CloseListener
    then show ?thesis
      using obeyed [OF wf, of "pn_listening s"] by (simp add: listener_command_def Cons pubsub_inv_def)
  qed
qed

interpretation pg_hub: transition_invariant "\<lambda>s. s = postgres_new" pubsub_step pubsub_inv
proof
  show "pubsub_inv s" if "s = postgres_new" for s
    using that by (simp add: pubsub_inv_def postgres_new_def hm.wf_empty)
  show "pubsub_inv t" if "pubsub_inv s" "pubsub_step s t" for s t
    using that(2,1)
    by cases (simp_all add: pubsub_inv_subscribe pubsub_inv_publish pubsub_inv_close pubsub_inv_task pubsub_inv_drop
        pubsub_inv_command pubsub_inv_notification pubsub_inv_lost)
qed

section \<open>Properties\<close>

text \<open>The hub is at rest: no operation is under way and the listener has caught up.\<close>

definition at_rest :: "postgres_pubsub \<Rightarrow> bool" where
  "at_rest s \<longleftrightarrow> pn_running s \<and> \<not> hu_closed s \<and> pn_tasks s = [] \<and> pn_commands s = [] \<and> pn_inbox s = []"

text \<open>A publication from the call to the listener's turn over its notification.\<close>

definition published :: "string \<Rightarrow> byte list \<Rightarrow> postgres_pubsub \<Rightarrow> postgres_pubsub" where
  "published channel message s =
     listener_notification (run_task False False (NotifyTask channel message) (fst (postgres_publish channel message s)))"

lemma published_sent:
  assumes "at_rest s" "utf8_fault 0 message = None"
  shows "hu_sent (published channel message s) =
    (if channel \<in> set (pn_listening s)
     then (case hm_get (hu_channels s) channel of Some r \<Rightarrow> hu_sent (sender_send r message s) | None \<Rightarrow> hu_sent s)
     else hu_sent s)"
  using assms
  by (auto simp: at_rest_def published_def postgres_publish_def add_task_def run_task_def pg_notify_def listener_notification_def
      sender_send_def Let_def split: option.split)

text \<open>
  C18. However subscriptions, publications, failures and the listener interleave: once the hub is at rest, a message published on
  a channel that has subscribers, and that was not created while its earlier namesake was being unlistened, is appended to
  what they receive, and to nothing else; a subscriber that has read everything receives it next.
\<close>

theorem published_message_delivered:
  assumes "reachable (\<lambda>s. s = postgres_new) pubsub_step s" "at_rest s" "hm_get (hu_channels s) channel = Some r"
    "0 < hu_receivers s ! r" "channel \<notin> set (pn_raced s)" "utf8_fault 0 message = None"
  shows "snd (postgres_publish channel message s) = Ok () \<and>
    hu_sent (published channel message s) = (hu_sent s)[r := hu_sent s ! r @ [message]] \<and>
    subscription_recv (hu_sent (published channel message s) ! r) True (length (hu_sent s ! r)) =
      (Some (Ok message), Suc (length (hu_sent s ! r)))"
proof -
  have inv: "pubsub_inv s"
    by (rule pg_hub.reachable_inv [OF assms(1)])
  have "channel \<in> set (pn_listening s)"
    using pubsub_invD(5) [OF inv _ assms(3)] assms(2,5) by (simp add: heard_def will_listen_def at_rest_def)
  then have sent: "hu_sent (published channel message s) = (hu_sent s)[r := hu_sent s ! r @ [message]]"
    using published_sent [OF assms(2,6), of channel] assms(3,4) by (simp add: sender_send_def)
  moreover have "r < length (hu_sent s)"
    using pubsub_invD(3) [OF inv assms(3)] .
  ultimately show ?thesis
    using assms(2,6) by (simp add: postgres_publish_def at_rest_def subscription_recv_def PUBSUB_CAPACITY_def nth_append Let_def)
qed

text \<open>A first subscription, and the listener's turn over its command.\<close>

definition one_subscriber :: "string \<Rightarrow> postgres_pubsub" where
  "one_subscriber channel =
     listener_command True (run_task False False (SendListen channel 0) (fst (postgres_subscribe channel postgres_new)))"

lemma one_subscriber:
  "one_subscriber channel =
     \<lparr> hu_closed = False, hu_channels = [(channel, 0)], hu_sent = [[]], hu_receivers = [1], pn_commands = [], pn_running = True,
        pn_listening = [channel], pn_inbox = [], pn_tasks = [], pn_raced = [] \<rparr>"
  by (simp add: one_subscriber_def postgres_new_def postgres_subscribe_def get_or_create_sender_def sender_subscribe_def add_task_def
      run_task_def send_command_def listener_command_def hs_insert_def hm_defs Let_def)

lemma one_subscriber_reachable: "reachable (\<lambda>s. s = postgres_new) pubsub_step (one_subscriber channel)"
proof -
  let ?s1 = "fst (postgres_subscribe channel postgres_new)"
  let ?s2 = "run_task False False (SendListen channel 0) ?s1"
  have s1: "SendListen channel 0 \<in> set (pn_tasks ?s1)" "pn_running ?s2"
    by (simp_all add: postgres_new_def postgres_subscribe_def get_or_create_sender_def sender_subscribe_def add_task_def
        run_task_def send_command_def hm_defs Let_def)
  show ?thesis
    unfolding one_subscriber_def
    by (rule reach_step, rule reach_step, rule reach_step, rule reach_init, rule refl, rule subscribes, rule task_runs, rule s1,
        rule listener_obeys, rule s1)
qed

theorem published_message_delivered_witness:
  "\<exists>s. reachable (\<lambda>s. s = postgres_new) pubsub_step s \<and> at_rest s \<and>
     hu_sent s = [[]] \<and> hu_sent (published ''replica'' [104, 105] s) = [[[104, 105]]]"
proof -
  let ?s = "one_subscriber ''replica''"
  have "at_rest ?s" "hm_get (hu_channels ?s) ''replica'' = Some 0" "0 < hu_receivers ?s ! 0" "''replica'' \<notin> set (pn_raced ?s)"
    by (simp_all add: one_subscriber at_rest_def hm_defs)
  moreover have "utf8_fault 0 [104, 105] = None"
    by (simp add: utf8_char_def utf8_width_def Let_def)
  ultimately show ?thesis
    using published_message_delivered [OF one_subscriber_reachable [of "''replica''"], of "''replica''" 0 "[104, 105]"]
      one_subscriber_reachable [of "''replica''"]
    by (intro exI [of _ ?s]) (simp add: one_subscriber)
qed

text \<open>
  The race, up to the clean-up: the only subscriber goes, a publication finds no receiver and removes the channel, and the
  \<open>Unlisten\<close> command is still to be sent.
\<close>

definition cleaned_up :: "string \<Rightarrow> postgres_pubsub" where
  "cleaned_up channel =
     run_task False False (CleanUp channel)
       (listener_notification
         (run_task False False (NotifyTask channel []) (fst (postgres_publish channel [] (release_receiver 0 (one_subscriber channel))))))"

text \<open>The second half: a client subscribes, its \<open>Listen\<close> is sent first, and the listener obeys both commands.\<close>

definition overtaken :: "string \<Rightarrow> postgres_pubsub" where
  "overtaken channel =
     listener_command True (listener_command True
       (run_task False False (SendUnlisten channel)
         (run_task False False (SendListen channel 1) (fst (postgres_subscribe channel (cleaned_up channel))))))"

lemmas pubsub_ops = release_receiver_def postgres_publish_def run_task_def pg_notify_def add_task_def
  listener_notification_def sender_send_def maybe_cleanup_channel_def postgres_subscribe_def get_or_create_sender_def
  sender_subscribe_def send_command_def listener_command_def hs_insert_def hs_remove_def hm_defs Let_def

abbreviation pg_reachable :: "postgres_pubsub \<Rightarrow> bool" where
  "pg_reachable \<equiv> reachable (\<lambda>s. s = postgres_new) pubsub_step"

lemma reach_task:
  "reachable init pubsub_step s \<Longrightarrow> t \<in> set (pn_tasks s) \<Longrightarrow> reachable init pubsub_step (run_task fault kept t s)"
  by (erule reach_step) (rule task_runs)

lemma reach_command:
  "reachable init pubsub_step s \<Longrightarrow> pn_running s \<Longrightarrow> reachable init pubsub_step (listener_command accepted s)"
  by (erule reach_step) (rule listener_obeys)

lemma cleaned_up:
  "cleaned_up channel = (one_subscriber channel) \<lparr> hu_receivers := [0], hu_channels := [], pn_tasks := [SendUnlisten channel] \<rparr>"
  by (simp add: cleaned_up_def one_subscriber pubsub_ops)

lemma overtaken:
  "overtaken channel = (cleaned_up channel) \<lparr> hu_channels := [(channel, 1)], hu_sent := [[], []], hu_receivers := [0, 1],
     pn_listening := [], pn_tasks := [], pn_raced := [channel] \<rparr>"
  by (simp add: overtaken_def cleaned_up one_subscriber pubsub_ops)

lemma cleaned_up_reachable: "reachable (\<lambda>s. s = postgres_new) pubsub_step (cleaned_up channel)"
proof -
  have "pg_reachable (release_receiver 0 (one_subscriber channel))" (is "pg_reachable ?s")
    by (rule reach_step [OF one_subscriber_reachable], rule receiver_drops) (simp add: one_subscriber)
  then have "pg_reachable (fst (postgres_publish channel [] ?s))"
    by (rule reach_step) (rule publishes)
  then have "pg_reachable (run_task False False (NotifyTask channel []) (fst (postgres_publish channel [] ?s)))" (is "pg_reachable ?s'")
    by (rule reach_task) (simp add: one_subscriber pubsub_ops)
  then have "pg_reachable (listener_notification ?s')"
    by (rule reach_step, intro listener_hears) (simp add: one_subscriber pubsub_ops)
  then show ?thesis
    unfolding cleaned_up_def by (rule reach_task) (simp add: one_subscriber pubsub_ops)
qed

lemma overtaken_reachable: "reachable (\<lambda>s. s = postgres_new) pubsub_step (overtaken channel)"
proof -
  have "pg_reachable (fst (postgres_subscribe channel (cleaned_up channel)))" (is "pg_reachable ?s")
    by (rule reach_step [OF cleaned_up_reachable]) (rule subscribes)
  then have "pg_reachable (run_task False False (SendListen channel 1) ?s)"
    by (rule reach_task) (simp add: cleaned_up one_subscriber pubsub_ops)
  then have "pg_reachable (run_task False False (SendUnlisten channel) (run_task False False (SendListen channel 1) ?s))" (is "pg_reachable ?s'")
    by (rule reach_task) (simp add: cleaned_up one_subscriber pubsub_ops)
  then have "pg_reachable (listener_command True ?s')"
    by (rule reach_command) (simp add: cleaned_up one_subscriber pubsub_ops)
  then show ?thesis
    unfolding overtaken_def by (rule reach_command) (simp add: cleaned_up one_subscriber pubsub_ops)
qed


definition channel_kinds :: "(uuid_codec \<Rightarrow> uuid \<Rightarrow> string) list" where
  "channel_kinds =
     [workspace_event_channel, workspace_agent_channel, workspace_build_logs_channel, workspace_agent_logs_channel,
      workspace_agent_reinit_channel, workspace_agent_containers_channel, workspace_agent_metadata_channel,
      workspace_agent_pty_input_channel, workspace_agent_pty_output_channel, inbox_notification_channel]"

lemmas channel_defs = workspace_event_channel_def workspace_agent_channel_def workspace_build_logs_channel_def
  workspace_agent_logs_channel_def workspace_agent_reinit_channel_def workspace_agent_containers_channel_def
  workspace_agent_metadata_channel_def workspace_agent_pty_input_channel_def workspace_agent_pty_output_channel_def
  inbox_notification_channel_def

lemma channel_kinds_cases: "i < length channel_kinds \<Longrightarrow> i \<in> {0, 1, 2, 3, 4, 5, 6, 7, 8, 9}"
  by (simp add: channel_kinds_def) arith

context uuid_text
begin

lemma channel_name_inj:
  assumes "i < length channel_kinds" "j < length channel_kinds" "(channel_kinds ! i) U u = (channel_kinds ! j) U v"
  shows "i = j \<and> u = v"
  using channel_kinds_cases [OF assms(1)] channel_kinds_cases [OF assms(2)] assms(3)
  by (elim insertE emptyE) (simp_all add: channel_kinds_def channel_defs)

lemma channel_name_length:
  assumes "i < length channel_kinds"
  shows "length ((channel_kinds ! i) U u) \<le> 63"
  using channel_kinds_cases [OF assms]
  by (elim insertE emptyE) (simp_all add: channel_kinds_def channel_defs length_to_string)

end

text \<open>
  Channels do not cross: two names agree only if they are of the same kind for the same identifier, and every name fits into the 63 bytes that Postgres keeps of a channel name.
\<close>

theorem channel_names_exact:
  assumes "uuid_text U" "i < length channel_kinds" "j < length channel_kinds"
  shows "((channel_kinds ! i) U u = (channel_kinds ! j) U v \<longleftrightarrow> i = j \<and> u = v) \<and> length ((channel_kinds ! i) U u) \<le> 63"
  using uuid_text.channel_name_inj [OF assms] uuid_text.channel_name_length [OF assms(1,2)] by blast

theorem channel_names_exact_witness:
  "workspace_agent_channel hyphenated_codec 7 \<noteq> workspace_agent_logs_channel hyphenated_codec 7 \<and>
   length (workspace_agent_containers_channel hyphenated_codec 7) \<le> 63"
  using channel_names_exact [OF hy.uuid_text_axioms, of 1 3 7 7] channel_names_exact [OF hy.uuid_text_axioms, of 5 5 7 7]
  by (simp add: channel_kinds_def)

end
