(* ===== verification/Audit_Sink.thy ===== *)
theory Audit_Sink
  imports Prelude
begin

text \<open>
  The batched audit sink, \<open>crates/coder-audit/src/batched_sink.rs\<close>: callers put events into an unbounded channel, a
  background task collects them and hands them on in batches, and closing the sink waits for the task. The task runs
  turn by turn, one per value it takes from the channel, time-out it sees or change of loop; callers and the closing
  task act between any two turns. Events are a type parameter: the sink never looks into them.
\<close>

section \<open>The sink\<close>

text \<open>Where the flush task is: waiting for a first event, draining what is there, waiting for more or the time-out.\<close>

datatype flush_phase = AwaitFirst | Draining | AwaitMore | FlushFinished | FlushPanicked

text \<open>
  \<open>bs_open\<close> says that the sender is still there, \<open>bs_flushed\<close> lists the batches the inner sink has taken, \<open>bs_lost\<close> the
  batch it panicked on, and \<open>bs_accepted\<close> every event a caller got into the channel.
\<close>

record 'e BatchedAuditSink =
  bs_open :: bool
  bs_queue :: "'e list"
  bs_batch :: "'e list"
  bs_phase :: flush_phase
  bs_flushed :: "'e list list"
  bs_lost :: "'e list"
  bs_accepted :: "'e list"

definition BatchedAuditSink_new :: "'e BatchedAuditSink" where
  "BatchedAuditSink_new =
     \<lparr> bs_open = True, bs_queue = [], bs_batch = [], bs_phase = AwaitFirst, bs_flushed = [], bs_lost = [], bs_accepted = [] \<rparr>"

definition flush_task_gone :: "'e BatchedAuditSink \<Rightarrow> bool" where
  "flush_task_gone s \<longleftrightarrow> bs_phase s \<in> {FlushFinished, FlushPanicked}"

text \<open>An event is dropped when the sender is gone, or the receiver with the task that held it.\<close>

definition sink_record :: "'e \<Rightarrow> 'e BatchedAuditSink \<Rightarrow> 'e BatchedAuditSink" where
  "sink_record event s =
     (if bs_open s
      then if flush_task_gone s then s
           else s \<lparr> bs_queue := bs_queue s @ [event], bs_accepted := bs_accepted s @ [event] \<rparr>
      else s)"

text \<open>The two halves of \<open>close\<close>: dropping the sender, and the join on the task, which tells when it returns.\<close>

definition sink_close :: "'e BatchedAuditSink \<Rightarrow> 'e BatchedAuditSink" where
  "sink_close s = s \<lparr> bs_open := False \<rparr>"

definition sink_close_returns :: "'e BatchedAuditSink \<Rightarrow> bool" where
  "sink_close_returns s \<longleftrightarrow> \<not> bs_open s \<and> flush_task_gone s"

text \<open>Handing a batch to the inner sink, which may panic, and going on in a phase.\<close>

definition flush_batch :: "bool \<Rightarrow> flush_phase \<Rightarrow> 'e BatchedAuditSink \<Rightarrow> 'e BatchedAuditSink" where
  "flush_batch panics go_on s =
     (if bs_batch s = [] then s \<lparr> bs_phase := go_on \<rparr>
      else if panics then s \<lparr> bs_batch := [], bs_lost := bs_batch s, bs_phase := FlushPanicked \<rparr>
      else s \<lparr> bs_batch := [], bs_flushed := bs_flushed s @ [bs_batch s], bs_phase := go_on \<rparr>)"

definition take_event :: "'e \<Rightarrow> 'e list \<Rightarrow> flush_phase \<Rightarrow> 'e BatchedAuditSink \<Rightarrow> 'e BatchedAuditSink" where
  "take_event event queue go_on s = s \<lparr> bs_queue := queue, bs_batch := bs_batch s @ [event], bs_phase := go_on \<rparr>"

text \<open>
  One turn of \<open>flush_loop\<close>; \<open>None\<close> when it waits. \<open>timer\<close> says that the time-out is the branch that \<open>select!\<close> takes, and
  \<open>panics\<close> that the inner sink panics if it is called.
\<close>

definition flush_turn :: "nat \<Rightarrow> bool \<Rightarrow> bool \<Rightarrow> 'e BatchedAuditSink \<Rightarrow> 'e BatchedAuditSink option" where
  "flush_turn max_batch_size timer panics s =
     (case bs_phase s of
        AwaitFirst \<Rightarrow>
          (case bs_queue s of
             event # queue \<Rightarrow> Some (take_event event queue Draining s)
           | [] \<Rightarrow> if bs_open s then None else Some (flush_batch panics FlushFinished s))
      | Draining \<Rightarrow>
          if length (bs_batch s) < max_batch_size
          then (case bs_queue s of
                  event # queue \<Rightarrow> Some (take_event event queue Draining s)
                | [] \<Rightarrow> Some (s \<lparr> bs_phase := AwaitMore \<rparr>))
          else Some (flush_batch panics AwaitFirst s)
      | AwaitMore \<Rightarrow>
          if timer then Some (flush_batch panics AwaitFirst s)
          else (case bs_queue s of
                  event # queue \<Rightarrow>
                    let s = take_event event queue AwaitMore s
                    in Some (if max_batch_size \<le> length (bs_batch s) then flush_batch panics AwaitFirst s else s)
                | [] \<Rightarrow> if bs_open s then None else Some (flush_batch panics FlushFinished s))
      | FlushFinished \<Rightarrow> None
      | FlushPanicked \<Rightarrow> None)"

inductive sink_step :: "nat \<Rightarrow> 'e BatchedAuditSink \<Rightarrow> 'e BatchedAuditSink \<Rightarrow> bool" for max_batch_size where
  caller_records: "sink_step max_batch_size s (sink_record event s)"
| closer_closes: "sink_step max_batch_size s (sink_close s)"
| task_turns: "flush_turn max_batch_size timer panics s = Some s' \<Longrightarrow> sink_step max_batch_size s s'"

section \<open>Delivery\<close>

definition batch_ok :: "nat \<Rightarrow> 'e list \<Rightarrow> bool" where
  "batch_ok m b \<longleftrightarrow> b \<noteq> [] \<and> length b \<le> max 1 m"

lemma batch_ok_cases: "batch_ok m [event]" "length b < m \<Longrightarrow> batch_ok m (b @ [event])" "\<not> batch_ok m []"
  by (auto simp: batch_ok_def)

definition phase_inv :: "nat \<Rightarrow> 'e BatchedAuditSink \<Rightarrow> bool" where
  "phase_inv m s =
     (case bs_phase s of
        AwaitFirst \<Rightarrow> bs_batch s = []
      | Draining \<Rightarrow> batch_ok m (bs_batch s)
      | AwaitMore \<Rightarrow> batch_ok m (bs_batch s) \<and> length (bs_batch s) < m
      | FlushFinished \<Rightarrow> bs_batch s = [] \<and> bs_queue s = [] \<and> \<not> bs_open s
      | FlushPanicked \<Rightarrow> bs_batch s = [])"

definition sink_inv :: "nat \<Rightarrow> 'e BatchedAuditSink \<Rightarrow> bool" where
  "sink_inv m s \<longleftrightarrow>
     bs_accepted s = concat (bs_flushed s) @ bs_lost s @ bs_batch s @ bs_queue s \<and> phase_inv m s \<and>
     (bs_phase s \<noteq> FlushPanicked \<longrightarrow> bs_lost s = []) \<and>
     list_all (batch_ok m) (bs_flushed s)"

lemma sink_inv_record: "sink_inv m s \<Longrightarrow> sink_inv m (sink_record event s)"
  by (cases "bs_phase s") (simp_all add: sink_inv_def sink_record_def phase_inv_def flush_task_gone_def)

lemma sink_inv_close: "sink_inv m s \<Longrightarrow> sink_inv m (sink_close s)"
  by (cases "bs_phase s") (simp_all add: sink_inv_def sink_close_def phase_inv_def)

lemma sink_inv_flush:
  assumes "sink_inv m s" "bs_phase s \<in> {AwaitFirst, Draining, AwaitMore}"
    "go_on = AwaitFirst \<or> go_on = FlushFinished \<and> bs_queue s = [] \<and> \<not> bs_open s"
  shows "sink_inv m (flush_batch panics go_on s)"
proof -
  have "bs_batch s = [] \<or> batch_ok m (bs_batch s)"
    using assms(1,2) by (auto simp: sink_inv_def phase_inv_def)
  moreover have "bs_lost s = []"
    using assms(1,2) by (auto simp: sink_inv_def)
  ultimately show ?thesis
    using assms(1,3) by (elim disjE) (simp_all add: sink_inv_def flush_batch_def phase_inv_def batch_ok_cases)
qed

lemma sink_inv_full:
  assumes "sink_inv m s" "bs_phase s = AwaitMore" "bs_queue s = event # queue"
  shows "sink_inv m (flush_batch panics AwaitFirst (take_event event queue AwaitMore s))"
proof -
  have "batch_ok m (bs_batch s @ [event])" "bs_lost s = []"
    using assms by (simp_all add: sink_inv_def phase_inv_def batch_ok_cases)
  then show ?thesis
    using assms by (simp add: sink_inv_def flush_batch_def phase_inv_def take_event_def)
qed

lemma sink_inv_take:
  assumes "sink_inv m s" "bs_queue s = event # queue"
    "bs_phase s = AwaitFirst \<and> go_on = Draining \<or> bs_phase s = Draining \<and> go_on = Draining \<and> length (bs_batch s) < m \<or>
     bs_phase s = AwaitMore \<and> go_on = AwaitMore \<and> Suc (length (bs_batch s)) < m"
  shows "sink_inv m (take_event event queue go_on s)"
  using assms(3,1,2) by (elim disjE conjE) (simp_all add: sink_inv_def take_event_def phase_inv_def batch_ok_cases)

lemma sink_inv_turn:
  assumes inv: "sink_inv m s" and turn: "flush_turn m timer panics s = Some s'"
  shows "sink_inv m s'"
proof (cases "bs_phase s")
  case AwaitFirst
  then show ?thesis
    using turn inv by (auto simp: flush_turn_def intro: sink_inv_take sink_inv_flush split: list.splits if_splits)
next
  case Draining
  then show ?thesis
    using turn inv
    by (auto simp: flush_turn_def intro: sink_inv_take sink_inv_flush split: list.splits if_splits)
      (auto simp: sink_inv_def phase_inv_def)
next
  case AwaitMore
  have "length (bs_batch (take_event e q p s)) = Suc (length (bs_batch s))" for e q p
    by (simp add: take_event_def)
  then show ?thesis
    using turn inv AwaitMore
    by (auto simp: flush_turn_def Let_def intro: sink_inv_take sink_inv_flush sink_inv_full split: list.splits if_splits)
qed (use turn in \<open>auto simp: flush_turn_def\<close>)

interpretation sink: transition_invariant "\<lambda>s. s = BatchedAuditSink_new" "sink_step m" "sink_inv m" for m
proof
  show "sink_inv m s" if "s = BatchedAuditSink_new" for s :: "'e BatchedAuditSink"
    using that by (simp add: sink_inv_def BatchedAuditSink_new_def phase_inv_def)
  show "sink_inv m t" if "sink_inv m s" "sink_step m s t" for s t :: "'e BatchedAuditSink"
    using that(2,1) by cases (auto intro: sink_inv_record sink_inv_close sink_inv_turn)
qed

section \<open>Closing ends\<close>

text \<open>The turns of a task one after another, with the choices of each.\<close>

fun flush_turns :: "nat \<Rightarrow> bool list \<Rightarrow> 'e BatchedAuditSink \<Rightarrow> 'e BatchedAuditSink" where
  "flush_turns m [] s = s"
| "flush_turns m (timer # timers) s =
     (case flush_turn m timer False s of None \<Rightarrow> s | Some s' \<Rightarrow> flush_turns m timers s')"

fun phase_weight :: "flush_phase \<Rightarrow> nat" where
  "phase_weight AwaitFirst = 1"
| "phase_weight AwaitMore = 2"
| "phase_weight Draining = 3"
| "phase_weight FlushFinished = 0"
| "phase_weight FlushPanicked = 0"

definition turns_left :: "'e BatchedAuditSink \<Rightarrow> nat" where
  "turns_left s = 3 * length (bs_queue s) + phase_weight (bs_phase s)"

lemma flush_batch_sel [simp]:
  "bs_queue (flush_batch p go_on s) = bs_queue s" "bs_open (flush_batch p go_on s) = bs_open s"
  "bs_phase (flush_batch False go_on s) = go_on" "bs_accepted (flush_batch p go_on s) = bs_accepted s"
  by (simp_all add: flush_batch_def)

lemma take_event_sel [simp]:
  "bs_queue (take_event e q go_on s) = q" "bs_open (take_event e q go_on s) = bs_open s"
  "bs_phase (take_event e q go_on s) = go_on" "bs_accepted (take_event e q go_on s) = bs_accepted s"
  by (simp_all add: take_event_def)

lemma closed_turn:
  assumes "\<not> bs_open s" "\<not> flush_task_gone s"
  obtains s' where "flush_turn m timer False s = Some s'" "\<not> bs_open s'" "turns_left s' < turns_left s"
    "bs_phase s' \<noteq> FlushPanicked" "bs_accepted s' = bs_accepted s"
proof (cases "bs_phase s")
  case AwaitFirst
  then show ?thesis
    using assms that by (cases "bs_queue s") (auto simp: flush_turn_def turns_left_def)
next
  case Draining
  then show ?thesis
    using assms that by (cases "bs_queue s"; cases "length (bs_batch s) < m") (auto simp: flush_turn_def turns_left_def)
next
  case AwaitMore
  then show ?thesis
    using assms that by (cases "bs_queue s"; cases timer) (auto simp: flush_turn_def turns_left_def Let_def)
qed (use assms in \<open>auto simp: flush_task_gone_def\<close>)

lemma flush_turns_finish:
  assumes "\<not> bs_open s" "bs_phase s \<noteq> FlushPanicked" "turns_left s \<le> length timers"
  shows "bs_phase (flush_turns m timers s) = FlushFinished \<and> bs_accepted (flush_turns m timers s) = bs_accepted s \<and>
    \<not> bs_open (flush_turns m timers s)"
  using assms
proof (induction timers arbitrary: s)
  case Nil
  then have "phase_weight (bs_phase s) = 0"
    by (simp add: turns_left_def)
  then show ?case
    using Nil by (cases "bs_phase s") auto
next
  case (Cons timer timers)
  show ?case
  proof (cases "flush_task_gone s")
    case True
    then show ?thesis
      using Cons.prems by (auto simp: flush_task_gone_def flush_turn_def)
  next
    case False
    obtain s' where "flush_turn m timer False s = Some s'" "\<not> bs_open s'" "turns_left s' < turns_left s"
      "bs_phase s' \<noteq> FlushPanicked" "bs_accepted s' = bs_accepted s"
      using closed_turn [OF Cons.prems(1) False] by blast
    then show ?thesis
      using Cons.IH [of s'] Cons.prems(3) by simp
  qed
qed

lemma flush_turns_reachable:
  "reachable init (sink_step m) s \<Longrightarrow> reachable init (sink_step m) (flush_turns m timers s)"
proof (induction timers arbitrary: s)
  case (Cons timer timers)
  then show ?case
    using reach_step [OF Cons.prems task_turns, of timer False] by (cases "flush_turn m timer False s") simp_all
qed simp

text \<open>
  C19. Whatever callers, the closer and the flush task do in whichever order, the inner sink has received the accepted events
  from the first on, in their order and each once, in non-empty batches of at most the configured size; nothing is missing
  once close has returned, unless the inner sink panicked.
\<close>

theorem audit_events_delivered:
  assumes "reachable (\<lambda>s. s = BatchedAuditSink_new) (sink_step m) s"
  shows "(\<exists>pending. bs_accepted s = concat (bs_flushed s) @ pending) \<and>
    (\<forall>b \<in> set (bs_flushed s). b \<noteq> [] \<and> length b \<le> max 1 m) \<and>
    (sink_close_returns s \<and> bs_phase s \<noteq> FlushPanicked \<longrightarrow> bs_accepted s = concat (bs_flushed s))"
  using sink.reachable_inv [OF assms]
  by (auto simp: sink_inv_def phase_inv_def sink_close_returns_def flush_task_gone_def list_all_iff batch_ok_def)

text \<open>
  C20. Closing ends: once the sender is dropped, the flush task finishes within three turns per event that is still queued and
  three more, whichever branches the time-outs take, and everything accepted has been handed on.
\<close>

theorem audit_close_drains:
  assumes "reachable (\<lambda>s. s = BatchedAuditSink_new) (sink_step m) s" "\<not> bs_open s" "bs_phase s \<noteq> FlushPanicked"
    "3 * length (bs_queue s) + 3 \<le> length timers"
  shows "sink_close_returns (flush_turns m timers s) \<and> concat (bs_flushed (flush_turns m timers s)) = bs_accepted s"
proof -
  have "turns_left s \<le> length timers"
    using assms(4) by (cases "bs_phase s") (auto simp: turns_left_def)
  note ends = flush_turns_finish [OF assms(2,3) this, of m]
  then show ?thesis
    using sink.reachable_inv [OF flush_turns_reachable [OF assms(1), of timers]]
    by (simp add: sink_inv_def phase_inv_def sink_close_returns_def flush_task_gone_def)
qed

definition two_events :: "nat BatchedAuditSink" where
  "two_events = sink_close (sink_record 2 (sink_record 1 BatchedAuditSink_new))"

lemma two_events_reachable: "reachable (\<lambda>s. s = BatchedAuditSink_new) (sink_step 1) two_events"
  unfolding two_events_def
  by (rule reach_step, rule reach_step, rule reach_step, rule reach_init, rule refl) (rule caller_records closer_closes)+

theorem audit_events_delivered_witness:
  "\<exists>(s :: nat BatchedAuditSink) pending. reachable (\<lambda>s. s = BatchedAuditSink_new) (sink_step 1) s \<and>
     bs_accepted s = concat (bs_flushed s) @ pending \<and> bs_accepted s = [1, 2]"
  using audit_events_delivered [OF two_events_reachable] two_events_reachable
  by (auto simp: two_events_def sink_close_def sink_record_def flush_task_gone_def BatchedAuditSink_new_def)

theorem audit_close_drains_witness:
  "concat (bs_flushed (flush_turns 1 (replicate 9 True) two_events)) = [1, 2] \<and>
   bs_flushed (flush_turns 1 (replicate 9 True) two_events) = [[1], [2]]"
proof -
  have s: "two_events = \<lparr> bs_open = False, bs_queue = [1, 2], bs_batch = [], bs_phase = AwaitFirst, bs_flushed = [],
      bs_lost = [], bs_accepted = [1, 2] \<rparr>"
    by (simp add: two_events_def sink_close_def sink_record_def flush_task_gone_def BatchedAuditSink_new_def)
  have "bs_flushed (flush_turns 1 (replicate 9 True) two_events) = [[1], [2]]"
    by (simp add: s flush_turn_def take_event_def flush_batch_def numeral_nat)
  then show ?thesis
    using audit_close_drains [OF two_events_reachable, of "replicate 9 True"] by (simp add: s)
qed

end
