(* ===== verification/Replica_Manager.thy ===== *)
theory Replica_Manager
  imports Crypto_Keys Uuid_Text
begin

text \<open>
  Registration and heartbeats of server replicas: \<open>crates/coder-server/src/replica_manager.rs\<close>, its statements on the table
  \<open>replicas\<close> and the listing of \<open>handlers/replicas.rs\<close>. The managers of the replicas run their operations one after another
  on the shared table; any statement may fail.
\<close>

section \<open>The table\<close>

record ReplicaRow =
  rp_id :: uuid
  rp_proxy_id :: "uuid option"
  rp_hostname :: string
  rp_relay_address :: string
  rp_region_id :: int
  rp_version :: string
  rp_error :: string
  rp_database_latency :: int
  rp_primary_replica :: bool
  rp_created_at :: instant_ns
  rp_started_at :: instant_ns
  rp_stopped_at :: "instant_ns option"
  rp_updated_at :: instant_ns

type_synonym ReplicaTable = "ReplicaRow list"

record InsertCoderdReplicaInput =
  ri_id :: uuid
  ri_hostname :: string
  ri_relay_address :: string
  ri_region_id :: int
  ri_version :: string
  ri_database_latency :: int
  ri_created_at :: instant_ns
  ri_started_at :: instant_ns
  ri_updated_at :: instant_ns

datatype ReplicaCall = PingDatabase | InsertReplica | RefreshReplica | DeleteReplica | PruneReplicas

record replica_env =
  re_fault :: "ReplicaCall \<Rightarrow> StorageError option"
  re_reject :: StorageError

type_synonym 'a replica_stmt = "ReplicaTable \<times> (StorageError, 'a) result"

definition replica_attempt :: "replica_env \<Rightarrow> ReplicaCall \<Rightarrow> ReplicaTable \<Rightarrow> 'a replica_stmt \<Rightarrow> 'a replica_stmt" where
  "replica_attempt E call db s = (case re_fault E call of Some e \<Rightarrow> (db, Err e) | None \<Rightarrow> s)"

definition replica_row :: "InsertCoderdReplicaInput \<Rightarrow> ReplicaRow" where
  "replica_row input =
     \<lparr> rp_id = ri_id input, rp_proxy_id = None, rp_hostname = ri_hostname input, rp_relay_address = ri_relay_address input,
        rp_region_id = ri_region_id input, rp_version = ri_version input, rp_error = [],
        rp_database_latency = ri_database_latency input, rp_primary_replica = True,
        rp_created_at = pg_instant (ri_created_at input), rp_started_at = pg_instant (ri_started_at input), rp_stopped_at = None,
        rp_updated_at = pg_instant (ri_updated_at input) \<rparr>"

definition insert_coderd_replica ::
  "replica_env \<Rightarrow> InsertCoderdReplicaInput \<Rightarrow> ReplicaTable \<Rightarrow> ReplicaRow replica_stmt" where
  "insert_coderd_replica E input db =
     replica_attempt E InsertReplica db
       (if ri_id input \<in> rp_id ` set db then (db, Err (re_reject E))
        else (db @ [replica_row input], Ok (replica_row input)))"

definition live_replica :: "uuid \<Rightarrow> ReplicaRow \<Rightarrow> bool" where
  "live_replica i r \<longleftrightarrow> rp_id r = i \<and> rp_proxy_id r = None \<and> rp_stopped_at r = None"

definition refresh_coderd_replica :: "replica_env \<Rightarrow> uuid \<Rightarrow> instant_ns \<Rightarrow> ReplicaTable \<Rightarrow> bool replica_stmt" where
  "refresh_coderd_replica E i t db =
     replica_attempt E RefreshReplica db
       (map (\<lambda>r. if live_replica i r then r \<lparr> rp_updated_at := pg_instant t \<rparr> else r) db, Ok (list_ex (live_replica i) db))"

definition delete_coderd_replica :: "replica_env \<Rightarrow> uuid \<Rightarrow> ReplicaTable \<Rightarrow> bool replica_stmt" where
  "delete_coderd_replica E i db =
     (let gone = (\<lambda>r. rp_id r = i \<and> rp_proxy_id r = None)
      in replica_attempt E DeleteReplica db (filter (\<lambda>r. \<not> gone r) db, Ok (list_ex gone db)))"

definition list_coderd_replicas :: "instant_ns \<Rightarrow> ReplicaTable \<Rightarrow> ReplicaRow list" where
  "list_coderd_replicas updated_after db =
     sort_key rp_created_at
       (filter (\<lambda>r. rp_proxy_id r = None \<and> rp_stopped_at r = None \<and> pg_instant updated_after < rp_updated_at r) db)"

definition prune_stale_coderd_replicas :: "replica_env \<Rightarrow> instant_ns \<Rightarrow> ReplicaTable \<Rightarrow> nat replica_stmt" where
  "prune_stale_coderd_replicas E older_than db =
     (let stale = (\<lambda>r. rp_proxy_id r = None \<and> rp_updated_at r < pg_instant older_than)
      in replica_attempt E PruneReplicas db (filter (\<lambda>r. \<not> stale r) db, Ok (length (filter stale db))))"

section \<open>The manager\<close>

record ReplicaManagerOptions =
  rm_id :: uuid
  rm_hostname :: string
  rm_relay_address :: string
  rm_region_id :: int
  rm_version :: string
  rm_update_interval :: nat

definition MIN_UPDATE_INTERVAL :: nat where
  "MIN_UPDATE_INTERVAL = 10000000"

definition STALE_MULTIPLIER :: nat where
  "STALE_MULTIPLIER = 3"

definition stale_cutoff :: "nat \<Rightarrow> int" where
  "stale_cutoff update_interval = int (duration_to_time_duration (min (update_interval * STALE_MULTIPLIER) DURATION_MAX))"

text \<open>The latency of a ping that took \<open>micros\<close>, as an \<open>i32\<close>.\<close>

definition measure_latency_micros :: "replica_env \<Rightarrow> nat \<Rightarrow> int" where
  "measure_latency_micros E micros =
     (case re_fault E PingDatabase of Some e \<Rightarrow> 0 | None \<Rightarrow> if int micros \<le> i32_max then int micros else i32_max)"

text \<open>Registration: the table, and the interval the heartbeats will have.\<close>

definition replica_start ::
  "replica_env \<Rightarrow> ReplicaManagerOptions \<Rightarrow> instant_ns \<Rightarrow> nat \<Rightarrow> ReplicaTable \<Rightarrow> nat replica_stmt" where
  "replica_start E options now micros db =
     (case insert_coderd_replica E
             \<lparr> ri_id = rm_id options, ri_hostname = rm_hostname options, ri_relay_address = rm_relay_address options,
                ri_region_id = rm_region_id options, ri_version = rm_version options,
                ri_database_latency = measure_latency_micros E micros, ri_created_at = now, ri_started_at = now, ri_updated_at = now \<rparr> db of
        (db, Err e) \<Rightarrow> (db, Err e)
      | (db, Ok _) \<Rightarrow> (db, Ok (max (rm_update_interval options) MIN_UPDATE_INTERVAL)))"

definition refresh_and_prune :: "replica_env \<Rightarrow> uuid \<Rightarrow> nat \<Rightarrow> instant_ns \<Rightarrow> ReplicaTable \<Rightarrow> unit replica_stmt" where
  "refresh_and_prune E i update_interval now db =
     (case refresh_coderd_replica E i now db of
        (db, Err e) \<Rightarrow> (db, Err e)
      | (db, Ok _) \<Rightarrow>
          (case prune_stale_coderd_replicas E (now - stale_cutoff update_interval) db of
             (db, Err e) \<Rightarrow> (db, Err e)
           | (db, Ok _) \<Rightarrow> (db, Ok ())))"

definition replica_shutdown :: "replica_env \<Rightarrow> uuid \<Rightarrow> ReplicaTable \<Rightarrow> ReplicaTable" where
  "replica_shutdown E i db = fst (delete_coderd_replica E i db)"

text \<open>What \<open>GET /replicas\<close> lists.\<close>

definition replicas_listed :: "nat \<Rightarrow> instant_ns \<Rightarrow> ReplicaTable \<Rightarrow> ReplicaRow list" where
  "replicas_listed interval_secs now db = list_coderd_replicas (now - stale_cutoff (seconds_ns interval_secs)) db"

section \<open>Heartbeats in time\<close>

text \<open>What the managers of a deployment do: a replica registers, beats or shuts down.\<close>

datatype replica_event =
    Registers replica_env ReplicaManagerOptions instant_ns nat
  | Beats replica_env uuid nat instant_ns
  | ShutsDown replica_env uuid

fun replica_event_run :: "replica_event \<Rightarrow> ReplicaTable \<Rightarrow> ReplicaTable" where
  "replica_event_run (Registers E options now micros) db = fst (replica_start E options now micros db)"
| "replica_event_run (Beats E i update_interval now) db = fst (refresh_and_prune E i update_interval now db)"
| "replica_event_run (ShutsDown E i) db = replica_shutdown E i db"

definition replica_run :: "replica_event list \<Rightarrow> ReplicaTable \<Rightarrow> ReplicaTable" where
  "replica_run = fold replica_event_run"

text \<open>
  The latest moment at which the replica is known to have written its row, and the condition on the events: other replicas
  only prune while that moment is within their cut-off.
\<close>

fun last_beat :: "uuid \<Rightarrow> instant_ns \<Rightarrow> replica_event \<Rightarrow> instant_ns" where
  "last_beat i t (Beats E j update_interval now) = (if i = j \<and> re_fault E RefreshReplica = None then now else t)"
| "last_beat i t _ = t"

fun in_time :: "uuid \<Rightarrow> instant_ns \<Rightarrow> replica_event \<Rightarrow> bool" where
  "in_time i t (Beats E j update_interval now) \<longleftrightarrow> i = j \<or> now \<le> t + stale_cutoff update_interval"
| "in_time i t (ShutsDown E j) \<longleftrightarrow> i \<noteq> j"
| "in_time i t (Registers E options now micros) \<longleftrightarrow> True"

fun all_in_time :: "uuid \<Rightarrow> instant_ns \<Rightarrow> replica_event list \<Rightarrow> bool" where
  "all_in_time i t [] \<longleftrightarrow> True"
| "all_in_time i t (e # es) \<longleftrightarrow> in_time i t e \<and> all_in_time i (last_beat i t e) es"

definition beaten :: "uuid \<Rightarrow> instant_ns \<Rightarrow> ReplicaTable \<Rightarrow> bool" where
  "beaten i t db \<longleftrightarrow> (\<exists>r \<in> set db. live_replica i r \<and> rp_updated_at r = pg_instant t)"

lemma pg_instant_le: "s \<le> t \<Longrightarrow> pg_instant s \<le> pg_instant t"
  unfolding pg_instant_def using zdiv_mono1 [of s t 1000] by (simp add: minus_mod_eq_mult_div)

lemma beaten_prune:
  assumes "beaten i t db" "older \<le> t"
  shows "beaten i t (fst (prune_stale_coderd_replicas E older db))"
  using assms pg_instant_le [OF assms(2)]
  by (fastforce simp: beaten_def prune_stale_coderd_replicas_def replica_attempt_def split: option.split)

lemma beaten_refresh_self:
  assumes "beaten i t db" "re_fault E RefreshReplica = None"
  shows "beaten i now (fst (refresh_coderd_replica E i now db))"
proof -
  obtain r where "r \<in> set db" "live_replica i r"
    using assms(1) by (auto simp: beaten_def)
  then have "r \<lparr> rp_updated_at := pg_instant now \<rparr> \<in> set (fst (refresh_coderd_replica E i now db))"
      "live_replica i (r \<lparr> rp_updated_at := pg_instant now \<rparr>)"
    using assms(2) by (auto simp: refresh_coderd_replica_def replica_attempt_def live_replica_def image_iff)
  then show ?thesis
    unfolding beaten_def by force
qed

lemma beaten_refresh_other:
  assumes "beaten i t db" "i \<noteq> j"
  shows "beaten i t (fst (refresh_coderd_replica E j now db))"
  using assms by (fastforce simp: beaten_def refresh_coderd_replica_def replica_attempt_def live_replica_def split: option.split)

lemma beat_tables:
  "fst (refresh_and_prune E j iv now db) =
     (if re_fault E RefreshReplica = None
      then fst (prune_stale_coderd_replicas E (now - stale_cutoff iv) (fst (refresh_coderd_replica E j now db)))
      else db)"
  by (auto simp: refresh_and_prune_def refresh_coderd_replica_def replica_attempt_def split: option.split prod.split sum.split)

lemma stale_cutoff_pos: "0 \<le> stale_cutoff iv"
  by (simp add: stale_cutoff_def)

lemma beaten_event:
  assumes beaten: "beaten i t db" and e: "in_time i t e"
  shows "beaten i (last_beat i t e) (replica_event_run e db)"
proof (cases e)
  case (Registers E options now micros)
  then show ?thesis
    using beaten
    by (auto simp: beaten_def replica_start_def insert_coderd_replica_def replica_attempt_def split: option.split prod.split sum.split)
next
  case (Beats E j iv now)
  show ?thesis
  proof (cases "re_fault E RefreshReplica")
    case None
    show ?thesis
    proof (cases "i = j")
      case True
      then show ?thesis
        using beaten_prune [OF beaten_refresh_self [OF beaten None, of now]] stale_cutoff_pos [of iv] None
        by (simp add: Beats beat_tables)
    next
      case False
      then show ?thesis
        using beaten_prune [OF beaten_refresh_other [OF beaten False]] e None by (simp add: Beats beat_tables)
    qed
  next
    case (Some a)
    then show ?thesis
      using beaten by (simp add: Beats beat_tables)
  qed
next
  case (ShutsDown E j)
  then show ?thesis
    using beaten e
    by (auto simp: beaten_def replica_shutdown_def delete_coderd_replica_def replica_attempt_def live_replica_def Let_def
        split: option.split)
qed

lemma beaten_run: "beaten i t db \<Longrightarrow> all_in_time i t es \<Longrightarrow> beaten i (fold (\<lambda>e t. last_beat i t e) es t) (replica_run es db)"
proof (induction es arbitrary: t db)
  case (Cons e es)
  then show ?case
    using Cons.IH [OF beaten_event [OF Cons.prems(1)]] by (simp add: replica_run_def)
qed (simp add: replica_run_def)

text \<open>
  A replica that refreshes its row in time stays registered: as long as no other replica's heartbeat comes later than its
  cut-off after the last refresh, whatever statements fail, the row is there with the time of that refresh, and the listing
  shows it while it is fresh.
\<close>

theorem replica_stays_registered:
  assumes "beaten i t db" "all_in_time i t es"
    "pg_instant (now - stale_cutoff (seconds_ns n)) < pg_instant (fold (\<lambda>e t. last_beat i t e) es t)"
  shows "\<exists>r \<in> set (replicas_listed n now (replica_run es db)). rp_id r = i"
  using beaten_run [OF assms(1,2)] assms(3)
  by (auto simp: beaten_def replicas_listed_def list_coderd_replicas_def live_replica_def)

definition registers :: "uuid \<Rightarrow> replica_event \<Rightarrow> bool" where
  "registers i e = (case e of Registers E options now micros \<Rightarrow> rm_id options = i | _ \<Rightarrow> False)"

lemma absent_event:
  assumes "i \<notin> rp_id ` set db" "\<not> registers i e"
  shows "i \<notin> rp_id ` set (replica_event_run e db)"
proof (cases e)
  case (Registers E options now micros)
  then show ?thesis
    using assms
    by (auto simp: registers_def replica_start_def insert_coderd_replica_def replica_attempt_def replica_row_def
        split: option.split prod.split sum.split)
next
  case (Beats E j iv now)
  have refreshed: "rp_id ` set (fst (refresh_coderd_replica E j now db)) \<subseteq> rp_id ` set db"
    by (auto simp: refresh_coderd_replica_def replica_attempt_def split: option.split)
  have pruned: "rp_id ` set (fst (prune_stale_coderd_replicas E o' d)) \<subseteq> rp_id ` set d" for o' d
    by (auto simp: prune_stale_coderd_replicas_def replica_attempt_def split: option.split)
  show ?thesis
  proof (cases "re_fault E RefreshReplica = None")
    case True
    then have "rp_id ` set (replica_event_run e db) \<subseteq> rp_id ` set db"
      unfolding Beats replica_event_run.simps beat_tables using pruned refreshed by (simp only: simp_thms if_True) (rule order_trans)
    then show ?thesis
      using assms(1) by blast
  qed (use assms(1) in \<open>simp add: Beats beat_tables del: not_None_eq\<close>)
next
  case (ShutsDown E j)
  then show ?thesis
    using assms(1)
    by (auto simp: replica_shutdown_def delete_coderd_replica_def replica_attempt_def Let_def split: option.split)
qed

lemma absent_run: "i \<notin> rp_id ` set db \<Longrightarrow> \<not> list_ex (registers i) es \<Longrightarrow> i \<notin> rp_id ` set (replica_run es db)"
proof (induction es arbitrary: db)
  case (Cons e es)
  then show ?case
    using Cons.IH [OF absent_event] by (simp add: replica_run_def)
qed (simp add: replica_run_def)

definition all_well :: "replica_env \<Rightarrow> bool" where
  "all_well E \<longleftrightarrow> (\<forall>call. re_fault E call = None)"

lemma beat_ok: "all_well E \<Longrightarrow> snd (refresh_and_prune E i iv now db) = Ok ()"
  by (simp add: refresh_and_prune_def refresh_coderd_replica_def prune_stale_coderd_replicas_def replica_attempt_def all_well_def Let_def)

text \<open>
  A replica that pauses for longer than the cut-off is lost: the next heartbeat of another replica prunes its row, and its own
  later heartbeats report success without putting it back, however often it beats and whatever the others do.
\<close>

theorem stalled_replica_is_lost:
  assumes "all_well E" "j \<noteq> i" "list_all (\<lambda>r. rp_id r = i \<longrightarrow> rp_proxy_id r = None \<and> rp_updated_at r < pg_instant (now - stale_cutoff iv)) db"
    "\<not> list_ex (registers i) es"
  shows "i \<notin> rp_id ` set (replica_run (Beats E j iv now # es) db) \<and>
    snd (refresh_and_prune E i iv now' (replica_run (Beats E j iv now # es) db)) = Ok ()"
proof -
  have "i \<notin> rp_id ` set (fst (refresh_and_prune E j iv now db))"
    using assms(1-3)
    by (auto simp: beat_tables all_well_def refresh_coderd_replica_def prune_stale_coderd_replicas_def replica_attempt_def
        live_replica_def list_all_iff Let_def split: if_splits)
  then show ?thesis
    using absent_run [OF _ assms(4)] beat_ok [OF assms(1)] by (simp add: replica_run_def)
qed

definition two_replicas :: ReplicaTable where
  "two_replicas = map (\<lambda>i. replica_row \<lparr> ri_id = i, ri_hostname = ''host'', ri_relay_address = [], ri_region_id = 0, ri_version = ''1'',
     ri_database_latency = 0, ri_created_at = 0, ri_started_at = 0, ri_updated_at = 0 \<rparr>) [1, 2]"

definition no_faults :: replica_env where
  "no_faults = \<lparr> re_fault = (\<lambda>_. None), re_reject = Unavailable ''duplicate key'' \<rparr>"

theorem stalled_replica_is_lost_witness:
  "1 \<notin> rp_id ` set (replica_run [Beats no_faults 2 1000 5000, Beats no_faults 1 1000 6000] two_replicas) \<and>
   1 \<in> rp_id ` set two_replicas"
proof -
  have cut: "stale_cutoff 1000 = 3000"
    by (simp add: stale_cutoff_def STALE_MULTIPLIER_def duration_to_time_duration_def DURATION_MAX_def TIME_DURATION_MAX_def seconds_ns_def)
  have "all_well no_faults" "(2 :: uuid) \<noteq> 1" "\<not> list_ex (registers 1) [Beats no_faults 1 1000 6000]"
    by (simp_all add: all_well_def no_faults_def registers_def)
  moreover have "list_all (\<lambda>r. rp_id r = 1 \<longrightarrow> rp_proxy_id r = None \<and> rp_updated_at r < pg_instant (5000 - stale_cutoff 1000)) two_replicas"
    by (simp add: two_replicas_def replica_row_def pg_instant_def cut)
  ultimately have "1 \<notin> rp_id ` set (replica_run [Beats no_faults 2 1000 5000, Beats no_faults 1 1000 6000] two_replicas)"
    using stalled_replica_is_lost [of no_faults 2 1 5000 1000 two_replicas "[Beats no_faults 1 1000 6000]"] by blast
  then show ?thesis
    by (simp add: two_replicas_def replica_row_def)
qed

theorem replica_stays_registered_witness:
  "\<exists>r \<in> set (replicas_listed 15 40000000000 (replica_run [Beats no_faults 1 15000000000 15000000000, Beats no_faults 2 15000000000 30000000000] two_replicas)).
     rp_id r = 1"
proof -
  have cut: "stale_cutoff 15000000000 = 45000000000" "stale_cutoff (seconds_ns 15) = 45000000000"
    by (simp_all add: stale_cutoff_def STALE_MULTIPLIER_def duration_to_time_duration_def DURATION_MAX_def TIME_DURATION_MAX_def seconds_ns_def)
  have "beaten 1 0 two_replicas"
    by (simp add: beaten_def two_replicas_def replica_row_def live_replica_def pg_instant_def)
  moreover have "all_in_time 1 0 [Beats no_faults 1 15000000000 15000000000, Beats no_faults 2 15000000000 30000000000]"
    by (simp add: cut no_faults_def)
  ultimately show ?thesis
    by (rule replica_stays_registered) (simp add: cut no_faults_def pg_instant_def)
qed

end
