(* ===== verification/Connection_Guard.thy ===== *)
theory Connection_Guard
  imports Prelude Byte_Codec
begin

text \<open>
  The limit on concurrent requests, \<open>crates/coder-server/src/connection_guard.rs\<close>: an atomic counter that every request raises
  first and lowers when it is refused or done. Requests interleave at the atomic operations. The counter is the 64-bit word
  of the source; the step relation lets fewer than \<open>2^64\<close> requests be in flight.
\<close>

type_synonym usize = "64 word"

text \<open>\<open>fetch_add\<close> with the comparison that follows: the counter, and whether the request goes on.\<close>

definition guard_enter :: "usize \<Rightarrow> usize \<Rightarrow> usize \<times> bool" where
  "guard_enter max_concurrent counter =
     (let current = counter in (counter + 1, \<not> max_concurrent \<le> current))"

definition guard_leave :: "usize \<Rightarrow> usize" where
  "guard_leave counter = counter - 1"

text \<open>The counter, the requests that run, and the refused ones that have not lowered the counter yet.\<close>

record guard_sys =
  gd_counter :: usize
  gd_running :: nat
  gd_refused :: nat

inductive guard_step :: "usize \<Rightarrow> guard_sys \<Rightarrow> guard_sys \<Rightarrow> bool" for max_concurrent where
  request_admitted: "guard_enter max_concurrent (gd_counter s) = (c, True) \<Longrightarrow> gd_running s + gd_refused s + 1 < 2 ^ 64 \<Longrightarrow>
    guard_step max_concurrent s (s \<lparr> gd_counter := c, gd_running := gd_running s + 1 \<rparr>)"
| request_refused: "guard_enter max_concurrent (gd_counter s) = (c, False) \<Longrightarrow> gd_running s + gd_refused s + 1 < 2 ^ 64 \<Longrightarrow>
    guard_step max_concurrent s (s \<lparr> gd_counter := c, gd_refused := gd_refused s + 1 \<rparr>)"
| refusal_answered: "0 < gd_refused s \<Longrightarrow>
    guard_step max_concurrent s (s \<lparr> gd_counter := guard_leave (gd_counter s), gd_refused := gd_refused s - 1 \<rparr>)"
| request_done: "0 < gd_running s \<Longrightarrow>
    guard_step max_concurrent s (s \<lparr> gd_counter := guard_leave (gd_counter s), gd_running := gd_running s - 1 \<rparr>)"

definition guard_init :: "guard_sys \<Rightarrow> bool" where
  "guard_init s \<longleftrightarrow> s = \<lparr> gd_counter = 0, gd_running = 0, gd_refused = 0 \<rparr>"

definition guard_inv :: "usize \<Rightarrow> guard_sys \<Rightarrow> bool" where
  "guard_inv max_concurrent s \<longleftrightarrow>
     gd_counter s = of_nat (gd_running s + gd_refused s) \<and> gd_running s + gd_refused s < 2 ^ 64 \<and>
     gd_running s \<le> unat max_concurrent"

lemma guard_enter_exact:
  assumes "guard_inv m s"
  shows "guard_enter m (gd_counter s) = (of_nat (Suc (gd_running s + gd_refused s)), gd_running s + gd_refused s < unat m)"
proof -
  have "unat (of_nat n :: usize) = n" if "n < 2 ^ 64" for n
    using that by (simp add: unat_of_nat)
  then have "unat (of_nat (gd_running s + gd_refused s) :: usize) = gd_running s + gd_refused s"
    using assms unfolding guard_inv_def by blast
  then have "m \<le> of_nat (gd_running s + gd_refused s) \<longleftrightarrow> unat m \<le> gd_running s + gd_refused s"
    by (simp only: word_le_nat_alt)
  moreover have "gd_counter s = of_nat (gd_running s + gd_refused s)"
    using assms by (simp add: guard_inv_def)
  ultimately show ?thesis
    unfolding guard_enter_def Let_def by (simp only: of_nat_Suc add.commute [of 1] not_le)
qed

lemma guard_leave_of_nat: "0 < n \<Longrightarrow> guard_leave (of_nat n) = of_nat (n - 1)"
  by (cases n) (simp_all add: guard_leave_def)

lemma guard_inv_step:
  assumes "guard_inv m s" "guard_step m s t"
  shows "guard_inv m t"
  using assms(2)
proof cases
  case (request_admitted c)
  then show ?thesis
    using assms(1) guard_enter_exact [OF assms(1)] by (simp add: guard_inv_def)
next
  case (request_refused c)
  then show ?thesis
    using assms(1) guard_enter_exact [OF assms(1)] by (simp add: guard_inv_def)
next
  case refusal_answered
  then show ?thesis
    using assms(1) guard_leave_of_nat [of "gd_running s + gd_refused s"] by (auto simp: guard_inv_def)
next
  case request_done
  then show ?thesis
    using assms(1) guard_leave_of_nat [of "gd_running s + gd_refused s"] by (auto simp: guard_inv_def)
qed

interpretation guard: transition_invariant guard_init "guard_step m" "guard_inv m" for m
  by unfold_locales (auto simp: guard_init_def guard_inv_def [of _ "\<lparr> gd_counter = 0, gd_running = 0, gd_refused = 0 \<rparr>"] intro: guard_inv_step)

text \<open>
  However requests interleave, never more than the limit run at once, and a request is refused exactly when the running
  requests and the refusals that are still being answered reach the limit; when nothing is in flight the counter is zero.
\<close>

theorem concurrent_requests_bounded:
  assumes "reachable guard_init (guard_step m) s"
  shows "gd_running s \<le> unat m \<and>
    (snd (guard_enter m (gd_counter s)) \<longleftrightarrow> gd_running s + gd_refused s < unat m) \<and>
    (gd_running s = 0 \<and> gd_refused s = 0 \<longrightarrow> gd_counter s = 0)"
  using guard.reachable_inv [OF assms] guard_enter_exact [OF guard.reachable_inv [OF assms]]
  by (simp add: guard_inv_def)

theorem concurrent_requests_bounded_witness:
  "\<exists>s. reachable guard_init (guard_step 1) s \<and> gd_running s = 1 \<and> \<not> snd (guard_enter 1 (gd_counter s))"
proof -
  let ?s = "\<lparr> gd_counter = 1, gd_running = 1, gd_refused = 0 \<rparr>"
  have "guard_step 1 \<lparr> gd_counter = 0, gd_running = 0, gd_refused = 0 \<rparr> ?s"
    using request_admitted [of 1 "\<lparr> gd_counter = 0, gd_running = 0, gd_refused = 0 \<rparr>" 1] by (simp add: guard_enter_def)
  then have "reachable guard_init (guard_step 1) ?s"
    by (rule reach_step [where s = "\<lparr> gd_counter = 0, gd_running = 0, gd_refused = 0 \<rparr>", rotated]) (simp add: reach_init guard_init_def)
  then show ?thesis
    using concurrent_requests_bounded [of 1 ?s] by (intro exI [of _ ?s]) simp
qed

end
