(* ===== verification/Spec2Isabelle.thy ===== *)
theory Spec2Isabelle
  imports Rego_Sql Circuit_Breaker Retry Drpc_Wire License_Service Prebuild_Builder Provisioner_Server
    Tailnet_Coordinator Derp_Mesh Proxy_Routing Idp_Sync Workspace_Lifecycle
    Dbauthz Pty_Sessions Auth_Accounts OAuth2_Consent Key_Rotation
    Pubsub Audit_Sink Replica_Manager Connection_Guard
begin

text \<open>
  Verification of a Rust control plane for remote development workspaces.

  The program is a workspace of crates: an HTTP server (\<open>crates/coder-server\<close>) whose handlers call
  service crates (authentication, identity, workspaces, provisioner, notifications, license), a
  store over Postgres (\<open>crates/coder-db\<close>), the role-based access control that guards every
  operation (\<open>crates/coder-rbac\<close>), the connections to workspace agents
  (\<open>crates/coder-connectivity\<close>, \<open>crates/coder-agent-rpc\<close>), and a core crate
  (\<open>crates/coder-core\<close>) with shared types and the fault-tolerance helpers the services wrap their
  remote calls in. The development follows this order of trust: access control first, then the
  mechanisms the other services rely on.

  Shared layer.
  \<^item> \<open>Prelude\<close>: \<open>Result\<close> as a sum type, the parts of the Rust standard library that are used
    (string splitting, ASCII case folding, decimal printing, saturating arithmetic on machine
    words), \<open>HashMap\<close> as the locale \<open>key_value_store\<close> with its interpretation \<open>hm\<close> on association
    lists with distinct keys, and reachable states of a step relation with the locale
    \<open>transition_invariant\<close>.
  \<^item> \<open>Uuid_Text\<close>: identifiers of 128 bits; the textual form belongs to the \<open>uuid\<close> crate and is the
    parameter \<open>uuid_codec\<close>, its documented behaviour the locale \<open>uuid_text\<close>, interpreted on the
    hyphenated codec. \<open>Core_Types\<close>: the storage errors of \<open>coder-core/src/ports.rs\<close>.

  Access control (\<open>crates/coder-rbac/src/lib.rs\<close>, \<open>system_actors.rs\<close>, \<open>regosql.rs\<close>).
  \<^item> \<open>Rbac_Types\<close>: actions, resource types with their names and parser, objects, permissions, roles.
    \<open>Rbac_Scope\<close>: API-key scopes and their allow lists, actors. \<open>System_Actors\<close>: the eight internal
    subjects and their permission lists. \<open>Rbac_Roles\<close>: the built-in site and organization roles and
    the expansion of role names.
  \<^item> \<open>Rbac_Authorizer\<close>: the decision procedure \<open>authorize\<close> (scope, deny pass, grant pass, access
    lists) and an independent declarative policy \<open>permitted\<close>; the refinement theorem says that the
    procedure answers \<open>Ok\<close> exactly where the policy permits.
  \<^item> \<open>Rbac_Properties\<close>: consequences for the built-in roles: scopes only restrict, an agent key is
    confined to its workspace, organizations are isolated, the creation ban overrides everything,
    the exact reach of owners, organization administrators, members and system actors, and what
    happens to unknown scope names.
  \<^item> \<open>Rego_Sql\<close>: the SQL filter that the list queries use in place of the authorizer, its placeholder
    rebinding, what it denies, and three actors for whom it is wider than the authorizer.

  Fault tolerance (\<open>crates/coder-core/src\<close>).
  \<^item> \<open>Circuit_Breaker\<close> (\<open>circuit_breaker.rs\<close>): every critical section of the breaker's mutex is a
    function of the breaker and the clock; callers interleave in the relation \<open>breaker_step\<close>. The
    lemmas give the invariant of the counters, exactly when calls are refused, when the breaker
    trips, that it recovers, and that half-open admission is unbounded.
  \<^item> \<open>Retry\<close> (\<open>retry.rs\<close>): strategies and the retry loop, with the operation as a function on the
    caller's state and the random generator as a parameter. The loop always returns (no fuel: it
    runs over the finite list of attempts, and the branch the source marks as unreachable is
    \<open>None\<close>); delays are exact and bounded.

  Agent protocol (\<open>crates/coder-agent-rpc/src/wire.rs\<close>).
  \<^item> \<open>Byte_Codec\<close>: bytes, big-endian integers and the locale \<open>prefix_codec\<close> for formats that are read
    from the front of a byte string. \<open>Drpc_Wire\<close>: varints, frames, packets and the packet reassembler.
    Reading loops end by a measure on the remaining input. The locale is interpreted for varints,
    frames and packets; fragmented packets are reassembled, the buffers are bounded, and streams do
    not interfere.

  Connectivity (\<open>crates/coder-connectivity/src\<close>, \<open>crates/coder-server/src/handlers/derp.rs\<close>).
  \<^item> \<open>Tailnet_Tunnels\<close> and \<open>Tailnet_Coordinator\<close> (\<open>tailnet.rs\<close>): tunnels as a symmetric relation
    behind a locale; peers, sessions, subscriptions and the handling of a request. The mutex is the
    record; a poisoned mutex is a flag. The lemmas give the consistency of the tables in every
    reachable state, exactly who hears of a node update, that unrelated peers notice nothing, and what
    closing and taking over a session do.
  \<^item> \<open>Derp_Wire\<close>, \<open>Derp_Server\<close>, \<open>Derp_Mesh\<close> (\<open>derp.rs\<close>, \<open>handlers/derp.rs\<close>): frames and node keys, the
    relay with bounded channels, client sessions as folds over web-socket messages, and mesh links.
    Packets carry their sender's key, are delivered once and in order, and the tables stay well formed;
    three defects are proved as such.
  \<^item> \<open>Proxy_Routing\<close> (\<open>proxy_routing.rs\<close>): the router over circuit breakers refines one independent
    breaker per proxy, and selection is exact.

  Licensing (\<open>crates/coder-license/src\<close>).
  \<^item> \<open>License_Features\<close> (\<open>features.rs\<close>, \<open>entitlements.rs\<close>): feature names and the merge of feature
    entries, which the locale \<open>ranked_merge\<close> shows to be a maximum. \<open>License_Service\<close>
    (\<open>license.rs\<close>, \<open>service.rs\<close>): claims, validation, the computation of entitlements from stored
    licenses and the service operations; token decoding, timestamps, JSON conversion and the store
    are parameters. Entitlements are exactly the best grants of the live licenses, in any order.

  Provisioning (\<open>crates/coder-core/src/provisioner.rs\<close>, \<open>crates/coder-db/src/store/provisioner.rs\<close>,
  \<open>crates/coder-provisioner/src/lib.rs\<close> and \<open>server.rs\<close>,
  \<open>crates/coder-workspaces/src/prebuilds_reconciler.rs\<close>).
  \<^item> \<open>Provisioner_Tags\<close>: tag normalisation and daemon matching; matching respects tenants.
  \<^item> \<open>Provisioner_Store\<close>: jobs, logs, timings, daemons and keys, one function per SQL statement.
    \<open>Provisioner_Server\<close>: the service, the stale-job reaper and daemon sessions. Sessions, service calls
    and the reaper interleave in \<open>prov_step\<close>; a job is worked on in one session at most, the oldest
    fitting job is handed out, stale jobs are finished, accepted logs are read back, and three ways in
    which jobs go wrong are proved.
  \<^item> \<open>Prebuilds\<close>: the deltas between desired and running prebuilt workspaces and the tick that
    applies them through an executor; targets are met, and the hard limit holds unless a delete
    fails. \<open>Prebuild_Builder\<close>: the executor, \<open>builder.rs\<close>, and the query for running prebuilds over the
    workspace tables; the closed loop never settles, since no statement records the preset of a build.

  Identity (\<open>crates/coder-auth/src/idpsync\<close>, \<open>crates/coder-server/src/handlers/auth.rs\<close>).
  \<^item> \<open>Identity_Tables\<close>: the store statements on users, organizations, members and groups that the
    identity-provider sync uses. \<open>Idp_Sync\<close>: claims, the organization, role and group syncs and their
    composition at login. Each sync is exact when the statements succeed, and a login never takes away
    what a person granted, whatever fails.

  Workspaces (\<open>crates/coder-workspaces/src/lib.rs\<close>, \<open>crates/coder-db/src/store/app_store.rs\<close>).
  \<^item> \<open>Workspace_Store\<close>: the statements on workspaces, builds and build jobs, with the keys of the
    migrations, and the query for workspaces that are due. The locale \<open>transition_invariant\<close> is
    interpreted as \<open>ws_tables\<close>: keys, names and build numbers stay unique whatever fails.
  \<^item> \<open>Workspace_Schedule\<close>: autostart schedules, quiet hours, dormancy and the autostop requirement; cron
    expressions and time zones are parameters. \<open>Workspace_Lifecycle\<close>: the eligibility rules and one tick
    of each of the four workers. The query loses nothing the rules would act on, a tick creates exactly
    the builds the rules decide on and never stacks them, the executor only acts when something is
    due, and the bump is bounded. Two defects are proved: the bump comes only after the deadline, and
    a requirement of several weeks can give a deadline in the past.
  \<^item> \<open>Rust_Text\<close>: splitting, trimming and number parsing of Rust strings, shared by several theories.

  Guarded store (\<open>crates/coder-db/src/dbauthz.rs\<close>).
  \<^item> \<open>Dbauthz\<close>: every method asks the authorizer and delegates to the inner store, whose methods are
    arguments. The locale \<open>reference_monitor\<close> says what a guarded interface promises; it is interpreted
    on the workspace mutations over the statements of \<open>Workspace_Store\<close>. A run through the wrapper is the
    run of the permitted calls, an agent's key reaches one workspace only, and the guards that only
    know an identifier differ from the policy in both directions.

  Terminal sessions (\<open>crates/coder-auth/src/reconnecting_pty.rs\<close>,
  \<open>crates/coder-server/src/reconnecting_pty.rs\<close>, \<open>crates/coder-server/src/handlers/agents.rs\<close>).
  \<^item> \<open>Pty_Token\<close>: capability tokens; MAC and base64 are parameters with their documented laws as
    hypotheses. A signed token is accepted exactly for its binding until it expires, and nothing
    unsigned is accepted. \<open>Pty_Sessions\<close>: the ring buffer, sessions as cells of a heap, the store and
    its guards. Attaching, detaching and sweeping are tasks that interleave between the critical
    sections of the locks. Guards stay with their agent and replay exactly the last bytes; a lost
    interval between replay and subscription, a race that drops a new session, and the missing
    authorization of the terminal endpoint are proved as defects.

  Authentication (\<open>crates/coder-core/src/password.rs\<close>, \<open>crates/coder-auth/src/lib.rs\<close> and
  \<open>session_cache.rs\<close>, \<open>crates/coder-server/src/auth_middleware.rs\<close>).
  \<^item> \<open>Hex_Text\<close>: hexadecimal text, a concrete encoding for examples. \<open>Passwords\<close>: the rules for names,
    addresses and passwords, stored password hashes and session tokens; PBKDF2, SHA-256 and base64 are
    parameters whose laws are the locale \<open>token_engine\<close>. \<open>Auth_Tables\<close>: users, sessions and API keys with
    their statements.
  \<^item> \<open>Session_Cache\<close>: the cache of answered sessions; the locale \<open>voucher_cache\<close> says that it only repeats
    what was put in, for a limited time. \<open>Auth_Service\<close>: every operation of \<open>AuthService\<close>.
    \<open>Auth_Middleware\<close>: token extraction, API keys, sessions and the activation of dormant users.
  \<^item> \<open>Auth_Sessions\<close> and \<open>Auth_Accounts\<close>: a token is only accepted while, or shortly after, the database
    binds it; logouts and password changes revoke; a login is exact. Three defects are proved: created
    keys are never accepted, a late answer of the database revives a session, and a cached status
    undoes a suspension.

  OAuth2 provider (\<open>OAuth2ProviderService\<close> of \<open>crates/coder-auth/src/lib.rs\<close>,
  \<open>crates/coder-server/src/handlers/oauth2.rs\<close>).
  \<^item> \<open>Single_Use\<close>: the protocol of one-time credentials, checked, deleted and then answered, with tasks that
    interleave between the three parts; the locale \<open>single_use\<close> (a \<open>sublocale\<close> of \<open>transition_invariant\<close>) shows
    that nothing is handed out twice. \<open>OAuth2_Tables\<close>, \<open>OAuth2_Provider\<close>, \<open>OAuth2_Handlers\<close>: the
    statements, the service and the endpoints.
  \<^item> \<open>OAuth2_Grants\<close>: \<open>single_use\<close> is interpreted for authorization codes and for refresh tokens; an
    exchange is exact, refreshing rotates, revoking is exact. \<open>OAuth2_Consent\<close>: a consent form gives a code
    only for what the user was asked; the second authorization endpoint, which never asks, is proved as a
    defect, as are the failure of dynamic registration and the keys a deleted application leaves.

  Signing keys (\<open>crates/coder-server/src/crypto_key_rotator.rs\<close>, \<open>handlers/workspaceproxies.rs\<close>).
  \<^item> \<open>Crypto_Keys\<close>: the table of keys, the rotation sweep under its advisory lock, and the endpoint that
    hands keys to workspace proxies. \<open>Key_Rotation\<close>: a sweep and a request are sequences of three moves;
    \<open>transition_invariant\<close> is interpreted as \<open>rotation\<close> on sweeps and requests with failing statements. A
    feature with a key always has a usable one, and a key outlives the tokens it signs. Sweeps and
    requests are steps that do not overlap, on clocks that do not run backwards.

  Messages and background tasks (\<open>crates/coder-core/src/pubsub.rs\<close>, \<open>crates/coder-db/src/pubsub.rs\<close>,
  \<open>crates/coder-audit/src/batched_sink.rs\<close>, \<open>replica_manager.rs\<close>, \<open>connection_guard.rs\<close>).
  \<^item> \<open>Pubsub\<close>: channel names, subscriptions and the two hubs. What an operation of the Postgres hub does after
    giving up its lock is a task that interleaves with everything else (\<open>pubsub_step\<close>, \<open>pg_hub\<close>). Messages
    reach exactly the subscribers, except on a channel that was created again during its own clean-up,
    which stays deaf; the race is proved. Names do not collide and fit Postgres' limit.
  \<^item> \<open>Audit_Sink\<close>: callers, the closer and the turns of the flush task interleave (\<open>sink_step\<close>, \<open>sink\<close>). Events
    are handed on once, in order and in bounded batches, and closing ends within a bound on the turns.
  \<^item> \<open>Replica_Manager\<close>: a replica that beats in time stays listed, one that pauses too long is lost for good.
    \<open>Connection_Guard\<close>: the concurrent requests stay within the limit, over a 64-bit counter.

  Conventions. Errors are values of the sum type, a mutable \<open>self\<close> is an argument and a result, a
  mutex or lock is a record threaded through its critical sections, instants and durations are
  numbers of nanoseconds, and 32- and 64-bit counters are words where the source saturates or could
  wrap. Log lines and metrics are left out throughout.

  The parts of the database that are modelled are lists of rows changed by one function per
  statement; which statements fail, which rows are locked and in which order equal rows come is a
  parameter of the environment. Statements are atomic; where several tasks use a table, they
  interleave statement by statement or branch by branch of their event loop.

  Not modelled: the SQL of the other domains, HTTP routing and the handlers, cryptography, remote
  services (external authentication, OAuth logins, notifications, telemetry), generated protobuf code,
  the executables, tests and benchmarks. Next would come the identity service and
  rate limiting, which needs the address parser of the standard library.
\<close>

end
